(* ===== verification/Prelude.thy ===== *)
theory Prelude
  imports Main "HOL-Library.Word"
begin

unbundle bit_operations_syntax

text \<open>
  Shared vocabulary of the development.

  \<^item> Results: a Python call that may raise is a value of \<open>exn + 'a\<close>; \<open>Inl\<close> is the
    raised exception, \<open>Inr\<close> the returned value. \<open>guarded\<close> is a run of
    \<open>if bad: raise ...\<close> statements in source order, \<open>rbind\<close> sequences two calls.
  \<^item> Bytes: Python \<open>bytes\<close> are lists of 8-bit words; \<open>bslice\<close> is \<open>data[i:j]\<close> for
    non-negative bounds, \<open>put\<close> a slice assignment of equal length, \<open>rd\<close> one
    little-endian integer read by \<open>struct.unpack_from\<close>, \<open>to_bytes8\<close> is
    \<open>int.to_bytes(8, "little")\<close>, \<open>pack_into\<close> the
    \<open>struct.pack_into\<close> of a format given as a list of (width, value) fields.
    Python integers are \<open>int\<close>, so a value that does not fit its field is the
    \<open>struct.error\<close> the source would raise.
  \<^item> Interfaces: the locale \<open>codec\<close> (an encoder, a decoder and the values they
    agree on), the locale \<open>gate\<close> (a list of named checks whose failures are
    reported in order) and the locale \<open>ratchet\<close> (a step relation under which a
    counter grows and a floor never sinks) are stated here once; the components
    interpret them on their own definitions.
\<close>

named_theorems bytes_simps \<open>reading fields and slices back out of written byte arrays\<close>
named_theorems code_defs \<open>definitions of the source's integer constants\<close>


section \<open>Results and exceptions\<close>

datatype exn =
    Fail string \<comment> \<open>the module's own exception class, carrying its code\<close>
  | StructError \<comment> \<open>struct.error\<close>
  | IndexError
  | KeyError
  | OverflowError
  | UnicodeError
  | ValueError

type_synonym 'a res = "exn + 'a"

fun rbind :: "'a res \<Rightarrow> ('a \<Rightarrow> 'b res) \<Rightarrow> 'b res" where
  "rbind (Inl e) k = Inl e"
| "rbind (Inr x) k = k x"

fun guarded :: "(bool \<times> string) list \<Rightarrow> 'a res \<Rightarrow> 'a res" where
  "guarded [] k = k"
| "guarded ((bad, code) # gs) k = (if bad then Inl (Fail code) else guarded gs k)"

fun rmap :: "('a \<Rightarrow> 'b res) \<Rightarrow> 'a list \<Rightarrow> 'b list res" where
  "rmap f [] = Inr []"
| "rmap f (x # xs) = rbind (f x) (\<lambda>y. rbind (rmap f xs) (\<lambda>ys. Inr (y # ys)))"

fun rfold :: "('a \<Rightarrow> 'b \<Rightarrow> 'b res) \<Rightarrow> 'a list \<Rightarrow> 'b \<Rightarrow> 'b res" where
  "rfold f [] acc = Inr acc"
| "rfold f (x # xs) acc = rbind (f x acc) (rfold f xs)"

definition returns :: "'a res \<Rightarrow> bool" where
  "returns r \<longleftrightarrow> (case r of Inl _ \<Rightarrow> False | Inr _ \<Rightarrow> True)"

lemma returns_simps [simp]: "returns (Inr x)" "\<not> returns (Inl e)"
  by (simp_all add: returns_def)

lemma returns_iff: "returns r \<longleftrightarrow> (\<exists>x. r = Inr x)"
  by (cases r) simp_all

lemma rbind_Inr_iff: "rbind r k = Inr y \<longleftrightarrow> (\<exists>x. r = Inr x \<and> k x = Inr y)"
  by (cases r) simp_all

lemma guarded_Inr_iff:
  "guarded gs k = Inr x \<longleftrightarrow> list_all (\<lambda>(bad, _). \<not> bad) gs \<and> k = Inr x"
  by (induction gs k rule: guarded.induct) auto

lemma guarded_pass: "list_all (\<lambda>(bad, _). \<not> bad) gs \<Longrightarrow> guarded gs k = k"
  by (induction gs k rule: guarded.induct) auto

text \<open>Whatever a run of guards raises is one of its own codes or comes from its continuation.\<close>

lemma guarded_Inl:
  "guarded gs k = Inl e \<Longrightarrow> (\<exists>c. e = Fail c \<and> (True, c) \<in> set gs) \<or> k = Inl e"
  by (induction gs k rule: guarded.induct) (auto split: if_splits)

declare guarded.simps [simp del]

text \<open>A computation that raises nothing but the error class of its module.\<close>

definition own_errors :: "'a res \<Rightarrow> bool" where
  "own_errors r \<longleftrightarrow> (\<forall>e. r = Inl e \<longrightarrow> (\<exists>c. e = Fail c))"

lemma own_errors_Inr [simp]: "own_errors (Inr x)"
  by (simp add: own_errors_def)

lemma own_errors_Fail [simp]: "own_errors (Inl (Fail c))"
  by (simp add: own_errors_def)

lemma own_errors_guarded: "(list_all (\<lambda>(bad, _). \<not> bad) gs \<Longrightarrow> own_errors k) \<Longrightarrow> own_errors (guarded gs k)"
  by (induction gs k rule: guarded.induct) (simp_all add: guarded.simps)

lemma own_errors_rbind: "own_errors r \<Longrightarrow> (\<And>x. r = Inr x \<Longrightarrow> own_errors (k x)) \<Longrightarrow> own_errors (rbind r k)"
  by (cases r) (simp_all add: own_errors_def)

lemma own_errors_rmap: "(\<And>x. x \<in> set xs \<Longrightarrow> own_errors (f x)) \<Longrightarrow> own_errors (rmap f xs)"
  by (induction xs) (simp_all add: own_errors_rbind)

lemma own_errors_rfold: "(\<And>x s. x \<in> set xs \<Longrightarrow> own_errors (f x s)) \<Longrightarrow> own_errors (rfold f xs s)"
  by (induction xs arbitrary: s) (simp_all add: own_errors_rbind)

lemma rmap_Inr_length: "rmap f xs = Inr ys \<Longrightarrow> length ys = length xs"
  by (induction xs arbitrary: ys) (auto simp: rbind_Inr_iff)

lemma rmap_all: "rmap f xs = Inr ys \<Longrightarrow> (\<And>x y. f x = Inr y \<Longrightarrow> P y) \<Longrightarrow> list_all P ys"
  by (induction xs arbitrary: ys) (auto simp: rbind_Inr_iff)

text \<open>A fold over a range of indices, by an invariant that may depend on the index.\<close>

lemma rfold_upt:
  assumes "\<And>i s. i < n \<Longrightarrow> P i s \<Longrightarrow> \<exists>s'. f i s = Inr s' \<and> P (Suc i) s'" "P k s" "k \<le> n"
  shows "\<exists>s'. rfold f [k..<n] s = Inr s' \<and> P n s'"
  using assms(3,2)
proof (induction "n - k" arbitrary: k s)
  case (Suc d)
  then have k: "k < n" by simp
  with assms(1) [OF k Suc.prems(2)] obtain s' where s': "f k s = Inr s'" "P (Suc k) s'" by blast
  with Suc.hyps(1) [of "Suc k" s'] Suc.hyps(2) k show ?case by (simp add: upt_conv_Cons)
qed simp

lemma rfold_upt_inv:
  assumes "\<And>i s s'. i < n \<Longrightarrow> P i s \<Longrightarrow> f i s = Inr s' \<Longrightarrow> P (Suc i) s'" "rfold f [k..<n] s = Inr s'" "P k s" "k \<le> n"
  shows "P n s'"
  using assms(4,2,3)
proof (induction "n - k" arbitrary: k s)
  case (Suc d)
  then have k: "k < n" by simp
  with Suc.prems(2) obtain t where t: "f k s = Inr t" "rfold f [Suc k..<n] t = Inr s'"
    by (auto simp: upt_conv_Cons rbind_Inr_iff)
  show ?case using Suc.hyps(1) [of "Suc k" t] Suc.hyps(2) k t(2) assms(1) [OF k Suc.prems(3) t(1)] by simp
qed simp

lemma rfold_append: "rfold f (xs @ ys) a = rbind (rfold f xs a) (rfold f ys)"
proof (induction xs arbitrary: a)
  case (Cons x xs)
  then show ?case by (cases "f x a") simp_all
qed simp

lemma rfold_unit: "(\<And>x. x \<in> set xs \<Longrightarrow> f x () = Inr ()) \<Longrightarrow> rfold f xs () = Inr ()"
  by (induction xs) auto

lemma rfold_unit_iff: "rfold f xs () = Inr () \<longleftrightarrow> (\<forall>x \<in> set xs. f x () = Inr ())"
  by (induction xs) (auto simp: rbind_Inr_iff)

lemma rmap_length: "rmap f xs = Inr ys \<Longrightarrow> length ys = length xs"
  by (induction xs arbitrary: ys) (auto simp: rbind_Inr_iff)

lemma rmap_nth:
  "rmap f xs = Inr ys \<Longrightarrow> i < length xs \<Longrightarrow> f (xs ! i) = Inr (ys ! i)"
proof (induction xs arbitrary: ys i)
  case Nil
  then show ?case by simp
next
  case (Cons x xs)
  then show ?case by (cases i) (auto simp: rbind_Inr_iff)
qed

lemma rmap_eq_map:
  "rmap f xs = Inr ys \<Longrightarrow> (\<And>x y. x \<in> set xs \<Longrightarrow> f x = Inr y \<Longrightarrow> y = g x) \<Longrightarrow> ys = map g xs"
  by (induction xs arbitrary: ys) (auto simp: rbind_Inr_iff)

lemma rmap_all_Inr: "(\<And>x. x \<in> set xs \<Longrightarrow> f x = Inr (g x)) \<Longrightarrow> rmap f xs = Inr (map g xs)"
  by (induction xs) auto


section \<open>Bytes, slices and little-endian integers\<close>

type_synonym byte = "8 word"
type_synonym bytes = "8 word list"

definition bslice :: "bytes \<Rightarrow> nat \<Rightarrow> nat \<Rightarrow> bytes" where
  "bslice data i j = take (j - i) (drop i data)"

definition put :: "bytes \<Rightarrow> nat \<Rightarrow> bytes \<Rightarrow> bytes" where
  "put data i bs = take i data @ bs @ drop (i + length bs) data"

text \<open>\<open>destination[i : j] = source\<close> on a \<open>bytearray\<close>.\<close>

definition slice_assign :: "bytes \<Rightarrow> nat \<Rightarrow> nat \<Rightarrow> bytes \<Rightarrow> bytes" where
  "slice_assign destination i j source = take i destination @ source @ drop (max i j) destination"

fun le_int :: "bytes \<Rightarrow> int" where
  "le_int [] = 0"
| "le_int (b # bs) = uint b + 256 * le_int bs"

fun le_bytes :: "nat \<Rightarrow> int \<Rightarrow> bytes" where
  "le_bytes 0 v = []"
| "le_bytes (Suc n) v = word_of_int v # le_bytes n (v div 256)"

definition rd :: "nat \<Rightarrow> bytes \<Rightarrow> nat \<Rightarrow> int" where
  "rd n data i = le_int (bslice data i (i + n))"

definition any_byte :: "bytes \<Rightarrow> bool" where
  "any_byte bs \<longleftrightarrow> list_ex (\<lambda>b. b \<noteq> 0) bs"

definition zeros :: "nat \<Rightarrow> bytes" where
  "zeros n = replicate n 0"

definition fits :: "nat \<Rightarrow> int \<Rightarrow> bool" where
  "fits n v \<longleftrightarrow> 0 \<le> v \<and> v < 256 ^ n"

fun poke :: "bytes \<Rightarrow> nat \<Rightarrow> (nat \<times> int) list \<Rightarrow> bytes" where
  "poke data off [] = data"
| "poke data off ((n, v) # fs) = poke (put data off (le_bytes n v)) (off + n) fs"

definition pack_into :: "bytes \<Rightarrow> nat \<Rightarrow> (nat \<times> int) list \<Rightarrow> bytes res" where
  "pack_into data off fs =
     (if list_all (\<lambda>(n, v). fits n v) fs \<and> off + sum_list (map fst fs) \<le> length data
      then Inr (poke data off fs) else Inl StructError)"

definition to_bytes8 :: "int \<Rightarrow> bytes res" where
  "to_bytes8 v = (if fits 8 v then Inr (le_bytes 8 v) else Inl OverflowError)"

lemma length_le_bytes [simp]: "length (le_bytes n v) = n"
  by (induction n arbitrary: v) simp_all

lemma uint_byte_of_int: "uint (word_of_int v :: byte) = v mod 256"
  by (simp add: uint_word_of_int)

lemma le_int_le_bytes [bytes_simps]: "fits n v \<Longrightarrow> le_int (le_bytes n v) = v"
proof (induction n arbitrary: v)
  case 0
  then show ?case by (simp add: fits_def)
next
  case (Suc n)
  then have "fits n (v div 256)"
    by (auto simp: fits_def)
  then have "le_int (le_bytes n (v div 256)) = v div 256"
    by (rule Suc.IH)
  then show ?case by (simp add: uint_byte_of_int)
qed

lemma le_int_nonneg [simp]: "0 \<le> le_int bs"
  by (induction bs) simp_all

lemma le_int_less: "le_int bs < 256 ^ length bs"
proof (induction bs)
  case Nil
  then show ?case by simp
next
  case (Cons b bs)
  have "uint b < 256" using uint_lt2p [of b] by simp
  with Cons show ?case by simp
qed

lemma fits_le_int: "fits (length bs) (le_int bs)"
  by (simp add: fits_def le_int_less)

lemma le_bytes_le_int [simp]: "le_bytes (length bs) (le_int bs) = bs"
proof (induction bs)
  case Nil
  then show ?case by simp
next
  case (Cons b bs)
  have b: "0 \<le> uint b" "uint b < 256" using uint_lt2p [of b] by simp_all
  have "(word_of_int (uint b + 256 * le_int bs) :: byte) = b"
  proof (rule word_uint_eqI)
    show "uint (word_of_int (uint b + 256 * le_int bs) :: byte) = uint b"
      using b by (simp add: uint_byte_of_int del: of_int_add of_int_mult)
  qed
  moreover have "(uint b + 256 * le_int bs) div 256 = le_int bs"
    using b by simp
  ultimately show ?case using Cons by simp
qed

lemma le_int_inj: "length xs = length ys \<Longrightarrow> le_int xs = le_int ys \<Longrightarrow> xs = ys"
  by (metis le_bytes_le_int)


subsection \<open>Slices of written arrays\<close>

lemma length_slice [bytes_simps]: "j \<le> length d \<Longrightarrow> length (bslice d i j) = j - i"
  by (simp add: bslice_def)

lemma length_put [bytes_simps]: "i + length bs \<le> length d \<Longrightarrow> length (put d i bs) = length d"
  by (simp add: put_def)

lemma length_zeros [simp]: "length (zeros n) = n"
  by (simp add: zeros_def)

lemma slice_put_before: "j \<le> i \<Longrightarrow> i + length bs \<le> length d \<Longrightarrow> bslice (put d i bs) k j = bslice d k j"
proof -
  assume a: "j \<le> i" "i + length bs \<le> length d"
  have "take j (put d i bs) = take j d"
    using a by (simp add: put_def min_absorb1)
  then show ?thesis
    by (cases "k \<le> j") (simp_all add: bslice_def flip: drop_take take_drop)
qed

lemma slice_put_after: "i + length bs \<le> k \<Longrightarrow> i + length bs \<le> length d \<Longrightarrow> bslice (put d i bs) k j = bslice d k j"
  by (simp add: bslice_def put_def)

lemma slice_put_in:
  assumes "i \<le> k" "k \<le> j" "j \<le> i + length bs" "i + length bs \<le> length d"
  shows "bslice (put d i bs) k j = bslice bs (k - i) (j - i)"
proof -
  have "drop k (put d i bs) = drop (k - i) bs @ drop (i + length bs) d"
    using assms by (simp add: put_def drop_Cons')
  then show ?thesis using assms by (simp add: bslice_def)
qed

lemma slice_put_exact:
  "i + length bs \<le> length d \<Longrightarrow> j = i + length bs \<Longrightarrow> bslice (put d i bs) i j = bs"
  by (simp add: bslice_def put_def)

lemma slice_zeros [bytes_simps]: "j \<le> n \<Longrightarrow> bslice (zeros n) i j = zeros (j - i)"
  by (simp add: bslice_def zeros_def min_def)

lemma slice_full: "length d \<le> j \<Longrightarrow> bslice d 0 j = d"
  by (simp add: bslice_def)

lemma slice_to_drop: "length d \<le> j \<Longrightarrow> bslice d i j = drop i d"
  by (simp add: bslice_def)

lemma any_byte_zeros [simp]: "\<not> any_byte (zeros n)"
  by (simp add: any_byte_def zeros_def list_ex_iff)

lemma not_any_byte_iff: "\<not> any_byte bs \<longleftrightarrow> bs = zeros (length bs)"
  by (induction bs) (auto simp: any_byte_def zeros_def)

lemma rd_put_before: "k + n \<le> i \<Longrightarrow> i + length bs \<le> length d \<Longrightarrow> rd n (put d i bs) k = rd n d k"
  by (simp add: rd_def slice_put_before)

lemma rd_put_after: "i + length bs \<le> k \<Longrightarrow> i + length bs \<le> length d \<Longrightarrow> rd n (put d i bs) k = rd n d k"
  by (simp add: rd_def slice_put_after)

lemma rd_put_here:
  "fits n v \<Longrightarrow> i + n \<le> length d \<Longrightarrow> rd n (put d i (le_bytes n v)) i = v"
  by (simp add: rd_def slice_put_exact le_int_le_bytes)

lemmas put_reads =
  rd_put_before rd_put_after rd_put_here slice_put_before slice_put_after slice_put_exact

lemma rd_nonneg [simp]: "0 \<le> rd n d i"
  by (simp add: rd_def)

lemma fits_rd [simp]: "i + n \<le> length d \<Longrightarrow> fits n (rd n d i)"
  using fits_le_int [of "bslice d i (i + n)"] by (simp add: rd_def length_slice)

lemma rd_upper: "i + n \<le> length d \<Longrightarrow> rd n d i < 256 ^ n"
  using fits_rd by (simp add: fits_def)

lemma le_bytes_rd: "i + n \<le> length d \<Longrightarrow> le_bytes n (rd n d i) = bslice d i (i + n)"
  using le_bytes_le_int [of "bslice d i (i + n)"] by (simp add: rd_def length_slice)

lemma rd_zeros [bytes_simps]: "i + n \<le> m \<Longrightarrow> rd n (zeros m) i = 0"
proof -
  have "le_int (zeros k) = 0" for k
    by (induction k) (simp_all add: zeros_def)
  then show "i + n \<le> m \<Longrightarrow> rd n (zeros m) i = 0"
    by (simp add: rd_def slice_zeros)
qed


subsection \<open>Packed fields and tables of fixed-size records\<close>

text \<open>
  \<open>packed fs\<close> is the byte string \<open>struct.pack\<close> gives for the fields \<open>fs\<close>;
  \<open>fld fs j n\<close> is the value of the \<open>n\<close>-byte field that starts at byte \<open>j\<close> of it.
\<close>

definition packed :: "(nat \<times> int) list \<Rightarrow> bytes" where
  "packed fs = concat (map (\<lambda>(n, v). le_bytes n v) fs)"

fun fld :: "(nat \<times> int) list \<Rightarrow> nat \<Rightarrow> nat \<Rightarrow> int option" where
  "fld [] j n = None"
| "fld ((m, v) # fs) j n =
     (if j = 0 then (if m = n then Some v else None)
      else if j < m then None else fld fs (j - m) n)"

lemma length_packed [simp]: "length (packed fs) = sum_list (map fst fs)"
  by (induction fs) (auto simp: packed_def)

lemma put_put_adjacent:
  "i + length a + length b \<le> length d \<Longrightarrow> put (put d i a) (i + length a) b = put d i (a @ b)"
  by (simp add: put_def ac_simps)

lemma put_Nil [simp]: "put d i [] = d"
  by (simp add: put_def)

lemma poke_as_put:
  "off + sum_list (map fst fs) \<le> length d \<Longrightarrow> poke d off fs = put d off (packed fs)"
proof (induction fs arbitrary: d off)
  case Nil
  then show ?case by (simp add: packed_def)
next
  case (Cons f fs)
  obtain n v where f: "f = (n, v)" by fastforce
  have "poke d off (f # fs) = put (put d off (le_bytes n v)) (off + n) (packed fs)"
    using Cons by (simp add: f length_put)
  also have "\<dots> = put d off (le_bytes n v @ packed fs)"
    using put_put_adjacent [of off "le_bytes n v" "packed fs" d] Cons.prems f by simp
  finally show ?case by (simp add: f packed_def)
qed

lemma pack_into_ok:
  "list_all (\<lambda>(n, v). fits n v) fs \<Longrightarrow> off + sum_list (map fst fs) \<le> length d \<Longrightarrow>
   pack_into d off fs = Inr (put d off (packed fs))"
  by (simp add: pack_into_def poke_as_put)

text \<open>Packing at the end of what is written so far, in front of the zeroed rest.\<close>

lemma put_append_zeros:
  "k = length pre \<Longrightarrow> length bs \<le> m \<Longrightarrow> put (pre @ zeros m) k bs = (pre @ bs) @ zeros (m - length bs)"
  by (simp add: put_def zeros_def)

lemma pack_into_append:
  "k = length pre \<Longrightarrow> sum_list (map fst fs) \<le> m \<Longrightarrow> pack_into (pre @ zeros m) k fs =
   (if list_all (\<lambda>(n, v). fits n v) fs
    then Inr ((pre @ packed fs) @ zeros (m - sum_list (map fst fs))) else Inl StructError)"
  by (auto simp: pack_into_def poke_as_put put_append_zeros)

lemma packed_append: "packed (xs @ ys) = packed xs @ packed ys"
  by (simp add: packed_def)

lemma slice_assign_zeros:
  "i = length pre + k \<Longrightarrow> j = i + length bs \<Longrightarrow> k + length bs \<le> m \<Longrightarrow>
   slice_assign (pre @ zeros m) i j bs = pre @ zeros k @ bs @ zeros (m - k - length bs)"
  by (simp add: slice_assign_def zeros_def min_def)

lemma pack_into_mid:
  assumes "list_all (\<lambda>(n, v). fits n v) fs" "off = length pre" "length old = sum_list (map fst fs)"
  shows "pack_into (pre @ old @ post) off fs = Inr (pre @ packed fs @ post)"
  using assms by (simp add: pack_into_def poke_as_put put_def)

lemma zeros_0: "zeros 0 = []"
  by (simp add: zeros_def)

lemma zeros_add: "zeros (m + n) = zeros m @ zeros n"
  by (simp add: zeros_def replicate_add)

lemma slice_assign_mid:
  "i = length pre \<Longrightarrow> j = i + length old \<Longrightarrow> slice_assign (pre @ old @ post) i j v = pre @ v @ post"
  by (simp add: slice_assign_def)

lemma zeros_split: "k \<le> m \<Longrightarrow> zeros m = zeros k @ zeros (m - k)"
  by (simp add: zeros_def flip: replicate_add)

lemma rd_append1: "j + n \<le> length a \<Longrightarrow> rd n (a @ b) j = rd n a j"
  by (simp add: rd_def bslice_def)

lemma rd_append2: "length a \<le> j \<Longrightarrow> rd n (a @ b) j = rd n b (j - length a)"
  by (simp add: rd_def bslice_def)

lemma rd_packed:
  "fld fs j n = Some v \<Longrightarrow> list_all (\<lambda>(n, v). fits n v) fs \<Longrightarrow> rd n (packed fs) j = v"
proof (induction fs j n rule: fld.induct)
  case (1 j n)
  then show ?case by simp
next
  case (2 m w fs j n)
  have split: "packed ((m, w) # fs) = le_bytes m w @ packed fs"
    by (simp add: packed_def)
  show ?case
  proof (cases "j = 0")
    case True
    with 2 have "m = n" "w = v" "fits n v" by (auto split: if_splits)
    have "rd n (le_bytes n v @ packed fs) 0 = v"
      using \<open>fits n v\<close> by (simp add: rd_append1) (simp add: rd_def slice_full le_int_le_bytes)
    with True split \<open>m = n\<close> \<open>w = v\<close> show ?thesis by simp
  next
    case False
    with 2 have "\<not> j < m" "rd n (packed fs) (j - m) = v" by (auto split: if_splits)
    then show ?thesis by (simp add: split rd_append2)
  qed
qed

text \<open>
  Reading consecutive fields and packing them again gives the bytes they were read from;
  this is how a decoder is shown to accept one spelling per value only.
\<close>

fun read_fields :: "bytes \<Rightarrow> nat \<Rightarrow> nat list \<Rightarrow> (nat \<times> int) list" where
  "read_fields d off [] = []"
| "read_fields d off (n # ns) = (n, rd n d off) # read_fields d (off + n) ns"

lemma bslice_add:
  "i \<le> j \<Longrightarrow> j \<le> k \<Longrightarrow> bslice d i j @ bslice d j k = bslice d i k"
proof -
  assume "i \<le> j" "j \<le> k"
  then have "k - i = (j - i) + (k - j)" "j = (j - i) + i" by simp_all
  then have "bslice d i k = take (j - i) (drop i d) @ take (k - j) (drop (j - i) (drop i d))"
    unfolding bslice_def by (metis take_add)
  then show "bslice d i j @ bslice d j k = bslice d i k"
    using \<open>i \<le> j\<close> by (simp add: bslice_def)
qed

lemma packed_read_fields:
  "off + sum_list ns \<le> length d \<Longrightarrow> packed (read_fields d off ns) = bslice d off (off + sum_list ns)"
proof (induction ns arbitrary: off)
  case Nil
  then show ?case by (simp add: packed_def bslice_def)
next
  case (Cons n ns)
  then have "packed (read_fields d (off + n) ns) = bslice d (off + n) (off + n + sum_list ns)"
    by simp
  moreover have "le_bytes n (rd n d off) = bslice d off (off + n)"
    using Cons.prems by (simp add: le_bytes_rd)
  ultimately show ?case
    using bslice_add [of off "off + n" "off + n + sum_list ns" d] by (simp add: packed_def add.assoc)
qed

lemma rd_bslice: "j + n \<le> b - a \<Longrightarrow> rd n (bslice d a b) j = rd n d (a + j)"
  by (simp add: rd_def bslice_def drop_take min_def add.commute)

lemma bslice_bslice: "j \<le> b - a \<Longrightarrow> bslice (bslice d a b) i j = bslice d (a + i) (a + j)"
  by (simp add: bslice_def drop_take min_def add.commute)

lemma bslice_append1: "j \<le> length a \<Longrightarrow> bslice (a @ b) i j = bslice a i j"
  by (simp add: bslice_def)

lemma bslice_append2: "length a \<le> i \<Longrightarrow> bslice (a @ b) i j = bslice b (i - length a) (j - length a)"
  by (simp add: bslice_def)

lemma put_pad:
  assumes "bslice d off (off + length a + k) = zeros (length a + k)"
    and "off + length a + k \<le> length d"
  shows "put d off a = put d off (a @ zeros k)"
proof -
  have z: "take k (drop (off + length a) d) = zeros k"
  proof -
    have "take k (drop (off + length a) d) = bslice (bslice d off (off + length a + k)) (length a) (length a + k)"
      by (simp add: bslice_bslice) (simp add: bslice_def)
    then show ?thesis by (simp add: assms(1) slice_zeros)
  qed
  have "drop (off + length a) d = take k (drop (off + length a) d) @ drop (off + length a + k) d"
    by (metis append_take_drop_id drop_drop add.commute)
  then show ?thesis by (simp add: put_def z add.assoc)
qed

lemma length_concat_map:
  "(\<And>x. x \<in> set xs \<Longrightarrow> length (g x) = sz) \<Longrightarrow> length (concat (map g xs)) = length xs * sz"
  by (induction xs) simp_all

text \<open>
  Writing the records of a table one after the other into a zeroed region writes the
  concatenation of their images.
\<close>

lemma rfold_table:
  assumes step: "\<And>i x out. (i, x) \<in> set (enumerate k xs) \<Longrightarrow> length out = N \<Longrightarrow>
      bslice out (base + i * sz) (base + i * sz + sz) = zeros sz \<Longrightarrow>
      f (i, x) out = Inr (put out (base + i * sz) (blk (i, x)))"
    and size: "\<And>x. x \<in> set (enumerate k xs) \<Longrightarrow> length (blk x) = sz"
    and len: "length out = N"
    and fit: "base + (k + length xs) * sz \<le> N"
    and zero: "bslice out (base + k * sz) (base + (k + length xs) * sz) = zeros (length xs * sz)"
  shows "rfold f (enumerate k xs) out =
         Inr (put out (base + k * sz) (concat (map blk (enumerate k xs))))"
  using assms
proof (induction xs arbitrary: k out)
  case Nil
  then show ?case by simp
next
  case (Cons x xs)
  let ?b = "blk (k, x)"
  let ?out = "put out (base + k * sz) ?b"
  have lb: "length ?b = sz" using Cons.prems(2) by simp
  have fit: "base + k * sz + sz \<le> N" "base + (k + length (x # xs)) * sz \<le> N"
    using Cons.prems(4) by (simp_all add: algebra_simps)
  have whole: "base + (k + length (x # xs)) * sz = base + k * sz + length (x # xs) * sz"
    by (simp add: algebra_simps)
  have region: "bslice out (base + k * sz + i) (base + k * sz + j) = zeros (j - i)"
    if "j \<le> length (x # xs) * sz" for i j
  proof -
    have "bslice out (base + k * sz + i) (base + k * sz + j) =
        bslice (bslice out (base + k * sz) (base + (k + length (x # xs)) * sz)) i j"
      using that by (simp only: whole) (simp add: bslice_bslice)
    also have "\<dots> = bslice (zeros (length (x # xs) * sz)) i j"
      by (simp only: Cons.prems(5))
    also have "\<dots> = zeros (j - i)"
      using that by (rule slice_zeros)
    finally show ?thesis .
  qed
  have first: "f (k, x) out = Inr ?out"
    using Cons.prems(3) region [of sz 0] by (intro Cons.prems(1)) simp_all
  have len': "length ?out = N"
    using fit Cons.prems(3) lb by (simp add: length_put)
  have zero': "bslice ?out (base + Suc k * sz) (base + (Suc k + length xs) * sz) = zeros (length xs * sz)"
  proof -
    have "bslice ?out (base + Suc k * sz) (base + (Suc k + length xs) * sz) =
        bslice out (base + k * sz + sz) (base + k * sz + (sz + length xs * sz))"
      using fit Cons.prems(3) lb by (subst slice_put_after) (simp_all add: algebra_simps)
    then show ?thesis by (simp add: region)
  qed
  have "rfold f (enumerate (Suc k) xs) ?out =
      Inr (put ?out (base + Suc k * sz) (concat (map blk (enumerate (Suc k) xs))))"
    using len' fit zero' Cons.prems(1,2) by (intro Cons.IH) (simp_all add: algebra_simps)
  moreover have "put ?out (base + Suc k * sz) (concat (map blk (enumerate (Suc k) xs))) =
      put out (base + k * sz) (?b @ concat (map blk (enumerate (Suc k) xs)))"
  proof -
    have "length (concat (map blk (enumerate (Suc k) xs))) = length (enumerate (Suc k) xs) * sz"
      using Cons.prems(2) by (intro length_concat_map) simp
    then show ?thesis
      using put_put_adjacent [of "base + k * sz" ?b _ out] fit Cons.prems(3) lb
      by (simp add: algebra_simps)
  qed
  ultimately show ?case by (simp add: first)
qed

lemma bslice_concat_nth:
  assumes "\<And>x. x \<in> set xs \<Longrightarrow> length (g x) = sz" "i < length xs"
  shows "bslice (concat (map g xs)) (i * sz) (i * sz + sz) = g (xs ! i)"
  using assms
proof (induction xs arbitrary: i)
  case Nil
  then show ?case by simp
next
  case (Cons x xs)
  have lx: "length (g x) = sz" using Cons.prems by simp
  show ?case
  proof (cases i)
    case 0
    then show ?thesis by (simp add: lx bslice_def)
  next
    case (Suc j)
    have "bslice (concat (map g (x # xs))) (i * sz) (i * sz + sz)
        = bslice (concat (map g xs)) (j * sz) (j * sz + sz)"
      using lx by (simp add: Suc bslice_append2 add.commute)
    also have "\<dots> = g (xs ! j)"
      using Cons.prems Suc by (intro Cons.IH) simp_all
    finally show ?thesis by (simp add: Suc)
  qed
qed

lemma rd_put_in:
  "i \<le> k \<Longrightarrow> k + n \<le> i + length bs \<Longrightarrow> i + length bs \<le> length d \<Longrightarrow>
   rd n (put d i bs) k = rd n bs (k - i)"
  by (simp add: rd_def slice_put_in)

lemma rd_packed_the:
  "fld fs j n \<noteq> None \<Longrightarrow> list_all (\<lambda>(n, v). fits n v) fs \<Longrightarrow> rd n (packed fs) j = the (fld fs j n)"
  using rd_packed by fastforce

lemma rd_at_block:
  "bslice data off (off + sz) = blk \<Longrightarrow> j + n \<le> sz \<Longrightarrow> rd n data (off + j) = rd n blk j"
  using rd_bslice [of j n "off + sz" off data] by simp

lemma bslice_at_block:
  "bslice data off (off + sz) = blk \<Longrightarrow> j \<le> sz \<Longrightarrow> bslice data (off + i) (off + j) = bslice blk i j"
  using bslice_bslice [of j "off + sz" off data i] by simp


section \<open>Hexadecimal digests\<close>

definition hex_digit :: "nat \<Rightarrow> char" where
  "hex_digit n = ''0123456789ABCDEF'' ! n"

definition hex_byte :: "byte \<Rightarrow> string" where
  "hex_byte b = [hex_digit (unat b div 16), hex_digit (unat b mod 16)]"

definition hex_upper :: "bytes \<Rightarrow> string" where
  "hex_upper bs = concat (map hex_byte bs)"

lemma hex_digit_inj: "m < 16 \<Longrightarrow> n < 16 \<Longrightarrow> hex_digit m = hex_digit n \<Longrightarrow> m = n"
proof -
  have d: "distinct ''0123456789ABCDEF''" by simp
  assume "m < 16" "n < 16" "hex_digit m = hex_digit n"
  then show "m = n"
    using nth_eq_iff_index_eq [OF d] by (simp add: hex_digit_def)
qed

lemma unat_byte_less: "unat (b :: byte) < 256"
  using unsigned_less [of b, where 'a = nat] by simp

lemma hex_byte_inj: "hex_byte a = hex_byte b \<Longrightarrow> a = b"
proof -
  assume h: "hex_byte a = hex_byte b"
  have "unat a div 16 < 16" "unat b div 16 < 16"
    using unat_byte_less [of a] unat_byte_less [of b] by simp_all
  with h have "unat a div 16 = unat b div 16" "unat a mod 16 = unat b mod 16"
    by (auto simp: hex_byte_def intro: hex_digit_inj)
  then have "unat a = unat b" by (metis div_mult_mod_eq)
  then show "a = b" by (rule word_unat_eq_iff [THEN iffD2])
qed

lemma hex_upper_eq_iff [simp]: "hex_upper xs = hex_upper ys \<longleftrightarrow> xs = ys"
proof
  assume "hex_upper xs = hex_upper ys"
  then show "xs = ys"
  proof (induction xs arbitrary: ys)
    case Nil
    then show ?case by (cases ys) (simp_all add: hex_upper_def hex_byte_def)
  next
    case (Cons x xs)
    then obtain y ys' where "ys = y # ys'"
      by (cases ys) (simp_all add: hex_upper_def hex_byte_def)
    with Cons show ?case
      using hex_byte_inj [of x y] by (auto simp: hex_upper_def hex_byte_def)
  qed
qed simp


section \<open>Bit masks on Python integers\<close>

lemma and_not_mask_0_iff:
  fixes v :: int
  assumes "0 \<le> v"
  shows "v AND NOT (mask n) = 0 \<longleftrightarrow> v < 2 ^ n"
proof -
  have "v AND NOT (mask n) = 0 \<longleftrightarrow> (\<forall>k. bit v k \<longrightarrow> k < n)"
    by (auto simp: bit_eq_iff bit_and_iff bit_not_iff bit_mask_iff)
  also have "\<dots> \<longleftrightarrow> take_bit n v = v"
    by (auto simp: bit_eq_iff bit_take_bit_iff)
  also have "\<dots> \<longleftrightarrow> v < 2 ^ n"
    using assms by (simp add: take_bit_int_eq_self_iff)
  finally show ?thesis .
qed

lemma and_not_3_0_iff: "0 \<le> (v::int) \<Longrightarrow> v AND NOT 3 = 0 \<longleftrightarrow> v < 4"
  using and_not_mask_0_iff [of v 2] by (simp add: mask_eq_exp_minus_1)

lemma and_not_7_0_iff: "0 \<le> (v::int) \<Longrightarrow> v AND NOT 7 = 0 \<longleftrightarrow> v < 8"
  using and_not_mask_0_iff [of v 3] by (simp add: mask_eq_exp_minus_1)


section \<open>Interfaces\<close>

text \<open>
  A codec: on the values satisfying \<open>ok\<close> the encoder returns and the decoder
  reads the value back up to \<open>view\<close> (what the format stores); every accepted byte
  or character string is the encoding of what was read from it, so the format has one spelling
  per value.
\<close>

locale codec =
  fixes enc :: "'a \<Rightarrow> 'd res"
    and dec :: "'d \<Rightarrow> 'a res"
    and ok :: "'a \<Rightarrow> bool"
    and view :: "'a \<Rightarrow> 'b"
  assumes dec_enc: "ok x \<Longrightarrow> \<exists>d y. enc x = Inr d \<and> dec d = Inr y \<and> view y = view x"
    and enc_dec: "dec d = Inr x \<Longrightarrow> enc x = Inr d"
    and enc_view: "view x = view y \<Longrightarrow> enc x = enc y"
begin

lemma roundtrip:
  assumes "ok x"
  obtains d y where "enc x = Inr d" "dec d = Inr y" "view y = view x"
  using dec_enc [OF assms] by blast

lemma encodes: "ok x \<Longrightarrow> returns (enc x)"
  using dec_enc by (force simp: returns_iff)

lemma dec_inj: "dec d = Inr x \<Longrightarrow> dec e = Inr y \<Longrightarrow> view x = view y \<Longrightarrow> d = e"
  using enc_dec enc_view by (metis sum.inject(2))

lemma enc_inj:
  assumes "ok x" "ok y" "enc x = enc y"
  shows "view x = view y"
proof -
  obtain d x' where x': "enc x = Inr d" "dec d = Inr x'" "view x' = view x"
    using assms(1) by (rule roundtrip)
  obtain e y' where y': "enc y = Inr e" "dec e = Inr y'" "view y' = view y"
    using assms(2) by (rule roundtrip)
  from assms(3) x' y' show ?thesis by simp
qed

lemma canonical: "ok x \<Longrightarrow> enc x = Inr d \<Longrightarrow> dec e = Inr y \<Longrightarrow> view y = view x \<Longrightarrow> e = d"
  using enc_dec enc_view by (metis sum.inject(2))

end

text \<open>
  A gate: named checks evaluated on a subject and a context. \<open>errors\<close> lists the
  codes of the failed checks in order, \<open>authorize\<close> raises the first of them.
\<close>

locale gate =
  fixes checks :: "'s \<Rightarrow> 'c \<Rightarrow> (bool \<times> string) list"
    and errors :: "'s \<Rightarrow> 'c \<Rightarrow> string list"
    and authorize :: "'s \<Rightarrow> 'c \<Rightarrow> unit res"
  assumes errors_eq: "errors s c = map snd (filter (\<lambda>(passed, _). \<not> passed) (checks s c))"
    and authorize_eq: "authorize s c = (case errors s c of [] \<Rightarrow> Inr () | e # _ \<Rightarrow> Inl (Fail e))"
begin

lemma errors_empty_iff: "errors s c = [] \<longleftrightarrow> list_all fst (checks s c)"
  by (auto simp: errors_eq filter_empty_conv list_all_iff)

lemma authorize_iff: "authorize s c = Inr () \<longleftrightarrow> list_all fst (checks s c)"
  by (auto simp: authorize_eq split: list.split simp flip: errors_empty_iff)

lemma in_errors_iff: "e \<in> set (errors s c) \<longleftrightarrow> (False, e) \<in> set (checks s c)"
  by (force simp: errors_eq)

lemma authorize_first:
  assumes "checks s c = pre @ (False, e) # post" "list_all fst pre"
  shows "authorize s c = Inl (Fail e)"
proof -
  have "filter (\<lambda>(passed, _). \<not> passed) pre = []"
    using assms(2) by (auto simp: filter_empty_conv list_all_iff)
  then have "errors s c = e # map snd (filter (\<lambda>(passed, _). \<not> passed) post)"
    by (simp add: errors_eq assms(1))
  then show ?thesis by (simp add: authorize_eq)
qed

end

text \<open>The loop that collects the codes of failed checks is a filter.\<close>

lemma collect_failed:
  "foldl (\<lambda>errors (passed, code). if \<not> passed then errors @ [code] else errors) [] checks =
   map snd (filter (\<lambda>(passed, _). \<not> passed) checks)"
proof -
  have "foldl (\<lambda>errors (passed, code). if \<not> passed then errors @ [code] else errors) acc checks =
      acc @ map snd (filter (\<lambda>(passed, _). \<not> passed) checks)" for acc
    by (induction checks arbitrary: acc) (auto split: prod.split)
  then show ?thesis by simp
qed

text \<open>
  A ratchet: each step of a machine strictly advances its generation and never
  lowers its floor; runs inherit both, so a generation never comes back.
\<close>

locale ratchet =
  fixes step :: "'s \<Rightarrow> 's \<Rightarrow> bool"
    and gen :: "'s \<Rightarrow> int"
    and floor_of :: "'s \<Rightarrow> int"
  assumes gen_step: "step s t \<Longrightarrow> gen s < gen t"
    and floor_step: "step s t \<Longrightarrow> floor_of s \<le> floor_of t"
begin

lemma gen_run: "step\<^sup>*\<^sup>* s t \<Longrightarrow> s = t \<or> gen s < gen t"
  by (induction rule: rtranclp_induct) (auto dest: gen_step)

lemma gen_run_plus: "step\<^sup>+\<^sup>+ s t \<Longrightarrow> gen s < gen t"
  by (induction rule: tranclp_induct) (auto dest: gen_step)

lemma floor_run: "step\<^sup>*\<^sup>* s t \<Longrightarrow> floor_of s \<le> floor_of t"
  by (induction rule: rtranclp_induct) (auto dest: floor_step)

lemma no_return: "step\<^sup>+\<^sup>+ s t \<Longrightarrow> s \<noteq> t"
  using gen_run_plus by fastforce

end

end
