(* ===== verification/Recovery_Constants.thy ===== *)
theory Recovery_Constants
  imports Prelude
begin

unbundle bit_operations_syntax

text \<open>
  The integer vocabulary of PREC1 (\<open>src/runtime/native_recovery.py\<close>, lines 24-205):
  table geometry, feature flags, boot modes, failure classes, fallback actions, slot,
  failure and authority flags, and the flag bits of the mutable state record. Sizes
  and offsets are \<open>nat\<close>, every packed value is \<open>int\<close>; a dictionary of names is the
  list of its keys, in order, since the code only asks for membership. All of them
  are collected in \<open>code_defs\<close>, so that \<open>simp add: code_defs\<close> turns a mask into the
  number the bytes hold.
\<close>

definition PREC_MAGIC :: bytes where [code_defs]:
  "PREC_MAGIC = [0x50, 0x52, 0x45, 0x43, 0x31, 0, 0, 0]"

definition PREC_STATE_MAGIC :: bytes where [code_defs]:
  "PREC_STATE_MAGIC = [0x50, 0x52, 0x45, 0x43, 0x53, 0x54, 0x31, 0]"

definition PREC_MAJOR_VERSION :: int where [code_defs]: "PREC_MAJOR_VERSION = 1"

definition PREC_MINOR_VERSION :: int where [code_defs]: "PREC_MINOR_VERSION = 0"

definition PREC_HEADER_BYTES :: nat where [code_defs]: "PREC_HEADER_BYTES = 256"

definition PREC_TOTAL_BYTES :: nat where [code_defs]: "PREC_TOTAL_BYTES = 992"

definition PREC_STATE_BYTES :: nat where [code_defs]: "PREC_STATE_BYTES = 128"

definition PREC_STATE_CHECKSUM_BYTES :: nat where [code_defs]: "PREC_STATE_CHECKSUM_BYTES = 16"

definition PREC_RECORD_ALIGNMENT :: int where [code_defs]: "PREC_RECORD_ALIGNMENT = 8"

definition PREC_SLOT_COUNT :: nat where [code_defs]: "PREC_SLOT_COUNT = 2"

definition PREC_SLOT_BYTES :: nat where [code_defs]: "PREC_SLOT_BYTES = 96"

definition PREC_FAILURE_COUNT :: nat where [code_defs]: "PREC_FAILURE_COUNT = 10"

definition PREC_FAILURE_BYTES :: nat where [code_defs]: "PREC_FAILURE_BYTES = 32"

definition PREC_AUTHORITY_COUNT :: nat where [code_defs]: "PREC_AUTHORITY_COUNT = 7"

definition PREC_AUTHORITY_BYTES :: nat where [code_defs]: "PREC_AUTHORITY_BYTES = 32"

definition PREC_SLOT_OFFSET :: nat where [code_defs]: "PREC_SLOT_OFFSET = PREC_HEADER_BYTES"

definition PREC_FAILURE_OFFSET :: nat where [code_defs]:
  "PREC_FAILURE_OFFSET =
      PREC_SLOT_OFFSET + PREC_SLOT_COUNT * PREC_SLOT_BYTES"

definition PREC_AUTHORITY_OFFSET :: nat where [code_defs]:
  "PREC_AUTHORITY_OFFSET =
      PREC_FAILURE_OFFSET + PREC_FAILURE_COUNT * PREC_FAILURE_BYTES"

definition MAX_ATTEMPTS_LIMIT :: int where [code_defs]: "MAX_ATTEMPTS_LIMIT = 7"

definition MAX_SUCCESS_DEADLINE_SECONDS :: int where [code_defs]:
  "MAX_SUCCESS_DEADLINE_SECONDS =
      3600"

definition FLAG_FAIL_CLOSED :: int where [code_defs]: "FLAG_FAIL_CLOSED = 2 ^ 0"

definition FLAG_AB_SLOTS :: int where [code_defs]: "FLAG_AB_SLOTS = 2 ^ 1"

definition FLAG_DECREMENT_BEFORE_HANDOFF :: int where [code_defs]:
  "FLAG_DECREMENT_BEFORE_HANDOFF =
      2 ^ 2"

definition FLAG_KNOWN_GOOD_FALLBACK :: int where [code_defs]: "FLAG_KNOWN_GOOD_FALLBACK = 2 ^ 3"

definition FLAG_AUTHENTICATED_STATE :: int where [code_defs]: "FLAG_AUTHENTICATED_STATE = 2 ^ 4"

definition FLAG_OUTER_SIGNATURE :: int where [code_defs]: "FLAG_OUTER_SIGNATURE = 2 ^ 5"

definition FLAG_INNER_SIGNATURE :: int where [code_defs]: "FLAG_INNER_SIGNATURE = 2 ^ 6"

definition FLAG_VERSION_FLOOR :: int where [code_defs]: "FLAG_VERSION_FLOOR = 2 ^ 7"

definition FLAG_OFFLINE_RECOVERY :: int where [code_defs]: "FLAG_OFFLINE_RECOVERY = 2 ^ 8"

definition FLAG_PDC_DISABLED :: int where [code_defs]: "FLAG_PDC_DISABLED = 2 ^ 9"

definition FLAG_POOLEGLYPH_INDEPENDENT :: int where [code_defs]:
  "FLAG_POOLEGLYPH_INDEPENDENT =
      2 ^ 10"

definition FLAG_BOUNDED_DISPLAY_PATH :: int where [code_defs]:
  "FLAG_BOUNDED_DISPLAY_PATH =
      2 ^ 11"

definition FLAG_PRESERVE_EVIDENCE :: int where [code_defs]: "FLAG_PRESERVE_EVIDENCE = 2 ^ 12"

definition FLAG_PHYSICAL_PRESENCE_DESTRUCTIVE :: int where [code_defs]:
  "FLAG_PHYSICAL_PRESENCE_DESTRUCTIVE =
      2 ^ 13"

definition PREC_REQUIRED_FLAGS :: int where [code_defs]:
  "PREC_REQUIRED_FLAGS =
      FLAG_FAIL_CLOSED OR FLAG_AB_SLOTS OR FLAG_DECREMENT_BEFORE_HANDOFF OR
      FLAG_KNOWN_GOOD_FALLBACK OR FLAG_AUTHENTICATED_STATE OR FLAG_OUTER_SIGNATURE OR
      FLAG_INNER_SIGNATURE OR FLAG_VERSION_FLOOR OR FLAG_OFFLINE_RECOVERY OR FLAG_PDC_DISABLED
      OR FLAG_POOLEGLYPH_INDEPENDENT OR FLAG_BOUNDED_DISPLAY_PATH OR FLAG_PRESERVE_EVIDENCE OR
      FLAG_PHYSICAL_PRESENCE_DESTRUCTIVE"

definition MODE_NORMAL :: int where [code_defs]: "MODE_NORMAL = 1"

definition MODE_SAFE :: int where [code_defs]: "MODE_SAFE = 2"

definition MODE_PREVIOUS :: int where [code_defs]: "MODE_PREVIOUS = 3"

definition MODE_RECOVERY :: int where [code_defs]: "MODE_RECOVERY = 4"

definition MODE_DIAGNOSTIC :: int where [code_defs]: "MODE_DIAGNOSTIC = 5"

definition MODE_FIRMWARE :: int where [code_defs]: "MODE_FIRMWARE = 6"

definition MODE_NAMES :: "int list" where [code_defs]:
  "MODE_NAMES = [MODE_NORMAL, MODE_SAFE, MODE_PREVIOUS, MODE_RECOVERY, MODE_DIAGNOSTIC, MODE_FIRMWARE]"

definition MODE_MASK_ALL :: int where [code_defs]:
  "MODE_MASK_ALL = sum_list (map (\<lambda>mode. 2 ^ nat (mode - 1)) MODE_NAMES)"

definition FAIL_CONFIG_INVALID :: int where [code_defs]: "FAIL_CONFIG_INVALID = 1"

definition FAIL_STATE_INVALID :: int where [code_defs]: "FAIL_STATE_INVALID = 2"

definition FAIL_SIGNATURE_INVALID :: int where [code_defs]: "FAIL_SIGNATURE_INVALID = 3"

definition FAIL_VERSION_ROLLBACK :: int where [code_defs]: "FAIL_VERSION_ROLLBACK = 4"

definition FAIL_ARTIFACT_INTEGRITY :: int where [code_defs]: "FAIL_ARTIFACT_INTEGRITY = 5"

definition FAIL_KERNEL_ENTRY :: int where [code_defs]: "FAIL_KERNEL_ENTRY = 6"

definition FAIL_INITIAL_HEALTH_TIMEOUT :: int where [code_defs]: "FAIL_INITIAL_HEALTH_TIMEOUT = 7"

definition FAIL_ATTEMPT_EXHAUSTED :: int where [code_defs]: "FAIL_ATTEMPT_EXHAUSTED = 8"

definition FAIL_KNOWN_GOOD_RUNTIME :: int where [code_defs]: "FAIL_KNOWN_GOOD_RUNTIME = 9"

definition FAIL_OPERATOR_REQUEST :: int where [code_defs]: "FAIL_OPERATOR_REQUEST = 10"

definition FAILURE_NAMES :: "int list" where [code_defs]:
  "FAILURE_NAMES = [FAIL_CONFIG_INVALID, FAIL_STATE_INVALID, FAIL_SIGNATURE_INVALID,
     FAIL_VERSION_ROLLBACK, FAIL_ARTIFACT_INTEGRITY, FAIL_KERNEL_ENTRY,
     FAIL_INITIAL_HEALTH_TIMEOUT, FAIL_ATTEMPT_EXHAUSTED, FAIL_KNOWN_GOOD_RUNTIME,
     FAIL_OPERATOR_REQUEST]"

definition FAILURE_MASK_ALL :: int where [code_defs]:
  "FAILURE_MASK_ALL =
      2 ^ PREC_FAILURE_COUNT - 1"

definition ACTION_RETRY_CANDIDATE :: int where [code_defs]: "ACTION_RETRY_CANDIDATE = 1"

definition ACTION_SAFE :: int where [code_defs]: "ACTION_SAFE = 2"

definition ACTION_PREVIOUS :: int where [code_defs]: "ACTION_PREVIOUS = 3"

definition ACTION_RECOVERY :: int where [code_defs]: "ACTION_RECOVERY = 4"

definition ACTION_FIRMWARE :: int where [code_defs]: "ACTION_FIRMWARE = 5"

definition ACTION_HALT :: int where [code_defs]: "ACTION_HALT = 6"

definition ACTION_NAMES :: "int list" where [code_defs]:
  "ACTION_NAMES = [ACTION_RETRY_CANDIDATE, ACTION_SAFE, ACTION_PREVIOUS, ACTION_RECOVERY,
     ACTION_FIRMWARE, ACTION_HALT]"

definition ACTION_MASK_ALL :: int where [code_defs]:
  "ACTION_MASK_ALL = 2 ^ length ACTION_NAMES - 1"

definition SLOT_BOOTABLE :: int where [code_defs]: "SLOT_BOOTABLE = 2 ^ 0"

definition SLOT_CANDIDATE_ALLOWED :: int where [code_defs]: "SLOT_CANDIDATE_ALLOWED = 2 ^ 1"

definition SLOT_SAFE_ELIGIBLE :: int where [code_defs]: "SLOT_SAFE_ELIGIBLE = 2 ^ 2"

definition SLOT_FALLBACK_ELIGIBLE :: int where [code_defs]: "SLOT_FALLBACK_ELIGIBLE = 2 ^ 3"

definition SLOT_REQUIRED_FLAGS :: int where [code_defs]:
  "SLOT_REQUIRED_FLAGS =
      SLOT_BOOTABLE OR SLOT_CANDIDATE_ALLOWED OR SLOT_SAFE_ELIGIBLE OR SLOT_FALLBACK_ELIGIBLE"

definition FAILURE_PRESERVE_EVIDENCE :: int where [code_defs]: "FAILURE_PRESERVE_EVIDENCE = 2 ^ 0"

definition FAILURE_CLEAR_PENDING :: int where [code_defs]: "FAILURE_CLEAR_PENDING = 2 ^ 1"

definition FAILURE_MARK_UNBOOTABLE :: int where [code_defs]: "FAILURE_MARK_UNBOOTABLE = 2 ^ 2"

definition FAILURE_REQUIRE_PHYSICAL_PRESENCE :: int where [code_defs]:
  "FAILURE_REQUIRE_PHYSICAL_PRESENCE =
      2 ^ 3"

definition FAILURE_KNOWN_FLAGS :: int where [code_defs]:
  "FAILURE_KNOWN_FLAGS =
      FAILURE_PRESERVE_EVIDENCE OR FAILURE_CLEAR_PENDING OR FAILURE_MARK_UNBOOTABLE OR
      FAILURE_REQUIRE_PHYSICAL_PRESENCE"

definition AUTH_INSPECT :: int where [code_defs]: "AUTH_INSPECT = 1"

definition AUTH_EXPORT_EVIDENCE :: int where [code_defs]: "AUTH_EXPORT_EVIDENCE = 2"

definition AUTH_SELECT_FALLBACK :: int where [code_defs]: "AUTH_SELECT_FALLBACK = 3"

definition AUTH_REQUEST_REBOOT :: int where [code_defs]: "AUTH_REQUEST_REBOOT = 4"

definition AUTH_UNLOCK_VOLUME :: int where [code_defs]: "AUTH_UNLOCK_VOLUME = 5"

definition AUTH_REPAIR :: int where [code_defs]: "AUTH_REPAIR = 6"

definition AUTH_REINSTALL :: int where [code_defs]: "AUTH_REINSTALL = 7"

definition AUTH_READ_ONLY :: int where [code_defs]: "AUTH_READ_ONLY = 2 ^ 0"

definition AUTH_DESTRUCTIVE :: int where [code_defs]: "AUTH_DESTRUCTIVE = 2 ^ 1"

definition AUTH_OFFLINE_ONLY :: int where [code_defs]: "AUTH_OFFLINE_ONLY = 2 ^ 2"

definition AUTH_AUDITED :: int where [code_defs]: "AUTH_AUDITED = 2 ^ 3"

definition AUTH_KNOWN_FLAGS :: int where [code_defs]:
  "AUTH_KNOWN_FLAGS =
      AUTH_READ_ONLY OR AUTH_DESTRUCTIVE OR AUTH_OFFLINE_ONLY OR AUTH_AUDITED"

definition FACTOR_PHYSICAL_PRESENCE :: int where [code_defs]: "FACTOR_PHYSICAL_PRESENCE = 2 ^ 0"

definition FACTOR_OPERATOR_AUTH :: int where [code_defs]: "FACTOR_OPERATOR_AUTH = 2 ^ 1"

definition FACTOR_VERIFIED_BACKUP :: int where [code_defs]: "FACTOR_VERIFIED_BACKUP = 2 ^ 2"

definition FACTOR_SIGNATURE_VERIFIED :: int where [code_defs]: "FACTOR_SIGNATURE_VERIFIED = 2 ^ 3"

definition FACTOR_VOLUME_UNLOCKED :: int where [code_defs]: "FACTOR_VOLUME_UNLOCKED = 2 ^ 4"

definition FACTOR_KNOWN_MASK :: int where [code_defs]: "FACTOR_KNOWN_MASK = 2 ^ 5 - 1"

definition PROHIBIT_FIRMWARE :: int where [code_defs]: "PROHIBIT_FIRMWARE = 2 ^ 0"

definition PROHIBIT_RAW_DISK :: int where [code_defs]: "PROHIBIT_RAW_DISK = 2 ^ 1"

definition PROHIBIT_NETWORK :: int where [code_defs]: "PROHIBIT_NETWORK = 2 ^ 2"

definition PROHIBIT_AMBIENT_ALL :: int where [code_defs]:
  "PROHIBIT_AMBIENT_ALL =
      PROHIBIT_FIRMWARE OR PROHIBIT_RAW_DISK OR PROHIBIT_NETWORK"

definition AUTHORITY_CEILING :: int where [code_defs]:
  "AUTHORITY_CEILING =
      int PREC_AUTHORITY_COUNT"

definition STATE_WRITE_RECOVERY :: int where [code_defs]: "STATE_WRITE_RECOVERY = 1"

definition TRANSPORT_SERIAL :: int where [code_defs]: "TRANSPORT_SERIAL = 2 ^ 0"

definition TRANSPORT_GOP_SOFTWARE :: int where [code_defs]: "TRANSPORT_GOP_SOFTWARE = 2 ^ 1"

definition REQUIRED_TRANSPORTS :: int where [code_defs]:
  "REQUIRED_TRANSPORTS =
      TRANSPORT_SERIAL OR TRANSPORT_GOP_SOFTWARE"

definition HANDOFF_SLOT :: int where [code_defs]: "HANDOFF_SLOT = 2 ^ 0"

definition HANDOFF_MODE :: int where [code_defs]: "HANDOFF_MODE = 2 ^ 1"

definition HANDOFF_NONCE :: int where [code_defs]: "HANDOFF_NONCE = 2 ^ 2"

definition HANDOFF_STATE_GENERATION :: int where [code_defs]: "HANDOFF_STATE_GENERATION = 2 ^ 3"

definition HANDOFF_POLICY_VERSION :: int where [code_defs]: "HANDOFF_POLICY_VERSION = 2 ^ 4"

definition HANDOFF_LAST_FAILURE :: int where [code_defs]: "HANDOFF_LAST_FAILURE = 2 ^ 5"

definition REQUIRED_HANDOFF_FIELDS :: int where [code_defs]:
  "REQUIRED_HANDOFF_FIELDS =
      HANDOFF_SLOT OR HANDOFF_MODE OR HANDOFF_NONCE OR HANDOFF_STATE_GENERATION OR
      HANDOFF_POLICY_VERSION OR HANDOFF_LAST_FAILURE"

definition STATE_RECOVERY_REQUESTED :: int where [code_defs]: "STATE_RECOVERY_REQUESTED = 2 ^ 0"

definition STATE_SAFE_REQUESTED :: int where [code_defs]: "STATE_SAFE_REQUESTED = 2 ^ 1"

definition STATE_INFLIGHT :: int where [code_defs]: "STATE_INFLIGHT = 2 ^ 2"

definition STATE_KNOWN_FLAGS :: int where [code_defs]:
  "STATE_KNOWN_FLAGS = STATE_RECOVERY_REQUESTED OR STATE_SAFE_REQUESTED OR STATE_INFLIGHT"


section \<open>The constants as numbers\<close>

text \<open>
  The simplification set of the recovery proofs: every composite mask evaluated once.
\<close>

lemma mode_mask_value: "MODE_MASK_ALL = 63"
  by (simp add: code_defs)

lemma required_flags_value: "PREC_REQUIRED_FLAGS = 16383"
  by (simp add: code_defs)

lemma mode_names_iff: "m \<in> set MODE_NAMES \<longleftrightarrow> 1 \<le> m \<and> m \<le> 6"
  by (auto simp: code_defs)

lemma failure_names_iff: "f \<in> set FAILURE_NAMES \<longleftrightarrow> 1 \<le> f \<and> f \<le> 10"
  by (simp add: code_defs) arith

lemma state_known_flags_value: "STATE_KNOWN_FLAGS = 7"
  by (simp add: code_defs)

end
