(* ===== verification/Sha256.thy ===== *)
theory Sha256
  imports Prelude
begin

unbundle bit_operations_syntax

text \<open>
  \<open>hashlib.sha256\<close> of the Python standard library, as FIPS 180-4 defines it, on
  32-bit words. The modules under \<open>src/runtime\<close> bind every bundle body and every
  state record through it. The proofs about the formats use only that a digest has
  32 bytes; the definitions are executable, and messages of one block are evaluated on
  integers by \<open>sha256_short\<close>, which is proved equal.
\<close>

type_synonym u32 = "32 word"
type_synonym hash_state = "u32 \<times> u32 \<times> u32 \<times> u32 \<times> u32 \<times> u32 \<times> u32 \<times> u32"

definition rotr :: "nat \<Rightarrow> u32 \<Rightarrow> u32" where
  "rotr n x = drop_bit n x OR push_bit (32 - n) x"

definition big_sigma0 :: "u32 \<Rightarrow> u32" where
  "big_sigma0 x = rotr 2 x XOR rotr 13 x XOR rotr 22 x"

definition big_sigma1 :: "u32 \<Rightarrow> u32" where
  "big_sigma1 x = rotr 6 x XOR rotr 11 x XOR rotr 25 x"

definition small_sigma0 :: "u32 \<Rightarrow> u32" where
  "small_sigma0 x = rotr 7 x XOR rotr 18 x XOR drop_bit 3 x"

definition small_sigma1 :: "u32 \<Rightarrow> u32" where
  "small_sigma1 x = rotr 17 x XOR rotr 19 x XOR drop_bit 10 x"

definition choose_bits :: "u32 \<Rightarrow> u32 \<Rightarrow> u32 \<Rightarrow> u32" where
  "choose_bits x y z = (x AND y) XOR (NOT x AND z)"

definition majority_bits :: "u32 \<Rightarrow> u32 \<Rightarrow> u32 \<Rightarrow> u32" where
  "majority_bits x y z = (x AND y) XOR (x AND z) XOR (y AND z)"

definition round_constants :: "u32 list" where
  "round_constants = [
    0x428A2F98, 0x71374491, 0xB5C0FBCF, 0xE9B5DBA5, 0x3956C25B, 0x59F111F1,
    0x923F82A4, 0xAB1C5ED5, 0xD807AA98, 0x12835B01, 0x243185BE, 0x550C7DC3,
    0x72BE5D74, 0x80DEB1FE, 0x9BDC06A7, 0xC19BF174, 0xE49B69C1, 0xEFBE4786,
    0x0FC19DC6, 0x240CA1CC, 0x2DE92C6F, 0x4A7484AA, 0x5CB0A9DC, 0x76F988DA,
    0x983E5152, 0xA831C66D, 0xB00327C8, 0xBF597FC7, 0xC6E00BF3, 0xD5A79147,
    0x06CA6351, 0x14292967, 0x27B70A85, 0x2E1B2138, 0x4D2C6DFC, 0x53380D13,
    0x650A7354, 0x766A0ABB, 0x81C2C92E, 0x92722C85, 0xA2BFE8A1, 0xA81A664B,
    0xC24B8B70, 0xC76C51A3, 0xD192E819, 0xD6990624, 0xF40E3585, 0x106AA070,
    0x19A4C116, 0x1E376C08, 0x2748774C, 0x34B0BCB5, 0x391C0CB3, 0x4ED8AA4A,
    0x5B9CCA4F, 0x682E6FF3, 0x748F82EE, 0x78A5636F, 0x84C87814, 0x8CC70208,
    0x90BEFFFA, 0xA4506CEB, 0xBEF9A3F7, 0xC67178F2]"

definition initial_hash :: hash_state where
  "initial_hash = (
    0x6A09E667, 0xBB67AE85, 0x3C6EF372, 0xA54FF53A,
    0x510E527F, 0x9B05688C, 0x1F83D9AB, 0x5BE0CD19)"

text \<open>The message schedule: a sliding window of sixteen words.\<close>

fun schedule :: "nat \<Rightarrow> u32 list \<Rightarrow> u32 list" where
  "schedule 0 ws = []"
| "schedule (Suc n) ws =
     hd ws # schedule n (tl ws @
       [small_sigma1 (ws ! 14) + ws ! 9 + small_sigma0 (ws ! 1) + hd ws])"

fun sha_round :: "hash_state \<Rightarrow> u32 \<times> u32 \<Rightarrow> hash_state" where
  "sha_round (a, b, c, d, e, f, g, h) (k, w) =
     (let t1 = h + big_sigma1 e + choose_bits e f g + k + w;
          t2 = big_sigma0 a + majority_bits a b c
      in (t1 + t2, a, b, c, d + t1, e, f, g))"

fun add_state :: "hash_state \<Rightarrow> hash_state \<Rightarrow> hash_state" where
  "add_state (a, b, c, d, e, f, g, h) (a', b', c', d', e', f', g', h') =
     (a + a', b + b', c + c', d + d', e + e', f + f', g + g', h + h')"

definition compress :: "hash_state \<Rightarrow> u32 list \<Rightarrow> hash_state" where
  "compress st block = add_state st (foldl sha_round st (zip round_constants (schedule 64 block)))"

fun be_words :: "bytes \<Rightarrow> u32 list" where
  "be_words (a # b # c # d # rest) =
     word_of_int (uint a * 16777216 + uint b * 65536 + uint c * 256 + uint d) # be_words rest"
| "be_words _ = []"

definition be_bytes :: "nat \<Rightarrow> int \<Rightarrow> bytes" where
  "be_bytes n v = rev (le_bytes n v)"

definition pad_message :: "bytes \<Rightarrow> bytes" where
  "pad_message m = m @ [0x80] @ zeros ((119 - length m mod 64) mod 64) @ be_bytes 8 (int (8 * length m))"

fun hash_blocks :: "hash_state \<Rightarrow> u32 list \<Rightarrow> hash_state" where
  "hash_blocks st ws =
     (if length ws < 16 then st else hash_blocks (compress st (take 16 ws)) (drop 16 ws))"

declare hash_blocks.simps [simp del]

definition words_of_state :: "hash_state \<Rightarrow> u32 list" where
  "words_of_state st = (case st of (a, b, c, d, e, f, g, h) \<Rightarrow> [a, b, c, d, e, f, g, h])"

definition sha256 :: "bytes \<Rightarrow> bytes" where
  "sha256 m = concat (map (\<lambda>w. be_bytes 4 (uint w))
     (words_of_state (hash_blocks initial_hash (be_words (pad_message m)))))"

lemma length_be_bytes [simp]: "length (be_bytes n v) = n"
  by (simp add: be_bytes_def)

lemma length_sha256 [simp]: "length (sha256 m) = 32"
  by (simp add: sha256_def words_of_state_def length_concat split: prod.split)

text \<open>The padded message is a whole number of 64-byte blocks.\<close>

lemma pad_message_blocks: "length (pad_message m) mod 64 = 0"
proof -
  obtain q r where m: "length m = 64 * q + r" and r: "r < 64"
    by (metis mod_less_divisor mult_div_mod_eq zero_less_numeral)
  then have r_eq: "length m mod 64 = r" by simp
  have "\<exists>k. length m + 1 + (119 - r) mod 64 + 8 = 64 * k"
  proof (cases "r \<le> 55")
    case True
    then have "119 - r = (55 - r) + 64 * 1" by simp
    then have "(119 - r) mod 64 = (55 - r) mod 64" by (metis mod_mult_self2)
    then have "(119 - r) mod 64 = 55 - r" by simp
    with m True have "length m + 1 + (119 - r) mod 64 + 8 = 64 * (q + 1)" by simp
    then show ?thesis ..
  next
    case False
    then have "(119 - r) mod 64 = 119 - r" by simp
    with m r have "length m + 1 + (119 - r) mod 64 + 8 = 64 * (q + 2)" by simp
    then show ?thesis ..
  qed
  moreover have "length (pad_message m) = length m + 1 + (119 - r) mod 64 + 8"
    by (simp add: pad_message_def r_eq)
  ultimately show ?thesis by (metis mod_mult_self1_is_0)
qed

text \<open>A rotation by a table of powers, which evaluates faster.\<close>

definition powers_of_two :: "u32 list" where
  "powers_of_two = [
    1, 2, 4, 8, 16, 32, 64, 128, 256, 512, 1024, 2048, 4096, 8192, 16384, 32768, 65536, 131072,
    262144, 524288, 1048576, 2097152, 4194304, 8388608, 16777216, 33554432, 67108864, 134217728,
    268435456, 536870912, 1073741824, 2147483648, 0]"

lemma rotr_code [code]: "rotr n x = drop_bit n x OR x * powers_of_two ! (32 - n)"
proof -
  have "list_all (\<lambda>k. powers_of_two ! k = 2 ^ k) [0..<33]" by code_simp
  then have "powers_of_two ! (32 - n) = 2 ^ (32 - n)" by (simp add: list_all_iff)
  then show ?thesis by (simp add: rotr_def push_bit_eq_mult)
qed

definition ascii_bytes :: "string \<Rightarrow> bytes" where
  "ascii_bytes s = map (\<lambda>c. word_of_nat (of_char c)) s"


section \<open>Evaluation on integers\<close>

text \<open>The same rounds on the unsigned values of the words, which evaluate several times faster.\<close>

type_synonym int_state = "int \<times> int \<times> int \<times> int \<times> int \<times> int \<times> int \<times> int"

definition rotr_int :: "nat \<Rightarrow> int \<Rightarrow> int" where
  "rotr_int n x = drop_bit n x + push_bit (32 - n) (take_bit n x)"

definition big_sigma0_int :: "int \<Rightarrow> int" where
  "big_sigma0_int x = rotr_int 2 x XOR rotr_int 13 x XOR rotr_int 22 x"

definition big_sigma1_int :: "int \<Rightarrow> int" where
  "big_sigma1_int x = rotr_int 6 x XOR rotr_int 11 x XOR rotr_int 25 x"

definition small_sigma0_int :: "int \<Rightarrow> int" where
  "small_sigma0_int x = rotr_int 7 x XOR rotr_int 18 x XOR drop_bit 3 x"

definition small_sigma1_int :: "int \<Rightarrow> int" where
  "small_sigma1_int x = rotr_int 17 x XOR rotr_int 19 x XOR drop_bit 10 x"

fun schedule_int :: "nat \<Rightarrow> int list \<Rightarrow> int list" where
  "schedule_int 0 ws = []"
| "schedule_int (Suc n) ws =
     hd ws # schedule_int n (tl ws @ [take_bit 32 (small_sigma1_int (ws ! 14) + ws ! 9 + small_sigma0_int (ws ! 1) + hd ws)])"

fun sha_round_int :: "int_state \<Rightarrow> int \<times> int \<Rightarrow> int_state" where
  "sha_round_int (a, b, c, d, e, f, g, h) (k, w) =
     (let t1 = h + big_sigma1_int e + ((e AND f) XOR (g AND (g XOR e))) + k + w;
          t2 = big_sigma0_int a + ((a AND b) XOR (a AND c) XOR (b AND c))
      in (take_bit 32 (t1 + t2), a, b, c, take_bit 32 (d + t1), e, f, g))"

fun state_uint :: "hash_state \<Rightarrow> int_state" where
  "state_uint (a, b, c, d, e, f, g, h) = (uint a, uint b, uint c, uint d, uint e, uint f, uint g, uint h)"

lemma bit_u32_less: "bit x n \<Longrightarrow> n < 32" for x :: u32
  using bit_imp_le_length [of x n] by simp

lemma take_bit_uint32 [simp]: "take_bit 32 (uint x) = uint x" for x :: u32
  by (rule bit_eqI) (auto simp: bit_simps dest: bit_u32_less)

lemma uint_add32: "uint (x + y) = take_bit 32 (uint x + uint y)" for x y :: u32
  by (simp add: uint_word_ariths take_bit_eq_mod)

lemma uint_rotr: "n \<le> 32 \<Longrightarrow> uint (rotr n x) = rotr_int n (uint x)"
proof -
  assume n: "n \<le> 32"
  have "drop_bit n (uint x) AND push_bit (32 - n) (take_bit n (uint x)) = 0"
    by (rule bit_eqI) (use n in \<open>auto simp: bit_simps dest: bit_u32_less\<close>)
  then have d: "drop_bit n (uint x) + push_bit (32 - n) (take_bit n (uint x)) = drop_bit n (uint x) OR push_bit (32 - n) (take_bit n (uint x))"
    by (rule disjunctive_add_eq_or)
  show ?thesis unfolding rotr_int_def d
    by (rule bit_eqI) (use n in \<open>auto simp: rotr_def bit_simps dest: bit_u32_less\<close>)
qed

lemma uint_sigmas:
  "uint (big_sigma0 x) = big_sigma0_int (uint x)" "uint (big_sigma1 x) = big_sigma1_int (uint x)"
  "uint (small_sigma0 x) = small_sigma0_int (uint x)" "uint (small_sigma1 x) = small_sigma1_int (uint x)"
  by (simp_all add: big_sigma0_def big_sigma0_int_def big_sigma1_def big_sigma1_int_def small_sigma0_def small_sigma0_int_def
    small_sigma1_def small_sigma1_int_def unsigned_xor_eq uint_rotr unsigned_drop_bit_eq)

lemma uint_choose: "uint (choose_bits x y z) = (uint x AND uint y) XOR (uint z AND (uint z XOR uint x))"
  by (rule bit_eqI) (auto simp: choose_bits_def bit_simps dest: bit_u32_less)

lemma uint_majority: "uint (majority_bits x y z) = (uint x AND uint y) XOR (uint x AND uint z) XOR (uint y AND uint z)"
  by (simp add: majority_bits_def unsigned_xor_eq unsigned_and_eq)

lemma take_bit_sum32:
  "take_bit 32 (take_bit 32 (a :: int) + b) = take_bit 32 (a + b)" "take_bit 32 (a + take_bit 32 (b :: int)) = take_bit 32 (a + b)"
  by (simp_all add: take_bit_eq_mod mod_simps)

lemma state_uint_round: "state_uint (sha_round s (k, w)) = sha_round_int (state_uint s) (uint k, uint w)"
proof -
  obtain a b c d e f g h where "s = (a, b, c, d, e, f, g, h)" by (metis surj_pair)
  then show ?thesis by (simp add: Let_def uint_add32 take_bit_sum32 uint_sigmas uint_choose uint_majority add.assoc)
qed

lemma state_uint_rounds:
  "state_uint (foldl sha_round s (zip ks ws)) = foldl sha_round_int (state_uint s) (zip (map uint ks) (map uint ws))"
proof (induction ks arbitrary: s ws)
  case (Cons k ks)
  then show ?case by (cases ws) (simp_all add: state_uint_round del: sha_round.simps sha_round_int.simps state_uint.simps)
qed simp

lemma schedule_uint: "length ws = 16 \<Longrightarrow> map uint (schedule n ws) = schedule_int n (map uint ws)"
proof (induction n arbitrary: ws)
  case (Suc n)
  let ?w = "small_sigma1 (ws ! 14) + ws ! 9 + small_sigma0 (ws ! 1) + hd ws"
  have h: "hd (map uint ws) = uint (hd ws)" using Suc.prems by (cases ws) simp_all
  have "map uint (schedule n (tl ws @ [?w])) = schedule_int n (map uint (tl ws @ [?w]))" using Suc.prems by (intro Suc.IH) simp
  moreover have "uint ?w = take_bit 32 (small_sigma1_int (uint (ws ! 14)) + uint (ws ! 9) + small_sigma0_int (uint (ws ! 1)) + uint (hd ws))"
    by (simp add: uint_add32 take_bit_sum32 uint_sigmas add.assoc)
  ultimately show ?case using Suc.prems by (simp add: h map_tl)
qed simp

definition sha256_short :: "bytes \<Rightarrow> bytes" where
  "sha256_short m = (case foldl sha_round_int (state_uint initial_hash)
       (zip (map uint round_constants) (schedule_int 64 (map uint (be_words (pad_message m))))) of
     (a, b, c, d, e, f, g, h) \<Rightarrow> concat (map2 (\<lambda>x y. be_bytes 4 (take_bit 32 (x + uint y)))
       [a, b, c, d, e, f, g, h] (words_of_state initial_hash)))"

lemma sha256_short_eq: "length m \<le> 55 \<Longrightarrow> sha256 m = sha256_short m"
proof -
  assume m: "length m \<le> 55"
  have "length (be_words xs) = length xs div 4" for xs by (induction xs rule: be_words.induct) simp_all
  moreover have "length (pad_message m) = 64"
  proof -
    have "(119 - length m) mod 64 = 55 - length m" using m by (simp add: mod_if)
    then show ?thesis using m by (simp add: pad_message_def)
  qed
  ultimately have l: "length (be_words (pad_message m)) = 16" by simp
  let ?w = "be_words (pad_message m)"
  have h: "hash_blocks initial_hash ?w = compress initial_hash ?w"
    by (subst hash_blocks.simps, subst hash_blocks.simps) (simp add: l)
  obtain a b c d e f g h where s: "foldl sha_round initial_hash (zip round_constants (schedule 64 ?w)) = (a, b, c, d, e, f, g, h)"
    by (metis surj_pair)
  have i: "foldl sha_round_int (state_uint initial_hash) (zip (map uint round_constants) (schedule_int 64 (map uint ?w))) =
      (uint a, uint b, uint c, uint d, uint e, uint f, uint g, uint h)"
    using state_uint_rounds [of initial_hash round_constants "schedule 64 ?w"] by (simp add: s schedule_uint [OF l])
  show ?thesis
    unfolding sha256_def h compress_def s sha256_short_def i
    by (simp add: initial_hash_def words_of_state_def uint_add32 add.commute)
qed

end
