(* ===== verification/Recovery_Policy.thy ===== *)
theory Recovery_Policy
  imports Recovery_Constants Sha256
begin

unbundle bit_operations_syntax

text \<open>
  The PREC1 recovery-policy bundle (\<open>parse\<close>, \<open>encode\<close> and their tables in
  \<open>src/runtime/native_recovery.py\<close>): a 992-byte image with a 256-byte header, two
  boot slots, ten failure rules and seven authority rules, bound by a SHA-256 digest
  of its body.
\<close>


section \<open>Records\<close>

record prec_slot =
  slot_id :: int
  slot_flags :: int
  slot_priority :: int
  slot_version :: int
  slot_minimum_recovery_version :: int
  slot_manifest_sha256 :: string
  slot_kernel_sha256 :: string

record failure_rule =
  failure_id :: int
  primary_action :: int
  fallback_action :: int
  failure_flags :: int
  max_retries :: int
  failure_evidence_code :: int
  failure_allowed_modes :: int

record authority_rule =
  authority_id :: int
  authority_flags :: int
  required_factors :: int
  prohibited_ambient :: int
  authority_allowed_modes :: int
  max_operations :: int
  authority_evidence_code :: int

record prec_bundle =
  bundle_version :: int
  bundle_minimum_secure_version :: int
  required_pbp_major :: int
  minimum_pbp_minor :: int
  required_kernel_abi_major :: int
  minimum_kernel_abi_minor :: int
  max_attempts :: int
  max_safe_attempts :: int
  success_deadline_seconds :: int
  state_generation_floor :: int
  recovery_component_sha256 :: string
  state_store_id :: string
  bundle_slots :: "prec_slot list"
  failure_rules :: "failure_rule list"
  authority_rules :: "authority_rule list"
  body_sha256 :: string
  bundle_raw :: bytes


section \<open>Expected tables\<close>

definition prec_mode_bit :: "int \<Rightarrow> int res" where
  "prec_mode_bit mode =
     (if mode \<notin> set MODE_NAMES then Inl (Fail ''prec_mode'') else Inr (2 ^ nat (mode - 1)))"

text \<open>A row: primary action, fallback action, flags, retries, allowed modes.\<close>

definition expected_failure_rows :: "(int \<times> int \<times> int \<times> int \<times> int) list" where
  "expected_failure_rows =
     (let preserve = FAILURE_PRESERVE_EVIDENCE;
          retire = preserve OR FAILURE_CLEAR_PENDING OR FAILURE_MARK_UNBOOTABLE
      in [(ACTION_RECOVERY, ACTION_HALT, preserve, 0, MODE_MASK_ALL),
          (ACTION_RECOVERY, ACTION_HALT, preserve, 0, MODE_MASK_ALL),
          (ACTION_RECOVERY, ACTION_HALT, retire, 0, MODE_MASK_ALL),
          (ACTION_PREVIOUS, ACTION_RECOVERY, retire, 0, MODE_MASK_ALL),
          (ACTION_PREVIOUS, ACTION_RECOVERY, retire, 0, MODE_MASK_ALL),
          (ACTION_SAFE, ACTION_PREVIOUS, preserve, 1, MODE_MASK_ALL),
          (ACTION_RETRY_CANDIDATE, ACTION_PREVIOUS, preserve, 2, MODE_MASK_ALL),
          (ACTION_PREVIOUS, ACTION_RECOVERY, retire, 0, MODE_MASK_ALL),
          (ACTION_SAFE, ACTION_RECOVERY, preserve, 1, MODE_MASK_ALL),
          (ACTION_RECOVERY, ACTION_FIRMWARE, preserve, 0, MODE_MASK_ALL)])"

text \<open>
  A row: flags, factors, allowed modes, maximum operations, evidence code. The two mode
  bits come from \<open>_mode_bit\<close> on constants, which cannot fail.
\<close>

definition expected_authority_rows :: "(int \<times> int \<times> int \<times> int \<times> int) list" where
  "expected_authority_rows =
     (let offline_audited = AUTH_OFFLINE_ONLY OR AUTH_AUDITED;
          read_only = AUTH_READ_ONLY OR offline_audited;
          recovery_only = 2 ^ nat (MODE_RECOVERY - 1);
          recovery_diag = recovery_only OR 2 ^ nat (MODE_DIAGNOSTIC - 1);
          destructive_factors = FACTOR_PHYSICAL_PRESENCE OR FACTOR_OPERATOR_AUTH
            OR FACTOR_VERIFIED_BACKUP OR FACTOR_SIGNATURE_VERIFIED
      in [(read_only, 0, recovery_diag, 0, 201),
          (read_only, FACTOR_OPERATOR_AUTH, recovery_only, 0, 202),
          (offline_audited, FACTOR_PHYSICAL_PRESENCE OR FACTOR_OPERATOR_AUTH, recovery_only, 1, 203),
          (offline_audited, FACTOR_OPERATOR_AUTH, recovery_only, 1, 204),
          (offline_audited, FACTOR_PHYSICAL_PRESENCE OR FACTOR_OPERATOR_AUTH OR FACTOR_VOLUME_UNLOCKED,
           recovery_only, 3, 205),
          (AUTH_DESTRUCTIVE OR offline_audited, destructive_factors, recovery_only, 1, 206),
          (AUTH_DESTRUCTIVE OR offline_audited, destructive_factors, recovery_only, 1, 207)])"


section \<open>Parsing\<close>

text \<open>
  The header checks of \<open>parse\<close>, in source order: identity and versions, attempt and
  state policy, table geometry and masks, digests and fallback policy. Every length is
  checked before the first field is read, so no \<open>struct.unpack_from\<close> can fail.
\<close>

definition prec_header_identity :: "bytes \<Rightarrow> (bool \<times> string) list" where
  "prec_header_identity data = [
     (length data < PREC_HEADER_BYTES, ''prec_truncated''),
     (length data \<noteq> PREC_TOTAL_BYTES, ''prec_total_size''),
     (bslice data 0 8 \<noteq> PREC_MAGIC, ''prec_magic''),
     ((rd 2 data 8, rd 2 data 10) \<noteq> (PREC_MAJOR_VERSION, PREC_MINOR_VERSION), ''prec_version''),
     (rd 2 data 12 \<noteq> int PREC_HEADER_BYTES, ''prec_header_size''),
     (rd 2 data 14 \<noteq> PREC_RECORD_ALIGNMENT, ''prec_alignment''),
     (rd 4 data 16 \<noteq> int PREC_TOTAL_BYTES, ''prec_total_size''),
     (rd 4 data 20 \<noteq> PREC_REQUIRED_FLAGS, ''prec_flags''),
     (rd 8 data 24 = 0 \<or> rd 8 data 32 = 0 \<or> rd 8 data 24 < rd 8 data 32, ''prec_version_floor''),
     (rd 2 data 40 = 0 \<or> rd 2 data 44 = 0, ''prec_abi'')]"

definition prec_header_policy :: "bytes \<Rightarrow> (bool \<times> string) list" where
  "prec_header_policy data = [
     (\<not> (1 \<le> rd 2 data 48 \<and> rd 2 data 48 \<le> MAX_ATTEMPTS_LIMIT) \<or> rd 2 data 50 \<noteq> 1,
      ''prec_attempt_policy''),
     (\<not> (1 \<le> rd 4 data 52 \<and> rd 4 data 52 \<le> MAX_SUCCESS_DEADLINE_SECONDS),
      ''prec_success_deadline''),
     ((rd 2 data 56, rd 2 data 58) \<noteq> (int PREC_STATE_BYTES, int PREC_STATE_CHECKSUM_BYTES),
      ''prec_state_geometry''),
     ((rd 2 data 60, rd 2 data 62, rd 2 data 64) \<noteq>
      (int PREC_SLOT_COUNT, int PREC_FAILURE_COUNT, int PREC_AUTHORITY_COUNT), ''prec_record_count''),
     (rd 2 data 66 \<noteq> STATE_WRITE_RECOVERY, ''prec_state_write_policy''),
     ((rd 4 data 68, rd 4 data 72, rd 4 data 76) \<noteq>
      (int PREC_SLOT_OFFSET, int PREC_FAILURE_OFFSET, int PREC_AUTHORITY_OFFSET), ''prec_table_layout''),
     (rd 4 data 80 \<noteq> MODE_MASK_ALL, ''prec_modes''),
     (rd 4 data 84 \<noteq> FAILURE_MASK_ALL \<or> rd 4 data 88 \<noteq> ACTION_MASK_ALL, ''prec_failure_action_mask''),
     (rd 4 data 92 \<noteq> REQUIRED_HANDOFF_FIELDS, ''prec_handoff_fields''),
     (rd 8 data 96 = 0, ''prec_state_generation_floor'')]"

definition prec_header_digests :: "bytes \<Rightarrow> (bool \<times> string) list" where
  "prec_header_digests data = [
     (sha256 (drop PREC_HEADER_BYTES data) \<noteq> bslice data 104 136, ''prec_body_digest''),
     (\<not> any_byte (bslice data 136 168), ''prec_recovery_component_digest''),
     (\<not> any_byte (bslice data 168 184), ''prec_state_store_id''),
     ((rd 2 data 184, rd 2 data 186, rd 2 data 188, rd 2 data 190) \<noteq>
      (ACTION_PREVIOUS, ACTION_RECOVERY, ACTION_RECOVERY, ACTION_RECOVERY), ''prec_fallback_policy''),
     (rd 4 data 192 \<noteq> AUTHORITY_CEILING, ''prec_authority_ceiling''),
     (rd 4 data 196 \<noteq> REQUIRED_TRANSPORTS, ''prec_transport_policy''),
     (any_byte (bslice data 200 PREC_HEADER_BYTES), ''prec_reserved'')]"

text \<open>
  The slot loop: \<open>slots\<close>, \<open>manifests\<close> and \<open>kernels\<close> are what earlier iterations
  appended (\<open>slots[index - 1]\<close> is the last element).
\<close>

definition prec_slot_at :: "bytes \<Rightarrow> nat \<Rightarrow> prec_slot" where
  "prec_slot_at data off =
     \<lparr>slot_id = rd 2 data off, slot_flags = rd 2 data (off + 2), slot_priority = rd 4 data (off + 4),
      slot_version = rd 8 data (off + 8), slot_minimum_recovery_version = rd 8 data (off + 16),
      slot_manifest_sha256 = hex_upper (bslice data (off + 24) (off + 56)),
      slot_kernel_sha256 = hex_upper (bslice data (off + 56) (off + 88))\<rparr>"

fun prec_parse_slots ::
  "bytes \<Rightarrow> int \<Rightarrow> int \<Rightarrow> nat list \<Rightarrow> prec_slot list \<Rightarrow> bytes list \<Rightarrow> bytes list \<Rightarrow> prec_slot list res" where
  "prec_parse_slots data minimum_secure version [] slots manifests kernels = Inr slots"
| "prec_parse_slots data minimum_secure version (index # rest) slots manifests kernels =
     (let off = PREC_SLOT_OFFSET + index * PREC_SLOT_BYTES;
          slot = prec_slot_at data off;
          manifest = bslice data (off + 24) (off + 56);
          kernel = bslice data (off + 56) (off + 88)
      in guarded [
        (slot_id slot \<noteq> int index + 1, ''prec_slot_id''),
        (slot_flags slot \<noteq> SLOT_REQUIRED_FLAGS, ''prec_slot_flags''),
        (slot_priority slot = 0 \<or> (index \<noteq> 0 \<and> slot_priority slot \<ge> slot_priority (last slots)),
         ''prec_slot_priority''),
        (slot_version slot < minimum_secure \<or> slot_minimum_recovery_version slot = 0
           \<or> slot_minimum_recovery_version slot > version, ''prec_slot_version''),
        (\<not> any_byte manifest \<or> \<not> any_byte kernel \<or> manifest \<in> set manifests \<or> kernel \<in> set kernels,
         ''prec_slot_digest''),
        (any_byte (bslice data (off + 88) (off + PREC_SLOT_BYTES)), ''prec_slot_reserved'')]
       (prec_parse_slots data minimum_secure version rest (slots @ [slot])
          (manifests @ [manifest]) (kernels @ [kernel])))"

definition failure_rule_at :: "bytes \<Rightarrow> nat \<Rightarrow> failure_rule" where
  "failure_rule_at data off =
     \<lparr>failure_id = rd 2 data off, primary_action = rd 2 data (off + 2),
      fallback_action = rd 2 data (off + 4), failure_flags = rd 2 data (off + 6),
      max_retries = rd 2 data (off + 8), failure_evidence_code = rd 2 data (off + 10),
      failure_allowed_modes = rd 4 data (off + 12)\<rparr>"

definition parse_failure_rule ::
  "bytes \<Rightarrow> nat \<times> int \<times> int \<times> int \<times> int \<times> int \<Rightarrow> failure_rule res" where
  "parse_failure_rule data = (\<lambda>(index, expected).
     let off = PREC_FAILURE_OFFSET + index * PREC_FAILURE_BYTES;
         rule = failure_rule_at data off
     in guarded [
        (failure_id rule \<noteq> int index + 1, ''prec_failure_id''),
        ((primary_action rule, fallback_action rule, failure_flags rule, max_retries rule,
          failure_allowed_modes rule) \<noteq> expected, ''prec_failure_rule''),
        (failure_evidence_code rule \<noteq> 100 + failure_id rule, ''prec_failure_evidence''),
        (failure_flags rule AND NOT FAILURE_KNOWN_FLAGS \<noteq> 0, ''prec_failure_rule''),
        (any_byte (bslice data (off + 16) (off + PREC_FAILURE_BYTES)), ''prec_failure_reserved'')]
       (Inr rule))"

definition authority_rule_at :: "bytes \<Rightarrow> nat \<Rightarrow> authority_rule" where
  "authority_rule_at data off =
     \<lparr>authority_id = rd 2 data off, authority_flags = rd 2 data (off + 2),
      required_factors = rd 4 data (off + 4), prohibited_ambient = rd 4 data (off + 8),
      authority_allowed_modes = rd 4 data (off + 12), max_operations = rd 2 data (off + 16),
      authority_evidence_code = rd 4 data (off + 20)\<rparr>"

definition parse_authority_rule ::
  "bytes \<Rightarrow> nat \<times> int \<times> int \<times> int \<times> int \<times> int \<Rightarrow> authority_rule res" where
  "parse_authority_rule data = (\<lambda>(index, expected).
     let off = PREC_AUTHORITY_OFFSET + index * PREC_AUTHORITY_BYTES;
         rule = authority_rule_at data off
     in guarded [
        (authority_id rule \<noteq> int index + 1, ''prec_authority_id''),
        ((authority_flags rule, required_factors rule, authority_allowed_modes rule,
          max_operations rule, authority_evidence_code rule) \<noteq> expected, ''prec_authority_rule''),
        (authority_flags rule AND NOT AUTH_KNOWN_FLAGS \<noteq> 0
           \<or> required_factors rule AND NOT FACTOR_KNOWN_MASK \<noteq> 0, ''prec_authority_rule''),
        (prohibited_ambient rule \<noteq> PROHIBIT_AMBIENT_ALL, ''prec_authority_ambient''),
        (any_byte (bslice data (off + 24) (off + PREC_AUTHORITY_BYTES)) \<or> rd 2 data (off + 18) \<noteq> 0,
         ''prec_authority_reserved'')]
       (Inr rule))"

definition prec_parse :: "bytes \<Rightarrow> prec_bundle res" where
  "prec_parse data =
     guarded (prec_header_identity data @ prec_header_policy data @ prec_header_digests data)
      (rbind (prec_parse_slots data (rd 8 data 32) (rd 8 data 24) [0..<PREC_SLOT_COUNT] [] [] []) (\<lambda>slots.
       rbind (rmap (parse_failure_rule data) (enumerate 0 expected_failure_rows)) (\<lambda>failures.
       rbind (rmap (parse_authority_rule data) (enumerate 0 expected_authority_rows)) (\<lambda>authorities.
       Inr \<lparr>bundle_version = rd 8 data 24, bundle_minimum_secure_version = rd 8 data 32,
         required_pbp_major = rd 2 data 40, minimum_pbp_minor = rd 2 data 42,
         required_kernel_abi_major = rd 2 data 44, minimum_kernel_abi_minor = rd 2 data 46,
         max_attempts = rd 2 data 48, max_safe_attempts = rd 2 data 50,
         success_deadline_seconds = rd 4 data 52, state_generation_floor = rd 8 data 96,
         recovery_component_sha256 = hex_upper (bslice data 136 168),
         state_store_id = hex_upper (bslice data 168 184),
         bundle_slots = slots, failure_rules = failures, authority_rules = authorities,
         body_sha256 = hex_upper (bslice data 104 136), bundle_raw = data\<rparr>))))"


section \<open>Encoding\<close>

text \<open>
  \<open>_digest\<close> hashes an ASCII label; a label outside ASCII is the
  \<open>UnicodeEncodeError\<close> of \<open>str.encode("ascii")\<close>.
\<close>

definition prec_digest :: "string \<Rightarrow> bytes res" where
  "prec_digest label =
     (if list_all (\<lambda>c. (of_char c :: nat) < 128) label then Inr (sha256 (ascii_bytes label))
      else Inl UnicodeError)"

definition slot_label :: "string \<Rightarrow> nat \<Rightarrow> string \<Rightarrow> string" where
  "slot_label label index part =
     ''PREC1:'' @ label @ '':slot-'' @ (if index = 0 then ''1'' else ''2'') @ '':'' @ part"

definition encode_slot ::
  "string \<Rightarrow> int \<Rightarrow> nat \<times> int \<Rightarrow> bytes \<Rightarrow> bytes res" where
  "encode_slot label minimum_secure = (\<lambda>(index, version) out.
     let off = PREC_SLOT_OFFSET + index * PREC_SLOT_BYTES in
     rbind (pack_into out off [(2, int index + 1), (2, SLOT_REQUIRED_FLAGS), (4, 15 - int index),
              (8, version), (8, minimum_secure)]) (\<lambda>out.
     rbind (prec_digest (slot_label label index ''manifest'')) (\<lambda>manifest.
     rbind (prec_digest (slot_label label index ''kernel'')) (\<lambda>kernel.
     Inr (put (put out (off + 24) manifest) (off + 56) kernel)))))"

definition encode_failure_rule :: "nat \<times> int \<times> int \<times> int \<times> int \<times> int \<Rightarrow> bytes \<Rightarrow> bytes res" where
  "encode_failure_rule = (\<lambda>(index, primary, fallback, flags, retries, allowed) out.
     pack_into out (PREC_FAILURE_OFFSET + index * PREC_FAILURE_BYTES)
       [(2, int index + 1), (2, primary), (2, fallback), (2, flags), (2, retries),
        (2, 101 + int index), (4, allowed)])"

definition encode_authority_rule :: "nat \<times> int \<times> int \<times> int \<times> int \<times> int \<Rightarrow> bytes \<Rightarrow> bytes res" where
  "encode_authority_rule = (\<lambda>(index, flags, factors, allowed, operations, evidence) out.
     pack_into out (PREC_AUTHORITY_OFFSET + index * PREC_AUTHORITY_BYTES)
       [(2, int index + 1), (2, flags), (4, factors), (4, PROHIBIT_AMBIENT_ALL), (4, allowed),
        (2, operations), (2, 0), (4, evidence)])"

definition encode_prec_header ::
  "int \<Rightarrow> int \<Rightarrow> int \<Rightarrow> int \<Rightarrow> int \<Rightarrow> string \<Rightarrow> bytes res" where
  "encode_prec_header version minimum_secure generation_floor attempts deadline label =
     rbind (pack_into (put (zeros PREC_TOTAL_BYTES) 0 PREC_MAGIC) 8
       [(2, PREC_MAJOR_VERSION), (2, PREC_MINOR_VERSION), (2, int PREC_HEADER_BYTES),
        (2, PREC_RECORD_ALIGNMENT), (4, int PREC_TOTAL_BYTES), (4, PREC_REQUIRED_FLAGS),
        (8, version), (8, minimum_secure), (2, 1), (2, 0), (2, 1), (2, 0), (2, attempts), (2, 1),
        (4, deadline), (2, int PREC_STATE_BYTES), (2, int PREC_STATE_CHECKSUM_BYTES),
        (2, int PREC_SLOT_COUNT), (2, int PREC_FAILURE_COUNT), (2, int PREC_AUTHORITY_COUNT),
        (2, STATE_WRITE_RECOVERY), (4, int PREC_SLOT_OFFSET), (4, int PREC_FAILURE_OFFSET),
        (4, int PREC_AUTHORITY_OFFSET)]) (\<lambda>out.
     rbind (pack_into out 80 [(4, MODE_MASK_ALL), (4, FAILURE_MASK_ALL), (4, ACTION_MASK_ALL),
        (4, REQUIRED_HANDOFF_FIELDS), (8, generation_floor)]) (\<lambda>out.
     rbind (prec_digest (''PREC1:'' @ label @ '':recovery-component'')) (\<lambda>component.
     rbind (prec_digest (''PREC1:'' @ label @ '':state-store'')) (\<lambda>store.
     pack_into (put (put out 136 component) 168 (take 16 store)) 184
       [(2, ACTION_PREVIOUS), (2, ACTION_RECOVERY), (2, ACTION_RECOVERY), (2, ACTION_RECOVERY),
        (4, AUTHORITY_CEILING), (4, REQUIRED_TRANSPORTS)]))))"

definition prec_encode ::
  "int \<Rightarrow> int \<Rightarrow> int \<Rightarrow> int \<Rightarrow> int \<Rightarrow> int \<times> int \<Rightarrow> string \<Rightarrow> bytes res" where
  "prec_encode version minimum_secure generation_floor attempts deadline slot_versions label =
     rbind (encode_prec_header version minimum_secure generation_floor attempts deadline label) (\<lambda>out.
     rbind (rfold (encode_slot label minimum_secure)
              (enumerate 0 [fst slot_versions, snd slot_versions]) out) (\<lambda>out.
     rbind (rfold encode_failure_rule (enumerate 0 expected_failure_rows) out) (\<lambda>out.
     rbind (rfold encode_authority_rule (enumerate 0 expected_authority_rows) out) (\<lambda>out.
     let result = put out 104 (sha256 (drop PREC_HEADER_BYTES out)) in
     rbind (prec_parse result) (\<lambda>_. Inr result)))))"

definition prec_canonical_bundle :: "bytes res" where
  "prec_canonical_bundle = prec_encode 1 1 11 3 300 (2, 1) ''canonical''"

definition prec_minimal_bundle :: "bytes res" where
  "prec_minimal_bundle = prec_encode 1 1 1 1 60 (1, 1) ''minimal''"

definition prec_versioned_bundle :: "bytes res" where
  "prec_versioned_bundle = prec_encode 7 6 41 5 600 (9, 8) ''versioned''"


text \<open>A caller's optional policy: \<open>policy or parse(<default bundle>())\<close>.\<close>

definition policy_or :: "prec_bundle option \<Rightarrow> bytes res \<Rightarrow> prec_bundle res" where
  "policy_or policy default_bundle =
     (case policy of Some p \<Rightarrow> Inr p | None \<Rightarrow> rbind default_bundle prec_parse)"


section \<open>What an accepted bundle looks like\<close>

definition expected_failure_rule :: "nat \<times> int \<times> int \<times> int \<times> int \<times> int \<Rightarrow> failure_rule" where
  "expected_failure_rule = (\<lambda>(index, primary, fallback, flags, retries, allowed).
     \<lparr>failure_id = int index + 1, primary_action = primary, fallback_action = fallback,
      failure_flags = flags, max_retries = retries, failure_evidence_code = 101 + int index,
      failure_allowed_modes = allowed\<rparr>)"

definition expected_authority_rule :: "nat \<times> int \<times> int \<times> int \<times> int \<times> int \<Rightarrow> authority_rule" where
  "expected_authority_rule = (\<lambda>(index, flags, factors, allowed, operations, evidence).
     \<lparr>authority_id = int index + 1, authority_flags = flags, required_factors = factors,
      prohibited_ambient = PROHIBIT_AMBIENT_ALL, authority_allowed_modes = allowed,
      max_operations = operations, authority_evidence_code = evidence\<rparr>)"

text \<open>The contract a policy bundle satisfies, stated on its fields.\<close>

definition prec_slots_wf :: "int \<Rightarrow> int \<Rightarrow> prec_slot list \<Rightarrow> bool" where
  "prec_slots_wf minimum_secure version slots \<longleftrightarrow>
     (\<exists>a b. slots = [a, b] \<and> slot_id a = 1 \<and> slot_id b = 2 \<and>
        slot_flags a = SLOT_REQUIRED_FLAGS \<and> slot_flags b = SLOT_REQUIRED_FLAGS \<and>
        0 < slot_priority b \<and> slot_priority b < slot_priority a \<and>
        minimum_secure \<le> slot_version a \<and> minimum_secure \<le> slot_version b \<and>
        (\<forall>s \<in> {a, b}. 0 < slot_minimum_recovery_version s \<and> slot_minimum_recovery_version s \<le> version) \<and>
        slot_manifest_sha256 a \<noteq> slot_manifest_sha256 b \<and> slot_kernel_sha256 a \<noteq> slot_kernel_sha256 b)"

definition prec_bundle_wf :: "prec_bundle \<Rightarrow> bool" where
  "prec_bundle_wf b \<longleftrightarrow>
     0 < bundle_minimum_secure_version b \<and> bundle_minimum_secure_version b \<le> bundle_version b \<and>
     bundle_version b < 2 ^ 64 \<and>
     0 < required_pbp_major b \<and> 0 < required_kernel_abi_major b \<and>
     1 \<le> max_attempts b \<and> max_attempts b \<le> MAX_ATTEMPTS_LIMIT \<and> max_safe_attempts b = 1 \<and>
     1 \<le> success_deadline_seconds b \<and> success_deadline_seconds b \<le> MAX_SUCCESS_DEADLINE_SECONDS \<and>
     0 < state_generation_floor b \<and> state_generation_floor b < 2 ^ 64 \<and>
     prec_slots_wf (bundle_minimum_secure_version b) (bundle_version b) (bundle_slots b) \<and>
     failure_rules b = map expected_failure_rule (enumerate 0 expected_failure_rows) \<and>
     authority_rules b = map expected_authority_rule (enumerate 0 expected_authority_rows)"

lemma parse_failure_rule_eq:
  "parse_failure_rule data x = Inr r \<Longrightarrow> r = expected_failure_rule x"
  by (cases x) (auto simp: parse_failure_rule_def Let_def guarded_Inr_iff expected_failure_rule_def
      failure_rule_at_def)

lemma parse_authority_rule_eq:
  "parse_authority_rule data x = Inr r \<Longrightarrow> r = expected_authority_rule x"
  by (cases x) (auto simp: parse_authority_rule_def Let_def guarded_Inr_iff expected_authority_rule_def
      authority_rule_at_def)

lemma prec_parse_slots_wf:
  assumes "prec_parse_slots data minimum_secure version [0..<PREC_SLOT_COUNT] [] [] [] = Inr slots"
  shows "prec_slots_wf minimum_secure version slots"
proof -
  have [simp]: "[0..<2] = [0, 1 :: nat]" by (simp add: upt_rec numeral_2_eq_2)
  from assms show ?thesis
    by (auto simp: PREC_SLOT_COUNT_def Let_def guarded_Inr_iff prec_slots_wf_def prec_slot_at_def
        order_less_le)
qed

lemma rd_pos: "rd n d i \<noteq> 0 \<Longrightarrow> 0 < rd n d i"
  using rd_nonneg [of n d i] by linarith

lemma prec_parse_accepts:
  assumes "prec_parse data = Inr b"
  shows "prec_bundle_wf b \<and> bundle_raw b = data \<and> length data = 992 \<and>
         body_sha256 b = hex_upper (sha256 (drop 256 data))"
proof -
  note parts = prec_header_identity_def prec_header_policy_def prec_header_digests_def
  from assms obtain slots failures authorities where
    hdr: "list_all (\<lambda>(bad, _). \<not> bad)
            (prec_header_identity data @ prec_header_policy data @ prec_header_digests data)"
    and slots: "prec_parse_slots data (rd 8 data 32) (rd 8 data 24) [0..<PREC_SLOT_COUNT] [] [] [] = Inr slots"
    and fails: "rmap (parse_failure_rule data) (enumerate 0 expected_failure_rows) = Inr failures"
    and auths: "rmap (parse_authority_rule data) (enumerate 0 expected_authority_rows) = Inr authorities"
    and b: "bundle_version b = rd 8 data 24" "bundle_minimum_secure_version b = rd 8 data 32"
      "required_pbp_major b = rd 2 data 40" "required_kernel_abi_major b = rd 2 data 44"
      "max_attempts b = rd 2 data 48" "max_safe_attempts b = rd 2 data 50"
      "success_deadline_seconds b = rd 4 data 52" "state_generation_floor b = rd 8 data 96"
      "bundle_slots b = slots" "failure_rules b = failures" "authority_rules b = authorities"
      "body_sha256 b = hex_upper (bslice data 104 136)" "bundle_raw b = data"
    by (auto simp: prec_parse_def guarded_Inr_iff rbind_Inr_iff)
  from hdr have len: "length data = 992"
    by (simp add: parts PREC_TOTAL_BYTES_def)
  then have "rd 8 data 24 < 2 ^ 64" "rd 8 data 96 < 2 ^ 64"
    using rd_upper [of 24 8 data] rd_upper [of 96 8 data] by simp_all
  moreover have "failures = map expected_failure_rule (enumerate 0 expected_failure_rows)"
    using fails parse_failure_rule_eq by (rule rmap_eq_map)
  moreover have "authorities = map expected_authority_rule (enumerate 0 expected_authority_rows)"
    using auths parse_authority_rule_eq by (rule rmap_eq_map)
  ultimately show ?thesis
    using hdr prec_parse_slots_wf [OF slots] b len
    by (simp add: prec_bundle_wf_def parts rd_pos PREC_HEADER_BYTES_def)
qed

text \<open>
  C35. Soundness of the policy parser: whatever bytes \<open>parse\<close> accepts, the returned
  bundle satisfies the PREC1 contract (version floor, bounded attempts and deadline, two
  distinct slots in priority order, exactly the published failure and authority tables),
  it carries the bytes it came from, and its body digest is the SHA-256 of everything
  behind the header.
\<close>

theorem prec_parse_sound:
  assumes "prec_parse data = Inr b"
  shows "prec_bundle_wf b \<and> bundle_raw b = data \<and> length data = 992 \<and>
         body_sha256 b = hex_upper (sha256 (drop 256 data))"
  using assms by (rule prec_parse_accepts)

end
