(* ===== verification/Recovery_Codec.thy ===== *)
theory Recovery_Codec
  imports Recovery_Policy
begin

unbundle bit_operations_syntax

text \<open>
  The encoder of PREC1 policy bundles against its parser. The image \<open>encode\<close> builds is
  the header, patched with the body digest, followed by the three tables
  (\<open>header_image\<close>, \<open>tables_image\<close>); each table is the concatenation of its record
  blocks, and the parser reads every block back.
\<close>


section \<open>Record blocks\<close>

definition failure_block :: "nat \<times> int \<times> int \<times> int \<times> int \<times> int \<Rightarrow> bytes" where
  "failure_block = (\<lambda>(index, primary, fallback, flags, retries, allowed).
     packed [(2, int index + 1), (2, primary), (2, fallback), (2, flags), (2, retries),
        (2, 101 + int index), (4, allowed)] @ zeros 16)"

definition authority_block :: "nat \<times> int \<times> int \<times> int \<times> int \<times> int \<Rightarrow> bytes" where
  "authority_block = (\<lambda>(index, flags, factors, allowed, operations, evidence).
     packed [(2, int index + 1), (2, flags), (4, factors), (4, PROHIBIT_AMBIENT_ALL), (4, allowed),
        (2, operations), (2, 0), (4, evidence)] @ zeros 8)"

definition label_digest :: "string \<Rightarrow> bytes" where
  "label_digest l = sha256 (ascii_bytes l)"

definition slot_block :: "string \<Rightarrow> int \<Rightarrow> nat \<times> int \<Rightarrow> bytes" where
  "slot_block label minimum_secure = (\<lambda>(index, version).
     packed [(2, int index + 1), (2, SLOT_REQUIRED_FLAGS), (4, 15 - int index),
              (8, version), (8, minimum_secure)]
     @ label_digest (slot_label label index ''manifest'') @ label_digest (slot_label label index ''kernel'') @ zeros 8)"

lemma length_blocks [simp]:
  "length (failure_block x) = 32" "length (authority_block x) = 32"
  by (cases x; simp add: failure_block_def authority_block_def)+

text \<open>Every row of the expected tables fits its fields.\<close>

definition failure_row_fits :: "nat \<times> int \<times> int \<times> int \<times> int \<times> int \<Rightarrow> bool" where
  "failure_row_fits = (\<lambda>(index, primary, fallback, flags, retries, allowed).
     index < 10 \<and> fits 2 primary \<and> fits 2 fallback \<and> fits 2 flags \<and> fits 2 retries \<and> fits 4 allowed)"

definition authority_row_fits :: "nat \<times> int \<times> int \<times> int \<times> int \<times> int \<Rightarrow> bool" where
  "authority_row_fits = (\<lambda>(index, flags, factors, allowed, operations, evidence).
     index < 7 \<and> fits 2 flags \<and> fits 4 factors \<and> fits 4 allowed \<and> fits 2 operations \<and> fits 4 evidence)"

lemma table_rows_fit:
  "x \<in> set (enumerate 0 expected_failure_rows) \<Longrightarrow> failure_row_fits x"
  "y \<in> set (enumerate 0 expected_authority_rows) \<Longrightarrow> authority_row_fits y"
  by (auto simp: expected_failure_rows_def expected_authority_rows_def failure_row_fits_def
      authority_row_fits_def fits_def code_defs Let_def)

lemma encode_failure_rule_block:
  assumes "failure_row_fits (i, x)" "length out = 992"
    "bslice out (448 + i * 32) (448 + i * 32 + 32) = zeros 32"
  shows "encode_failure_rule (i, x) out = Inr (put out (448 + i * 32) (failure_block (i, x)))"
proof -
  obtain a b c d e where x: "x = (a, b, c, d, e)" by (cases x)
  have "i < 10" using assms(1) by (simp add: failure_row_fits_def x)
  let ?p = "packed [(2, int i + 1), (2, a), (2, b), (2, c), (2, d), (2, 101 + int i), (4, e)]"
  have "encode_failure_rule (i, x) out = Inr (put out (448 + i * 32) ?p)"
    unfolding encode_failure_rule_def x prod.case
    using assms(1,2) \<open>i < 10\<close>
    by (subst pack_into_ok) (simp_all add: failure_row_fits_def x code_defs fits_def)
  also have "put out (448 + i * 32) ?p = put out (448 + i * 32) (?p @ zeros 16)"
    using assms(2,3) \<open>i < 10\<close> by (intro put_pad) simp_all
  finally show ?thesis by (simp add: failure_block_def x)
qed

lemma encode_authority_rule_block:
  assumes "authority_row_fits (i, x)" "length out = 992"
    "bslice out (768 + i * 32) (768 + i * 32 + 32) = zeros 32"
  shows "encode_authority_rule (i, x) out = Inr (put out (768 + i * 32) (authority_block (i, x)))"
proof -
  obtain a b c d e where x: "x = (a, b, c, d, e)" by (cases x)
  have "i < 7" using assms(1) by (simp add: authority_row_fits_def x)
  let ?p = "packed [(2, int i + 1), (2, a), (4, b), (4, PROHIBIT_AMBIENT_ALL), (4, c), (2, d), (2, 0), (4, e)]"
  have "encode_authority_rule (i, x) out = Inr (put out (768 + i * 32) ?p)"
    unfolding encode_authority_rule_def x prod.case
    using assms(1,2) \<open>i < 7\<close>
    by (subst pack_into_ok) (simp_all add: authority_row_fits_def x code_defs fits_def)
  also have "put out (768 + i * 32) ?p = put out (768 + i * 32) (?p @ zeros 8)"
    using assms(2,3) \<open>i < 7\<close> by (intro put_pad) simp_all
  finally show ?thesis by (simp add: authority_block_def x)
qed

lemma encode_slot_block:
  assumes "prec_digest (slot_label label i ''manifest'') = Inr (label_digest (slot_label label i ''manifest''))"
    "prec_digest (slot_label label i ''kernel'') = Inr (label_digest (slot_label label i ''kernel''))"
    "length (label_digest (slot_label label i ''manifest'')) = 32" "length (label_digest (slot_label label i ''kernel'')) = 32"
    "i < 2" "fits 8 v" "fits 8 ms" "length out = 992"
    "bslice out (256 + i * 96) (256 + i * 96 + 96) = zeros 96"
  shows "encode_slot label ms (i, v) out = Inr (put out (256 + i * 96) (slot_block label ms (i, v)))"
proof -
  let ?off = "256 + i * 96"
  let ?p = "packed [(2, int i + 1), (2, SLOT_REQUIRED_FLAGS), (4, 15 - int i), (8, v), (8, ms)]"
  let ?m = "label_digest (slot_label label i ''manifest'')" and ?k = "label_digest (slot_label label i ''kernel'')"
  have off: "PREC_SLOT_OFFSET + i * PREC_SLOT_BYTES = ?off" by (simp add: code_defs)
  have bound: "?off + 96 \<le> length out" using assms(5,8) by simp
  have "pack_into out ?off [(2, int i + 1), (2, SLOT_REQUIRED_FLAGS), (4, 15 - int i), (8, v), (8, ms)]
      = Inr (put out ?off ?p)"
    using assms(5-8) by (intro pack_into_ok) (simp_all add: fits_def code_defs)
  then have "encode_slot label ms (i, v) out
      = Inr (put (put (put out ?off ?p) (?off + 24) ?m) (?off + 56) ?k)"
    by (simp add: encode_slot_def off assms(1,2))
  also have "put (put (put out ?off ?p) (?off + 24) ?m) (?off + 56) ?k = put out ?off (?p @ ?m @ ?k)"
    using put_put_adjacent [of ?off ?p ?m out] put_put_adjacent [of ?off "?p @ ?m" ?k out] bound assms(3,4)
    by simp
  also have "\<dots> = put out ?off ((?p @ ?m @ ?k) @ zeros 8)"
    using bound assms(3,4,9) by (intro put_pad) simp_all
  finally show ?thesis by (simp add: slot_block_def)
qed

definition prec_labels :: "string \<Rightarrow> string list" where
  "prec_labels label = [''PREC1:'' @ label @ '':recovery-component'', ''PREC1:'' @ label @ '':state-store'',
     slot_label label 0 ''manifest'', slot_label label 0 ''kernel'',
     slot_label label 1 ''manifest'', slot_label label 1 ''kernel'']"

text \<open>
  What \<open>encode\<close> needs of its digests: they exist, have 32 bytes, are not all zero, and
  the two slots get different ones.
\<close>

definition digests_usable :: "string \<Rightarrow> bool" where
  "digests_usable label \<longleftrightarrow>
     (\<forall>l \<in> set (prec_labels label). prec_digest l = Inr (label_digest l) \<and> length (label_digest l) = 32 \<and>
        any_byte (take 16 (label_digest l))) \<and>
     label_digest (slot_label label 0 ''manifest'') \<noteq> label_digest (slot_label label 1 ''manifest'') \<and>
     label_digest (slot_label label 0 ''kernel'') \<noteq> label_digest (slot_label label 1 ''kernel'')"

definition prec_params_ok :: "int \<Rightarrow> int \<Rightarrow> int \<Rightarrow> int \<Rightarrow> int \<Rightarrow> int \<times> int \<Rightarrow> bool" where
  "prec_params_ok version minimum_secure generation_floor attempts deadline slot_versions \<longleftrightarrow>
     1 \<le> minimum_secure \<and> minimum_secure \<le> version \<and> version < 2 ^ 64 \<and>
     1 \<le> generation_floor \<and> generation_floor < 2 ^ 64 \<and>
     1 \<le> attempts \<and> attempts \<le> 7 \<and> 1 \<le> deadline \<and> deadline \<le> 3600 \<and>
     minimum_secure \<le> fst slot_versions \<and> fst slot_versions < 2 ^ 64 \<and>
     minimum_secure \<le> snd slot_versions \<and> snd slot_versions < 2 ^ 64"

definition header_fields :: "int \<Rightarrow> int \<Rightarrow> int \<Rightarrow> int \<Rightarrow> (nat \<times> int) list" where
  "header_fields version minimum_secure attempts deadline =
     [(2, 1), (2, 0), (2, 256), (2, 8), (4, 992), (4, 16383),
      (8, version), (8, minimum_secure), (2, 1), (2, 0), (2, 1), (2, 0), (2, attempts), (2, 1),
      (4, deadline), (2, 128), (2, 16), (2, 2), (2, 10), (2, 7), (2, 1), (4, 256), (4, 448), (4, 768)]"

definition header_image :: "int \<Rightarrow> int \<Rightarrow> int \<Rightarrow> int \<Rightarrow> int \<Rightarrow> bytes \<Rightarrow> bytes \<Rightarrow> bytes" where
  "header_image version minimum_secure generation_floor attempts deadline component store =
     put (put (put (put (put (put (zeros 992) 0 PREC_MAGIC)
       8 (packed (header_fields version minimum_secure attempts deadline)))
       80 (packed [(4, 63), (4, 1023), (4, 63), (4, 63), (8, generation_floor)]))
       136 component) 168 (take 16 store))
       184 (packed [(2, 3), (2, 4), (2, 4), (2, 4), (4, 7), (4, 3)])"

lemma length_magic [simp]: "length PREC_MAGIC = 8"
  by (simp add: PREC_MAGIC_def)

lemma length_header_image:
  "length component = 32 \<Longrightarrow> length store = 32 \<Longrightarrow>
   length (header_image v ms fl at dl component store) = 992"
  by (simp add: header_image_def length_put header_fields_def)

lemma header_image_tables_zero:
  "length component = 32 \<Longrightarrow> length store = 32 \<Longrightarrow> 256 \<le> i \<Longrightarrow> j \<le> 992 \<Longrightarrow>
   bslice (header_image v ms fl at dl component store) i j = zeros (j - i)"
  by (simp add: header_image_def length_put header_fields_def slice_put_after slice_zeros)

lemma encode_prec_header_image:
  assumes "digests_usable label" "prec_params_ok v ms fl at dl sv"
  shows "encode_prec_header v ms fl at dl label =
    Inr (header_image v ms fl at dl (label_digest (''PREC1:'' @ label @ '':recovery-component''))
           (label_digest (''PREC1:'' @ label @ '':state-store'')))"
proof -
  let ?c = "''PREC1:'' @ label @ '':recovery-component''" and ?s = "''PREC1:'' @ label @ '':state-store''"
  have dg: "prec_digest ?c = Inr (label_digest ?c)" "prec_digest ?s = Inr (label_digest ?s)" "length (label_digest ?c) = 32" "length (label_digest ?s) = 32"
    using assms(1) by (simp_all add: digests_usable_def prec_labels_def)
  let ?d0 = "put (zeros 992) 0 PREC_MAGIC"
  let ?d1 = "put ?d0 8 (packed (header_fields v ms at dl))"
  let ?d2 = "put ?d1 80 (packed [(4, 63), (4, 1023), (4, 63), (4, 63), (8, fl)])"
  let ?d3 = "put (put ?d2 136 (label_digest ?c)) 168 (take 16 (label_digest ?s))"
  have len: "length ?d0 = 992" "length ?d1 = 992" "length ?d2 = 992" "length ?d3 = 992"
    using dg(3,4) by (simp_all add: length_put header_fields_def)
  have p1: "pack_into ?d0 8 (header_fields v ms at dl) = Inr ?d1"
    using assms(2) by (intro pack_into_ok) (simp_all add: length_put header_fields_def fits_def prec_params_ok_def)
  have p2: "pack_into ?d1 80 [(4, 63), (4, 1023), (4, 63), (4, 63), (8, fl)] = Inr ?d2"
    using assms(2) len by (intro pack_into_ok) (simp_all add: fits_def prec_params_ok_def)
  have p3: "pack_into ?d3 184 [(2, 3), (2, 4), (2, 4), (2, 4), (4, 7), (4, 3)] =
      Inr (put ?d3 184 (packed [(2, 3), (2, 4), (2, 4), (2, 4), (4, 7), (4, 3)]))"
    using len by (intro pack_into_ok) (simp_all add: fits_def)
  show ?thesis
    using p1 p2 p3 dg by (simp add: encode_prec_header_def header_image_def header_fields_def code_defs)
qed

definition tables_image :: "string \<Rightarrow> int \<Rightarrow> int \<times> int \<Rightarrow> bytes" where
  "tables_image label minimum_secure slot_versions =
     concat (map (slot_block label minimum_secure) (enumerate 0 [fst slot_versions, snd slot_versions]))
     @ concat (map failure_block (enumerate 0 expected_failure_rows))
     @ concat (map authority_block (enumerate 0 expected_authority_rows))"

lemma table_lengths:
  "length expected_failure_rows = 10" "length expected_authority_rows = 7"
  by (simp_all add: expected_failure_rows_def expected_authority_rows_def Let_def)

lemma length_slot_block:
  assumes "digests_usable label" "x \<in> set (enumerate 0 [a, b])"
  shows "length (slot_block label ms x) = 96"
  using assms by (auto simp: slot_block_def digests_usable_def prec_labels_def)

lemma length_tables_image:
  assumes "digests_usable label"
  shows "length (tables_image label ms sv) = 736"
proof -
  have "length (concat (map (slot_block label ms) (enumerate 0 [fst sv, snd sv]))) = 2 * 96"
    using length_concat_map [of "enumerate 0 [fst sv, snd sv]" "slot_block label ms" 96]
      length_slot_block [OF assms] by simp
  moreover have "length (concat (map failure_block (enumerate 0 expected_failure_rows))) = 10 * 32"
    using length_concat_map [of "enumerate 0 expected_failure_rows" failure_block 32]
    by (simp add: table_lengths)
  moreover have "length (concat (map authority_block (enumerate 0 expected_authority_rows))) = 7 * 32"
    using length_concat_map [of "enumerate 0 expected_authority_rows" authority_block 32]
    by (simp add: table_lengths)
  ultimately show ?thesis by (simp add: tables_image_def)
qed

lemma encode_tables:
  assumes dgu: "digests_usable label" and ok: "prec_params_ok v ms fl at dl sv"
    and len: "length out = 992" and zero: "\<And>i j. 256 \<le> i \<Longrightarrow> j \<le> 992 \<Longrightarrow> bslice out i j = zeros (j - i)"
  shows "rbind (rfold (encode_slot label ms) (enumerate 0 [fst sv, snd sv]) out) (\<lambda>out.
     rbind (rfold encode_failure_rule (enumerate 0 expected_failure_rows) out) (\<lambda>out.
     rfold encode_authority_rule (enumerate 0 expected_authority_rows) out))
    = Inr (put out 256 (tables_image label ms sv))"
proof -
  let ?S = "concat (map (slot_block label ms) (enumerate 0 [fst sv, snd sv]))"
  let ?F = "concat (map failure_block (enumerate 0 expected_failure_rows))"
  let ?A = "concat (map authority_block (enumerate 0 expected_authority_rows))"
  have lS: "length ?S = 192"
    using length_concat_map [of "enumerate 0 [fst sv, snd sv]" "slot_block label ms" 96]
      length_slot_block [OF dgu] by simp
  have lF: "length ?F = 320"
    using length_concat_map [of "enumerate 0 expected_failure_rows" failure_block 32]
    by (simp add: table_lengths)
  have lA: "length ?A = 224"
    using length_concat_map [of "enumerate 0 expected_authority_rows" authority_block 32]
    by (simp add: table_lengths)
  have slots: "rfold (encode_slot label ms) (enumerate 0 [fst sv, snd sv]) out = Inr (put out 256 ?S)"
  proof -
    have "encode_slot label ms (i, x) o1 = Inr (put o1 (256 + i * 96) (slot_block label ms (i, x)))"
      if "(i, x) \<in> set (enumerate 0 [fst sv, snd sv])" "length o1 = 992"
        "bslice o1 (256 + i * 96) (256 + i * 96 + 96) = zeros 96" for i x o1
      using that dgu ok
      by (intro encode_slot_block)
        (auto simp: digests_usable_def prec_labels_def prec_params_ok_def fits_def)
    then show ?thesis
      using rfold_table [of 0 "[fst sv, snd sv]" 992 256 96 "encode_slot label ms"
          "slot_block label ms" out] len zero length_slot_block [OF dgu] by simp
  qed
  have fails: "rfold encode_failure_rule (enumerate 0 expected_failure_rows) (put out 256 ?S)
      = Inr (put (put out 256 ?S) 448 ?F)"
    using rfold_table [of 0 expected_failure_rows 992 448 32 encode_failure_rule failure_block "put out 256 ?S"]
      encode_failure_rule_block table_rows_fit(1) len lS zero
    by (simp add: table_lengths length_put slice_put_after)
  have auths: "rfold encode_authority_rule (enumerate 0 expected_authority_rows) (put (put out 256 ?S) 448 ?F)
      = Inr (put (put (put out 256 ?S) 448 ?F) 768 ?A)"
    using rfold_table [of 0 expected_authority_rows 992 768 32 encode_authority_rule authority_block
        "put (put out 256 ?S) 448 ?F"]
      encode_authority_rule_block table_rows_fit(2) len lS lF zero
    by (simp add: table_lengths length_put slice_put_after)
  have "put (put (put out 256 ?S) 448 ?F) 768 ?A = put out 256 (?S @ ?F @ ?A)"
    using put_put_adjacent [of 256 ?S ?F out] put_put_adjacent [of 256 "?S @ ?F" ?A out] len lS lF lA
    by simp
  then show ?thesis
    by (simp only: slots fails auths rbind.simps tables_image_def)
qed


text \<open>The finished image, and what \<open>parse\<close> reads in it.\<close>

lemma parse_header_image:
  assumes "length cdig = 32" "length store = 32" "any_byte (take 16 cdig)" "any_byte (take 16 store)"
    "prec_params_ok v ms fl at dl sv" "length T = 736"
    and img: "img = put (put (header_image v ms fl at dl cdig store) 256 T) 104 (sha256 T)"
  shows "list_all (\<lambda>(bad, _). \<not> bad)
      (prec_header_identity img @ prec_header_policy img @ prec_header_digests img)"
    and "rd 8 img 24 = v" "rd 8 img 32 = ms" "rd 2 img 48 = at" "rd 4 img 52 = dl" "rd 8 img 96 = fl"
    and "length img = 992" "drop 256 img = T"
proof -
  note rds = header_image_def header_fields_def length_put rd_put_before rd_put_after rd_put_in
    rd_packed_the slice_put_before slice_put_after slice_put_exact fits_def rd_zeros slice_zeros
  have any: "any_byte cdig"
    using assms(3) by (auto simp: any_byte_def list_ex_iff dest: in_set_takeD)
  show len: "length img = 992" and drop: "drop 256 img = T"
    using assms(1,2,6) by (simp_all add: img length_put length_header_image) (simp add: put_def length_header_image)
  have params: "0 \<le> v" "v < 2 ^ 64" "0 \<le> ms" "ms < 2 ^ 64" "0 \<le> at" "at < 256 ^ 2" "0 \<le> dl" "dl < 256 ^ 4"
    "0 \<le> fl" "fl < 2 ^ 64"
    using assms(5) by (simp_all add: prec_params_ok_def)
  note facts = assms(1,2,6) params
  show r: "rd 8 img 24 = v" "rd 8 img 32 = ms" "rd 2 img 48 = at" "rd 4 img 52 = dl" "rd 8 img 96 = fl"
    using facts by (simp_all add: img rds)
  have i: "list_all (\<lambda>(bad, _). \<not> bad) (prec_header_identity img)"
  proof -
    have "bslice img 0 8 = PREC_MAGIC" "rd 2 img 8 = 1" "rd 2 img 10 = 0" "rd 2 img 12 = 256"
      "rd 2 img 14 = 8" "rd 4 img 16 = 992" "rd 4 img 20 = 16383" "rd 2 img 40 = 1" "rd 2 img 44 = 1"
      using facts by (simp_all add: img rds)
    then show ?thesis
      using assms(5) r len by (simp add: prec_header_identity_def prec_params_ok_def code_defs)
  qed
  have p: "list_all (\<lambda>(bad, _). \<not> bad) (prec_header_policy img)"
  proof -
    have "rd 2 img 50 = 1" "rd 2 img 56 = 128" "rd 2 img 58 = 16" "rd 2 img 60 = 2" "rd 2 img 62 = 10"
      "rd 2 img 64 = 7" "rd 2 img 66 = 1" "rd 4 img 68 = 256" "rd 4 img 72 = 448" "rd 4 img 76 = 768"
      "rd 4 img 80 = 63" "rd 4 img 84 = 1023" "rd 4 img 88 = 63" "rd 4 img 92 = 63"
      using facts by (simp_all add: img rds)
    then show ?thesis
      using assms(5) r by (simp add: prec_header_policy_def prec_params_ok_def code_defs)
  qed
  have d: "list_all (\<lambda>(bad, _). \<not> bad) (prec_header_digests img)"
  proof -
    have "bslice img 104 136 = sha256 T" "bslice img 136 168 = cdig" "bslice img 168 184 = take 16 store"
      "rd 2 img 184 = 3" "rd 2 img 186 = 4" "rd 2 img 188 = 4" "rd 2 img 190 = 4" "rd 4 img 192 = 7"
      "rd 4 img 196 = 3" "bslice img 200 256 = zeros 56"
      using facts by (simp_all add: img rds)
    then show ?thesis
      using assms(4) any drop by (simp add: prec_header_digests_def code_defs)
  qed
  show "list_all (\<lambda>(bad, _). \<not> bad)
      (prec_header_identity img @ prec_header_policy img @ prec_header_digests img)"
    using i p d by simp
qed

lemma parse_failure_block:
  assumes fit: "failure_row_fits (i, x)"
    and row: "bslice data (448 + i * 32) (448 + i * 32 + 32) = failure_block (i, x)"
    and flags: "(case x of (_, _, fl, _, _) \<Rightarrow> fl) AND NOT FAILURE_KNOWN_FLAGS = 0"
  shows "parse_failure_rule data (i, x) = Inr (expected_failure_rule (i, x))"
proof -
  obtain a b c d e where x: "x = (a, b, c, d, e)" by (cases x)
  define off where "off = PREC_FAILURE_OFFSET + i * PREC_FAILURE_BYTES"
  have row: "bslice data off (off + 32) = failure_block (i, x)"
    using row by (simp add: off_def code_defs)
  have "rd 2 data (off + 0) = int i + 1" "rd 2 data (off + 2) = a" "rd 2 data (off + 4) = b"
    "rd 2 data (off + 6) = c" "rd 2 data (off + 8) = d" "rd 2 data (off + 10) = 101 + int i"
    "rd 4 data (off + 12) = e"
    using fit by (simp_all only: rd_at_block [OF row])
      (simp_all add: failure_block_def x rd_append1 rd_packed_the failure_row_fits_def fits_def)
  moreover have "bslice data (off + 16) (off + PREC_FAILURE_BYTES) = zeros 16"
    by (simp only: PREC_FAILURE_BYTES_def bslice_at_block [OF row]) (simp add: failure_block_def x bslice_append2 slice_zeros)
  ultimately show ?thesis
    using flags by (simp add: parse_failure_rule_def Let_def x failure_rule_at_def
        guarded_pass expected_failure_rule_def flip: off_def)
qed

lemma parse_authority_block:
  assumes fit: "authority_row_fits (i, x)"
    and row: "bslice data (768 + i * 32) (768 + i * 32 + 32) = authority_block (i, x)"
    and flags: "(case x of (fl, fa, _, _, _) \<Rightarrow> fl AND NOT AUTH_KNOWN_FLAGS = 0 \<and> fa AND NOT FACTOR_KNOWN_MASK = 0)"
  shows "parse_authority_rule data (i, x) = Inr (expected_authority_rule (i, x))"
proof -
  obtain a b c d e where x: "x = (a, b, c, d, e)" by (cases x)
  define off where "off = PREC_AUTHORITY_OFFSET + i * PREC_AUTHORITY_BYTES"
  have row: "bslice data off (off + 32) = authority_block (i, x)"
    using row by (simp add: off_def code_defs)
  have "rd 2 data (off + 0) = int i + 1" "rd 2 data (off + 2) = a" "rd 4 data (off + 4) = b"
    "rd 4 data (off + 8) = PROHIBIT_AMBIENT_ALL" "rd 4 data (off + 12) = c" "rd 2 data (off + 16) = d"
    "rd 2 data (off + 18) = 0" "rd 4 data (off + 20) = e"
    using fit by (simp_all only: rd_at_block [OF row])
      (simp_all add: authority_block_def x rd_append1 rd_packed_the authority_row_fits_def fits_def
        PROHIBIT_AMBIENT_ALL_def PROHIBIT_FIRMWARE_def PROHIBIT_RAW_DISK_def PROHIBIT_NETWORK_def)
  moreover have "bslice data (off + 24) (off + PREC_AUTHORITY_BYTES) = zeros 8"
    by (simp only: PREC_AUTHORITY_BYTES_def bslice_at_block [OF row]) (simp add: authority_block_def x bslice_append2 slice_zeros)
  ultimately show ?thesis
    using flags by (simp add: parse_authority_rule_def Let_def x authority_rule_at_def
        guarded_pass expected_authority_rule_def flip: off_def)
qed

lemma table_flags_known:
  "(i, x) \<in> set (enumerate 0 expected_failure_rows) \<Longrightarrow>
     (case x of (_, _, fl, _, _) \<Rightarrow> fl) AND NOT FAILURE_KNOWN_FLAGS = 0"
  "(i, y) \<in> set (enumerate 0 expected_authority_rows) \<Longrightarrow>
     (case y of (fl, fa, _, _, _) \<Rightarrow> fl AND NOT AUTH_KNOWN_FLAGS = 0 \<and> fa AND NOT FACTOR_KNOWN_MASK = 0)"
  by (auto simp: expected_failure_rows_def expected_authority_rows_def code_defs Let_def)

definition expected_slot :: "string \<Rightarrow> int \<Rightarrow> nat \<times> int \<Rightarrow> prec_slot" where
  "expected_slot label minimum_secure = (\<lambda>(index, version).
     \<lparr>slot_id = int index + 1, slot_flags = SLOT_REQUIRED_FLAGS, slot_priority = 15 - int index,
      slot_version = version, slot_minimum_recovery_version = minimum_secure,
      slot_manifest_sha256 = hex_upper (label_digest (slot_label label index ''manifest'')),
      slot_kernel_sha256 = hex_upper (label_digest (slot_label label index ''kernel''))\<rparr>)"

lemma read_slot_block:
  assumes "length (label_digest (slot_label label i ''manifest'')) = 32" "length (label_digest (slot_label label i ''kernel'')) = 32"
    "i < 2" "fits 8 v" "fits 8 ms"
    and row: "bslice data off (off + 96) = slot_block label ms (i, v)"
  shows "prec_slot_at data off = expected_slot label ms (i, v)"
    and "bslice data (off + 24) (off + 56) = label_digest (slot_label label i ''manifest'')"
    and "bslice data (off + 56) (off + 88) = label_digest (slot_label label i ''kernel'')"
    and "bslice data (off + 88) (off + 96) = zeros 8"
proof -
  have "fits 2 (int i + 1)" "fits 4 (15 - int i)" "fits 2 SLOT_REQUIRED_FLAGS"
    using assms(3) by (simp_all add: fits_def code_defs)
  then have "rd 2 data (off + 0) = int i + 1" "rd 2 data (off + 2) = SLOT_REQUIRED_FLAGS"
    "rd 4 data (off + 4) = 15 - int i" "rd 8 data (off + 8) = v" "rd 8 data (off + 16) = ms"
    using assms(4,5) by (simp_all only: rd_at_block [OF row])
      (simp_all add: slot_block_def rd_append1 rd_packed_the)
  moreover show m: "bslice data (off + 24) (off + 56) = label_digest (slot_label label i ''manifest'')"
    and k: "bslice data (off + 56) (off + 88) = label_digest (slot_label label i ''kernel'')"
    and "bslice data (off + 88) (off + 96) = zeros 8"
    using assms(1,2) by (simp_all only: bslice_at_block [OF row])
      (simp_all add: slot_block_def bslice_append1 bslice_append2 slice_full)
  ultimately show "prec_slot_at data off = expected_slot label ms (i, v)"
    by (simp add: prec_slot_at_def expected_slot_def)
qed

lemma parse_tables:
  assumes dgu: "digests_usable label" and ok: "prec_params_ok v ms fl at dl sv"
    and len: "length img = 992" and tail: "drop 256 img = tables_image label ms sv"
  shows "prec_parse_slots img ms v [0..<PREC_SLOT_COUNT] [] [] [] =
      Inr [expected_slot label ms (0, fst sv), expected_slot label ms (1, snd sv)]" (is ?slots)
    and "rmap (parse_failure_rule img) (enumerate 0 expected_failure_rows) =
      Inr (map expected_failure_rule (enumerate 0 expected_failure_rows))" (is ?fails)
    and "rmap (parse_authority_rule img) (enumerate 0 expected_authority_rows) =
      Inr (map expected_authority_rule (enumerate 0 expected_authority_rows))" (is ?auths)
proof -
  let ?S = "concat (map (slot_block label ms) (enumerate 0 [fst sv, snd sv]))"
  let ?F = "concat (map failure_block (enumerate 0 expected_failure_rows))"
  let ?A = "concat (map authority_block (enumerate 0 expected_authority_rows))"
  have lS: "length ?S = 192"
    using length_concat_map [of "enumerate 0 [fst sv, snd sv]" "slot_block label ms" 96]
      length_slot_block [OF dgu] by simp
  have lF: "length ?F = 320"
    using length_concat_map [of "enumerate 0 expected_failure_rows" failure_block 32]
    by (simp add: table_lengths)
  have at: "bslice img (256 + a) (256 + b) = bslice (?S @ ?F @ ?A) a b" for a b
    using arg_cong [OF tail, of "\<lambda>t. bslice t a b"] by (simp add: bslice_def tables_image_def add.commute)
  have row: "bslice img (256 + i * 96) (256 + i * 96 + 96) = slot_block label ms (i, [fst sv, snd sv] ! i)"
    if "i < 2" for i
  proof -
    have "i * 96 + 96 \<le> length ?S" using that by (simp only: lS)
    then have "bslice img (256 + i * 96) (256 + (i * 96 + 96)) = bslice ?S (i * 96) (i * 96 + 96)"
      by (simp only: at bslice_append1)
    also have "\<dots> = slot_block label ms (enumerate 0 [fst sv, snd sv] ! i)"
      using that length_slot_block [OF dgu] by (intro bslice_concat_nth) simp_all
    finally show ?thesis using that by (simp add: nth_enumerate_eq add.assoc del: enumerate_simps)
  qed
  have frow: "bslice img (448 + i * 32) (448 + i * 32 + 32) = failure_block (enumerate 0 expected_failure_rows ! i)"
    if "i < 10" for i
  proof -
    have "bslice img (256 + (192 + i * 32)) (256 + (192 + i * 32 + 32)) = bslice ?F (i * 32) (i * 32 + 32)"
      using that lS lF by (simp only: at) (simp add: bslice_append1 bslice_append2 add.commute)
    also have "\<dots> = failure_block (enumerate 0 expected_failure_rows ! i)"
      using that by (intro bslice_concat_nth) (simp_all add: table_lengths)
    finally show ?thesis by (simp add: add.assoc [symmetric])
  qed
  have arow: "bslice img (768 + i * 32) (768 + i * 32 + 32) = authority_block (enumerate 0 expected_authority_rows ! i)"
    if "i < 7" for i
  proof -
    have "bslice img (256 + (512 + i * 32)) (256 + (512 + i * 32 + 32)) = bslice ?A (i * 32) (i * 32 + 32)"
      using that lS lF by (simp only: at) (simp add: bslice_append1 bslice_append2 add.commute)
    also have "\<dots> = authority_block (enumerate 0 expected_authority_rows ! i)"
      using that by (intro bslice_concat_nth) (simp_all add: table_lengths)
    finally show ?thesis by (simp add: add.assoc [symmetric])
  qed
  show ?fails
  proof (rule rmap_all_Inr)
    fix y assume y: "y \<in> set (enumerate 0 expected_failure_rows)"
    obtain i x where ix: "y = (i, x)" by (rule prod.exhaust)
    then have "i < 10" "enumerate 0 expected_failure_rows ! i = y"
      using y by (auto simp: in_set_enumerate_eq table_lengths nth_enumerate_eq)
    then show "parse_failure_rule img y = Inr (expected_failure_rule y)"
      using parse_failure_block table_rows_fit(1) table_flags_known(1) frow y ix by metis
  qed
  show ?auths
  proof (rule rmap_all_Inr)
    fix y assume y: "y \<in> set (enumerate 0 expected_authority_rows)"
    obtain i x where ix: "y = (i, x)" by (rule prod.exhaust)
    then have "i < 7" "enumerate 0 expected_authority_rows ! i = y"
      using y by (auto simp: in_set_enumerate_eq table_lengths nth_enumerate_eq)
    then show "parse_authority_rule img y = Inr (expected_authority_rule y)"
      using parse_authority_block table_rows_fit(2) table_flags_known(2) arow y ix by metis
  qed
  have lab: "length (label_digest (slot_label label i p)) = 32" "any_byte (label_digest (slot_label label i p))"
    if "i < 2" "p \<in> {''manifest'', ''kernel''}" for i p
  proof -
    have "slot_label label i p \<in> set (prec_labels label)"
      using that by (auto simp: prec_labels_def less_2_cases_iff)
    then show "length (label_digest (slot_label label i p)) = 32" "any_byte (label_digest (slot_label label i p))"
      using dgu by (auto simp: digests_usable_def any_byte_def list_ex_iff dest: in_set_takeD)
  qed
  have fit: "fits 8 (fst sv)" "fits 8 (snd sv)" "fits 8 ms"
    using ok by (simp_all add: prec_params_ok_def fits_def)
  have s0: "bslice img 256 (256 + 96) = slot_block label ms (0, fst sv)"
    and s1: "bslice img 352 (352 + 96) = slot_block label ms (1, snd sv)"
    using row [of 0] row [of 1] by simp_all
  note r0 = read_slot_block [OF lab(1) lab(1) _ fit(1) fit(3) s0, simplified]
  note r1 = read_slot_block [OF lab(1) lab(1) _ fit(2) fit(3) s1, simplified]
  have [simp]: "[0..<2] = [0, 1 :: nat]" by (simp add: upt_rec numeral_2_eq_2)
  have "label_digest (slot_label label 0 ''manifest'') \<noteq> label_digest (slot_label label 1 ''manifest'')"
    "label_digest (slot_label label 0 ''kernel'') \<noteq> label_digest (slot_label label 1 ''kernel'')"
    using dgu by (simp_all add: digests_usable_def)
  note distinct = this [THEN not_sym]
  show ?slots
    using ok lab(2) distinct by (simp add: PREC_SLOT_COUNT_def PREC_SLOT_OFFSET_def PREC_HEADER_BYTES_def
        PREC_SLOT_BYTES_def Let_def r0 r1 guarded_pass expected_slot_def prec_params_ok_def)
qed

lemma prec_encode_parse:
  assumes "digests_usable label"
    and "prec_params_ok version minimum_secure generation_floor attempts deadline slot_versions"
  shows "\<exists>data b. prec_encode version minimum_secure generation_floor attempts deadline
             slot_versions label = Inr data \<and> prec_parse data = Inr b \<and> length data = 992 \<and>
           bundle_version b = version \<and> bundle_minimum_secure_version b = minimum_secure \<and>
           state_generation_floor b = generation_floor \<and> max_attempts b = attempts \<and>
           success_deadline_seconds b = deadline \<and> bundle_raw b = data \<and>
           bundle_slots b = [expected_slot label minimum_secure (0, fst slot_versions),
                             expected_slot label minimum_secure (1, snd slot_versions)] \<and>
           failure_rules b = map expected_failure_rule (enumerate 0 expected_failure_rows) \<and>
           authority_rules b = map expected_authority_rule (enumerate 0 expected_authority_rows)"
proof -
  let ?c = "''PREC1:'' @ label @ '':recovery-component''" and ?s = "''PREC1:'' @ label @ '':state-store''"
  let ?H = "header_image version minimum_secure generation_floor attempts deadline (label_digest ?c) (label_digest ?s)"
  let ?T = "tables_image label minimum_secure slot_versions"
  define img where "img = put (put ?H 256 ?T) 104 (sha256 ?T)"
  have c: "length (label_digest ?c) = 32" "any_byte (take 16 (label_digest ?c))" and s: "length (label_digest ?s) = 32" "any_byte (take 16 (label_digest ?s))"
    using assms(1) by (simp_all add: digests_usable_def prec_labels_def)
  have lT: "length ?T = 736" using assms(1) by (rule length_tables_image)
  note hdr = parse_header_image [OF c(1) s(1) c(2) s(2) assms(2) lT img_def]
  note tab = parse_tables [OF assms hdr(7,8)]
  have body: "drop PREC_HEADER_BYTES (put ?H 256 ?T) = ?T"
    using lT c s by (simp add: PREC_HEADER_BYTES_def put_def length_header_image)
  have parsed: "\<exists>b. prec_parse img = Inr b \<and> bundle_version b = version \<and>
      bundle_minimum_secure_version b = minimum_secure \<and> state_generation_floor b = generation_floor \<and>
      max_attempts b = attempts \<and> success_deadline_seconds b = deadline \<and> bundle_raw b = img \<and>
      bundle_slots b = [expected_slot label minimum_secure (0, fst slot_versions),
                        expected_slot label minimum_secure (1, snd slot_versions)] \<and>
      failure_rules b = map expected_failure_rule (enumerate 0 expected_failure_rows) \<and>
      authority_rules b = map expected_authority_rule (enumerate 0 expected_authority_rows)"
    by (simp add: prec_parse_def guarded_pass [OF hdr(1)] hdr(2-6) tab)
  have "rbind (rfold (encode_slot label minimum_secure)
              (enumerate 0 [fst slot_versions, snd slot_versions]) ?H) (\<lambda>out.
     rbind (rfold encode_failure_rule (enumerate 0 expected_failure_rows) out) (\<lambda>out.
     rfold encode_authority_rule (enumerate 0 expected_authority_rows) out)) = Inr (put ?H 256 ?T)"
    using assms c(1) s(1) length_header_image header_image_tables_zero by (intro encode_tables) blast+
  then have "prec_encode version minimum_secure generation_floor attempts deadline slot_versions label
      = rbind (prec_parse img) (\<lambda>_. Inr img)"
    by (auto simp only: prec_encode_def encode_prec_header_image [OF assms] rbind.simps
        rbind_Inr_iff Let_def body img_def)
  then show ?thesis using parsed hdr(7) by auto
qed


section \<open>The bundles of the module\<close>


definition digest_seen :: "string \<Rightarrow> bytes \<Rightarrow> bool" where
  "digest_seen l b \<longleftrightarrow> length l \<le> 55 \<and> list_all (\<lambda>c. (of_char c :: nat) < 128) l \<and> take 4 (sha256_short (ascii_bytes l)) = b \<and> any_byte b"

lemma digest_seenD:
  assumes "digest_seen l b"
  shows "prec_digest l = Inr (label_digest l) \<and> length (label_digest l) = 32 \<and> any_byte (take 16 (label_digest l))" "take 4 (label_digest l) = b"
proof -
  show b: "take 4 (label_digest l) = b"
    using assms sha256_short_eq [of "ascii_bytes l"] by (simp add: digest_seen_def label_digest_def ascii_bytes_def)
  have "any_byte (take 16 (label_digest l))"
    using assms b set_take_subset_set_take [of 4 16 "label_digest l"] by (auto simp: digest_seen_def any_byte_def list_ex_iff)
  then show "prec_digest l = Inr (label_digest l) \<and> length (label_digest l) = 32 \<and> any_byte (take 16 (label_digest l))"
    using assms by (simp add: digest_seen_def prec_digest_def label_digest_def)
qed

lemma canonical_component: "digest_seen ''PREC1:canonical:recovery-component'' [0xb7, 0x78, 0xaf, 0x1]"
  by code_simp

lemma canonical_store: "digest_seen ''PREC1:canonical:state-store'' [0x2, 0x96, 0x5, 0x65]"
  by code_simp

lemma canonical_manifest1: "digest_seen ''PREC1:canonical:slot-1:manifest'' [0x47, 0x80, 0x6a, 0x8d]"
  by code_simp

lemma canonical_kernel1: "digest_seen ''PREC1:canonical:slot-1:kernel'' [0xe1, 0x61, 0xc5, 0x47]"
  by code_simp

lemma canonical_manifest2: "digest_seen ''PREC1:canonical:slot-2:manifest'' [0x4a, 0xdc, 0x47, 0xb0]"
  by code_simp

lemma canonical_kernel2: "digest_seen ''PREC1:canonical:slot-2:kernel'' [0x44, 0x25, 0x40, 0xe4]"
  by code_simp

lemma canonical_digests: "digests_usable ''canonical''"
proof -
  note d = canonical_manifest1 [THEN digest_seenD(2)] canonical_kernel1 [THEN digest_seenD(2)] canonical_manifest2 [THEN digest_seenD(2)] canonical_kernel2 [THEN digest_seenD(2)]
  have "label_digest ''PREC1:canonical:slot-1:manifest'' \<noteq> label_digest ''PREC1:canonical:slot-2:manifest''"
    "label_digest ''PREC1:canonical:slot-1:kernel'' \<noteq> label_digest ''PREC1:canonical:slot-2:kernel''"
    using d by auto
  then show ?thesis
    using canonical_component [THEN digest_seenD(1)] canonical_store [THEN digest_seenD(1)] canonical_manifest1 [THEN digest_seenD(1)] canonical_kernel1 [THEN digest_seenD(1)] canonical_manifest2 [THEN digest_seenD(1)] canonical_kernel2 [THEN digest_seenD(1)]
    by (simp add: digests_usable_def prec_labels_def slot_label_def)
qed















text \<open>The policy the witnesses run on: the module's canonical bundle.\<close>

definition sample_policy :: prec_bundle where
  "sample_policy = projr (rbind prec_canonical_bundle prec_parse)"

lemma sample_params_ok: "prec_params_ok 1 1 11 3 300 (2, 1)"
  by (simp add: prec_params_ok_def)

lemma sample_policy_facts:
  "prec_parse (bundle_raw sample_policy) = Inr sample_policy" "bundle_version sample_policy = 1"
  "bundle_minimum_secure_version sample_policy = 1" "state_generation_floor sample_policy = 11"
  "max_attempts sample_policy = 3"
  "map slot_version (bundle_slots sample_policy) = [2, 1]"
  "map slot_flags (bundle_slots sample_policy) = [SLOT_REQUIRED_FLAGS, SLOT_REQUIRED_FLAGS]"
  "failure_rules sample_policy = map expected_failure_rule (enumerate 0 expected_failure_rows)"
  using prec_encode_parse [OF canonical_digests sample_params_ok]
  by (auto simp: sample_policy_def expected_slot_def prec_canonical_bundle_def)


section \<open>Properties\<close>



theorem prec_parse_sound_witness:
  "prec_parse (bundle_raw sample_policy) = Inr sample_policy \<and> prec_bundle_wf sample_policy"
  using sample_policy_facts(1) prec_parse_sound [OF sample_policy_facts(1)] by simp

end
