(* ===== verification/Recovery_State.thy ===== *)
theory Recovery_State
  imports Recovery_Policy
begin

unbundle bit_operations_syntax

text \<open>
  The mutable PREC1 state record (\<open>state_checksum\<close>, \<open>encode_state\<close>, \<open>parse_state\<close>,
  \<open>_base_state\<close>, \<open>canonical_state\<close>, \<open>minimal_state\<close> in
  \<open>src/runtime/native_recovery.py\<close>): 128 bytes, the last sixteen of them a truncated
  SHA-256 of the rest. \<open>state_valid\<close> is the well-formedness invariant the transitions
  keep; the codec is proved sound and complete for it and to have one spelling per
  state.
\<close>

record recovery_state =
  st_flags :: int
  generation :: int
  minimum_secure_version :: int
  active_slot :: int
  pending_slot :: int
  known_good_mask :: int
  unbootable_mask :: int
  attempts_a :: int
  attempts_b :: int
  safe_attempted_mask :: int
  current_mode :: int
  last_failure :: int
  transaction_id :: int
  boot_nonce :: int
  inflight_generation :: int
  inflight_slot :: int
  inflight_mode :: int
  last_success_slot :: int
  last_success_generation :: int
  policy_version :: int
  state_store_epoch :: int
  evidence_sequence :: int
  st_raw :: bytes


section \<open>Operations\<close>

definition state_checksum :: "bytes \<Rightarrow> bytes res" where
  "state_checksum data =
     (if length data < PREC_STATE_BYTES - PREC_STATE_CHECKSUM_BYTES then Inl (Fail ''prec_state_truncated'')
      else Inr (take PREC_STATE_CHECKSUM_BYTES
             (sha256 (take (PREC_STATE_BYTES - PREC_STATE_CHECKSUM_BYTES) data))))"

text \<open>
  The state decoded from its fixed offsets; the last field keeps the bytes.
\<close>

definition state_at :: "bytes \<Rightarrow> recovery_state" where
  "state_at data =
     \<lparr>st_flags = rd 2 data 14, generation = rd 8 data 16, minimum_secure_version = rd 8 data 24,
      active_slot = rd 1 data 32, pending_slot = rd 1 data 33, known_good_mask = rd 1 data 34,
      unbootable_mask = rd 1 data 35, attempts_a = rd 1 data 36, attempts_b = rd 1 data 37,
      safe_attempted_mask = rd 1 data 38, current_mode = rd 1 data 39, last_failure = rd 2 data 40,
      transaction_id = rd 8 data 44, boot_nonce = rd 8 data 52, inflight_generation = rd 8 data 60,
      inflight_slot = rd 1 data 68, inflight_mode = rd 1 data 69, last_success_slot = rd 1 data 70,
      last_success_generation = rd 8 data 72, policy_version = rd 8 data 80,
      state_store_epoch = rd 8 data 88, evidence_sequence = rd 8 data 96, st_raw = data\<rparr>"

definition inflight_bad :: "recovery_state \<Rightarrow> bool" where
  "inflight_bad s =
     (if st_flags s AND STATE_INFLIGHT \<noteq> 0 then
        boot_nonce s = 0 \<or> inflight_generation s \<noteq> generation s \<or> inflight_slot s \<notin> {1, 2}
        \<or> inflight_mode s \<notin> set MODE_NAMES \<or> current_mode s \<noteq> inflight_mode s
      else boot_nonce s \<noteq> 0 \<or> inflight_generation s \<noteq> 0 \<or> inflight_slot s \<noteq> 0 \<or> inflight_mode s \<noteq> 0)"

definition parse_state :: "bytes \<Rightarrow> prec_bundle option \<Rightarrow> recovery_state res" where
  "parse_state data policy =
     (let s = state_at data;
          attempt_limit = (case policy of Some p \<Rightarrow> max_attempts p | None \<Rightarrow> MAX_ATTEMPTS_LIMIT)
      in guarded [
        (length data < PREC_STATE_BYTES, ''prec_state_truncated''),
        (length data \<noteq> PREC_STATE_BYTES, ''prec_state_size''),
        (bslice data 0 8 \<noteq> PREC_STATE_MAGIC, ''prec_state_magic''),
        ((rd 2 data 8, rd 2 data 10) \<noteq> (PREC_MAJOR_VERSION, PREC_MINOR_VERSION), ''prec_state_version''),
        (rd 2 data 12 \<noteq> int PREC_STATE_BYTES, ''prec_state_size''),
        (st_flags s AND NOT STATE_KNOWN_FLAGS \<noteq> 0, ''prec_state_flags''),
        (generation s = 0 \<or> minimum_secure_version s = 0, ''prec_state_floor''),
        (active_slot s \<notin> {1, 2} \<or> pending_slot s \<notin> {0, 1, 2} \<or> pending_slot s = active_slot s,
         ''prec_state_slot''),
        (known_good_mask s = 0 \<or> known_good_mask s AND NOT 3 \<noteq> 0 \<or> unbootable_mask s AND NOT 3 \<noteq> 0
           \<or> safe_attempted_mask s AND NOT 3 \<noteq> 0, ''prec_state_mask''),
        (known_good_mask s AND unbootable_mask s \<noteq> 0, ''prec_state_mask_conflict''),
        (known_good_mask s AND 2 ^ nat (active_slot s - 1) = 0, ''prec_state_active_known_good''),
        (attempts_a s > attempt_limit \<or> attempts_b s > attempt_limit, ''prec_state_attempts''),
        (current_mode s \<noteq> 0 \<and> current_mode s \<notin> set MODE_NAMES, ''prec_state_mode''),
        ((last_failure s \<noteq> 0 \<and> last_failure s \<notin> set FAILURE_NAMES) \<or> rd 2 data 42 \<noteq> 0,
         ''prec_state_failure''),
        (last_success_slot s \<notin> {1, 2} \<or> last_success_generation s = 0
           \<or> last_success_generation s > generation s, ''prec_state_success''),
        (policy_version s = 0 \<or> state_store_epoch s = 0 \<or> evidence_sequence s = 0, ''prec_state_metadata''),
        (case policy of None \<Rightarrow> False | Some p \<Rightarrow>
           generation s < state_generation_floor p
           \<or> minimum_secure_version s < bundle_minimum_secure_version p
           \<or> policy_version s \<noteq> bundle_version p, ''prec_state_policy_binding''),
        (inflight_bad s, ''prec_state_inflight''),
        (rd 1 data 71 \<noteq> 0 \<or> rd 8 data 104 \<noteq> 0, ''prec_state_reserved'')]
       (rbind (state_checksum data) (\<lambda>checksum.
          guarded [(bslice data 112 128 \<noteq> checksum, ''prec_state_checksum'')] (Inr s))))"

definition encode_state :: "recovery_state \<Rightarrow> bytes res" where
  "encode_state s =
     rbind (pack_into (put (zeros PREC_STATE_BYTES) 0 PREC_STATE_MAGIC) 8
       [(2, PREC_MAJOR_VERSION), (2, PREC_MINOR_VERSION), (2, int PREC_STATE_BYTES), (2, st_flags s)]) (\<lambda>out.
     rbind (pack_into out 16 [(8, generation s), (8, minimum_secure_version s)]) (\<lambda>out.
     rbind (pack_into out 32 [(1, active_slot s), (1, pending_slot s), (1, known_good_mask s),
        (1, unbootable_mask s), (1, attempts_a s), (1, attempts_b s), (1, safe_attempted_mask s),
        (1, current_mode s)]) (\<lambda>out.
     rbind (pack_into out 40 [(2, last_failure s), (2, 0)]) (\<lambda>out.
     rbind (pack_into out 44 [(8, transaction_id s), (8, boot_nonce s), (8, inflight_generation s)]) (\<lambda>out.
     rbind (pack_into out 68 [(1, inflight_slot s), (1, inflight_mode s), (1, last_success_slot s), (1, 0)]) (\<lambda>out.
     rbind (pack_into out 72 [(8, last_success_generation s), (8, policy_version s),
        (8, state_store_epoch s), (8, evidence_sequence s), (8, 0)]) (\<lambda>out.
     rbind (state_checksum out) (\<lambda>checksum.
     let result = put out 112 checksum in
     rbind (parse_state result None) (\<lambda>_. Inr result)))))))))"

definition base_state ::
  "prec_bundle \<Rightarrow> int \<Rightarrow> int \<Rightarrow> int \<Rightarrow> int \<Rightarrow> int \<times> int \<Rightarrow> int \<Rightarrow> int \<Rightarrow> recovery_state res" where
  "base_state policy gen active pending known_good attempts flags safe_attempted =
     rbind (encode_state \<lparr>st_flags = flags, generation = gen,
       minimum_secure_version = bundle_minimum_secure_version policy, active_slot = active,
       pending_slot = pending, known_good_mask = known_good, unbootable_mask = 0,
       attempts_a = fst attempts, attempts_b = snd attempts, safe_attempted_mask = safe_attempted,
       current_mode = 0, last_failure = 0, transaction_id = 0x504F4F4C00000000 OR gen,
       boot_nonce = 0, inflight_generation = 0, inflight_slot = 0, inflight_mode = 0,
       last_success_slot = active, last_success_generation = gen,
       policy_version = bundle_version policy, state_store_epoch = 1, evidence_sequence = 1,
       st_raw = []\<rparr>) (\<lambda>data. parse_state data (Some policy))"

definition canonical_state :: "prec_bundle option \<Rightarrow> recovery_state res" where
  "canonical_state policy =
     rbind (policy_or policy prec_canonical_bundle) (\<lambda>selected.
     base_state selected (state_generation_floor selected) 2 1 2
       (max_attempts selected, max_attempts selected) 0 0)"

definition minimal_state :: "prec_bundle option \<Rightarrow> recovery_state res" where
  "minimal_state policy =
     rbind (policy_or policy prec_minimal_bundle) (\<lambda>selected.
     base_state selected (state_generation_floor selected) 1 0 1
       (max_attempts selected, max_attempts selected) 0 0)"


section \<open>The state invariant\<close>

text \<open>
  What a stored state promises, stated on its fields: bounded counters, one active slot
  that is known good and not retired, a pending slot that is not the active one, and
  boot-attempt fields that are all set while a boot is in flight and all clear otherwise.
  \<open>state_bound\<close> adds what binds a state to a policy.
\<close>

definition state_valid :: "recovery_state \<Rightarrow> bool" where
  "state_valid s \<longleftrightarrow>
     0 \<le> st_flags s \<and> st_flags s < 8 \<and>
     1 \<le> generation s \<and> generation s < 2 ^ 64 \<and>
     1 \<le> minimum_secure_version s \<and> minimum_secure_version s < 2 ^ 64 \<and>
     1 \<le> active_slot s \<and> active_slot s \<le> 2 \<and> 0 \<le> pending_slot s \<and> pending_slot s \<le> 2 \<and> pending_slot s \<noteq> active_slot s \<and>
     1 \<le> known_good_mask s \<and> known_good_mask s \<le> 3 \<and> 0 \<le> unbootable_mask s \<and> unbootable_mask s \<le> 3 \<and>
     0 \<le> safe_attempted_mask s \<and> safe_attempted_mask s \<le> 3 \<and>
     known_good_mask s AND unbootable_mask s = 0 \<and>
     known_good_mask s AND 2 ^ nat (active_slot s - 1) \<noteq> 0 \<and>
     0 \<le> attempts_a s \<and> attempts_a s \<le> 7 \<and> 0 \<le> attempts_b s \<and> attempts_b s \<le> 7 \<and>
     0 \<le> current_mode s \<and> current_mode s \<le> 6 \<and> 0 \<le> last_failure s \<and> last_failure s \<le> 10 \<and>
     fits 8 (transaction_id s) \<and> fits 8 (boot_nonce s) \<and> fits 8 (inflight_generation s) \<and>
     1 \<le> last_success_slot s \<and> last_success_slot s \<le> 2 \<and> 1 \<le> last_success_generation s \<and>
     last_success_generation s \<le> generation s \<and>
     1 \<le> policy_version s \<and> policy_version s < 2 ^ 64 \<and>
     1 \<le> state_store_epoch s \<and> state_store_epoch s < 2 ^ 64 \<and>
     1 \<le> evidence_sequence s \<and> evidence_sequence s < 2 ^ 64 \<and>
     \<not> inflight_bad s"

definition state_bound :: "prec_bundle \<Rightarrow> recovery_state \<Rightarrow> bool" where
  "state_bound p s \<longleftrightarrow>
     attempts_a s \<le> max_attempts p \<and> attempts_b s \<le> max_attempts p \<and>
     state_generation_floor p \<le> generation s \<and>
     bundle_minimum_secure_version p \<le> minimum_secure_version s \<and>
     policy_version s = bundle_version p"

definition state_ok :: "prec_bundle option \<Rightarrow> recovery_state \<Rightarrow> bool" where
  "state_ok policy s \<longleftrightarrow> state_valid s \<and> (case policy of None \<Rightarrow> True | Some p \<Rightarrow> state_bound p s)"


section \<open>The image of a state\<close>

definition state_fields :: "recovery_state \<Rightarrow> (nat \<times> int) list" where
  "state_fields s = [(2, 1), (2, 0), (2, 128), (2, st_flags s), (8, generation s),
     (8, minimum_secure_version s), (1, active_slot s), (1, pending_slot s), (1, known_good_mask s),
     (1, unbootable_mask s), (1, attempts_a s), (1, attempts_b s), (1, safe_attempted_mask s),
     (1, current_mode s), (2, last_failure s), (2, 0), (8, transaction_id s), (8, boot_nonce s),
     (8, inflight_generation s), (1, inflight_slot s), (1, inflight_mode s), (1, last_success_slot s),
     (1, 0), (8, last_success_generation s), (8, policy_version s), (8, state_store_epoch s),
     (8, evidence_sequence s), (8, 0)]"

definition state_body :: "recovery_state \<Rightarrow> bytes" where
  "state_body s = PREC_STATE_MAGIC @ packed (state_fields s)"

definition state_image :: "recovery_state \<Rightarrow> bytes" where
  "state_image s = state_body s @ take 16 (sha256 (state_body s))"

abbreviation fields_fit :: "recovery_state \<Rightarrow> bool" where
  "fields_fit s \<equiv> list_all (\<lambda>(n, v). fits n v) (state_fields s)"

lemma length_state_magic [simp]: "length PREC_STATE_MAGIC = 8"
  by (simp add: PREC_STATE_MAGIC_def)

lemma length_state_body [simp]: "length (state_body s) = 112"
  by (simp add: state_body_def state_fields_def)

lemma length_state_image [simp]: "length (state_image s) = 128"
  by (simp add: state_image_def)

lemma rbind_if: "rbind (if c then r else Inl e) k = (if c then rbind r k else Inl e)"
  by simp

lemma encode_state_image:
  "encode_state s =
     (if fields_fit s then rbind (parse_state (state_image s) None) (\<lambda>_. Inr (state_image s))
      else Inl StructError)"
proof -
  let ?f1 = "[(2, 1), (2, 0), (2, 128), (2, st_flags s)] :: (nat \<times> int) list"
  let ?f2 = "[(8, generation s), (8, minimum_secure_version s)]"
  let ?f3 = "[(1, active_slot s), (1, pending_slot s), (1, known_good_mask s), (1, unbootable_mask s),
     (1, attempts_a s), (1, attempts_b s), (1, safe_attempted_mask s), (1, current_mode s)]"
  let ?f4 = "[(2, last_failure s), (2, 0)]"
  let ?f5 = "[(8, transaction_id s), (8, boot_nonce s), (8, inflight_generation s)]"
  let ?f6 = "[(1, inflight_slot s), (1, inflight_mode s), (1, last_success_slot s), (1, 0)]"
  let ?f7 = "[(8, last_success_generation s), (8, policy_version s), (8, state_store_epoch s),
     (8, evidence_sequence s), (8, 0)]"
  let ?M = PREC_STATE_MAGIC
  have all: "state_fields s = ?f1 @ ?f2 @ ?f3 @ ?f4 @ ?f5 @ ?f6 @ ?f7"
    by (simp add: state_fields_def)
  have body: "state_body s = ?M @ packed ?f1 @ packed ?f2 @ packed ?f3 @ packed ?f4 @ packed ?f5 @ packed ?f6 @ packed ?f7"
    by (simp only: state_body_def all packed_append)
  have start: "put (zeros PREC_STATE_BYTES) 0 ?M = ?M @ zeros 120"
    using put_append_zeros [of 0 "[]" ?M 128] by (simp add: PREC_STATE_BYTES_def)
  have sum: "state_checksum (state_body s @ zeros 16) = Inr (take 16 (sha256 (state_body s)))"
    by (simp add: state_checksum_def code_defs)
  have fin: "put (state_body s @ zeros 16) 112 (take 16 (sha256 (state_body s))) = state_image s"
    using put_append_zeros [of 112 "state_body s" "take 16 (sha256 (state_body s))" 16]
    by (simp add: state_image_def zeros_def)
  have p1: "pack_into (?M @ zeros 120) 8 ?f1 =
      (if list_all (\<lambda>(n, v). fits n v) ?f1 then Inr ((?M @ packed ?f1) @ zeros 112) else Inl StructError)"
    by (subst pack_into_append) simp_all
  have p2: "pack_into ((?M @ packed ?f1) @ zeros 112) 16 ?f2 =
      (if list_all (\<lambda>(n, v). fits n v) ?f2 then Inr (((?M @ packed ?f1) @ packed ?f2) @ zeros 96) else Inl StructError)"
    by (subst pack_into_append) simp_all
  let ?d2 = "(?M @ packed ?f1) @ packed ?f2"
  have p3: "pack_into (?d2 @ zeros 96) 32 ?f3 =
      (if list_all (\<lambda>(n, v). fits n v) ?f3 then Inr ((?d2 @ packed ?f3) @ zeros 88) else Inl StructError)"
    by (subst pack_into_append) simp_all
  let ?d3 = "?d2 @ packed ?f3"
  have p4: "pack_into (?d3 @ zeros 88) 40 ?f4 =
      (if list_all (\<lambda>(n, v). fits n v) ?f4 then Inr ((?d3 @ packed ?f4) @ zeros 84) else Inl StructError)"
    by (subst pack_into_append) simp_all
  let ?d4 = "?d3 @ packed ?f4"
  have p5: "pack_into (?d4 @ zeros 84) 44 ?f5 =
      (if list_all (\<lambda>(n, v). fits n v) ?f5 then Inr ((?d4 @ packed ?f5) @ zeros 60) else Inl StructError)"
    by (subst pack_into_append) simp_all
  let ?d5 = "?d4 @ packed ?f5"
  have p6: "pack_into (?d5 @ zeros 60) 68 ?f6 =
      (if list_all (\<lambda>(n, v). fits n v) ?f6 then Inr ((?d5 @ packed ?f6) @ zeros 56) else Inl StructError)"
    by (subst pack_into_append) simp_all
  let ?d6 = "?d5 @ packed ?f6"
  have p7: "pack_into (?d6 @ zeros 56) 72 ?f7 =
      (if list_all (\<lambda>(n, v). fits n v) ?f7 then Inr ((?d6 @ packed ?f7) @ zeros 16) else Inl StructError)"
    by (subst pack_into_append) simp_all
  have d7: "?d6 @ packed ?f7 = state_body s"
    by (simp only: body append_assoc)
  show ?thesis
    unfolding encode_state_def PREC_MAJOR_VERSION_def PREC_MINOR_VERSION_def PREC_STATE_BYTES_def
    unfolding start [unfolded PREC_STATE_BYTES_def] of_nat_numeral
    by (simp only: p1 p2 p3 p4 p5 p6 p7 d7 sum fin all list_all_append rbind_if rbind.simps Let_def)
      (simp split: if_splits)
qed

lemma rd_state_image:
  assumes "fields_fit s" "8 \<le> k" "k + n \<le> 112" "fld (state_fields s) (k - 8) n = Some v"
  shows "rd n (state_image s) k = v"
proof -
  have "rd n (state_image s) k = rd n (state_body s) k"
    using assms(3) by (simp add: state_image_def rd_append1)
  also have "\<dots> = rd n (packed (state_fields s)) (k - 8)"
    using assms(2) by (simp add: state_body_def rd_append2)
  also have "\<dots> = v"
    using assms(4,1) by (rule rd_packed)
  finally show ?thesis .
qed

lemma state_at_image: "fields_fit s \<Longrightarrow> state_at (state_image s) = s\<lparr>st_raw := state_image s\<rparr>"
  by (simp add: state_at_def rd_state_image state_fields_def)

lemma state_image_framing:
  assumes "fields_fit s"
  shows "bslice (state_image s) 0 8 = PREC_STATE_MAGIC" "rd 2 (state_image s) 8 = 1"
    "rd 2 (state_image s) 10 = 0" "rd 2 (state_image s) 12 = 128" "rd 2 (state_image s) 42 = 0"
    "rd 1 (state_image s) 71 = 0" "rd 8 (state_image s) 104 = 0"
    "bslice (state_image s) 112 128 = take 16 (sha256 (state_body s))"
    "state_checksum (state_image s) = Inr (take 16 (sha256 (state_body s)))"
proof -
  show "bslice (state_image s) 0 8 = PREC_STATE_MAGIC"
    by (simp add: state_image_def state_body_def bslice_append1 slice_full)
  show "bslice (state_image s) 112 128 = take 16 (sha256 (state_body s))"
    by (simp add: state_image_def bslice_append2 slice_full)
  show "state_checksum (state_image s) = Inr (take 16 (sha256 (state_body s)))"
    by (simp add: state_checksum_def state_image_def code_defs)
qed (simp_all add: rd_state_image [OF assms] state_fields_def)

text \<open>
  The field checks of \<open>parse_state\<close>, as one predicate on a decoded state; under the
  field widths it is the invariant.
\<close>

definition state_checks :: "prec_bundle option \<Rightarrow> recovery_state \<Rightarrow> bool" where
  "state_checks policy s \<longleftrightarrow>
     st_flags s AND NOT STATE_KNOWN_FLAGS = 0 \<and> generation s \<noteq> 0 \<and> minimum_secure_version s \<noteq> 0 \<and>
     active_slot s \<in> {1, 2} \<and> pending_slot s \<in> {0, 1, 2} \<and> pending_slot s \<noteq> active_slot s \<and>
     known_good_mask s \<noteq> 0 \<and> known_good_mask s AND NOT 3 = 0 \<and> unbootable_mask s AND NOT 3 = 0 \<and>
     safe_attempted_mask s AND NOT 3 = 0 \<and>
     known_good_mask s AND unbootable_mask s = 0 \<and>
     known_good_mask s AND 2 ^ nat (active_slot s - 1) \<noteq> 0 \<and>
     attempts_a s \<le> (case policy of Some p \<Rightarrow> max_attempts p | None \<Rightarrow> MAX_ATTEMPTS_LIMIT) \<and>
     attempts_b s \<le> (case policy of Some p \<Rightarrow> max_attempts p | None \<Rightarrow> MAX_ATTEMPTS_LIMIT) \<and>
     (current_mode s = 0 \<or> current_mode s \<in> set MODE_NAMES) \<and>
     (last_failure s = 0 \<or> last_failure s \<in> set FAILURE_NAMES) \<and>
     last_success_slot s \<in> {1, 2} \<and> last_success_generation s \<noteq> 0 \<and>
     last_success_generation s \<le> generation s \<and>
     policy_version s \<noteq> 0 \<and> state_store_epoch s \<noteq> 0 \<and> evidence_sequence s \<noteq> 0 \<and>
     (case policy of None \<Rightarrow> True | Some p \<Rightarrow> state_generation_floor p \<le> generation s \<and>
        bundle_minimum_secure_version p \<le> minimum_secure_version s \<and> policy_version s = bundle_version p) \<and>
     \<not> inflight_bad s"

lemma inflight_bad_raw [simp]: "inflight_bad (s\<lparr>st_raw := r\<rparr>) = inflight_bad s"
  by (simp add: inflight_bad_def)

lemma state_checks_raw [simp]: "state_checks policy (s\<lparr>st_raw := r\<rparr>) = state_checks policy s"
  by (cases policy) (simp_all add: state_checks_def)

lemma parse_state_Inr_iff:
  "parse_state data policy = Inr s \<longleftrightarrow>
     length data = 128 \<and> bslice data 0 8 = PREC_STATE_MAGIC \<and> rd 2 data 8 = 1 \<and> rd 2 data 10 = 0 \<and>
     rd 2 data 12 = 128 \<and> rd 2 data 42 = 0 \<and> rd 1 data 71 = 0 \<and> rd 8 data 104 = 0 \<and>
     state_checks policy (state_at data) \<and> state_checksum data = Inr (bslice data 112 128) \<and>
     s = state_at data"
proof -
  have len: "\<not> length data < PREC_STATE_BYTES \<and> \<not> length data \<noteq> PREC_STATE_BYTES \<longleftrightarrow> length data = 128"
    by (auto simp: PREC_STATE_BYTES_def)
  have ver: "\<not> (rd 2 data 8, rd 2 data 10) \<noteq> (PREC_MAJOR_VERSION, PREC_MINOR_VERSION) \<longleftrightarrow>
      rd 2 data 8 = 1 \<and> rd 2 data 10 = 0" "\<not> rd 2 data 12 \<noteq> int PREC_STATE_BYTES \<longleftrightarrow> rd 2 data 12 = 128"
    by (simp_all add: code_defs)
  show ?thesis
    unfolding parse_state_def Let_def guarded_Inr_iff rbind_Inr_iff list.pred_inject prod.case
      conj_assoc [symmetric] len ver state_checks_def
    by (cases policy; simp del: insert_iff One_nat_def; intro iffI; clarsimp simp del: insert_iff One_nat_def)
qed

lemma parse_state_image:
  "fields_fit s \<Longrightarrow> parse_state (state_image s) policy = Inr t \<longleftrightarrow>
   state_checks policy s \<and> t = s\<lparr>st_raw := state_image s\<rparr>"
  by (auto simp: parse_state_Inr_iff state_at_image state_image_framing simp del: One_nat_def)

lemma small_sets:
  "(v::int) \<in> {1, 2} \<longleftrightarrow> 1 \<le> v \<and> v \<le> 2" "(v::int) \<in> {0, 1, 2} \<longleftrightarrow> 0 \<le> v \<and> v \<le> 2"
  by auto

lemma mask_checks:
  "(0::int) \<le> v \<Longrightarrow> v AND NOT 3 = 0 \<longleftrightarrow> v \<le> 3"
  "(0::int) \<le> v \<Longrightarrow> v AND NOT STATE_KNOWN_FLAGS = 0 \<longleftrightarrow> v < 8"
  using and_not_3_0_iff [of v] and_not_7_0_iff [of v] by (auto simp: state_known_flags_value)

definition policy_limited :: "prec_bundle option \<Rightarrow> bool" where
  "policy_limited policy \<longleftrightarrow> (case policy of None \<Rightarrow> True | Some p \<Rightarrow> max_attempts p \<le> MAX_ATTEMPTS_LIMIT)"

lemma inflight_fields_small:
  "\<not> inflight_bad s \<Longrightarrow> 0 \<le> inflight_slot s \<and> inflight_slot s \<le> 2 \<and> 0 \<le> inflight_mode s \<and> inflight_mode s \<le> 6"
  by (auto simp: inflight_bad_def mode_names_iff split: if_splits)

lemma state_valid_fits:
  assumes "state_valid s" shows "fields_fit s"
proof -
  have "0 \<le> inflight_slot s \<and> inflight_slot s \<le> 2 \<and> 0 \<le> inflight_mode s \<and> inflight_mode s \<le> 6"
    using assms by (intro inflight_fields_small) (simp add: state_valid_def)
  then show ?thesis
    using assms by (simp add: state_valid_def state_fields_def fits_def)
qed

lemma state_checks_of_ok:
  assumes "state_ok policy s" shows "state_checks policy s"
proof -
  have v: "state_valid s" using assms by (simp add: state_ok_def)
  then have "st_flags s AND NOT STATE_KNOWN_FLAGS = 0" "known_good_mask s AND NOT 3 = 0"
    "unbootable_mask s AND NOT 3 = 0" "safe_attempted_mask s AND NOT 3 = 0"
    by (simp_all add: state_valid_def mask_checks del: not_numeral_eq)
  moreover have "current_mode s = 0 \<or> current_mode s \<in> set MODE_NAMES"
    "last_failure s = 0 \<or> last_failure s \<in> set FAILURE_NAMES"
    using v unfolding state_valid_def mode_names_iff failure_names_iff by linarith+
  moreover have "active_slot s \<in> {1, 2}" "pending_slot s \<in> {0, 1, 2}" "last_success_slot s \<in> {1, 2}"
    using v unfolding state_valid_def small_sets by linarith+
  ultimately show ?thesis
    using assms v unfolding state_ok_def state_valid_def state_bound_def state_checks_def
    by (cases policy) (simp_all add: MAX_ATTEMPTS_LIMIT_def)
qed

lemma state_ok_of_checks:
  assumes lim: "policy_limited policy" and fit: "fields_fit s" and chk: "state_checks policy s"
  shows "state_ok policy s"
proof -
  have nonneg: "0 \<le> st_flags s" "0 \<le> known_good_mask s" "0 \<le> unbootable_mask s" "0 \<le> safe_attempted_mask s"
    "0 \<le> current_mode s" "0 \<le> last_failure s"
    using fit by (simp_all add: state_fields_def fits_def)
  have masks: "st_flags s < 8" "known_good_mask s \<le> 3" "unbootable_mask s \<le> 3" "safe_attempted_mask s \<le> 3"
    using chk nonneg by (simp_all only: state_checks_def mask_checks [symmetric])
  have small: "1 \<le> active_slot s \<and> active_slot s \<le> 2" "pending_slot s \<le> 2"
    "1 \<le> last_success_slot s \<and> last_success_slot s \<le> 2" "current_mode s \<le> 6" "last_failure s \<le> 10"
  proof -
    have a: "active_slot s \<in> {1, 2}" and p: "pending_slot s \<in> {0, 1, 2}" and l: "last_success_slot s \<in> {1, 2}"
      and m: "current_mode s = 0 \<or> current_mode s \<in> set MODE_NAMES"
      and f: "last_failure s = 0 \<or> last_failure s \<in> set FAILURE_NAMES"
      using chk by (simp_all only: state_checks_def simp_thms)
    show "1 \<le> active_slot s \<and> active_slot s \<le> 2" "1 \<le> last_success_slot s \<and> last_success_slot s \<le> 2"
      using a l by (simp_all only: small_sets)
    show "pending_slot s \<le> 2" using p unfolding small_sets by linarith
    show "current_mode s \<le> 6" using m unfolding mode_names_iff by linarith
    show "last_failure s \<le> 10" using f unfolding failure_names_iff by linarith
  qed
  have att: "attempts_a s \<le> 7" "attempts_b s \<le> 7"
    using chk lim by (cases policy; simp add: state_checks_def policy_limited_def MAX_ATTEMPTS_LIMIT_def)+
  have widths: "0 \<le> generation s" "generation s < 2 ^ 64" "0 \<le> minimum_secure_version s"
    "minimum_secure_version s < 2 ^ 64" "0 \<le> pending_slot s" "0 \<le> attempts_a s" "0 \<le> attempts_b s"
    "fits 8 (transaction_id s)" "fits 8 (boot_nonce s)" "fits 8 (inflight_generation s)"
    "0 \<le> last_success_generation s" "0 \<le> policy_version s" "policy_version s < 2 ^ 64"
    "0 \<le> state_store_epoch s" "state_store_epoch s < 2 ^ 64" "0 \<le> evidence_sequence s"
    "evidence_sequence s < 2 ^ 64"
    using fit by (simp_all add: state_fields_def fits_def)
  have set: "generation s \<noteq> 0" "minimum_secure_version s \<noteq> 0" "pending_slot s \<noteq> active_slot s"
    "known_good_mask s \<noteq> 0" "known_good_mask s AND unbootable_mask s = 0"
    "known_good_mask s AND 2 ^ nat (active_slot s - 1) \<noteq> 0" "last_success_generation s \<noteq> 0"
    "last_success_generation s \<le> generation s" "policy_version s \<noteq> 0" "state_store_epoch s \<noteq> 0"
    "evidence_sequence s \<noteq> 0" "\<not> inflight_bad s"
    using chk by (simp_all only: state_checks_def simp_thms)
  have pos: "1 \<le> generation s" "1 \<le> minimum_secure_version s" "1 \<le> known_good_mask s"
    "1 \<le> last_success_generation s" "1 \<le> policy_version s" "1 \<le> state_store_epoch s" "1 \<le> evidence_sequence s"
    using nonneg(2) widths set(1,2,4,7,9-11) by simp_all
  have "state_valid s"
    using masks small att nonneg widths set pos by (simp only: state_valid_def simp_thms)
  then show "state_ok policy s"
    using chk by (cases policy) (simp_all add: state_ok_def state_checks_def state_bound_def)
qed

lemma encode_state_ok:
  assumes "state_valid s" shows "encode_state s = Inr (state_image s)"
proof -
  have "state_checks None s"
    using assms by (intro state_checks_of_ok) (simp add: state_ok_def)
  then have "parse_state (state_image s) None = Inr (s\<lparr>st_raw := state_image s\<rparr>)"
    using assms by (simp add: parse_state_image state_valid_fits)
  then show ?thesis
    using assms by (simp add: encode_state_image state_valid_fits)
qed

lemma encode_state_Inr_iff: "encode_state s = Inr d \<longleftrightarrow> state_valid s \<and> d = state_image s"
proof
  assume "encode_state s = Inr d"
  then have fit: "fields_fit s" and d: "d = state_image s" and ret: "\<exists>t. parse_state (state_image s) None = Inr t"
    by (auto simp: encode_state_image rbind_Inr_iff split: if_splits)
  then have "state_checks None s" by (auto simp: parse_state_image)
  with fit have "state_ok None s"
    by (intro state_ok_of_checks) (simp_all add: policy_limited_def)
  with d show "state_valid s \<and> d = state_image s" by (simp add: state_ok_def)
qed (simp add: encode_state_ok)

lemma parse_state_ok:
  "state_ok policy s \<Longrightarrow> parse_state (state_image s) policy = Inr (s\<lparr>st_raw := state_image s\<rparr>)"
  by (simp add: parse_state_image state_checks_of_ok state_valid_fits state_ok_def)

lemma state_fields_at:
  assumes "length data = 128" "rd 2 data 8 = 1" "rd 2 data 10 = 0" "rd 2 data 12 = 128"
    "rd 2 data 42 = 0" "rd 1 data 71 = 0" "rd 8 data 104 = 0"
  shows "state_fields (state_at data) =
    read_fields data 8 [2, 2, 2, 2, 8, 8, 1, 1, 1, 1, 1, 1, 1, 1, 2, 2, 8, 8, 8, 1, 1, 1, 1, 8, 8, 8, 8, 8]"
  using assms by (simp add: state_fields_def state_at_def)

lemma parse_state_spelling:
  assumes "parse_state data policy = Inr s"
  shows "s = state_at data" "fields_fit s" "data = state_image s" "st_raw s = data" "state_checks policy s"
proof -
  note p = assms [unfolded parse_state_Inr_iff]
  show s: "s = state_at data" and "st_raw s = data" and "state_checks policy s"
    using p by (simp_all add: state_at_def)
  have fields: "state_fields s = read_fields data 8
      [2, 2, 2, 2, 8, 8, 1, 1, 1, 1, 1, 1, 1, 1, 2, 2, 8, 8, 8, 1, 1, 1, 1, 8, 8, 8, 8, 8]"
    using p by (simp only: s) (intro state_fields_at; simp only:)
  have len: "length data = 128" using p by simp
  show "fields_fit s" by (simp add: fields len)
  have "packed (state_fields s) = bslice data 8 112"
    unfolding fields by (subst packed_read_fields) (simp_all add: len)
  then have body: "state_body s = bslice data 0 112"
    using p bslice_add [of 0 8 112 data] by (simp add: state_body_def)
  moreover have "state_checksum data = Inr (take 16 (sha256 (bslice data 0 112)))"
    by (simp add: state_checksum_def len code_defs bslice_def)
  ultimately have "take 16 (sha256 (state_body s)) = bslice data 112 128"
    using p by simp
  then show "data = state_image s"
    using bslice_add [of 0 112 128 data] body len by (simp add: state_image_def slice_full)
qed


section \<open>The codec interface\<close>

lemma state_fields_raw [simp]: "state_fields (s\<lparr>st_raw := r\<rparr>) = state_fields s"
  by (simp add: state_fields_def)

lemma state_image_raw [simp]: "state_image (s\<lparr>st_raw := r\<rparr>) = state_image s"
  by (simp add: state_image_def state_body_def)

lemma state_valid_raw [simp]: "state_valid (s\<lparr>st_raw := r\<rparr>) = state_valid s"
  by (simp add: state_valid_def)

lemma state_bound_raw [simp]: "state_bound p (s\<lparr>st_raw := r\<rparr>) = state_bound p s"
  by (simp add: state_bound_def)

lemma parse_state_valid:
  assumes "parse_state data policy = Inr s" "policy_limited policy"
  shows "state_ok policy s" "encode_state s = Inr data" "st_raw s = data"
proof -
  show "state_ok policy s" "st_raw s = data"
    using parse_state_spelling [OF assms(1)] assms(2) by (auto intro: state_ok_of_checks)
  then show "encode_state s = Inr data"
    using parse_state_spelling(3) [OF assms(1)] by (simp add: encode_state_ok state_ok_def)
qed

interpretation state_codec: codec encode_state "\<lambda>d. parse_state d None" state_valid "\<lambda>s. s\<lparr>st_raw := []\<rparr>"
proof unfold_locales
  fix s assume "state_valid s"
  then have "encode_state s = Inr (state_image s)"
    and "parse_state (state_image s) None = Inr (s\<lparr>st_raw := state_image s\<rparr>)"
    by (simp_all add: encode_state_ok parse_state_ok state_ok_def)
  then show "\<exists>d y. encode_state s = Inr d \<and> parse_state d None = Inr y \<and> y\<lparr>st_raw := []\<rparr> = s\<lparr>st_raw := []\<rparr>"
    by force
next
  fix d s assume "parse_state d None = Inr s"
  then show "encode_state s = Inr d"
    by (rule parse_state_valid) (simp add: policy_limited_def)
next
  fix s t :: recovery_state
  have encode_raw: "encode_state (u\<lparr>st_raw := []\<rparr>) = encode_state u" for u
    by (simp add: encode_state_image)
  assume "s\<lparr>st_raw := []\<rparr> = t\<lparr>st_raw := []\<rparr>"
  then show "encode_state s = encode_state t" using encode_raw by metis
qed


section \<open>Properties\<close>

text \<open>
  C37. State round trip: exactly the states satisfying the invariant can be stored; the
  stored record has 128 bytes and reads back as the same state (the raw bytes aside).
\<close>

theorem state_roundtrip:
  "(\<exists>d. encode_state s = Inr d) = state_valid s \<and>
   (\<forall>d. encode_state s = Inr d \<longrightarrow> length d = 128 \<and> parse_state d None = Inr (s\<lparr>st_raw := d\<rparr>))"
  by (auto simp: encode_state_Inr_iff parse_state_ok state_ok_def)

definition sample_state :: recovery_state where
  "sample_state = \<lparr>st_flags = 0, generation = 11, minimum_secure_version = 1, active_slot = 2,
     pending_slot = 1, known_good_mask = 2, unbootable_mask = 0, attempts_a = 3, attempts_b = 3,
     safe_attempted_mask = 0, current_mode = 0, last_failure = 0, transaction_id = 7,
     boot_nonce = 0, inflight_generation = 0, inflight_slot = 0, inflight_mode = 0,
     last_success_slot = 2, last_success_generation = 11, policy_version = 1,
     state_store_epoch = 1, evidence_sequence = 1, st_raw = []\<rparr>"

lemma sample_state_valid: "state_valid sample_state"
  by (simp add: state_valid_def sample_state_def inflight_bad_def fits_def code_defs)

theorem state_roundtrip_witness:
  "\<exists>d. encode_state sample_state = Inr d \<and> length d = 128 \<and>
       parse_state d None = Inr (sample_state\<lparr>st_raw := d\<rparr>)"
  using state_roundtrip [of sample_state] sample_state_valid by blast

text \<open>
  One spelling per state: whatever policies two accepted records were read under, if
  they decode to the same state then their bytes are equal; no second encoding of a
  stored state is ever accepted.
\<close>

theorem state_spelling_unique:
  assumes "parse_state d p = Inr s" "parse_state e q = Inr t" "s\<lparr>st_raw := []\<rparr> = t\<lparr>st_raw := []\<rparr>"
  shows "d = e"
  using parse_state_spelling(3) [OF assms(1)] parse_state_spelling(3) [OF assms(2)]
    arg_cong [OF assms(3), of state_image] by simp

text \<open>
  C38. Soundness under a policy: a record that \<open>parse_state\<close> accepts against an accepted
  policy satisfies the invariant, respects that policy's attempt limit, generation floor,
  version floor and version binding, and re-encodes to the very bytes it was read from.
\<close>

theorem parse_state_sound:
  assumes "prec_parse raw = Inr p" "parse_state data (Some p) = Inr s"
  shows "state_valid s \<and> state_bound p s \<and> encode_state s = Inr data \<and> st_raw s = data"
proof -
  have "policy_limited (Some p)"
    using prec_parse_accepts [OF assms(1)] by (simp add: policy_limited_def prec_bundle_wf_def)
  from parse_state_valid [OF assms(2) this] show ?thesis
    by (simp add: state_ok_def)
qed

lemma or_word_bound:
  fixes a b :: int
  assumes "0 \<le> a" "a < 2 ^ n" "0 \<le> b" "b < 2 ^ n"
  shows "0 \<le> a OR b" "a OR b < 2 ^ n"
  using assms OR_upper by (simp_all add: or_nonnegative_int_iff)

lemma canonical_state_ok:
  assumes "prec_parse raw = Inr p"
  shows "\<exists>s. canonical_state (Some p) = Inr s \<and> state_valid s \<and> state_bound p s \<and>
    active_slot s = 2 \<and> pending_slot s = 1 \<and> known_good_mask s = 2 \<and> unbootable_mask s = 0 \<and>
    generation s = state_generation_floor p \<and> attempts_a s = max_attempts p \<and> attempts_b s = max_attempts p"
proof -
  let ?g = "state_generation_floor p"
  define s where "s = \<lparr>st_flags = 0, generation = ?g,
       minimum_secure_version = bundle_minimum_secure_version p, active_slot = 2,
       pending_slot = 1, known_good_mask = 2, unbootable_mask = 0,
       attempts_a = max_attempts p, attempts_b = max_attempts p, safe_attempted_mask = 0,
       current_mode = 0, last_failure = 0, transaction_id = 0x504F4F4C00000000 OR ?g,
       boot_nonce = 0, inflight_generation = 0, inflight_slot = 0, inflight_mode = 0,
       last_success_slot = 2, last_success_generation = ?g,
       policy_version = bundle_version p, state_store_epoch = 1, evidence_sequence = 1,
       st_raw = []\<rparr>"
  have wf: "prec_bundle_wf p" using prec_parse_accepts [OF assms] by simp
  have "fits 8 (0x504F4F4C00000000 OR ?g)"
    using or_word_bound [of "0x504F4F4C00000000" 64 ?g] wf by (simp add: fits_def prec_bundle_wf_def)
  then have "state_valid s"
    using wf by (simp add: state_valid_def s_def prec_bundle_wf_def inflight_bad_def fits_def code_defs)
  moreover have "state_bound p s"
    by (simp add: state_bound_def s_def)
  ultimately have "canonical_state (Some p) = Inr (s\<lparr>st_raw := state_image s\<rparr>)"
    by (simp add: canonical_state_def policy_or_def base_state_def encode_state_ok parse_state_ok state_ok_def flip: s_def)
  moreover have "active_slot s = 2" "pending_slot s = 1" "known_good_mask s = 2" "unbootable_mask s = 0"
    "generation s = ?g" "attempts_a s = max_attempts p" "attempts_b s = max_attempts p"
    by (simp_all add: s_def)
  ultimately show ?thesis
    using \<open>state_valid s\<close> \<open>state_bound p s\<close> by simp
qed

text \<open>
  The initial states exist: for every accepted policy \<open>canonical_state\<close> returns a
  valid state bound to it, with slot 2 active and known good, slot 1 pending and a full
  set of attempts.
\<close>

theorem canonical_state_exists:
  assumes "prec_parse raw = Inr p"
  shows "\<exists>s. canonical_state (Some p) = Inr s \<and> state_valid s \<and> state_bound p s \<and>
    active_slot s = 2 \<and> pending_slot s = 1 \<and> known_good_mask s = 2 \<and> unbootable_mask s = 0 \<and>
    generation s = state_generation_floor p \<and> attempts_a s = max_attempts p \<and> attempts_b s = max_attempts p"
  using assms by (rule canonical_state_ok)

end
