(* ===== verification/Recovery_Transitions.thy ===== *)
theory Recovery_Transitions
  imports Recovery_State
begin

unbundle bit_operations_syntax

text \<open>
  The PREC1 transition functions of \<open>src/runtime/native_recovery.py\<close>: choosing what to
  boot (\<open>select_boot\<close>), reporting success (\<open>report_boot_success\<close>) and reporting failure
  (\<open>report_boot_failure\<close>). Each of them re-encodes and re-parses the state it is given and
  the state it returns, so a state that breaks the invariant is an exception, never a
  result. The step relation \<open>prec_step\<close> closes the three under the choices of their
  environment (requested mode, nonce, receipts, failure reports).
\<close>


section \<open>Records\<close>

record boot_decision =
  decision_mode :: int
  decision_slot :: int
  decision_trial :: bool
  persistence_required :: bool
  decision_reason :: int
  decision_state :: recovery_state

record failure_decision =
  failure_action :: int
  failure_state :: recovery_state

record success_receipt =
  receipt_authenticated :: bool
  receipt_generation :: int
  receipt_slot :: int
  receipt_mode :: int
  receipt_boot_nonce :: int


section \<open>Slots and attempts\<close>

definition slot_bit :: "int \<Rightarrow> int res" where
  "slot_bit slot = (if slot \<notin> {1, 2} then Inl (Fail ''prec_transition_slot'') else Inr (2 ^ nat (slot - 1)))"

definition slot_record :: "prec_bundle \<Rightarrow> int \<Rightarrow> prec_slot res" where
  "slot_record policy slot =
     (if 0 \<le> slot - 1 \<and> nat (slot - 1) < length (bundle_slots policy)
      then Inr (bundle_slots policy ! nat (slot - 1)) else Inl IndexError)"

definition eligible :: "prec_bundle \<Rightarrow> recovery_state \<Rightarrow> int \<Rightarrow> bool \<Rightarrow> bool res" where
  "eligible policy s slot known_good =
     rbind (slot_bit slot) (\<lambda>sbit.
     rbind (slot_record policy slot) (\<lambda>r.
     if slot_flags r AND SLOT_BOOTABLE = 0 \<or> unbootable_mask s AND sbit \<noteq> 0 then Inr False
     else if slot_version r < max (bundle_minimum_secure_version policy) (minimum_secure_version s) then Inr False
     else Inr (\<not> known_good \<or> known_good_mask s AND sbit \<noteq> 0)))"

definition attempts_of :: "recovery_state \<Rightarrow> int \<Rightarrow> int" where
  "attempts_of s slot = (if slot = 1 then attempts_a s else attempts_b s)"

definition with_attempts :: "recovery_state \<Rightarrow> int \<Rightarrow> int \<Rightarrow> recovery_state" where
  "with_attempts s slot n = (if slot = 1 then s\<lparr>attempts_a := n\<rparr> else s\<lparr>attempts_b := n\<rparr>)"

definition next_generation :: "recovery_state \<Rightarrow> int res" where
  "next_generation s =
     (if generation s = 2 ^ 64 - 1 then Inl (Fail ''prec_transition_generation'') else Inr (generation s + 1))"

definition store :: "recovery_state \<Rightarrow> prec_bundle option \<Rightarrow> recovery_state res" where
  "store s policy = rbind (encode_state s) (\<lambda>data. parse_state data policy)"


section \<open>Boot decisions\<close>

text \<open>
  Each transition builds its next state by one \<open>dataclasses.replace\<close>, named here
  (\<open>recovered\<close>, \<open>launched\<close>, \<open>firmware_entered\<close>, \<open>promoted\<close>, \<open>failed\<close>).
\<close>

definition recovered :: "recovery_state \<Rightarrow> int \<Rightarrow> int \<Rightarrow> recovery_state" where
  "recovered s gen reason = s\<lparr>
     st_flags := st_flags s AND NOT (STATE_INFLIGHT OR STATE_SAFE_REQUESTED),
     generation := gen, current_mode := MODE_RECOVERY, last_failure := reason,
     boot_nonce := 0, inflight_generation := 0, inflight_slot := 0, inflight_mode := 0,
     evidence_sequence := evidence_sequence s + 1, st_raw := []\<rparr>"

definition recovery_decision :: "recovery_state \<Rightarrow> int \<Rightarrow> boot_decision res" where
  "recovery_decision s reason =
     rbind (next_generation s) (\<lambda>gen.
     rbind (store (recovered s gen reason) None) (\<lambda>nxt.
     Inr \<lparr>decision_mode = MODE_RECOVERY, decision_slot = 0, decision_trial = False,
          persistence_required = True, decision_reason = reason, decision_state = nxt\<rparr>))"

definition launched :: "recovery_state \<Rightarrow> int \<Rightarrow> int \<Rightarrow> int \<Rightarrow> int \<Rightarrow> int \<Rightarrow> recovery_state" where
  "launched s gen slot mode nonce safe_mask = s\<lparr>
     st_flags := (st_flags s OR STATE_INFLIGHT) AND NOT (STATE_RECOVERY_REQUESTED OR STATE_SAFE_REQUESTED),
     generation := gen, current_mode := mode, boot_nonce := nonce,
     inflight_generation := gen, inflight_slot := slot, inflight_mode := mode,
     safe_attempted_mask := safe_mask,
     evidence_sequence := evidence_sequence s + 1, st_raw := []\<rparr>"

definition select_slot :: "recovery_state \<Rightarrow> int \<Rightarrow> int \<Rightarrow> bool \<Rightarrow> int \<Rightarrow> int option \<Rightarrow> boot_decision res" where
  "select_slot s slot mode trial nonce safe_mask =
     (if nonce = 0 then Inl (Fail ''prec_transition_nonce'') else
      rbind (next_generation s) (\<lambda>gen.
      rbind (store (launched s gen slot mode nonce
          (case safe_mask of None \<Rightarrow> safe_attempted_mask s | Some m \<Rightarrow> m)) None) (\<lambda>nxt.
      Inr \<lparr>decision_mode = mode, decision_slot = slot, decision_trial = trial,
           persistence_required = True, decision_reason = 0, decision_state = nxt\<rparr>)))"

text \<open>The firmware branch of \<open>select_boot\<close>.\<close>

definition firmware_entered :: "recovery_state \<Rightarrow> int \<Rightarrow> recovery_state" where
  "firmware_entered s gen = s\<lparr>generation := gen, current_mode := MODE_FIRMWARE,
     evidence_sequence := evidence_sequence s + 1, st_raw := []\<rparr>"

definition select_firmware :: "recovery_state \<Rightarrow> bool \<Rightarrow> boot_decision res" where
  "select_firmware s physical_presence =
     (if \<not> physical_presence then Inl (Fail ''prec_transition_physical_presence'') else
      rbind (next_generation s) (\<lambda>gen.
      rbind (store (firmware_entered s gen) None) (\<lambda>nxt.
      Inr \<lparr>decision_mode = MODE_FIRMWARE, decision_slot = 0, decision_trial = False,
           persistence_required = True, decision_reason = 0, decision_state = nxt\<rparr>)))"

text \<open>The safe-mode loop: the active slot first, each known-good slot once.\<close>

fun select_safe :: "prec_bundle \<Rightarrow> recovery_state \<Rightarrow> int \<Rightarrow> int list \<Rightarrow> boot_decision res" where
  "select_safe policy s nonce [] = recovery_decision s FAIL_ATTEMPT_EXHAUSTED"
| "select_safe policy s nonce (slot # rest) =
     rbind (slot_bit slot) (\<lambda>sbit.
     rbind (eligible policy s slot True) (\<lambda>e.
     if e \<and> safe_attempted_mask s AND sbit = 0
     then select_slot s slot MODE_SAFE False nonce (Some (safe_attempted_mask s OR sbit))
     else select_safe policy s nonce rest))"

text \<open>The last loop: any known-good slot, in the given order.\<close>

fun select_known_good :: "prec_bundle \<Rightarrow> recovery_state \<Rightarrow> int \<Rightarrow> int \<Rightarrow> int list \<Rightarrow> boot_decision res" where
  "select_known_good policy s mode nonce [] = recovery_decision s FAIL_ATTEMPT_EXHAUSTED"
| "select_known_good policy s mode nonce (slot # rest) =
     rbind (eligible policy s slot True) (\<lambda>e.
     if e then select_slot s slot mode False nonce None
     else select_known_good policy s mode nonce rest)"

definition boot_mode :: "recovery_state \<Rightarrow> int \<Rightarrow> int" where
  "boot_mode s requested =
     (if st_flags s AND STATE_RECOVERY_REQUESTED \<noteq> 0 then MODE_RECOVERY
      else if st_flags s AND STATE_SAFE_REQUESTED \<noteq> 0 then MODE_SAFE
      else if requested = 0 then MODE_NORMAL else requested)"

definition retire_pending :: "recovery_state \<Rightarrow> int \<Rightarrow> recovery_state" where
  "retire_pending s sbit = s\<lparr>pending_slot := 0, unbootable_mask := unbootable_mask s OR sbit,
     known_good_mask := known_good_mask s AND NOT sbit, last_failure := FAIL_ATTEMPT_EXHAUSTED\<rparr>"

definition fallback_order :: "recovery_state \<Rightarrow> int \<Rightarrow> int list" where
  "fallback_order s mode =
     (if mode = MODE_PREVIOUS then [3 - active_slot s, active_slot s] else [active_slot s, 3 - active_slot s])"

text \<open>Everything behind the firmware and recovery branches.\<close>

definition select_boot_slot :: "prec_bundle \<Rightarrow> recovery_state \<Rightarrow> int \<Rightarrow> int \<Rightarrow> boot_decision res" where
  "select_boot_slot policy s mode nonce =
     (if mode = MODE_NORMAL \<and> pending_slot s \<noteq> 0 then
        let slot = pending_slot s in
        rbind (eligible policy s slot False) (\<lambda>e.
        if e \<and> attempts_of s slot > 0
        then select_slot (with_attempts s slot (attempts_of s slot - 1)) slot mode True nonce None
        else rbind (slot_bit slot) (\<lambda>sbit.
          let retired = retire_pending s sbit
          in select_known_good policy retired MODE_PREVIOUS nonce (fallback_order retired MODE_PREVIOUS)))
      else if mode = MODE_SAFE then select_safe policy s nonce [active_slot s, 3 - active_slot s]
      else select_known_good policy s mode nonce (fallback_order s mode))"

definition select_boot ::
  "prec_bundle \<Rightarrow> recovery_state \<Rightarrow> int \<Rightarrow> bool \<Rightarrow> int \<Rightarrow> bool \<Rightarrow> bool \<Rightarrow> boot_decision res" where
  "select_boot policy s requested physical_presence nonce authenticated writable =
     rbind (prec_parse (bundle_raw policy)) (\<lambda>_.
     rbind (store s (Some policy)) (\<lambda>_.
     if \<not> authenticated then Inl (Fail ''prec_transition_state_auth'')
     else if st_flags s AND STATE_INFLIGHT \<noteq> 0 then Inl (Fail ''prec_transition_inflight'')
     else if \<not> writable then
       Inr \<lparr>decision_mode = MODE_RECOVERY, decision_slot = 0, decision_trial = False,
            persistence_required = False, decision_reason = FAIL_STATE_INVALID, decision_state = s\<rparr>
     else let mode = boot_mode s requested in
       rbind (prec_mode_bit mode) (\<lambda>mbit.
       if MODE_MASK_ALL AND mbit = 0 then Inl (Fail ''prec_transition_mode'')
       else if mode = MODE_FIRMWARE then select_firmware s physical_presence
       else if mode = MODE_RECOVERY then recovery_decision s (last_failure s)
       else select_boot_slot policy s mode nonce)))"


section \<open>Reports\<close>

definition promoted :: "prec_bundle \<Rightarrow> recovery_state \<Rightarrow> int \<Rightarrow> success_receipt \<Rightarrow> int \<Rightarrow> recovery_state" where
  "promoted policy s gen r sbit = s\<lparr>
     st_flags := st_flags s AND NOT (STATE_INFLIGHT OR STATE_RECOVERY_REQUESTED OR STATE_SAFE_REQUESTED),
     generation := gen,
     minimum_secure_version := max (minimum_secure_version s) (bundle_minimum_secure_version policy),
     active_slot := receipt_slot r,
     pending_slot := (if pending_slot s = receipt_slot r then 0 else pending_slot s),
     known_good_mask := known_good_mask s OR sbit,
     unbootable_mask := unbootable_mask s AND NOT sbit,
     attempts_a := (if receipt_slot r = 1 then max_attempts policy else attempts_a s),
     attempts_b := (if receipt_slot r = 2 then max_attempts policy else attempts_b s),
     current_mode := receipt_mode r, last_failure := 0, boot_nonce := 0,
     inflight_generation := 0, inflight_slot := 0, inflight_mode := 0,
     last_success_slot := receipt_slot r, last_success_generation := gen,
     policy_version := bundle_version policy,
     evidence_sequence := evidence_sequence s + 1, st_raw := []\<rparr>"

definition report_boot_success :: "prec_bundle \<Rightarrow> recovery_state \<Rightarrow> success_receipt \<Rightarrow> recovery_state res" where
  "report_boot_success policy s r =
     rbind (store s (Some policy)) (\<lambda>_.
     guarded [
       (\<not> receipt_authenticated r, ''prec_receipt_auth''),
       (st_flags s AND STATE_INFLIGHT = 0, ''prec_receipt_inflight''),
       (receipt_generation r \<noteq> inflight_generation s \<or> receipt_slot r \<noteq> inflight_slot s
          \<or> receipt_mode r \<noteq> inflight_mode s \<or> receipt_boot_nonce r \<noteq> boot_nonce s, ''prec_receipt_binding'')]
     (rbind (slot_bit (receipt_slot r)) (\<lambda>sbit.
      rbind (next_generation s) (\<lambda>gen.
      store (promoted policy s gen r sbit) (Some policy)))))"

definition retires :: "failure_rule \<Rightarrow> bool" where
  "retires rule \<longleftrightarrow> failure_flags rule AND FAILURE_MARK_UNBOOTABLE \<noteq> 0"

text \<open>
  The action of a failure report: the rule's primary action, weakened to its fallback when
  no retry is left or safe mode was tried, and to recovery when the other slot is not
  eligible under the masks the report leaves.
\<close>

definition failure_action_for ::
  "prec_bundle \<Rightarrow> recovery_state \<Rightarrow> failure_rule \<Rightarrow> int \<Rightarrow> int \<Rightarrow> int \<Rightarrow> int \<Rightarrow> int res" where
  "failure_action_for policy s rule slot sbit known_good unbootable =
     (let trial = (pending_slot s = slot \<and> known_good_mask s AND sbit = 0);
          action = primary_action rule;
          action = (if action = ACTION_RETRY_CANDIDATE \<and> (\<not> trial \<or> attempts_of s slot = 0)
                    then fallback_action rule else action);
          action = (if action = ACTION_SAFE \<and> safe_attempted_mask s AND sbit \<noteq> 0
                    then fallback_action rule else action)
      in if action = ACTION_PREVIOUS
         then rbind (eligible policy (s\<lparr>known_good_mask := known_good, unbootable_mask := unbootable\<rparr>)
                (3 - slot) True) (\<lambda>e. Inr (if e then ACTION_PREVIOUS else ACTION_RECOVERY))
         else Inr action)"

definition action_mode :: "int \<Rightarrow> int res" where
  "action_mode action =
     (if action = ACTION_RETRY_CANDIDATE then Inr MODE_NORMAL
      else if action = ACTION_SAFE then Inr MODE_SAFE
      else if action = ACTION_PREVIOUS then Inr MODE_PREVIOUS
      else if action = ACTION_RECOVERY then Inr MODE_RECOVERY
      else if action = ACTION_FIRMWARE then Inr MODE_FIRMWARE
      else if action = ACTION_HALT then Inr MODE_RECOVERY
      else Inl KeyError)"

definition failed ::
  "recovery_state \<Rightarrow> int \<Rightarrow> int \<Rightarrow> int \<Rightarrow> int \<Rightarrow> int \<Rightarrow> int \<Rightarrow> recovery_state" where
  "failed s gen pending known_good unbootable mode failure = s\<lparr>
     st_flags := st_flags s AND NOT STATE_INFLIGHT, generation := gen,
     pending_slot := pending, known_good_mask := known_good, unbootable_mask := unbootable,
     current_mode := mode, last_failure := failure, boot_nonce := 0,
     inflight_generation := 0, inflight_slot := 0, inflight_mode := 0,
     evidence_sequence := evidence_sequence s + 1, st_raw := []\<rparr>"

definition report_boot_failure :: "prec_bundle \<Rightarrow> recovery_state \<Rightarrow> int \<Rightarrow> bool \<Rightarrow> failure_decision res" where
  "report_boot_failure policy s failure authenticated =
     rbind (store s (Some policy)) (\<lambda>_.
     guarded [
       (\<not> authenticated, ''prec_failure_receipt_auth''),
       (st_flags s AND STATE_INFLIGHT = 0, ''prec_failure_receipt_inflight''),
       (failure \<notin> set FAILURE_NAMES, ''prec_failure_receipt_id'')]
     (if \<not> nat (failure - 1) < length (failure_rules policy) then Inl IndexError else
      let rule = failure_rules policy ! nat (failure - 1);
          slot = inflight_slot s
      in rbind (slot_bit slot) (\<lambda>sbit.
         let unbootable = (if retires rule then unbootable_mask s OR sbit else unbootable_mask s);
             known_good = (if retires rule then known_good_mask s AND NOT sbit else known_good_mask s);
             pending = (if failure_flags rule AND FAILURE_CLEAR_PENDING \<noteq> 0 \<and> pending_slot s = slot
                        then 0 else pending_slot s)
         in rbind (failure_action_for policy s rule slot sbit known_good unbootable) (\<lambda>action.
            rbind (next_generation s) (\<lambda>gen.
            rbind (action_mode action) (\<lambda>mode.
            rbind (store (failed s gen pending known_good unbootable mode failure) None) (\<lambda>nxt.
            Inr \<lparr>failure_action = action, failure_state = nxt\<rparr>)))))))"


section \<open>Stored states\<close>

text \<open>
  A stored state is the given one, and storing succeeds exactly on the states that
  satisfy the invariant (and the policy's binding when a policy is given).
\<close>

lemma store_Inr_iff: "store s policy = Inr t \<longleftrightarrow> state_ok policy s \<and> t = s\<lparr>st_raw := state_image s\<rparr>"
proof
  assume "store s policy = Inr t"
  then have v: "state_valid s" and p: "parse_state (state_image s) policy = Inr t"
    by (auto simp: store_def rbind_Inr_iff encode_state_Inr_iff)
  then have "state_checks policy s" "t = s\<lparr>st_raw := state_image s\<rparr>"
    by (simp_all add: parse_state_image state_valid_fits)
  with v show "state_ok policy s \<and> t = s\<lparr>st_raw := state_image s\<rparr>"
    by (cases policy) (simp_all add: state_ok_def state_bound_def state_checks_def)
qed (auto simp: store_def encode_state_ok parse_state_ok state_ok_def)

lemma store_ok: "state_ok policy s \<Longrightarrow> store s policy = Inr (s\<lparr>st_raw := state_image s\<rparr>)"
  by (simp add: store_Inr_iff)

lemma store_None_iff: "store s None = Inr t \<longleftrightarrow> state_valid s \<and> t = s\<lparr>st_raw := state_image s\<rparr>"
  by (simp add: store_Inr_iff state_ok_def)

lemma store_Some_iff:
  "store s (Some p) = Inr t \<longleftrightarrow> state_valid s \<and> state_bound p s \<and> t = s\<lparr>st_raw := state_image s\<rparr>"
  by (auto simp: store_Inr_iff state_ok_def)

lemma next_generation_Inr_iff:
  "next_generation s = Inr g \<longleftrightarrow> generation s \<noteq> 2 ^ 64 - 1 \<and> g = generation s + 1"
  by (auto simp: next_generation_def)

lemma slot_bit_Inr_iff: "slot_bit slot = Inr b \<longleftrightarrow> 1 \<le> slot \<and> slot \<le> 2 \<and> b = slot"
proof -
  have "slot \<in> {1, 2} \<Longrightarrow> (2::int) ^ nat (slot - 1) = slot" by auto
  then show ?thesis unfolding slot_bit_def small_sets by auto
qed

lemma slot_bit_ok [simp]: "1 \<le> slot \<Longrightarrow> slot \<le> 2 \<Longrightarrow> slot_bit slot = Inr slot"
  by (simp add: slot_bit_Inr_iff)


section \<open>Masks and flags\<close>

text \<open>
  Slots are 1 and 2, so a slot is its own mask bit; the two-bit masks and three-bit flag
  words are small enough to decide the mask algebra by cases.
\<close>

lemma pow_slot: "1 \<le> (slot::int) \<Longrightarrow> slot \<le> 2 \<Longrightarrow> 2 ^ nat (slot - 1) = slot"
  using slot_bit_Inr_iff [of slot slot] by (simp add: slot_bit_def split: if_splits)

lemma mask_cases: "0 \<le> (m::int) \<Longrightarrow> m \<le> 3 \<Longrightarrow> m = 0 \<or> m = 1 \<or> m = 2 \<or> m = 3"
  by arith

lemma slot_cases: "1 \<le> (b::int) \<Longrightarrow> b \<le> 2 \<Longrightarrow> b = 1 \<or> b = 2"
  by arith

lemma flag_cases:
  "0 \<le> (f::int) \<Longrightarrow> f < 8 \<Longrightarrow> f = 0 \<or> f = 1 \<or> f = 2 \<or> f = 3 \<or> f = 4 \<or> f = 5 \<or> f = 6 \<or> f = 7"
  by arith

lemma mask_or_range:
  fixes m b :: int
  assumes "0 \<le> m" "m \<le> 3" "1 \<le> b" "b \<le> 2"
  shows "1 \<le> m OR b" "m OR b \<le> 3" "(m OR b) AND b \<noteq> 0"
  using mask_cases [OF assms(1,2)] slot_cases [OF assms(3,4)] by auto

lemma mask_clear_range:
  fixes m b :: int
  assumes "0 \<le> m" "m \<le> 3" "1 \<le> b" "b \<le> 2"
  shows "0 \<le> m AND NOT b" "m AND NOT b \<le> 3" "(m AND NOT b) AND b = 0"
  using mask_cases [OF assms(1,2)] slot_cases [OF assms(3,4)] by auto

lemma mask_move:
  fixes g u b :: int
  assumes "0 \<le> g" "g \<le> 3" "0 \<le> u" "u \<le> 3" "1 \<le> b" "b \<le> 2" "g AND u = 0"
  shows "(g OR b) AND (u AND NOT b) = 0" "(g AND NOT b) AND (u OR b) = 0"
  using mask_cases [OF assms(1,2)] mask_cases [OF assms(3,4)] slot_cases [OF assms(5,6)] assms(7) by auto

lemma mask_clear_other:
  fixes g a b :: int
  assumes "0 \<le> g" "g \<le> 3" "1 \<le> a" "a \<le> 2" "1 \<le> b" "b \<le> 2" "a \<noteq> b"
  shows "(g AND NOT b) AND a = g AND a" "(g OR b) AND a = g AND a"
  using mask_cases [OF assms(1,2)] slot_cases [OF assms(3,4)] slot_cases [OF assms(5,6)] assms(7) by auto

lemma flag_values: "STATE_RECOVERY_REQUESTED = 1" "STATE_SAFE_REQUESTED = 2" "STATE_INFLIGHT = 4"
  by (simp_all add: code_defs)

lemma flag_updates:
  fixes f :: int
  assumes "0 \<le> f" "f < 8"
  shows "0 \<le> f AND NOT (STATE_INFLIGHT OR STATE_SAFE_REQUESTED)"
    "f AND NOT (STATE_INFLIGHT OR STATE_SAFE_REQUESTED) < 8"
    "(f AND NOT (STATE_INFLIGHT OR STATE_SAFE_REQUESTED)) AND STATE_INFLIGHT = 0"
    "(f AND NOT (STATE_INFLIGHT OR STATE_SAFE_REQUESTED)) AND STATE_RECOVERY_REQUESTED = f AND STATE_RECOVERY_REQUESTED"
    "(f OR STATE_INFLIGHT) AND NOT (STATE_RECOVERY_REQUESTED OR STATE_SAFE_REQUESTED) = STATE_INFLIGHT"
    "f AND NOT (STATE_INFLIGHT OR STATE_RECOVERY_REQUESTED OR STATE_SAFE_REQUESTED) = 0"
    "0 \<le> f AND NOT STATE_INFLIGHT" "f AND NOT STATE_INFLIGHT < 8"
    "(f AND NOT STATE_INFLIGHT) AND STATE_INFLIGHT = 0"
  using flag_cases [OF assms] by (auto simp: flag_values)

text \<open>The room a transition needs in the two 64-bit counters it advances.\<close>

definition headroom :: "recovery_state \<Rightarrow> bool" where
  "headroom s \<longleftrightarrow> generation s < 2 ^ 64 - 1 \<and> evidence_sequence s < 2 ^ 64 - 1"

lemma recovered_valid:
  assumes "state_valid s" "headroom s" "0 \<le> reason" "reason \<le> 10"
  shows "state_valid (recovered s (generation s + 1) reason)"
  using assms flag_updates [of "st_flags s"]
  by (simp add: state_valid_def recovered_def headroom_def inflight_bad_def fits_def MODE_RECOVERY_def)

lemma launched_valid:
  assumes "state_valid s" "headroom s" "1 \<le> slot" "slot \<le> 2" "1 \<le> mode" "mode \<le> 6"
    "nonce \<noteq> 0" "fits 8 nonce" "0 \<le> m" "m \<le> 3"
  shows "state_valid (launched s (generation s + 1) slot mode nonce m)"
proof -
  have "slot \<in> {1, 2}" "mode \<in> set MODE_NAMES"
    using assms by (simp_all only: small_sets mode_names_iff simp_thms)
  then show ?thesis
  using assms flag_updates [of "st_flags s"]
  by (simp add: state_valid_def launched_def headroom_def inflight_bad_def fits_def flag_values(3) del: insert_iff)
qed

lemma firmware_valid:
  assumes "state_valid s" "headroom s" "st_flags s AND STATE_INFLIGHT = 0"
  shows "state_valid (firmware_entered s (generation s + 1))"
  using assms
  by (simp add: state_valid_def firmware_entered_def headroom_def inflight_bad_def fits_def MODE_FIRMWARE_def)


section \<open>What the transitions return\<close>

abbreviation stored :: "recovery_state \<Rightarrow> recovery_state" where
  "stored s \<equiv> s\<lparr>st_raw := state_image s\<rparr>"

lemma recovery_decision_Inr_iff:
  "recovery_decision s reason = Inr d \<longleftrightarrow>
     generation s \<noteq> 2 ^ 64 - 1 \<and> state_valid (recovered s (generation s + 1) reason) \<and>
     d = \<lparr>decision_mode = MODE_RECOVERY, decision_slot = 0, decision_trial = False, persistence_required = True,
       decision_reason = reason, decision_state = stored (recovered s (generation s + 1) reason)\<rparr>"
  by (auto simp: recovery_decision_def rbind_Inr_iff next_generation_Inr_iff store_None_iff)

lemma select_slot_Inr_iff:
  "select_slot s slot mode trial nonce safe_mask = Inr d \<longleftrightarrow>
     (let t = launched s (generation s + 1) slot mode nonce
        (case safe_mask of None \<Rightarrow> safe_attempted_mask s | Some m \<Rightarrow> m)
      in nonce \<noteq> 0 \<and> generation s \<noteq> 2 ^ 64 - 1 \<and> state_valid t \<and>
         d = \<lparr>decision_mode = mode, decision_slot = slot, decision_trial = trial, persistence_required = True,
           decision_reason = 0, decision_state = stored t\<rparr>)"
  by (auto simp: select_slot_def Let_def rbind_Inr_iff next_generation_Inr_iff store_None_iff split: if_splits)

lemma select_firmware_Inr_iff:
  "select_firmware s presence = Inr d \<longleftrightarrow>
     presence \<and> generation s \<noteq> 2 ^ 64 - 1 \<and> state_valid (firmware_entered s (generation s + 1)) \<and>
     d = \<lparr>decision_mode = MODE_FIRMWARE, decision_slot = 0, decision_trial = False, persistence_required = True,
       decision_reason = 0, decision_state = stored (firmware_entered s (generation s + 1))\<rparr>"
  by (auto simp: select_firmware_def rbind_Inr_iff next_generation_Inr_iff store_None_iff split: if_splits)

text \<open>
  \<open>usable\<close> is what \<open>_eligible\<close> amounts to for an accepted policy and a state bound to it:
  not retired, and not older than the state's version floor.
\<close>

definition slot_version_of :: "prec_bundle \<Rightarrow> int \<Rightarrow> int" where
  "slot_version_of policy slot = slot_version (bundle_slots policy ! nat (slot - 1))"

definition usable :: "prec_bundle \<Rightarrow> recovery_state \<Rightarrow> int \<Rightarrow> bool" where
  "usable policy s slot \<longleftrightarrow> unbootable_mask s AND slot = 0 \<and> minimum_secure_version s \<le> slot_version_of policy slot"

definition known_good_usable :: "prec_bundle \<Rightarrow> recovery_state \<Rightarrow> int \<Rightarrow> bool" where
  "known_good_usable policy s slot \<longleftrightarrow> usable policy s slot \<and> known_good_mask s AND slot \<noteq> 0"

lemma wf_slots:
  assumes "prec_bundle_wf p" "1 \<le> slot" "slot \<le> 2"
  shows "nat (slot - 1) < length (bundle_slots p)" "slot_flags (bundle_slots p ! nat (slot - 1)) AND SLOT_BOOTABLE \<noteq> 0"
proof -
  obtain a b where ab: "bundle_slots p = [a, b]" "slot_flags a = SLOT_REQUIRED_FLAGS" "slot_flags b = SLOT_REQUIRED_FLAGS"
    using assms(1) by (auto simp: prec_bundle_wf_def prec_slots_wf_def)
  then show "nat (slot - 1) < length (bundle_slots p)" "slot_flags (bundle_slots p ! nat (slot - 1)) AND SLOT_BOOTABLE \<noteq> 0"
    using slot_cases [OF assms(2,3)] by (auto simp: code_defs)
qed

lemma eligible_ok:
  assumes "prec_bundle_wf p" "bundle_minimum_secure_version p \<le> minimum_secure_version s" "1 \<le> slot" "slot \<le> 2"
  shows "eligible p s slot kg = Inr (usable p s slot \<and> (kg \<longrightarrow> known_good_mask s AND slot \<noteq> 0))"
  using wf_slots [OF assms(1,3,4)] assms(2-4)
  by (auto simp: eligible_def slot_record_def usable_def slot_version_of_def)

lemma eligible_known_good:
  assumes "prec_bundle_wf p" "bundle_minimum_secure_version p \<le> minimum_secure_version s" "1 \<le> slot" "slot \<le> 2"
  shows "eligible p s slot True = Inr (known_good_usable p s slot)"
  using eligible_ok [OF assms, of True] by (simp add: known_good_usable_def)


section \<open>The boot plan\<close>

text \<open>
  The abstract contract of \<open>select_boot\<close> on a writable, authenticated state: which mode
  and slot to boot, and whether the boot is a trial. A pending candidate is tried while it
  is usable and has attempts left; an exhausted candidate gives way to the active slot as
  the previous known good; safe mode takes each known-good slot once; every other mode
  takes a known-good slot, and with no slot left the plan is recovery.
\<close>

definition first_slot :: "(int \<Rightarrow> bool) \<Rightarrow> int list \<Rightarrow> int \<Rightarrow> int \<times> int \<times> bool" where
  "first_slot ok slots mode =
     (case List.find ok slots of Some slot \<Rightarrow> (mode, slot, False) | None \<Rightarrow> (MODE_RECOVERY, 0, False))"

definition boot_plan :: "prec_bundle \<Rightarrow> recovery_state \<Rightarrow> int \<Rightarrow> int \<times> int \<times> bool" where
  "boot_plan p s mode =
     (let a = active_slot s; b = 3 - a; c = pending_slot s in
      if mode = MODE_FIRMWARE then (MODE_FIRMWARE, 0, False)
      else if mode = MODE_RECOVERY then (MODE_RECOVERY, 0, False)
      else if mode = MODE_NORMAL \<and> c \<noteq> 0 then
        if usable p s c \<and> attempts_of s c > 0 then (MODE_NORMAL, c, True)
        else first_slot (usable p s) [a] MODE_PREVIOUS
      else if mode = MODE_SAFE then
        first_slot (\<lambda>x. known_good_usable p s x \<and> safe_attempted_mask s AND x = 0) [a, b] MODE_SAFE
      else if mode = MODE_PREVIOUS then first_slot (known_good_usable p s) [b, a] MODE_PREVIOUS
      else first_slot (known_good_usable p s) [a, b] mode)"

definition plan_of :: "boot_decision \<Rightarrow> int \<times> int \<times> bool" where
  "plan_of d = (decision_mode d, decision_slot d, decision_trial d)"

text \<open>A launch from a valid state with room in its counters succeeds and is valid again.\<close>

lemma select_slot_total:
  assumes "state_valid s" "headroom s" "1 \<le> slot" "slot \<le> 2" "1 \<le> mode" "mode \<le> 6" "nonce \<noteq> 0" "fits 8 nonce"
    "case sm of None \<Rightarrow> True | Some m \<Rightarrow> 0 \<le> m \<and> m \<le> 3"
  shows "\<exists>d. select_slot s slot mode trial nonce sm = Inr d \<and> plan_of d = (mode, slot, trial)"
proof -
  let ?m = "case sm of None \<Rightarrow> safe_attempted_mask s | Some m \<Rightarrow> m"
  have "0 \<le> ?m" "?m \<le> 3"
    using assms(1,9) by (cases sm; simp add: state_valid_def)+
  then have "state_valid (launched s (generation s + 1) slot mode nonce ?m)"
    using assms(1-8) by (intro launched_valid)
  then show ?thesis
    using assms(2,7) by (simp add: select_slot_Inr_iff headroom_def plan_of_def Let_def)
qed

lemma recovery_total:
  assumes "state_valid s" "headroom s" "0 \<le> reason" "reason \<le> 10"
  shows "\<exists>d. recovery_decision s reason = Inr d \<and> plan_of d = (MODE_RECOVERY, 0, False)"
  using recovered_valid [OF assms] assms(2)
  by (simp add: recovery_decision_Inr_iff headroom_def plan_of_def)

lemma select_known_good_total:
  assumes "prec_bundle_wf p" "bundle_minimum_secure_version p \<le> minimum_secure_version s"
    "state_valid s" "headroom s" "1 \<le> mode" "mode \<le> 6" "nonce \<noteq> 0" "fits 8 nonce"
    "\<And>x. x \<in> set slots \<Longrightarrow> 1 \<le> x \<and> x \<le> 2"
  shows "\<exists>d. select_known_good p s mode nonce slots = Inr d \<and>
             plan_of d = first_slot (known_good_usable p s) slots mode"
  using assms(9)
proof (induction slots)
  case Nil
  then show ?case
    using recovery_total [OF assms(3,4), of FAIL_ATTEMPT_EXHAUSTED]
    by (simp add: first_slot_def FAIL_ATTEMPT_EXHAUSTED_def)
next
  case (Cons x xs)
  have "eligible p s x True = Inr (known_good_usable p s x)"
    using assms(1,2) Cons.prems [of x] by (intro eligible_known_good) simp_all
  then show ?case
    using Cons select_slot_total [OF assms(3,4) _ _ assms(5-8), of x None] by (simp add: first_slot_def)
qed

lemma select_safe_total:
  assumes "prec_bundle_wf p" "bundle_minimum_secure_version p \<le> minimum_secure_version s"
    "state_valid s" "headroom s" "nonce \<noteq> 0" "fits 8 nonce" "\<And>x. x \<in> set slots \<Longrightarrow> 1 \<le> x \<and> x \<le> 2"
  shows "\<exists>d. select_safe p s nonce slots = Inr d \<and>
             plan_of d = first_slot (\<lambda>x. known_good_usable p s x \<and> safe_attempted_mask s AND x = 0) slots MODE_SAFE"
  using assms(7)
proof (induction slots)
  case Nil
  then show ?case
    using recovery_total [OF assms(3,4), of FAIL_ATTEMPT_EXHAUSTED]
    by (simp add: first_slot_def FAIL_ATTEMPT_EXHAUSTED_def)
next
  case (Cons x xs)
  have x: "1 \<le> x" "x \<le> 2" using Cons.prems [of x] by simp_all
  then have "eligible p s x True = Inr (known_good_usable p s x)"
    using assms(1,2) by (intro eligible_known_good)
  moreover have "\<exists>d. select_slot s x MODE_SAFE False nonce (Some (safe_attempted_mask s OR x)) = Inr d \<and>
      plan_of d = (MODE_SAFE, x, False)"
    using mask_or_range [of "safe_attempted_mask s" x] x assms(3)
    by (intro select_slot_total assms) (simp_all add: state_valid_def MODE_SAFE_def)
  moreover have "\<exists>d. select_safe p s nonce xs = Inr d \<and>
      plan_of d = first_slot (\<lambda>x. known_good_usable p s x \<and> safe_attempted_mask s AND x = 0) xs MODE_SAFE"
    using Cons by simp
  ultimately show ?case
    using x by (cases "known_good_usable p s x \<and> safe_attempted_mask s AND x = 0") (auto simp: first_slot_def)
qed


text \<open>
  Retiring a slot: moving its bit from the known-good to the unbootable mask keeps the
  mask conditions of the invariant as long as the slot is not the active one.
\<close>

definition masks_ok :: "int \<Rightarrow> int \<Rightarrow> int \<Rightarrow> bool" where
  "masks_ok a g u \<longleftrightarrow> 1 \<le> g \<and> g \<le> 3 \<and> 0 \<le> u \<and> u \<le> 3 \<and> g AND u = 0 \<and> g AND 2 ^ nat (a - 1) \<noteq> 0"

lemma state_valid_masks: "state_valid s \<Longrightarrow> masks_ok (active_slot s) (known_good_mask s) (unbootable_mask s)"
  by (simp add: state_valid_def masks_ok_def)

lemma masks_ok_cases:
  assumes "masks_ok a g u" "1 \<le> a" "a \<le> 2"
  shows "(a = 1 \<and> (g = 1 \<and> (u = 0 \<or> u = 2) \<or> g = 3 \<and> u = 0)) \<or> (a = 2 \<and> (g = 2 \<and> (u = 0 \<or> u = 1) \<or> g = 3 \<and> u = 0))"
proof -
  have "g = 0 \<or> g = 1 \<or> g = 2 \<or> g = 3" "u = 0 \<or> u = 1 \<or> u = 2 \<or> u = 3" "a = 1 \<or> a = 2"
    using assms mask_cases [of g] mask_cases [of u] slot_cases [of a] by (simp_all add: masks_ok_def)
  then show ?thesis
    using assms(1) unfolding masks_ok_def by (elim disjE) simp_all
qed

lemma masks_ok_retire:
  assumes "masks_ok a g u" "1 \<le> a" "a \<le> 2" "1 \<le> b" "b \<le> 2"
  shows "masks_ok a (g AND NOT b) (u OR b) \<longleftrightarrow> a \<noteq> b"
  using masks_ok_cases [OF assms(1-3)] slot_cases [OF assms(4,5)] by (elim disjE) (auto simp: masks_ok_def)

lemma masks_ok_promote:
  assumes "masks_ok a g u" "1 \<le> a" "a \<le> 2" "1 \<le> b" "b \<le> 2"
  shows "masks_ok b (g OR b) (u AND NOT b)"
  using masks_ok_cases [OF assms(1-3)] slot_cases [OF assms(4,5)] by (elim disjE) (auto simp: masks_ok_def)

lemma retire_pending_valid:
  assumes v: "state_valid s" and c: "c = pending_slot s" "c \<noteq> 0"
  shows "state_valid (retire_pending s c)" "headroom s \<Longrightarrow> headroom (retire_pending s c)"
proof -
  have "masks_ok (active_slot s) (known_good_mask s AND NOT c) (unbootable_mask s OR c)"
    using state_valid_masks [OF v] v c by (subst masks_ok_retire) (simp_all add: state_valid_def)
  moreover have "inflight_bad (s\<lparr>pending_slot := 0, unbootable_mask := u, known_good_mask := g,
      last_failure := FAIL_ATTEMPT_EXHAUSTED\<rparr>) = inflight_bad s" for g u
    by (simp add: inflight_bad_def)
  ultimately have "state_valid (s\<lparr>pending_slot := 0, unbootable_mask := u, known_good_mask := g,
      last_failure := FAIL_ATTEMPT_EXHAUSTED\<rparr>)" if "g = known_good_mask s AND NOT c" "u = unbootable_mask s OR c" for g u
    using v unfolding that [symmetric]
    by (simp add: state_valid_def masks_ok_def FAIL_ATTEMPT_EXHAUSTED_def)
  then show "state_valid (retire_pending s c)" by (simp add: retire_pending_def)
  show "headroom s \<Longrightarrow> headroom (retire_pending s c)"
    by (simp add: headroom_def retire_pending_def)
qed


lemma with_attempts_valid:
  assumes "state_valid s" "0 \<le> n" "n \<le> 7"
  shows "state_valid (with_attempts s slot n)" "headroom (with_attempts s slot n) = headroom s"
proof -
  have "inflight_bad (with_attempts s slot n) = inflight_bad s"
    by (simp add: with_attempts_def inflight_bad_def)
  then show "state_valid (with_attempts s slot n)"
    using assms by (simp add: state_valid_def) (simp add: with_attempts_def)
  show "headroom (with_attempts s slot n) = headroom s"
    by (simp add: headroom_def with_attempts_def)
qed

text \<open>After the pending slot is retired only the active slot can be chosen.\<close>

lemma retired_fallback:
  assumes v: "state_valid s" and c: "pending_slot s \<noteq> 0"
  shows "first_slot (known_good_usable p (retire_pending s (pending_slot s)))
           (fallback_order (retire_pending s (pending_slot s)) MODE_PREVIOUS) MODE_PREVIOUS
         = first_slot (usable p s) [active_slot s] MODE_PREVIOUS"
proof -
  let ?a = "active_slot s" and ?c = "pending_slot s" and ?g = "known_good_mask s" and ?u = "unbootable_mask s"
  have range: "1 \<le> ?a" "?a \<le> 2" "1 \<le> ?c" "?c \<le> 2" "?c = 3 - ?a"
    using v c by (auto simp: state_valid_def)
  have masks: "(?g AND NOT ?c) AND ?c = 0" "(?g AND NOT ?c) AND ?a \<noteq> 0" "(?u OR ?c) AND ?a = ?u AND ?a"
    using masks_ok_cases [OF state_valid_masks [OF v] range(1,2)] range(5) by (elim disjE; elim conjE disjE; simp)+
  show ?thesis
    using masks
    by (simp add: first_slot_def fallback_order_def known_good_usable_def usable_def retire_pending_def flip: range(5))
qed

lemma select_boot_slot_total:
  assumes wf: "prec_bundle_wf p" and fl: "bundle_minimum_secure_version p \<le> minimum_secure_version s"
    and v: "state_valid s" and h: "headroom s" and m: "1 \<le> mode" "mode \<le> 6" "mode \<noteq> MODE_FIRMWARE" "mode \<noteq> MODE_RECOVERY"
    and n: "nonce \<noteq> 0" "fits 8 nonce"
  shows "\<exists>d. select_boot_slot p s mode nonce = Inr d \<and> plan_of d = boot_plan p s mode"
proof -
  have a: "1 \<le> active_slot s" "active_slot s \<le> 2" using v by (simp_all add: state_valid_def)
  show ?thesis
  proof (cases "mode = MODE_NORMAL \<and> pending_slot s \<noteq> 0")
    case True
    let ?c = "pending_slot s"
    have c: "1 \<le> ?c" "?c \<le> 2" using True v by (simp_all add: state_valid_def)
    have n7: "attempts_of s ?c \<le> 7" using v by (simp add: attempts_of_def state_valid_def)
    show ?thesis
    proof (cases "usable p s ?c \<and> attempts_of s ?c > 0")
      case tr: True
      have "\<exists>d. select_slot (with_attempts s ?c (attempts_of s ?c - 1)) ?c mode True nonce None = Inr d \<and>
          plan_of d = (mode, ?c, True)"
        using tr n7 v h c m n by (intro select_slot_total) (simp_all add: with_attempts_valid)
      then show ?thesis
        using True tr eligible_ok [OF wf fl c, of False]
        by (simp add: select_boot_slot_def boot_plan_def code_defs Let_def)
    next
      case False
      let ?r = "retire_pending s ?c"
      have r: "state_valid ?r" "headroom ?r" using retire_pending_valid [OF v] True h by simp_all
      have "\<exists>d. select_known_good p ?r MODE_PREVIOUS nonce (fallback_order ?r MODE_PREVIOUS) = Inr d \<and>
          plan_of d = first_slot (usable p s) [active_slot s] MODE_PREVIOUS"
      proof (subst retired_fallback [OF v, symmetric])
        show "?c \<noteq> 0" using True by simp
        have f: "bundle_minimum_secure_version p \<le> minimum_secure_version ?r"
          using fl by (simp add: retire_pending_def)
        have "set (fallback_order ?r MODE_PREVIOUS) = {3 - active_slot s, active_slot s}"
          by (simp add: fallback_order_def retire_pending_def)
        then show "\<exists>d. select_known_good p ?r MODE_PREVIOUS nonce (fallback_order ?r MODE_PREVIOUS) = Inr d \<and>
            plan_of d = first_slot (known_good_usable p ?r) (fallback_order ?r MODE_PREVIOUS) MODE_PREVIOUS"
          using a by (intro select_known_good_total [OF wf f r _ _ n]) (auto simp: MODE_PREVIOUS_def)
      qed
      then show ?thesis
        using True False c eligible_ok [OF wf fl c, of False]
        by (auto simp: select_boot_slot_def boot_plan_def code_defs Let_def)
    qed
  next
    case other: False
    have sl: "x \<in> {active_slot s, 3 - active_slot s} \<Longrightarrow> 1 \<le> x \<and> x \<le> 2" for x
      using a by auto
    show ?thesis
    proof (cases "mode = MODE_SAFE")
      case True
      then show ?thesis
        using other select_safe_total [OF wf fl v h n, of "[active_slot s, 3 - active_slot s]"] sl
        by (simp add: select_boot_slot_def boot_plan_def code_defs Let_def)
    next
      case False
      have "\<exists>d. select_known_good p s mode nonce (fallback_order s mode) = Inr d \<and>
          plan_of d = first_slot (known_good_usable p s) (fallback_order s mode) mode"
        using sl by (intro select_known_good_total wf fl v h m n) (auto simp: fallback_order_def split: if_splits)
      moreover have "select_boot_slot p s mode nonce = select_known_good p s mode nonce (fallback_order s mode)"
        unfolding select_boot_slot_def if_not_P [OF other] if_not_P [OF False] ..
      moreover have "boot_plan p s mode = first_slot (known_good_usable p s) (fallback_order s mode) mode"
        unfolding boot_plan_def Let_def if_not_P [OF other] if_not_P [OF False] if_not_P [OF m(3)] if_not_P [OF m(4)]
        by (simp add: fallback_order_def)
      ultimately show ?thesis by simp
    qed
  qed
qed


section \<open>What a boot decision changes\<close>

text \<open>
  The frame of a persisted decision: counters advance by one, the active slot, the version
  floor and the success record stay, no attempts appear from nowhere (a trial costs exactly
  one), no safe-mode attempt is forgotten, and the in-flight fields name the slot and mode
  that were chosen, under the caller's nonce.
\<close>

definition decision_ok :: "int \<Rightarrow> recovery_state \<Rightarrow> boot_decision \<Rightarrow> bool" where
  "decision_ok nonce s d \<longleftrightarrow>
     (let t = decision_state d in
      persistence_required d \<and> state_valid t \<and> generation t = generation s + 1 \<and>
      evidence_sequence t = evidence_sequence s + 1 \<and>
      active_slot t = active_slot s \<and> minimum_secure_version t = minimum_secure_version s \<and>
      policy_version t = policy_version s \<and> last_success_slot t = last_success_slot s \<and>
      attempts_a t \<le> attempts_a s \<and> attempts_b t \<le> attempts_b s \<and>
      attempts_a t + attempts_b t + of_bool (decision_trial d) = attempts_a s + attempts_b s \<and>
      safe_attempted_mask t AND safe_attempted_mask s = safe_attempted_mask s \<and>
      (if decision_slot d = 0 then st_flags t AND STATE_INFLIGHT = 0 \<and> \<not> decision_trial d
       else st_flags t AND STATE_INFLIGHT \<noteq> 0 \<and> inflight_slot t = decision_slot d \<and>
            inflight_mode t = decision_mode d \<and> boot_nonce t = nonce))"

lemma recovery_decision_ok:
  assumes "state_valid s" "recovery_decision s reason = Inr d" shows "decision_ok nonce s d"
proof -
  have f: "0 \<le> st_flags s" "st_flags s < 8" using assms(1) by (simp_all add: state_valid_def)
  have d: "state_valid (recovered s (generation s + 1) reason)"
    "d = \<lparr>decision_mode = MODE_RECOVERY, decision_slot = 0, decision_trial = False, persistence_required = True,
       decision_reason = reason, decision_state = stored (recovered s (generation s + 1) reason)\<rparr>"
    using assms(2) by (simp_all only: recovery_decision_Inr_iff simp_thms)
  then show ?thesis
    using flag_updates(3) [OF f]
    by (simp add: decision_ok_def) (simp add: recovered_def)
qed

lemma select_slot_ok:
  assumes "state_valid s" "select_slot s slot mode trial nonce sm = Inr d" "slot \<noteq> 0"
    "case sm of None \<Rightarrow> True | Some m \<Rightarrow> m AND safe_attempted_mask s = safe_attempted_mask s"
    "s0 = (if trial then with_attempts s slot (attempts_of s slot + 1) else s)"
  shows "decision_ok nonce s0 d"
proof -
  let ?m = "case sm of None \<Rightarrow> safe_attempted_mask s | Some m \<Rightarrow> m"
  have f: "0 \<le> st_flags s" "st_flags s < 8" using assms(1) by (simp_all add: state_valid_def)
  have d: "state_valid (launched s (generation s + 1) slot mode nonce ?m)"
    "d = \<lparr>decision_mode = mode, decision_slot = slot, decision_trial = trial, persistence_required = True,
       decision_reason = 0, decision_state = stored (launched s (generation s + 1) slot mode nonce ?m)\<rparr>"
    using assms(2) by (simp_all only: select_slot_Inr_iff Let_def simp_thms)
  have "?m AND safe_attempted_mask s = safe_attempted_mask s"
    using assms(4) by (cases sm) simp_all
  then show ?thesis
    using d assms(3) flag_updates(5) [OF f]
    by (simp add: decision_ok_def assms(5))
      (simp add: launched_def with_attempts_def attempts_of_def flag_values(3))
qed

lemma select_firmware_ok:
  assumes "st_flags s AND STATE_INFLIGHT = 0" "select_firmware s presence = Inr d"
  shows "decision_ok nonce s d"
  using assms by (auto simp: decision_ok_def select_firmware_Inr_iff) (auto simp: firmware_entered_def)

lemma select_known_good_ok:
  assumes "state_valid s" "select_known_good p s mode nonce slots = Inr d" "0 \<notin> set slots"
  shows "decision_ok nonce s d"
  using assms(2,3)
proof (induction slots)
  case Nil
  then show ?case using recovery_decision_ok [OF assms(1)] by simp
next
  case (Cons x xs)
  then show ?case
    using select_slot_ok [OF assms(1), of x mode False nonce None d s]
    by (auto simp: rbind_Inr_iff split: if_splits)
qed

lemma select_safe_ok:
  assumes "state_valid s" "select_safe p s nonce slots = Inr d" "0 \<notin> set slots"
  shows "decision_ok nonce s d"
  using assms(2,3)
proof (induction slots)
  case Nil
  then show ?case using recovery_decision_ok [OF assms(1)] by simp
next
  case (Cons x xs)
  have "(m OR x) AND m = m" for m :: int by (simp add: bit_eq_iff bit_simps) blast
  with Cons show ?case
    using select_slot_ok [OF assms(1), of x MODE_SAFE False nonce "Some (safe_attempted_mask s OR x)" d s]
    by (auto simp: rbind_Inr_iff slot_bit_Inr_iff split: if_splits)
qed

lemma decision_ok_retired: "decision_ok nonce (retire_pending s b) d = decision_ok nonce s d"
  by (simp add: decision_ok_def retire_pending_def)

lemma select_boot_slot_ok:
  assumes v: "state_valid s" and r: "select_boot_slot p s mode nonce = Inr d"
  shows "decision_ok nonce s d"
proof -
  let ?c = "pending_slot s"
  have a: "0 \<notin> {active_slot s, 3 - active_slot s}"
    using v unfolding state_valid_def by auto
  consider (pend) "mode = MODE_NORMAL" "?c \<noteq> 0" | (safe) "select_safe p s nonce [active_slot s, 3 - active_slot s] = Inr d"
    | (good) "select_known_good p s mode nonce (fallback_order s mode) = Inr d"
    using r by (auto simp: select_boot_slot_def split: if_splits)
  then show ?thesis
  proof cases
    case pend
    then have c: "1 \<le> ?c" "?c \<le> 2" using v by (simp_all add: state_valid_def)
    consider (trial) "attempts_of s ?c > 0"
        "select_slot (with_attempts s ?c (attempts_of s ?c - 1)) ?c mode True nonce None = Inr d"
      | (ret) "select_known_good p (retire_pending s ?c) MODE_PREVIOUS nonce
          (fallback_order (retire_pending s ?c) MODE_PREVIOUS) = Inr d"
      using r pend c by (auto simp: select_boot_slot_def Let_def rbind_Inr_iff split: if_splits)
    then show ?thesis
    proof cases
      case trial
      let ?w = "with_attempts s ?c (attempts_of s ?c - 1)"
      have "attempts_of s ?c \<le> 7" using v by (simp add: attempts_of_def state_valid_def)
      then have "state_valid ?w"
        using trial(1) v by (intro with_attempts_valid) simp_all
      then have "decision_ok nonce (if True then with_attempts ?w ?c (attempts_of ?w ?c + 1) else ?w) d"
        by (rule select_slot_ok [OF _ trial(2) pend(2)]) simp_all
      moreover have "with_attempts ?w ?c (attempts_of ?w ?c + 1) = s"
        by (simp add: with_attempts_def attempts_of_def)
      ultimately show ?thesis by simp
    next
      case ret
      have "decision_ok nonce (retire_pending s ?c) d"
        using a by (intro select_known_good_ok [OF retire_pending_valid(1) [OF v refl pend(2)] ret])
          (auto simp: fallback_order_def retire_pending_def)
      then show ?thesis by (simp add: decision_ok_retired)
    qed
  next
    case safe
    then show ?thesis using a by (intro select_safe_ok [OF v safe]) auto
  next
    case good
    then show ?thesis using a by (intro select_known_good_ok [OF v good]) (auto simp: fallback_order_def)
  qed
qed


text \<open>\<open>select_boot\<close> past its guards.\<close>

lemma boot_mode_range:
  "0 \<le> requested \<Longrightarrow> requested \<le> 6 \<Longrightarrow> 1 \<le> boot_mode s requested \<and> boot_mode s requested \<le> 6"
  by (auto simp: boot_mode_def MODE_RECOVERY_def MODE_SAFE_def MODE_NORMAL_def)

lemma mode_bit_ok:
  assumes "1 \<le> m" "m \<le> 6"
  shows "prec_mode_bit m = Inr (2 ^ nat (m - 1))" "MODE_MASK_ALL AND 2 ^ nat (m - 1) \<noteq> 0"
proof -
  show "prec_mode_bit m = Inr (2 ^ nat (m - 1))"
    using assms by (simp add: prec_mode_bit_def mode_names_iff)
  have "m = 1 \<or> m = 2 \<or> m = 3 \<or> m = 4 \<or> m = 5 \<or> m = 6" using assms by arith
  then show "MODE_MASK_ALL AND 2 ^ nat (m - 1) \<noteq> 0"
    by (elim disjE) (simp_all add: mode_mask_value)
qed

lemma select_boot_total:
  assumes p: "prec_parse raw = Inr p" and v: "state_valid s" and b: "state_bound p s"
    and fl: "st_flags s AND STATE_INFLIGHT = 0" and h: "headroom s"
    and m: "0 \<le> requested" "requested \<le> 6" and n: "nonce \<noteq> 0" "fits 8 nonce"
  shows "\<exists>d. select_boot p s requested True nonce True True = Inr d \<and>
             plan_of d = boot_plan p s (boot_mode s requested)"
proof -
  let ?m = "boot_mode s requested"
  have wf: "prec_bundle_wf p" and raw: "prec_parse (bundle_raw p) = Inr p"
    using prec_parse_accepts [OF p] p by simp_all
  have floor: "bundle_minimum_secure_version p \<le> minimum_secure_version s" using b by (simp add: state_bound_def)
  have r: "1 \<le> ?m" "?m \<le> 6" using boot_mode_range [OF m] by simp_all
  have st: "store s (Some p) = Inr (stored s)" using v b by (simp add: store_Some_iff)
  have *: "select_boot p s requested True nonce True True =
      (if ?m = MODE_FIRMWARE then select_firmware s True
       else if ?m = MODE_RECOVERY then recovery_decision s (last_failure s)
       else select_boot_slot p s ?m nonce)"
    using fl mode_bit_ok [OF r] by (simp add: select_boot_def raw st Let_def)
  show ?thesis
  proof (cases "?m = MODE_FIRMWARE \<or> ?m = MODE_RECOVERY")
    case True
    have "\<exists>d. recovery_decision s (last_failure s) = Inr d \<and> plan_of d = (MODE_RECOVERY, 0, False)"
      using v h by (intro recovery_total) (simp_all add: state_valid_def)
    moreover have "\<exists>d. select_firmware s True = Inr d \<and> plan_of d = (MODE_FIRMWARE, 0, False)"
      using firmware_valid [OF v h fl] h by (simp add: select_firmware_Inr_iff headroom_def plan_of_def)
    ultimately show ?thesis using True by (auto simp: * boot_plan_def)
  next
    case False
    then show ?thesis using select_boot_slot_total [OF wf floor v h r _ _ n] by (simp add: *)
  qed
qed

text \<open>Physical presence matters to the firmware entry only.\<close>

lemma select_boot_presence:
  "boot_mode s requested \<noteq> MODE_FIRMWARE \<Longrightarrow>
   select_boot p s requested presence nonce auth writable = select_boot p s requested True nonce auth writable"
  by (simp add: select_boot_def Let_def)

lemma select_boot_refusals:
  assumes "prec_parse raw = Inr p" "state_valid s" "state_bound p s" "0 \<le> requested" "requested \<le> 6"
  shows "select_boot p s requested presence nonce False writable = Inl (Fail ''prec_transition_state_auth'')"
    "st_flags s AND STATE_INFLIGHT \<noteq> 0 \<Longrightarrow>
      select_boot p s requested presence nonce True writable = Inl (Fail ''prec_transition_inflight'')"
    "st_flags s AND STATE_INFLIGHT = 0 \<Longrightarrow> select_boot p s requested presence nonce True False =
      Inr \<lparr>decision_mode = MODE_RECOVERY, decision_slot = 0, decision_trial = False,
           persistence_required = False, decision_reason = FAIL_STATE_INVALID, decision_state = s\<rparr>"
    "st_flags s AND STATE_INFLIGHT = 0 \<Longrightarrow> boot_mode s requested = MODE_FIRMWARE \<Longrightarrow>
      select_boot p s requested False nonce True True = Inl (Fail ''prec_transition_physical_presence'')"
proof -
  have raw: "prec_parse (bundle_raw p) = Inr p" using prec_parse_accepts [OF assms(1)] assms(1) by simp
  have st: "store s (Some p) = Inr (stored s)" using assms(2, 3) by (simp add: store_Some_iff)
  have r: "1 \<le> boot_mode s requested" "boot_mode s requested \<le> 6" using boot_mode_range [OF assms(4, 5)] by simp_all
  note select = select_boot_def raw st Let_def
  show "select_boot p s requested presence nonce False writable = Inl (Fail ''prec_transition_state_auth'')" by (simp add: select)
  show "select_boot p s requested presence nonce True writable = Inl (Fail ''prec_transition_inflight'')" if "st_flags s AND STATE_INFLIGHT \<noteq> 0"
    using that by (simp add: select)
  show "select_boot p s requested presence nonce True False =
      Inr \<lparr>decision_mode = MODE_RECOVERY, decision_slot = 0, decision_trial = False,
           persistence_required = False, decision_reason = FAIL_STATE_INVALID, decision_state = s\<rparr>" if "st_flags s AND STATE_INFLIGHT = 0"
    using that by (simp add: select)
  show "select_boot p s requested False nonce True True = Inl (Fail ''prec_transition_physical_presence'')"
    if "st_flags s AND STATE_INFLIGHT = 0" "boot_mode s requested = MODE_FIRMWARE"
    using that mode_bit_ok [OF r] by (simp add: select select_firmware_def)
qed

lemma select_boot_cases:
  assumes "select_boot p s requested presence nonce auth writable = Inr d"
  shows "auth \<and> state_valid s \<and> state_bound p s \<and> st_flags s AND STATE_INFLIGHT = 0 \<and>
    (if writable then decision_ok nonce s d
     else d = \<lparr>decision_mode = MODE_RECOVERY, decision_slot = 0, decision_trial = False,
            persistence_required = False, decision_reason = FAIL_STATE_INVALID, decision_state = s\<rparr>)"
proof -
  have s: "auth" "state_valid s" "state_bound p s" "st_flags s AND STATE_INFLIGHT = 0"
    using assms by (auto simp: select_boot_def rbind_Inr_iff store_Some_iff split: if_splits)
  show ?thesis
  proof (cases writable)
    case True
    then consider "select_firmware s presence = Inr d" | "recovery_decision s (last_failure s) = Inr d"
      | "select_boot_slot p s (boot_mode s requested) nonce = Inr d"
      using assms by (auto simp: select_boot_def Let_def rbind_Inr_iff split: if_splits)
    then have "decision_ok nonce s d"
      using s select_firmware_ok recovery_decision_ok select_boot_slot_ok by cases blast+
    with True s show ?thesis by simp
  next
    case False
    with s assms show ?thesis by (auto simp: select_boot_def rbind_Inr_iff split: if_splits)
  qed
qed

lemma decision_ok_bound: "decision_ok nonce s d \<Longrightarrow> state_bound p s \<Longrightarrow> state_bound p (decision_state d)"
  by (auto simp: decision_ok_def state_bound_def Let_def)


text \<open>Every persisted decision follows the boot plan; in particular for a slot that is booted.\<close>

lemma decision_headroom: "decision_ok nonce s d \<Longrightarrow> headroom s"
  by (auto simp: decision_ok_def Let_def state_valid_def headroom_def)

lemma select_boot_plan:
  assumes p: "prec_parse raw = Inr p" and r: "select_boot p s requested presence nonce auth True = Inr d"
    and d: "decision_slot d \<noteq> 0"
  shows "plan_of d = boot_plan p s (boot_mode s requested)"
proof -
  let ?m = "boot_mode s requested"
  have s: "auth" "state_valid s" "state_bound p s" "st_flags s AND STATE_INFLIGHT = 0" and ok: "decision_ok nonce s d"
    using select_boot_cases [OF r] by simp_all
  have n: "nonce \<noteq> 0" "fits 8 nonce"
    using ok d by (auto simp: decision_ok_def Let_def state_valid_def inflight_bad_def)
  have range: "1 \<le> ?m" "?m \<le> 6"
    using r s(1) by (auto simp: select_boot_def Let_def rbind_Inr_iff prec_mode_bit_def mode_names_iff split: if_splits)
  have m: "?m \<noteq> MODE_FIRMWARE" "?m \<noteq> MODE_RECOVERY"
    using r d s(1) by (auto simp: select_boot_def Let_def rbind_Inr_iff select_firmware_Inr_iff
        recovery_decision_Inr_iff split: if_splits)
  then have "select_boot_slot p s ?m nonce = Inr d"
    using r s(1) by (auto simp: select_boot_def Let_def rbind_Inr_iff split: if_splits)
  moreover have "\<exists>d. select_boot_slot p s ?m nonce = Inr d \<and> plan_of d = boot_plan p s ?m"
    using prec_parse_accepts [OF p] s(2,3) decision_headroom [OF ok] range m n
    by (intro select_boot_slot_total) (simp_all add: state_bound_def)
  ultimately show ?thesis by auto
qed

lemma first_slot_eq: "first_slot ok slots m = (mode, slot, trial) \<Longrightarrow> slot \<noteq> 0 \<Longrightarrow> mode = m \<and> slot \<in> set slots \<and> ok slot \<and> \<not> trial"
  by (auto simp: first_slot_def find_Some_iff split: option.splits)

lemma boot_plan_safe:
  assumes "state_valid s" "boot_plan p s m = (mode, slot, trial)" "slot \<noteq> 0"
  shows "usable p s slot \<and> (slot = 1 \<or> slot = 2) \<and> (mode = MODE_SAFE \<longrightarrow> safe_attempted_mask s AND slot = 0) \<and>
    (if trial then slot = pending_slot s \<and> attempts_of s slot > 0 else known_good_mask s AND slot \<noteq> 0)"
proof -
  have a: "active_slot s = 1 \<or> active_slot s = 2" "pending_slot s = 0 \<or> pending_slot s = 1 \<or> pending_slot s = 2"
    and g: "known_good_mask s AND active_slot s \<noteq> 0"
    using assms(1) by (auto simp: state_valid_def pow_slot)
  have "(trial \<and> slot = pending_slot s \<and> usable p s slot \<and> attempts_of s slot > 0 \<and> mode = MODE_NORMAL) \<or>
      (\<not> trial \<and> slot \<in> {active_slot s, 3 - active_slot s} \<and> known_good_usable p s slot \<and>
       (mode = MODE_SAFE \<longrightarrow> safe_attempted_mask s AND slot = 0))"
    using assms(2,3) g
    by (auto simp: boot_plan_def Let_def known_good_usable_def code_defs split: if_splits dest!: first_slot_eq)
  then show ?thesis
    using a assms(3) by (auto simp: known_good_usable_def code_defs)
qed


section \<open>Success receipts\<close>

definition receipt_matches :: "recovery_state \<Rightarrow> success_receipt \<Rightarrow> bool" where
  "receipt_matches s r \<longleftrightarrow> receipt_authenticated r \<and> st_flags s AND STATE_INFLIGHT \<noteq> 0 \<and>
     receipt_generation r = inflight_generation s \<and> receipt_slot r = inflight_slot s \<and>
     receipt_mode r = inflight_mode s \<and> receipt_boot_nonce r = boot_nonce s"

lemma inflight_fields:
  assumes "state_valid s" "st_flags s AND STATE_INFLIGHT \<noteq> 0"
  shows "1 \<le> inflight_slot s" "inflight_slot s \<le> 2" "1 \<le> inflight_mode s" "inflight_mode s \<le> 6"
    "inflight_generation s = generation s" "boot_nonce s \<noteq> 0" "current_mode s = inflight_mode s"
proof -
  have "inflight_slot s \<in> {1, 2}" "inflight_mode s \<in> set MODE_NAMES" "inflight_generation s = generation s"
    "boot_nonce s \<noteq> 0" "current_mode s = inflight_mode s"
    using assms by (auto simp: state_valid_def inflight_bad_def)
  then show "1 \<le> inflight_slot s" "inflight_slot s \<le> 2" "1 \<le> inflight_mode s" "inflight_mode s \<le> 6"
    "inflight_generation s = generation s" "boot_nonce s \<noteq> 0" "current_mode s = inflight_mode s"
    by (simp_all only: small_sets mode_names_iff simp_thms)
qed

lemma report_boot_success_Inr_iff:
  "report_boot_success p s r = Inr t \<longleftrightarrow>
     (let q = promoted p s (generation s + 1) r (receipt_slot r)
      in state_valid s \<and> state_bound p s \<and> receipt_matches s r \<and> generation s \<noteq> 2 ^ 64 - 1 \<and>
         state_valid q \<and> state_bound p q \<and> t = stored q)" (is "?L \<longleftrightarrow> ?R")
proof
  assume ?L
  then show ?R
    by (auto simp: report_boot_success_def rbind_Inr_iff guarded_Inr_iff store_Some_iff slot_bit_Inr_iff
        next_generation_Inr_iff receipt_matches_def Let_def)
next
  assume R: ?R
  then have "1 \<le> receipt_slot r" "receipt_slot r \<le> 2"
    using inflight_fields(1,2) [of s] by (simp_all add: Let_def receipt_matches_def)
  with R show ?L
    by (auto simp: report_boot_success_def rbind_Inr_iff guarded_Inr_iff store_Some_iff slot_bit_Inr_iff
        next_generation_Inr_iff receipt_matches_def Let_def)
qed

lemma promoted_valid:
  assumes wf: "prec_bundle_wf p" and v: "state_valid s" and b: "state_bound p s" and h: "headroom s"
    and m: "receipt_matches s r"
  shows "state_valid (promoted p s (generation s + 1) r (receipt_slot r)) \<and>
         state_bound p (promoted p s (generation s + 1) r (receipt_slot r))"
proof -
  let ?x = "receipt_slot r"
  have x: "1 \<le> ?x" "?x \<le> 2" "1 \<le> receipt_mode r" "receipt_mode r \<le> 6"
    using inflight_fields [OF v] m by (simp_all add: receipt_matches_def)
  have masks: "masks_ok ?x (known_good_mask s OR ?x) (unbootable_mask s AND NOT ?x)"
    using v x by (intro masks_ok_promote [OF state_valid_masks [OF v]]) (simp_all add: state_valid_def)
  have f0: "st_flags s AND NOT (STATE_INFLIGHT OR STATE_RECOVERY_REQUESTED OR STATE_SAFE_REQUESTED) = 0"
    using v by (intro flag_updates) (simp_all add: state_valid_def)
  have pol: "bundle_minimum_secure_version p < 2 ^ 64" "max_attempts p \<le> 7" "0 \<le> max_attempts p"
    "1 \<le> bundle_version p" "bundle_version p < 2 ^ 64"
    using wf by (simp_all add: prec_bundle_wf_def MAX_ATTEMPTS_LIMIT_def)
  define q where "q = promoted p s (generation s + 1) r ?x"
  have "masks_ok ?x (known_good_mask q) (unbootable_mask q)" "st_flags q = 0"
    using masks f0 by (simp_all add: q_def promoted_def)
  moreover have "active_slot q = ?x" by (simp add: q_def promoted_def)
  moreover have "\<not> inflight_bad q"
    using \<open>st_flags q = 0\<close> by (simp add: inflight_bad_def) (simp add: q_def promoted_def)
  ultimately have "state_valid q"
    using v x pol h by (simp add: state_valid_def masks_ok_def)
      (simp add: q_def promoted_def headroom_def fits_def le_max_iff_disj)
  moreover have "state_bound p q"
    using b by (simp add: q_def promoted_def state_bound_def)
  ultimately show ?thesis by (simp add: q_def)
qed

lemma report_boot_success_total:
  assumes "prec_bundle_wf p" "state_valid s" "state_bound p s" "headroom s" "receipt_matches s r"
  shows "report_boot_success p s r = Inr (stored (promoted p s (generation s + 1) r (receipt_slot r)))"
  using promoted_valid [OF assms] assms by (simp add: report_boot_success_Inr_iff Let_def headroom_def)



section \<open>Failure reports\<close>

text \<open>
  The abstract failure plan for an accepted policy: signature, rollback, integrity and
  exhaustion failures (3, 4, 5, 8) retire the booted slot; what happens next depends on
  the failure, on the retries left and on the other slot.
\<close>

definition retiring :: "int \<Rightarrow> bool" where
  "retiring f \<longleftrightarrow> f = FAIL_SIGNATURE_INVALID \<or> f = FAIL_VERSION_ROLLBACK \<or> f = FAIL_ARTIFACT_INTEGRITY \<or>
     f = FAIL_ATTEMPT_EXHAUSTED"

definition failure_plan :: "prec_bundle \<Rightarrow> recovery_state \<Rightarrow> int \<Rightarrow> int" where
  "failure_plan p s f =
     (let slot = inflight_slot s;
          previous = (if known_good_usable p s (3 - slot) then ACTION_PREVIOUS else ACTION_RECOVERY);
          safe_left = (safe_attempted_mask s AND slot = 0)
      in if f = FAIL_VERSION_ROLLBACK \<or> f = FAIL_ARTIFACT_INTEGRITY \<or> f = FAIL_ATTEMPT_EXHAUSTED then previous
         else if f = FAIL_KERNEL_ENTRY then (if safe_left then ACTION_SAFE else previous)
         else if f = FAIL_INITIAL_HEALTH_TIMEOUT then
           (if pending_slot s = slot \<and> known_good_mask s AND slot = 0 \<and> attempts_of s slot > 0
            then ACTION_RETRY_CANDIDATE else previous)
         else if f = FAIL_KNOWN_GOOD_RUNTIME then (if safe_left then ACTION_SAFE else ACTION_RECOVERY)
         else ACTION_RECOVERY)"

text \<open>
  The action that \<open>docs/native-recovery-bundle.md\<close> promises: as above, but a repeated safe
  attempt becomes recovery for every failure. The code instead takes the fallback of the
  rule, which for a kernel-entry failure is the previous known-good slot.
\<close>

definition documented_action :: "prec_bundle \<Rightarrow> recovery_state \<Rightarrow> int \<Rightarrow> int" where
  "documented_action p s f =
     (let slot = inflight_slot s;
          previous = (if known_good_usable p s (3 - slot) then ACTION_PREVIOUS else ACTION_RECOVERY);
          safe_left = (safe_attempted_mask s AND slot = 0)
      in if f = FAIL_KERNEL_ENTRY \<or> f = FAIL_KNOWN_GOOD_RUNTIME then (if safe_left then ACTION_SAFE else ACTION_RECOVERY)
         else if f = FAIL_VERSION_ROLLBACK \<or> f = FAIL_ARTIFACT_INTEGRITY \<or> f = FAIL_ATTEMPT_EXHAUSTED then previous
         else if f = FAIL_INITIAL_HEALTH_TIMEOUT then
           (if pending_slot s = slot \<and> known_good_mask s AND slot = 0 \<and> attempts_of s slot > 0
            then ACTION_RETRY_CANDIDATE else previous)
         else ACTION_RECOVERY)"

lemma failure_plan_documented:
  "failure_plan p s f =
     (if f = FAIL_KERNEL_ENTRY \<and> safe_attempted_mask s AND inflight_slot s \<noteq> 0 \<and> known_good_usable p s (3 - inflight_slot s)
      then ACTION_PREVIOUS else documented_action p s f)"
  by (simp add: failure_plan_def documented_action_def Let_def code_defs)

text \<open>The state a failure report leaves.\<close>

definition after_failure :: "prec_bundle \<Rightarrow> recovery_state \<Rightarrow> int \<Rightarrow> int \<Rightarrow> recovery_state" where
  "after_failure p s f mode =
     (let b = inflight_slot s in
      failed s (generation s + 1)
        (if retiring f \<and> pending_slot s = b then 0 else pending_slot s)
        (if retiring f then known_good_mask s AND NOT b else known_good_mask s)
        (if retiring f then unbootable_mask s OR b else unbootable_mask s) mode f)"

lemma failure_rule_cases:
  assumes "prec_bundle_wf p" "1 \<le> f" "f \<le> 10"
  defines "r \<equiv> failure_rules p ! nat (f - 1)"
  shows "nat (f - 1) < length (failure_rules p)" "retires r \<longleftrightarrow> retiring f"
    "failure_flags r AND FAILURE_CLEAR_PENDING \<noteq> 0 \<longleftrightarrow> retiring f"
    "(primary_action r, fallback_action r) =
       [(ACTION_RECOVERY, ACTION_HALT), (ACTION_RECOVERY, ACTION_HALT), (ACTION_RECOVERY, ACTION_HALT),
        (ACTION_PREVIOUS, ACTION_RECOVERY), (ACTION_PREVIOUS, ACTION_RECOVERY), (ACTION_SAFE, ACTION_PREVIOUS),
        (ACTION_RETRY_CANDIDATE, ACTION_PREVIOUS), (ACTION_PREVIOUS, ACTION_RECOVERY),
        (ACTION_SAFE, ACTION_RECOVERY), (ACTION_RECOVERY, ACTION_FIRMWARE)] ! nat (f - 1)"
proof -
  have rules: "failure_rules p = map expected_failure_rule (enumerate 0 expected_failure_rows)"
    using assms(1) by (simp add: prec_bundle_wf_def)
  have f: "f = 1 \<or> f = 2 \<or> f = 3 \<or> f = 4 \<or> f = 5 \<or> f = 6 \<or> f = 7 \<or> f = 8 \<or> f = 9 \<or> f = 10"
    using assms(2,3) by arith
  show "nat (f - 1) < length (failure_rules p)"
    using assms(3) by (simp add: rules expected_failure_rows_def Let_def)
  show "retires r \<longleftrightarrow> retiring f" "failure_flags r AND FAILURE_CLEAR_PENDING \<noteq> 0 \<longleftrightarrow> retiring f"
    "(primary_action r, fallback_action r) =
       [(ACTION_RECOVERY, ACTION_HALT), (ACTION_RECOVERY, ACTION_HALT), (ACTION_RECOVERY, ACTION_HALT),
        (ACTION_PREVIOUS, ACTION_RECOVERY), (ACTION_PREVIOUS, ACTION_RECOVERY), (ACTION_SAFE, ACTION_PREVIOUS),
        (ACTION_RETRY_CANDIDATE, ACTION_PREVIOUS), (ACTION_PREVIOUS, ACTION_RECOVERY),
        (ACTION_SAFE, ACTION_RECOVERY), (ACTION_RECOVERY, ACTION_FIRMWARE)] ! nat (f - 1)"
    using f unfolding r_def rules
    by (elim disjE; simp add: expected_failure_rows_def expected_failure_rule_def retires_def retiring_def Let_def
        code_defs)+
qed

lemma failure_action_plan:
  assumes wf: "prec_bundle_wf p" and f: "1 \<le> f" "f \<le> 10" and v: "state_valid s" and b: "state_bound p s"
    and fl: "st_flags s AND STATE_INFLIGHT \<noteq> 0"
  defines "x \<equiv> inflight_slot s"
  shows "failure_action_for p s (failure_rules p ! nat (f - 1)) x x
           (if retiring f then known_good_mask s AND NOT x else known_good_mask s)
           (if retiring f then unbootable_mask s OR x else unbootable_mask s) = Inr (failure_plan p s f)"
proof -
  have x: "1 \<le> x" "x \<le> 2" using inflight_fields [OF v fl] by (simp_all add: x_def)
  let ?g = "if retiring f then known_good_mask s AND NOT x else known_good_mask s"
  let ?u = "if retiring f then unbootable_mask s OR x else unbootable_mask s"
  have ne: "2 * x \<noteq> 3" by presburger
  have same: "?g AND (3 - x) = known_good_mask s AND (3 - x)" "?u AND (3 - x) = unbootable_mask s AND (3 - x)"
    using mask_clear_other [of "known_good_mask s" "3 - x" x] mask_clear_other [of "unbootable_mask s" "3 - x" x] v x ne
    by (simp_all add: state_valid_def)
  have el: "eligible p (s\<lparr>known_good_mask := ?g, unbootable_mask := ?u\<rparr>) (3 - x) True =
      Inr (known_good_usable p s (3 - x))"
    using x b same by (subst eligible_known_good [OF wf])
      (simp_all add: state_bound_def known_good_usable_def usable_def)
  have att: "attempts_of s x \<ge> 0" using v by (simp add: attempts_of_def state_valid_def)
  have fc: "f = 1 \<or> f = 2 \<or> f = 3 \<or> f = 4 \<or> f = 5 \<or> f = 6 \<or> f = 7 \<or> f = 8 \<or> f = 9 \<or> f = 10"
    using f by arith
  note rule = failure_rule_cases(4) [OF wf f]
  show ?thesis
    using fc rule att unfolding failure_action_for_def el failure_plan_def Let_def
    by (elim disjE) (auto simp: code_defs simp flip: x_def)
qed


lemma report_boot_failure_eq:
  assumes wf: "prec_bundle_wf p" and f: "1 \<le> f" "f \<le> 10" and v: "state_valid s" and b: "state_bound p s"
    and fl: "st_flags s AND STATE_INFLIGHT \<noteq> 0"
  shows "report_boot_failure p s f True =
    rbind (next_generation s) (\<lambda>_. rbind (action_mode (failure_plan p s f)) (\<lambda>mode.
    rbind (store (after_failure p s f mode) None) (\<lambda>nxt.
    Inr \<lparr>failure_action = failure_plan p s f, failure_state = nxt\<rparr>)))"
proof -
  let ?x = "inflight_slot s"
  have x: "slot_bit ?x = Inr ?x" using inflight_fields [OF v fl] by simp
  have "store s (Some p) = Inr (stored s)" using v b by (simp add: store_Some_iff)
  moreover have "f \<in> set FAILURE_NAMES" using f by (simp add: failure_names_iff)
  ultimately show ?thesis
    using fl x failure_rule_cases(1-3) [OF wf f] failure_action_plan [OF wf f v b fl]
    by (simp add: report_boot_failure_def guarded_pass Let_def after_failure_def next_generation_def
        cong: if_cong)
qed

lemma failure_plan_mode:
  "\<exists>m. action_mode (failure_plan p s f) = Inr m \<and> 1 \<le> m \<and> m \<le> 6"
  by (simp add: failure_plan_def action_mode_def Let_def code_defs)

lemma after_failure_valid_iff:
  assumes v: "state_valid s" and h: "headroom s" and fl: "st_flags s AND STATE_INFLIGHT \<noteq> 0"
    and f: "1 \<le> f" "f \<le> 10" and m: "1 \<le> m" "m \<le> 6"
  shows "state_valid (after_failure p s f m) \<longleftrightarrow> \<not> (retiring f \<and> inflight_slot s = active_slot s)"
proof -
  let ?x = "inflight_slot s"
  have x: "1 \<le> ?x" "?x \<le> 2" using inflight_fields [OF v fl] by simp_all
  have a: "1 \<le> active_slot s" "active_slot s \<le> 2" "pending_slot s \<noteq> active_slot s" "pending_slot s \<le> 2" "0 \<le> pending_slot s"
    "0 \<le> st_flags s" "st_flags s < 8"
    using v by (simp_all add: state_valid_def)
  define q where "q = after_failure p s f m"
  have masks: "masks_ok (active_slot q) (known_good_mask q) (unbootable_mask q) \<longleftrightarrow>
      \<not> (retiring f \<and> ?x = active_slot s)"
    using masks_ok_retire [OF state_valid_masks [OF v] a(1,2) x] state_valid_masks [OF v]
    by (cases "retiring f") (simp_all add: q_def after_failure_def failed_def Let_def eq_commute)
  have q: "state_valid q \<longleftrightarrow> masks_ok (active_slot q) (known_good_mask q) (unbootable_mask q)"
  proof
    assume "masks_ok (active_slot q) (known_good_mask q) (unbootable_mask q)"
    moreover have "\<not> inflight_bad q" "0 \<le> st_flags q" "st_flags q < 8" "0 \<le> pending_slot q" "pending_slot q \<le> 2"
      "pending_slot q \<noteq> active_slot q"
      using flag_updates(7-9) [OF a(6,7)] a by (simp_all add: q_def after_failure_def failed_def inflight_bad_def Let_def)
    moreover have "last_failure q = f" "current_mode q = m" "generation q = generation s + 1" "boot_nonce q = 0"
      "inflight_generation q = 0" "evidence_sequence q = evidence_sequence s + 1" "active_slot q = active_slot s"
      "safe_attempted_mask q = safe_attempted_mask s" "attempts_a q = attempts_a s" "attempts_b q = attempts_b s"
      "transaction_id q = transaction_id s" "last_success_slot q = last_success_slot s"
      "last_success_generation q = last_success_generation s" "policy_version q = policy_version s"
      "state_store_epoch q = state_store_epoch s" "minimum_secure_version q = minimum_secure_version s"
      by (simp_all add: q_def after_failure_def failed_def Let_def)
    ultimately show "state_valid q"
      using v h f m by (simp add: state_valid_def masks_ok_def headroom_def fits_def)
  qed (rule state_valid_masks)
  with masks show ?thesis by (simp add: q_def)
qed

lemma report_boot_failure_cases:
  assumes wf: "prec_bundle_wf p" and r: "report_boot_failure p s f auth = Inr d"
  shows "auth \<and> state_valid s \<and> state_bound p s \<and> st_flags s AND STATE_INFLIGHT \<noteq> 0 \<and> 1 \<le> f \<and> f \<le> 10 \<and>
    failure_action d = failure_plan p s f \<and>
    (\<exists>m. action_mode (failure_plan p s f) = Inr m \<and> state_valid (after_failure p s f m) \<and>
         failure_state d = stored (after_failure p s f m))"
proof -
  have g: "auth" "state_valid s" "state_bound p s" "st_flags s AND STATE_INFLIGHT \<noteq> 0" "f \<in> set FAILURE_NAMES"
    using r by (auto simp: report_boot_failure_def rbind_Inr_iff guarded_Inr_iff store_Some_iff)
  then have f: "1 \<le> f" "f \<le> 10" by (simp_all add: failure_names_iff)
  from r [unfolded report_boot_failure_eq [OF wf f g(2-4)] g(1)] g f show ?thesis
    by (auto simp: report_boot_failure_eq [OF wf f g(2-4)] rbind_Inr_iff store_None_iff)
qed

lemma after_failure_bound: "state_bound p s \<Longrightarrow> state_bound p (after_failure p s f m)"
  by (simp add: state_bound_def after_failure_def failed_def Let_def)


end
