(* ===== verification/Recovery_Machine.thy ===== *)
theory Recovery_Machine
  imports Recovery_Codec Recovery_Transitions
begin

unbundle bit_operations_syntax

text \<open>
  The recovery controller as a state machine: \<open>prec_step\<close> closes \<open>select_boot\<close>,
  \<open>report_boot_success\<close> and \<open>report_boot_failure\<close> of
  \<open>src/runtime/native_recovery.py\<close> under every choice their callers can make (requested
  mode, presence, nonce, receipt, failure report). The theorems are about whole runs from
  the initial states: the stored state stays valid and bound to its policy, generations
  only move forward and the version floor never sinks, trial boots and safe-mode boots are
  bounded, receipts cannot be replayed.
\<close>


section \<open>The step relation\<close>

definition accepted :: "prec_bundle \<Rightarrow> bool" where
  "accepted p \<longleftrightarrow> prec_parse (bundle_raw p) = Inr p"

inductive prec_step :: "prec_bundle \<Rightarrow> recovery_state \<Rightarrow> recovery_state \<Rightarrow> bool" for p where
  boot: "accepted p \<Longrightarrow> select_boot p s requested presence nonce auth True = Inr d \<Longrightarrow> prec_step p s (decision_state d)"
| success: "accepted p \<Longrightarrow> report_boot_success p s r = Inr t \<Longrightarrow> prec_step p s t"
| failure: "accepted p \<Longrightarrow> report_boot_failure p s f auth = Inr d \<Longrightarrow> prec_step p s (failure_state d)"

inductive_cases prec_stepE: "prec_step p s t"

lemma accepted_wf: "accepted p \<Longrightarrow> prec_bundle_wf p"
  using prec_parse_accepts by (auto simp: accepted_def)

lemma success_step_facts:
  assumes "report_boot_success p s r = Inr t"
  shows "state_valid s" "state_bound p s" "state_valid t" "state_bound p t" "receipt_matches s r"
    "generation t = generation s + 1" "minimum_secure_version s \<le> minimum_secure_version t"
    "st_flags t AND STATE_INFLIGHT = 0" "active_slot t = receipt_slot r" "safe_attempted_mask t = safe_attempted_mask s"
    "known_good_mask t AND receipt_slot r \<noteq> 0" "attempts_of t (receipt_slot r) = max_attempts p"
proof -
  let ?q = "promoted p s (generation s + 1) r (receipt_slot r)"
  have a: "state_valid s" "state_bound p s" "receipt_matches s r" "state_valid ?q" "state_bound p ?q" "t = stored ?q"
    using assms by (simp_all only: report_boot_success_Inr_iff Let_def simp_thms)
  show "state_valid s" "state_bound p s" "receipt_matches s r" "state_valid t" "state_bound p t"
    using a by simp_all
  have v: "0 \<le> st_flags s" "st_flags s < 8" "0 \<le> known_good_mask s" "known_good_mask s \<le> 3"
    using a(1) by (simp_all add: state_valid_def)
  have x: "1 \<le> receipt_slot r" "receipt_slot r \<le> 2"
    using inflight_fields [OF a(1)] a(3) by (simp_all add: receipt_matches_def)
  show "generation t = generation s + 1" "minimum_secure_version s \<le> minimum_secure_version t"
    "active_slot t = receipt_slot r" "safe_attempted_mask t = safe_attempted_mask s"
    by (simp_all add: a(6) promoted_def)
  show "st_flags t AND STATE_INFLIGHT = 0"
    using flag_updates(6) [OF v(1,2)] by (simp add: a(6)) (simp add: promoted_def)
  show "known_good_mask t AND receipt_slot r \<noteq> 0"
    using mask_or_range(3) [OF v(3,4) x] by (simp add: a(6)) (simp add: promoted_def)
  show "attempts_of t (receipt_slot r) = max_attempts p"
    using slot_cases [OF x] by (auto simp: a(6) attempts_of_def promoted_def)
qed

lemma failure_step_facts:
  assumes "prec_bundle_wf p" "report_boot_failure p s f auth = Inr d"
  defines "t \<equiv> failure_state d"
  shows "state_valid s" "state_bound p s" "state_valid t" "state_bound p t" "st_flags s AND STATE_INFLIGHT \<noteq> 0"
    "generation t = generation s + 1" "minimum_secure_version t = minimum_secure_version s"
    "attempts_a t = attempts_a s" "attempts_b t = attempts_b s" "safe_attempted_mask t = safe_attempted_mask s"
    "active_slot t = active_slot s"
proof -
  obtain m where a: "state_valid s" "state_bound p s" "st_flags s AND STATE_INFLIGHT \<noteq> 0"
      "state_valid (after_failure p s f m)" "t = stored (after_failure p s f m)"
    using report_boot_failure_cases [OF assms(1,2)] by (auto simp: t_def)
  then show "state_valid s" "state_bound p s" "state_valid t" "state_bound p t" "st_flags s AND STATE_INFLIGHT \<noteq> 0"
    using after_failure_bound [OF a(2)] by simp_all
  show "generation t = generation s + 1" "minimum_secure_version t = minimum_secure_version s"
    "attempts_a t = attempts_a s" "attempts_b t = attempts_b s" "safe_attempted_mask t = safe_attempted_mask s"
    "active_slot t = active_slot s"
    by (simp_all add: a(5) after_failure_def failed_def Let_def)
qed

lemma boot_step_facts:
  assumes "select_boot p s requested presence nonce auth True = Inr d"
  shows "state_valid s" "state_bound p s" "st_flags s AND STATE_INFLIGHT = 0" "decision_ok nonce s d"
    "state_valid (decision_state d)" "state_bound p (decision_state d)"
proof -
  show a: "state_valid s" "state_bound p s" "st_flags s AND STATE_INFLIGHT = 0" "decision_ok nonce s d"
    using select_boot_cases [OF assms] by simp_all
  show "state_valid (decision_state d)" using a(4) by (simp add: decision_ok_def Let_def)
  show "state_bound p (decision_state d)" using decision_ok_bound [OF a(4,2)] .
qed

lemma prec_step_facts:
  assumes "prec_step p s t"
  shows "state_valid s \<and> state_bound p s \<and> state_valid t \<and> state_bound p t \<and>
    generation t = generation s + 1 \<and> minimum_secure_version s \<le> minimum_secure_version t \<and> accepted p"
  using assms
proof cases
  case (boot requested presence nonce auth d)
  then show ?thesis
    using boot_step_facts [OF boot(3)] by (simp add: decision_ok_def Let_def)
next
  case (success r)
  then show ?thesis
    using success_step_facts [OF success(2)] by simp
next
  case (failure f auth d)
  then show ?thesis
    using failure_step_facts [OF accepted_wf [OF failure(2)] failure(3)] by simp
qed

text \<open>The controller is a ratchet for the generation and the version floor.\<close>

interpretation controller: ratchet "prec_step p" generation minimum_secure_version for p
proof unfold_locales
  fix s t assume "prec_step p s t"
  then show "generation s < generation t" "minimum_secure_version s \<le> minimum_secure_version t"
    using prec_step_facts by simp_all
qed

lemma prec_run_keeps:
  assumes "(prec_step p)\<^sup>*\<^sup>* s t" "state_valid s" "state_bound p s"
  shows "state_valid t \<and> state_bound p t"
  using assms(1)
proof (induction rule: rtranclp_induct)
  case base
  then show ?case using assms by simp
next
  case (step t u)
  then show ?case using prec_step_facts by blast
qed



section \<open>Counted runs\<close>

text \<open>
  \<open>trial_run p s n t\<close>: a run from \<open>s\<close> to \<open>t\<close> without a success receipt in which \<open>n\<close> boots
  were trials. \<open>safe_run p s n t\<close>: any run, counting the boots in safe mode.
\<close>

inductive trial_run :: "prec_bundle \<Rightarrow> recovery_state \<Rightarrow> nat \<Rightarrow> recovery_state \<Rightarrow> bool" for p s where
  trial_start: "trial_run p s 0 s"
| trial_boot: "trial_run p s n t \<Longrightarrow> select_boot p t requested presence nonce auth True = Inr d \<Longrightarrow>
    trial_run p s (n + of_bool (decision_trial d)) (decision_state d)"
| trial_failure: "trial_run p s n t \<Longrightarrow> report_boot_failure p t f auth = Inr d \<Longrightarrow> trial_run p s n (failure_state d)"

inductive safe_run :: "prec_bundle \<Rightarrow> recovery_state \<Rightarrow> nat \<Rightarrow> recovery_state \<Rightarrow> bool" for p s where
  safe_start: "safe_run p s 0 s"
| safe_boot: "safe_run p s n t \<Longrightarrow> select_boot p t requested presence nonce auth True = Inr d \<Longrightarrow>
    safe_run p s (n + of_bool (decision_mode d = MODE_SAFE)) (decision_state d)"
| safe_success: "safe_run p s n t \<Longrightarrow> report_boot_success p t r = Inr u \<Longrightarrow> safe_run p s n u"
| safe_failure: "safe_run p s n t \<Longrightarrow> report_boot_failure p t f auth = Inr d \<Longrightarrow> safe_run p s n (failure_state d)"

lemma trial_run_budget:
  assumes "accepted p" "trial_run p s n t"
  shows "int n + attempts_a t + attempts_b t = attempts_a s + attempts_b s"
  using assms(2)
proof induction
  case trial_start
  then show ?case by simp
next
  case (trial_boot n t requested presence nonce auth d)
  then show ?case
    using boot_step_facts(4) [OF trial_boot.hyps(2)] by (simp add: decision_ok_def Let_def)
next
  case (trial_failure n t f auth d)
  then show ?case
    using failure_step_facts(8,9) [OF accepted_wf [OF assms(1)] trial_failure.hyps(2)] by simp
qed

definition popcount2 :: "int \<Rightarrow> int" where
  "popcount2 m = of_bool (m AND 1 \<noteq> 0) + of_bool (m AND 2 \<noteq> 0)"

lemma popcount2_grows:
  assumes "0 \<le> m" "m \<le> 3" "0 \<le> m'" "m' \<le> 3" "m' AND m = m"
  shows "popcount2 m \<le> popcount2 m'" "x = 1 \<or> x = 2 \<Longrightarrow> m AND x = 0 \<Longrightarrow> m' AND x \<noteq> 0 \<Longrightarrow> popcount2 m < popcount2 m'"
  using mask_cases [OF assms(1,2)] mask_cases [OF assms(3,4)] assms(5) by (auto simp: popcount2_def)


lemma select_safe_marks:
  "select_safe p s nonce slots = Inr d \<Longrightarrow> decision_mode d = MODE_SAFE \<Longrightarrow>
   \<exists>x. (x = 1 \<or> x = 2) \<and> safe_attempted_mask s AND x = 0 \<and>
       safe_attempted_mask (decision_state d) = safe_attempted_mask s OR x"
proof (induction slots)
  case Nil
  then show ?case by (auto simp: recovery_decision_Inr_iff code_defs)
next
  case (Cons x xs)
  then obtain e where x: "1 \<le> x" "x \<le> 2"
    and d: "(if e \<and> safe_attempted_mask s AND x = 0
       then select_slot s x MODE_SAFE False nonce (Some (safe_attempted_mask s OR x))
       else select_safe p s nonce xs) = Inr d"
    by (auto simp: rbind_Inr_iff slot_bit_Inr_iff)
  show ?case
  proof (cases "e \<and> safe_attempted_mask s AND x = 0")
    case True
    with d have "safe_attempted_mask (decision_state d) = safe_attempted_mask s OR x"
      by (auto simp: select_slot_Inr_iff Let_def launched_def)
    with True slot_cases [OF x] show ?thesis by blast
  next
    case False
    with d have "select_safe p s nonce xs = Inr d" by simp
    then show ?thesis using Cons.IH Cons.prems(2) by blast
  qed
qed

lemma select_known_good_mode:
  "select_known_good p s m nonce slots = Inr d \<Longrightarrow> decision_mode d = m \<or> decision_mode d = MODE_RECOVERY"
proof (induction slots)
  case Nil
  then show ?case by (auto simp: recovery_decision_Inr_iff)
next
  case (Cons x xs)
  then show ?case by (auto simp: rbind_Inr_iff select_slot_Inr_iff Let_def split: if_splits)
qed

lemma select_boot_slot_safe_mode:
  assumes "select_boot_slot p s mode nonce = Inr d" "decision_mode d = MODE_SAFE"
  shows "mode = MODE_SAFE \<and> select_safe p s nonce [active_slot s, 3 - active_slot s] = Inr d"
proof -
  note r = assms(1) [unfolded select_boot_slot_def Let_def]
  show ?thesis
  proof (cases "mode = MODE_NORMAL \<and> pending_slot s \<noteq> 0")
    case True
    with r have "decision_mode d = MODE_NORMAL \<or> decision_mode d = MODE_PREVIOUS \<or> decision_mode d = MODE_RECOVERY"
      by (auto simp: rbind_Inr_iff select_slot_Inr_iff Let_def split: if_splits dest: select_known_good_mode)
    with assms(2) show ?thesis by (auto simp: code_defs)
  next
    case other: False
    show ?thesis
    proof (cases "mode = MODE_SAFE")
      case True
      then show ?thesis using r other by (simp only: if_False if_True simp_thms)
    next
      case False
      then have "select_known_good p s mode nonce (fallback_order s mode) = Inr d"
        using r other by (simp only: if_False simp_thms)
      then show ?thesis using select_known_good_mode [of p s mode] False assms(2) by (fastforce simp: code_defs)
    qed
  qed
qed

lemma select_boot_branch:
  assumes "select_boot p s requested presence nonce auth True = Inr d"
  defines "m \<equiv> boot_mode s requested"
  shows "if m = MODE_FIRMWARE then select_firmware s presence = Inr d
    else if m = MODE_RECOVERY then recovery_decision s (last_failure s) = Inr d
    else select_boot_slot p s m nonce = Inr d"
  using assms(1) unfolding select_boot_def Let_def m_def [symmetric]
  by (auto simp: rbind_Inr_iff split: if_splits)

lemma select_boot_safe_mode:
  assumes r: "select_boot p s requested presence nonce auth True = Inr d" and m: "decision_mode d = MODE_SAFE"
  shows "\<exists>x. (x = 1 \<or> x = 2) \<and> safe_attempted_mask s AND x = 0 \<and>
             safe_attempted_mask (decision_state d) = safe_attempted_mask s OR x"
proof -
  have "select_boot_slot p s (boot_mode s requested) nonce = Inr d"
  proof -
    have "select_firmware s presence = Inr d \<Longrightarrow> decision_mode d = MODE_FIRMWARE"
      "recovery_decision s (last_failure s) = Inr d \<Longrightarrow> decision_mode d = MODE_RECOVERY"
      by (simp_all add: select_firmware_Inr_iff recovery_decision_Inr_iff)
    moreover have "MODE_SAFE \<noteq> MODE_FIRMWARE" "MODE_SAFE \<noteq> MODE_RECOVERY" by (simp_all add: code_defs)
    ultimately show ?thesis using select_boot_branch [OF r] m by metis
  qed
  from select_safe_marks [OF conjunct2 [OF select_boot_slot_safe_mode [OF this m]] m] show ?thesis .
qed

lemma safe_run_budget:
  assumes "accepted p" "state_valid s" "safe_run p s n t"
  shows "state_valid t \<and> int n + popcount2 (safe_attempted_mask s) \<le> popcount2 (safe_attempted_mask t)"
  using assms(3)
proof induction
  case safe_start
  then show ?case using assms(2) by simp
next
  case (safe_boot n t requested presence nonce auth d)
  let ?t = "safe_attempted_mask t" and ?d = "safe_attempted_mask (decision_state d)"
  have v: "state_valid t" "state_valid (decision_state d)" and mono: "?d AND ?t = ?t"
    using boot_step_facts [OF safe_boot.hyps(2)] by (simp_all add: decision_ok_def Let_def)
  then have range: "0 \<le> ?t" "?t \<le> 3" "0 \<le> ?d" "?d \<le> 3" by (simp_all add: state_valid_def)
  have "popcount2 ?t + of_bool (decision_mode d = MODE_SAFE) \<le> popcount2 ?d"
  proof (cases "decision_mode d = MODE_SAFE")
    case True
    then obtain x where x: "x = 1 \<or> x = 2" "?t AND x = 0" "?d = ?t OR x"
      using select_boot_safe_mode [OF safe_boot.hyps(2)] by blast
    then have "?d AND x \<noteq> 0" using mask_or_range(3) [OF range(1,2), of x] by auto
    then show ?thesis using popcount2_grows(2) [OF range mono x(1,2)] True by simp
  next
    case False
    then show ?thesis using popcount2_grows(1) [OF range mono] by simp
  qed
  then show ?case using safe_boot.IH v by simp
next
  case (safe_success n t r u)
  then show ?case using success_step_facts(3,10) [OF safe_success.hyps(2)] by simp
next
  case (safe_failure n t f auth d)
  then show ?case using failure_step_facts(3,10) [OF accepted_wf [OF assms(1)] safe_failure.hyps(2)] by simp
qed


section \<open>The recovery request\<close>

definition latched :: "recovery_state \<Rightarrow> bool" where
  "latched s \<longleftrightarrow> st_flags s AND STATE_RECOVERY_REQUESTED \<noteq> 0 \<and> st_flags s AND STATE_INFLIGHT = 0"

lemma latched_step:
  assumes "latched s" "prec_step p s t"
  shows "latched t"
  using assms(2)
proof cases
  case (boot requested presence nonce auth d)
  have v: "state_valid s" using boot_step_facts [OF boot(3)] by simp
  have "boot_mode s requested = MODE_RECOVERY" using assms(1) by (simp add: boot_mode_def latched_def)
  then have "recovery_decision s (last_failure s) = Inr d"
    using select_boot_branch [OF boot(3)] by (simp add: MODE_FIRMWARE_def MODE_RECOVERY_def)
  then have "decision_state d = stored (recovered s (generation s + 1) (last_failure s))"
    by (simp add: recovery_decision_Inr_iff)
  moreover have f: "0 \<le> st_flags s" "st_flags s < 8" using v by (simp_all add: state_valid_def)
  ultimately show ?thesis
    using assms(1) boot(1) flag_updates(3,4) [OF f] by (simp add: latched_def recovered_def)
next
  case (success r)
  then show ?thesis using success_step_facts(5) [OF success(2)] assms(1)
    by (simp add: latched_def receipt_matches_def)
next
  case (failure f auth d)
  then show ?thesis
    using failure_step_facts(5) [OF accepted_wf [OF failure(2)] failure(3)] assms(1) by (simp add: latched_def)
qed



section \<open>A sample boot\<close>

text \<open>
  The states the witnesses run on: \<open>sample_state\<close> (slot 1 pending, slot 2 active), the
  state after its trial boot was launched, and the receipt that confirms that boot.
\<close>

definition sample_inflight :: recovery_state where
  "sample_inflight = launched (with_attempts sample_state 1 2) 12 1 MODE_NORMAL 7 0"

definition sample_receipt :: success_receipt where
  "sample_receipt = \<lparr>receipt_authenticated = True, receipt_generation = 12, receipt_slot = 1,
     receipt_mode = MODE_NORMAL, receipt_boot_nonce = 7\<rparr>"

lemma sample_accepted: "accepted sample_policy"
  by (simp add: accepted_def sample_policy_facts)

lemma sample_bound: "state_bound sample_policy sample_state"
  by (simp add: state_bound_def sample_policy_facts) (simp add: sample_state_def)

lemma sample_headroom: "headroom sample_state"
  by (simp add: headroom_def sample_state_def)

lemma sample_versions: "slot_version_of sample_policy 1 = 2" "slot_version_of sample_policy 2 = 1"
proof -
  obtain a b where "bundle_slots sample_policy = [a, b]" "slot_version a = 2" "slot_version b = 1"
    using sample_policy_facts(6) by (auto simp: map_eq_Cons_conv)
  then show "slot_version_of sample_policy 1 = 2" "slot_version_of sample_policy 2 = 1"
    by (simp_all add: slot_version_of_def)
qed

lemma sample_inflight_facts:
  "state_valid sample_inflight" "state_bound sample_policy sample_inflight" "headroom sample_inflight"
  "st_flags sample_inflight AND STATE_INFLIGHT \<noteq> 0" "receipt_matches sample_inflight sample_receipt"
proof -
  have "state_valid (launched (with_attempts sample_state 1 2) (generation (with_attempts sample_state 1 2) + 1) 1 MODE_NORMAL 7 0)"
    using with_attempts_valid [OF sample_state_valid, of 2 1] sample_headroom
    by (intro launched_valid) (simp_all add: code_defs fits_def)
  then show "state_valid sample_inflight"
    by (simp add: sample_inflight_def) (simp add: with_attempts_def sample_state_def)
  show "state_bound sample_policy sample_inflight"
    by (simp add: state_bound_def sample_policy_facts)
      (simp add: sample_inflight_def launched_def with_attempts_def sample_state_def)
  show "headroom sample_inflight" "st_flags sample_inflight AND STATE_INFLIGHT \<noteq> 0"
    "receipt_matches sample_inflight sample_receipt"
    by (simp_all add: sample_inflight_def launched_def with_attempts_def sample_state_def headroom_def
        receipt_matches_def sample_receipt_def code_defs)
qed

lemma sample_plan: "boot_plan sample_policy sample_state (boot_mode sample_state 0) = (MODE_NORMAL, 1, True)"
  by (simp add: boot_plan_def boot_mode_def usable_def sample_versions attempts_of_def Let_def code_defs)
    (simp add: sample_state_def)

lemma sample_boot:
  "\<exists>d. select_boot sample_policy sample_state 0 True 7 True True = Inr d \<and> plan_of d = (MODE_NORMAL, 1, True)"
proof -
  have "\<exists>d. select_boot sample_policy sample_state 0 True 7 True True = Inr d \<and>
      plan_of d = boot_plan sample_policy sample_state (boot_mode sample_state 0)"
    using sample_policy_facts(1) sample_state_valid sample_bound sample_headroom
    by (intro select_boot_total) (simp_all add: sample_state_def fits_def)
  then show ?thesis by (simp add: sample_plan)
qed


section \<open>Properties\<close>

text \<open>
  C27. Boot selection implements the boot plan. Take a valid state with room in its counters,
  bound to an accepted policy, a requested mode between 0 and 6 and a non-zero 64-bit nonce.
  Unauthenticated state and a boot in flight are refused; state that cannot be written gives
  the recovery entry, unpersisted and with the state unchanged; a firmware entry without
  physical presence is refused. In every other case \<open>select_boot\<close> returns the decision the
  plan prescribes, and the state to persist is valid and bound to the policy again.
\<close>

theorem select_boot_implements_plan:
  assumes "prec_parse raw = Inr p" "state_valid s" "state_bound p s"
    "headroom s" "0 \<le> requested" "requested \<le> 6" "nonce \<noteq> 0" "fits 8 nonce"
    and r: "r = select_boot p s requested presence nonce auth writable"
  shows "if \<not> auth then r = Inl (Fail ''prec_transition_state_auth'')
    else if st_flags s AND STATE_INFLIGHT \<noteq> 0 then r = Inl (Fail ''prec_transition_inflight'')
    else if \<not> writable then
      r = Inr \<lparr>decision_mode = MODE_RECOVERY, decision_slot = 0, decision_trial = False,
           persistence_required = False, decision_reason = FAIL_STATE_INVALID, decision_state = s\<rparr>
    else if boot_mode s requested = MODE_FIRMWARE \<and> \<not> presence then r = Inl (Fail ''prec_transition_physical_presence'')
    else \<exists>d. r = Inr d \<and> plan_of d = boot_plan p s (boot_mode s requested) \<and>
      state_valid (decision_state d) \<and> state_bound p (decision_state d)"
proof (cases "auth \<and> st_flags s AND STATE_INFLIGHT = 0 \<and> writable \<and> (boot_mode s requested = MODE_FIRMWARE \<longrightarrow> presence)")
  case True
  then obtain d where d: "select_boot p s requested True nonce True True = Inr d" "plan_of d = boot_plan p s (boot_mode s requested)"
    using select_boot_total [OF assms(1-3) _ assms(4-8)] by blast
  have "r = Inr d" using d(1) True select_boot_presence [of s requested p presence nonce True True] by (cases presence) (auto simp: r)
  then show ?thesis using True d(2) boot_step_facts(5,6) [OF d(1)] by auto
next
  case False
  note refusals = select_boot_refusals [OF assms(1-3,5,6)]
  show ?thesis using False refusals by (auto simp: r)
qed

theorem select_boot_implements_plan_witness:
  "(\<exists>d. select_boot sample_policy sample_state 0 False 7 True True = Inr d \<and> plan_of d = (MODE_NORMAL, 1, True) \<and>
    state_valid (decision_state d)) \<and>
   select_boot sample_policy sample_state MODE_FIRMWARE False 7 True True = Inl (Fail ''prec_transition_physical_presence'')"
proof -
  note plan = select_boot_implements_plan [OF sample_policy_facts(1) sample_state_valid sample_bound sample_headroom]
  have m: "boot_mode sample_state 0 \<noteq> MODE_FIRMWARE" "boot_mode sample_state MODE_FIRMWARE = MODE_FIRMWARE" "st_flags sample_state AND STATE_INFLIGHT = 0"
    by (simp_all add: sample_state_def boot_mode_def MODE_NORMAL_def MODE_FIRMWARE_def)
  have "\<exists>d. select_boot sample_policy sample_state 0 False 7 True True = Inr d \<and> plan_of d = (MODE_NORMAL, 1, True) \<and> state_valid (decision_state d)"
    using plan [of 0 7 _ False True True, OF _ _ _ _ refl] m(1,3) by (auto simp: sample_plan fits_def)
  moreover have "select_boot sample_policy sample_state MODE_FIRMWARE False 7 True True = Inl (Fail ''prec_transition_physical_presence'')"
    using plan [of MODE_FIRMWARE 7 _ False True True, OF _ _ _ _ refl] m(2,3) by (auto simp: MODE_FIRMWARE_def fits_def)
  ultimately show ?thesis by blast
qed

text \<open>
  C28. Boot selection is safe: a slot that is handed control is not retired and not older
  than the version floor; it is known good, or it is the pending candidate with an attempt
  left, which the decision spends; the active slot, the floor and the success record are
  untouched, and the in-flight record names exactly this slot, mode and nonce.
\<close>

theorem select_boot_safe:
  assumes "accepted p" "select_boot p s requested presence nonce auth True = Inr d" "decision_slot d \<noteq> 0"
  shows "auth \<and> usable p s (decision_slot d) \<and>
    (if decision_trial d
     then decision_slot d = pending_slot s \<and> attempts_of s (decision_slot d) > 0 \<and>
          attempts_a (decision_state d) + attempts_b (decision_state d) + 1 = attempts_a s + attempts_b s
     else known_good_mask s AND decision_slot d \<noteq> 0) \<and>
    active_slot (decision_state d) = active_slot s \<and>
    minimum_secure_version (decision_state d) = minimum_secure_version s \<and>
    inflight_slot (decision_state d) = decision_slot d \<and> inflight_mode (decision_state d) = decision_mode d \<and>
    boot_nonce (decision_state d) = nonce"
proof -
  have p: "prec_parse (bundle_raw p) = Inr p" using assms(1) by (simp add: accepted_def)
  have "boot_plan p s (boot_mode s requested) = (decision_mode d, decision_slot d, decision_trial d)"
    using select_boot_plan [OF p assms(2,3)] by (simp add: plan_of_def)
  note safe = boot_plan_safe [OF boot_step_facts(1) [OF assms(2)] this assms(3)]
  have "auth" using select_boot_cases [OF assms(2)] by simp
  with safe boot_step_facts(4) [OF assms(2)] assms(3) show ?thesis
    by (cases "decision_trial d") (auto simp: decision_ok_def Let_def)
qed

theorem select_boot_safe_witness:
  "\<exists>d. select_boot sample_policy sample_state 0 True 7 True True = Inr d \<and> decision_slot d = 1 \<and>
       usable sample_policy sample_state 1"
proof -
  obtain d where d: "select_boot sample_policy sample_state 0 True 7 True True = Inr d" "plan_of d = (MODE_NORMAL, 1, True)"
    using sample_boot by blast
  then have "decision_slot d = 1" by (simp add: plan_of_def)
  with select_boot_safe [OF sample_accepted d(1)] d(1) show ?thesis by auto
qed

text \<open>
  C32. With room in the counters a matching receipt is honoured: while a boot is in flight the receipt that
  carries its generation, slot, mode and nonce is accepted, and the booted slot becomes the
  active, known-good slot with a full set of attempts and nothing in flight.
\<close>

theorem receipt_promotes:
  assumes "accepted p" "state_valid s" "state_bound p s" "headroom s" "receipt_matches s r"
  shows "\<exists>t. report_boot_success p s r = Inr t \<and> state_valid t \<and> state_bound p t \<and>
    active_slot t = inflight_slot s \<and> known_good_mask t AND inflight_slot s \<noteq> 0 \<and>
    attempts_of t (inflight_slot s) = max_attempts p \<and> st_flags t AND STATE_INFLIGHT = 0 \<and>
    generation t = generation s + 1"
proof -
  obtain t where t: "report_boot_success p s r = Inr t"
    using report_boot_success_total [OF accepted_wf [OF assms(1)] assms(2-5)] by blast
  have "receipt_slot r = inflight_slot s" using assms(5) by (simp add: receipt_matches_def)
  with t success_step_facts [OF t] show ?thesis by simp
qed

theorem receipt_promotes_witness:
  "\<exists>t. report_boot_success sample_policy sample_inflight sample_receipt = Inr t \<and> active_slot t = 1"
proof -
  have "inflight_slot sample_inflight = 1" by (simp add: sample_inflight_def launched_def)
  then show ?thesis
    using receipt_promotes [OF sample_accepted sample_inflight_facts(1-3,5)] by auto
qed

text \<open>
  No replay: a receipt that was accepted once is rejected in the state it produced and
  in every state reachable from there.
\<close>

theorem receipt_no_replay:
  assumes "accepted p" "report_boot_success p s r = Inr t" "(prec_step p)\<^sup>*\<^sup>* t u"
  shows "\<not> returns (report_boot_success p u r)"
proof
  assume "returns (report_boot_success p u r)"
  then obtain w where "report_boot_success p u r = Inr w" by (auto simp: returns_iff)
  from success_step_facts(1,5) [OF this]
  have "receipt_generation r = generation u"
    using inflight_fields(5) [of u] by (simp add: receipt_matches_def)
  moreover have "receipt_generation r = generation s" "generation t = generation s + 1"
    using success_step_facts(1,5,6) [OF assms(2)] inflight_fields(5) [of s] by (simp_all add: receipt_matches_def)
  ultimately show False using controller.gen_run [OF assms(3)] by auto
qed

theorem receipt_no_replay_witness:
  "\<exists>t. report_boot_success sample_policy sample_inflight sample_receipt = Inr t \<and>
       \<not> returns (report_boot_success sample_policy t sample_receipt)"
proof -
  obtain t where t: "report_boot_success sample_policy sample_inflight sample_receipt = Inr t"
    using report_boot_success_total [OF accepted_wf [OF sample_accepted] sample_inflight_facts(1-3,5)] by blast
  with receipt_no_replay [OF sample_accepted t rtranclp.rtrancl_refl] show ?thesis by blast
qed


text \<open>
  C30. Failure reports: for an accepted policy, a report that returns was authenticated and
  yields the documented action, with one exception. When a kernel-entry failure hits a slot
  whose safe attempt is already spent and the other slot is usable and known good, the code
  falls back to the previous slot, where the documentation says recovery. The resulting state
  is valid, has nothing in flight, records the failure and keeps the active slot and the
  attempts. Exactly the four retiring failures (signature, rollback, integrity, exhaustion)
  move the booted slot from the known-good to the unbootable mask; every other failure leaves
  both masks and the pending slot as they were.
\<close>

theorem failure_report_implements_plan:
  assumes "accepted p" "report_boot_failure p s f auth = Inr d"
  defines "t \<equiv> failure_state d"
  shows "auth \<and>
    failure_action d =
      (if f = FAIL_KERNEL_ENTRY \<and> safe_attempted_mask s AND inflight_slot s \<noteq> 0 \<and> known_good_usable p s (3 - inflight_slot s)
       then ACTION_PREVIOUS else documented_action p s f) \<and>
    state_valid t \<and> state_bound p t \<and>
    st_flags t AND STATE_INFLIGHT = 0 \<and> active_slot t = active_slot s \<and> last_failure t = f \<and>
    attempts_a t = attempts_a s \<and> attempts_b t = attempts_b s \<and>
    (if retiring f then unbootable_mask t = unbootable_mask s OR inflight_slot s \<and>
          known_good_mask t = known_good_mask s AND NOT (inflight_slot s) \<and> pending_slot t \<noteq> inflight_slot s
     else unbootable_mask t = unbootable_mask s \<and> known_good_mask t = known_good_mask s \<and> pending_slot t = pending_slot s)"
proof -
  have wf: "prec_bundle_wf p" using assms(1) by (rule accepted_wf)
  obtain m where a: "auth" "state_valid s" "st_flags s AND STATE_INFLIGHT \<noteq> 0" "failure_action d = failure_plan p s f"
      "t = stored (after_failure p s f m)"
    using report_boot_failure_cases [OF wf assms(2)] by (auto simp: t_def)
  note facts = failure_step_facts [OF wf assms(2), folded t_def]
  have f: "0 \<le> st_flags s" "st_flags s < 8" using a(2) by (simp_all add: state_valid_def)
  have slot: "inflight_slot s \<noteq> 0" using inflight_fields(1) [OF a(2,3)] by simp
  have "st_flags t AND STATE_INFLIGHT = 0" "last_failure t = f"
    using flag_updates(9) [OF f] by (simp_all add: a(5) after_failure_def failed_def Let_def)
  moreover have "if retiring f then unbootable_mask t = unbootable_mask s OR inflight_slot s \<and>
      known_good_mask t = known_good_mask s AND NOT (inflight_slot s) \<and> pending_slot t \<noteq> inflight_slot s
    else unbootable_mask t = unbootable_mask s \<and> known_good_mask t = known_good_mask s \<and> pending_slot t = pending_slot s"
    using slot by (simp add: a(5) after_failure_def failed_def Let_def)
  ultimately show ?thesis using a facts failure_plan_documented [of p s f] by simp
qed

text \<open>
  C31. When a failure can be reported: with room in the counters, an authenticated report of
  failure \<open>f\<close> for the boot in flight returns unless \<open>f\<close> is one of the retiring failures and
  the booted slot is the active one; in that case the call raises and the boot stays in
  flight, because a state whose active slot is not known good cannot be stored.
\<close>

theorem failure_report_returns_iff:
  assumes "accepted p" "state_valid s" "state_bound p s" "headroom s" "st_flags s AND STATE_INFLIGHT \<noteq> 0"
    "1 \<le> f" "f \<le> 10"
  shows "returns (report_boot_failure p s f True) \<longleftrightarrow> \<not> (retiring f \<and> inflight_slot s = active_slot s)"
proof -
  obtain m where m: "action_mode (failure_plan p s f) = Inr m" "1 \<le> m" "m \<le> 6"
    using failure_plan_mode by blast
  have "returns (report_boot_failure p s f True) \<longleftrightarrow> (\<exists>t. store (after_failure p s f m) None = Inr t)"
    using assms(4) unfolding report_boot_failure_eq [OF accepted_wf [OF assms(1)] assms(6,7,2,3,5)]
    by (simp add: m(1) next_generation_def headroom_def returns_iff rbind_Inr_iff)
  also have "\<dots> \<longleftrightarrow> state_valid (after_failure p s f m)" by (simp add: store_None_iff)
  finally show ?thesis using after_failure_valid_iff [OF assms(2,4,5,6,7) m(2,3)] by simp
qed

theorem failure_report_returns_iff_witness:
  "returns (report_boot_failure sample_policy sample_inflight FAIL_SIGNATURE_INVALID True)"
proof -
  have "inflight_slot sample_inflight \<noteq> active_slot sample_inflight"
    by (simp add: sample_inflight_def launched_def with_attempts_def sample_state_def)
  then show ?thesis
    using failure_report_returns_iff [OF sample_accepted sample_inflight_facts(1-4), of FAIL_SIGNATURE_INVALID]
    by (simp add: FAIL_SIGNATURE_INVALID_def)
qed

theorem failure_report_implements_plan_witness:
  "\<exists>d. report_boot_failure sample_policy sample_inflight FAIL_CONFIG_INVALID True = Inr d \<and> failure_action d = ACTION_RECOVERY"
proof -
  obtain m where m: "action_mode (failure_plan sample_policy sample_inflight FAIL_CONFIG_INVALID) = Inr m" "1 \<le> m" "m \<le> 6"
    using failure_plan_mode by blast
  have f: "1 \<le> FAIL_CONFIG_INVALID" "FAIL_CONFIG_INVALID \<le> 10" "\<not> retiring FAIL_CONFIG_INVALID"
    by (simp_all add: retiring_def code_defs)
  have "state_valid (after_failure sample_policy sample_inflight FAIL_CONFIG_INVALID m)"
    using f m by (subst after_failure_valid_iff [OF sample_inflight_facts(1,3,4)]) simp_all
  then obtain d where d: "report_boot_failure sample_policy sample_inflight FAIL_CONFIG_INVALID True = Inr d"
    using sample_inflight_facts(3)
    by (simp add: report_boot_failure_eq [OF accepted_wf [OF sample_accepted] f(1,2) sample_inflight_facts(1,2,4)]
        m(1) store_None_iff next_generation_def headroom_def rbind_Inr_iff)
  have "documented_action sample_policy sample_inflight FAIL_CONFIG_INVALID = ACTION_RECOVERY" "FAIL_CONFIG_INVALID \<noteq> FAIL_KERNEL_ENTRY"
    by (simp_all add: documented_action_def code_defs Let_def)
  with failure_report_implements_plan [OF sample_accepted d] d show ?thesis by auto
qed

text \<open>
  C29. The invariant of the machine: from the canonical state of an accepted policy every
  run of boot decisions, success receipts and failure reports stays in states that are
  valid and bound to the policy; in particular the active slot is always known good and
  never retired.
\<close>

theorem reachable_states_valid:
  assumes "accepted p" "canonical_state (Some p) = Inr s" "(prec_step p)\<^sup>*\<^sup>* s t"
  shows "state_valid t \<and> state_bound p t \<and> known_good_mask t AND active_slot t \<noteq> 0 \<and>
         unbootable_mask t AND active_slot t = 0"
proof -
  have lim: "policy_limited (Some p)"
    using accepted_wf [OF assms(1)] by (simp add: policy_limited_def prec_bundle_wf_def)
  obtain data where "parse_state data (Some p) = Inr s"
    using assms(2) by (auto simp: canonical_state_def policy_or_def base_state_def rbind_Inr_iff)
  from parse_state_valid(1) [OF this lim] have "state_valid s" "state_bound p s"
    by (simp_all add: state_ok_def)
  then have t: "state_valid t" "state_bound p t" using prec_run_keeps [OF assms(3)] by simp_all
  then have a: "1 \<le> active_slot t" "active_slot t \<le> 2" by (simp_all add: state_valid_def)
  have "known_good_mask t AND active_slot t \<noteq> 0 \<and> unbootable_mask t AND active_slot t = 0"
    using masks_ok_cases [OF state_valid_masks [OF t(1)] a] by (elim disjE conjE) simp_all
  with t show ?thesis by simp
qed

theorem reachable_states_valid_witness:
  "\<exists>s. canonical_state (Some sample_policy) = Inr s \<and> state_valid s \<and> unbootable_mask s AND active_slot s = 0"
proof -
  obtain s where s: "canonical_state (Some sample_policy) = Inr s"
    using canonical_state_ok [OF sample_policy_facts(1)] by blast
  with reachable_states_valid [OF sample_accepted s rtranclp.rtrancl_refl] show ?thesis by blast
qed

text \<open>
  C34. Rollback protection over runs: along any non-empty run the generation strictly grows
  and the minimum secure version never sinks, so no earlier state is ever current again.
\<close>

theorem runs_never_roll_back:
  assumes "(prec_step p)\<^sup>+\<^sup>+ s t"
  shows "generation s < generation t \<and> minimum_secure_version s \<le> minimum_secure_version t \<and> s \<noteq> t"
  using controller.gen_run_plus [OF assms] controller.floor_run [OF tranclp_into_rtranclp [OF assms]]
    controller.no_return [OF assms] by simp

theorem runs_never_roll_back_witness:
  "\<exists>t. prec_step sample_policy sample_inflight t \<and> generation sample_inflight < generation t"
proof -
  obtain t where t: "report_boot_success sample_policy sample_inflight sample_receipt = Inr t"
    using report_boot_success_total [OF accepted_wf [OF sample_accepted] sample_inflight_facts(1-3,5)] by blast
  then have "prec_step sample_policy sample_inflight t" by (rule prec_step.success [OF sample_accepted])
  moreover from this have "(prec_step sample_policy)\<^sup>+\<^sup>+ sample_inflight t" by (rule tranclp.r_into_trancl)
  ultimately show ?thesis using runs_never_roll_back [of sample_policy sample_inflight t] by blast
qed

text \<open>
  C33. Trials are bounded: without a success receipt in between, a run from a valid state
  bound to the policy contains at most twice the policy's attempt limit of trial boots,
  whatever modes are requested and failures reported.
\<close>

theorem trials_bounded:
  assumes "accepted p" "state_valid s" "state_bound p s" "trial_run p s n t"
  shows "int n \<le> 2 * max_attempts p"
proof -
  have "state_valid t"
    using assms(4)
  proof cases
    case (trial_boot n u requested presence nonce auth d)
    then show ?thesis using boot_step_facts(5) by blast
  next
    case (trial_failure u f auth d)
    then show ?thesis using failure_step_facts(3) [OF accepted_wf [OF assms(1)]] by blast
  qed (use assms(2) in simp)
  then have "0 \<le> attempts_a t" "0 \<le> attempts_b t" by (simp_all add: state_valid_def)
  moreover have "attempts_a s \<le> max_attempts p" "attempts_b s \<le> max_attempts p"
    using assms(3) by (simp_all add: state_bound_def)
  ultimately show ?thesis using trial_run_budget [OF assms(1,4)] by linarith
qed

theorem trials_bounded_witness:
  "\<exists>t. trial_run sample_policy sample_state 1 t \<and> int 1 \<le> 2 * max_attempts sample_policy"
proof -
  obtain d where d: "select_boot sample_policy sample_state 0 True 7 True True = Inr d" "plan_of d = (MODE_NORMAL, 1, True)"
    using sample_boot by blast
  then have "decision_trial d" by (simp add: plan_of_def)
  with trial_boot [OF trial_start d(1)] have "trial_run sample_policy sample_state 1 (decision_state d)" by simp
  with trials_bounded [OF sample_accepted sample_state_valid sample_bound this] show ?thesis by blast
qed

text \<open>
  Safe mode cannot loop: over a whole run, success receipts included, at most two boots
  are made in safe mode, one per slot.
\<close>

theorem safe_boots_bounded:
  assumes "accepted p" "state_valid s" "safe_run p s n t"
  shows "n \<le> 2"
proof -
  have "popcount2 (safe_attempted_mask t) \<le> 2" "0 \<le> popcount2 (safe_attempted_mask s)"
    by (simp_all add: popcount2_def)
  moreover have "int n + popcount2 (safe_attempted_mask s) \<le> popcount2 (safe_attempted_mask t)"
    using safe_run_budget [OF assms] by simp
  ultimately show ?thesis by linarith
qed

theorem safe_boots_bounded_witness:
  "\<exists>t. safe_run sample_policy sample_state 1 t \<and> (1::nat) \<le> 2"
proof -
  have "\<exists>d. select_boot sample_policy sample_state MODE_SAFE True 7 True True = Inr d \<and>
      plan_of d = boot_plan sample_policy sample_state (boot_mode sample_state MODE_SAFE)"
    using sample_policy_facts(1) sample_state_valid sample_bound sample_headroom
    by (intro select_boot_total) (simp_all add: sample_state_def fits_def MODE_SAFE_def)
  moreover have "boot_plan sample_policy sample_state (boot_mode sample_state MODE_SAFE) = (MODE_SAFE, 2, False)"
    by (simp add: boot_plan_def boot_mode_def known_good_usable_def usable_def first_slot_def Let_def code_defs)
      (simp add: sample_state_def sample_versions)
  ultimately obtain d where d: "select_boot sample_policy sample_state MODE_SAFE True 7 True True = Inr d" "decision_mode d = MODE_SAFE"
    by (auto simp: plan_of_def)
  with safe_boot [OF safe_start d(1)] have "safe_run sample_policy sample_state 1 (decision_state d)" by simp
  with safe_boots_bounded [OF sample_accepted sample_state_valid this] show ?thesis by blast
qed

text \<open>
  A recorded recovery request is sticky: once the request flag is set with no boot in
  flight, every decision is recovery and no transition clears the flag; no slot is booted
  on any run from such a state.
\<close>

theorem recovery_request_sticky:
  assumes "latched s" "(prec_step p)\<^sup>*\<^sup>* s t"
  shows "latched t \<and>
    (\<forall>requested presence nonce auth d. select_boot p t requested presence nonce auth True = Inr d \<longrightarrow>
       decision_mode d = MODE_RECOVERY \<and> decision_slot d = 0)"
proof -
  have l: "latched t" using assms(2)
    by (induction rule: rtranclp_induct) (use assms(1) latched_step in blast)+
  have "decision_mode d = MODE_RECOVERY \<and> decision_slot d = 0"
    if r: "select_boot p t requested presence nonce auth True = Inr d" for requested presence nonce auth d
  proof -
    have "boot_mode t requested = MODE_RECOVERY" using l by (simp add: boot_mode_def latched_def)
    then have "recovery_decision t (last_failure t) = Inr d"
      using select_boot_branch [OF r] by (simp add: MODE_FIRMWARE_def MODE_RECOVERY_def)
    then show ?thesis by (simp add: recovery_decision_Inr_iff)
  qed
  with l show ?thesis by blast
qed

theorem recovery_request_sticky_witness:
  "latched (sample_state\<lparr>st_flags := 1\<rparr>) \<and>
   (\<exists>d. select_boot sample_policy (sample_state\<lparr>st_flags := 1\<rparr>) MODE_NORMAL True 7 True True = Inr d \<and>
        decision_mode d = MODE_RECOVERY \<and> decision_slot d = 0)"
proof -
  let ?s = "sample_state\<lparr>st_flags := 1\<rparr>"
  have l: "latched ?s" by (simp add: latched_def code_defs)
  have "\<exists>d. select_boot sample_policy ?s MODE_NORMAL True 7 True True = Inr d \<and>
      plan_of d = boot_plan sample_policy ?s (boot_mode ?s MODE_NORMAL)"
  proof (rule select_boot_total [OF sample_policy_facts(1)])
    show "state_valid ?s"
      by (simp add: state_valid_def sample_state_def inflight_bad_def fits_def code_defs)
    show "state_bound sample_policy ?s" using sample_bound by (simp add: state_bound_def)
    show "headroom ?s" using sample_headroom by (simp add: headroom_def)
  qed (simp_all add: code_defs fits_def)
  with l recovery_request_sticky [OF l rtranclp.rtrancl_refl] show ?thesis by blast
qed


section \<open>Witnesses for the state record\<close>

theorem parse_state_sound_witness:
  "state_valid (stored sample_state) \<and> encode_state (stored sample_state) = Inr (state_image sample_state)"
proof -
  have "parse_state (state_image sample_state) (Some sample_policy) = Inr (stored sample_state)"
    using sample_state_valid sample_bound by (intro parse_state_ok) (simp add: state_ok_def)
  from parse_state_sound [OF sample_policy_facts(1) this] show ?thesis by blast
qed

theorem state_spelling_unique_witness:
  "\<exists>d e. parse_state d None = Inr (stored sample_state) \<and>
         parse_state e (Some sample_policy) = Inr (stored sample_state) \<and> d = e"
proof -
  have d: "parse_state (state_image sample_state) None = Inr (stored sample_state)"
    and e: "parse_state (state_image sample_state) (Some sample_policy) = Inr (stored sample_state)"
    using sample_state_valid sample_bound by (auto intro!: parse_state_ok simp: state_ok_def)
  with state_spelling_unique [OF d e refl] show ?thesis by blast
qed

theorem canonical_state_exists_witness:
  "\<exists>s. canonical_state (Some sample_policy) = Inr s \<and> state_valid s \<and> generation s = 11"
  using canonical_state_exists [OF sample_policy_facts(1)] sample_policy_facts(4) by auto

end
