(* ===== verification/Recovery_Activation.thy ===== *)
theory Recovery_Activation
  imports Recovery_Policy
begin

text \<open>
  The activation gate of the recovery bundle (\<open>ActivationContext\<close>,
  \<open>development_activation_context\<close>, \<open>synthetic_qualified_activation_context\<close>,
  \<open>activation_context\<close>, \<open>activation_errors\<close>, \<open>authorize_activation\<close> in
  \<open>src/runtime/native_recovery.py\<close>): twenty-one named conditions, reported in source
  order; the first failure is the exception raised. The gate is an instance of the
  interface \<open>gate\<close>.
\<close>

record recovery_activation_context =
  outer_role :: int
  outer_artifact_version :: int
  outer_payload_digest_verified :: bool
  outer_file_digest_verified :: bool
  outer_signature_verified :: bool
  inner_signature_verified :: bool
  manifest_signature_verified :: bool
  state_authenticated :: bool
  state_generation_monotonic :: bool
  version_floor_persisted :: bool
  manifest_and_components_verified :: bool
  pbp_major :: int
  pbp_minor :: int
  kernel_abi_major :: int
  kernel_abi_minor :: int
  offline_path :: bool
  pdc_disabled :: bool
  pooleglyph_independent :: bool
  serial_or_gop_software_path :: bool
  transaction_capacity_verified :: bool
  evidence_preservation_ready :: bool
  rollback_available :: bool
  state_writable :: bool

definition development_activation_context :: recovery_activation_context where
  "development_activation_context =
     \<lparr>outer_role = 3, outer_artifact_version = 1, outer_payload_digest_verified = True,
      outer_file_digest_verified = True, outer_signature_verified = False,
      inner_signature_verified = False, manifest_signature_verified = False,
      state_authenticated = False, state_generation_monotonic = False,
      version_floor_persisted = False, manifest_and_components_verified = False,
      pbp_major = 1, pbp_minor = 0, kernel_abi_major = 1, kernel_abi_minor = 0,
      offline_path = True, pdc_disabled = True, pooleglyph_independent = True,
      serial_or_gop_software_path = True, transaction_capacity_verified = False,
      evidence_preservation_ready = False, rollback_available = False, state_writable = False\<rparr>"

definition qualified_context :: "prec_bundle \<Rightarrow> recovery_activation_context" where
  "qualified_context policy =
     \<lparr>outer_role = 3, outer_artifact_version = bundle_version policy,
      outer_payload_digest_verified = True, outer_file_digest_verified = True,
      outer_signature_verified = True, inner_signature_verified = True,
      manifest_signature_verified = True, state_authenticated = True,
      state_generation_monotonic = True, version_floor_persisted = True,
      manifest_and_components_verified = True,
      pbp_major = required_pbp_major policy, pbp_minor = minimum_pbp_minor policy,
      kernel_abi_major = required_kernel_abi_major policy,
      kernel_abi_minor = minimum_kernel_abi_minor policy,
      offline_path = True, pdc_disabled = True, pooleglyph_independent = True,
      serial_or_gop_software_path = True, transaction_capacity_verified = True,
      evidence_preservation_ready = True, rollback_available = True, state_writable = True\<rparr>"

definition synthetic_qualified_activation_context :: "prec_bundle option \<Rightarrow> recovery_activation_context res" where
  "synthetic_qualified_activation_context bundle = rbind (policy_or bundle prec_canonical_bundle) (\<lambda>policy. Inr (qualified_context policy))"

definition ACTIVATION_MODES :: "string list" where
  "ACTIVATION_MODES =
     [''development'', ''role'', ''version'', ''payload-digest'', ''file-digest'', ''outer-signature'',
      ''inner-signature'', ''manifest-signature'', ''state-auth'', ''state-generation'', ''version-floor'',
      ''components'', ''pbp'', ''kernel-abi'', ''offline'', ''pdc-disabled'', ''pooleglyph-independent'',
      ''display-path'', ''transaction-capacity'', ''evidence'', ''rollback'', ''state-writable'']"

text \<open>The \<open>changes\<close> table: one damaged field per mode.\<close>

definition activation_changes ::
  "prec_bundle \<Rightarrow> (string \<times> (recovery_activation_context \<Rightarrow> recovery_activation_context)) list" where
  "activation_changes policy = [
     (''role'', \<lambda>c. c\<lparr>outer_role := 2\<rparr>),
     (''version'', \<lambda>c. c\<lparr>outer_artifact_version := bundle_version policy + 1\<rparr>),
     (''payload-digest'', \<lambda>c. c\<lparr>outer_payload_digest_verified := False\<rparr>),
     (''file-digest'', \<lambda>c. c\<lparr>outer_file_digest_verified := False\<rparr>),
     (''outer-signature'', \<lambda>c. c\<lparr>outer_signature_verified := False\<rparr>),
     (''inner-signature'', \<lambda>c. c\<lparr>inner_signature_verified := False\<rparr>),
     (''manifest-signature'', \<lambda>c. c\<lparr>manifest_signature_verified := False\<rparr>),
     (''state-auth'', \<lambda>c. c\<lparr>state_authenticated := False\<rparr>),
     (''state-generation'', \<lambda>c. c\<lparr>state_generation_monotonic := False\<rparr>),
     (''version-floor'', \<lambda>c. c\<lparr>version_floor_persisted := False\<rparr>),
     (''components'', \<lambda>c. c\<lparr>manifest_and_components_verified := False\<rparr>),
     (''pbp'', \<lambda>c. c\<lparr>pbp_major := required_pbp_major policy + 1\<rparr>),
     (''kernel-abi'', \<lambda>c. c\<lparr>kernel_abi_major := required_kernel_abi_major policy + 1\<rparr>),
     (''offline'', \<lambda>c. c\<lparr>offline_path := False\<rparr>),
     (''pdc-disabled'', \<lambda>c. c\<lparr>pdc_disabled := False\<rparr>),
     (''pooleglyph-independent'', \<lambda>c. c\<lparr>pooleglyph_independent := False\<rparr>),
     (''display-path'', \<lambda>c. c\<lparr>serial_or_gop_software_path := False\<rparr>),
     (''transaction-capacity'', \<lambda>c. c\<lparr>transaction_capacity_verified := False\<rparr>),
     (''evidence'', \<lambda>c. c\<lparr>evidence_preservation_ready := False\<rparr>),
     (''rollback'', \<lambda>c. c\<lparr>rollback_available := False\<rparr>),
     (''state-writable'', \<lambda>c. c\<lparr>state_writable := False\<rparr>)]"

definition activation_context :: "string \<Rightarrow> prec_bundle option \<Rightarrow> recovery_activation_context res" where
  "activation_context mode bundle =
     rbind (policy_or bundle prec_canonical_bundle) (\<lambda>policy.
     if mode = ''development'' then Inr development_activation_context
     else rbind (synthetic_qualified_activation_context (Some policy)) (\<lambda>context.
       case map_of (activation_changes policy) mode of
         None \<Rightarrow> Inl (Fail ''prec_activation_mode'')
       | Some change \<Rightarrow> Inr (change context)))"

definition activation_checks :: "prec_bundle \<Rightarrow> recovery_activation_context \<Rightarrow> (bool \<times> string) list" where
  "activation_checks bundle c = [
     (outer_role c = 3, ''prec_activation_role''),
     (outer_artifact_version c = bundle_version bundle, ''prec_activation_version''),
     (outer_payload_digest_verified c, ''prec_activation_outer_payload_digest''),
     (outer_file_digest_verified c, ''prec_activation_outer_file_digest''),
     (outer_signature_verified c, ''prec_activation_outer_signature''),
     (inner_signature_verified c, ''prec_activation_inner_signature''),
     (manifest_signature_verified c, ''prec_activation_manifest_signature''),
     (state_authenticated c, ''prec_activation_state_auth''),
     (state_generation_monotonic c, ''prec_activation_state_generation''),
     (version_floor_persisted c, ''prec_activation_version_floor''),
     (manifest_and_components_verified c, ''prec_activation_components''),
     (pbp_major c = required_pbp_major bundle \<and> pbp_minor c \<ge> minimum_pbp_minor bundle, ''prec_activation_pbp''),
     (kernel_abi_major c = required_kernel_abi_major bundle \<and>
        kernel_abi_minor c \<ge> minimum_kernel_abi_minor bundle, ''prec_activation_kernel_abi''),
     (offline_path c, ''prec_activation_offline''),
     (pdc_disabled c, ''prec_activation_pdc_disabled''),
     (pooleglyph_independent c, ''prec_activation_pooleglyph_independent''),
     (serial_or_gop_software_path c, ''prec_activation_display_path''),
     (transaction_capacity_verified c, ''prec_activation_transaction_capacity''),
     (evidence_preservation_ready c, ''prec_activation_evidence''),
     (rollback_available c, ''prec_activation_rollback''),
     (state_writable c, ''prec_activation_state_writable'')]"

definition activation_errors :: "prec_bundle \<Rightarrow> recovery_activation_context \<Rightarrow> string list" where
  "activation_errors bundle context =
     foldl (\<lambda>errors (passed, code). if \<not> passed then errors @ [code] else errors) [] (activation_checks bundle context)"

definition authorize_activation :: "prec_bundle \<Rightarrow> recovery_activation_context \<Rightarrow> unit res" where
  "authorize_activation bundle context =
     (case activation_errors bundle context of [] \<Rightarrow> Inr () | e # _ \<Rightarrow> Inl (Fail e))"


section \<open>The gate interface\<close>

interpretation activation_gate: gate activation_checks activation_errors authorize_activation
proof unfold_locales
  fix b :: prec_bundle and c :: recovery_activation_context
  show "activation_errors b c = map snd (filter (\<lambda>(passed, _). \<not> passed) (activation_checks b c))"
    unfolding activation_errors_def by (rule collect_failed)
qed (simp add: authorize_activation_def)

lemma activation_context_modes:
  "mode \<noteq> ''development'' \<Longrightarrow> activation_context mode (Some p) =
     (case map_of (activation_changes p) mode of None \<Rightarrow> Inl (Fail ''prec_activation_mode'')
      | Some change \<Rightarrow> Inr (change (qualified_context p)))"
  by (simp add: activation_context_def policy_or_def synthetic_qualified_activation_context_def)


section \<open>Properties\<close>

text \<open>
  Each damaged context is caught by its own check: for every activation mode but
  development, the context of that mode fails exactly one check, in the order of the mode
  list, while the undamaged context passes and the development context never does.
\<close>

theorem activation_modes_single_fault:
  "map (\<lambda>mode. map_sum id (activation_errors p) (activation_context mode (Some p))) (tl ACTIVATION_MODES) =
   map (\<lambda>code. Inr [code]) (map snd (activation_checks p (qualified_context p))) \<and>
   authorize_activation p (qualified_context p) = Inr () \<and>
   \<not> returns (authorize_activation p development_activation_context)"
proof -
  have "authorize_activation p (qualified_context p) = Inr ()"
    unfolding activation_gate.authorize_iff by (simp add: activation_checks_def qualified_context_def)
  moreover have "activation_errors p development_activation_context \<noteq> []"
    by (simp add: activation_gate.errors_eq activation_checks_def development_activation_context_def)
  then have "\<not> returns (authorize_activation p development_activation_context)"
    by (auto simp: authorize_activation_def split: list.split)
  moreover have "map (\<lambda>mode. map_sum id (activation_errors p) (activation_context mode (Some p))) (tl ACTIVATION_MODES) =
   map (\<lambda>code. Inr [code]) (map snd (activation_checks p (qualified_context p)))"
    by (simp add: ACTIVATION_MODES_def activation_context_modes activation_changes_def activation_gate.errors_eq
        activation_checks_def qualified_context_def)
  ultimately show ?thesis by blast
qed

end
