(* ===== verification/Boot_Artifact.thy ===== *)
theory Boot_Artifact
  imports Recovery_Policy
begin

text \<open>
  PBART1, the envelope every boot artifact travels in
  (\<open>src/runtime/native_boot_artifact.py\<close>): a 96-byte header naming role, version and
  payload digest, then the payload. \<open>pbart_parse\<close>, \<open>parse_bound\<close> and \<open>pbart_encode\<close>
  are \<open>parse\<close>, \<open>parse_bound\<close> and \<open>encode\<close>; \<open>parse_recovery\<close> unwraps a PREC1 policy
  bundle. The pair is an instance of the interface \<open>codec\<close>: one spelling per artifact.
\<close>

definition PBART_MAGIC :: bytes where
  "PBART_MAGIC = [0x50, 0x42, 0x41, 0x52, 0x54, 0x31, 0, 0]"

definition PBART_MAJOR_VERSION :: int where [code_defs]: "PBART_MAJOR_VERSION = 1"
definition PBART_MINOR_VERSION :: int where [code_defs]: "PBART_MINOR_VERSION = 0"
definition PBART_HEADER_BYTES :: nat where [code_defs]: "PBART_HEADER_BYTES = 96"
definition MAX_FILE_BYTES :: nat where [code_defs]: "MAX_FILE_BYTES = 1024 * 1024"
definition MAX_PAYLOAD_BYTES :: nat where [code_defs]: "MAX_PAYLOAD_BYTES = MAX_FILE_BYTES - PBART_HEADER_BYTES"

definition ROLE_INITIAL_SYSTEM :: int where [code_defs]: "ROLE_INITIAL_SYSTEM = 2"
definition ROLE_RECOVERY :: int where [code_defs]: "ROLE_RECOVERY = 3"
definition ROLE_SYMBOLS :: int where [code_defs]: "ROLE_SYMBOLS = 4"
definition ROLE_MICROCODE :: int where [code_defs]: "ROLE_MICROCODE = 5"
definition ROLE_FIRMWARE_MANIFEST :: int where [code_defs]: "ROLE_FIRMWARE_MANIFEST = 6"
definition ROLE_POLICY_BUNDLE :: int where [code_defs]: "ROLE_POLICY_BUNDLE = 7"

definition ROLES :: "int list" where [code_defs]:
  "ROLES = [ROLE_INITIAL_SYSTEM, ROLE_RECOVERY, ROLE_SYMBOLS, ROLE_MICROCODE,
     ROLE_FIRMWARE_MANIFEST, ROLE_POLICY_BUNDLE]"

record artifact =
  art_role :: int
  art_version :: int
  art_payload :: bytes
  art_payload_sha256 :: string
  art_file_sha256 :: string

definition pbart_parse :: "bytes \<Rightarrow> artifact res" where
  "pbart_parse data =
     (let role = rd 4 data 16;
          version = rd 8 data 24;
          payload_bytes = rd 8 data 32;
          expected_bytes = int PBART_HEADER_BYTES + payload_bytes;
          payload = drop PBART_HEADER_BYTES data;
          payload_digest = hex_upper (bslice data 48 80)
      in guarded [
        (length data < PBART_HEADER_BYTES, ''artifact_truncated''),
        (length data > MAX_FILE_BYTES, ''artifact_oversized''),
        (bslice data 0 8 \<noteq> PBART_MAGIC, ''artifact_magic''),
        ((rd 2 data 8, rd 2 data 10) \<noteq> (PBART_MAJOR_VERSION, PBART_MINOR_VERSION), ''artifact_version''),
        (rd 2 data 12 \<noteq> int PBART_HEADER_BYTES, ''artifact_header_size''),
        (rd 2 data 14 \<noteq> 0 \<or> any_byte (bslice data 80 PBART_HEADER_BYTES), ''artifact_reserved''),
        (role \<notin> set ROLES, ''artifact_role''),
        (rd 4 data 20 \<noteq> 0, ''artifact_flags''),
        (version = 0, ''artifact_payload_version''),
        (payload_bytes = 0 \<or> payload_bytes > int MAX_PAYLOAD_BYTES, ''artifact_payload_size''),
        (rd 8 data 40 \<noteq> 0, ''artifact_image_size''),
        (int (length data) < expected_bytes, ''artifact_truncated''),
        (int (length data) > expected_bytes, ''artifact_trailing_bytes''),
        (hex_upper (sha256 payload) \<noteq> payload_digest, ''artifact_digest'')]
       (Inr \<lparr>art_role = role, art_version = version, art_payload = payload,
             art_payload_sha256 = payload_digest, art_file_sha256 = hex_upper (sha256 data)\<rparr>))"

definition parse_bound :: "bytes \<Rightarrow> int \<Rightarrow> int \<Rightarrow> artifact res" where
  "parse_bound data role version =
     rbind (pbart_parse data) (\<lambda>a. guarded [
       (art_role a \<noteq> role, ''artifact_role_binding''),
       (art_version a \<noteq> version, ''artifact_version_binding'')] (Inr a))"

definition pbart_encode :: "int \<Rightarrow> int \<Rightarrow> bytes \<Rightarrow> bytes res" where
  "pbart_encode role version payload =
     guarded [
       (role \<notin> set ROLES, ''artifact_role''),
       (version = 0, ''artifact_payload_version''),
       (payload = [] \<or> length payload > MAX_PAYLOAD_BYTES, ''artifact_payload_size'')]
     (rbind (pack_into (put (zeros (PBART_HEADER_BYTES + length payload)) 0 PBART_MAGIC) 8
         [(2, PBART_MAJOR_VERSION), (2, PBART_MINOR_VERSION), (2, int PBART_HEADER_BYTES), (2, 0),
          (4, role), (4, 0), (8, version), (8, int (length payload)), (8, 0)]) (\<lambda>out.
      let result = put (put out 48 (sha256 payload)) PBART_HEADER_BYTES payload in
      rbind (parse_bound result role version) (\<lambda>_. Inr result)))"

definition parse_recovery :: "bytes \<Rightarrow> (artifact \<times> prec_bundle) res" where
  "parse_recovery data =
     rbind (pbart_parse data) (\<lambda>a.
     guarded [(art_role a \<noteq> ROLE_RECOVERY, ''artifact_role_binding'')]
     (rbind (prec_parse (art_payload a)) (\<lambda>bundle.
      guarded [(art_version a \<noteq> bundle_version bundle, ''artifact_inner_version_binding'')]
      (Inr (a, bundle)))))"


section \<open>The image of an artifact\<close>

definition pbart_fields :: "int \<Rightarrow> int \<Rightarrow> bytes \<Rightarrow> (nat \<times> int) list" where
  "pbart_fields role version payload =
     [(2, 1), (2, 0), (2, 96), (2, 0), (4, role), (4, 0), (8, version), (8, int (length payload)), (8, 0)]"

definition pbart_image :: "int \<Rightarrow> int \<Rightarrow> bytes \<Rightarrow> bytes" where
  "pbart_image role version payload =
     PBART_MAGIC @ packed (pbart_fields role version payload) @ sha256 payload @ zeros 16 @ payload"

definition artifact_ok :: "artifact \<Rightarrow> bool" where
  "artifact_ok a \<longleftrightarrow> art_role a \<in> set ROLES \<and> 1 \<le> art_version a \<and> art_version a < 2 ^ 64 \<and>
     art_payload a \<noteq> [] \<and> length (art_payload a) \<le> MAX_PAYLOAD_BYTES"

definition artifact_of :: "int \<Rightarrow> int \<Rightarrow> bytes \<Rightarrow> artifact" where
  "artifact_of role version payload =
     \<lparr>art_role = role, art_version = version, art_payload = payload,
      art_payload_sha256 = hex_upper (sha256 payload),
      art_file_sha256 = hex_upper (sha256 (pbart_image role version payload))\<rparr>"

lemma length_pbart_magic [simp]: "length PBART_MAGIC = 8"
  by (simp add: PBART_MAGIC_def)

lemma roles_range: "r \<in> set ROLES \<longleftrightarrow> 2 \<le> r \<and> r \<le> 7"
  by (auto simp: code_defs)

lemma payload_limit: "MAX_PAYLOAD_BYTES = 1048480"
  by (simp add: code_defs)

lemma length_pbart_image [simp]: "length (pbart_image r v p) = 96 + length p"
  by (simp add: pbart_image_def pbart_fields_def)

lemma pbart_encode_image:
  assumes "r \<in> set ROLES" "1 \<le> v" "v < 2 ^ 64" "p \<noteq> []" "length p \<le> MAX_PAYLOAD_BYTES"
  shows "pbart_encode r v p = rbind (parse_bound (pbart_image r v p) r v) (\<lambda>_. Inr (pbart_image r v p))"
proof -
  let ?F = "pbart_fields r v p" and ?n = "length p"
  have fit: "list_all (\<lambda>(n, v). fits n v) ?F"
    using assms by (simp add: pbart_fields_def fits_def roles_range payload_limit)
  have a: "put (zeros (PBART_HEADER_BYTES + ?n)) 0 PBART_MAGIC = PBART_MAGIC @ zeros (88 + ?n)"
    using put_append_zeros [of 0 "[]" PBART_MAGIC "96 + ?n"] by (simp add: PBART_HEADER_BYTES_def)
  have b: "pack_into (PBART_MAGIC @ zeros (88 + ?n)) 8 ?F = Inr ((PBART_MAGIC @ packed ?F) @ zeros (48 + ?n))"
    using fit by (subst pack_into_append) (simp_all add: pbart_fields_def)
  let ?A = "PBART_MAGIC @ packed ?F"
  have c: "put (?A @ zeros (48 + ?n)) 48 (sha256 p) = (?A @ sha256 p) @ zeros (16 + ?n)"
    using put_append_zeros [of 48 ?A "sha256 p" "48 + ?n"] by (simp add: pbart_fields_def)
  have "(?A @ sha256 p) @ zeros (16 + ?n) = ((?A @ sha256 p) @ zeros 16) @ zeros ?n"
    by (simp add: zeros_def replicate_add)
  then have d: "put ((?A @ sha256 p) @ zeros (16 + ?n)) 96 p = pbart_image r v p"
    using put_append_zeros [of 96 "(?A @ sha256 p) @ zeros 16" p ?n]
    by (simp add: pbart_fields_def pbart_image_def zeros_def)
  have guards: "guarded [(r \<notin> set ROLES, ''artifact_role''), (v = 0, ''artifact_payload_version''),
       (p = [] \<or> length p > MAX_PAYLOAD_BYTES, ''artifact_payload_size'')] k = k" for k :: "bytes res"
    using assms by (intro guarded_pass) simp
  have fs: "[(2, PBART_MAJOR_VERSION), (2, PBART_MINOR_VERSION), (2, int PBART_HEADER_BYTES), (2, 0),
      (4, r), (4, 0), (8, v), (8, int ?n), (8, 0)] = ?F"
    by (simp add: pbart_fields_def code_defs)
  show ?thesis
    unfolding pbart_encode_def guards fs a b rbind.simps Let_def c
    by (simp only: PBART_HEADER_BYTES_def d)
qed

lemma rd_pbart_image:
  assumes "list_all (\<lambda>(n, v). fits n v) (pbart_fields r v p)" "8 \<le> k" "k + n \<le> 48"
    "fld (pbart_fields r v p) (k - 8) n = Some x"
  shows "rd n (pbart_image r v p) k = x"
proof -
  have len: "length (packed (pbart_fields r v p)) = 40" by (simp add: pbart_fields_def)
  have "rd n (pbart_image r v p) k = rd n (packed (pbart_fields r v p) @ sha256 p @ zeros 16 @ p) (k - 8)"
    using assms(2) by (simp add: pbart_image_def rd_append2)
  also have "\<dots> = rd n (packed (pbart_fields r v p)) (k - 8)"
    using assms(2,3) len by (intro rd_append1) simp
  also have "\<dots> = x" using assms(4,1) by (rule rd_packed)
  finally show ?thesis .
qed

lemma pbart_parse_image:
  assumes ok: "r \<in> set ROLES" "1 \<le> v" "v < 2 ^ 64" "p \<noteq> []" "length p \<le> MAX_PAYLOAD_BYTES"
  shows "pbart_parse (pbart_image r v p) = Inr (artifact_of r v p)"
proof -
  let ?d = "pbart_image r v p"
  have fit: "list_all (\<lambda>(n, v). fits n v) (pbart_fields r v p)"
    using ok by (simp add: pbart_fields_def fits_def roles_range payload_limit)
  have reads: "rd 2 ?d 8 = 1" "rd 2 ?d 10 = 0" "rd 2 ?d 12 = 96" "rd 2 ?d 14 = 0" "rd 4 ?d 16 = r"
    "rd 4 ?d 20 = 0" "rd 8 ?d 24 = v" "rd 8 ?d 32 = int (length p)" "rd 8 ?d 40 = 0"
    by (simp_all add: rd_pbart_image [OF fit] pbart_fields_def)
  have len: "length (packed (pbart_fields r v p)) = 40" by (simp add: pbart_fields_def)
  have parts: "bslice ?d 0 8 = PBART_MAGIC" "bslice ?d 48 80 = sha256 p" "bslice ?d 80 96 = zeros 16"
    "drop 96 ?d = p"
    using len by (simp_all add: pbart_image_def bslice_def)
  have "length p \<le> 1048480" using ok(5) by (simp add: payload_limit)
  then show ?thesis
    using ok unfolding pbart_parse_def Let_def
    by (subst guarded_pass) (simp_all add: reads parts code_defs artifact_of_def)
qed

lemma pbart_parse_spelling:
  assumes "pbart_parse d = Inr a"
  shows "artifact_ok a" "d = pbart_image (art_role a) (art_version a) (art_payload a)"
    "a = artifact_of (art_role a) (art_version a) (art_payload a)"
proof -
  define p where "p = drop 96 d"
  have g: "96 \<le> length d" "bslice d 0 8 = PBART_MAGIC" "rd 2 d 8 = 1" "rd 2 d 10 = 0" "rd 2 d 12 = 96"
    "rd 2 d 14 = 0" "\<not> any_byte (bslice d 80 96)" "rd 4 d 16 \<in> set ROLES" "rd 4 d 20 = 0" "rd 8 d 24 \<noteq> 0"
    "rd 8 d 32 \<noteq> 0" "rd 8 d 32 \<le> 1048480" "rd 8 d 40 = 0" "int (length d) = 96 + rd 8 d 32"
    "sha256 p = bslice d 48 80"
    and a: "a = \<lparr>art_role = rd 4 d 16, art_version = rd 8 d 24, art_payload = p,
      art_payload_sha256 = hex_upper (bslice d 48 80), art_file_sha256 = hex_upper (sha256 d)\<rparr>"
    using assms unfolding pbart_parse_def Let_def guarded_Inr_iff
    by (auto simp: p_def PBART_MAJOR_VERSION_def PBART_MINOR_VERSION_def PBART_HEADER_BYTES_def payload_limit)
  have lp: "int (length p) = rd 8 d 32" using g(1,14) by (simp add: p_def)
  have "rd 8 d 24 < 256 ^ 8" using g(1) by (intro rd_upper) simp
  moreover have "1 \<le> rd 8 d 24" using g(10) rd_nonneg [of 8 d 24] by linarith
  moreover have "p \<noteq> []" using g(11) lp by auto
  ultimately show "artifact_ok a"
    using g(8,12) lp by (simp add: a artifact_ok_def payload_limit)
  have fields: "pbart_fields (rd 4 d 16) (rd 8 d 24) p = read_fields d 8 [2, 2, 2, 2, 4, 4, 8, 8, 8]"
    using g lp by (simp add: pbart_fields_def)
  have "packed (pbart_fields (rd 4 d 16) (rd 8 d 24) p) = bslice d 8 48"
    unfolding fields using g(1) by (subst packed_read_fields) simp_all
  moreover have "zeros 16 = bslice d 80 96"
    using g(1,7) by (simp add: not_any_byte_iff length_slice)
  ultimately have "pbart_image (rd 4 d 16) (rd 8 d 24) p =
      bslice d 0 8 @ bslice d 8 48 @ bslice d 48 80 @ bslice d 80 96 @ drop 96 d"
    using g(2,15) by (simp add: pbart_image_def p_def)
  also have "\<dots> = bslice d 0 96 @ drop 96 d"
    using bslice_add [of 48 80 96 d] bslice_add [of 8 48 96 d] bslice_add [of 0 8 96 d] by simp
  also have "\<dots> = d" by (simp add: bslice_def)
  finally show d: "d = pbart_image (art_role a) (art_version a) (art_payload a)" by (simp add: a)
  then show "a = artifact_of (art_role a) (art_version a) (art_payload a)"
    using g(15) by (simp add: artifact_of_def) (simp add: a)
qed

lemma parse_bound_image:
  assumes "r \<in> set ROLES" "1 \<le> v" "v < 2 ^ 64" "p \<noteq> []" "length p \<le> MAX_PAYLOAD_BYTES"
  shows "parse_bound (pbart_image r v p) r v = Inr (artifact_of r v p)"
  by (simp add: parse_bound_def pbart_parse_image [OF assms] guarded_pass artifact_of_def)

lemma pbart_encode_ok:
  assumes "r \<in> set ROLES" "1 \<le> v" "v < 2 ^ 64" "p \<noteq> []" "length p \<le> MAX_PAYLOAD_BYTES"
  shows "pbart_encode r v p = Inr (pbart_image r v p)"
  by (simp add: pbart_encode_image [OF assms] parse_bound_image [OF assms])

abbreviation encode_artifact :: "artifact \<Rightarrow> bytes res" where
  "encode_artifact a \<equiv> pbart_encode (art_role a) (art_version a) (art_payload a)"

interpretation artifact_codec: codec encode_artifact pbart_parse artifact_ok
  "\<lambda>a. (art_role a, art_version a, art_payload a)"
proof unfold_locales
  fix a assume ok: "artifact_ok a"
  then show "\<exists>d y. encode_artifact a = Inr d \<and> pbart_parse d = Inr y \<and>
      (art_role y, art_version y, art_payload y) = (art_role a, art_version a, art_payload a)"
    by (simp add: artifact_ok_def pbart_encode_ok pbart_parse_image) (simp add: artifact_of_def)
next
  fix d a assume "pbart_parse d = Inr a"
  from pbart_parse_spelling [OF this] show "encode_artifact a = Inr d"
    by (simp add: artifact_ok_def pbart_encode_ok)
qed simp


section \<open>Properties\<close>

text \<open>
  C39. The artifact envelope round-trips: for every role, version and payload in range
  \<open>encode\<close> returns, \<open>parse\<close> gives back role, version and payload, and conversely any
  accepted byte string is exactly the encoding of what was read from it.
\<close>

theorem artifact_roundtrip:
  "(artifact_ok a \<longrightarrow> (\<exists>d y. encode_artifact a = Inr d \<and> pbart_parse d = Inr y \<and>
      art_role y = art_role a \<and> art_version y = art_version a \<and> art_payload y = art_payload a)) \<and>
   (pbart_parse d = Inr a \<longrightarrow> artifact_ok a \<and> encode_artifact a = Inr d)"
proof -
  have "artifact_ok a \<Longrightarrow> \<exists>d y. encode_artifact a = Inr d \<and> pbart_parse d = Inr y \<and>
      art_role y = art_role a \<and> art_version y = art_version a \<and> art_payload y = art_payload a"
    using artifact_codec.dec_enc [of a] by auto
  then show ?thesis using artifact_codec.enc_dec pbart_parse_spelling(1) by blast
qed

definition sample_artifact :: artifact where
  "sample_artifact = artifact_of ROLE_RECOVERY 1 [42]"

lemma sample_artifact_ok: "artifact_ok sample_artifact"
  by (simp add: sample_artifact_def artifact_of_def artifact_ok_def code_defs)

theorem artifact_roundtrip_witness:
  "\<exists>d y. encode_artifact sample_artifact = Inr d \<and> pbart_parse d = Inr y \<and> artifact_ok y \<and> art_payload y = [42]"
proof -
  obtain d y where d: "encode_artifact sample_artifact = Inr d" "pbart_parse d = Inr y"
      "art_payload y = art_payload sample_artifact"
    using artifact_roundtrip [of sample_artifact] sample_artifact_ok by blast
  moreover have "artifact_ok y" using artifact_roundtrip [of y d] d(2) by blast
  ultimately show ?thesis by (auto simp: sample_artifact_def artifact_of_def)
qed

text \<open>
  No substitution of payloads: two accepted artifact files with the same role, version
  and payload are the same file.
\<close>

theorem artifact_file_unique:
  assumes "pbart_parse d = Inr a" "pbart_parse e = Inr b"
    "art_role a = art_role b" "art_version a = art_version b" "art_payload a = art_payload b"
  shows "d = e"
  using artifact_codec.dec_inj [OF assms(1,2)] assms(3-5) by simp

theorem artifact_file_unique_witness:
  "\<exists>d e. pbart_parse d = Inr sample_artifact \<and> pbart_parse e = Inr sample_artifact \<and> d = e"
proof -
  have "pbart_parse (pbart_image ROLE_RECOVERY 1 [42]) = Inr sample_artifact"
    unfolding sample_artifact_def by (rule pbart_parse_image) (simp_all add: code_defs)
  with artifact_file_unique [OF this this] show ?thesis by blast
qed

text \<open>
  C40. Unwrapping a recovery artifact binds the layers: the file is the envelope of the very
  bytes the PREC1 policy was read from, its role is recovery, its version is the policy's,
  and the policy is well formed.
\<close>

theorem parse_recovery_binds:
  assumes "parse_recovery data = Inr (a, b)"
  shows "data = pbart_image ROLE_RECOVERY (bundle_version b) (bundle_raw b) \<and>
    art_role a = ROLE_RECOVERY \<and> art_version a = bundle_version b \<and> art_payload a = bundle_raw b \<and>
    length data = 1088 \<and> prec_bundle_wf b"
proof -
  have a: "pbart_parse data = Inr a" "art_role a = ROLE_RECOVERY" "art_version a = bundle_version b"
    and b: "prec_parse (art_payload a) = Inr b"
    using assms by (auto simp: parse_recovery_def rbind_Inr_iff guarded_Inr_iff)
  have "bundle_raw b = art_payload a" "length (art_payload a) = 992" "prec_bundle_wf b"
    using prec_parse_accepts [OF b] by simp_all
  moreover from pbart_parse_spelling(2) [OF a(1)] a(2,3)
  have "data = pbart_image ROLE_RECOVERY (bundle_version b) (art_payload a)" by simp
  ultimately show ?thesis using a by simp
qed

end
