(* ===== verification/Scheduler.thy ===== *)
theory Scheduler
  imports Prelude
begin

unbundle bit_operations_syntax

text \<open>
  PKSCHED1, the fixed-capacity scheduler model of
  \<open>src/runtime/native_kernel_scheduler.py\<close> (\<open>_Task\<close>, \<open>NeutralSchedulerOracle\<close>,
  \<open>stress_oracle\<close>): four CPUs with a run queue each, eight tasks, dispatch by effective
  priority and then by how often a task of equal priority was passed over. Slots, CPUs and
  counters that only grow from zero are \<open>nat\<close>: every call in the source passes
  non-negative indices. A method that mutates the object returns the new state; an
  exception discards it, as the run it belongs to ends there.
\<close>

definition MAX_CPUS :: nat where [code_defs]: "MAX_CPUS = 4"
definition MAX_TASKS :: nat where [code_defs]: "MAX_TASKS = 8"
definition MAX_BYPASS :: nat where [code_defs]: "MAX_BYPASS = MAX_TASKS - 1"
definition COMPLETE_CPU_MASK :: int where [code_defs]: "COMPLETE_CPU_MASK = 2 ^ MAX_CPUS - 1"
definition U64_MASK :: int where [code_defs]: "U64_MASK = 2 ^ 64 - 1"
definition FNV_OFFSET :: int where [code_defs]: "FNV_OFFSET = 0xCBF29CE484222325"
definition FNV_PRIME :: int where [code_defs]: "FNV_PRIME = 0x00000100000001B3"

record task =
  t_slot :: nat
  t_generation :: int
  t_state :: int
  base_priority :: int
  effective_priority :: int
  affinity :: int
  assigned :: "nat option"
  queued :: "nat option"
  wake_reason :: int
  wait_kind :: int
  bypass :: nat
  t_dispatches :: nat
  t_runtime :: int

record scheduler =
  tasks :: "task option list"
  queues :: "nat list list"
  current :: "nat option list"
  sequence :: nat
  dispatches :: nat
  migrations :: nat

definition sched_init :: scheduler where
  "sched_init = \<lparr>tasks = replicate MAX_TASKS None, queues = replicate MAX_CPUS [],
     current = replicate MAX_CPUS None, sequence = 0, dispatches = 0, migrations = 0\<rparr>"

definition get_task :: "scheduler \<Rightarrow> nat \<Rightarrow> task res" where
  "get_task s slot =
     (if slot < length (tasks s) then
        case tasks s ! slot of None \<Rightarrow> Inl (Fail ''oracle task missing'') | Some t \<Rightarrow> Inr t
      else Inl IndexError)"

definition set_task :: "scheduler \<Rightarrow> nat \<Rightarrow> task \<Rightarrow> scheduler" where
  "set_task s slot t = s\<lparr>tasks := (tasks s)[slot := Some t]\<rparr>"

definition new_task :: "nat \<Rightarrow> int \<Rightarrow> task" where
  "new_task slot priority = \<lparr>t_slot = slot, t_generation = 1, t_state = 0, base_priority = priority,
     effective_priority = priority, affinity = COMPLETE_CPU_MASK, assigned = None, queued = None,
     wake_reason = 0, wait_kind = 0, bypass = 0, t_dispatches = 0, t_runtime = 0\<rparr>"

definition create_task :: "nat \<Rightarrow> int \<Rightarrow> scheduler \<Rightarrow> scheduler res" where
  "create_task slot priority s =
     guarded [
       (\<not> (slot < MAX_TASKS \<and> tasks s ! slot = None), ''oracle task identity''),
       (\<not> (1 \<le> priority \<and> priority \<le> 31), ''oracle priority'')]
     (Inr ((set_task s slot (new_task slot priority))\<lparr>sequence := sequence s + 1\<rparr>))"

definition push_queue :: "nat \<Rightarrow> nat \<Rightarrow> scheduler \<Rightarrow> scheduler res" where
  "push_queue cpu slot s =
     (if cpu < length (queues s) then Inr (s\<lparr>queues := (queues s)[cpu := queues s ! cpu @ [slot]]\<rparr>)
      else Inl IndexError)"

definition activate :: "nat \<Rightarrow> nat \<Rightarrow> scheduler \<Rightarrow> scheduler res" where
  "activate slot cpu s =
     rbind (get_task s slot) (\<lambda>t.
     guarded [(\<not> (t_state t = 0 \<and> affinity t AND 2 ^ cpu \<noteq> 0), ''oracle activation'')]
     (rbind (push_queue cpu slot
         (set_task s slot (t\<lparr>t_state := 1, assigned := Some cpu, queued := Some cpu\<rparr>))) (\<lambda>s.
      Inr (s\<lparr>sequence := sequence s + 1\<rparr>))))"

text \<open>The selection loop of \<open>dispatch\<close>.\<close>

fun select_index :: "scheduler \<Rightarrow> nat list \<Rightarrow> nat list \<Rightarrow> nat \<Rightarrow> nat res" where
  "select_index s queue [] selected = Inr selected"
| "select_index s queue (index # rest) selected =
     rbind (get_task s (queue ! index)) (\<lambda>candidate.
     rbind (get_task s (queue ! selected)) (\<lambda>incumbent.
     select_index s queue rest
       (if effective_priority candidate > effective_priority incumbent \<or>
           (effective_priority candidate = effective_priority incumbent \<and> bypass candidate > bypass incumbent)
        then index else selected)))"

text \<open>The aging loop: tasks of the dispatched priority left in the queue were passed over once more.\<close>

definition bump :: "int \<Rightarrow> nat \<Rightarrow> scheduler \<Rightarrow> scheduler res" where
  "bump priority other_slot s =
     rbind (get_task s other_slot) (\<lambda>t.
     if effective_priority t = priority then
       guarded [(\<not> bypass t + 1 \<le> MAX_BYPASS, ''oracle bypass overflow'')]
       (Inr (set_task s other_slot (t\<lparr>bypass := bypass t + 1\<rparr>)))
     else Inr s)"

definition dispatch :: "nat \<Rightarrow> scheduler \<Rightarrow> (bool \<times> scheduler) res" where
  "dispatch cpu s =
     (if \<not> cpu < length (current s) \<or> \<not> cpu < length (queues s) then Inl IndexError
      else if current s ! cpu \<noteq> None \<or> queues s ! cpu = [] then Inr (False, s)
      else let queue = queues s ! cpu in
        rbind (select_index s queue [1..<length queue] 0) (\<lambda>i.
        let slot = queue ! i; rest = take i queue @ drop (Suc i) queue in
        rbind (get_task s slot) (\<lambda>t.
        rbind (rfold (bump (effective_priority t)) rest (s\<lparr>queues := (queues s)[cpu := rest]\<rparr>)) (\<lambda>s.
        let s = set_task s slot (t\<lparr>t_state := 2, queued := None, assigned := Some cpu, bypass := 0,
              t_dispatches := t_dispatches t + 1\<rparr>)
        in Inr (True, s\<lparr>current := (current s)[cpu := Some slot], dispatches := dispatches s + 1,
              sequence := sequence s + 1\<rparr>)))))"

definition account :: "nat \<Rightarrow> int \<Rightarrow> scheduler \<Rightarrow> (bool \<times> scheduler) res" where
  "account cpu ticks s =
     (if \<not> cpu < length (current s) then Inl IndexError
      else case current s ! cpu of None \<Rightarrow> Inr (False, s)
      | Some slot \<Rightarrow>
          if ticks \<le> 0 then Inr (False, s)
          else rbind (get_task s slot) (\<lambda>t.
            Inr (True, (set_task s slot (t\<lparr>t_runtime := t_runtime t + ticks\<rparr>))\<lparr>sequence := sequence s + 1\<rparr>)))"

definition yield_current :: "nat \<Rightarrow> scheduler \<Rightarrow> (bool \<times> scheduler) res" where
  "yield_current cpu s =
     (if \<not> cpu < length (current s) then Inl IndexError
      else case current s ! cpu of None \<Rightarrow> Inr (False, s)
      | Some slot \<Rightarrow>
          rbind (get_task s slot) (\<lambda>t.
          rbind (push_queue cpu slot
            (set_task (s\<lparr>current := (current s)[cpu := None]\<rparr>) slot
               (t\<lparr>t_state := 1, assigned := Some cpu, queued := Some cpu\<rparr>))) (\<lambda>s.
          Inr (True, s\<lparr>sequence := sequence s + 1\<rparr>))))"

definition migrate :: "nat \<Rightarrow> nat \<Rightarrow> scheduler \<Rightarrow> (bool \<times> scheduler) res" where
  "migrate slot target s =
     rbind (get_task s slot) (\<lambda>t.
     if t_state t \<noteq> 1 \<or> affinity t AND 2 ^ target = 0 \<or> queued t = Some target then Inr (False, s)
     else case queued t of None \<Rightarrow> Inl (Fail ''oracle queued CPU missing'')
       | Some source \<Rightarrow>
           if \<not> source < length (queues s) then Inl IndexError
           else if slot \<notin> set (queues s ! source) then Inl (Fail ''oracle queue ownership'')
           else rbind (push_queue target slot
               (s\<lparr>queues := (queues s)[source := remove1 slot (queues s ! source)]\<rparr>)) (\<lambda>s.
             Inr (True, (set_task s slot (t\<lparr>queued := Some target, assigned := Some target\<rparr>))
               \<lparr>migrations := migrations s + 1, sequence := sequence s + 1\<rparr>)))"


section \<open>Validation\<close>

text \<open>The counters \<open>seen\<close> and \<open>running\<close> of \<open>validate\<close> are lists indexed by slot.\<close>

definition validate_queued :: "scheduler \<Rightarrow> nat \<Rightarrow> nat \<Rightarrow> nat list \<Rightarrow> nat list res" where
  "validate_queued s cpu slot seen =
     rbind (get_task s slot) (\<lambda>t. guarded [
       (\<not> (t_state t = 1 \<and> queued t = Some cpu \<and> assigned t = Some cpu), ''oracle runnable''),
       (\<not> (affinity t AND 2 ^ cpu \<noteq> 0 \<and> bypass t \<le> MAX_BYPASS), ''oracle placement'')]
     (Inr (seen[slot := seen ! slot + 1])))"

definition validate_cpu :: "scheduler \<Rightarrow> nat \<times> nat list \<Rightarrow> nat list \<times> nat list \<Rightarrow> (nat list \<times> nat list) res" where
  "validate_cpu s = (\<lambda>(cpu, queue) (seen, running).
     guarded [(\<not> (length queue \<le> MAX_TASKS \<and> length queue = card (set queue)), ''oracle queue shape'')]
     (rbind (rfold (validate_queued s cpu) queue seen) (\<lambda>seen.
      if \<not> cpu < length (current s) then Inl IndexError
      else case current s ! cpu of None \<Rightarrow> Inr (seen, running)
      | Some slot \<Rightarrow>
          rbind (get_task s slot) (\<lambda>t.
          guarded [(\<not> (t_state t = 2 \<and> assigned t = Some cpu \<and> queued t = None), ''oracle running'')]
          (Inr (seen, running[slot := running ! slot + 1]))))))"

definition validate_task :: "nat list \<Rightarrow> nat list \<Rightarrow> nat \<times> task option \<Rightarrow> unit \<Rightarrow> unit res" where
  "validate_task seen running = (\<lambda>(slot, entry) _.
     case entry of None \<Rightarrow> Inl (Fail ''oracle task missing'')
     | Some t \<Rightarrow> guarded [
         ((t_state t = 1) \<noteq> (seen ! slot = 1), ''oracle runnable count''),
         ((t_state t = 2) \<noteq> (running ! slot = 1), ''oracle running count'')] (Inr ()))"

definition validate :: "scheduler \<Rightarrow> unit res" where
  "validate s =
     rbind (rfold (validate_cpu s) (enumerate 0 (queues s))
        (replicate MAX_TASKS 0, replicate MAX_TASKS 0)) (\<lambda>(seen, running).
     rfold (validate_task seen running) (enumerate 0 (tasks s)) ())"


section \<open>The receipt and the stress run\<close>

definition fnv_byte :: "byte \<Rightarrow> int \<Rightarrow> int" where
  "fnv_byte b checksum = ((checksum XOR uint b) * FNV_PRIME) AND U64_MASK"

definition fnv_value :: "int \<Rightarrow> int \<Rightarrow> int res" where
  "fnv_value v checksum = rbind (to_bytes8 v) (\<lambda>bs. Inr (fold fnv_byte bs checksum))"

definition task_values :: "task \<Rightarrow> int list" where
  "task_values t = [int (t_slot t), t_generation t, t_state t, base_priority t, effective_priority t,
     affinity t, (case assigned t of None \<Rightarrow> 0 | Some cpu \<Rightarrow> int cpu + 1), wake_reason t, wait_kind t,
     int (bypass t), int (t_dispatches t), t_runtime t]"

record sched_receipt =
  r_sequence :: nat
  r_tasks :: nat
  r_runnable :: nat
  r_running :: nat
  r_blocked :: nat
  r_dead :: nat
  r_dispatches :: nat
  r_migrations :: nat
  r_wakes :: nat
  r_teardowns :: nat
  r_inheritance :: nat
  r_checksum :: int
  r_task_dispatches :: "nat list"
  r_runtime_ticks :: "int list"

definition receipt_of :: "scheduler \<Rightarrow> sched_receipt res" where
  "receipt_of s =
     rbind (rfold (\<lambda>slot (checksum, ds, rt).
         rbind (get_task s slot) (\<lambda>t.
         rbind (rfold fnv_value (task_values t) checksum) (\<lambda>checksum.
         Inr (checksum, ds @ [t_dispatches t], rt @ [t_runtime t])))) [0..<MAX_TASKS] (FNV_OFFSET, [], []))
       (\<lambda>(checksum, ds, rt).
     rbind (rmap (\<lambda>slot. rbind (get_task s slot) (\<lambda>t. Inr (t_state t))) [0..<MAX_TASKS]) (\<lambda>states.
     Inr \<lparr>r_sequence = sequence s, r_tasks = MAX_TASKS, r_runnable = count_list states 1, r_running = count_list states 2,
       r_blocked = count_list states 3, r_dead = count_list states 4, r_dispatches = dispatches s,
       r_migrations = migrations s, r_wakes = 0, r_teardowns = 0, r_inheritance = 0,
       r_checksum = checksum, r_task_dispatches = ds, r_runtime_ticks = rt\<rparr>))"

definition xorshift :: "int \<Rightarrow> int" where
  "xorshift r0 =
     (let r = (r0 XOR (push_bit 13 r0 AND U64_MASK)) AND U64_MASK;
          r = (r XOR drop_bit 7 r) AND U64_MASK
      in (r XOR (push_bit 17 r AND U64_MASK)) AND U64_MASK)"

definition stress_cpu :: "int \<Rightarrow> nat \<Rightarrow> scheduler \<Rightarrow> scheduler res" where
  "stress_cpu random cpu s =
     (if \<not> cpu < length (current s) then Inl IndexError
      else if current s ! cpu = None then rbind (dispatch cpu s) (\<lambda>(_, s). Inr s)
      else if random AND 3 = 0 then
        rbind (account cpu 1 s) (\<lambda>(_, s). rbind (yield_current cpu s) (\<lambda>(_, s). Inr s))
      else if random AND 7 = 1 then rbind (account cpu 2 s) (\<lambda>(_, s). Inr s)
      else rbind (yield_current cpu s) (\<lambda>(_, s). Inr s))"

definition stress_step :: "int \<Rightarrow> scheduler \<Rightarrow> scheduler res" where
  "stress_step random s =
     rbind (stress_cpu random (nat (random mod int MAX_CPUS)) s) (\<lambda>s.
     let slot = (push_bit 9 random OR drop_bit 55 random) AND U64_MASK;
         target = (drop_bit 11 random OR push_bit 53 random) AND U64_MASK
     in rbind (migrate (nat (slot mod int MAX_TASKS)) (nat (target mod int MAX_CPUS)) s) (\<lambda>(_, s).
        rbind (validate s) (\<lambda>_. Inr s)))"

fun stress_loop :: "nat \<Rightarrow> int \<Rightarrow> scheduler \<Rightarrow> scheduler res" where
  "stress_loop 0 random s = Inr s"
| "stress_loop (Suc n) random s =
     (let random = xorshift random in rbind (stress_step random s) (stress_loop n random))"

definition stress_setup :: "scheduler res" where
  "stress_setup =
     rfold (\<lambda>slot s. rbind (create_task slot (int (slot mod MAX_CPUS) + 8) s) (activate slot (slot mod MAX_CPUS)))
       [0..<MAX_TASKS] sched_init"

definition stress_oracle :: "sched_receipt res" where
  "stress_oracle =
     rbind stress_setup (\<lambda>s. rbind (stress_loop 4096 0x5A1791D36C8E204F s) receipt_of)"


section \<open>Lookups\<close>

lemma get_task_Inr_iff: "get_task s slot = Inr t \<longleftrightarrow> slot < length (tasks s) \<and> tasks s ! slot = Some t"
  by (auto simp: get_task_def split: option.splits)

lemma get_set_task:
  "slot < length (tasks s) \<Longrightarrow> get_task (set_task s slot t) x = (if x = slot then Inr t else get_task s x)"
  by (simp add: get_task_def set_task_def)

lemma set_task_frame [simp]:
  "queues (set_task s slot t) = queues s" "current (set_task s slot t) = current s"
  "sequence (set_task s slot t) = sequence s" "dispatches (set_task s slot t) = dispatches s"
  "migrations (set_task s slot t) = migrations s" "length (tasks (set_task s slot t)) = length (tasks s)"
  by (simp_all add: set_task_def)

lemma get_task_frame [simp]:
  "get_task (s\<lparr>queues := q\<rparr>) x = get_task s x" "get_task (s\<lparr>current := c\<rparr>) x = get_task s x"
  "get_task (s\<lparr>sequence := n\<rparr>) x = get_task s x" "get_task (s\<lparr>dispatches := n\<rparr>) x = get_task s x"
  "get_task (s\<lparr>migrations := n\<rparr>) x = get_task s x"
  by (simp_all add: get_task_def)

lemma complete_mask_bit: "COMPLETE_CPU_MASK AND 2 ^ cpu = 0 \<longleftrightarrow> \<not> cpu < 4"
proof -
  have m: "COMPLETE_CPU_MASK = mask 4" by (simp add: code_defs mask_eq_exp_minus_1)
  show ?thesis unfolding m by (simp only: and_exp_eq_0_iff_not_bit bit_mask_iff) simp
qed


section \<open>The invariant\<close>

text \<open>
  \<open>task_ok\<close> says where a task is: fresh, in exactly the queue it names, or current on the
  CPU it is assigned to. \<open>aged s p k\<close> is the set of tasks of priority \<open>p\<close> that were passed
  over at least \<open>k\<close> times; the invariant bounds its size by \<open>8 - k\<close>, so no task is passed
  over more than seven times.
\<close>

definition task_ok :: "scheduler \<Rightarrow> nat \<Rightarrow> task \<Rightarrow> bool" where
  "task_ok s slot t \<longleftrightarrow>
     t_slot t = slot \<and> t_generation t = 1 \<and> affinity t = COMPLETE_CPU_MASK \<and>
     1 \<le> effective_priority t \<and> effective_priority t \<le> 31 \<and> base_priority t = effective_priority t \<and>
     wake_reason t = 0 \<and> wait_kind t = 0 \<and> (t_state t \<noteq> 1 \<longrightarrow> bypass t = 0) \<and>
     (case assigned t of None \<Rightarrow> True | Some cpu \<Rightarrow> cpu < 4) \<and>
     (t_state t = 0 \<or>
      t_state t = 1 \<and> (\<exists>cpu<4. queued t = Some cpu \<and> slot \<in> set (queues s ! cpu)) \<or>
      t_state t = 2 \<and> (\<exists>cpu<4. assigned t = Some cpu \<and> current s ! cpu = Some slot))"

definition aged :: "scheduler \<Rightarrow> int \<Rightarrow> nat \<Rightarrow> nat set" where
  "aged s p k = {slot. \<exists>t. get_task s slot = Inr t \<and> effective_priority t = p \<and> k \<le> bypass t}"

definition sched_shape :: "scheduler \<Rightarrow> bool" where
  "sched_shape s \<longleftrightarrow>
     length (tasks s) = 8 \<and> length (queues s) = 4 \<and> length (current s) = 4 \<and>
     (\<forall>cpu<4. distinct (queues s ! cpu)) \<and>
     (\<forall>cpu<4. \<forall>slot \<in> set (queues s ! cpu). \<exists>t. get_task s slot = Inr t \<and> t_state t = 1 \<and>
        queued t = Some cpu \<and> assigned t = Some cpu) \<and>
     (\<forall>cpu<4. \<forall>slot. current s ! cpu = Some slot \<longrightarrow> (\<exists>t. get_task s slot = Inr t \<and> t_state t = 2 \<and>
        assigned t = Some cpu \<and> queued t = None)) \<and>
     (\<forall>slot t. get_task s slot = Inr t \<longrightarrow> task_ok s slot t)"

definition sched_inv :: "scheduler \<Rightarrow> bool" where
  "sched_inv s \<longleftrightarrow> sched_shape s \<and> (\<forall>p. \<forall>k\<ge>1. card (aged s p k) \<le> 8 - k)"

lemma aged_subset: "length (tasks s) = 8 \<Longrightarrow> aged s p k \<subseteq> {..<8}"
  by (auto simp: aged_def get_task_Inr_iff)

lemma finite_aged: "length (tasks s) = 8 \<Longrightarrow> finite (aged s p k)"
  by (rule finite_subset [OF aged_subset]) simp_all

lemma card_aged: "sched_inv s \<Longrightarrow> card (aged s p k) \<le> 8 - k"
proof -
  assume inv: "sched_inv s"
  show ?thesis
  proof (cases "k = 0")
    case True
    have "card (aged s p k) \<le> card {..<8::nat}"
      using inv by (intro card_mono aged_subset) (simp_all add: sched_inv_def sched_shape_def)
    with True show ?thesis by simp
  next
    case False
    with inv show ?thesis by (simp add: sched_inv_def)
  qed
qed

text \<open>No task is passed over more than \<open>MAX_BYPASS\<close> times.\<close>

lemma bypass_bound:
  assumes "sched_inv s" "get_task s slot = Inr t"
  shows "bypass t \<le> MAX_BYPASS"
proof -
  have "slot \<in> aged s (effective_priority t) (bypass t)" using assms(2) by (simp add: aged_def)
  moreover have "finite (aged s (effective_priority t) (bypass t))"
    using assms(1) by (intro finite_aged) (simp add: sched_inv_def sched_shape_def)
  ultimately have "0 < card (aged s (effective_priority t) (bypass t))" by (auto simp: card_gt_0_iff)
  with card_aged [OF assms(1), of "effective_priority t" "bypass t"] show ?thesis by (simp add: code_defs)
qed

text \<open>Two tasks of one priority: the one passed over less has room for one more.\<close>

lemma bypass_room:
  assumes "sched_inv s" "get_task s a = Inr t" "get_task s b = Inr u" "a \<noteq> b"
    "effective_priority t = effective_priority u" "bypass t \<le> bypass u"
  shows "bypass t + 1 \<le> MAX_BYPASS"
proof -
  let ?A = "aged s (effective_priority t) (bypass t)"
  have "{a, b} \<subseteq> ?A" using assms(2-6) by (auto simp: aged_def)
  moreover have "finite ?A" using assms(1) by (intro finite_aged) (simp add: sched_inv_def sched_shape_def)
  ultimately have "card {a, b} \<le> card ?A" by (intro card_mono)
  with assms(4) card_aged [OF assms(1), of "effective_priority t" "bypass t"] show ?thesis
    by (simp add: code_defs)
qed

lemma aged_mono_inv:
  assumes "sched_inv s" "sched_shape s'" "\<And>p k. 1 \<le> k \<Longrightarrow> aged s' p k \<subseteq> aged s p k"
  shows "sched_inv s'"
proof -
  have "card (aged s' p k) \<le> 8 - k" if "1 \<le> k" for p k
  proof -
    have "card (aged s' p k) \<le> card (aged s p k)"
      using assms(1) assms(3) [OF that] by (intro card_mono finite_aged) (simp_all add: sched_inv_def sched_shape_def)
    with card_aged [OF assms(1), of p k] show ?thesis by simp
  qed
  with assms(2) show ?thesis by (simp add: sched_inv_def)
qed


section \<open>The operations keep the invariant\<close>

lemma sched_init_inv: "sched_inv sched_init"
proof -
  have none: "get_task sched_init x \<noteq> Inr t" for x t
    by (simp add: get_task_Inr_iff sched_init_def)
  then have "aged sched_init p k = {}" for p k by (simp add: aged_def)
  moreover have "sched_shape sched_init"
    using none by (simp add: sched_shape_def) (simp add: sched_init_def code_defs)
  ultimately show ?thesis by (simp add: sched_inv_def)
qed

lemma shape_task_slot: "sched_shape s \<Longrightarrow> get_task s slot = Inr t \<Longrightarrow> slot < 8"
  by (simp add: sched_shape_def get_task_Inr_iff)

lemma shape_lengths:
  "sched_shape s \<Longrightarrow> length (tasks s) = 8" "sched_shape s \<Longrightarrow> length (queues s) = 4"
  "sched_shape s \<Longrightarrow> length (current s) = 4"
  by (simp_all add: sched_shape_def)

lemma shape_queue:
  assumes "sched_shape s" "cpu < 4" "slot \<in> set (queues s ! cpu)"
  obtains t where "get_task s slot = Inr t" "t_state t = 1" "queued t = Some cpu" "assigned t = Some cpu"
  using assms unfolding sched_shape_def by blast

lemma shape_current:
  assumes "sched_shape s" "cpu < 4" "current s ! cpu = Some slot"
  obtains t where "get_task s slot = Inr t" "t_state t = 2" "assigned t = Some cpu" "queued t = None"
  using assms unfolding sched_shape_def by blast

lemma shape_task: "sched_shape s \<Longrightarrow> get_task s slot = Inr t \<Longrightarrow> task_ok s slot t"
  by (simp add: sched_shape_def)

lemma sched_shapeI:
  assumes "length (tasks s) = 8" "length (queues s) = 4" "length (current s) = 4"
    "\<And>cpu. cpu < 4 \<Longrightarrow> distinct (queues s ! cpu)"
    "\<And>cpu slot. cpu < 4 \<Longrightarrow> slot \<in> set (queues s ! cpu) \<Longrightarrow>
       \<exists>t. get_task s slot = Inr t \<and> t_state t = 1 \<and> queued t = Some cpu \<and> assigned t = Some cpu"
    "\<And>cpu slot. cpu < 4 \<Longrightarrow> current s ! cpu = Some slot \<Longrightarrow>
       \<exists>t. get_task s slot = Inr t \<and> t_state t = 2 \<and> assigned t = Some cpu \<and> queued t = None"
    "\<And>slot t. get_task s slot = Inr t \<Longrightarrow> task_ok s slot t"
  shows "sched_shape s"
  using assms unfolding sched_shape_def by blast

lemma create_task_inv:
  assumes inv: "sched_inv s" and r: "create_task slot priority s = Inr s'"
  shows "sched_inv s'"
proof -
  have sh: "sched_shape s" using inv by (simp add: sched_inv_def)
  have g: "slot < 8" "tasks s ! slot = None" "1 \<le> priority" "priority \<le> 31"
    and s': "s' = (set_task s slot (new_task slot priority))\<lparr>sequence := sequence s + 1\<rparr>"
    using r by (simp_all add: create_task_def guarded_Inr_iff MAX_TASKS_def)
  have get: "get_task s' x = (if x = slot then Inr (new_task slot priority) else get_task s x)" for x
    using g(1) shape_lengths(1) [OF sh] by (simp add: s' get_set_task)
  have fresh: "get_task s slot \<noteq> Inr t" for t using g(2) by (simp add: get_task_Inr_iff)
  have q: "queues s' = queues s" "current s' = current s" "length (tasks s') = length (tasks s)"
    by (simp_all add: s')
  show ?thesis
  proof (rule aged_mono_inv [OF inv])
    show "aged s' p k \<subseteq> aged s p k" if "1 \<le> k" for p k
      using that by (auto simp: aged_def get new_task_def split: if_splits)
    show "sched_shape s'"
    proof (rule sched_shapeI; (unfold q)?)
      show "length (tasks s) = 8" "length (queues s) = 4" "length (current s) = 4"
        using shape_lengths [OF sh] by simp_all
      show "distinct (queues s ! cpu)" if "cpu < 4" for cpu using sh that by (simp add: sched_shape_def)
      show "\<exists>t. get_task s' x = Inr t \<and> t_state t = 1 \<and> queued t = Some cpu \<and> assigned t = Some cpu"
        if "cpu < 4" "x \<in> set (queues s ! cpu)" for cpu x
        using shape_queue [OF sh that] fresh by (metis get)
      show "\<exists>t. get_task s' x = Inr t \<and> t_state t = 2 \<and> assigned t = Some cpu \<and> queued t = None"
        if "cpu < 4" "current s ! cpu = Some x" for cpu x
        using shape_current [OF sh that] fresh by (metis get)
      show "task_ok s' x t" if "get_task s' x = Inr t" for x t
      proof (cases "x = slot")
        case True
        then show ?thesis using that g by (auto simp: get task_ok_def new_task_def)
      next
        case False
        then show ?thesis using that shape_task [OF sh, of x t] by (simp add: get task_ok_def q)
      qed
    qed
  qed
qed


text \<open>
  Putting a task at the end of one run queue, what \<open>activate\<close>, \<open>yield_current\<close> and
  \<open>migrate\<close> share: afterwards the task is in that queue and no other, is current nowhere
  and names the queue's CPU; every other task stays where it was.
\<close>

lemma requeued_inv:
  assumes inv: "sched_inv s0" and cpu: "cpu < 4" and get0: "get_task s0 slot = Inr t"
    and get: "\<And>x. get_task s x =
      (if x = slot then Inr (t\<lparr>t_state := 1, assigned := Some cpu, queued := Some cpu\<rparr>) else get_task s0 x)"
    and lens: "length (tasks s) = 8" "length (queues s) = 4" "length (current s) = 4"
    and dist: "\<And>c. c < 4 \<Longrightarrow> distinct (queues s ! c)"
    and mem: "\<And>c x. c < 4 \<Longrightarrow> x \<in> set (queues s ! c) \<longleftrightarrow> (if x = slot then c = cpu else x \<in> set (queues s0 ! c))"
    and cur: "\<And>c x. c < 4 \<Longrightarrow> current s ! c = Some x \<longleftrightarrow> current s0 ! c = Some x \<and> x \<noteq> slot"
  shows "sched_inv s"
proof (rule aged_mono_inv [OF inv])
  have sh: "sched_shape s0" using inv by (simp add: sched_inv_def)
  show "aged s p k \<subseteq> aged s0 p k" for p k
    using get0 by (auto simp: aged_def get split: if_splits)
  show "sched_shape s"
  proof (rule sched_shapeI [OF lens dist])
    show "\<exists>u. get_task s x = Inr u \<and> t_state u = 1 \<and> queued u = Some c \<and> assigned u = Some c"
      if c: "c < 4" and x: "x \<in> set (queues s ! c)" for c x
    proof (cases "x = slot")
      case True
      then show ?thesis using x mem [OF c] by (simp add: get)
    next
      case False
      then have "x \<in> set (queues s0 ! c)" using x mem [OF c] by simp
      then show ?thesis by (rule shape_queue [OF sh c]) (use False in \<open>auto simp: get\<close>)
    qed
    show "\<exists>u. get_task s x = Inr u \<and> t_state u = 2 \<and> assigned u = Some c \<and> queued u = None"
      if c: "c < 4" and x: "current s ! c = Some x" for c x
    proof -
      have a: "current s0 ! c = Some x" "x \<noteq> slot" using cur [OF c, of x] x by simp_all
      show ?thesis by (rule shape_current [OF sh c a(1)]) (use a(2) in \<open>auto simp: get\<close>)
    qed
    show "task_ok s x u" if u: "get_task s x = Inr u" for x u
    proof (cases "x = slot")
      case True
      then show ?thesis using u cpu mem [OF cpu, of slot] shape_task [OF sh get0] by (auto simp: get task_ok_def)
    next
      case False
      then have "task_ok s0 x u" using u shape_task [OF sh] by (simp add: get)
      moreover have "x \<in> set (queues s0 ! c) \<Longrightarrow> x \<in> set (queues s ! c)" if "c < 4" for c
        using that False mem by simp
      moreover have "current s0 ! c = Some x \<Longrightarrow> current s ! c = Some x" if "c < 4" for c
        using cur [OF that] False by simp
      ultimately show ?thesis unfolding task_ok_def by blast
    qed
  qed
qed

lemma queue_owner:
  assumes sh: "sched_shape s" and t: "get_task s slot = Inr t" and c: "c < 4"
  shows "slot \<in> set (queues s ! c) \<longleftrightarrow> t_state t = 1 \<and> queued t = Some c"
proof
  assume "slot \<in> set (queues s ! c)"
  then obtain u where "get_task s slot = Inr u" "t_state u = 1" "queued u = Some c"
    by (rule shape_queue [OF sh c])
  with t show "t_state t = 1 \<and> queued t = Some c" by simp
next
  assume "t_state t = 1 \<and> queued t = Some c"
  with shape_task [OF sh t] show "slot \<in> set (queues s ! c)" by (auto simp: task_ok_def)
qed

lemma current_owner:
  assumes sh: "sched_shape s" and t: "get_task s slot = Inr t" and c: "c < 4"
  shows "current s ! c = Some slot \<longleftrightarrow> t_state t = 2 \<and> assigned t = Some c"
proof
  assume "current s ! c = Some slot"
  then obtain u where "get_task s slot = Inr u" "t_state u = 2" "assigned u = Some c"
    by (rule shape_current [OF sh c])
  with t show "t_state t = 2 \<and> assigned t = Some c" by simp
next
  assume "t_state t = 2 \<and> assigned t = Some c"
  with shape_task [OF sh t] show "current s ! c = Some slot" by (auto simp: task_ok_def)
qed

definition enqueued :: "nat \<Rightarrow> nat \<Rightarrow> task \<Rightarrow> scheduler \<Rightarrow> scheduler" where
  "enqueued cpu slot t s = (set_task s slot (t\<lparr>t_state := 1, assigned := Some cpu, queued := Some cpu\<rparr>))
     \<lparr>queues := (queues s)[cpu := queues s ! cpu @ [slot]], sequence := sequence s + 1\<rparr>"

lemma enqueued_inv:
  assumes inv: "sched_inv s0" and cpu: "cpu < 4" and get0: "get_task s0 slot = Inr t" and idle: "t_state t \<noteq> 1"
    and s: "tasks s = tasks s0" "queues s = queues s0" "length (current s) = 4"
    and cur: "\<And>c x. c < 4 \<Longrightarrow> current s ! c = Some x \<longleftrightarrow> current s0 ! c = Some x \<and> x \<noteq> slot"
  shows "sched_inv (enqueued cpu slot t s)"
proof -
  have sh: "sched_shape s0" using inv by (simp add: sched_inv_def)
  note lens = shape_lengths [OF sh]
  have nq: "slot \<notin> set (queues s0 ! c)" if "c < 4" for c
    using queue_owner [OF sh get0 that] idle by simp
  have dist: "distinct (queues s0 ! c)" if "c < 4" for c using sh that by (simp add: sched_shape_def)
  show ?thesis
  proof (rule requeued_inv [OF inv cpu get0])
    show "get_task (enqueued cpu slot t s) x =
      (if x = slot then Inr (t\<lparr>t_state := 1, assigned := Some cpu, queued := Some cpu\<rparr>) else get_task s0 x)" for x
      using get0 by (simp add: enqueued_def get_set_task s get_task_Inr_iff) (simp add: get_task_def s)
    show "distinct (queues (enqueued cpu slot t s) ! c)" if "c < 4" for c
      using that nq [OF that] dist [OF that] lens by (cases "c = cpu") (simp_all add: enqueued_def s)
    show "x \<in> set (queues (enqueued cpu slot t s) ! c) \<longleftrightarrow> (if x = slot then c = cpu else x \<in> set (queues s0 ! c))"
      if "c < 4" for c x
      using that nq [OF that] lens by (cases "c = cpu") (auto simp: enqueued_def s)
  qed (use lens s cur in \<open>simp_all add: enqueued_def\<close>)
qed

lemma activate_inv:
  assumes inv: "sched_inv s" and r: "activate slot cpu s = Inr s'"
  shows "sched_inv s'"
proof -
  have sh: "sched_shape s" using inv by (simp add: sched_inv_def)
  obtain t u where t: "get_task s slot = Inr t" "t_state t = 0" "affinity t AND 2 ^ cpu \<noteq> 0"
    and u: "push_queue cpu slot (set_task s slot (t\<lparr>t_state := 1, assigned := Some cpu, queued := Some cpu\<rparr>)) = Inr u"
      "s' = u\<lparr>sequence := sequence u + 1\<rparr>"
    using r by (auto simp: activate_def rbind_Inr_iff guarded_Inr_iff)
  have tok: "task_ok s slot t" by (rule shape_task [OF sh t(1)])
  then have cpu: "cpu < 4" using t(3) complete_mask_bit [of cpu] by (auto simp: task_ok_def)
  then have s': "s' = enqueued cpu slot t s"
    using u shape_lengths [OF sh] by (auto simp: push_queue_def enqueued_def set_task_def)
  have "current s ! c = Some x \<Longrightarrow> x \<noteq> slot" if "c < 4" for c x
    using current_owner [OF sh t(1) that] t(2) by auto
  then show ?thesis
    unfolding s' using shape_lengths [OF sh] t(2)
    by (intro enqueued_inv [OF inv cpu t(1)]) auto
qed

lemma activate_total:
  assumes sh: "sched_shape s" and t: "get_task s slot = Inr t" "t_state t = 0" and cpu: "cpu < 4"
  shows "activate slot cpu s = Inr (enqueued cpu slot t s)"
proof -
  have "task_ok s slot t" by (rule shape_task [OF sh t(1)])
  then have "affinity t AND 2 ^ cpu \<noteq> 0" using complete_mask_bit [of cpu] cpu by (simp add: task_ok_def)
  then show ?thesis
    using t cpu shape_lengths [OF sh]
    by (simp add: activate_def guarded_pass push_queue_def enqueued_def set_task_def)
qed

lemma yield_total:
  assumes inv: "sched_inv s" and cpu: "cpu < 4"
  shows "\<exists>r. yield_current cpu s = Inr r \<and> sched_inv (snd r) \<and> sequence (snd r) \<le> sequence s + 1"
proof (cases "current s ! cpu")
  case None
  then show ?thesis
    using assms by (simp add: yield_current_def sched_inv_def sched_shape_def)
next
  case (Some slot)
  have sh: "sched_shape s" using inv by (simp add: sched_inv_def)
  obtain t where t: "get_task s slot = Inr t" "t_state t = 2" "assigned t = Some cpu"
    by (rule shape_current [OF sh cpu Some])
  let ?s = "s\<lparr>current := (current s)[cpu := None]\<rparr>"
  have uniq: "current s ! c = Some slot \<Longrightarrow> c = cpu" if c: "c < 4" for c
    using current_owner [OF sh t(1) c] t(3) by simp
  have "sched_inv (enqueued cpu slot t ?s)"
  proof (rule enqueued_inv [OF inv cpu t(1)])
    show "current ?s ! c = Some x \<longleftrightarrow> current s ! c = Some x \<and> x \<noteq> slot" if "c < 4" for c x
      using that cpu shape_lengths [OF sh] uniq [OF that] Some by (auto simp: nth_list_update)
  qed (use t shape_lengths [OF sh] in simp_all)
  moreover have "yield_current cpu s = Inr (True, enqueued cpu slot t ?s)"
    using Some t(1) cpu shape_lengths [OF sh]
    by (simp add: yield_current_def push_queue_def enqueued_def set_task_def)
  ultimately show ?thesis by (auto simp: enqueued_def)
qed

text \<open>An update that changes only the run time of one task keeps the invariant.\<close>

lemma account_inv:
  assumes inv: "sched_inv s" and t: "get_task s slot = Inr t"
  shows "sched_inv ((set_task s slot (t\<lparr>t_runtime := n\<rparr>))\<lparr>sequence := m\<rparr>)" (is "sched_inv ?s")
proof -
  have sh: "sched_shape s" using inv by (simp add: sched_inv_def)
  have get: "get_task ?s x = (if x = slot then Inr (t\<lparr>t_runtime := n\<rparr>) else get_task s x)" for x
    using t by (simp add: get_set_task get_task_Inr_iff)
  note [simp del] = get_task_frame
  have q: "queues ?s = queues s" "current ?s = current s" by simp_all
  have same: "task_ok ?s x v = task_ok s x v" "task_ok s x (v\<lparr>t_runtime := n\<rparr>) = task_ok s x v" for x v
    by (simp_all add: task_ok_def)
  have tok: "task_ok ?s x u" if u: "get_task ?s x = Inr u" for x u
    using u shape_task [OF sh t] shape_task [OF sh, of x u] unfolding same(1) get
    by (cases "x = slot") (auto simp: same(2))
  show ?thesis
  proof (rule aged_mono_inv [OF inv])
    show "aged ?s p k \<subseteq> aged s p k" for p k using t by (auto simp: aged_def get split: if_splits)
    show "sched_shape ?s"
    proof (rule sched_shapeI; (unfold q)?)
      show "length (tasks ?s) = 8" "length (queues s) = 4" "length (current s) = 4"
        using shape_lengths [OF sh] by simp_all
      show "distinct (queues s ! cpu)" if "cpu < 4" for cpu using sh that by (simp add: sched_shape_def)
      show "\<exists>u. get_task ?s x = Inr u \<and> t_state u = 1 \<and> queued u = Some c \<and> assigned u = Some c"
        if c: "c < 4" "x \<in> set (queues s ! c)" for c x
        by (rule shape_queue [OF sh c]) (use t in \<open>auto simp: get\<close>)
      show "\<exists>u. get_task ?s x = Inr u \<and> t_state u = 2 \<and> assigned u = Some c \<and> queued u = None"
        if c: "c < 4" "current s ! c = Some x" for c x
        by (rule shape_current [OF sh c]) (use t in \<open>auto simp: get\<close>)
    qed (rule tok)
  qed
qed

lemma account_total:
  assumes inv: "sched_inv s" and cpu: "cpu < 4"
  shows "\<exists>r. account cpu ticks s = Inr r \<and> sched_inv (snd r) \<and> sequence (snd r) \<le> sequence s + 1"
proof (cases "current s ! cpu")
  case None
  then show ?thesis
    using assms by (simp add: account_def sched_inv_def sched_shape_def)
next
  case (Some slot)
  have sh: "sched_shape s" using inv by (simp add: sched_inv_def)
  obtain t where t: "get_task s slot = Inr t" by (rule shape_current [OF sh cpu Some])
  then show ?thesis
    using Some cpu shape_lengths [OF sh] inv account_inv [OF inv t]
    by (cases "ticks \<le> 0") (simp_all add: account_def)
qed


lemma migrate_total:
  assumes inv: "sched_inv s" and t: "get_task s slot = Inr t"
  shows "\<exists>r. migrate slot target s = Inr r \<and> sched_inv (snd r) \<and> sequence (snd r) \<le> sequence s + 1"
proof (cases "t_state t \<noteq> 1 \<or> affinity t AND 2 ^ target = 0 \<or> queued t = Some target")
  case True
  then show ?thesis using t inv by (simp add: migrate_def)
next
  case False
  have sh: "sched_shape s" using inv by (simp add: sched_inv_def)
  note lens = shape_lengths [OF sh]
  have tok: "task_ok s slot t" by (rule shape_task [OF sh t])
  then have target: "target < 4" using False complete_mask_bit [of target] by (simp add: task_ok_def)
  obtain src where src: "src < 4" "queued t = Some src" "slot \<in> set (queues s ! src)"
    using tok False by (auto simp: task_ok_def)
  have ne: "src \<noteq> target" using False src(2) by auto
  let ?q = "(queues s)[src := remove1 slot (queues s ! src), target := queues s ! target @ [slot]]"
  let ?s = "(set_task (s\<lparr>queues := ?q\<rparr>) slot (t\<lparr>queued := Some target, assigned := Some target\<rparr>))
      \<lparr>migrations := migrations s + 1, sequence := sequence s + 1\<rparr>"
  have own: "slot \<in> set (queues s ! c) \<longleftrightarrow> c = src" if "c < 4" for c
    using queue_owner [OF sh t that] False src(2) by auto
  have dist: "distinct (queues s ! c)" if "c < 4" for c using sh that by (simp add: sched_shape_def)
  have qc: "?q ! c = (if c = target then queues s ! target @ [slot]
      else if c = src then remove1 slot (queues s ! src) else queues s ! c)" if "c < 4" for c
    using that lens target src(1) ne by (simp add: nth_list_update)
  have "migrate slot target s = Inr (True, ?s)"
    using t False src lens target ne
    by (simp add: migrate_def push_queue_def)
  moreover have "sched_inv ?s"
  proof (rule requeued_inv [OF inv target t])
    show "get_task ?s x = (if x = slot then Inr (t\<lparr>t_state := 1, assigned := Some target, queued := Some target\<rparr>)
        else get_task s x)" for x
      using t False by (simp add: get_set_task get_task_Inr_iff)
    show "distinct (queues ?s ! c)" if "c < 4" for c
      using that dist own target ne by (simp add: qc)
    show "x \<in> set (queues ?s ! c) \<longleftrightarrow> (if x = slot then c = target else x \<in> set (queues s ! c))" if "c < 4" for c x
      using that dist [OF src(1)] own [OF that] ne by (auto simp: qc)
    show "current ?s ! c = Some x \<longleftrightarrow> current s ! c = Some x \<and> x \<noteq> slot" if "c < 4" for c x
      using current_owner [OF sh t that] False by auto
  qed (use lens in simp_all)
  ultimately show ?thesis by simp
qed


section \<open>Dispatch\<close>

text \<open>The order of the selection loop: priority first, then how often a task was passed over.\<close>

definition ahead :: "task \<Rightarrow> task \<Rightarrow> bool" where
  "ahead a b \<longleftrightarrow> effective_priority a > effective_priority b \<or>
     effective_priority a = effective_priority b \<and> bypass a > bypass b"

lemma select_index_spec:
  assumes "\<And>i. i < length queue \<Longrightarrow> get_task s (queue ! i) = Inr (f i)"
    "\<forall>i \<in> set idxs. i < length queue" "selected < length queue" "\<forall>j \<in> done. \<not> ahead (f j) (f selected)"
  shows "\<exists>r. select_index s queue idxs selected = Inr r \<and> r < length queue \<and>
    (\<forall>j \<in> done \<union> set idxs. \<not> ahead (f j) (f r))"
  using assms(2-4)
proof (induction idxs arbitrary: selected "done")
  case Nil
  then show ?case by simp
next
  case (Cons i idxs)
  let ?sel = "if ahead (f i) (f selected) then i else selected"
  have "\<forall>j \<in> insert i done. \<not> ahead (f j) (f ?sel)"
    using Cons.prems(3) by (auto simp: ahead_def)
  then obtain r where r: "select_index s queue idxs ?sel = Inr r" "r < length queue"
      "\<forall>j \<in> insert i done \<union> set idxs. \<not> ahead (f j) (f r)"
    using Cons.IH [of ?sel "insert i done"] Cons.prems(1,2) by (cases "ahead (f i) (f selected)") auto
  moreover have "select_index s queue (i # idxs) selected = select_index s queue idxs ?sel"
    using Cons.prems by (simp add: assms(1) ahead_def)
  ultimately show ?case by auto
qed

lemma rfold_bump:
  assumes "distinct xs"
    "\<And>x. x \<in> set xs \<Longrightarrow> \<exists>t. get_task s x = Inr t \<and> (effective_priority t = p \<longrightarrow> bypass t + 1 \<le> MAX_BYPASS)"
  shows "\<exists>s'. rfold (bump p) xs s = Inr s' \<and> queues s' = queues s \<and> current s' = current s \<and>
    sequence s' = sequence s \<and> dispatches s' = dispatches s \<and> migrations s' = migrations s \<and>
    length (tasks s') = length (tasks s) \<and>
    (\<forall>x. get_task s' x = (case get_task s x of Inl e \<Rightarrow> Inl e | Inr t \<Rightarrow>
       Inr (if x \<in> set xs \<and> effective_priority t = p then t\<lparr>bypass := bypass t + 1\<rparr> else t)))"
  using assms
proof (induction xs arbitrary: s)
  case Nil
  then show ?case by (simp add: sum.case_eq_if split: sum.split)
next
  case (Cons y ys)
  obtain t where t: "get_task s y = Inr t" "effective_priority t = p \<longrightarrow> bypass t + 1 \<le> MAX_BYPASS"
    using Cons.prems(2) [of y] by auto
  define s1 where "s1 = (if effective_priority t = p then set_task s y (t\<lparr>bypass := bypass t + 1\<rparr>) else s)"
  have b: "bump p y s = Inr s1"
    using t by (simp add: bump_def guarded_pass s1_def)
  have get: "get_task s1 x = (if x = y \<and> effective_priority t = p then Inr (t\<lparr>bypass := bypass t + 1\<rparr>) else get_task s x)" for x
    using t(1) by (simp add: s1_def get_set_task get_task_Inr_iff)
  have frame: "queues s1 = queues s" "current s1 = current s" "sequence s1 = sequence s" "dispatches s1 = dispatches s"
    "migrations s1 = migrations s" "length (tasks s1) = length (tasks s)"
    by (simp_all add: s1_def)
  have "\<exists>t. get_task s1 x = Inr t \<and> (effective_priority t = p \<longrightarrow> bypass t + 1 \<le> MAX_BYPASS)" if "x \<in> set ys" for x
    using Cons.prems that by (auto simp: get)
  from Cons.IH [OF _ this] Cons.prems(1) obtain s' where s': "rfold (bump p) ys s1 = Inr s'" "queues s' = queues s1"
      "current s' = current s1" "sequence s' = sequence s1" "dispatches s' = dispatches s1" "migrations s' = migrations s1"
      "length (tasks s') = length (tasks s1)"
    and g': "\<And>x. get_task s' x = (case get_task s1 x of Inl e \<Rightarrow> Inl e | Inr t \<Rightarrow>
       Inr (if x \<in> set ys \<and> effective_priority t = p then t\<lparr>bypass := bypass t + 1\<rparr> else t))"
    by auto
  have "get_task s' x = (case get_task s x of Inl e \<Rightarrow> Inl e | Inr t \<Rightarrow>
       Inr (if x \<in> set (y # ys) \<and> effective_priority t = p then t\<lparr>bypass := bypass t + 1\<rparr> else t))" for x
    using Cons.prems(1) t(1) by (cases "x = y") (auto simp: g' get split: sum.split)
  with s' b frame show ?case by simp
qed


text \<open>
  The state after a dispatch: the chosen task left the queue and runs, the tasks of its
  priority that stayed in the queue were passed over once more. The next two lemmas show
  that this keeps the placement of tasks and the bound on passed-over tasks.
\<close>

definition passed :: "int \<Rightarrow> nat set \<Rightarrow> nat \<Rightarrow> task \<Rightarrow> task" where
  "passed p xs x t = (if x \<in> xs \<and> effective_priority t = p then t\<lparr>bypass := bypass t + 1\<rparr> else t)"

definition dispatched :: "nat \<Rightarrow> nat \<Rightarrow> task \<Rightarrow> scheduler \<Rightarrow> scheduler \<Rightarrow> bool" where
  "dispatched cpu slot t s s' \<longleftrightarrow>
     length (tasks s') = 8 \<and> length (queues s') = 4 \<and> length (current s') = 4 \<and>
     (\<forall>c<4. if c = cpu then distinct (queues s' ! c) \<and> set (queues s' ! c) = set (queues s ! c) - {slot}
            else queues s' ! c = queues s ! c) \<and>
     (\<forall>c<4. current s' ! c = (if c = cpu then Some slot else current s ! c)) \<and>
     (\<forall>x. get_task s' x =
        (if x = slot then Inr (t\<lparr>t_state := 2, queued := None, assigned := Some cpu, bypass := 0,
             t_dispatches := t_dispatches t + 1\<rparr>)
         else case get_task s x of Inl e \<Rightarrow> Inl e | Inr u \<Rightarrow>
           Inr (passed (effective_priority t) (set (queues s ! cpu) - {slot}) x u)))"

lemma passed_fields [simp]:
  "t_slot (passed p xs x t) = t_slot t" "t_generation (passed p xs x t) = t_generation t"
  "t_state (passed p xs x t) = t_state t" "base_priority (passed p xs x t) = base_priority t"
  "effective_priority (passed p xs x t) = effective_priority t" "affinity (passed p xs x t) = affinity t"
  "assigned (passed p xs x t) = assigned t" "queued (passed p xs x t) = queued t"
  "wake_reason (passed p xs x t) = wake_reason t" "wait_kind (passed p xs x t) = wait_kind t"
  by (simp_all add: passed_def)

lemma dispatched_get:
  assumes "dispatched cpu slot t s s'" "x \<noteq> slot"
  shows "get_task s' x = Inr u \<longleftrightarrow>
    (\<exists>v. get_task s x = Inr v \<and> u = passed (effective_priority t) (set (queues s ! cpu) - {slot}) x v)"
  using assms unfolding dispatched_def by (cases "get_task s x") auto

lemma dispatched_get_slot:
  "dispatched cpu slot t s s' \<Longrightarrow> get_task s' slot = Inr (t\<lparr>t_state := 2, queued := None, assigned := Some cpu,
     bypass := 0, t_dispatches := t_dispatches t + 1\<rparr>)"
  unfolding dispatched_def by simp

lemma dispatched_shape:
  assumes sh: "sched_shape s" and d: "dispatched cpu slot t s s'" and cpu: "cpu < 4"
    and t: "get_task s slot = Inr t" "slot \<in> set (queues s ! cpu)" and idle: "current s ! cpu = None"
  shows "sched_shape s'"
proof -
  have st: "t_state t = 1" "queued t = Some cpu" using queue_owner [OF sh t(1) cpu] t(2) by simp_all
  have q: "distinct (queues s' ! c) \<and> set (queues s' ! c) = set (queues s ! c) - {slot}" if c: "c < 4" for c
  proof (cases "c = cpu")
    case True
    then show ?thesis using d c unfolding dispatched_def by simp
  next
    case False
    then have "queues s' ! c = queues s ! c" using d c unfolding dispatched_def by simp
    then show ?thesis using sh c queue_owner [OF sh t(1) c] st False by (simp add: sched_shape_def)
  qed
  have cur: "current s' ! c = (if c = cpu then Some slot else current s ! c)" if "c < 4" for c
    using d that unfolding dispatched_def by simp
  show ?thesis
  proof (rule sched_shapeI)
    show "length (tasks s') = 8" "length (queues s') = 4" "length (current s') = 4"
      using d unfolding dispatched_def by simp_all
    show "distinct (queues s' ! c)" if "c < 4" for c using q [OF that] by simp
    show "\<exists>u. get_task s' x = Inr u \<and> t_state u = 1 \<and> queued u = Some c \<and> assigned u = Some c"
      if c: "c < 4" and x: "x \<in> set (queues s' ! c)" for c x
    proof -
      have x': "x \<in> set (queues s ! c)" "x \<noteq> slot" using x q [OF c] by auto
      obtain u where "get_task s x = Inr u" "t_state u = 1" "queued u = Some c" "assigned u = Some c"
        by (rule shape_queue [OF sh c x'(1)])
      then show ?thesis by (auto simp: dispatched_get [OF d x'(2)])
    qed
    show "\<exists>u. get_task s' x = Inr u \<and> t_state u = 2 \<and> assigned u = Some c \<and> queued u = None"
      if c: "c < 4" and x: "current s' ! c = Some x" for c x
    proof (cases "c = cpu")
      case True
      then show ?thesis using x cur [OF c] dispatched_get_slot [OF d] by simp
    next
      case False
      then have x': "current s ! c = Some x" using x cur [OF c] by simp
      then have "x \<noteq> slot" using current_owner [OF sh t(1) c] st by auto
      obtain u where "get_task s x = Inr u" "t_state u = 2" "assigned u = Some c" "queued u = None"
        by (rule shape_current [OF sh c x'])
      then show ?thesis by (auto simp: dispatched_get [OF d \<open>x \<noteq> slot\<close>])
    qed
    show "task_ok s' x u" if u: "get_task s' x = Inr u" for x u
    proof (cases "x = slot")
      case True
      then show ?thesis
        using u dispatched_get_slot [OF d] cpu cur [OF cpu] shape_task [OF sh t(1)] by (auto simp: task_ok_def)
    next
      case False
      then obtain v where v: "get_task s x = Inr v" "u = passed (effective_priority t) (set (queues s ! cpu) - {slot}) x v"
        using u dispatched_get [OF d False] by auto
      have tv: "task_ok s x v" by (rule shape_task [OF sh v(1)])
      have "t_state v \<noteq> 1 \<Longrightarrow> u = v"
        using v(2) queue_owner [OF sh v(1) cpu] by (auto simp: passed_def)
      then have "t_state u \<noteq> 1 \<longrightarrow> bypass u = 0" using tv v(2) by (auto simp: task_ok_def)
      moreover have "x \<in> set (queues s ! c) \<Longrightarrow> x \<in> set (queues s' ! c)" if "c < 4" for c
        using q [OF that] False by simp
      moreover have "current s ! c = Some x \<Longrightarrow> current s' ! c = Some x" if "c < 4" for c
        using cur [OF that] idle by auto
      ultimately show ?thesis using tv v(2) unfolding task_ok_def passed_fields by auto
    qed
  qed
qed

lemma dispatched_aged:
  assumes inv: "sched_inv s" and d: "dispatched cpu slot t s s'" and t: "get_task s slot = Inr t"
    and best: "\<And>x u. x \<in> set (queues s ! cpu) \<Longrightarrow> get_task s x = Inr u \<Longrightarrow> \<not> ahead u t" and k: "1 \<le> k"
  shows "card (aged s' p k) \<le> 8 - k"
proof -
  have len: "length (tasks s) = 8" using inv by (simp add: sched_inv_def sched_shape_def)
  have mem: "x \<in> aged s' p k \<Longrightarrow> x \<noteq> slot \<and> (\<exists>v. get_task s x = Inr v \<and> effective_priority v = p \<and>
      k \<le> bypass (passed (effective_priority t) (set (queues s ! cpu) - {slot}) x v))" for x
    using k dispatched_get_slot [OF d] dispatched_get [OF d, of x] by (cases "x = slot") (auto simp: aged_def)
  show ?thesis
  proof (cases "p = effective_priority t \<and> k - 1 \<le> bypass t")
    case True
    have "aged s' p k \<subseteq> aged s p (k - 1) - {slot}"
      using mem by (fastforce simp: aged_def passed_def split: if_splits)
    moreover have "slot \<in> aged s p (k - 1)" using t True by (simp add: aged_def)
    ultimately have "card (aged s' p k) \<le> card (aged s p (k - 1)) - 1"
      using card_mono [of "aged s p (k - 1) - {slot}" "aged s' p k"] finite_aged [OF len] by simp
    then show ?thesis using card_aged [OF inv, of p "k - 1"] k by simp
  next
    case False
    have "aged s' p k \<subseteq> aged s p k"
    proof
      fix x assume "x \<in> aged s' p k"
      then obtain v where v: "get_task s x = Inr v" "effective_priority v = p"
          "k \<le> bypass (passed (effective_priority t) (set (queues s ! cpu) - {slot}) x v)"
        using mem by blast
      have "k \<le> bypass v"
        using v False best [of x v] by (auto simp: passed_def ahead_def split: if_splits)
      with v show "x \<in> aged s p k" by (simp add: aged_def)
    qed
    then have "card (aged s' p k) \<le> card (aged s p k)" by (intro card_mono finite_aged [OF len])
    then show ?thesis using card_aged [OF inv, of p k] by simp
  qed
qed


lemma dispatch_busy:
  assumes "sched_shape s" "cpu < 4" "current s ! cpu \<noteq> None \<or> queues s ! cpu = []"
  shows "dispatch cpu s = Inr (False, s)"
  using assms shape_lengths [OF assms(1)] by (simp add: dispatch_def)

lemma dispatch_chooses:
  assumes inv: "sched_inv s" and cpu: "cpu < 4" and idle: "current s ! cpu = None" and ne: "queues s ! cpu \<noteq> []"
  shows "\<exists>slot t s'. dispatch cpu s = Inr (True, s') \<and> slot \<in> set (queues s ! cpu) \<and> get_task s slot = Inr t \<and>
    (\<forall>x u. x \<in> set (queues s ! cpu) \<longrightarrow> get_task s x = Inr u \<longrightarrow> \<not> ahead u t) \<and>
    dispatched cpu slot t s s' \<and> sequence s' = sequence s + 1 \<and> dispatches s' = dispatches s + 1"
proof -
  have sh: "sched_shape s" using inv by (simp add: sched_inv_def)
  note lens = shape_lengths [OF sh]
  let ?q = "queues s ! cpu"
  define f where "f i = projr (get_task s (?q ! i))" for i
  have f: "get_task s (?q ! i) = Inr (f i)" if "i < length ?q" for i
    by (rule shape_queue [OF sh cpu nth_mem [OF that]]) (simp add: f_def)
  obtain i where i: "select_index s ?q [1..<length ?q] 0 = Inr i" "i < length ?q"
      "\<forall>j \<in> {0} \<union> set [1..<length ?q]. \<not> ahead (f j) (f i)"
    using select_index_spec [of ?q s f "[1..<length ?q]" 0 "{0}"] f ne by (auto simp: ahead_def)
  define slot where "slot = ?q ! i"
  define t where "t = f i"
  have t: "get_task s slot = Inr t" "slot \<in> set ?q" using f [OF i(2)] i(2) by (simp_all add: slot_def t_def)
  have best: "\<not> ahead u t" if "x \<in> set ?q" "get_task s x = Inr u" for x u
  proof -
    obtain j where "j < length ?q" "?q ! j = x" using \<open>x \<in> set ?q\<close> by (auto simp: in_set_conv_nth)
    with that(2) f [of j] i(3) show ?thesis by (cases "j = 0") (auto simp: t_def)
  qed
  let ?rest = "take i ?q @ drop (Suc i) ?q"
  have split: "?q = take i ?q @ slot # drop (Suc i) ?q" using i(2) by (simp add: slot_def id_take_nth_drop [symmetric])
  have dq: "distinct ?q" using sh cpu by (simp add: sched_shape_def)
  have rest: "distinct ?rest" "set ?rest = set ?q - {slot}"
  proof -
    have "distinct (take i ?q @ slot # drop (Suc i) ?q)" using dq split by metis
    then show "distinct ?rest" and "set ?rest = set ?q - {slot}"
      by (simp, subst (3) split, auto)
  qed
  let ?s1 = "s\<lparr>queues := (queues s)[cpu := ?rest]\<rparr>"
  have "\<exists>u. get_task ?s1 x = Inr u \<and> (effective_priority u = effective_priority t \<longrightarrow> bypass u + 1 \<le> MAX_BYPASS)"
    if x: "x \<in> set ?rest" for x
  proof -
    have x': "x \<in> set ?q" "x \<noteq> slot" using x rest(2) by auto
    obtain u where u: "get_task s x = Inr u" by (rule shape_queue [OF sh cpu x'(1)])
    show ?thesis
      using u best [OF x'(1) u] bypass_room [OF inv u t(1) x'(2)] by (auto simp: ahead_def)
  qed
  from rfold_bump [OF rest(1) this] obtain s2 where s2: "rfold (bump (effective_priority t)) ?rest ?s1 = Inr s2"
      "queues s2 = (queues s)[cpu := ?rest]" "current s2 = current s" "sequence s2 = sequence s" "dispatches s2 = dispatches s"
      "length (tasks s2) = length (tasks s)"
    and g2: "\<And>x. get_task s2 x = (case get_task s x of Inl e \<Rightarrow> Inl e | Inr u \<Rightarrow>
       Inr (if x \<in> set ?rest \<and> effective_priority u = effective_priority t then u\<lparr>bypass := bypass u + 1\<rparr> else u))"
    by auto
  let ?t = "t\<lparr>t_state := 2, queued := None, assigned := Some cpu, bypass := 0, t_dispatches := t_dispatches t + 1\<rparr>"
  define s' where "s' = (set_task s2 slot ?t)\<lparr>current := (current s2)[cpu := Some slot],
      dispatches := dispatches s2 + 1, sequence := sequence s2 + 1\<rparr>"
  have run: "dispatch cpu s = Inr (True, s')"
    using idle ne cpu lens i(1) t(1) s2(1)
    by (simp add: dispatch_def Let_def slot_def [symmetric] s'_def del: One_nat_def upt_Suc)
  have slot8: "slot < length (tasks s2)" using t(1) s2(6) by (simp add: get_task_Inr_iff)
  have "dispatched cpu slot t s s'"
    unfolding dispatched_def
  proof (intro conjI allI impI)
    show "length (tasks s') = 8" "length (queues s') = 4" "length (current s') = 4"
      using lens s2 by (simp_all add: s'_def)
    show "if c = cpu then distinct (queues s' ! c) \<and> set (queues s' ! c) = set (queues s ! c) - {slot}
        else queues s' ! c = queues s ! c" if "c < 4" for c
      using that lens rest by (simp add: s'_def s2(2))
    show "current s' ! c = (if c = cpu then Some slot else current s ! c)" if "c < 4" for c
      using that lens by (simp add: s'_def s2(3) nth_list_update)
    show "get_task s' x = (if x = slot then Inr ?t else case get_task s x of Inl e \<Rightarrow> Inl e | Inr u \<Rightarrow>
        Inr (passed (effective_priority t) (set ?q - {slot}) x u))" for x
      using slot8 g2 [of x, unfolded rest(2)] by (simp add: s'_def get_set_task passed_def split: sum.splits)
  qed
  moreover have "sequence s' = sequence s + 1" "dispatches s' = dispatches s + 1" using s2 by (simp_all add: s'_def)
  ultimately show ?thesis using run t best by blast
qed

lemma dispatch_total:
  assumes inv: "sched_inv s" and cpu: "cpu < 4"
  shows "\<exists>r. dispatch cpu s = Inr r \<and> sched_inv (snd r) \<and> sequence (snd r) \<le> sequence s + 1"
proof (cases "current s ! cpu \<noteq> None \<or> queues s ! cpu = []")
  case True
  with assms show ?thesis by (auto simp: dispatch_busy sched_inv_def)
next
  case False
  then have idle: "current s ! cpu = None" and ne: "queues s ! cpu \<noteq> []" by simp_all
  obtain slot t s' where s': "dispatch cpu s = Inr (True, s')" "slot \<in> set (queues s ! cpu)" "get_task s slot = Inr t"
      "\<forall>x u. x \<in> set (queues s ! cpu) \<longrightarrow> get_task s x = Inr u \<longrightarrow> \<not> ahead u t"
      "dispatched cpu slot t s s'" "sequence s' = sequence s + 1"
    using dispatch_chooses [OF inv cpu idle ne] by (elim exE conjE) (rule that)
  have "sched_shape s'" using inv by (intro dispatched_shape [OF _ s'(5) cpu s'(3,2) idle]) (simp add: sched_inv_def)
  moreover have "card (aged s' p k) \<le> 8 - k" if "1 \<le> k" for p k
    using s'(4) by (intro dispatched_aged [OF inv s'(5,3) _ that]) simp
  ultimately show ?thesis using s'(1,6) by (simp add: sched_inv_def)
qed

end
