(* ===== verification/Scheduler_Run.thy ===== *)
theory Scheduler_Run
  imports Scheduler
begin

unbundle bit_operations_syntax

text \<open>
  Runs of the PKSCHED1 scheduler: the step relation over its operations, the invariant of
  every reachable state, that \<open>validate\<close> accepts every reachable state with all eight tasks
  created, and that the deterministic stress run of \<open>stress_oracle\<close> returns a receipt.
\<close>


section \<open>Validation accepts every state of the invariant\<close>

definition plus_at :: "(nat \<Rightarrow> bool) \<Rightarrow> nat list \<Rightarrow> nat list" where
  "plus_at P xs = map (\<lambda>x. xs ! x + of_bool (P x)) [0..<8]"

lemma length_plus_at [simp]: "length (plus_at P xs) = 8"
  by (simp add: plus_at_def)

lemma nth_plus_at [simp]: "x < 8 \<Longrightarrow> plus_at P xs ! x = xs ! x + of_bool (P x)"
  by (simp add: plus_at_def)

lemma plus_at_one: "length xs = 8 \<Longrightarrow> y < 8 \<Longrightarrow> xs[y := xs ! y + 1] = plus_at (\<lambda>x. x = y) xs"
  by (rule nth_equalityI) (auto simp: nth_list_update)

lemma plus_at_none: "length xs = 8 \<Longrightarrow> plus_at (\<lambda>x. False) xs = xs"
  by (rule nth_equalityI) auto

lemma validate_queue_fold:
  assumes "sched_inv s" "cpu < 4" "set q \<subseteq> set (queues s ! cpu)" "distinct q" "length seen = 8"
  shows "rfold (validate_queued s cpu) q seen = Inr (plus_at (\<lambda>x. x \<in> set q) seen)"
  using assms(3-)
proof (induction q arbitrary: seen)
  case Nil
  then show ?case by (simp add: plus_at_none)
next
  case (Cons y q)
  have sh: "sched_shape s" using assms(1) by (simp add: sched_inv_def)
  obtain t where t: "get_task s y = Inr t" "t_state t = 1" "queued t = Some cpu" "assigned t = Some cpu"
    using Cons.prems(1) by (elim shape_queue [OF sh assms(2), of y, rotated]) simp
  have y: "y < 8" by (rule shape_task_slot [OF sh t(1)])
  have "affinity t AND 2 ^ cpu \<noteq> 0"
    using shape_task [OF sh t(1)] complete_mask_bit [of cpu] assms(2) by (simp add: task_ok_def)
  then have "validate_queued s cpu y seen = Inr (plus_at (\<lambda>x. x = y) seen)"
    using t bypass_bound [OF assms(1) t(1)] plus_at_one [OF Cons.prems(3) y]
    by (simp add: validate_queued_def guarded_pass)
  moreover have "plus_at (\<lambda>x. x \<in> set q) (plus_at (\<lambda>x. x = y) seen) = plus_at (\<lambda>x. x \<in> set (y # q)) seen"
    using Cons.prems(2) by (intro nth_equalityI) auto
  ultimately show ?case using Cons by simp
qed

lemma validate_cpu_ok:
  assumes inv: "sched_inv s" and cpu: "cpu < 4" and len: "length seen = 8" "length running = 8"
  shows "validate_cpu s (cpu, queues s ! cpu) (seen, running) =
    Inr (plus_at (\<lambda>x. x \<in> set (queues s ! cpu)) seen, plus_at (\<lambda>x. current s ! cpu = Some x) running)"
proof -
  have sh: "sched_shape s" using inv by (simp add: sched_inv_def)
  have d: "distinct (queues s ! cpu)" using sh cpu by (simp add: sched_shape_def)
  have "x < 8" if "x \<in> set (queues s ! cpu)" for x
    by (rule shape_queue [OF sh cpu that]) (rule shape_task_slot [OF sh])
  then have "card (set (queues s ! cpu)) \<le> card {..<8::nat}" by (intro card_mono) auto
  then have shape: "length (queues s ! cpu) \<le> MAX_TASKS" "length (queues s ! cpu) = card (set (queues s ! cpu))"
    using d by (simp_all add: distinct_card code_defs)
  note fold = validate_queue_fold [OF inv cpu order_refl d len(1)]
  show ?thesis
  proof (cases "current s ! cpu")
    case None
    then show ?thesis
      using shape cpu shape_lengths [OF sh] len
      by (simp add: validate_cpu_def guarded_pass fold plus_at_none)
  next
    case (Some slot)
    obtain t where t: "get_task s slot = Inr t" "t_state t = 2" "assigned t = Some cpu" "queued t = None"
      by (rule shape_current [OF sh cpu Some])
    have "running[slot := running ! slot + 1] = plus_at (\<lambda>x. Some slot = Some x) running"
      using plus_at_one [OF len(2) shape_task_slot [OF sh t(1)]] by (simp add: eq_commute)
    then show ?thesis
      using shape cpu shape_lengths [OF sh] t Some
      by (simp add: validate_cpu_def guarded_pass fold)
  qed
qed

lemma list4: "length xs = 4 \<Longrightarrow> xs = [xs ! 0, xs ! 1, xs ! 2, xs ! 3]"
  by (intro nth_equalityI) (auto simp: less_Suc_eq numeral_eq_Suc)

lemma less4: "(c::nat) < 4 \<longleftrightarrow> c = 0 \<or> c = 1 \<or> c = 2 \<or> c = 3"
  by auto

text \<open>All eight tasks exist and were activated.\<close>

definition all_active :: "scheduler \<Rightarrow> bool" where
  "all_active s \<longleftrightarrow> (\<forall>slot<8. \<exists>t. get_task s slot = Inr t \<and> t_state t \<noteq> 0)"

definition counts :: "scheduler \<Rightarrow> (nat \<Rightarrow> nat \<Rightarrow> bool) \<Rightarrow> nat list" where
  "counts s P = plus_at (P 3) (plus_at (P 2) (plus_at (P 1) (plus_at (P 0) (replicate 8 0))))"

lemma validate_task_ok:
  assumes inv: "sched_inv s" and t: "get_task s slot = Inr t"
  shows "validate_task (counts s (\<lambda>c x. x \<in> set (queues s ! c))) (counts s (\<lambda>c x. current s ! c = Some x))
    (slot, Some t) () = Inr ()"
proof -
  have sh: "sched_shape s" using inv by (simp add: sched_inv_def)
  note q = queue_owner [OF sh t] current_owner [OF sh t]
  have *: "\<exists>c<4. queued t = Some c" if "t_state t = 1" using shape_task [OF sh t] that by (auto simp: task_ok_def)
  have **: "\<exists>c<4. assigned t = Some c" if "t_state t = 2" using shape_task [OF sh t] that by (auto simp: task_ok_def)
  have slot: "slot < 8" by (rule shape_task_slot [OF sh t])
  have "counts s (\<lambda>c x. x \<in> set (queues s ! c)) ! slot = of_bool (t_state t = 1)"
    using slot * by (cases "t_state t = 1") (auto simp: counts_def q less4)
  moreover have "counts s (\<lambda>c x. current s ! c = Some x) ! slot = of_bool (t_state t = 2)"
    using slot ** by (cases "t_state t = 2") (auto simp: counts_def q less4)
  ultimately show ?thesis by (simp add: validate_task_def guarded_pass)
qed

lemma validate_accepts:
  assumes inv: "sched_inv s" and full: "all_active s"
  shows "validate s = Inr ()"
proof -
  have sh: "sched_shape s" using inv by (simp add: sched_inv_def)
  note lens = shape_lengths [OF sh]
  have en: "enumerate 0 (queues s) = [(0, queues s ! 0), (1, queues s ! 1), (2, queues s ! 2), (3, queues s ! 3)]"
    by (subst list4 [OF lens(2)]) (simp add: numeral_eq_Suc)
  have "rfold (validate_cpu s) (enumerate 0 (queues s)) (replicate MAX_TASKS 0, replicate MAX_TASKS 0) =
     Inr (counts s (\<lambda>c x. x \<in> set (queues s ! c)), counts s (\<lambda>c x. current s ! c = Some x))"
    by (simp add: en validate_cpu_ok [OF inv] counts_def MAX_TASKS_def del: One_nat_def)
  moreover have "validate_task (counts s (\<lambda>c x. x \<in> set (queues s ! c))) (counts s (\<lambda>c x. current s ! c = Some x)) e () = Inr ()"
    if e: "e \<in> set (enumerate 0 (tasks s))" for e
  proof -
    obtain slot where "slot < 8" "e = (slot, tasks s ! slot)" using e lens(1) by (auto simp: in_set_enumerate_eq)
    moreover obtain t where "get_task s slot = Inr t" using full \<open>slot < 8\<close> by (auto simp: all_active_def)
    ultimately show ?thesis using validate_task_ok [OF inv] by (simp add: get_task_Inr_iff)
  qed
  ultimately show ?thesis by (simp add: validate_def rfold_unit)
qed


section \<open>What one operation may change\<close>

text \<open>
  \<open>effect s s'\<close>: no task disappears or falls back to the fresh state, and the counters of a
  task grow no faster than the counters of the scheduler.
\<close>

definition effect :: "scheduler \<Rightarrow> scheduler \<Rightarrow> bool" where
  "effect s s' \<longleftrightarrow>
     dispatches s \<le> dispatches s' \<and> sequence s \<le> sequence s' \<and>
     dispatches s' + sequence s \<le> dispatches s + sequence s' \<and>
     (\<forall>slot t. get_task s slot = Inr t \<longrightarrow> (\<exists>u. get_task s' slot = Inr u \<and>
        (t_state t \<noteq> 0 \<longrightarrow> t_state u \<noteq> 0) \<and> t_dispatches u + dispatches s \<le> t_dispatches t + dispatches s' \<and>
        t_runtime t \<le> t_runtime u \<and> t_runtime u + 2 * int (sequence s) \<le> t_runtime t + 2 * int (sequence s')))"

lemma effect_refl [simp]: "effect s s"
  by (simp add: effect_def)

lemma effect_trans: "effect a b \<Longrightarrow> effect b c \<Longrightarrow> effect a c"
  unfolding effect_def
proof (elim conjE, intro conjI allI impI, goal_cases)
  case (4 slot t)
  then obtain u where u: "get_task b slot = Inr u" "t_state t \<noteq> 0 \<longrightarrow> t_state u \<noteq> 0"
      "t_dispatches u + dispatches a \<le> t_dispatches t + dispatches b" "t_runtime t \<le> t_runtime u"
      "t_runtime u + 2 * int (sequence a) \<le> t_runtime t + 2 * int (sequence b)" by blast
  with 4 obtain v where "get_task c slot = Inr v" "t_state u \<noteq> 0 \<longrightarrow> t_state v \<noteq> 0"
      "t_dispatches v + dispatches b \<le> t_dispatches u + dispatches c" "t_runtime u \<le> t_runtime v"
      "t_runtime v + 2 * int (sequence b) \<le> t_runtime u + 2 * int (sequence c)" by blast
  with u show ?case by auto
qed auto

lemma effectI:
  assumes "dispatches s' = dispatches s + d" "sequence s' = sequence s + 1" "d \<le> 1"
    "get_task s slot = Inr t" "get_task s' slot = Inr u" "t_state u \<noteq> 0" "t_dispatches u = t_dispatches t + d"
    "t_runtime t \<le> t_runtime u" "t_runtime u \<le> t_runtime t + 2"
    "\<And>x v. x \<noteq> slot \<Longrightarrow> get_task s x = Inr v \<Longrightarrow> \<exists>w. get_task s' x = Inr w \<and> t_state w = t_state v \<and>
       t_dispatches w = t_dispatches v \<and> t_runtime w = t_runtime v"
  shows "effect s s'"
  unfolding effect_def
proof (intro conjI allI impI)
  fix x v
  assume v: "get_task s x = Inr v"
  show "\<exists>u. get_task s' x = Inr u \<and> (t_state v \<noteq> 0 \<longrightarrow> t_state u \<noteq> 0) \<and>
      t_dispatches u + dispatches s \<le> t_dispatches v + dispatches s' \<and> t_runtime v \<le> t_runtime u \<and>
      t_runtime u + 2 * int (sequence s) \<le> t_runtime v + 2 * int (sequence s')"
  proof (cases "x = slot")
    case True
    with v assms(1-9) show ?thesis by auto
  next
    case False
    from assms(10) [OF False v] obtain w where "get_task s' x = Inr w" "t_state w = t_state v"
        "t_dispatches w = t_dispatches v" "t_runtime w = t_runtime v" by blast
    with assms(1,2) show ?thesis by auto
  qed
qed (use assms(1-3) in simp_all)

lemma yield_effect:
  assumes sh: "sched_shape s" and cpu: "cpu < 4" and r: "yield_current cpu s = Inr r"
  shows "effect s (snd r)"
proof (cases "current s ! cpu")
  case None
  then show ?thesis using r cpu shape_lengths [OF sh] by (auto simp: yield_current_def)
next
  case (Some slot)
  obtain t where t: "get_task s slot = Inr t" by (rule shape_current [OF sh cpu Some])
  then have "slot < length (tasks s)" by (simp add: get_task_Inr_iff)
  then show ?thesis
    using r t Some cpu shape_lengths [OF sh]
    by (intro effectI [of _ s 0 slot t "t\<lparr>t_state := 1, assigned := Some cpu, queued := Some cpu\<rparr>"])
      (auto simp: yield_current_def push_queue_def get_set_task)
qed

lemma account_effect:
  assumes sh: "sched_shape s" and cpu: "cpu < 4" and r: "account cpu ticks s = Inr r" and ticks: "ticks \<le> 2"
  shows "effect s (snd r)"
proof (cases "current s ! cpu")
  case None
  then show ?thesis using r cpu shape_lengths [OF sh] by (auto simp: account_def)
next
  case (Some slot)
  obtain t where t: "get_task s slot = Inr t" "t_state t = 2" by (rule shape_current [OF sh cpu Some])
  then have slot: "slot < length (tasks s)" by (simp add: get_task_Inr_iff)
  show ?thesis
  proof (cases "ticks \<le> 0")
    case False
    then show ?thesis
      using r t slot Some cpu shape_lengths [OF sh] ticks
      by (intro effectI [of _ s 0 slot t "t\<lparr>t_runtime := t_runtime t + ticks\<rparr>"]) (auto simp: account_def get_set_task)
  qed (use r Some cpu shape_lengths [OF sh] in \<open>auto simp: account_def\<close>)
qed

lemma migrate_effect:
  assumes t: "get_task s slot = Inr t" and r: "migrate slot target s = Inr r"
  shows "effect s (snd r)"
proof (cases "t_state t \<noteq> 1 \<or> affinity t AND 2 ^ target = 0 \<or> queued t = Some target")
  case True
  then show ?thesis using r t by (auto simp: migrate_def)
next
  case False
  have slot: "slot < length (tasks s)" using t by (simp add: get_task_Inr_iff)
  show ?thesis
    using r t slot False
    by (intro effectI [of _ s 0 slot t "t\<lparr>queued := Some target, assigned := Some target\<rparr>"])
      (auto simp: migrate_def push_queue_def get_set_task rbind_Inr_iff split: option.splits if_splits)
qed

lemma dispatch_effect:
  assumes inv: "sched_inv s" and cpu: "cpu < 4" and r: "dispatch cpu s = Inr r"
  shows "effect s (snd r)"
proof (cases "current s ! cpu \<noteq> None \<or> queues s ! cpu = []")
  case True
  then show ?thesis using r dispatch_busy [of s cpu] inv cpu by (auto simp: sched_inv_def)
next
  case False
  then have idle: "current s ! cpu = None" and ne: "queues s ! cpu \<noteq> []" by simp_all
  obtain slot t s' where s': "dispatch cpu s = Inr (True, s')" "get_task s slot = Inr t"
      "dispatched cpu slot t s s'" "sequence s' = sequence s + 1" "dispatches s' = dispatches s + 1"
    using dispatch_chooses [OF inv cpu idle ne] by (elim exE conjE) (rule that)
  have "effect s s'"
  proof (rule effectI [OF s'(5,4) order_refl s'(2) dispatched_get_slot [OF s'(3)]])
    fix x v
    assume "x \<noteq> slot" "get_task s x = Inr v"
    then show "\<exists>w. get_task s' x = Inr w \<and> t_state w = t_state v \<and> t_dispatches w = t_dispatches v \<and> t_runtime w = t_runtime v"
      using s'(3) by (simp add: dispatched_def passed_def)
  qed simp_all
  moreover have "snd r = s'" using r s'(1) by auto
  ultimately show ?thesis by simp
qed


section \<open>The stress run\<close>

definition run_ok :: "scheduler \<Rightarrow> bool" where
  "run_ok s \<longleftrightarrow> sched_inv s \<and> all_active s \<and> dispatches s \<le> sequence s \<and>
     (\<forall>slot t. get_task s slot = Inr t \<longrightarrow>
        t_dispatches t \<le> dispatches s \<and> 0 \<le> t_runtime t \<and> t_runtime t \<le> 2 * int (sequence s))"

lemma run_ok_effect:
  assumes ok: "run_ok s" and e: "effect s s'" and inv: "sched_inv s'"
  shows "run_ok s'"
proof -
  have task: "\<exists>u. get_task s' slot = Inr u \<and> t_state u \<noteq> 0 \<and> t_dispatches u \<le> dispatches s' \<and>
      0 \<le> t_runtime u \<and> t_runtime u \<le> 2 * int (sequence s')" if slot: "slot < 8" for slot
  proof -
    obtain t where t: "get_task s slot = Inr t" "t_state t \<noteq> 0" "t_dispatches t \<le> dispatches s"
        "0 \<le> t_runtime t" "t_runtime t \<le> 2 * int (sequence s)"
      using ok slot by (auto simp: run_ok_def all_active_def)
    then obtain u where "get_task s' slot = Inr u" "t_state u \<noteq> 0"
        "t_dispatches u + dispatches s \<le> t_dispatches t + dispatches s'" "t_runtime t \<le> t_runtime u"
        "t_runtime u + 2 * int (sequence s) \<le> t_runtime t + 2 * int (sequence s')"
      using e by (auto simp: effect_def)
    with t show ?thesis by auto
  qed
  have "dispatches s' \<le> sequence s'" using ok e by (simp add: run_ok_def effect_def)
  moreover have "all_active s'" using task by (auto simp: all_active_def)
  moreover have "t_dispatches t \<le> dispatches s' \<and> 0 \<le> t_runtime t \<and> t_runtime t \<le> 2 * int (sequence s')"
    if t: "get_task s' slot = Inr t" for slot t
    using task [of slot] t shape_task_slot [OF _ t] inv by (auto simp: sched_inv_def)
  ultimately show ?thesis using inv by (simp add: run_ok_def)
qed

text \<open>An operation of the stress loop returns, keeps \<open>run_ok\<close> and takes at most one sequence number.\<close>

definition op_ok :: "(bool \<times> scheduler) res \<Rightarrow> scheduler \<Rightarrow> bool" where
  "op_ok r s \<longleftrightarrow> (\<exists>b s'. r = Inr (b, s') \<and> run_ok s' \<and> sequence s' \<le> sequence s + 1)"

lemma op_okI:
  assumes "run_ok s" "\<exists>r. op = Inr r \<and> sched_inv (snd r) \<and> sequence (snd r) \<le> sequence s + 1"
    "\<And>r. op = Inr r \<Longrightarrow> effect s (snd r)"
  shows "op_ok op s"
proof -
  obtain b s' where r: "op = Inr (b, s')" "sched_inv s'" "sequence s' \<le> sequence s + 1" using assms(2) by auto
  with run_ok_effect [OF assms(1) assms(3) [OF r(1)]] show ?thesis by (simp add: op_ok_def)
qed

lemma stress_ops_ok:
  assumes ok: "run_ok s" and cpu: "cpu < 4"
  shows "op_ok (dispatch cpu s) s" "op_ok (yield_current cpu s) s" "ticks \<le> 2 \<Longrightarrow> op_ok (account cpu ticks s) s"
    "slot < 8 \<Longrightarrow> op_ok (migrate slot target s) s"
proof -
  have inv: "sched_inv s" and sh: "sched_shape s" using ok by (simp_all add: run_ok_def sched_inv_def)
  show "op_ok (dispatch cpu s) s" by (rule op_okI [OF ok dispatch_total [OF inv cpu] dispatch_effect [OF inv cpu]])
  show "op_ok (yield_current cpu s) s" by (rule op_okI [OF ok yield_total [OF inv cpu] yield_effect [OF sh cpu]])
  show "op_ok (account cpu ticks s) s" if "ticks \<le> 2"
    by (rule op_okI [OF ok account_total [OF inv cpu] account_effect [OF sh cpu _ that]])
  show "op_ok (migrate slot target s) s" if slot: "slot < 8"
  proof -
    obtain t where t: "get_task s slot = Inr t" using ok slot by (auto simp: run_ok_def all_active_def)
    show ?thesis by (rule op_okI [OF ok migrate_total [OF inv t] migrate_effect [OF t]])
  qed
qed

lemma stress_cpu_ok:
  assumes ok: "run_ok s" and cpu: "cpu < 4"
  shows "\<exists>s'. stress_cpu random cpu s = Inr s' \<and> run_ok s' \<and> sequence s' \<le> sequence s + 2"
proof -
  have len: "cpu < length (current s)" using ok cpu by (simp add: run_ok_def sched_inv_def shape_lengths)
  consider "current s ! cpu = None" | "current s ! cpu \<noteq> None" "random AND 3 = 0"
    | "current s ! cpu \<noteq> None" "random AND 3 \<noteq> 0" "random AND 7 = 1"
    | "current s ! cpu \<noteq> None" "random AND 3 \<noteq> 0" "random AND 7 \<noteq> 1" by blast
  then show ?thesis
  proof cases
    case 1
    with stress_ops_ok(1) [OF ok cpu] len show ?thesis by (auto simp: stress_cpu_def op_ok_def)
  next
    case 2
    obtain b s1 where s1: "account cpu 1 s = Inr (b, s1)" "run_ok s1" "sequence s1 \<le> sequence s + 1"
      using stress_ops_ok(3) [OF ok cpu, of 1] by (auto simp: op_ok_def)
    obtain b' s2 where "yield_current cpu s1 = Inr (b', s2)" "run_ok s2" "sequence s2 \<le> sequence s1 + 1"
      using stress_ops_ok(2) [OF s1(2) cpu] by (auto simp: op_ok_def)
    with 2 s1 len show ?thesis by (auto simp: stress_cpu_def)
  next
    case 3
    obtain b s1 where "account cpu 2 s = Inr (b, s1)" "run_ok s1" "sequence s1 \<le> sequence s + 1"
      using stress_ops_ok(3) [OF ok cpu, of 2] by (auto simp: op_ok_def)
    with 3 len show ?thesis by (auto simp: stress_cpu_def)
  next
    case 4
    obtain b s1 where "yield_current cpu s = Inr (b, s1)" "run_ok s1" "sequence s1 \<le> sequence s + 1"
      using stress_ops_ok(2) [OF ok cpu] by (auto simp: op_ok_def)
    with 4 len show ?thesis by (auto simp: stress_cpu_def)
  qed
qed

lemma stress_step_ok:
  assumes ok: "run_ok s"
  shows "\<exists>s'. stress_step random s = Inr s' \<and> run_ok s' \<and> sequence s' \<le> sequence s + 3"
proof -
  define cpu where "cpu = nat (random mod int MAX_CPUS)"
  define slot where "slot = nat (((push_bit 9 random OR drop_bit 55 random) AND U64_MASK) mod int MAX_TASKS)"
  define target where "target = nat (((drop_bit 11 random OR push_bit 53 random) AND U64_MASK) mod int MAX_CPUS)"
  have cpu: "cpu < 4" by (simp add: cpu_def MAX_CPUS_def nat_less_iff)
  have slot: "slot < 8" by (simp add: slot_def MAX_TASKS_def nat_less_iff)
  obtain s1 where s1: "stress_cpu random cpu s = Inr s1" "run_ok s1" "sequence s1 \<le> sequence s + 2"
    using stress_cpu_ok [OF ok cpu] by blast
  obtain b s2 where s2: "migrate slot target s1 = Inr (b, s2)" "run_ok s2" "sequence s2 \<le> sequence s1 + 1"
    using stress_ops_ok(4) [OF s1(2) cpu slot, of target] by (auto simp: op_ok_def)
  have "validate s2 = Inr ()" using s2(2) by (intro validate_accepts) (simp_all add: run_ok_def)
  with s1 s2 show ?thesis
    by (simp add: stress_step_def cpu_def [symmetric] Let_def slot_def [symmetric] target_def [symmetric])
qed

lemma stress_loop_ok:
  "run_ok s \<Longrightarrow> \<exists>s'. stress_loop n random s = Inr s' \<and> run_ok s' \<and> sequence s' \<le> sequence s + 3 * n"
proof (induction n random s rule: stress_loop.induct)
  case (2 n random s)
  obtain s1 where s1: "stress_step (xorshift random) s = Inr s1" "run_ok s1" "sequence s1 \<le> sequence s + 3"
    using stress_step_ok [OF 2(2)] by blast
  from 2(1) [OF refl s1(2)] obtain s' where "stress_loop n (xorshift random) s1 = Inr s'" "run_ok s'"
      "sequence s' \<le> sequence s1 + 3 * n" by blast
  with s1 show ?case by simp
qed simp


text \<open>Set-up: after \<open>k\<close> rounds the first \<open>k\<close> tasks are queued and the others do not exist.\<close>

definition set_up :: "nat \<Rightarrow> scheduler \<Rightarrow> bool" where
  "set_up k s \<longleftrightarrow> sched_inv s \<and> dispatches s = 0 \<and> sequence s = 2 * k \<and>
     (\<forall>slot<8. if slot < k then \<exists>t. get_task s slot = Inr t \<and> t_state t = 1 \<and> t_dispatches t = 0 \<and> t_runtime t = 0
        else tasks s ! slot = None)"

lemma set_up_step:
  assumes s: "set_up k s" and k: "k < 8"
  shows "\<exists>s'. rbind (create_task k (int (k mod MAX_CPUS) + 8) s) (activate k (k mod MAX_CPUS)) = Inr s' \<and>
    set_up (Suc k) s'"
proof -
  have inv: "sched_inv s" and none: "tasks s ! k = None" using s k by (simp_all add: set_up_def)
  then have sh: "sched_shape s" by (simp add: sched_inv_def)
  let ?p = "int (k mod MAX_CPUS) + 8" and ?cpu = "k mod MAX_CPUS"
  define s1 where "s1 = (set_task s k (new_task k ?p))\<lparr>sequence := sequence s + 1\<rparr>"
  have cpu: "?cpu < 4" by (simp add: MAX_CPUS_def)
  have "\<not> (?p < 1)" "?p \<le> 31" using cpu by simp_all
  then have create: "create_task k ?p s = Inr s1"
    using none k by (simp add: create_task_def guarded_pass s1_def MAX_TASKS_def)
  have inv1: "sched_inv s1" by (rule create_task_inv [OF inv create])
  have klen: "k < length (tasks s)" using shape_lengths [OF sh] k by simp
  then have get1: "get_task s1 k = Inr (new_task k ?p)" by (simp add: s1_def get_set_task)
  let ?s2 = "enqueued ?cpu k (new_task k ?p) s1"
  have act: "activate k ?cpu s1 = Inr ?s2"
    using inv1 by (intro activate_total [OF _ get1 _ cpu]) (simp_all add: sched_inv_def new_task_def)
  have inv2: "sched_inv ?s2" by (rule activate_inv [OF inv1 act])
  have k1: "k < length (tasks s1)" using klen by (simp add: s1_def)
  have get2: "get_task ?s2 x = (if x = k then Inr ((new_task k ?p)\<lparr>t_state := 1, assigned := Some ?cpu, queued := Some ?cpu\<rparr>)
      else get_task s x)" for x
    using k1 klen by (simp add: enqueued_def get_set_task s1_def)
  have tasks2: "tasks ?s2 ! x = tasks s ! x" if "x \<noteq> k" for x
    using that by (simp add: enqueued_def s1_def set_task_def)
  have "if x < Suc k then \<exists>t. get_task ?s2 x = Inr t \<and> t_state t = 1 \<and> t_dispatches t = 0 \<and> t_runtime t = 0
      else tasks ?s2 ! x = None" if x: "x < 8" for x
  proof (cases "x = k")
    case True
    have "t_dispatches (new_task k ?p) = 0" "t_runtime (new_task k ?p) = 0" by (simp_all add: new_task_def)
    with True show ?thesis by (simp add: get2)
  next
    case False
    with s x have "if x < k then \<exists>t. get_task s x = Inr t \<and> t_state t = 1 \<and> t_dispatches t = 0 \<and> t_runtime t = 0
      else tasks s ! x = None" by (simp add: set_up_def)
    with False show ?thesis by (simp add: get2 tasks2 less_Suc_eq)
  qed
  moreover have "dispatches ?s2 = 0" "sequence ?s2 = 2 * Suc k"
    using s by (simp_all add: enqueued_def s1_def set_up_def)
  ultimately have "set_up (Suc k) ?s2" using inv2 by (simp add: set_up_def)
  with create act show ?thesis by simp
qed

lemma stress_setup_ok: "\<exists>s. stress_setup = Inr s \<and> run_ok s \<and> sequence s = 16"
proof -
  have "set_up 0 sched_init"
    by (simp add: set_up_def sched_init_inv) (simp add: sched_init_def MAX_TASKS_def)
  then have "\<exists>s. stress_setup = Inr s \<and> set_up 8 s"
    unfolding stress_setup_def MAX_TASKS_def by (intro rfold_upt [where P = set_up] set_up_step) simp_all
  then obtain s where s: "stress_setup = Inr s" "set_up 8 s" by blast
  have task: "\<exists>t. get_task s slot = Inr t \<and> t_state t = 1 \<and> t_dispatches t = 0 \<and> t_runtime t = 0" if "slot < 8" for slot
    using s(2) that by (simp add: set_up_def)
  then have "all_active s" by (force simp: all_active_def)
  moreover have "t_dispatches t = 0 \<and> t_runtime t = 0" if t: "get_task s slot = Inr t" for slot t
    using task [of slot] shape_task_slot [OF _ t] s(2) t by (auto simp: set_up_def sched_inv_def)
  ultimately show ?thesis using s by (auto simp: run_ok_def set_up_def)
qed


section \<open>The receipt\<close>

lemma fnv_values_return: "list_all (fits 8) vs \<Longrightarrow> \<exists>c'. rfold fnv_value vs c = Inr c'"
  by (induction vs arbitrary: c) (auto simp: fnv_value_def to_bytes8_def)

lemma task_values_fit:
  assumes ok: "run_ok s" and seq: "sequence s < 2 ^ 60" and t: "get_task s slot = Inr t"
  shows "list_all (fits 8) (task_values t)"
proof -
  have sh: "sched_shape s" and inv: "sched_inv s" using ok by (simp_all add: run_ok_def sched_inv_def)
  have tok: "task_ok s slot t" by (rule shape_task [OF sh t])
  have slot: "slot < 8" by (rule shape_task_slot [OF sh t])
  have by7: "bypass t \<le> 7" using bypass_bound [OF inv t] by (simp add: code_defs)
  have cnt: "t_dispatches t \<le> dispatches s" "0 \<le> t_runtime t" "t_runtime t \<le> 2 * int (sequence s)" "dispatches s \<le> sequence s"
    using ok t by (auto simp: run_ok_def)
  have "int (sequence s) < 2 ^ 60" using seq by (simp add: of_nat_less_numeral_power_cancel_iff)
  then have big: "int (t_dispatches t) < 2 ^ 64" "t_runtime t < 2 ^ 64" using cnt by simp_all
  have st: "t_state t = 0 \<or> t_state t = 1 \<or> t_state t = 2" using tok by (auto simp: task_ok_def)
  have asg: "case assigned t of None \<Rightarrow> True | Some cpu \<Rightarrow> cpu < 4" using tok by (simp add: task_ok_def)
  show ?thesis
    using tok slot by7 big st asg cnt(2)
    by (auto simp: task_values_def fits_def task_ok_def code_defs split: option.splits)
qed

lemma receipt_of_ok:
  assumes ok: "run_ok s" and seq: "sequence s < 2 ^ 60"
  shows "\<exists>r. receipt_of s = Inr r \<and> r_runnable r + r_running r = 8 \<and> r_blocked r = 0 \<and> r_dead r = 0 \<and>
    r_sequence r = sequence s \<and> r_dispatches r = dispatches s"
proof -
  have sh: "sched_shape s" using ok by (simp add: run_ok_def sched_inv_def)
  have task: "\<exists>t. get_task s slot = Inr t \<and> (t_state t = 1 \<or> t_state t = 2)" if slot: "slot < 8" for slot
  proof -
    obtain t where t: "get_task s slot = Inr t" "t_state t \<noteq> 0" using ok slot by (auto simp: run_ok_def all_active_def)
    with shape_task [OF sh t(1)] show ?thesis by (auto simp: task_ok_def)
  qed
  define st where "st slot = t_state (projr (get_task s slot))" for slot
  have st: "st slot = 1 \<or> st slot = 2" "rbind (get_task s slot) (\<lambda>t. Inr (t_state t)) = Inr (st slot)" if "slot < 8" for slot
    using task [OF that] by (auto simp: st_def)
  have states: "rmap (\<lambda>slot. rbind (get_task s slot) (\<lambda>t. Inr (t_state t))) [0..<MAX_TASKS] = Inr (map st [0..<8])"
    unfolding MAX_TASKS_def by (rule rmap_all_Inr) (simp add: st(2))
  have cnt: "count_list xs (1::int) + count_list xs 2 = length xs" "count_list xs 3 = 0" "count_list xs 4 = 0"
    if "\<forall>x \<in> set xs. x = 1 \<or> x = 2" for xs :: "int list"
    using that by (induction xs) auto
  let ?f = "\<lambda>slot (checksum, ds, rt). rbind (get_task s slot) (\<lambda>t.
       rbind (rfold fnv_value (task_values t) checksum) (\<lambda>checksum.
       Inr (checksum, ds @ [t_dispatches t], rt @ [t_runtime t])))"
  have step: "\<exists>a'. ?f i a = Inr a' \<and> True" if i: "i < 8" for i a
  proof -
    obtain t where t: "get_task s i = Inr t" using task [OF i] by blast
    obtain c' where "rfold fnv_value (task_values t) (fst a) = Inr c'"
      using fnv_values_return [OF task_values_fit [OF ok seq t]] by blast
    with t show ?thesis by (cases a) auto
  qed
  have "\<exists>a'. rfold ?f [0..<8] (FNV_OFFSET, [], []) = Inr a' \<and> True"
    by (rule rfold_upt [where P = "\<lambda>_ _. True"]) (use step in auto)
  then obtain c ds rt where "rfold ?f [0..<MAX_TASKS] (FNV_OFFSET, [], []) = Inr (c, ds, rt)"
    unfolding MAX_TASKS_def by auto
  moreover have "\<forall>x \<in> set (map st [0..<8]). x = 1 \<or> x = 2" using st(1) by auto
  ultimately show ?thesis using cnt [of "map st [0..<8]"] by (simp add: receipt_of_def states)
qed


section \<open>Runs\<close>

inductive sched_step :: "scheduler \<Rightarrow> scheduler \<Rightarrow> bool" where
  step_create: "create_task slot priority s = Inr s' \<Longrightarrow> sched_step s s'"
| step_activate: "activate slot cpu s = Inr s' \<Longrightarrow> sched_step s s'"
| step_dispatch: "cpu < MAX_CPUS \<Longrightarrow> dispatch cpu s = Inr (b, s') \<Longrightarrow> sched_step s s'"
| step_account: "cpu < MAX_CPUS \<Longrightarrow> account cpu ticks s = Inr (b, s') \<Longrightarrow> sched_step s s'"
| step_yield: "cpu < MAX_CPUS \<Longrightarrow> yield_current cpu s = Inr (b, s') \<Longrightarrow> sched_step s s'"
| step_migrate: "migrate slot target s = Inr (b, s') \<Longrightarrow> sched_step s s'"

lemma step_inv: "sched_step s s' \<Longrightarrow> sched_inv s \<Longrightarrow> sched_inv s'"
proof (induction rule: sched_step.induct)
  case (step_create slot priority s s')
  show ?case by (rule create_task_inv [OF step_create(2,1)])
next
  case (step_activate slot cpu s s')
  show ?case by (rule activate_inv [OF step_activate(2,1)])
next
  case (step_dispatch cpu s b s')
  then show ?case using dispatch_total [of s cpu] by (auto simp: MAX_CPUS_def)
next
  case (step_account cpu ticks s b s')
  then show ?case using account_total [of s cpu ticks] by (auto simp: MAX_CPUS_def)
next
  case (step_yield cpu s b s')
  then show ?case using yield_total [of s cpu] by (auto simp: MAX_CPUS_def)
next
  case (step_migrate slot target s b s')
  from step_migrate(1) obtain t where "get_task s slot = Inr t" by (auto simp: migrate_def rbind_Inr_iff)
  then show ?case using migrate_total [of s slot t target] step_migrate by auto
qed

lemma run_inv: "sched_step\<^sup>*\<^sup>* sched_init s \<Longrightarrow> sched_inv s"
  by (induction rule: rtranclp_induct) (auto simp: sched_init_inv intro: step_inv)

lemma inv_placed:
  assumes inv: "sched_inv s" and t: "get_task s slot = Inr t"
  shows "t_state t = 1 \<Longrightarrow> \<exists>!cpu. cpu < 4 \<and> slot \<in> set (queues s ! cpu)"
    "t_state t = 2 \<Longrightarrow> \<exists>!cpu. cpu < 4 \<and> current s ! cpu = Some slot"
proof -
  have sh: "sched_shape s" using inv by (simp add: sched_inv_def)
  note own = queue_owner [OF sh t] current_owner [OF sh t] and tok = shape_task [OF sh t]
  show "\<exists>!cpu. cpu < 4 \<and> slot \<in> set (queues s ! cpu)" if st: "t_state t = 1"
  proof -
    obtain c where "c < 4" "queued t = Some c" using tok st by (auto simp: task_ok_def)
    with own(1) st show ?thesis by (intro ex1I [of _ c]) auto
  qed
  show "\<exists>!cpu. cpu < 4 \<and> current s ! cpu = Some slot" if st: "t_state t = 2"
  proof -
    obtain c where "c < 4" "assigned t = Some c" using tok st by (auto simp: task_ok_def)
    with own(2) st show ?thesis by (intro ex1I [of _ c]) auto
  qed
qed

text \<open>A two-task run used by the witnesses: both tasks have priority 8 and sit in the queue of CPU 0.\<close>

definition two_tasks :: scheduler where
  "two_tasks = enqueued 0 1 (new_task 1 8) (enqueued 0 0 (new_task 0 8)
     ((set_task ((set_task sched_init 0 (new_task 0 8))\<lparr>sequence := 1\<rparr>) 1 (new_task 1 8))\<lparr>sequence := 2\<rparr>))"

lemmas two_tasks_eval = two_tasks_def enqueued_def new_task_def set_task_def sched_init_def MAX_TASKS_def MAX_CPUS_def
  COMPLETE_CPU_MASK_def

lemma two_tasks_run: "sched_step\<^sup>*\<^sup>* sched_init two_tasks"
proof -
  let ?a = "(set_task sched_init 0 (new_task 0 8))\<lparr>sequence := 1\<rparr>"
  let ?b = "(set_task ?a 1 (new_task 1 8))\<lparr>sequence := 2\<rparr>"
  let ?c = "enqueued 0 0 (new_task 0 8) ?b"
  have a: "create_task 0 8 sched_init = Inr ?a"
    by (simp add: create_task_def guarded_pass two_tasks_eval)
  have b: "create_task 1 8 ?a = Inr ?b"
    by (simp add: create_task_def guarded_pass two_tasks_eval)
  have c: "activate 0 0 ?b = Inr ?c"
    by (simp add: activate_def get_task_def push_queue_def guarded_pass two_tasks_eval)
  have d: "activate 1 0 ?c = Inr two_tasks"
    by (simp add: activate_def get_task_def push_queue_def guarded_pass two_tasks_eval)
  have "sched_step\<^sup>*\<^sup>* sched_init ?a" using step_create [OF a] by (rule r_into_rtranclp)
  then have "sched_step\<^sup>*\<^sup>* sched_init ?b" using step_create [OF b] by (rule rtranclp.rtrancl_into_rtrancl)
  then have "sched_step\<^sup>*\<^sup>* sched_init ?c" using step_activate [OF c] by (rule rtranclp.rtrancl_into_rtrancl)
  then show ?thesis using step_activate [OF d] by (rule rtranclp.rtrancl_into_rtrancl)
qed

text \<open>C11. In every state the operations can reach from the empty scheduler, an existing task has been
  passed over by equal-priority dispatches at most \<open>MAX_BYPASS\<close> times, a runnable task is in exactly one run
  queue and a running task is current on exactly one CPU.\<close>

theorem scheduler_reachable_invariant:
  assumes "sched_step\<^sup>*\<^sup>* sched_init s" "get_task s slot = Inr t"
  shows "bypass t \<le> MAX_BYPASS \<and>
    (t_state t = 1 \<longrightarrow> (\<exists>!cpu. cpu < MAX_CPUS \<and> slot \<in> set (queues s ! cpu))) \<and>
    (t_state t = 2 \<longrightarrow> (\<exists>!cpu. cpu < MAX_CPUS \<and> current s ! cpu = Some slot))"
  using bypass_bound [OF run_inv [OF assms(1)] assms(2)] inv_placed [OF run_inv [OF assms(1)] assms(2)]
  by (simp add: MAX_CPUS_def)

theorem scheduler_reachable_invariant_witness:
  "\<exists>!cpu. cpu < MAX_CPUS \<and> 1 \<in> set (queues two_tasks ! cpu)"
proof -
  have "get_task two_tasks 1 = Inr ((new_task 1 8)\<lparr>t_state := 1, assigned := Some 0, queued := Some 0\<rparr>)"
    by (simp add: get_task_def two_tasks_eval)
  from scheduler_reachable_invariant [OF two_tasks_run this] show ?thesis by simp
qed

text \<open>C13. In every reachable state, \<open>dispatch\<close> on an idle CPU with a non-empty queue returns: it never raises
  the bypass-overflow error. It makes current a queued task that no other task of the queue is ahead of (by
  effective priority, then by how often it was passed over), removes exactly that task from the queue and
  leaves every other queue and current task alone.\<close>

theorem dispatch_selects_best:
  assumes "sched_step\<^sup>*\<^sup>* sched_init s" "cpu < MAX_CPUS" "current s ! cpu = None" "queues s ! cpu \<noteq> []"
  shows "\<exists>slot t s'. dispatch cpu s = Inr (True, s') \<and> slot \<in> set (queues s ! cpu) \<and> get_task s slot = Inr t \<and>
    (\<forall>x u. x \<in> set (queues s ! cpu) \<longrightarrow> get_task s x = Inr u \<longrightarrow>
       \<not> (effective_priority u > effective_priority t \<or> effective_priority u = effective_priority t \<and> bypass u > bypass t)) \<and>
    current s' ! cpu = Some slot \<and> set (queues s' ! cpu) = set (queues s ! cpu) - {slot} \<and>
    (\<forall>c<MAX_CPUS. c \<noteq> cpu \<longrightarrow> queues s' ! c = queues s ! c \<and> current s' ! c = current s ! c)"
proof -
  have cpu: "cpu < 4" using assms(2) by (simp add: MAX_CPUS_def)
  obtain slot t s' where s': "dispatch cpu s = Inr (True, s')" "slot \<in> set (queues s ! cpu)" "get_task s slot = Inr t"
      "\<forall>x u. x \<in> set (queues s ! cpu) \<longrightarrow> get_task s x = Inr u \<longrightarrow> \<not> ahead u t" "dispatched cpu slot t s s'"
    using dispatch_chooses [OF run_inv [OF assms(1)] cpu assms(3,4)] by (elim exE conjE) (rule that)
  have "current s' ! cpu = Some slot" "set (queues s' ! cpu) = set (queues s ! cpu) - {slot}"
    using s'(5) cpu by (simp_all add: dispatched_def)
  moreover have "\<forall>c<MAX_CPUS. c \<noteq> cpu \<longrightarrow> queues s' ! c = queues s ! c \<and> current s' ! c = current s ! c"
    using s'(5) by (simp add: dispatched_def MAX_CPUS_def)
  ultimately show ?thesis using s'(1-4) unfolding ahead_def by (intro exI conjI)
qed

theorem dispatch_selects_best_witness: "\<exists>s'. dispatch 0 two_tasks = Inr (True, s') \<and> length (queues s' ! 1) = 0"
proof -
  have q: "current two_tasks ! 0 = None" "queues two_tasks ! 0 \<noteq> []" "queues two_tasks ! 1 = []" "0 < MAX_CPUS" "1 < MAX_CPUS"
    by (simp_all add: two_tasks_eval)
  obtain slot t s' where s': "dispatch 0 two_tasks = Inr (True, s')"
      "\<forall>c<MAX_CPUS. c \<noteq> 0 \<longrightarrow> queues s' ! c = queues two_tasks ! c \<and> current s' ! c = current two_tasks ! c"
    using dispatch_selects_best [OF two_tasks_run q(4,1,2)] by (elim exE conjE) (rule that)
  from s'(2) q(5) have "queues s' ! 1 = queues two_tasks ! 1" by simp
  with s'(1) q(3) show ?thesis by simp
qed

text \<open>C12. The deterministic stress run terminates with a receipt: none of the 4096 rounds raises, every
  \<open>validate\<close> in the loop accepts, every counter fits the eight bytes it is hashed in, and at the end the
  eight tasks are all runnable or running, none blocked and none dead.\<close>

theorem stress_oracle_returns:
  "\<exists>r. stress_oracle = Inr r \<and> r_runnable r + r_running r = MAX_TASKS \<and> r_blocked r = 0 \<and> r_dead r = 0 \<and>
    r_dispatches r \<le> r_sequence r \<and> r_sequence r \<le> 16 + 3 * 4096"
proof -
  obtain s where s: "stress_setup = Inr s" "run_ok s" "sequence s = 16" using stress_setup_ok by blast
  obtain s' where s': "stress_loop 4096 0x5A1791D36C8E204F s = Inr s'" "run_ok s'" "sequence s' \<le> 16 + 3 * 4096"
    using stress_loop_ok [OF s(2), of 4096 "0x5A1791D36C8E204F"] s(3) by auto
  have "sequence s' < 2 ^ 60" using s'(3) by simp
  from receipt_of_ok [OF s'(2) this] obtain r where r: "receipt_of s' = Inr r" "r_runnable r + r_running r = 8"
      "r_blocked r = 0" "r_dead r = 0" "r_sequence r = sequence s'" "r_dispatches r = dispatches s'" by blast
  have "stress_oracle = Inr r" by (simp add: stress_oracle_def s(1) s'(1) r(1))
  moreover have "r_dispatches r \<le> r_sequence r" using s'(2) r(5,6) by (simp add: run_ok_def)
  ultimately show ?thesis using r(2-5) s'(3) by (intro exI [of _ r]) (simp add: MAX_TASKS_def)
qed


section \<open>The masked arithmetic is 64-bit arithmetic\<close>

definition xorshift64 :: "64 word \<Rightarrow> 64 word" where
  "xorshift64 w =
     (let w = w XOR push_bit 13 w; w = w XOR drop_bit 7 w in w XOR push_bit 17 w)"

lemma U64_mask: "x AND U64_MASK = take_bit 64 x"
  by (simp add: U64_MASK_def take_bit_eq_mask mask_eq_exp_minus_1)

lemma uint_xorshifts64:
  fixes w :: "64 word"
  shows "(uint w XOR (push_bit n (uint w) AND U64_MASK)) AND U64_MASK = uint (w XOR push_bit n w)"
    "(uint w XOR drop_bit n (uint w)) AND U64_MASK = uint (w XOR drop_bit n w)"
  by (rule bit_eqI; auto simp: U64_mask bit_simps dest: bit_imp_le_length)+

text \<open>The stress run's generator, computed on unbounded integers with masks, is the 64-bit xorshift of
  machine words.\<close>

theorem xorshift_is_word_xorshift: "xorshift (uint w) = uint (xorshift64 w)"
  by (simp only: xorshift_def xorshift64_def Let_def uint_xorshifts64)

end
