(* ===== verification/Smp_Shootdown.thy ===== *)
theory Smp_Shootdown
  imports Prelude
begin

unbundle bit_operations_syntax

text \<open>
  PKSMP5, the inter-processor request and TLB-shootdown model of
  \<open>src/runtime/native_kernel_smp_ipi.py\<close>: the private resource layout of an application
  processor, the request mailbox checks, the shootdown request and acknowledgement checks,
  the deferred-reclaim and start-up state machines, and the receipt accounting. The source's
  dictionaries of integers are records; its stage strings are constructors.
\<close>

definition SMP_PAGE_BYTES :: int where [code_defs]: "SMP_PAGE_BYTES = 4096"
definition SMP_U64_MASK :: int where [code_defs]: "SMP_U64_MASK = 2 ^ 64 - 1"
definition RESOURCE_PAGE_COUNT :: int where [code_defs]: "RESOURCE_PAGE_COUNT = 32"
definition AP_COUNT :: nat where [code_defs]: "AP_COUNT = 3"
definition EXPECTED_APIC_IDS :: "int list" where [code_defs]: "EXPECTED_APIC_IDS = [1, 2, 3]"
definition PARTIAL_STARTED_MASK :: int where [code_defs]: "PARTIAL_STARTED_MASK = 0x6"
definition TARGET_CPU_MASK :: int where [code_defs]: "TARGET_CPU_MASK = 0xE"
definition OFFLINE_CPU_MASK :: int where [code_defs]: "OFFLINE_CPU_MASK = 0x10"
definition CAPABILITY_HIGH :: int where [code_defs]: "CAPABILITY_HIGH = 0x504F4F4C454F5349"
definition CAPABILITY_LOW :: int where [code_defs]: "CAPABILITY_LOW = 0x504B534D50350001"
definition REQUEST_CHECKSUM_SEED :: int where [code_defs]: "REQUEST_CHECKSUM_SEED = 0x4950495245510001"
definition RESPONSE_CHECKSUM_SEED :: int where [code_defs]: "RESPONSE_CHECKSUM_SEED = 0x4950495253500001"
definition SHOOTDOWN_MAGIC :: int where [code_defs]: "SHOOTDOWN_MAGIC = 0x504B534D5035544C"
definition SHOOTDOWN_VERSION :: int where [code_defs]: "SHOOTDOWN_VERSION = 2"
definition SHOOTDOWN_STATE_ACKED :: int where [code_defs]: "SHOOTDOWN_STATE_ACKED = 3"
definition SHOOTDOWN_REQUEST_CHECKSUM_SEED :: int where
  [code_defs]: "SHOOTDOWN_REQUEST_CHECKSUM_SEED = 0x53484F4F54524551"
definition SHOOTDOWN_RESPONSE_CHECKSUM_SEED :: int where
  [code_defs]: "SHOOTDOWN_RESPONSE_CHECKSUM_SEED = 0x53484F4F54525350"
definition AGGREGATE_FNV_OFFSET :: int where [code_defs]: "AGGREGATE_FNV_OFFSET = 0xCBF29CE484222325"
definition AGGREGATE_FNV_PRIME :: int where [code_defs]: "AGGREGATE_FNV_PRIME = 0x00000100000001B3"
definition RETIRED_GENERATION :: int where [code_defs]: "RETIRED_GENERATION = 1"
definition ACTIVE_GENERATION :: int where [code_defs]: "ACTIVE_GENERATION = 2"
definition PROBE_VIRTUAL_ADDRESS :: int where [code_defs]: "PROBE_VIRTUAL_ADDRESS = 0x001FF000"
definition OLD_FRAME_VALUE :: int where [code_defs]: "OLD_FRAME_VALUE = 0x504B534D50354F4C"
definition NEW_FRAME_VALUE :: int where [code_defs]: "NEW_FRAME_VALUE = 0x504B534D50354E57"

record ipi_operation =
  op_name :: string
  op_vector :: int
  op_payload :: int
  op_result :: int

definition OPERATIONS :: "int \<Rightarrow> ipi_operation option" where
  "OPERATIONS = map_of [
     (1, \<lparr>op_name = ''reschedule'', op_vector = 224, op_payload = 0, op_result = 0x5253434845440001\<rparr>),
     (2, \<lparr>op_name = ''shootdown_remote_invlpg'', op_vector = 225, op_payload = 2, op_result = 0x53484F4F54000002\<rparr>),
     (3, \<lparr>op_name = ''call_allowlist_noop'', op_vector = 226, op_payload = 0x504B4E4F4F500001, op_result = 0x43414C4C4E4F4F50\<rparr>),
     (4, \<lparr>op_name = ''diagnostic'', op_vector = 227, op_payload = 0x504B444941470001, op_result = 0x444941474E4F0001\<rparr>),
     (5, \<lparr>op_name = ''panic_notice'', op_vector = 228, op_payload = 0x504B50414E490001, op_result = 0x50414E4943000001\<rparr>),
     (6, \<lparr>op_name = ''stop'', op_vector = 229, op_payload = 0x504B53544F500001, op_result = 0x53544F5000000001\<rparr>)]"


section \<open>Private resources of an application processor\<close>

definition resource_roles :: "(string \<times> int list) list" where
  "resource_roles = [
     (''trampoline'', [0]), (''tables'', [1, 2, 3, 4]), (''rsp0'', [6, 7, 8, 9]),
     (''local'', [12]), (''descriptors'', [15]), (''idt'', [18]), (''ist1'', [21, 22]),
     (''ist2'', [25, 26]), (''xstate'', [29]), (''apic_page_table'', [31]),
     (''guards'', [5, 10, 11, 13, 14, 16, 17, 19, 20, 23, 24, 27, 28, 30])]"

record smp_layout =
  l_start :: int
  l_end :: int
  l_sipi_vector :: int
  l_pml4 :: int
  l_local :: int
  l_apic_page_table :: int
  l_roles :: "(string \<times> int list) list"

definition resource_layout :: "int \<Rightarrow> int \<Rightarrow> smp_layout res" where
  "resource_layout start_page page_count =
     guarded [(\<not> (start_page > 0 \<and> page_count = RESOURCE_PAGE_COUNT), ''PKSMP5 resource geometry changed'')]
     (let start = start_page * SMP_PAGE_BYTES;
          end = start + page_count * SMP_PAGE_BYTES;
          flattened = sort (concat (map snd resource_roles))
      in guarded [
           (\<not> (end \<le> 0x100000 \<and> start_page \<le> 0xFF), ''PKSMP5 resources escaped SIPI memory''),
           (flattened \<noteq> map int [0..<nat RESOURCE_PAGE_COUNT], ''PKSMP5 resource roles are incomplete'')]
         (Inr \<lparr>l_start = start, l_end = end, l_sipi_vector = start_page, l_pml4 = start + SMP_PAGE_BYTES,
            l_local = start + 12 * SMP_PAGE_BYTES, l_apic_page_table = start + 31 * SMP_PAGE_BYTES,
            l_roles = resource_roles\<rparr>))"

definition local_target_mask :: "int \<Rightarrow> int res" where
  "local_target_mask apic_id =
     guarded [(\<not> (0 < apic_id \<and> apic_id < 64), ''PKSMP5 APIC ID cannot form a target bit'')]
     (Inr (push_bit (nat apic_id) 1))"

definition validate_exact_topology :: "int \<Rightarrow> int \<Rightarrow> int \<Rightarrow> int list \<Rightarrow> unit res" where
  "validate_exact_topology processors enabled bsp_apic_id targets =
     guarded [
       (\<not> (processors = 4 \<and> enabled = 4 \<and> bsp_apic_id = 0), ''PKSMP5 exact topology changed''),
       (\<not> (targets = EXPECTED_APIC_IDS \<and> card (set targets) = AP_COUNT), ''PKSMP5 APIC ownership changed'')]
     (rbind (rmap local_target_mask targets) (\<lambda>masks.
      guarded [(sum_list masks \<noteq> TARGET_CPU_MASK, ''PKSMP5 target mask changed'')] (Inr ())))"


section \<open>Requests\<close>

record ipi_request =
  q_capability_high :: int
  q_capability_low :: int
  q_attempt :: int
  q_sequence :: int
  q_operation :: int
  q_vector :: int
  q_target_apic_id :: int
  q_status :: int
  q_payload :: int
  q_checksum :: int

definition request_checksum :: "ipi_request \<Rightarrow> int" where
  "request_checksum q = REQUEST_CHECKSUM_SEED XOR q_capability_high q XOR q_capability_low q XOR q_attempt q XOR
     q_sequence q XOR q_payload q XOR q_operation q XOR q_vector q XOR q_target_apic_id q"

definition canonical_request :: "int \<Rightarrow> int \<Rightarrow> int \<Rightarrow> int \<Rightarrow> ipi_request res" where
  "canonical_request attempt sequence operation target_apic_id =
     (case OPERATIONS operation of
        None \<Rightarrow> Inl (Fail ''PKSMP5 operation is not allowlisted'')
      | Some op \<Rightarrow>
          let q = \<lparr>q_capability_high = CAPABILITY_HIGH, q_capability_low = CAPABILITY_LOW, q_attempt = attempt,
                q_sequence = sequence, q_operation = operation, q_vector = op_vector op,
                q_target_apic_id = target_apic_id, q_status = 1, q_payload = op_payload op, q_checksum = 0\<rparr>
          in Inr (q\<lparr>q_checksum := request_checksum q\<rparr>))"

definition validate_request :: "ipi_request \<Rightarrow> int \<Rightarrow> int \<Rightarrow> int \<Rightarrow> int \<Rightarrow> unit res" where
  "validate_request q handler_operation target_apic_id prior_attempt last_sequence =
     guarded [
       (q_status q \<noteq> 1, ''PKSMP5 request is not armed''),
       (\<not> (q_capability_high q = CAPABILITY_HIGH \<and> q_capability_low q = CAPABILITY_LOW), ''PKSMP5 capability mismatch''),
       (q_attempt q \<noteq> prior_attempt + 1, ''PKSMP5 attempt replay control failed'')]
     (case OPERATIONS handler_operation of
        None \<Rightarrow> Inl (Fail ''PKSMP5 operation mismatch'')
      | Some op \<Rightarrow> guarded [
          (q_operation q \<noteq> handler_operation, ''PKSMP5 operation mismatch''),
          (q_vector q \<noteq> op_vector op, ''PKSMP5 vector mismatch''),
          (q_target_apic_id q \<noteq> target_apic_id, ''PKSMP5 target mismatch''),
          (q_checksum q \<noteq> request_checksum q, ''PKSMP5 request checksum mismatch''),
          (q_sequence q \<noteq> last_sequence + 1, ''PKSMP5 stale or duplicate sequence''),
          (q_payload q \<noteq> op_payload op, ''PKSMP5 payload mismatch'')] (Inr ()))"

record ipi_response =
  a_attempt :: int
  a_sequence :: int
  a_result :: int
  a_last_accepted :: int
  a_operation :: int
  a_status :: int
  a_error :: int
  a_delivery_count :: int
  a_accepted_count :: int
  a_denied_count :: int

definition response_checksum :: "ipi_response \<Rightarrow> int" where
  "response_checksum a = fold (\<lambda>v result. result XOR v)
     [a_attempt a, a_sequence a, a_result a, a_last_accepted a, a_operation a, a_status a, a_error a,
      a_delivery_count a, a_accepted_count a, a_denied_count a] RESPONSE_CHECKSUM_SEED"


section \<open>Shootdown requests and acknowledgements\<close>

record sd_request =
  s_root_physical :: int
  s_virtual_address :: int
  s_retired_generation :: int
  s_active_generation :: int
  s_target_mask :: int
  s_old_frame_physical :: int
  s_new_frame_physical :: int
  s_checksum :: int

definition shootdown_request_checksum :: "sd_request \<Rightarrow> int" where
  "shootdown_request_checksum q = SHOOTDOWN_REQUEST_CHECKSUM_SEED XOR s_root_physical q XOR s_virtual_address q XOR
     s_retired_generation q XOR s_active_generation q XOR s_target_mask q XOR s_old_frame_physical q XOR
     s_new_frame_physical q"

definition canonical_shootdown_request :: "int \<Rightarrow> int \<Rightarrow> int \<Rightarrow> int \<Rightarrow> sd_request res" where
  "canonical_shootdown_request root old_frame new_frame target_apic_id =
     rbind (local_target_mask target_apic_id) (\<lambda>m.
     let q = \<lparr>s_root_physical = root, s_virtual_address = PROBE_VIRTUAL_ADDRESS, s_retired_generation = RETIRED_GENERATION,
           s_active_generation = ACTIVE_GENERATION, s_target_mask = m, s_old_frame_physical = old_frame,
           s_new_frame_physical = new_frame, s_checksum = 0\<rparr>
     in Inr (q\<lparr>s_checksum := shootdown_request_checksum q\<rparr>))"

definition validate_shootdown_request :: "sd_request \<Rightarrow> int \<Rightarrow> int \<Rightarrow> int \<Rightarrow> unit res" where
  "validate_shootdown_request q expected_root last_ack_generation target_apic_id =
     guarded [
       (\<not> (s_root_physical q = expected_root \<and> expected_root \<noteq> 0 \<and> expected_root mod SMP_PAGE_BYTES = 0),
        ''PKSMP5 shootdown root is invalid''),
       (\<not> (s_virtual_address q = PROBE_VIRTUAL_ADDRESS \<and> s_virtual_address q mod SMP_PAGE_BYTES = 0),
        ''PKSMP5 shootdown address is invalid''),
       (\<not> (s_retired_generation q = RETIRED_GENERATION \<and> s_active_generation q = RETIRED_GENERATION + 1 \<and>
           s_active_generation q > last_ack_generation), ''PKSMP5 shootdown generation is stale'')]
     (rbind (local_target_mask target_apic_id) (\<lambda>m.
      guarded [
        (s_target_mask q \<noteq> m, ''PKSMP5 local target mask changed''),
        (\<not> (s_old_frame_physical q \<noteq> s_new_frame_physical q \<and> s_old_frame_physical q \<noteq> 0 \<and>
            s_new_frame_physical q \<noteq> 0 \<and> s_old_frame_physical q mod SMP_PAGE_BYTES = 0 \<and>
            s_new_frame_physical q mod SMP_PAGE_BYTES = 0), ''PKSMP5 frame binding is invalid''),
        (s_checksum q \<noteq> shootdown_request_checksum q, ''PKSMP5 shootdown request checksum mismatch'')]
      (Inr ())))"

record sd_snapshot =
  n_magic :: int
  n_version :: int
  n_state :: int
  n_error :: int
  n_root_physical :: int
  n_virtual_address :: int
  n_retired_generation :: int
  n_active_generation :: int
  n_target_mask :: int
  n_old_frame_physical :: int
  n_new_frame_physical :: int
  n_ack_mask :: int
  n_observed_before :: int
  n_observed_after :: int
  n_invalidation_count :: int
  n_request_checksum :: int
  n_response_checksum :: int
  n_last_ack_generation :: int
  n_timeout_count :: int
  n_reclaim_state :: int

definition shootdown_response_checksum :: "sd_snapshot \<Rightarrow> int" where
  "shootdown_response_checksum n = fold (\<lambda>v result. result XOR v)
     [n_root_physical n, n_virtual_address n, n_active_generation n, n_target_mask n, n_ack_mask n,
      n_observed_before n, n_observed_after n, n_invalidation_count n, n_last_ack_generation n, n_state n, n_error n]
     SHOOTDOWN_RESPONSE_CHECKSUM_SEED"

definition canonical_shootdown_snapshot :: "sd_request \<Rightarrow> int \<Rightarrow> sd_snapshot" where
  "canonical_shootdown_snapshot q timeout_count =
     (let n = \<lparr>n_magic = SHOOTDOWN_MAGIC, n_version = SHOOTDOWN_VERSION, n_state = SHOOTDOWN_STATE_ACKED, n_error = 0,
          n_root_physical = s_root_physical q, n_virtual_address = s_virtual_address q,
          n_retired_generation = s_retired_generation q, n_active_generation = s_active_generation q,
          n_target_mask = s_target_mask q, n_old_frame_physical = s_old_frame_physical q,
          n_new_frame_physical = s_new_frame_physical q, n_ack_mask = s_target_mask q,
          n_observed_before = OLD_FRAME_VALUE, n_observed_after = NEW_FRAME_VALUE, n_invalidation_count = 1,
          n_request_checksum = s_checksum q, n_response_checksum = 0, n_last_ack_generation = s_active_generation q,
          n_timeout_count = timeout_count, n_reclaim_state = 3\<rparr>
      in n\<lparr>n_response_checksum := shootdown_response_checksum n\<rparr>)"

definition validate_shootdown_ack :: "sd_snapshot \<Rightarrow> sd_request \<Rightarrow> int \<Rightarrow> unit res" where
  "validate_shootdown_ack n q target_apic_id =
     rbind (validate_shootdown_request q (s_root_physical q) 0 target_apic_id) (\<lambda>_.
     guarded [
       (\<not> (n_magic n = SHOOTDOWN_MAGIC \<and> n_version n = SHOOTDOWN_VERSION \<and> n_state n = SHOOTDOWN_STATE_ACKED \<and> n_error n = 0),
        ''PKSMP5 acknowledgement state changed''),
       (n_root_physical n \<noteq> s_root_physical q, ''PKSMP5 acknowledgement root_physical mismatch''),
       (n_virtual_address n \<noteq> s_virtual_address q, ''PKSMP5 acknowledgement virtual_address mismatch''),
       (n_retired_generation n \<noteq> s_retired_generation q, ''PKSMP5 acknowledgement retired_generation mismatch''),
       (n_active_generation n \<noteq> s_active_generation q, ''PKSMP5 acknowledgement active_generation mismatch''),
       (n_target_mask n \<noteq> s_target_mask q, ''PKSMP5 acknowledgement target_mask mismatch''),
       (n_old_frame_physical n \<noteq> s_old_frame_physical q, ''PKSMP5 acknowledgement old_frame_physical mismatch''),
       (n_new_frame_physical n \<noteq> s_new_frame_physical q, ''PKSMP5 acknowledgement new_frame_physical mismatch'')]
     (rbind (local_target_mask target_apic_id) (\<lambda>m.
      guarded [
        (n_ack_mask n \<noteq> m, ''PKSMP5 acknowledgement mask mismatch''),
        (\<not> (n_observed_before n = OLD_FRAME_VALUE \<and> n_observed_after n = NEW_FRAME_VALUE \<and>
            n_invalidation_count n = 1 \<and> n_last_ack_generation n = ACTIVE_GENERATION),
         ''PKSMP5 invalidation receipt changed''),
        (\<not> (n_request_checksum n = s_checksum q \<and> n_response_checksum n = shootdown_response_checksum n),
         ''PKSMP5 acknowledgement checksum mismatch'')]
      (Inr ()))))"


section \<open>The deferred-reclaim machine\<close>

datatype reclaim_stage = Prepared | TimedOut | Armed | Acknowledging | Authorized | Released

record reclaim =
  rc_requests :: "sd_request list"
  rc_stage :: reclaim_stage
  rc_ack_mask :: int

text \<open>A single request passed to the constructor is the one-element list of it.\<close>

definition reclaim_init :: "sd_request list \<Rightarrow> reclaim res" where
  "reclaim_init requests =
     rbind (rfold (\<lambda>(index, q) _.
         if index < length EXPECTED_APIC_IDS
         then validate_shootdown_request q (s_root_physical q) 0 (EXPECTED_APIC_IDS ! index)
         else Inl IndexError) (enumerate 0 requests) ()) (\<lambda>_.
     Inr \<lparr>rc_requests = requests, rc_stage = Prepared, rc_ack_mask = 0\<rparr>)"

definition reclaim_arm :: "reclaim \<Rightarrow> reclaim res" where
  "reclaim_arm m =
     guarded [(\<not> (rc_stage m = Prepared \<or> rc_stage m = TimedOut), ''PKSMP5 reclaim arm transition changed'')]
     (Inr (m\<lparr>rc_stage := Armed\<rparr>))"

definition reclaim_timeout :: "reclaim \<Rightarrow> reclaim res" where
  "reclaim_timeout m =
     guarded [(rc_stage m \<noteq> Armed, ''PKSMP5 reclaim timeout transition changed'')]
     (Inr (m\<lparr>rc_stage := TimedOut\<rparr>))"

definition reclaim_retry :: "reclaim \<Rightarrow> reclaim res" where
  "reclaim_retry m = reclaim_arm m"

fun index_of :: "int \<Rightarrow> int list \<Rightarrow> nat res" where
  "index_of x [] = Inl ValueError"
| "index_of x (y # ys) = (if x = y then Inr 0 else rbind (index_of x ys) (\<lambda>i. Inr (Suc i)))"

definition reclaim_acknowledge :: "sd_snapshot \<Rightarrow> int \<Rightarrow> reclaim \<Rightarrow> reclaim res" where
  "reclaim_acknowledge n target_apic_id m =
     guarded [(\<not> (rc_stage m = Armed \<or> rc_stage m = Acknowledging), ''PKSMP5 acknowledgement arrived out of state'')]
     (rbind (index_of target_apic_id EXPECTED_APIC_IDS) (\<lambda>index.
      rbind (local_target_mask target_apic_id) (\<lambda>mask.
      guarded [(rc_ack_mask m AND mask \<noteq> 0, ''PKSMP5 duplicate acknowledgement'')]
      (if index < length (rc_requests m) then
         rbind (validate_shootdown_ack n (rc_requests m ! index) target_apic_id) (\<lambda>_.
         Inr (m\<lparr>rc_ack_mask := rc_ack_mask m OR mask, rc_stage := Acknowledging\<rparr>))
       else Inl IndexError))))"

definition reclaim_authorize :: "reclaim \<Rightarrow> reclaim res" where
  "reclaim_authorize m =
     guarded [(\<not> (rc_stage m = Acknowledging \<and> rc_ack_mask m = sum_list (map s_target_mask (rc_requests m))),
        ''PKSMP5 reclaim authorization preceded exact acknowledgements'')]
     (Inr (m\<lparr>rc_stage := Authorized\<rparr>))"

definition reclaim_release :: "reclaim \<Rightarrow> reclaim res" where
  "reclaim_release m =
     guarded [(rc_stage m \<noteq> Authorized, ''PKSMP5 reclaim release preceded authorization'')]
     (Inr (m\<lparr>rc_stage := Released\<rparr>))"

text \<open>
  The replay of \<open>validate_markers\<close>: arm, time out, retry, then acknowledge processor by
  processor; an authorization before the last acknowledgement must raise the model's error.
\<close>

definition reclaim_round :: "nat \<times> sd_request \<Rightarrow> reclaim \<Rightarrow> reclaim res" where
  "reclaim_round = (\<lambda>(index, q) m.
     if index < length EXPECTED_APIC_IDS then
       rbind (reclaim_acknowledge (canonical_shootdown_snapshot q (of_bool (index = 0))) (EXPECTED_APIC_IDS ! index) m) (\<lambda>m.
       if index + 1 \<noteq> AP_COUNT then
         (case reclaim_authorize m of
            Inl (Fail _) \<Rightarrow> Inr m
          | Inl e \<Rightarrow> Inl e
          | Inr _ \<Rightarrow> Inl (Fail ''PKSMP5 reclaim authorized before every AP acknowledged''))
       else Inr m)
     else Inl IndexError)"

definition reclaim_replay :: "sd_request list \<Rightarrow> reclaim res" where
  "reclaim_replay requests =
     rbind (reclaim_init requests) (\<lambda>m.
     rbind (reclaim_arm m) (\<lambda>m.
     rbind (reclaim_timeout m) (\<lambda>m.
     rbind (reclaim_retry m) (\<lambda>m.
     rbind (rfold reclaim_round (enumerate 0 requests) m) (\<lambda>m.
     rbind (reclaim_authorize m) reclaim_release)))))"

definition layout_requests :: "smp_layout list \<Rightarrow> sd_request list res" where
  "layout_requests layouts =
     rmap (\<lambda>(index, l). if index < length EXPECTED_APIC_IDS
         then canonical_shootdown_request (l_pml4 l) (l_end l) (l_end l + SMP_PAGE_BYTES) (EXPECTED_APIC_IDS ! index)
         else Inl IndexError) (enumerate 0 layouts)"


section \<open>The start-up machine and the receipts\<close>

datatype ap_stage = Empty | RolledBack | Online | ApReleased

definition lifecycle_partial :: "int \<Rightarrow> int \<Rightarrow> int \<Rightarrow> int \<Rightarrow> ap_stage \<Rightarrow> ap_stage res" where
  "lifecycle_partial started timeout_mask parked released stage = guarded [
     (\<not> (stage = Empty \<and> started = PARTIAL_STARTED_MASK), ''PKSMP5 partial-start mask changed''),
     (\<not> (timeout_mask = OFFLINE_CPU_MASK \<and> parked = started \<and> released = TARGET_CPU_MASK),
      ''PKSMP5 partial rollback is incomplete'')] (Inr RolledBack)"

definition lifecycle_retry :: "int \<Rightarrow> int \<Rightarrow> ap_stage \<Rightarrow> ap_stage res" where
  "lifecycle_retry started online stage = guarded [
     (\<not> (stage = RolledBack \<and> started = TARGET_CPU_MASK \<and> online = TARGET_CPU_MASK),
      ''PKSMP5 retry topology is incomplete'')] (Inr Online)"

definition lifecycle_complete :: "int \<Rightarrow> int \<Rightarrow> int \<Rightarrow> int \<Rightarrow> ap_stage \<Rightarrow> ap_stage res" where
  "lifecycle_complete quiesced parked validated released stage = guarded [
     (\<not> (stage = Online \<and> quiesced = TARGET_CPU_MASK \<and> parked = TARGET_CPU_MASK \<and> validated = TARGET_CPU_MASK \<and>
         released = TARGET_CPU_MASK), ''PKSMP5 final lifecycle mask changed'')] (Inr ApReleased)"

definition aggregate_byte :: "byte \<Rightarrow> int \<Rightarrow> int" where
  "aggregate_byte b checksum = ((checksum XOR uint b) * AGGREGATE_FNV_PRIME) AND SMP_U64_MASK"

definition aggregate_address_checksum :: "(int \<times> int) list \<Rightarrow> int \<Rightarrow> int res" where
  "aggregate_address_checksum values domain =
     rbind (rfold (\<lambda>(target_mask, address) checksum.
         rfold (\<lambda>v checksum. rbind (to_bytes8 v) (\<lambda>bs. Inr (fold aggregate_byte bs checksum)))
           [target_mask, address] checksum) values (AGGREGATE_FNV_OFFSET XOR domain)) (\<lambda>checksum.
     Inr (if checksum = 0 then domain else checksum))"

record ap_receipt =
  ap_allocation :: int
  ap_frame_allocations :: "int list"
  ap_frame_releases :: "int list"
  ap_release :: int

definition receipt_one :: "ap_receipt \<Rightarrow> int list \<times> int list \<Rightarrow> (int list \<times> int list) res" where
  "receipt_one ap = (\<lambda>(allocations, releases).
     guarded [
       (\<not> (length (ap_frame_allocations ap) = 2 \<and> length (ap_frame_releases ap) = 2), ''PKSMP5 frame receipt shape changed''),
       (\<not> ap_allocation ap < Min (set (ap_frame_allocations ap)), ''PKSMP5 frame allocation preceded its private resource''),
       (\<not> list_all (\<lambda>(release, allocation). release > allocation) (zip (ap_frame_releases ap) (ap_frame_allocations ap)),
        ''PKSMP5 frame release preceded allocation''),
       (\<not> (ap_frame_releases ap ! 0 < ap_frame_releases ap ! 1 \<and> ap_frame_releases ap ! 1 < ap_release ap),
        ''PKSMP5 per-AP release order changed'')]
     (Inr (allocations @ [ap_allocation ap] @ ap_frame_allocations ap, releases @ ap_frame_releases ap @ [ap_release ap])))"

definition validate_receipt_sequences :: "ap_receipt list \<Rightarrow> unit res" where
  "validate_receipt_sequences aps =
     guarded [(length aps \<noteq> AP_COUNT, ''PKSMP5 resource receipt AP count changed'')]
     (rbind (rfold receipt_one aps ([], [])) (\<lambda>(allocations, releases). guarded [
       (\<not> list_all (\<lambda>sequence. sequence > 0) (allocations @ releases), ''PKSMP5 receipt sequence is not positive''),
       (card (set allocations) \<noteq> 3 * AP_COUNT, ''PKSMP5 allocation receipt sequence reused''),
       (card (set releases) \<noteq> 3 * AP_COUNT, ''PKSMP5 release receipt sequence reused''),
       (set allocations \<inter> set releases \<noteq> {}, ''PKSMP5 allocation and release receipts alias''),
       (\<not> Max (set allocations) < Min (set releases), ''PKSMP5 release preceded complete retry allocation'')]
     (Inr ())))"

definition validate_release_accounting :: "int \<Rightarrow> int \<Rightarrow> int \<Rightarrow> unit res" where
  "validate_release_accounting resource_pages frame_pages verified_bytes =
     (let expected_resources = int AP_COUNT * RESOURCE_PAGE_COUNT; expected_frames = int AP_COUNT * 2
      in guarded [(\<not> (resource_pages = expected_resources \<and> frame_pages = expected_frames \<and>
           verified_bytes = (expected_resources + expected_frames) * SMP_PAGE_BYTES),
         ''PKSMP5 release accounting does not cover every AP resource and frame'')] (Inr ()))"


section \<open>Resource layout\<close>

lemma roles_flat: "sort (concat (map snd resource_roles)) = map int [0..<nat RESOURCE_PAGE_COUNT]"
  by code_simp

lemma resource_layout_iff:
  "resource_layout p n = Inr l \<longleftrightarrow> n = 32 \<and> 0 < p \<and> p \<le> 224 \<and>
     l = \<lparr>l_start = p * 4096, l_end = p * 4096 + 131072, l_sipi_vector = p, l_pml4 = p * 4096 + 4096,
       l_local = p * 4096 + 12 * 4096, l_apic_page_table = p * 4096 + 31 * 4096, l_roles = resource_roles\<rparr>"
  by (auto simp: resource_layout_def Let_def guarded_Inr_iff roles_flat SMP_PAGE_BYTES_def RESOURCE_PAGE_COUNT_def
      simp del: upt.simps)

lemma distinct_role_pages: "distinct (concat (map snd resource_roles))"
  by code_simp

text \<open>A resource block is laid out exactly for 32 pages starting at a page in 1..224: it then lies below
  one MiB with a start page usable as a SIPI vector, every role page is inside the block, and each of the 32
  pages has exactly one role.\<close>

theorem resource_layout_spec:
  assumes "resource_layout p n = Inr l"
  shows "n = 32 \<and> 1 \<le> p \<and> p \<le> 224 \<and> l_sipi_vector l = p \<and> l_start l = p * 4096 \<and> l_end l \<le> 0x100000 \<and>
    list_all (\<lambda>(role, pages). list_all (\<lambda>k. 0 \<le> k \<and> l_start l + (k + 1) * 4096 \<le> l_end l) pages) (l_roles l) \<and>
    distinct (concat (map snd (l_roles l))) \<and> length (concat (map snd (l_roles l))) = 32"
proof -
  have l: "n = 32" "0 < p" "p \<le> 224" "l_start l = p * 4096" "l_end l = p * 4096 + 131072" "l_sipi_vector l = p"
      "l_roles l = resource_roles" using assms by (simp_all add: resource_layout_iff)
  have "list_all (\<lambda>(role, pages). list_all (\<lambda>k. 0 \<le> k \<and> l_start l + (k + 1) * 4096 \<le> l_end l) pages) resource_roles"
    unfolding l(4,5) by (simp add: resource_roles_def)
  moreover have "length (concat (map snd resource_roles)) = 32" by code_simp
  ultimately show ?thesis using l distinct_role_pages by simp
qed

theorem resource_layout_spec_witness: "\<exists>l. resource_layout 224 32 = Inr l \<and> l_end l \<le> 0x100000"
proof -
  obtain l where l: "resource_layout 224 32 = Inr l" by (simp add: resource_layout_iff)
  with resource_layout_spec [OF l] show ?thesis by simp
qed


section \<open>Requests are determined by what the receiver expects\<close>

lemma request_checksum_ignores [simp]: "request_checksum (q\<lparr>q_checksum := c\<rparr>) = request_checksum q"
  by (simp add: request_checksum_def)

lemma validate_request_iff:
  "validate_request q h a p l = Inr () \<longleftrightarrow> canonical_request (p + 1) (l + 1) h a = Inr q"
proof (cases "OPERATIONS h")
  case None
  then show ?thesis by (simp add: validate_request_def canonical_request_def guarded_Inr_iff)
next
  case (Some op)
  then show ?thesis
    by (cases q) (auto simp: validate_request_def canonical_request_def Let_def guarded_Inr_iff request_checksum_def)
qed

text \<open>The receiver accepts exactly one request: the canonical request for the next attempt, the next
  sequence number, its own operation and its own APIC id. So an accepted request is rejected at every other
  attempt or sequence counter, by every other handler and by every other processor.\<close>

theorem ipi_request_no_replay:
  assumes "validate_request q h a p l = Inr ()"
  shows "canonical_request (p + 1) (l + 1) h a = Inr q \<and>
    (\<forall>h' a' p' l'. validate_request q h' a' p' l' = Inr () \<longleftrightarrow> h' = h \<and> a' = a \<and> p' = p \<and> l' = l)"
  using assms unfolding validate_request_iff
  by (auto simp: canonical_request_def Let_def split: option.splits)

theorem ipi_request_no_replay_witness:
  "\<exists>q. canonical_request 1 1 4 2 = Inr q \<and> validate_request q 4 2 1 1 \<noteq> Inr ()"
proof -
  have "\<exists>q. canonical_request 1 1 4 2 = Inr q" by (simp add: canonical_request_def OPERATIONS_def Let_def)
  then obtain q where q: "canonical_request (0 + 1) (0 + 1) 4 2 = Inr q" by auto
  then have v: "validate_request q 4 2 0 0 = Inr ()" by (simp only: validate_request_iff)
  have "validate_request q 4 2 1 1 \<noteq> Inr ()" using ipi_request_no_replay [OF v] by simp
  with q show ?thesis by auto
qed


section \<open>Acknowledgements\<close>

lemma shootdown_checksum_ignores [simp]:
  "shootdown_request_checksum (q\<lparr>s_checksum := c\<rparr>) = shootdown_request_checksum q"
  "shootdown_response_checksum (n\<lparr>n_response_checksum := c\<rparr>) = shootdown_response_checksum n"
  by (simp_all add: shootdown_request_checksum_def shootdown_response_checksum_def)

lemma local_target_mask_iff: "local_target_mask a = Inr m \<longleftrightarrow> 0 < a \<and> a < 64 \<and> m = push_bit (nat a) 1"
  by (auto simp: local_target_mask_def guarded_Inr_iff)

text \<open>An accepted request, as an equation on its fields.\<close>

lemma validate_shootdown_request_iff:
  "validate_shootdown_request q root g a = Inr () \<longleftrightarrow>
     canonical_shootdown_request root (s_old_frame_physical q) (s_new_frame_physical q) a = Inr q \<and>
     root \<noteq> 0 \<and> root mod 4096 = 0 \<and> g < 2 \<and> s_old_frame_physical q \<noteq> s_new_frame_physical q \<and>
     s_old_frame_physical q \<noteq> 0 \<and> s_new_frame_physical q \<noteq> 0 \<and>
     s_old_frame_physical q mod 4096 = 0 \<and> s_new_frame_physical q mod 4096 = 0"
  by (cases q) (auto simp: validate_shootdown_request_def canonical_shootdown_request_def Let_def guarded_Inr_iff
      rbind_Inr_iff local_target_mask_iff shootdown_request_checksum_def SMP_PAGE_BYTES_def PROBE_VIRTUAL_ADDRESS_def
      RETIRED_GENERATION_def ACTIVE_GENERATION_def)

text \<open>An accepted acknowledgement is the canonical one, up to the two fields the check does not read.\<close>

lemma validate_shootdown_ack_iff:
  "validate_shootdown_ack n q a = Inr () \<longleftrightarrow>
     validate_shootdown_request q (s_root_physical q) 0 a = Inr () \<and>
     n = (canonical_shootdown_snapshot q (n_timeout_count n))\<lparr>n_reclaim_state := n_reclaim_state n\<rparr>"
proof -
  have "validate_shootdown_request q (s_root_physical q) 0 a = Inr () \<Longrightarrow>
      s_active_generation q = ACTIVE_GENERATION \<and> local_target_mask a = Inr (s_target_mask q)"
    by (cases q) (auto simp: validate_shootdown_request_iff canonical_shootdown_request_def rbind_Inr_iff Let_def)
  then show ?thesis
    by (cases n) (auto simp: validate_shootdown_ack_def rbind_Inr_iff guarded_Inr_iff canonical_shootdown_snapshot_def
        Let_def shootdown_response_checksum_def)
qed


section \<open>No frame is released before every processor acknowledged\<close>

text \<open>
  A caller may invoke the model's methods in any order and catch what they raise, as the
  marker validator does for an early authorization; a raising call leaves the state alone.
\<close>

datatype reclaim_event = Arm | Timeout | Retry | Acknowledge sd_snapshot int | Authorize | Release

fun reclaim_op :: "reclaim_event \<Rightarrow> reclaim \<Rightarrow> reclaim res" where
  "reclaim_op Arm m = reclaim_arm m"
| "reclaim_op Timeout m = reclaim_timeout m"
| "reclaim_op Retry m = reclaim_retry m"
| "reclaim_op (Acknowledge n a) m = reclaim_acknowledge n a m"
| "reclaim_op Authorize m = reclaim_authorize m"
| "reclaim_op Release m = reclaim_release m"

definition reclaim_call :: "reclaim_event \<Rightarrow> reclaim \<Rightarrow> reclaim" where
  "reclaim_call e m = (case reclaim_op e m of Inl _ \<Rightarrow> m | Inr m' \<Rightarrow> m')"

lemma expected_ids: "i < 3 \<Longrightarrow> EXPECTED_APIC_IDS ! i = int i + 1"
  by (auto simp: EXPECTED_APIC_IDS_def less_Suc_eq numeral_eq_Suc)

lemma Ball_enumerate: "(\<forall>x \<in> set (enumerate 0 xs). P x) \<longleftrightarrow> (\<forall>i<length xs. P (i, xs ! i))"
  by (simp add: all_set_conv_all_nth nth_enumerate_eq)

lemma reclaim_init_iff:
  "reclaim_init qs = Inr m \<longleftrightarrow> length qs \<le> 3 \<and> m = \<lparr>rc_requests = qs, rc_stage = Prepared, rc_ack_mask = 0\<rparr> \<and>
     (\<forall>i<length qs. validate_shootdown_request (qs ! i) (s_root_physical (qs ! i)) 0 (int i + 1) = Inr ())"
proof -
  have len: "length EXPECTED_APIC_IDS = 3" by (simp add: EXPECTED_APIC_IDS_def)
  let ?f = "\<lambda>(index, q) _. if index < length EXPECTED_APIC_IDS
         then validate_shootdown_request q (s_root_physical q) 0 (EXPECTED_APIC_IDS ! index) else Inl IndexError"
  have "rfold ?f (enumerate 0 qs) () = Inr () \<longleftrightarrow> (\<forall>i<length qs. ?f (i, qs ! i) () = Inr ())"
    by (simp only: rfold_unit_iff Ball_enumerate)
  also have "\<dots> \<longleftrightarrow> length qs \<le> 3 \<and> (\<forall>i<length qs. validate_shootdown_request (qs ! i) (s_root_physical (qs ! i)) 0 (int i + 1) = Inr ())"
  proof -
    have "length qs \<le> 3" if "\<forall>i<length qs. ?f (i, qs ! i) () = Inr ()"
    proof (rule ccontr)
      assume "\<not> length qs \<le> 3"
      then have "3 < length qs" by simp
      with that have "?f (3, qs ! 3) () = Inr ()" by blast
      then show False by (simp add: len)
    qed
    moreover have "?f (i, qs ! i) () = validate_shootdown_request (qs ! i) (s_root_physical (qs ! i)) 0 (int i + 1)"
      if "i < length qs" "length qs \<le> 3" for i
      using that by (simp add: len expected_ids)
    ultimately show ?thesis by (metis (no_types, lifting))
  qed
  finally show ?thesis unfolding reclaim_init_def by (auto simp: rbind_Inr_iff)
qed

lemma request_target_mask:
  "validate_shootdown_request q r g a = Inr () \<Longrightarrow> s_target_mask q = push_bit (nat a) 1"
  by (cases q) (auto simp: validate_shootdown_request_iff canonical_shootdown_request_def rbind_Inr_iff Let_def
      local_target_mask_iff)

lemma index_of_expected: "index_of a EXPECTED_APIC_IDS = Inr i \<longleftrightarrow> i < 3 \<and> a = int i + 1"
  by (auto simp: EXPECTED_APIC_IDS_def less_Suc_eq numeral_eq_Suc split: if_splits)

definition acked :: "sd_request list \<Rightarrow> reclaim_event list \<Rightarrow> nat \<Rightarrow> bool" where
  "acked qs es i \<longleftrightarrow> (\<exists>n. Acknowledge n (int i + 1) \<in> set es \<and> validate_shootdown_ack n (qs ! i) (int i + 1) = Inr ())"

definition reclaim_inv :: "sd_request list \<Rightarrow> reclaim_event list \<Rightarrow> reclaim \<Rightarrow> bool" where
  "reclaim_inv qs es m \<longleftrightarrow> rc_requests m = qs \<and>
     (\<forall>k. bit (rc_ack_mask m) k \<longrightarrow> (\<exists>i<length qs. k = Suc i \<and> acked qs es i)) \<and>
     (rc_stage m = Authorized \<or> rc_stage m = Released \<longrightarrow> rc_ack_mask m = sum_list (map s_target_mask qs))"

lemma acked_mono: "acked qs es i \<Longrightarrow> acked qs (es @ fs) i"
  by (auto simp: acked_def)

lemma reclaim_inv_skip: "reclaim_inv qs es m \<Longrightarrow> reclaim_inv qs (es @ [e]) m"
  by (auto simp: reclaim_inv_def intro: acked_mono)

lemma reclaim_op_inv:
  assumes inv: "reclaim_inv qs es m" and op: "reclaim_op e m = Inr m'"
  shows "reclaim_inv qs (es @ [e]) m'"
proof (cases e)
  case (Acknowledge n a)
  then obtain i where i: "i < 3" "a = int i + 1" "i < length qs" "validate_shootdown_ack n (qs ! i) a = Inr ()"
    and m': "m' = m\<lparr>rc_ack_mask := rc_ack_mask m OR 2 ^ nat a, rc_stage := Acknowledging\<rparr>"
    using op inv by (auto simp: reclaim_acknowledge_def guarded_Inr_iff rbind_Inr_iff index_of_expected
        local_target_mask_iff reclaim_inv_def split: if_splits)
  have "acked qs (es @ [e]) i" using i Acknowledge by (auto simp: acked_def)
  moreover have "bit (2 ^ nat a :: int) k \<longleftrightarrow> k = Suc i" for k
    using i(2) by (auto simp: bit_exp_iff nat_add_distrib simp del: power_Suc)
  ultimately show ?thesis
    using reclaim_inv_skip [OF inv, of e] i(3) by (auto simp: m' reclaim_inv_def bit_or_iff)
qed (use reclaim_inv_skip [OF inv, of e] op in \<open>auto simp: reclaim_inv_def guarded_Inr_iff reclaim_arm_def
    reclaim_retry_def reclaim_timeout_def reclaim_authorize_def reclaim_release_def\<close>)

lemma reclaim_calls_inv:
  "reclaim_init qs = Inr m \<Longrightarrow> reclaim_inv qs es (fold reclaim_call es m)"
proof (induction es rule: rev_induct)
  case Nil
  then show ?case by (simp add: reclaim_init_iff reclaim_inv_def)
next
  case (snoc e es)
  then show ?case
    using reclaim_op_inv [of qs es _ e] by (auto simp: reclaim_call_def intro: reclaim_inv_skip split: sum.splits)
qed

lemma masks_bits:
  assumes "length qs \<le> 3" "\<forall>i<length qs. s_target_mask (qs ! i) = push_bit (Suc i) (1::int)" "i < length qs"
  shows "bit (sum_list (map s_target_mask qs)) (Suc i)"
proof -
  have "map s_target_mask qs = map (\<lambda>i. push_bit (Suc i) 1) [0..<length qs]"
    using assms(2) by (intro nth_equalityI) simp_all
  moreover have "length qs = 1 \<or> length qs = 2 \<or> length qs = 3" using assms(1,3) by auto
  ultimately show ?thesis
    using assms(3) by (elim disjE) (auto simp: upt_rec less_Suc_eq numeral_eq_Suc bit_simps)
qed

text \<open>C14. Whatever methods are called in whatever order, with raising calls caught: when the deferred-reclaim
  model reaches its authorized or released stage, every request of the model has been acknowledged by its
  own processor with a snapshot the acknowledgement check accepts.\<close>

theorem reclaim_waits_for_all_acks:
  assumes "reclaim_init qs = Inr m" "rc_stage (fold reclaim_call es m) \<in> {Authorized, Released}" "i < length qs"
  shows "\<exists>n. Acknowledge n (EXPECTED_APIC_IDS ! i) \<in> set es \<and>
    validate_shootdown_ack n (qs ! i) (EXPECTED_APIC_IDS ! i) = Inr ()"
proof -
  have qs: "length qs \<le> 3" "\<forall>i<length qs. validate_shootdown_request (qs ! i) (s_root_physical (qs ! i)) 0 (int i + 1) = Inr ()"
    using assms(1) by (simp_all add: reclaim_init_iff)
  have "s_target_mask (qs ! j) = push_bit (Suc j) 1" if "j < length qs" for j
    using request_target_mask [OF qs(2) [rule_format, OF that]] by (simp add: nat_add_distrib)
  then have "bit (sum_list (map s_target_mask qs)) (Suc i)" using masks_bits qs(1) assms(3) by blast
  with reclaim_calls_inv [OF assms(1), of es] assms(2) have "acked qs es i" by (auto simp: reclaim_inv_def)
  moreover have "EXPECTED_APIC_IDS ! i = int i + 1"
    using assms(3) qs(1) by (intro expected_ids) simp
  ultimately show ?thesis by (simp add: acked_def)
qed


section \<open>The replay reaches release\<close>

lemma canonical_request_valid:
  assumes "0 < a" "a < 64" "root \<noteq> 0" "root mod 4096 = 0" "old \<noteq> new" "old \<noteq> 0" "new \<noteq> 0" "old mod 4096 = 0" "new mod 4096 = 0"
  obtains q where "canonical_shootdown_request root old new a = Inr q" "s_root_physical q = root"
    "s_target_mask q = push_bit (nat a) 1" "validate_shootdown_request q root 0 a = Inr ()"
proof -
  obtain q where q: "canonical_shootdown_request root old new a = Inr q" "s_root_physical q = root"
      "s_target_mask q = push_bit (nat a) 1" "s_old_frame_physical q = old" "s_new_frame_physical q = new"
    using assms(1,2) by (auto simp: canonical_shootdown_request_def local_target_mask_def guarded_pass Let_def)
  with assms show ?thesis by (intro that [of q]) (auto simp: validate_shootdown_request_iff)
qed

lemma canonical_ack_valid:
  "validate_shootdown_request q (s_root_physical q) 0 a = Inr () \<Longrightarrow>
   validate_shootdown_ack (canonical_shootdown_snapshot q t) q a = Inr ()"
  by (simp add: validate_shootdown_ack_iff) (simp add: canonical_shootdown_snapshot_def Let_def)

lemma acknowledge_canonical:
  assumes "rc_stage m = Armed \<or> rc_stage m = Acknowledging" "i < 3" "i < length (rc_requests m)"
    "\<not> bit (rc_ack_mask m) (Suc i)"
    "validate_shootdown_request (rc_requests m ! i) (s_root_physical (rc_requests m ! i)) 0 (int i + 1) = Inr ()"
  shows "reclaim_acknowledge (canonical_shootdown_snapshot (rc_requests m ! i) t) (int i + 1) m =
    Inr (m\<lparr>rc_ack_mask := rc_ack_mask m OR 2 ^ Suc i, rc_stage := Acknowledging\<rparr>)"
proof -
  have "index_of (int i + 1) EXPECTED_APIC_IDS = Inr i" using assms(2) by (simp add: index_of_expected)
  moreover have "local_target_mask (int i + 1) = Inr (2 ^ Suc i)"
    using assms(2) by (simp add: local_target_mask_iff nat_add_distrib)
  moreover have "rc_ack_mask m AND 2 ^ Suc i = 0" using assms(4) by (simp only: and_exp_eq_0_iff_not_bit not_False_eq_True)
  ultimately show ?thesis
    using assms(1,3) canonical_ack_valid [OF assms(5)]
    by (simp add: reclaim_acknowledge_def guarded_pass del: power_Suc)
qed

lemma replay_releases:
  assumes "length qs = 3" "\<And>i. i < 3 \<Longrightarrow> validate_shootdown_request (qs ! i) (s_root_physical (qs ! i)) 0 (int i + 1) = Inr ()"
  shows "reclaim_replay qs = Inr \<lparr>rc_requests = qs, rc_stage = Released, rc_ack_mask = TARGET_CPU_MASK\<rparr>"
proof -
  have init: "reclaim_init qs = Inr \<lparr>rc_requests = qs, rc_stage = Prepared, rc_ack_mask = 0\<rparr>"
    using assms by (simp add: reclaim_init_iff)
  have masks: "s_target_mask (qs ! i) = 2 ^ Suc i" if "i < 3" for i
    using request_target_mask [OF assms(2) [OF that]] by (simp add: nat_add_distrib)
  obtain a b c where qs: "qs = [a, b, c]" using assms(1) by (auto simp: numeral_eq_Suc length_Suc_conv)
  have m: "s_target_mask a = 2" "s_target_mask b = 4" "s_target_mask c = 8"
    using masks [of 0] masks [of 1] masks [of 2] by (simp_all add: qs)
  let ?s = "\<lambda>st k. \<lparr>rc_requests = qs, rc_stage = st, rc_ack_mask = k\<rparr>"
  note ack = acknowledge_canonical [of "?s _ _", simplified, unfolded assms(1), OF _ _ _ _ assms(2)]
  have "reclaim_round (0, a) (?s Armed 0) = Inr (?s Acknowledging 2)"
    using ack [of Armed 0 0 1] m by (simp add: reclaim_round_def EXPECTED_APIC_IDS_def AP_COUNT_def reclaim_authorize_def
        guarded.simps qs)
  moreover have "reclaim_round (1, b) (?s Acknowledging 2) = Inr (?s Acknowledging 6)"
    using ack [of Acknowledging 1 2 0] m by (simp add: reclaim_round_def EXPECTED_APIC_IDS_def AP_COUNT_def reclaim_authorize_def
        guarded.simps qs)
  moreover have "reclaim_round (2, c) (?s Acknowledging 6) = Inr (?s Acknowledging 14)"
    using ack [of Acknowledging 2 6 0] by (simp add: reclaim_round_def EXPECTED_APIC_IDS_def AP_COUNT_def qs)
  ultimately have "rfold reclaim_round (enumerate 0 qs) (?s Armed 0) = Inr (?s Acknowledging 14)"
    by (simp add: qs numeral_2_eq_2)
  then show ?thesis
    using m by (simp add: reclaim_replay_def init reclaim_arm_def reclaim_timeout_def reclaim_retry_def guarded_pass
        reclaim_authorize_def reclaim_release_def TARGET_CPU_MASK_def) (simp add: qs guarded_pass reclaim_release_def)
qed

lemma layout_requests_valid:
  assumes "resource_layout p n = Inr l" "0 < a" "a < 64"
  obtains q where "canonical_shootdown_request (l_pml4 l) (l_end l) (l_end l + SMP_PAGE_BYTES) a = Inr q"
    "validate_shootdown_request q (s_root_physical q) 0 a = Inr ()"
proof -
  have l: "0 < p" "l_pml4 l = (p + 1) * 4096" "l_end l = (p + 32) * 4096" "l_end l + SMP_PAGE_BYTES = (p + 33) * 4096"
    using assms(1) by (auto simp: resource_layout_iff SMP_PAGE_BYTES_def algebra_simps)
  obtain q where q: "canonical_shootdown_request ((p + 1) * 4096) ((p + 32) * 4096) ((p + 33) * 4096) a = Inr q"
      "s_root_physical q = (p + 1) * 4096" "validate_shootdown_request q ((p + 1) * 4096) 0 a = Inr ()"
    by (rule canonical_request_valid [of a "(p + 1) * 4096" "(p + 32) * 4096" "(p + 33) * 4096"])
      (use assms(2,3) l(1) in simp_all)
  show ?thesis by (rule that [of q]) (unfold l(4), simp_all only: l(2,3) q)
qed

text \<open>C15. For the private layouts of three application processors, the shootdown replay of the marker
  validator runs to the end: both premature authorizations are refused, the three acknowledgements are
  accepted, and the model ends in the released stage with the full target mask.\<close>

theorem reclaim_replay_completes:
  assumes "resource_layout p1 n1 = Inr l1" "resource_layout p2 n2 = Inr l2" "resource_layout p3 n3 = Inr l3"
  shows "\<exists>qs. layout_requests [l1, l2, l3] = Inr qs \<and>
    reclaim_replay qs = Inr \<lparr>rc_requests = qs, rc_stage = Released, rc_ack_mask = TARGET_CPU_MASK\<rparr>"
proof -
  obtain q1 where q1: "canonical_shootdown_request (l_pml4 l1) (l_end l1) (l_end l1 + SMP_PAGE_BYTES) 1 = Inr q1"
      "validate_shootdown_request q1 (s_root_physical q1) 0 1 = Inr ()"
    by (rule layout_requests_valid [OF assms(1), of 1]) simp_all
  obtain q2 where q2: "canonical_shootdown_request (l_pml4 l2) (l_end l2) (l_end l2 + SMP_PAGE_BYTES) 2 = Inr q2"
      "validate_shootdown_request q2 (s_root_physical q2) 0 2 = Inr ()"
    by (rule layout_requests_valid [OF assms(2), of 2]) simp_all
  obtain q3 where q3: "canonical_shootdown_request (l_pml4 l3) (l_end l3) (l_end l3 + SMP_PAGE_BYTES) 3 = Inr q3"
      "validate_shootdown_request q3 (s_root_physical q3) 0 3 = Inr ()"
    by (rule layout_requests_valid [OF assms(3), of 3]) simp_all
  have "layout_requests [l1, l2, l3] = Inr [q1, q2, q3]"
    using q1 q2 q3 by (simp add: layout_requests_def EXPECTED_APIC_IDS_def)
  moreover have "validate_shootdown_request ([q1, q2, q3] ! i) (s_root_physical ([q1, q2, q3] ! i)) 0 (int i + 1) = Inr ()"
    if "i < 3" for i
    using that q1(2) q2(2) q3(2) by (auto simp: less_Suc_eq numeral_eq_Suc)
  ultimately show ?thesis using replay_releases [of "[q1, q2, q3]"] by (intro exI conjI) simp_all
qed

theorem reclaim_replay_completes_witness:
  "\<exists>l1 l2 l3 qs m. resource_layout 1 32 = Inr l1 \<and> resource_layout 35 32 = Inr l2 \<and> resource_layout 69 32 = Inr l3 \<and>
    layout_requests [l1, l2, l3] = Inr qs \<and> reclaim_replay qs = Inr m \<and> rc_stage m = Released"
proof -
  obtain l1 l2 l3 where l: "resource_layout 1 32 = Inr l1" "resource_layout 35 32 = Inr l2" "resource_layout 69 32 = Inr l3"
    by (simp add: resource_layout_iff)
  show ?thesis using l reclaim_replay_completes [OF l] by auto
qed

theorem reclaim_waits_for_all_acks_witness:
  "\<exists>q m es n. reclaim_init [q] = Inr m \<and> rc_stage (fold reclaim_call es m) = Authorized \<and> Acknowledge n 1 \<in> set es"
proof -
  obtain q where q0: "s_root_physical q = 4096" "s_target_mask q = push_bit (nat 1) 1"
      "validate_shootdown_request q 4096 0 1 = Inr ()"
    by (rule canonical_request_valid [of 1 4096 8192 12288]) simp_all
  then have q: "validate_shootdown_request q (s_root_physical q) 0 1 = Inr ()" "s_target_mask q = 2" by simp_all
  let ?m = "\<lparr>rc_requests = [q], rc_stage = Prepared, rc_ack_mask = 0\<rparr>"
  let ?es = "[Arm, Acknowledge (canonical_shootdown_snapshot q 0) 1, Authorize]"
  have m: "reclaim_init [q] = Inr ?m" using q(1) by (simp add: reclaim_init_iff)
  have st: "rc_stage (fold reclaim_call ?es ?m) = Authorized"
    using acknowledge_canonical [of "?m\<lparr>rc_stage := Armed\<rparr>" 0 0] q
    by (simp add: reclaim_call_def reclaim_arm_def guarded_pass reclaim_authorize_def)
  show ?thesis using reclaim_waits_for_all_acks [OF m, of ?es 0] st m
    by (intro exI [of _ q] exI [of _ ?m] exI [of _ ?es] exI) (auto simp: EXPECTED_APIC_IDS_def)
qed


section \<open>Receipts\<close>

text \<open>The aggregate checksum of well-sized addresses is computed, and never zero for a non-zero domain.\<close>

lemma aggregate_address_checksum_total:
  assumes "list_all (\<lambda>(m, a). fits 8 m \<and> fits 8 a) vs" "domain \<noteq> 0"
  shows "\<exists>c. aggregate_address_checksum vs domain = Inr c \<and> c \<noteq> 0"
proof -
  let ?g = "\<lambda>v checksum. rbind (to_bytes8 v) (\<lambda>bs. Inr (fold aggregate_byte bs checksum))"
  have "\<exists>c'. rfold (\<lambda>(m, a) c. rfold ?g [m, a] c) vs c = Inr c'" for c
    using assms(1) by (induction vs arbitrary: c) (auto simp: to_bytes8_def)
  then obtain c where c: "rfold (\<lambda>(m, a) c. rfold ?g [m, a] c) vs (AGGREGATE_FNV_OFFSET XOR domain) = Inr c" by blast
  show ?thesis unfolding aggregate_address_checksum_def c using assms(2) by simp
qed


lemma rfold_receipt:
  "rfold receipt_one aps (xs, ys) = Inr (us, vs) \<Longrightarrow>
   us = xs @ concat (map (\<lambda>ap. ap_allocation ap # ap_frame_allocations ap) aps) \<and>
   vs = ys @ concat (map (\<lambda>ap. ap_frame_releases ap @ [ap_release ap]) aps)"
proof (induction aps arbitrary: xs ys)
  case (Cons ap aps)
  have one: "receipt_one ap (xs, ys) = Inr r \<Longrightarrow>
      r = (xs @ ap_allocation ap # ap_frame_allocations ap, ys @ ap_frame_releases ap @ [ap_release ap])" for r
    by (simp add: receipt_one_def guarded_Inr_iff)
  from Cons.prems obtain r where r: "receipt_one ap (xs, ys) = Inr r" "rfold receipt_one aps r = Inr (us, vs)"
    by (auto simp: rbind_Inr_iff)
  from Cons.IH [OF r(2) [unfolded one [OF r(1)]]] show ?case by simp
qed simp

text \<open>Accepted receipts: every allocation of every processor precedes every release of every processor.\<close>

lemma receipts_nested:
  assumes "validate_receipt_sequences aps = Inr ()" "a \<in> set aps" "b \<in> set aps"
    "x \<in> insert (ap_allocation a) (set (ap_frame_allocations a))" "y \<in> insert (ap_release b) (set (ap_frame_releases b))"
  shows "0 < x \<and> x < y"
proof -
  obtain us vs where r: "rfold receipt_one aps ([], []) = Inr (us, vs)" "list_all (\<lambda>n. n > 0) us"
      "Max (set us) < Min (set vs)"
    using assms(1) by (auto simp: validate_receipt_sequences_def rbind_Inr_iff guarded_Inr_iff)
  from rfold_receipt [OF r(1)] assms(2-5) have mem: "x \<in> set us" "y \<in> set vs" by auto
  then have "x \<le> Max (set us)" "Min (set vs) \<le> y" by simp_all
  moreover have "0 < x" using r(2) mem(1) by (simp add: list_all_iff)
  ultimately show ?thesis using r(3) by linarith
qed

end
