(* ===== verification/Ascii_Text.thy ===== *)
theory Ascii_Text
  imports Prelude
begin

text \<open>
  Text as the line-oriented formats use it. A Python byte string or \<open>str\<close> of code points
  below 256 is a \<open>string\<close>: HOL's \<open>char\<close> is an 8-bit code and \<open>code\<close> reads it.
  \<open>split_on\<close> is \<open>s.split(c)\<close>, \<open>join_with\<close> is \<open>sep.join(parts)\<close>, \<open>decimal\<close> is the text of an
  integer in an f-string, \<open>before\<close> and \<open>after\<close> the two halves of \<open>s.split(c, 1)\<close>,
  \<open>item\<close> is the indexing \<open>xs[i]\<close> with its \<open>IndexError\<close>.
\<close>

definition code :: "char \<Rightarrow> int" where
  "code c = of_char c"

definition LF :: char where
  "LF = CHR 0x0A"

definition item :: "'a list \<Rightarrow> nat \<Rightarrow> 'a res" where
  "item xs i = (if i < length xs then Inr (xs ! i) else Inl IndexError)"

definition starts_with :: "'a list \<Rightarrow> 'a list \<Rightarrow> bool" where
  "starts_with s p \<longleftrightarrow> take (length p) s = p"

definition ends_with :: "'a list \<Rightarrow> 'a list \<Rightarrow> bool" where
  "ends_with s p \<longleftrightarrow> length p \<le> length s \<and> drop (length s - length p) s = p"

fun split_on :: "'a \<Rightarrow> 'a list \<Rightarrow> 'a list list" where
  "split_on c [] = [[]]"
| "split_on c (x # xs) = (if x = c then [] # split_on c xs
     else case split_on c xs of [] \<Rightarrow> [[x]] | y # ys \<Rightarrow> (x # y) # ys)"

fun join_with :: "'a list \<Rightarrow> 'a list list \<Rightarrow> 'a list" where
  "join_with s [] = []"
| "join_with s [x] = x"
| "join_with s (x # y # ys) = x @ s @ join_with s (y # ys)"

definition before :: "'a \<Rightarrow> 'a list \<Rightarrow> 'a list" where
  "before c s = takeWhile (\<lambda>x. x \<noteq> c) s"

definition after :: "'a \<Rightarrow> 'a list \<Rightarrow> 'a list" where
  "after c s = tl (dropWhile (\<lambda>x. x \<noteq> c) s)"

definition is_digit :: "char \<Rightarrow> bool" where
  "is_digit c \<longleftrightarrow> 48 \<le> code c \<and> code c \<le> 57"

definition digit_char :: "nat \<Rightarrow> char" where
  "digit_char d = char_of (48 + d)"

fun nat_digits :: "nat \<Rightarrow> string" where
  "nat_digits n = (if n < 10 then [digit_char n] else nat_digits (n div 10) @ [digit_char (n mod 10)])"

declare nat_digits.simps [simp del]

definition decimal :: "int \<Rightarrow> string" where
  "decimal i = (if i < 0 then ''-'' @ nat_digits (nat (- i)) else nat_digits (nat i))"


section \<open>Splitting and joining\<close>

lemma item_Inr_iff: "item xs i = Inr x \<longleftrightarrow> i < length xs \<and> xs ! i = x"
  by (simp add: item_def)

lemma starts_with_append [simp]: "starts_with (p @ s) p"
  by (simp add: starts_with_def)

lemma starts_with_iff: "starts_with s p \<longleftrightarrow> (\<exists>r. s = p @ r)"
proof
  assume "starts_with s p"
  then have "s = p @ drop (length p) s" unfolding starts_with_def by (metis append_take_drop_id)
  then show "\<exists>r. s = p @ r" ..
qed (auto simp: starts_with_def)

lemma ends_with_iff: "ends_with s p \<longleftrightarrow> (\<exists>r. s = r @ p)"
proof
  assume "ends_with s p"
  then have "s = take (length s - length p) s @ p" unfolding ends_with_def by (metis append_take_drop_id)
  then show "\<exists>r. s = r @ p" ..
qed (auto simp: ends_with_def)

lemma split_on_neq [simp]: "split_on c s \<noteq> []"
  by (induction s) (auto split: list.splits)

lemma split_on_free: "x \<in> set (split_on c s) \<Longrightarrow> c \<notin> set x"
  by (induction s arbitrary: x) (auto split: list.splits if_splits)

lemma join_split: "join_with [c] (split_on c s) = s"
proof (induction s)
  case (Cons x xs)
  obtain y ys where y: "split_on c xs = y # ys" by (cases "split_on c xs") simp_all
  with Cons show ?case by (cases ys) auto
qed simp

lemma split_on_append: "c \<notin> set x \<Longrightarrow> split_on c (x @ c # s) = x # split_on c s"
  by (induction x) auto

lemma split_on_id: "c \<notin> set x \<Longrightarrow> split_on c x = [x]"
  by (induction x) auto

lemma split_join: "xs \<noteq> [] \<Longrightarrow> \<forall>x \<in> set xs. c \<notin> set x \<Longrightarrow> split_on c (join_with [c] xs) = xs"
  by (induction "[c]" xs rule: join_with.induct) (simp_all add: split_on_append split_on_id)

lemma before_after:
  assumes "c \<in> set s"
  shows "s = before c s @ c # after c s" "c \<notin> set (before c s)"
proof -
  have "dropWhile (\<lambda>x. x \<noteq> c) s \<noteq> []" using assms by (auto simp: dropWhile_eq_Nil_conv)
  moreover from this have "hd (dropWhile (\<lambda>x. x \<noteq> c) s) = c" using hd_dropWhile [of "\<lambda>x. x \<noteq> c" s] by simp
  ultimately have "dropWhile (\<lambda>x. x \<noteq> c) s = c # after c s" by (metis after_def list.collapse)
  then show "s = before c s @ c # after c s" unfolding before_def by (metis takeWhile_dropWhile_id)
  show "c \<notin> set (before c s)" unfolding before_def by (auto dest: set_takeWhileD)
qed

lemma before_append [simp]: "c \<notin> set a \<Longrightarrow> before c (a @ c # b) = a"
  unfolding before_def by (induction a) auto

lemma after_append [simp]: "c \<notin> set a \<Longrightarrow> after c (a @ c # b) = b"
  unfolding after_def by (induction a) auto

lemma length_join: "length (join_with [c] xs) = (\<Sum>x\<leftarrow>xs. length x + 1) - 1"
proof (induction "[c]" xs rule: join_with.induct)
  case (3 x y ys)
  have "(\<Sum>x\<leftarrow>y # ys. length x + 1) \<ge> 1" by simp
  then show ?case using 3 by simp
qed simp_all

lemma set_join: "set (join_with [c] xs) \<subseteq> insert c (\<Union>x \<in> set xs. set x)"
  by (induction "[c]" xs rule: join_with.induct) auto


section \<open>Decimal numbers\<close>

definition digit_value :: "string \<Rightarrow> int" where
  "digit_value s = fold (\<lambda>c n. n * 10 + (code c - 48)) s 0"

lemma code_char_of: "n < 256 \<Longrightarrow> code (char_of n) = int n" for n :: nat
proof -
  assume "n < 256"
  then have "(of_char (char_of n :: char) :: nat) = n" by simp
  then show ?thesis unfolding code_def by (metis of_nat_of_char)
qed

lemma code_inj: "code c = code d \<Longrightarrow> c = d"
  by (simp add: code_def)

lemma digit_char_code [simp]: "d < 10 \<Longrightarrow> code (digit_char d) = 48 + int d"
  by (simp add: digit_char_def code_char_of)

lemma digit_char_back: "is_digit c \<Longrightarrow> digit_char (nat (code c - 48)) = c"
  by (rule code_inj) (auto simp: is_digit_def)

lemma digit_value_snoc [simp]: "digit_value (s @ [c]) = digit_value s * 10 + (code c - 48)"
  by (simp add: digit_value_def)

lemma digit_value_nonneg: "list_all is_digit s \<Longrightarrow> 0 \<le> digit_value s"
  by (induction s rule: rev_induct) (auto simp: is_digit_def digit_value_def)

lemma nat_digits_ok: "list_all is_digit (nat_digits n) \<and> nat_digits n \<noteq> [] \<and> digit_value (nat_digits n) = int n"
proof (induction n rule: nat_digits.induct)
  case (1 n)
  show ?case
  proof (cases "n < 10")
    case True
    then show ?thesis by (simp add: nat_digits.simps [of n] is_digit_def digit_value_def)
  next
    case False
    then have "int n = int (n div 10) * 10 + int (n mod 10)" by presburger
    with 1 [OF False] False show ?thesis by (simp add: nat_digits.simps [of n] is_digit_def)
  qed
qed

lemma nat_digits_lead: "length (nat_digits n) > 1 \<Longrightarrow> code (hd (nat_digits n)) \<noteq> 48"
proof (induction n rule: nat_digits.induct)
  case (1 n)
  then have big: "\<not> n < 10" by (auto simp: nat_digits.simps [of n])
  have ne: "nat_digits (n div 10) \<noteq> []" using nat_digits_ok [of "n div 10"] by simp
  have hd: "hd (nat_digits n) = hd (nat_digits (n div 10))" using big ne by (simp add: nat_digits.simps [of n])
  show ?case
  proof (cases "length (nat_digits (n div 10)) > 1")
    case True
    with 1(1) [OF big] hd show ?thesis by simp
  next
    case False
    then have "n div 10 < 10" using nat_digits_ok [of "n div 10 div 10"]
      by (auto simp: nat_digits.simps [of "n div 10"] split: if_splits)
    with big hd show ?thesis by (simp add: nat_digits.simps [of "n div 10"])
  qed
qed

lemma digit_value_pos: "s \<noteq> [] \<Longrightarrow> list_all is_digit s \<Longrightarrow> code (hd s) \<noteq> 48 \<Longrightarrow> 1 \<le> digit_value s"
proof (induction s rule: rev_induct)
  case (snoc c s)
  show ?case
  proof (cases "s = []")
    case True
    with snoc show ?thesis by (simp add: digit_value_def is_digit_def)
  next
    case False
    with snoc have "1 \<le> digit_value s" by simp
    with snoc.prems(2) show ?thesis by (simp add: is_digit_def)
  qed
qed simp

lemma nat_digits_value:
  "s \<noteq> [] \<Longrightarrow> list_all is_digit s \<Longrightarrow> (length s > 1 \<longrightarrow> code (hd s) \<noteq> 48) \<Longrightarrow> nat_digits (nat (digit_value s)) = s"
proof (induction s rule: rev_induct)
  case (snoc c s)
  have c: "0 \<le> code c - 48" "code c - 48 < 10" "is_digit c" using snoc.prems(2) by (simp_all add: is_digit_def)
  show ?case
  proof (cases "s = []")
    case True
    with c show ?thesis by (simp add: digit_value_def nat_digits.simps digit_char_back nat_less_iff)
  next
    case False
    have d: "list_all is_digit s" "code (hd s) \<noteq> 48" using snoc.prems False by (simp_all add: hd_append)
    have pos: "1 \<le> digit_value s" by (rule digit_value_pos [OF False d])
    define n where "n = nat (digit_value (s @ [c]))"
    have n: "n div 10 = nat (digit_value s)" "n mod 10 = nat (code c - 48)" "\<not> n < 10"
    proof -
      have "n = nat (digit_value s) * 10 + nat (code c - 48)"
        using pos c(1) by (simp add: n_def nat_add_distrib nat_mult_distrib)
      with pos c(1,2) show "n div 10 = nat (digit_value s)" "n mod 10 = nat (code c - 48)" "\<not> n < 10"
        by (simp_all add: nat_less_iff)
    qed
    with snoc.IH [OF False d(1)] d(2) c(3) have "nat_digits n = s @ [c]"
      by (simp add: nat_digits.simps [of n] digit_char_back)
    then show ?thesis by (simp only: n_def)
  qed
qed simp

end
