(* ===== verification/Boot_Config.thy ===== *)
theory Boot_Config
  imports Ascii_Text "HOL-Library.List_Lexorder" "HOL-Library.Char_ord"
begin

text \<open>
  PBC1, the boot configuration text of \<open>src/runtime/native_boot_config.py\<close>: lexer, key and
  number rules, path rules, the parser with its error codes, the encoder, the artifact size
  rule and the fixtures. The text is a \<open>string\<close> whose characters are the bytes of the file.
\<close>

definition PBC_MAGIC :: string where "PBC_MAGIC = ''POOLEOS-BOOTCFG/1.0''"
definition END_MARKER :: string where "END_MARKER = ''end=PBC1''"
definition MAX_CONFIG_BYTES :: nat where [code_defs]: "MAX_CONFIG_BYTES = 16 * 1024"
definition MAX_LINE_BYTES :: nat where [code_defs]: "MAX_LINE_BYTES = 320"
definition MAX_LINES :: nat where [code_defs]: "MAX_LINES = 64"
definition MAX_ENTRIES :: int where [code_defs]: "MAX_ENTRIES = 8"
definition MAX_IDENTIFIER_BYTES :: nat where [code_defs]: "MAX_IDENTIFIER_BYTES = 31"
definition MAX_MANIFEST_PATH_BYTES :: nat where [code_defs]: "MAX_MANIFEST_PATH_BYTES = 240"
definition MAX_MANIFEST_BYTES :: int where [code_defs]: "MAX_MANIFEST_BYTES = 1024 * 1024"
definition MAX_TIMEOUT_MS :: int where [code_defs]: "MAX_TIMEOUT_MS = 30000"
definition MAX_BOOT_ATTEMPTS :: int where [code_defs]: "MAX_BOOT_ATTEMPTS = 8"
definition MAX_SLOT :: int where [code_defs]: "MAX_SLOT = 4"
definition BACKSLASH :: char where "BACKSLASH = CHR 0x5C"
definition MANIFEST_ROOT :: string where
  "MANIFEST_ROOT = [BACKSLASH] @ ''EFI'' @ [BACKSLASH] @ ''POOLEOS'' @ [BACKSLASH]"
definition MODES :: "string list" where "MODES = [''normal'', ''safe'', ''previous'', ''recovery'', ''diagnostic'']"
definition PBC_U64_MAX :: int where [code_defs]: "PBC_U64_MAX = 2 ^ 64 - 1"

record config_entry =
  e_id :: string
  e_mode :: string
  e_slot :: int
  e_manifest :: string
  e_manifest_max_bytes :: int

record config =
  c_default_entry :: string
  c_timeout_ms :: int
  c_boot_attempt_limit :: int
  c_entries :: "config_entry list"

definition pbc_lex :: "string \<Rightarrow> string list res" where
  "pbc_lex data =
     guarded [
       (data = [], ''empty''),
       (length data > MAX_CONFIG_BYTES, ''config_too_large''),
       (\<not> ends_with data [LF], ''missing_final_lf''),
       (list_ex (\<lambda>b. code b \<noteq> 10 \<and> \<not> (33 \<le> code b \<and> code b \<le> 126)) data, ''character'')]
     (let raw_lines = split_on LF (butlast data) in
      guarded [
        (list_ex (\<lambda>line. line = []) raw_lines, ''empty_line''),
        (list_ex (\<lambda>line. length line > MAX_LINE_BYTES) raw_lines, ''line_too_long''),
        (length raw_lines > MAX_LINES, ''too_many_lines'')]
      (Inr raw_lines))"

definition key_value :: "string \<Rightarrow> (string \<times> string) res" where
  "key_value line =
     guarded [(count_list line (CHR ''='') \<noteq> 1, ''syntax'')]
     (let key = before (CHR ''='') line; value = after (CHR ''='') line in
      guarded [(key = [] \<or> value = [], ''syntax'')] (Inr (key, value)))"

definition parse_digit :: "char \<Rightarrow> int \<Rightarrow> int res" where
  "parse_digit character number =
     (let digit = code character - 48 in
      guarded [(number > (PBC_U64_MAX - digit) div 10, ''numeric_overflow'')] (Inr (number * 10 + digit)))"

definition parse_number :: "string \<Rightarrow> int res" where
  "parse_number value =
     guarded [
       (value = [] \<or> \<not> list_all is_digit value, ''number''),
       (length value > 1 \<and> starts_with value ''0'', ''number_canonical'')]
     (rfold parse_digit value 0)"

definition parse_range :: "string \<Rightarrow> int \<Rightarrow> int \<Rightarrow> int res" where
  "parse_range value minimum maximum =
     rbind (parse_number value) (\<lambda>number.
     guarded [(\<not> (minimum \<le> number \<and> number \<le> maximum), ''range'')] (Inr number))"

definition is_lower :: "char \<Rightarrow> bool" where "is_lower c \<longleftrightarrow> 97 \<le> code c \<and> code c \<le> 122"
definition is_upper :: "char \<Rightarrow> bool" where "is_upper c \<longleftrightarrow> 65 \<le> code c \<and> code c \<le> 90"

text \<open>The regular expression \<open>[a-z][a-z0-9_]{0,30}\<close> and the length rule.\<close>

definition valid_identifier :: "string \<Rightarrow> bool" where
  "valid_identifier value \<longleftrightarrow>
     (case value of [] \<Rightarrow> False | c # cs \<Rightarrow> is_lower c \<and> length cs \<le> 30 \<and>
        list_all (\<lambda>c. is_lower c \<or> is_digit c \<or> c = CHR ''_'') cs) \<and>
     length value \<le> MAX_IDENTIFIER_BYTES"

definition path_character :: "char \<Rightarrow> bool" where
  "path_character c \<longleftrightarrow> c \<in> set ''ABCDEFGHIJKLMNOPQRSTUVWXYZ0123456789_-''"

definition component_bad :: "nat \<Rightarrow> nat \<times> string \<Rightarrow> bool" where
  "component_bad count = (\<lambda>(index, component).
     component = [] \<or> component \<in> {''.'', ''..''} \<or> length component > 64 \<or>
     (let body = (if index = count - 1 then take (length component - 4) component else component)
      in body = [] \<or> \<not> is_upper (hd body) \<or> list_ex (\<lambda>c. \<not> path_character c) body))"

definition validate_path :: "string \<Rightarrow> unit res" where
  "validate_path value =
     guarded [(length value > MAX_MANIFEST_PATH_BYTES \<or> \<not> starts_with value MANIFEST_ROOT, ''path'')]
     (let relative = drop (length MANIFEST_ROOT) value in
      guarded [(relative = [] \<or> CHR ''/'' \<in> set relative \<or> \<not> ends_with relative ''.PBM'', ''path'')]
      (let components = split_on BACKSLASH relative in
       guarded [(list_ex (component_bad (length components)) (enumerate 0 components), ''path'')] (Inr ())))"

datatype key_class = Known | Unknown | Identifier

definition STATIC_KEYS :: "string list" where
  "STATIC_KEYS = [''entry_count'', ''default_entry'', ''timeout_ms'', ''boot_attempt_limit'']"
definition ENTRY_FIELDS :: "string list" where
  "ENTRY_FIELDS = [''mode'', ''slot'', ''manifest'', ''manifest_max_bytes'']"

definition classify_key :: "string \<Rightarrow> key_class" where
  "classify_key key =
     (if key \<in> set STATIC_KEYS then Known
      else if \<not> starts_with key ''entry.'' then Unknown
      else let rest = drop 6 key in
        if CHR ''.'' \<notin> set rest then Unknown
        else let identifier = before (CHR ''.'') rest; field = after (CHR ''.'') rest in
          if \<not> valid_identifier identifier then Identifier
          else if field \<in> set ENTRY_FIELDS then Known else Unknown)"

definition reject_key :: "string \<Rightarrow> 'a res" where
  "reject_key key = (case classify_key key of
     Known \<Rightarrow> Inl (Fail ''key_order'') | Identifier \<Rightarrow> Inl (Fail ''identifier'') | Unknown \<Rightarrow> Inl (Fail ''unknown_key''))"

definition expect_key :: "(string \<times> string) list \<Rightarrow> nat \<Rightarrow> string \<Rightarrow> string res" where
  "expect_key pairs index key =
     (if index - 1 < length pairs then
        (case pairs ! (index - 1) of (actual, value) \<Rightarrow> if actual = key then Inr value else reject_key actual)
      else Inl (Fail ''truncated''))"

definition entry_key :: "string \<Rightarrow> string \<Rightarrow> string res" where
  "entry_key key field =
     guarded [
       (classify_key key = Identifier, ''identifier''),
       (classify_key key = Unknown, ''unknown_key''),
       (\<not> starts_with key ''entry.'', ''key_order'')]
     (case split_on (CHR ''.'') key of
        [_, identifier, actual_field] \<Rightarrow> guarded [(actual_field \<noteq> field, ''key_order'')] (Inr identifier)
      | _ \<Rightarrow> Inl ValueError)"

definition parse_entry :: "(string \<times> string) list \<Rightarrow> nat \<Rightarrow> config_entry list \<times> string \<Rightarrow>
    (config_entry list \<times> string) res" where
  "parse_entry pairs index = (\<lambda>(entries, previous).
     let base = 4 + index * 4 in
     rbind (item pairs base) (\<lambda>(mode_key, mode).
     rbind (entry_key mode_key ''mode'') (\<lambda>identifier.
     guarded [(previous \<noteq> [] \<and> identifier \<le> previous, ''entry_order'')]
     (rbind (item pairs (base + 1)) (\<lambda>(slot_key, slot_text).
      rbind (item pairs (base + 2)) (\<lambda>(manifest_key, manifest).
      rbind (item pairs (base + 3)) (\<lambda>(limit_key, limit_text).
      rbind (entry_key slot_key ''slot'') (\<lambda>id1.
      guarded [(id1 \<noteq> identifier, ''key_order'')]
      (rbind (entry_key manifest_key ''manifest'') (\<lambda>id2.
       guarded [(id2 \<noteq> identifier, ''key_order'')]
       (rbind (entry_key limit_key ''manifest_max_bytes'') (\<lambda>id3.
        guarded [(id3 \<noteq> identifier, ''key_order''), (mode \<notin> set MODES, ''mode'')]
        (rbind (parse_range slot_text 1 MAX_SLOT) (\<lambda>slot.
         rbind (validate_path manifest) (\<lambda>_.
         rbind (parse_range limit_text 1 MAX_MANIFEST_BYTES) (\<lambda>limit.
         Inr (entries @ [\<lparr>e_id = identifier, e_mode = mode, e_slot = slot, e_manifest = manifest,
                e_manifest_max_bytes = limit\<rparr>], identifier)))))))))))))))))"

definition check_duplicate :: "string \<times> string \<Rightarrow> string set \<Rightarrow> string set res" where
  "check_duplicate = (\<lambda>(key, _) seen. guarded [(key \<in> seen, ''duplicate_key'')] (Inr (insert key seen)))"

text \<open>The fields after the entry count, once the number of lines is known to fit.\<close>

definition parse_fields :: "(string \<times> string) list \<Rightarrow> int \<Rightarrow> config res" where
  "parse_fields pairs entry_count =
     rbind (expect_key pairs 2 ''default_entry'') (\<lambda>default_entry.
     guarded [(\<not> valid_identifier default_entry, ''identifier'')]
     (rbind (expect_key pairs 3 ''timeout_ms'') (\<lambda>timeout_text.
      rbind (parse_range timeout_text 0 MAX_TIMEOUT_MS) (\<lambda>timeout_ms.
      rbind (expect_key pairs 4 ''boot_attempt_limit'') (\<lambda>attempt_text.
      rbind (parse_range attempt_text 1 MAX_BOOT_ATTEMPTS) (\<lambda>boot_attempt_limit.
      rbind (rfold (parse_entry pairs) [0..<nat entry_count] ([], [])) (\<lambda>(entries, _).
      guarded [(default_entry \<notin> e_id ` set entries, ''default_entry'')]
      (Inr \<lparr>c_default_entry = default_entry, c_timeout_ms = timeout_ms,
         c_boot_attempt_limit = boot_attempt_limit, c_entries = entries\<rparr>))))))))"

definition pbc_parse :: "string \<Rightarrow> int \<Rightarrow> config res" where
  "pbc_parse data capacity =
     rbind (pbc_lex data) (\<lambda>lines.
     rbind (item lines 0) (\<lambda>first.
     guarded [
       (first \<noteq> PBC_MAGIC, if starts_with first ''POOLEOS-BOOTCFG/'' then ''version'' else ''magic''),
       (length lines < 6, ''truncated''),
       (last lines \<noteq> END_MARKER, ''end_marker'')]
     (rbind (rmap key_value (butlast (tl lines))) (\<lambda>pairs.
      rbind (rfold check_duplicate pairs {}) (\<lambda>_.
      rbind (expect_key pairs 1 ''entry_count'') (\<lambda>count_text.
      rbind (parse_range count_text 1 MAX_ENTRIES) (\<lambda>entry_count.
      let expected_lines = 6 + nat entry_count * 4 in
      if length lines < expected_lines then Inl (Fail ''truncated'')
      else if length lines > expected_lines then
        rbind (item lines (expected_lines - 1)) (\<lambda>line. rbind (key_value line) (\<lambda>(key, _). reject_key key))
      else guarded [(capacity < entry_count, ''output_capacity'')] (parse_fields pairs entry_count))))))))"

definition entry_lines :: "config_entry \<Rightarrow> string list" where
  "entry_lines e = [
     ''entry.'' @ e_id e @ ''.mode='' @ e_mode e,
     ''entry.'' @ e_id e @ ''.slot='' @ decimal (e_slot e),
     ''entry.'' @ e_id e @ ''.manifest='' @ e_manifest e,
     ''entry.'' @ e_id e @ ''.manifest_max_bytes='' @ decimal (e_manifest_max_bytes e)]"

definition config_lines :: "config \<Rightarrow> string list" where
  "config_lines c = [
     PBC_MAGIC,
     ''entry_count='' @ decimal (int (length (c_entries c))),
     ''default_entry='' @ c_default_entry c,
     ''timeout_ms='' @ decimal (c_timeout_ms c),
     ''boot_attempt_limit='' @ decimal (c_boot_attempt_limit c)] @
     concat (map entry_lines (c_entries c)) @ [END_MARKER]"

definition encode_ascii :: "string \<Rightarrow> string res" where
  "encode_ascii s = (if list_all (\<lambda>c. code c < 128) s then Inr s else Inl UnicodeError)"

definition pbc_encode :: "config_entry list \<Rightarrow> string \<Rightarrow> int \<Rightarrow> int \<Rightarrow> string res" where
  "pbc_encode entries default_entry timeout_ms boot_attempt_limit =
     (let ordered = sort_key e_id entries;
          lines = config_lines \<lparr>c_default_entry = default_entry, c_timeout_ms = timeout_ms,
            c_boot_attempt_limit = boot_attempt_limit, c_entries = ordered\<rparr>
      in rbind (encode_ascii (join_with [LF] lines @ [LF])) (\<lambda>encoded.
         rbind (pbc_parse encoded MAX_ENTRIES) (\<lambda>_. Inr encoded)))"

definition validate_manifest_size :: "int \<Rightarrow> int \<Rightarrow> unit res" where
  "validate_manifest_size configured_limit observed_size = guarded [
     (configured_limit \<le> 0 \<or> configured_limit > MAX_MANIFEST_BYTES \<or> observed_size \<le> 0 \<or>
      observed_size > configured_limit \<or> observed_size > MAX_MANIFEST_BYTES, ''artifact_size'')] (Inr ())"

definition pbc_summarize :: "config \<Rightarrow> string" where
  "pbc_summarize c =
     ''OK;entry_count='' @ decimal (int (length (c_entries c))) @ '';default_entry='' @ c_default_entry c @ '';'' @
     ''timeout_ms='' @ decimal (c_timeout_ms c) @ '';boot_attempt_limit='' @ decimal (c_boot_attempt_limit c) @
     concat (map (\<lambda>e. '';entry='' @ e_id e @ '','' @ e_mode e @ '','' @ decimal (e_slot e) @ '','' @ e_manifest e @ '','' @
       decimal (e_manifest_max_bytes e)) (c_entries c))"

text \<open>The wrappers catch the module's own exception only.\<close>

fun code_result :: "string res \<Rightarrow> string res" where
  "code_result (Inl (Fail c)) = Inr (''ERR:'' @ c)"
| "code_result r = r"

definition pbc_parse_result :: "string \<Rightarrow> int \<Rightarrow> string res" where
  "pbc_parse_result data capacity = code_result (rbind (pbc_parse data capacity) (\<lambda>c. Inr (pbc_summarize c)))"

definition size_result :: "int \<Rightarrow> int \<Rightarrow> string res" where
  "size_result configured_limit observed_size =
     code_result (rbind (validate_manifest_size configured_limit observed_size) (\<lambda>_. Inr ''OK''))"

function boundary_components :: "nat \<Rightarrow> string list" where
  "boundary_components remaining =
     (if remaining > 64 then replicate 64 (CHR ''A'') # boundary_components (remaining - 65)
      else [replicate remaining (CHR ''Z'')])"
  by pat_completeness auto
termination by (relation "measure id") auto

definition boundary_path :: "string res" where
  "boundary_path =
     (let remaining = MAX_MANIFEST_PATH_BYTES - length MANIFEST_ROOT - length ''.PBM'';
          path = MANIFEST_ROOT @ join_with [BACKSLASH] (boundary_components remaining) @ ''.PBM''
      in guarded [(length path \<noteq> MAX_MANIFEST_PATH_BYTES, ''boundary_path'')] (Inr path))"

definition minimal_config :: "config_entry list" where
  "minimal_config = [\<lparr>e_id = ''normal'', e_mode = ''normal'', e_slot = 1,
     e_manifest = MANIFEST_ROOT @ ''MANIFEST_A.PBM'', e_manifest_max_bytes = 65536\<rparr>]"

definition multi_mode_config :: "config_entry list" where
  "multi_mode_config = [
     \<lparr>e_id = ''diagnostic'', e_mode = ''diagnostic'', e_slot = 4, e_manifest = MANIFEST_ROOT @ ''DIAGNOSTIC.PBM'', e_manifest_max_bytes = 131072\<rparr>,
     \<lparr>e_id = ''normal'', e_mode = ''normal'', e_slot = 1, e_manifest = MANIFEST_ROOT @ ''NORMAL.PBM'', e_manifest_max_bytes = 524288\<rparr>,
     \<lparr>e_id = ''previous'', e_mode = ''previous'', e_slot = 2, e_manifest = MANIFEST_ROOT @ ''PREVIOUS.PBM'', e_manifest_max_bytes = 524288\<rparr>,
     \<lparr>e_id = ''recovery'', e_mode = ''recovery'', e_slot = 3, e_manifest = MANIFEST_ROOT @ ''RECOVERY.PBM'', e_manifest_max_bytes = 262144\<rparr>,
     \<lparr>e_id = ''safe'', e_mode = ''safe'', e_slot = 1, e_manifest = MANIFEST_ROOT @ ''SAFE.PBM'', e_manifest_max_bytes = 262144\<rparr>]"

definition maxima_entry :: "nat \<Rightarrow> config_entry res" where
  "maxima_entry index =
     rbind (if index = 7 then boundary_path else Inr (MANIFEST_ROOT @ ''SLOT_'' @ decimal (int index) @ ''.PBM'')) (\<lambda>path.
     Inr \<lparr>e_id = ''slot_'' @ decimal (int index), e_mode = MODES ! (index mod length MODES), e_slot = MAX_SLOT,
       e_manifest = path, e_manifest_max_bytes = MAX_MANIFEST_BYTES\<rparr>)"

definition pbc_build_fixture :: "string \<Rightarrow> string res" where
  "pbc_build_fixture vector_id =
     (if vector_id = ''minimal_v1'' then pbc_encode minimal_config ''normal'' 0 3
      else if vector_id = ''multi_mode_v1'' then pbc_encode multi_mode_config ''normal'' 5000 4
      else if vector_id = ''bounded_maxima_v1'' then
        rbind (rmap maxima_entry [0..<nat MAX_ENTRIES]) (\<lambda>entries.
        pbc_encode entries ''slot_7'' MAX_TIMEOUT_MS MAX_BOOT_ATTEMPTS)
      else Inl (Fail ''unknown_fixture''))"

end
