(* ===== verification/Boot_Config_Codec.thy ===== *)
theory Boot_Config_Codec
  imports Boot_Config "HOL-Library.Sublist" "HOL-Library.Multiset"
begin

text \<open>
  PBC1 text and configurations correspond: the parser accepts exactly the text the encoder
  writes for a well-formed configuration, and reads that configuration back.
\<close>


section \<open>Numbers, pairs and keys\<close>

lemma parse_digits:
  assumes "list_all is_digit s"
  shows "rfold parse_digit s 0 =
    (if digit_value s \<le> PBC_U64_MAX then Inr (digit_value s) else Inl (Fail ''numeric_overflow''))"
  using assms
proof (induction s rule: rev_induct)
  case Nil
  then show ?case by (simp add: digit_value_def PBC_U64_MAX_def)
next
  case (snoc c s)
  have c: "0 \<le> code c - 48" "code c - 48 \<le> 9" using snoc.prems by (simp_all add: is_digit_def)
  have v: "0 \<le> digit_value s" using snoc.prems by (simp add: digit_value_nonneg)
  have "digit_value s > (PBC_U64_MAX - (code c - 48)) div 10 \<longleftrightarrow> \<not> digit_value s * 10 + (code c - 48) \<le> PBC_U64_MAX"
    by linarith
  moreover have "digit_value s * 10 + (code c - 48) \<le> PBC_U64_MAX \<Longrightarrow> digit_value s \<le> PBC_U64_MAX"
    using c v by linarith
  ultimately show ?case
    using snoc by (auto simp: rfold_append parse_digit_def Let_def guarded.simps)
qed

lemma parse_number_iff: "parse_number s = Inr n \<longleftrightarrow> 0 \<le> n \<and> n \<le> PBC_U64_MAX \<and> s = decimal n"
proof
  assume "parse_number s = Inr n"
  then have s: "s \<noteq> []" "list_all is_digit s" "length s > 1 \<longrightarrow> \<not> starts_with s ''0''" "rfold parse_digit s 0 = Inr n"
    by (auto simp: parse_number_def guarded_Inr_iff)
  from s(4) have n: "n = digit_value s" "n \<le> PBC_U64_MAX" unfolding parse_digits [OF s(2)] by (auto split: if_splits)
  have "length s > 1 \<longrightarrow> code (hd s) \<noteq> 48"
    using s(1,3) code_inj [of "hd s" "CHR ''0''"] by (cases s) (auto simp: starts_with_def code_def)
  with nat_digits_value [OF s(1,2)] n digit_value_nonneg [OF s(2)]
  show "0 \<le> n \<and> n \<le> PBC_U64_MAX \<and> s = decimal n" by (simp add: decimal_def)
next
  assume n: "0 \<le> n \<and> n \<le> PBC_U64_MAX \<and> s = decimal n"
  then have s: "s = nat_digits (nat n)" by (simp add: decimal_def)
  note d = nat_digits_ok [of "nat n", folded s]
  have "length s > 1 \<longrightarrow> \<not> starts_with s ''0''"
    using nat_digits_lead [of "nat n", folded s] by (cases s) (auto simp: starts_with_def code_def)
  with d n show "parse_number s = Inr n"
    by (simp add: parse_number_def guarded_pass parse_digits)
qed

lemma parse_range_iff:
  "0 \<le> a \<Longrightarrow> b \<le> PBC_U64_MAX \<Longrightarrow> parse_range s a b = Inr n \<longleftrightarrow> a \<le> n \<and> n \<le> b \<and> s = decimal n"
  by (auto simp: parse_range_def rbind_Inr_iff guarded_Inr_iff parse_number_iff)

lemma decimal_chars:
  assumes "0 \<le> n"
  shows "decimal n \<noteq> []" "c \<in> set (decimal n) \<Longrightarrow> is_digit c"
proof -
  have "decimal n = nat_digits (nat n)" using assms by (simp add: decimal_def)
  with nat_digits_ok [of "nat n"] show "decimal n \<noteq> []" "c \<in> set (decimal n) \<Longrightarrow> is_digit c"
    by (simp_all add: list_all_iff)
qed

definition kv_line :: "string \<times> string \<Rightarrow> string" where
  "kv_line = (\<lambda>(k, v). k @ ''='' @ v)"

definition kv_ok :: "string \<times> string \<Rightarrow> bool" where
  "kv_ok = (\<lambda>(k, v). k \<noteq> [] \<and> v \<noteq> [] \<and> CHR ''='' \<notin> set k \<and> CHR ''='' \<notin> set v)"

lemma key_value_iff: "key_value line = Inr p \<longleftrightarrow> kv_ok p \<and> line = kv_line p"
proof
  assume "key_value line = Inr p"
  then have one: "count_list line (CHR ''='') = 1" and p: "p = (before (CHR ''='') line, after (CHR ''='') line)"
      "before (CHR ''='') line \<noteq> []" "after (CHR ''='') line \<noteq> []"
    by (auto simp: key_value_def Let_def guarded_Inr_iff)
  have "CHR ''='' \<in> set line" using one count_list_0_iff [of line "CHR ''=''"] by auto
  note ba = before_after [OF this]
  have "count_list (before (CHR ''='') line @ CHR ''='' # after (CHR ''='') line) (CHR ''='') = 1" using one ba(1) by simp
  then have "CHR ''='' \<notin> set (after (CHR ''='') line)" by (simp add: count_list_0_iff)
  with p ba show "kv_ok p \<and> line = kv_line p" by (simp add: kv_ok_def kv_line_def)
next
  assume "kv_ok p \<and> line = kv_line p"
  then show "key_value line = Inr p"
    by (cases p) (simp add: kv_ok_def kv_line_def key_value_def Let_def guarded_pass count_notin)
qed

lemma rmap_key_value_iff: "rmap key_value ls = Inr ps \<longleftrightarrow> list_all kv_ok ps \<and> ls = map kv_line ps"
proof (induction ls arbitrary: ps)
  case (Cons l ls)
  then show ?case by (cases ps) (auto simp: rbind_Inr_iff key_value_iff)
qed auto

lemma identifier_no_dot: "valid_identifier s \<Longrightarrow> CHR ''.'' \<notin> set s"
  by (auto simp: valid_identifier_def is_lower_def is_digit_def code_def list_all_iff split: list.splits)

lemma fields_no_dot: "f \<in> set ENTRY_FIELDS \<Longrightarrow> CHR ''.'' \<notin> set f"
  by (auto simp: ENTRY_FIELDS_def)

definition entry_name :: "string \<Rightarrow> string \<Rightarrow> string" where
  "entry_name i f = ''entry.'' @ i @ ''.'' @ f"

lemma entry_name_split:
  "valid_identifier i \<Longrightarrow> f \<in> set ENTRY_FIELDS \<Longrightarrow> split_on (CHR ''.'') (entry_name i f) = [''entry'', i, f]"
  using split_join [of "[''entry'', i, f]" "CHR ''.''"] identifier_no_dot [of i] fields_no_dot [of f]
  by (simp add: entry_name_def)

lemma classify_known:
  "classify_key key = Known \<longleftrightarrow>
     key \<in> set STATIC_KEYS \<or> (\<exists>i f. valid_identifier i \<and> f \<in> set ENTRY_FIELDS \<and> key = entry_name i f)"
proof
  assume known: "classify_key key = Known"
  show "key \<in> set STATIC_KEYS \<or> (\<exists>i f. valid_identifier i \<and> f \<in> set ENTRY_FIELDS \<and> key = entry_name i f)"
  proof (cases "key \<in> set STATIC_KEYS")
    case False
    let ?r = "drop 6 key"
    have r: "starts_with key ''entry.''" "CHR ''.'' \<in> set ?r" "valid_identifier (before (CHR ''.'') ?r)"
        "after (CHR ''.'') ?r \<in> set ENTRY_FIELDS"
      using known False by (auto simp: classify_key_def Let_def split: if_splits)
    from r(1) obtain s where "key = ''entry.'' @ s" by (auto simp: starts_with_iff)
    then have "key = ''entry.'' @ ?r" by simp
    with before_after(1) [OF r(2)] have "key = entry_name (before (CHR ''.'') ?r) (after (CHR ''.'') ?r)"
      by (simp add: entry_name_def)
    with r(3,4) show ?thesis by blast
  qed simp
next
  assume "key \<in> set STATIC_KEYS \<or> (\<exists>i f. valid_identifier i \<and> f \<in> set ENTRY_FIELDS \<and> key = entry_name i f)"
  then show "classify_key key = Known"
  proof (elim disjE exE conjE)
    fix i f
    assume i: "valid_identifier i" "f \<in> set ENTRY_FIELDS" "key = entry_name i f"
    then show ?thesis
      using identifier_no_dot [OF i(1)] by (simp add: classify_key_def entry_name_def starts_with_def)
  qed (simp add: classify_key_def)
qed

lemma entry_key_iff:
  assumes "f \<in> set ENTRY_FIELDS"
  shows "entry_key key f = Inr i \<longleftrightarrow> valid_identifier i \<and> key = entry_name i f"
proof
  assume k: "entry_key key f = Inr i"
  then have c: "classify_key key = Known" "starts_with key ''entry.''"
    by (cases "classify_key key"; simp add: entry_key_def guarded.simps split: if_splits)+
  then have "key \<notin> set STATIC_KEYS" by (auto simp: STATIC_KEYS_def starts_with_def)
  with c(1) obtain j g where g: "valid_identifier j" "g \<in> set ENTRY_FIELDS" "key = entry_name j g"
    by (auto simp: classify_known)
  with k show "valid_identifier i \<and> key = entry_name i f"
    by (auto simp: entry_key_def guarded_Inr_iff entry_name_split)
next
  assume i: "valid_identifier i \<and> key = entry_name i f"
  then have "classify_key key = Known" using assms by (auto simp: classify_known)
  moreover have "starts_with key ''entry.''" using i by (simp add: entry_name_def starts_with_def)
  ultimately show "entry_key key f = Inr i"
    using i assms by (simp add: entry_key_def guarded_pass entry_name_split)
qed

lemma reject_key_fails [simp]: "reject_key k \<noteq> Inr x"
  by (simp add: reject_key_def split: key_class.splits)

lemma expect_key_iff: "expect_key ps i k = Inr v \<longleftrightarrow> i - 1 < length ps \<and> ps ! (i - 1) = (k, v)"
  by (auto simp: expect_key_def split: prod.splits if_splits)

lemma duplicates_iff:
  "returns (rfold check_duplicate ps seen) \<longleftrightarrow> distinct (map fst ps) \<and> set (map fst ps) \<inter> seen = {}"
proof (induction ps arbitrary: seen)
  case (Cons p ps)
  obtain k v where p: "p = (k, v)" by force
  show ?case
  proof (cases "k \<in> seen")
    case True
    then show ?thesis by (simp add: p check_duplicate_def guarded.simps)
  next
    case False
    then show ?thesis using Cons [of "insert k seen"] by (auto simp: p check_duplicate_def guarded.simps)
  qed
qed simp


section \<open>Lines\<close>

definition printable :: "char \<Rightarrow> bool" where
  "printable c \<longleftrightarrow> 33 \<le> code c \<and> code c \<le> 126"

definition line_ok :: "string \<Rightarrow> bool" where
  "line_ok l \<longleftrightarrow> l \<noteq> [] \<and> length l \<le> MAX_LINE_BYTES \<and> list_all printable l"

lemma code_LF: "code c = 10 \<longleftrightarrow> c = LF"
  using code_inj [of c LF] by (auto simp: LF_def code_def)

lemma pbc_lex_iff:
  "pbc_lex data = Inr ls \<longleftrightarrow> data = join_with [LF] ls @ [LF] \<and> length data \<le> MAX_CONFIG_BYTES \<and> ls \<noteq> [] \<and>
     length ls \<le> MAX_LINES \<and> list_all line_ok ls"
proof
  assume lex: "pbc_lex data = Inr ls"
  then have d: "length data \<le> MAX_CONFIG_BYTES" "ends_with data [LF]" "\<forall>c \<in> set data. code c = 10 \<or> printable c"
    and ls: "ls = split_on LF (butlast data)" "length ls \<le> MAX_LINES" "\<forall>l \<in> set ls. l \<noteq> [] \<and> length l \<le> MAX_LINE_BYTES"
    by (auto simp: pbc_lex_def Let_def guarded_Inr_iff list_ex_iff printable_def)
  obtain r where r: "data = r @ [LF]" using d(2) by (auto simp: ends_with_iff)
  then have join: "data = join_with [LF] ls @ [LF]" by (simp add: ls(1) join_split)
  have "printable c" if "l \<in> set ls" "c \<in> set l" for l c
  proof -
    have "c \<noteq> LF" using split_on_free [of l LF "butlast data"] that ls(1) by auto
    moreover have "c \<in> set data" using that
    proof -
      have "c \<in> set (join_with [LF] ls)" using that by (induction "[LF]" ls rule: join_with.induct) auto
      then show ?thesis using join by simp
    qed
    ultimately show ?thesis using d(3) code_LF by blast
  qed
  with ls(3) have "list_all line_ok ls" by (auto simp: list_all_iff line_ok_def)
  with join d(1) ls(1,2) show "data = join_with [LF] ls @ [LF] \<and> length data \<le> MAX_CONFIG_BYTES \<and> ls \<noteq> [] \<and>
     length ls \<le> MAX_LINES \<and> list_all line_ok ls" by simp
next
  assume a: "data = join_with [LF] ls @ [LF] \<and> length data \<le> MAX_CONFIG_BYTES \<and> ls \<noteq> [] \<and>
     length ls \<le> MAX_LINES \<and> list_all line_ok ls"
  then have ok: "\<And>l. l \<in> set ls \<Longrightarrow> line_ok l" by (simp add: list_all_iff)
  have p: "printable c" if "l \<in> set ls" "c \<in> set l" for l c using ok [OF that(1)] that(2) by (simp add: line_ok_def list_all_iff)
  have "\<not> printable LF" by (simp add: printable_def LF_def code_def)
  then have free: "\<forall>l \<in> set ls. LF \<notin> set l" using p by blast
  have chars: "code c = 10 \<or> printable c" if "c \<in> set data" for c
    using that a set_join [of LF ls] p code_LF by auto
  have "split_on LF (butlast data) = ls" using a free by (simp add: split_join)
  then show "pbc_lex data = Inr ls"
    using a ok chars
    by (auto simp: pbc_lex_def Let_def guarded_Inr_iff ends_with_iff list_ex_iff printable_def line_ok_def list_all_iff not_le not_less)
qed


section \<open>Entries\<close>

definition entry_pairs :: "config_entry \<Rightarrow> (string \<times> string) list" where
  "entry_pairs e = [
     (entry_name (e_id e) ''mode'', e_mode e), (entry_name (e_id e) ''slot'', decimal (e_slot e)),
     (entry_name (e_id e) ''manifest'', e_manifest e),
     (entry_name (e_id e) ''manifest_max_bytes'', decimal (e_manifest_max_bytes e))]"

definition entry_ok :: "config_entry \<Rightarrow> bool" where
  "entry_ok e \<longleftrightarrow> valid_identifier (e_id e) \<and> e_mode e \<in> set MODES \<and> 1 \<le> e_slot e \<and> e_slot e \<le> MAX_SLOT \<and>
     validate_path (e_manifest e) = Inr () \<and> 1 \<le> e_manifest_max_bytes e \<and> e_manifest_max_bytes e \<le> MAX_MANIFEST_BYTES"

lemma entry_fields: "''mode'' \<in> set ENTRY_FIELDS" "''slot'' \<in> set ENTRY_FIELDS" "''manifest'' \<in> set ENTRY_FIELDS"
  "''manifest_max_bytes'' \<in> set ENTRY_FIELDS"
  by (simp_all add: ENTRY_FIELDS_def)

lemmas entry_key_iffs = entry_fields [THEN entry_key_iff]

lemma drop4:
  "i + 3 < length xs \<Longrightarrow> take 4 (drop i xs) = [a, b, c, d] \<longleftrightarrow>
     xs ! i = a \<and> xs ! (i + 1) = b \<and> xs ! (i + 2) = c \<and> xs ! (i + 3) = d"
proof -
  assume i: "i + 3 < length xs"
  then have "drop i xs = xs ! i # xs ! (i + 1) # xs ! (i + 2) # xs ! (i + 3) # drop (i + 4) xs"
    by (simp add: Cons_nth_drop_Suc [symmetric] eval_nat_numeral)
  then show ?thesis by simp
qed

lemma parse_entry_iff:
  assumes "4 + index * 4 + 3 < length pairs"
  shows "parse_entry pairs index (es, prev) = Inr r \<longleftrightarrow>
    (\<exists>e. r = (es @ [e], e_id e) \<and> entry_ok e \<and> (prev \<noteq> [] \<longrightarrow> prev < e_id e) \<and>
      take 4 (drop (4 + index * 4) pairs) = entry_pairs e)"
    (is "?l \<longleftrightarrow> ?r")
proof -
  let ?b = "4 + index * 4"
  have lim: "MAX_SLOT \<le> PBC_U64_MAX" "MAX_MANIFEST_BYTES \<le> PBC_U64_MAX" by (simp_all add: code_defs)
  have len: "?b < length pairs" "?b + 1 < length pairs" "?b + 2 < length pairs" "?b + 3 < length pairs" using assms by auto
  obtain k0 v0 k1 v1 k2 v2 k3 v3 where p: "pairs ! ?b = (k0, v0)" "pairs ! (?b + 1) = (k1, v1)"
      "pairs ! (?b + 2) = (k2, v2)" "pairs ! (?b + 3) = (k3, v3)" by (meson surj_pair)
  have "?l \<longleftrightarrow> (\<exists>i slot limit. r = (es @ [\<lparr>e_id = i, e_mode = v0, e_slot = slot, e_manifest = v2, e_manifest_max_bytes = limit\<rparr>], i) \<and>
      valid_identifier i \<and> k0 = entry_name i ''mode'' \<and> k1 = entry_name i ''slot'' \<and> k2 = entry_name i ''manifest'' \<and>
      k3 = entry_name i ''manifest_max_bytes'' \<and> (prev \<noteq> [] \<longrightarrow> prev < i) \<and> v0 \<in> set MODES \<and>
      1 \<le> slot \<and> slot \<le> MAX_SLOT \<and> v1 = decimal slot \<and> validate_path v2 = Inr () \<and>
      1 \<le> limit \<and> limit \<le> MAX_MANIFEST_BYTES \<and> v3 = decimal limit)"
    unfolding parse_entry_def Let_def prod.case item_def if_P [OF len(1)] if_P [OF len(2)] if_P [OF len(3)] if_P [OF len(4)]
      rbind.simps p
    by (auto simp: rbind_Inr_iff guarded_Inr_iff entry_key_iffs parse_range_iff lim not_le)
  also have "\<dots> \<longleftrightarrow> ?r"
    unfolding entry_pairs_def drop4 [OF len(4)] p
    by (auto simp: entry_ok_def) (metis config_entry.surjective old.unit.exhaust)+
  finally show ?thesis .
qed


section \<open>Characters of an accepted path\<close>

lemma join_last: "xs \<noteq> [] \<Longrightarrow> \<exists>pre. join_with s xs = pre @ last xs"
  by (induction s xs rule: join_with.induct) auto

lemma suffix_within:
  assumes "pre @ x = r @ s" "length y \<le> length s" "x = z @ y"
  shows "set y \<subseteq> set s"
proof -
  have "r @ s = (pre @ z) @ y" using assms(1,3) by simp
  then have "suffix y (r @ s)" unfolding suffix_def by blast
  moreover have "suffix s (r @ s)" by (simp add: suffix_def)
  ultimately have "suffix y s" using assms(2) by (meson suffix_length_suffix)
  then show ?thesis by (rule set_mono_suffix)
qed

definition path_byte :: "char \<Rightarrow> bool" where
  "path_byte c \<longleftrightarrow> path_character c \<or> c = CHR ''.'' \<or> c = BACKSLASH"

lemma path_byte_ok: "path_byte c \<Longrightarrow> printable c \<and> c \<noteq> CHR ''=''"
  by (auto simp: path_byte_def path_character_def printable_def code_def BACKSLASH_def)

lemma validate_path_bytes:
  assumes "validate_path v = Inr ()"
  shows "v \<noteq> []" "length v \<le> MAX_MANIFEST_PATH_BYTES" "list_all path_byte v"
proof -
  let ?rel = "drop (length MANIFEST_ROOT) v"
  let ?cs = "split_on BACKSLASH ?rel"
  have v: "length v \<le> MAX_MANIFEST_PATH_BYTES" "starts_with v MANIFEST_ROOT" "ends_with ?rel ''.PBM''"
    and good: "\<forall>x \<in> set (enumerate 0 ?cs). \<not> component_bad (length ?cs) x"
    using assms by (auto simp: validate_path_def Let_def guarded_Inr_iff list_ex_iff)
  show "length v \<le> MAX_MANIFEST_PATH_BYTES" by (rule v(1))
  obtain s where s: "v = MANIFEST_ROOT @ s" using v(2) by (auto simp: starts_with_iff)
  then show "v \<noteq> []" by (simp add: MANIFEST_ROOT_def)
  obtain r where r: "?rel = r @ ''.PBM''" using v(3) by (auto simp: ends_with_iff)
  obtain pre where pre: "?rel = pre @ last ?cs"
    using join_last [of ?cs "[BACKSLASH]"] by (auto simp: join_split)
  have comp: "path_byte c" if i: "i < length ?cs" and c: "c \<in> set (?cs ! i)" for i c
  proof -
    have nb: "\<not> component_bad (length ?cs) (i, ?cs ! i)" using good i by (auto simp: all_set_conv_all_nth nth_enumerate_eq)
    show ?thesis
    proof (cases "i = length ?cs - 1")
      case True
      then have last: "?cs ! i = last ?cs" by (simp add: last_conv_nth)
      let ?n = "length (last ?cs) - 4"
      have "set (drop ?n (last ?cs)) \<subseteq> set ''.PBM''"
        by (rule suffix_within [OF trans [OF pre [symmetric] r], of _ "take ?n (last ?cs)"])
          (simp, simp only: append_take_drop_id)
      moreover have "\<forall>c \<in> set (take ?n (last ?cs)). path_character c"
        using nb True last by (auto simp: component_bad_def Let_def list_ex_iff)
      moreover have "c \<in> set (take ?n (last ?cs)) \<or> c \<in> set (drop ?n (last ?cs))"
        using c last by (metis Un_iff append_take_drop_id set_append)
      moreover have "\<forall>x \<in> set ''.PBM''. path_byte x" by (simp add: path_byte_def path_character_def)
      ultimately show ?thesis unfolding path_byte_def by blast
    next
      case False
      with nb c show ?thesis by (auto simp: component_bad_def Let_def list_ex_iff path_byte_def)
    qed
  qed
  have "path_byte c" if "c \<in> set ?rel" for c
  proof -
    have "c \<in> insert BACKSLASH (\<Union>x \<in> set ?cs. set x)"
      using subsetD [OF set_join [of BACKSLASH ?cs, unfolded join_split] that] .
    then consider "c = BACKSLASH" | x where "x \<in> set ?cs" "c \<in> set x" by blast
    then show ?thesis
    proof cases
      case 2
      then obtain i where "i < length ?cs" "?cs ! i = x" by (auto simp: in_set_conv_nth)
      with comp [of i c] 2(2) show ?thesis by simp
    qed (simp add: path_byte_def)
  qed
  moreover have "list_all path_byte MANIFEST_ROOT"
    by (simp add: MANIFEST_ROOT_def path_byte_def path_character_def)
  ultimately show "list_all path_byte v" using s by (auto simp: list_all_iff)
qed


section \<open>The entry loop\<close>

lemma length_entry_pairs [simp]: "length (entry_pairs e) = 4"
  by (simp add: entry_pairs_def)

lemma length_all_pairs [simp]: "length (concat (map entry_pairs es)) = 4 * length es"
  by (induction es) simp_all

lemma nth_entry_pairs: "i < length es \<Longrightarrow> take 4 (drop (4 * i) (concat (map entry_pairs es))) = entry_pairs (es ! i)"
proof (induction es arbitrary: i)
  case (Cons e es)
  then show ?case by (cases i) simp_all
qed simp

definition entries_ok :: "config_entry list \<Rightarrow> bool" where
  "entries_ok es \<longleftrightarrow> list_all entry_ok es \<and> sorted_wrt (<) (map e_id es)"

lemma entry_ok_id: "entry_ok e \<Longrightarrow> e_id e \<noteq> []"
  by (auto simp: entry_ok_def valid_identifier_def)

lemma entries_ok_snoc:
  "entries_ok (es @ [e]) \<longleftrightarrow> entries_ok es \<and> entry_ok e \<and> (es \<noteq> [] \<longrightarrow> e_id (last es) < e_id e)"
proof (cases es rule: rev_cases)
  case (snoc ys y)
  then show ?thesis by (auto simp: entries_ok_def sorted_wrt_append)
qed (simp add: entries_ok_def)

lemma entry_loop_sound:
  assumes loop: "rfold (parse_entry pairs) [0..<n] ([], []) = Inr (es, prev)" and len: "length pairs = 4 + 4 * n"
  shows "length es = n \<and> entries_ok es \<and> concat (map entry_pairs es) = drop 4 pairs"
proof -
  let ?P = "\<lambda>i (es, prev). length es = i \<and> entries_ok es \<and> prev = (if es = [] then [] else e_id (last es)) \<and>
      concat (map entry_pairs es) = take (4 * i) (drop 4 pairs)"
  have step: "?P (Suc i) s'" if i: "i < n" and P: "?P i s" and f: "parse_entry pairs i s = Inr s'" for i s s'
  proof -
    obtain fs p where s: "s = (fs, p)" by force
    have inb: "4 + i * 4 + 3 < length pairs" using i len by simp
    obtain e where e: "s' = (fs @ [e], e_id e)" "entry_ok e" "p \<noteq> [] \<longrightarrow> p < e_id e"
        "take 4 (drop (4 + i * 4) pairs) = entry_pairs e"
      using f parse_entry_iff [OF inb, of fs p s'] by (auto simp: s)
    have "fs \<noteq> [] \<longrightarrow> e_id (last fs) < e_id e"
      using P e(3) entry_ok_id [of "last fs"] by (auto simp: s entries_ok_def list_all_iff)
    moreover have "take (4 * Suc i) (drop 4 pairs) = concat (map entry_pairs fs) @ entry_pairs e"
      using P e(4) take_add [of "4 * i" 4 "drop 4 pairs"] by (simp add: s add.commute mult.commute)
    ultimately show ?thesis using P e(1,2) by (simp add: s entries_ok_snoc)
  qed
  have "?P n (es, prev)"
    by (rule rfold_upt_inv [where P = ?P, OF step loop]) (simp_all add: entries_ok_def)
  then show ?thesis using len by simp
qed

lemma entry_loop_complete:
  assumes ok: "entries_ok es" and pairs: "drop 4 pairs = concat (map entry_pairs es)" "length pairs = 4 + 4 * length es"
  shows "\<exists>prev. rfold (parse_entry pairs) [0..<length es] ([], []) = Inr (es, prev)"
proof -
  let ?P = "\<lambda>i s. s = (take i es, if i = 0 then [] else e_id (es ! (i - 1)))"
  have step: "\<exists>s'. parse_entry pairs i s = Inr s' \<and> ?P (Suc i) s'" if i: "i < length es" and P: "?P i s" for i s
  proof -
    have inb: "4 + i * 4 + 3 < length pairs" using i pairs(2) by simp
    have e: "entry_ok (es ! i)" using ok i by (simp add: entries_ok_def list_all_length)
    have "take 4 (drop (4 + i * 4) pairs) = take 4 (drop (4 * i) (drop 4 pairs))" by (simp add: add.commute mult.commute)
    then have "take 4 (drop (4 + i * 4) pairs) = entry_pairs (es ! i)" unfolding pairs(1) nth_entry_pairs [OF i] .
    moreover have "i \<noteq> 0 \<longrightarrow> e_id (es ! (i - 1)) < e_id (es ! i)"
      using ok i sorted_wrt_nth_less [of "\<lambda>x y. e_id x < e_id y" es "i - 1" i]
      by (simp add: entries_ok_def sorted_wrt_map)
    ultimately show ?thesis
      using e P i by (intro exI [of _ "(take (Suc i) es, e_id (es ! i))"])
        (simp add: parse_entry_iff [OF inb] take_Suc_conv_app_nth)
  qed
  have "\<exists>s'. rfold (parse_entry pairs) [0..<length es] ([], []) = Inr s' \<and> ?P (length es) s'"
    by (rule rfold_upt [where P = ?P, OF step]) simp_all
  then show ?thesis by auto
qed


section \<open>Configurations\<close>

definition config_pairs :: "config \<Rightarrow> (string \<times> string) list" where
  "config_pairs c = [
     (''entry_count'', decimal (int (length (c_entries c)))), (''default_entry'', c_default_entry c),
     (''timeout_ms'', decimal (c_timeout_ms c)), (''boot_attempt_limit'', decimal (c_boot_attempt_limit c))] @
     concat (map entry_pairs (c_entries c))"

definition config_text :: "config \<Rightarrow> string" where
  "config_text c = join_with [LF] (config_lines c) @ [LF]"

definition config_ok :: "config \<Rightarrow> bool" where
  "config_ok c \<longleftrightarrow> valid_identifier (c_default_entry c) \<and> 0 \<le> c_timeout_ms c \<and> c_timeout_ms c \<le> MAX_TIMEOUT_MS \<and>
     1 \<le> c_boot_attempt_limit c \<and> c_boot_attempt_limit c \<le> MAX_BOOT_ATTEMPTS \<and>
     1 \<le> int (length (c_entries c)) \<and> int (length (c_entries c)) \<le> MAX_ENTRIES \<and>
     entries_ok (c_entries c) \<and> c_default_entry c \<in> e_id ` set (c_entries c)"

lemma config_lines_pairs: "config_lines c = PBC_MAGIC # map kv_line (config_pairs c) @ [END_MARKER]"
proof -
  have "entry_lines e = map kv_line (entry_pairs e)" for e
    by (simp add: entry_lines_def entry_pairs_def kv_line_def entry_name_def)
  then have "concat (map entry_lines es) = map kv_line (concat (map entry_pairs es))" for es
    by (induction es) simp_all
  then show ?thesis by (simp add: config_lines_def config_pairs_def kv_line_def)
qed

lemma config_pairs_drop: "drop 4 (config_pairs c) = concat (map entry_pairs (c_entries c))"
  by (simp add: config_pairs_def)

lemma length_config_pairs: "length (config_pairs c) = 4 + 4 * length (c_entries c)"
  by (simp add: config_pairs_def)

definition text_ok :: "nat \<Rightarrow> string \<Rightarrow> bool" where
  "text_ok n s \<longleftrightarrow> s \<noteq> [] \<and> length s \<le> n \<and> list_all (\<lambda>c. printable c \<and> c \<noteq> CHR ''='') s"

lemma text_ok_append: "text_ok a s \<Longrightarrow> text_ok b t \<Longrightarrow> a + b \<le> n \<Longrightarrow> text_ok n (s @ t)"
  by (simp add: text_ok_def)

lemma identifier_text: "valid_identifier s \<Longrightarrow> text_ok 31 s"
  by (auto simp: valid_identifier_def text_ok_def printable_def is_lower_def is_digit_def code_def list_all_iff
      MAX_IDENTIFIER_BYTES_def split: list.splits)

lemma digits_text:
  assumes "0 \<le> n" "length (decimal n) \<le> k"
  shows "text_ok k (decimal n)"
proof -
  have "printable c \<and> c \<noteq> CHR ''=''" if "c \<in> set (decimal n)" for c
    using decimal_chars(2) [OF assms(1) that] by (auto simp: is_digit_def printable_def code_def)
  with assms decimal_chars(1) [OF assms(1)] show ?thesis by (simp add: text_ok_def list_all_iff)
qed


lemma length_nat_digits: "n < 10 ^ k \<Longrightarrow> 1 \<le> k \<Longrightarrow> length (nat_digits n) \<le> k"
proof (induction n arbitrary: k rule: nat_digits.induct)
  case (1 n)
  show ?case
  proof (cases "n < 10")
    case False
    with 1(2) obtain j where j: "k = Suc j" "1 \<le> j" by (cases k; cases "k - 1") auto
    with 1(2) have "n div 10 < 10 ^ j" by (simp add: less_mult_imp_div_less mult.commute)
    with 1(1) [OF False this j(2)] False j(1) show ?thesis by (simp add: nat_digits.simps [of n])
  qed (use 1(3) in \<open>simp add: nat_digits.simps [of n]\<close>)
qed

lemma decimal_text: "0 \<le> n \<Longrightarrow> n < 10 ^ 8 \<Longrightarrow> text_ok 8 (decimal n)"
  using length_nat_digits [of "nat n" 8] by (intro digits_text) (simp_all add: decimal_def nat_less_iff)

lemma pair_line:
  assumes "text_ok 60 k" "text_ok 240 v"
  shows "kv_ok (k, v)" "line_ok (kv_line (k, v))"
  using assms
  by (auto simp: text_ok_def kv_ok_def kv_line_def line_ok_def list_all_iff MAX_LINE_BYTES_def printable_def code_def)

lemma text_ok_mono: "text_ok a s \<Longrightarrow> a \<le> b \<Longrightarrow> text_ok b s"
  by (simp add: text_ok_def)

lemma entry_name_text: "valid_identifier i \<Longrightarrow> f \<in> set ENTRY_FIELDS \<Longrightarrow> text_ok 60 (entry_name i f)"
  unfolding entry_name_def
  by (intro text_ok_append [of 6 _ 50] text_ok_append [of 31 _ 19] text_ok_append [of 1 _ 18] identifier_text)
    (auto simp: text_ok_def ENTRY_FIELDS_def printable_def code_def)

lemma entry_pair_lines:
  assumes "entry_ok e" "p \<in> set (entry_pairs e)"
  shows "kv_ok p \<and> line_ok (kv_line p)"
proof -
  have e: "valid_identifier (e_id e)" "e_mode e \<in> set MODES" "text_ok 240 (decimal (e_slot e))"
      "text_ok 240 (decimal (e_manifest_max_bytes e))"
    using assms(1) decimal_text [of "e_slot e"] decimal_text [of "e_manifest_max_bytes e"]
    by (auto simp: entry_ok_def code_defs intro: text_ok_mono)
  have "text_ok 240 (e_mode e)" using e(2) by (auto simp: MODES_def text_ok_def printable_def code_def)
  moreover have "text_ok 240 (e_manifest e)"
    using assms(1) validate_path_bytes [of "e_manifest e"] path_byte_ok
    by (auto simp: entry_ok_def text_ok_def list_all_iff MAX_MANIFEST_PATH_BYTES_def)
  ultimately show ?thesis
    using assms(2) e(3,4) entry_fields [THEN entry_name_text [OF e(1)]]
    unfolding entry_pairs_def by (auto simp: pair_line)
qed

lemma config_pair_lines:
  assumes "config_ok c" "p \<in> set (config_pairs c)"
  shows "kv_ok p \<and> line_ok (kv_line p)"
proof -
  have keys: "text_ok 60 ''entry_count''" "text_ok 60 ''default_entry''" "text_ok 60 ''timeout_ms''"
      "text_ok 60 ''boot_attempt_limit''"
    by (simp_all add: text_ok_def printable_def code_def)
  have vals: "text_ok 240 (decimal (int (length (c_entries c))))" "text_ok 240 (c_default_entry c)"
      "text_ok 240 (decimal (c_timeout_ms c))" "text_ok 240 (decimal (c_boot_attempt_limit c))"
    using assms(1) decimal_text [of "int (length (c_entries c))"] decimal_text [of "c_timeout_ms c"]
      decimal_text [of "c_boot_attempt_limit c"] identifier_text [of "c_default_entry c"]
    by (auto simp: config_ok_def code_defs intro: text_ok_mono)
  consider "p = (''entry_count'', decimal (int (length (c_entries c))))" | "p = (''default_entry'', c_default_entry c)"
    | "p = (''timeout_ms'', decimal (c_timeout_ms c))" | "p = (''boot_attempt_limit'', decimal (c_boot_attempt_limit c))"
    | e where "e \<in> set (c_entries c)" "p \<in> set (entry_pairs e)"
    using assms(2) by (auto simp: config_pairs_def)
  then show ?thesis
  proof cases
    case (5 e)
    then show ?thesis using assms(1) entry_pair_lines [of e p] by (simp add: config_ok_def entries_ok_def list_all_iff)
  qed (simp_all only: pair_line [OF keys(1) vals(1)] pair_line [OF keys(2) vals(2)] pair_line [OF keys(3) vals(3)]
      pair_line [OF keys(4) vals(4)] simp_thms)
qed

lemma entry_name_inj:
  assumes "valid_identifier i" "valid_identifier j" "f \<in> set ENTRY_FIELDS" "g \<in> set ENTRY_FIELDS" "entry_name i f = entry_name j g"
  shows "i = j \<and> f = g"
proof -
  have "[''entry'', i, f] = [''entry'', j, g]"
    using entry_name_split [OF assms(1,3)] unfolding assms(5) entry_name_split [OF assms(2,4)] by (rule sym)
  then show ?thesis by simp
qed

lemma entries_keys_distinct: "entries_ok es \<Longrightarrow> distinct (map fst (concat (map entry_pairs es)))"
proof (induction es)
  case (Cons e es)
  then have e: "valid_identifier (e_id e)" "\<forall>x \<in> set es. valid_identifier (e_id x) \<and> e_id e < e_id x" and ok: "entries_ok es"
    by (auto simp: entries_ok_def entry_ok_def list_all_iff)
  have keys: "fst ` set (entry_pairs x) = entry_name (e_id x) ` set ENTRY_FIELDS" for x
    by (simp add: entry_pairs_def ENTRY_FIELDS_def)
  have "distinct (map fst (entry_pairs e))"
    by (simp add: entry_pairs_def entry_name_def)
  moreover have "fst ` set (entry_pairs e) \<inter> fst ` set (concat (map entry_pairs es)) = {}"
  proof -
    have False if x: "x \<in> set es" "k \<in> fst ` set (entry_pairs e)" "k \<in> fst ` set (entry_pairs x)" for x k
    proof -
      obtain f g where "f \<in> set ENTRY_FIELDS" "g \<in> set ENTRY_FIELDS" "entry_name (e_id e) f = entry_name (e_id x) g"
        using x(2,3) unfolding keys by (elim imageE) metis
      from entry_name_inj [OF e(1) _ this] e(2) x(1) show False by auto
    qed
    then show ?thesis by (auto simp: image_UN)
  qed
  ultimately show ?case using Cons.IH [OF ok] by simp
qed simp

lemma config_keys_distinct:
  assumes "config_ok c"
  shows "distinct (map fst (config_pairs c))"
proof -
  have "k \<notin> fst ` set (concat (map entry_pairs es))" if "k \<in> set STATIC_KEYS" for k es
    using that by (auto simp: entry_pairs_def entry_name_def STATIC_KEYS_def)
  then show ?thesis
    using entries_keys_distinct [of "c_entries c"] assms
    by (simp add: config_pairs_def config_ok_def STATIC_KEYS_def)
qed

lemma config_text_lex:
  assumes "config_ok c"
  shows "pbc_lex (config_text c) = Inr (config_lines c)"
proof -
  have "line_ok PBC_MAGIC" "line_ok END_MARKER"
    by (simp_all add: line_ok_def PBC_MAGIC_def END_MARKER_def MAX_LINE_BYTES_def printable_def code_def)
  then have lines: "list_all line_ok (config_lines c)"
    using config_pair_lines [OF assms] by (simp add: config_lines_pairs list_all_iff)
  have n: "length (config_lines c) \<le> 38"
    using assms by (simp add: config_lines_pairs length_config_pairs config_ok_def MAX_ENTRIES_def)
  have "(\<Sum>l\<leftarrow>config_lines c. length l + 1) \<le> (\<Sum>l\<leftarrow>config_lines c. 321)"
    using lines by (intro sum_list_mono) (simp add: list_all_iff line_ok_def MAX_LINE_BYTES_def)
  also have "\<dots> = 321 * length (config_lines c)" by (simp add: sum_list_triv)
  also have "\<dots> \<le> 321 * 38" using n by simp
  finally have "length (config_text c) \<le> MAX_CONFIG_BYTES"
    by (simp add: config_text_def length_join MAX_CONFIG_BYTES_def)
  with lines n show ?thesis
    by (simp add: pbc_lex_iff config_text_def MAX_LINES_def) (simp add: config_lines_pairs)
qed


section \<open>The parser accepts exactly the canonical text\<close>

lemma parse_limits:
  "MAX_ENTRIES \<le> PBC_U64_MAX" "MAX_TIMEOUT_MS \<le> PBC_U64_MAX" "MAX_BOOT_ATTEMPTS \<le> PBC_U64_MAX"
  by (simp_all add: code_defs)

lemmas parse_ranges =
  parse_range_iff [OF zero_le_one parse_limits(1)] parse_range_iff [OF order_refl parse_limits(2)]
  parse_range_iff [OF zero_le_one parse_limits(3)]

lemma pbc_parse_complete:
  assumes ok: "config_ok c" and cap: "int (length (c_entries c)) \<le> capacity"
  shows "pbc_parse (config_text c) capacity = Inr c"
proof -
  let ?ps = "config_pairs c" and ?n = "length (c_entries c)"
  have n: "1 \<le> ?n" using ok by (simp add: config_ok_def)
  have lines: "length (config_lines c) = 6 + ?n * 4" "item (config_lines c) 0 = Inr PBC_MAGIC"
      "last (config_lines c) = END_MARKER" "butlast (tl (config_lines c)) = map kv_line ?ps"
    by (simp_all add: config_lines_pairs length_config_pairs item_def)
  have kv: "rmap key_value (map kv_line ?ps) = Inr ?ps"
    using config_pair_lines [OF ok] by (simp add: rmap_key_value_iff list_all_iff)
  obtain seen where seen: "rfold check_duplicate ?ps {} = Inr seen"
    using config_keys_distinct [OF ok] duplicates_iff [of ?ps "{}"] by (auto simp: returns_iff)
  have heads: "expect_key ?ps 1 ''entry_count'' = Inr (decimal (int ?n))"
      "expect_key ?ps 2 ''default_entry'' = Inr (c_default_entry c)"
      "expect_key ?ps 3 ''timeout_ms'' = Inr (decimal (c_timeout_ms c))"
      "expect_key ?ps 4 ''boot_attempt_limit'' = Inr (decimal (c_boot_attempt_limit c))"
    by (simp_all add: expect_key_iff config_pairs_def)
  have nums: "parse_range (decimal (int ?n)) 1 MAX_ENTRIES = Inr (int ?n)"
      "parse_range (decimal (c_timeout_ms c)) 0 MAX_TIMEOUT_MS = Inr (c_timeout_ms c)"
      "parse_range (decimal (c_boot_attempt_limit c)) 1 MAX_BOOT_ATTEMPTS = Inr (c_boot_attempt_limit c)"
    using ok by (simp_all add: parse_ranges config_ok_def)
  obtain prev where loop: "rfold (parse_entry ?ps) [0..<?n] ([], []) = Inr (c_entries c, prev)"
    using entry_loop_complete [of "c_entries c" ?ps] ok by (auto simp: config_ok_def length_config_pairs config_pairs_def)
  have tail: "\<not> capacity < int ?n" "valid_identifier (c_default_entry c)" "c_default_entry c \<in> e_id ` set (c_entries c)"
    using ok cap by (simp_all add: config_ok_def)
  show ?thesis
    unfolding pbc_parse_def parse_fields_def config_text_lex [OF ok] rbind.simps lines kv seen heads nums Let_def nat_int loop prod.case
    using tail by (simp add: guarded.simps)
qed

lemma parse_fields_Inr:
  assumes "parse_fields pairs n = Inr c"
  obtains prev where "expect_key pairs 2 ''default_entry'' = Inr (c_default_entry c)" "valid_identifier (c_default_entry c)"
    "expect_key pairs 3 ''timeout_ms'' = Inr (decimal (c_timeout_ms c))" "0 \<le> c_timeout_ms c" "c_timeout_ms c \<le> MAX_TIMEOUT_MS"
    "expect_key pairs 4 ''boot_attempt_limit'' = Inr (decimal (c_boot_attempt_limit c))"
    "1 \<le> c_boot_attempt_limit c" "c_boot_attempt_limit c \<le> MAX_BOOT_ATTEMPTS"
    "rfold (parse_entry pairs) [0..<nat n] ([], []) = Inr (c_entries c, prev)" "c_default_entry c \<in> e_id ` set (c_entries c)"
proof -
  obtain d t tv b bv es prev where f: "expect_key pairs 2 ''default_entry'' = Inr d" "valid_identifier d"
      "expect_key pairs 3 ''timeout_ms'' = Inr t" "parse_range t 0 MAX_TIMEOUT_MS = Inr tv"
      "expect_key pairs 4 ''boot_attempt_limit'' = Inr b" "parse_range b 1 MAX_BOOT_ATTEMPTS = Inr bv"
      "rfold (parse_entry pairs) [0..<nat n] ([], []) = Inr (es, prev)" "d \<in> e_id ` set es"
      "\<lparr>c_default_entry = d, c_timeout_ms = tv, c_boot_attempt_limit = bv, c_entries = es\<rparr> = c"
    using assms unfolding parse_fields_def
    by (simp add: rbind_Inr_iff guarded_Inr_iff del: One_nat_def) (elim exE conjE, blast)
  then show ?thesis by (intro that [of prev]) (auto simp: parse_ranges)
qed

lemma pbc_parse_Inr:
  assumes "pbc_parse data capacity = Inr c"
  obtains lines pairs n where "pbc_lex data = Inr lines" "item lines 0 = Inr PBC_MAGIC"
    "last lines = END_MARKER" "rmap key_value (butlast (tl lines)) = Inr pairs" "length lines = 6 + nat n * 4"
    "expect_key pairs 1 ''entry_count'' = Inr (decimal n)" "1 \<le> n" "n \<le> MAX_ENTRIES" "n \<le> capacity"
    "parse_fields pairs n = Inr c"
proof -
  obtain lines pairs seen k n where f: "pbc_lex data = Inr lines" "item lines 0 = Inr PBC_MAGIC"
      "last lines = END_MARKER" "rmap key_value (butlast (tl lines)) = Inr pairs"
      "expect_key pairs 1 ''entry_count'' = Inr k" "parse_range k 1 MAX_ENTRIES = Inr n"
      "length lines = 6 + nat n * 4" "n \<le> capacity" "parse_fields pairs n = Inr c"
    using assms unfolding pbc_parse_def
    by (simp add: rbind_Inr_iff guarded_Inr_iff Let_def not_less del: One_nat_def split: if_splits prod.splits)
  then show ?thesis by (intro that [of lines pairs n]) (simp_all add: parse_ranges)
qed

lemma pbc_parse_sound:
  assumes "pbc_parse data capacity = Inr c"
  shows "config_ok c \<and> int (length (c_entries c)) \<le> capacity \<and> data = config_text c"
proof -
  obtain lines pairs n where lex: "pbc_lex data = Inr lines" and l: "item lines 0 = Inr PBC_MAGIC"
      "last lines = END_MARKER" "rmap key_value (butlast (tl lines)) = Inr pairs" "length lines = 6 + nat n * 4"
    and n: "expect_key pairs 1 ''entry_count'' = Inr (decimal n)" "1 \<le> n" "n \<le> MAX_ENTRIES" "n \<le> capacity"
    and pf: "parse_fields pairs n = Inr c" by (rule pbc_parse_Inr [OF assms])
  obtain prev where d: "expect_key pairs 2 ''default_entry'' = Inr (c_default_entry c)" "valid_identifier (c_default_entry c)"
    and t: "expect_key pairs 3 ''timeout_ms'' = Inr (decimal (c_timeout_ms c))" "0 \<le> c_timeout_ms c" "c_timeout_ms c \<le> MAX_TIMEOUT_MS"
    and b: "expect_key pairs 4 ''boot_attempt_limit'' = Inr (decimal (c_boot_attempt_limit c))"
      "1 \<le> c_boot_attempt_limit c" "c_boot_attempt_limit c \<le> MAX_BOOT_ATTEMPTS"
    and es: "rfold (parse_entry pairs) [0..<nat n] ([], []) = Inr (c_entries c, prev)" "c_default_entry c \<in> e_id ` set (c_entries c)"
    by (rule parse_fields_Inr [OF pf])
  have pairs: "list_all kv_ok pairs" "butlast (tl lines) = map kv_line pairs" using l(3) by (simp_all add: rmap_key_value_iff)
  have len: "length pairs = 4 + 4 * nat n" using arg_cong [OF pairs(2), of length] l(4) by simp
  from entry_loop_sound [OF es(1) len] have ents: "length (c_entries c) = nat n" "entries_ok (c_entries c)"
      "concat (map entry_pairs (c_entries c)) = drop 4 pairs" by simp_all
  have "take 4 (drop 0 pairs) = [(''entry_count'', decimal n), (''default_entry'', c_default_entry c),
      (''timeout_ms'', decimal (c_timeout_ms c)), (''boot_attempt_limit'', decimal (c_boot_attempt_limit c))]"
    using n(1) d(1) t(1) b(1) len by (subst drop4) (simp_all add: expect_key_iff numeral_2_eq_2)
  also have "\<dots> = take 4 (config_pairs c)" using n(2) ents(1) by (simp add: config_pairs_def)
  finally have "pairs = config_pairs c"
    using ents(3) by (metis append_take_drop_id config_pairs_drop drop0)
  moreover have "lines = PBC_MAGIC # butlast (tl lines) @ [END_MARKER]"
  proof -
    have "tl lines \<noteq> []" using l(4) by (cases lines) auto
    then have "tl lines = butlast (tl lines) @ [last lines]" by (metis append_butlast_last_id last_tl)
    moreover have "lines = lines ! 0 # tl lines" using l(4) by (cases lines) auto
    ultimately show ?thesis using l(1,2) by (metis item_Inr_iff)
  qed
  ultimately have "lines = config_lines c" using pairs(2) by (simp add: config_lines_pairs)
  with lex have "data = config_text c" by (simp add: pbc_lex_iff config_text_def)
  with n d t b es ents show ?thesis by (simp add: config_ok_def)
qed


section \<open>The encoder\<close>

definition encode_config :: "config \<Rightarrow> string res" where
  "encode_config c = pbc_encode (c_entries c) (c_default_entry c) (c_timeout_ms c) (c_boot_attempt_limit c)"

lemma entries_sorted: "entries_ok es \<Longrightarrow> sort_key e_id es = es"
  by (intro sort_key_id_if_sorted) (auto simp: entries_ok_def sorted_wrt_map intro: sorted_wrt_mono_rel [rotated] order_less_imp_le)

lemma text_is_ascii: "config_ok c \<Longrightarrow> encode_ascii (config_text c) = Inr (config_text c)"
proof -
  assume ok: "config_ok c"
  from config_text_lex [OF ok] have l: "list_all line_ok (config_lines c)" by (simp add: pbc_lex_iff)
  have "code x < 128" if "x \<in> set (config_text c)" for x
  proof -
    from that set_join [of LF "config_lines c"] consider "x = LF" | l where "l \<in> set (config_lines c)" "x \<in> set l"
      by (auto simp: config_text_def)
    then show ?thesis
    proof cases
      case 2
      with l have "code x \<le> 126" by (simp add: list_all_iff line_ok_def printable_def)
      then show ?thesis by simp
    qed (simp add: LF_def code_def)
  qed
  then show ?thesis by (simp add: encode_ascii_def list_all_iff)
qed

lemma pbc_encode_sorted:
  assumes ok: "config_ok c" and "sort_key e_id es = c_entries c"
  shows "pbc_encode es (c_default_entry c) (c_timeout_ms c) (c_boot_attempt_limit c) = Inr (config_text c)"
proof -
  have "\<lparr>c_default_entry = c_default_entry c, c_timeout_ms = c_timeout_ms c, c_boot_attempt_limit = c_boot_attempt_limit c,
      c_entries = sort_key e_id es\<rparr> = c" using assms(2) by simp
  moreover have "pbc_parse (config_text c) MAX_ENTRIES = Inr c" using ok by (intro pbc_parse_complete) (simp_all add: config_ok_def)
  ultimately show ?thesis
    using text_is_ascii [OF ok] by (simp add: pbc_encode_def Let_def config_text_def)
qed

lemma encode_config_ok: "config_ok c \<Longrightarrow> encode_config c = Inr (config_text c)"
  by (simp add: encode_config_def pbc_encode_sorted entries_sorted config_ok_def)

interpretation boot_config_codec: codec encode_config "\<lambda>d. pbc_parse d MAX_ENTRIES" config_ok id
proof
  show "\<exists>d y. encode_config x = Inr d \<and> pbc_parse d MAX_ENTRIES = Inr y \<and> id y = id x" if "config_ok x" for x
    using that encode_config_ok pbc_parse_complete [OF that] by (simp add: config_ok_def)
  show "encode_config x = Inr d" if "pbc_parse d MAX_ENTRIES = Inr x" for d x
    using pbc_parse_sound [OF that] encode_config_ok by simp
qed simp

text \<open>C16. The PBC1 parser accepts a text with a given entry capacity exactly when it is the canonical text of a
  well-formed configuration that fits the capacity, and the configuration it returns is that one: no other
  spelling of a configuration is accepted.\<close>

theorem pbc_parse_characterised:
  "pbc_parse data capacity = Inr c \<longleftrightarrow>
     config_ok c \<and> int (length (c_entries c)) \<le> capacity \<and> data = join_with [LF] (config_lines c) @ [LF]"
  using pbc_parse_sound [of data capacity c] pbc_parse_complete [of c capacity] by (auto simp: config_text_def)

lemma filter_single: "distinct xs \<Longrightarrow> k \<in> set xs \<Longrightarrow> filter (\<lambda>x. x = k) xs = [k]"
  by (induction xs) (auto simp: filter_empty_conv)

lemma sorted_entries_unique:
  assumes ok: "entries_ok fs" and perm: "mset es = mset fs"
  shows "sort_key e_id es = fs"
proof (rule properties_for_sort_key)
  have fs: "distinct (map e_id fs)" "sorted (map e_id fs)"
    using ok by (simp_all add: entries_ok_def strict_sorted_iff)
  show "sorted (map e_id fs)" by (rule fs(2))
  show "mset fs = mset es" using perm by simp
  show "filter (\<lambda>x. e_id k = e_id x) fs = filter (\<lambda>x. e_id k = e_id x) es" if k: "k \<in> set fs" for k
  proof -
    have "filter (\<lambda>x. e_id k = e_id x) fs = filter (\<lambda>x. x = k) fs"
      using fs(1) k by (intro filter_cong) (auto simp: distinct_map inj_on_def)
    also have "\<dots> = [k]" using fs(1) k by (intro filter_single) (simp_all add: distinct_map)
    finally have one: "filter (\<lambda>x. e_id k = e_id x) fs = [k]" .
    have "mset (filter (\<lambda>x. e_id k = e_id x) es) = mset (filter (\<lambda>x. e_id k = e_id x) fs)"
      unfolding mset_filter perm ..
    then have "filter (\<lambda>x. e_id k = e_id x) es = [k]" unfolding one by (simp only: mset_single_iff mset.simps)
    with one show ?thesis by simp
  qed
qed

text \<open>Encoding the entries of a well-formed configuration, listed in any order, returns, and parsing the
  encoded text gives the configuration back.\<close>

theorem pbc_encode_roundtrip:
  assumes "config_ok c" "mset es = mset (c_entries c)"
  shows "\<exists>data. pbc_encode es (c_default_entry c) (c_timeout_ms c) (c_boot_attempt_limit c) = Inr data \<and>
    pbc_parse data MAX_ENTRIES = Inr c"
proof -
  have "sort_key e_id es = c_entries c" using assms by (intro sorted_entries_unique) (simp_all add: config_ok_def)
  from pbc_encode_sorted [OF assms(1) this] show ?thesis
    using pbc_parse_complete [OF assms(1), of MAX_ENTRIES] assms(1) by (simp add: config_ok_def)
qed


lemma multi_mode_ok: "config_ok \<lparr>c_default_entry = ''normal'', c_timeout_ms = 5000, c_boot_attempt_limit = 4, c_entries = multi_mode_config\<rparr>"
  by code_simp

theorem pbc_encode_roundtrip_witness:
  "\<exists>data. pbc_encode (rev multi_mode_config) ''normal'' 5000 4 = Inr data \<and>
    pbc_parse data MAX_ENTRIES = Inr \<lparr>c_default_entry = ''normal'', c_timeout_ms = 5000, c_boot_attempt_limit = 4, c_entries = multi_mode_config\<rparr>"
  using pbc_encode_roundtrip [OF multi_mode_ok, of "rev multi_mode_config"] by simp

end
