(* ===== verification/Pdc_Reference.thy ===== *)
theory Pdc_Reference
  imports Prelude
begin

text \<open>
  The PDC reference oracles of \<open>src/runtime/pdc_reference.py\<close>: periodic shapes and flat
  indices, Moore-neighbour support by scalar loops and by a dense Kronecker matrix, the
  B5-7/S5-9 site measurement, planar defect counts, defect fields, the sparse first response
  and the closed-form summaries.

  A shape, a coordinate and a field are lists of integers, as the source takes any sequence;
  the type tests on \<open>bool\<close> and \<open>int\<close> hold by typing. An exception is its class name. The
  loops run over natural-number coordinates, which is what \<open>range\<close> produces there.
\<close>

definition MIN_PERIODIC_EXTENT :: int where [code_defs]: "MIN_PERIODIC_EXTENT = 3"
definition MAX_REFERENCE_CELLS :: int where [code_defs]: "MAX_REFERENCE_CELLS = 16777216"
definition MAX_DENSE_MATRIX_CELLS :: int where [code_defs]: "MAX_DENSE_MATRIX_CELLS = 512"

abbreviation pdc_shape_error :: exn where "pdc_shape_error \<equiv> Fail ''PdcShapeError''"
abbreviation pdc_overflow_error :: exn where "pdc_overflow_error \<equiv> Fail ''PdcOverflowError''"
abbreviation pdc_contract_error :: exn where "pdc_contract_error \<equiv> Fail ''PdcContractError''"
abbreviation pdc_matrix_limit_error :: exn where "pdc_matrix_limit_error \<equiv> Fail ''PdcMatrixLimitError''"

definition checked_factor :: "int \<Rightarrow> int \<Rightarrow> int \<Rightarrow> int res" where
  "checked_factor limit value product =
     (if value \<le> 0 then Inl pdc_shape_error
      else if product > limit div value then Inl pdc_overflow_error
      else Inr (product * value))"

definition checked_product :: "int list \<Rightarrow> int \<Rightarrow> int res" where
  "checked_product values limit =
     (if values = [] then Inl pdc_shape_error else rfold (checked_factor limit) values 1)"

definition validate_periodic_shape :: "int list \<Rightarrow> nat \<Rightarrow> (int list \<times> int) res" where
  "validate_periodic_shape shape dimensions =
     (if length shape \<noteq> dimensions then Inl pdc_shape_error
      else if list_ex (\<lambda>extent. extent < MIN_PERIODIC_EXTENT) shape then Inl pdc_shape_error
      else rbind (checked_product shape MAX_REFERENCE_CELLS) (\<lambda>count. Inr (shape, count)))"

definition validate_binary_field :: "int list \<Rightarrow> int list \<Rightarrow> nat \<Rightarrow> int list res" where
  "validate_binary_field field shape dimensions =
     rbind (validate_periodic_shape shape dimensions) (\<lambda>(_, count).
     if int (length field) \<noteq> count then Inl pdc_shape_error
     else if list_ex (\<lambda>v. v \<noteq> 0 \<and> v \<noteq> 1) field then Inl pdc_contract_error
     else Inr field)"

definition validate_coord :: "int list \<Rightarrow> int list \<Rightarrow> int list res" where
  "validate_coord coord shape =
     (if length coord \<noteq> length shape then Inl pdc_shape_error
      else if list_ex (\<lambda>(v, extent). \<not> (0 \<le> v \<and> v < extent)) (zip coord shape) then Inl pdc_shape_error
      else Inr coord)"

definition flat_index_2d :: "int list \<Rightarrow> int list \<Rightarrow> int res" where
  "flat_index_2d coord shape =
     rbind (validate_coord coord shape) (\<lambda>coord.
     case coord of [x, y] \<Rightarrow> (case shape of [sx, _] \<Rightarrow> Inr (y * sx + x) | _ \<Rightarrow> Inl ValueError) | _ \<Rightarrow> Inl ValueError)"

definition flat_index_3d :: "int list \<Rightarrow> int list \<Rightarrow> int res" where
  "flat_index_3d coord shape =
     rbind (validate_coord coord shape) (\<lambda>coord.
     case coord of [x, y, z] \<Rightarrow> (case shape of [sx, sy, _] \<Rightarrow> Inr ((z * sy + y) * sx + x) | _ \<Rightarrow> Inl ValueError)
     | _ \<Rightarrow> Inl ValueError)"

definition unflatten_2d :: "int \<Rightarrow> int list \<Rightarrow> int list res" where
  "unflatten_2d index shape =
     rbind (validate_periodic_shape shape 2) (\<lambda>(_, count).
     if \<not> (0 \<le> index \<and> index < count) then Inl pdc_shape_error
     else case shape of [sx, _] \<Rightarrow> Inr [index mod sx, index div sx] | _ \<Rightarrow> Inl ValueError)"

definition unflatten_3d :: "int \<Rightarrow> int list \<Rightarrow> int list res" where
  "unflatten_3d index shape =
     rbind (validate_periodic_shape shape 3) (\<lambda>(_, count).
     if \<not> (0 \<le> index \<and> index < count) then Inl pdc_shape_error
     else case shape of [sx, sy, _] \<Rightarrow>
         let z = index div (sx * sy); rem = index mod (sx * sy) in Inr [rem mod sx, rem div sx, z]
       | _ \<Rightarrow> Inl ValueError)"

definition moore_offsets :: "(int \<times> int \<times> int) list" where
  "moore_offsets = [(dz, dy, dx). dz \<leftarrow> [-1, 0, 1], dy \<leftarrow> [-1, 0, 1], dx \<leftarrow> [-1, 0, 1], \<not> (dx = 0 \<and> dy = 0 \<and> dz = 0)]"

definition moore_neighbor_coords :: "int list \<Rightarrow> int list \<Rightarrow> (int list) list res" where
  "moore_neighbor_coords coord shape =
     rbind (validate_periodic_shape shape 3) (\<lambda>_.
     rbind (validate_coord coord shape) (\<lambda>coord.
     case coord of [x, y, z] \<Rightarrow> (case shape of [sx, sy, sz] \<Rightarrow>
         Inr (map (\<lambda>(dz, dy, dx). [(x + dx) mod sx, (y + dy) mod sy, (z + dz) mod sz]) moore_offsets)
       | _ \<Rightarrow> Inl ValueError) | _ \<Rightarrow> Inl ValueError))"


section \<open>Moore support, twice\<close>

text \<open>\<open>(k + d) % n\<close> for a loop coordinate \<open>k\<close>.\<close>

definition wrap :: "nat \<Rightarrow> nat \<Rightarrow> int \<Rightarrow> nat" where
  "wrap n k d = nat ((int k + d) mod int n)"

definition scalar_support_at :: "int list \<Rightarrow> nat \<Rightarrow> nat \<Rightarrow> nat \<Rightarrow> nat \<Rightarrow> nat \<Rightarrow> nat \<Rightarrow> int" where
  "scalar_support_at values sx sy sz x y z =
     sum_list (map (\<lambda>(dz, dy, dx). values ! ((wrap sz z dz * sy + wrap sy y dy) * sx + wrap sx x dx)) moore_offsets)"

definition scalar_moore_support :: "int list \<Rightarrow> int list \<Rightarrow> int list res" where
  "scalar_moore_support field shape =
     rbind (validate_binary_field field shape 3) (\<lambda>values.
     case shape of [sx, sy, sz] \<Rightarrow>
       let sx = nat sx; sy = nat sy; sz = nat sz in
       Inr (fold (\<lambda>z. fold (\<lambda>y. fold (\<lambda>x out. out[(z * sy + y) * sx + x := scalar_support_at values sx sy sz x y z])
              [0..<sx]) [0..<sy]) [0..<sz] (replicate (length values) 0))
     | _ \<Rightarrow> Inl ValueError)"

definition cyclic_row :: "nat \<Rightarrow> nat \<Rightarrow> int list" where
  "cyclic_row extent row =
     fold (\<lambda>delta r. r[wrap extent row delta := r ! wrap extent row delta + 1]) [-1, 0, 1] (replicate extent 0)"

definition cyclic_closed_matrix :: "int \<Rightarrow> int list list res" where
  "cyclic_closed_matrix extent =
     rbind (validate_periodic_shape [extent] 1) (\<lambda>_.
     Inr (map (cyclic_row (nat extent)) [0..<nat extent]))"

definition kronecker_row :: "nat \<Rightarrow> int list \<Rightarrow> int list \<Rightarrow> int list" where
  "kronecker_row right_cols left_row right_row =
     concat (map (\<lambda>left_value. if left_value = 0 then replicate right_cols 0
        else map (\<lambda>right_value. left_value * right_value) right_row) left_row)"

definition kronecker :: "int list list \<Rightarrow> int list list \<Rightarrow> int list list res" where
  "kronecker left right =
     (if left = [] \<or> right = [] \<or> hd left = [] \<or> hd right = [] then Inl pdc_contract_error
      else let left_cols = length (hd left); right_cols = length (hd right) in
        if list_ex (\<lambda>row. length row \<noteq> left_cols) left \<or> list_ex (\<lambda>row. length row \<noteq> right_cols) right
        then Inl pdc_contract_error
        else Inr (concat (map (\<lambda>left_row. map (kronecker_row right_cols left_row) right) left)))"

definition subtract_identity :: "int list list \<Rightarrow> int list list res" where
  "subtract_identity matrix =
     (if matrix = [] then Inl IndexError
      else if length matrix \<noteq> length (hd matrix) \<or> list_ex (\<lambda>row. length row \<noteq> length matrix) matrix
      then Inl pdc_contract_error
      else Inr (map (\<lambda>index. (matrix ! index)[index := matrix ! index ! index - 1]) [0..<length matrix]))"

definition moore_matrix_3d :: "int list \<Rightarrow> int list list res" where
  "moore_matrix_3d shape =
     rbind (validate_periodic_shape shape 3) (\<lambda>(normalized, count).
     if count > MAX_DENSE_MATRIX_CELLS then Inl pdc_matrix_limit_error
     else case normalized of [sx, sy, sz] \<Rightarrow>
         rbind (cyclic_closed_matrix sz) (\<lambda>cz.
         rbind (cyclic_closed_matrix sy) (\<lambda>cy.
         rbind (cyclic_closed_matrix sx) (\<lambda>cx.
         rbind (kronecker cy cx) (\<lambda>plane.
         rbind (kronecker cz plane) subtract_identity))))
       | _ \<Rightarrow> Inl ValueError)"

definition planar_matrices_2d :: "int list \<Rightarrow> (int list list \<times> int list list) res" where
  "planar_matrices_2d shape =
     rbind (validate_periodic_shape shape 2) (\<lambda>(normalized, count).
     if count > MAX_DENSE_MATRIX_CELLS then Inl pdc_matrix_limit_error
     else case normalized of [sx, sy] \<Rightarrow>
         rbind (cyclic_closed_matrix sy) (\<lambda>cy.
         rbind (cyclic_closed_matrix sx) (\<lambda>cx.
         rbind (kronecker cy cx) (\<lambda>a9.
         rbind (subtract_identity a9) (\<lambda>a8. Inr (a8, a9)))))
       | _ \<Rightarrow> Inl ValueError)"

definition matrix_vector_multiply :: "int list list \<Rightarrow> int list \<Rightarrow> int list res" where
  "matrix_vector_multiply matrix vector =
     (if matrix = [] then Inl pdc_contract_error
      else let width = length (hd matrix) in
        if length vector \<noteq> width \<or> list_ex (\<lambda>row. length row \<noteq> width) matrix then Inl pdc_shape_error
        else Inr (map (\<lambda>row. sum_list (map (\<lambda>(coefficient, v). coefficient * v) (zip row vector))) matrix))"

definition matrix_moore_support :: "int list \<Rightarrow> int list \<Rightarrow> int list res" where
  "matrix_moore_support field shape =
     rbind (validate_binary_field field shape 3) (\<lambda>values.
     rbind (moore_matrix_3d shape) (\<lambda>matrix. matrix_vector_multiply matrix values))"


section \<open>Site measurement\<close>

datatype channel = Overload | Survive int | Born int

record site_measurement =
  m_support :: int
  m_capacity :: int
  m_deficit :: int
  m_excess :: int
  m_strain :: int
  m_channel :: channel
  m_accepted :: bool
  m_next_state :: int

definition measure_site :: "int \<times> int \<Rightarrow> site_measurement res" where
  "measure_site = (\<lambda>(state, count).
     if \<not> (0 \<le> count \<and> count \<le> 26) then Inl pdc_contract_error
     else let active = (state = 1);
              capacity = (if active then 9 else 7);
              deficit = max (5 - count) 0;
              excess = max (count - capacity) 0;
              accepted = (if active then 5 \<le> count \<and> count \<le> 9 else 5 \<le> count \<and> count \<le> 7)
          in Inr \<lparr>m_support = count, m_capacity = capacity, m_deficit = deficit, m_excess = excess,
               m_strain = excess - deficit,
               m_channel = (if active then if count \<ge> 10 then Overload else Survive count else Born count),
               m_accepted = accepted, m_next_state = of_bool accepted\<rparr>)"

definition measure_binary_field :: "int list \<Rightarrow> int list \<Rightarrow> int list option \<Rightarrow> site_measurement list res" where
  "measure_binary_field field shape support =
     rbind (validate_binary_field field shape 3) (\<lambda>values.
     rbind (case support of Some s \<Rightarrow> Inr s | None \<Rightarrow> scalar_moore_support values shape) (\<lambda>support_values.
     if length support_values \<noteq> length values then Inl pdc_shape_error
     else rmap measure_site (zip values support_values)))"

definition binary_next_state :: "int list \<Rightarrow> int list \<Rightarrow> int list option \<Rightarrow> int list res" where
  "binary_next_state field shape support =
     rbind (measure_binary_field field shape support) (\<lambda>ms. Inr (map m_next_state ms))"


section \<open>Planar counts\<close>

definition planar_closed_at :: "int list \<Rightarrow> nat \<Rightarrow> nat \<Rightarrow> nat \<Rightarrow> nat \<Rightarrow> int" where
  "planar_closed_at values sx sy x y =
     sum_list [values ! (wrap sy y dy * sx + wrap sx x dx). dy \<leftarrow> [-1, 0, 1], dx \<leftarrow> [-1, 0, 1]]"

definition scalar_planar_counts :: "int list \<Rightarrow> int list \<Rightarrow> (int list \<times> int list) res" where
  "scalar_planar_counts defects shape =
     rbind (validate_binary_field defects shape 2) (\<lambda>values.
     case shape of [sx, sy] \<Rightarrow>
       let sx = nat sx; sy = nat sy in
       Inr (fold (\<lambda>y. fold (\<lambda>x (open_counts, closed_counts).
              let closed = planar_closed_at values sx sy x y; index = y * sx + x
              in (open_counts[index := closed - values ! index], closed_counts[index := closed]))
            [0..<sx]) [0..<sy] (replicate (length values) 0, replicate (length values) 0))
     | _ \<Rightarrow> Inl ValueError)"

definition matrix_planar_counts :: "int list \<Rightarrow> int list \<Rightarrow> (int list \<times> int list) res" where
  "matrix_planar_counts defects shape =
     rbind (validate_binary_field defects shape 2) (\<lambda>values.
     rbind (planar_matrices_2d shape) (\<lambda>(a8, a9).
     rbind (matrix_vector_multiply a8 values) (\<lambda>o8.
     rbind (matrix_vector_multiply a9 values) (\<lambda>c9. Inr (o8, c9)))))"

record planar_summary =
  p_b5 :: int
  p_b6 :: int
  p_b7 :: int
  p_in_plane_births :: int
  p_normal_layer_births :: int
  p_deaths :: int
  p_total_births :: int

text \<open>The spectrum dictionary is three counters; \<open>count_birth k n\<close> adds \<open>n\<close> to the counter of \<open>B<k>\<close>.\<close>

definition count_birth :: "int \<Rightarrow> int \<Rightarrow> planar_summary \<Rightarrow> planar_summary" where
  "count_birth k n s = (if k = 5 then s\<lparr>p_b5 := p_b5 s + n\<rparr> else if k = 6 then s\<lparr>p_b6 := p_b6 s + n\<rparr>
     else s\<lparr>p_b7 := p_b7 s + n\<rparr>)"

definition planar_in_plane :: "int \<times> int \<Rightarrow> planar_summary \<Rightarrow> planar_summary" where
  "planar_in_plane = (\<lambda>(defect, q) s.
     if defect \<noteq> 0 \<and> 1 \<le> q \<and> q \<le> 3 then
       (count_birth (8 - q) 1 s)\<lparr>p_in_plane_births := p_in_plane_births s + 1\<rparr>
     else if defect = 0 \<and> q \<ge> 4 then s\<lparr>p_deaths := p_deaths s + 1\<rparr> else s)"

definition planar_normal :: "int \<Rightarrow> planar_summary \<Rightarrow> planar_summary" where
  "planar_normal r s = (if 2 \<le> r \<and> r \<le> 4 then
     (count_birth (9 - r) 2 s)\<lparr>p_normal_layer_births := p_normal_layer_births s + 2\<rparr> else s)"

definition planar_first_step_summary :: "int list \<Rightarrow> int list \<Rightarrow> planar_summary res" where
  "planar_first_step_summary defects shape =
     rbind (validate_binary_field defects shape 2) (\<lambda>values.
     rbind (scalar_planar_counts values shape) (\<lambda>(q_values, r_values).
     let s = fold planar_in_plane (zip values q_values) \<lparr>p_b5 = 0, p_b6 = 0, p_b7 = 0, p_in_plane_births = 0,
           p_normal_layer_births = 0, p_deaths = 0, p_total_births = 0\<rparr>;
         s = fold planar_normal r_values s
     in Inr (s\<lparr>p_total_births := p_in_plane_births s + p_normal_layer_births s\<rparr>)))"

definition set_defect :: "int list \<Rightarrow> int list \<Rightarrow> int list \<Rightarrow> int list res" where
  "set_defect shape coord field =
     rbind (flat_index_2d coord shape) (\<lambda>i. if nat i < length field then Inr (field[nat i := 1]) else Inl IndexError)"

definition defect_field_2d :: "int list \<Rightarrow> int list list \<Rightarrow> int list res" where
  "defect_field_2d shape coords =
     rbind (validate_periodic_shape shape 2) (\<lambda>(_, count).
     rfold (set_defect shape) coords (replicate (nat count) 0))"

text \<open>The bounds test in its evaluation order, with the index errors of a short shape.\<close>

definition must_fit :: "int \<Rightarrow> int \<Rightarrow> int \<Rightarrow> int \<Rightarrow> int list \<Rightarrow> unit res" where
  "must_fit ox oy end_x end_y shape =
     (if ox < 0 \<or> oy < 0 then Inl pdc_shape_error
      else case shape of [] \<Rightarrow> Inl IndexError
        | sx # rest \<Rightarrow> if end_x > sx then Inl pdc_shape_error
            else case rest of [] \<Rightarrow> Inl IndexError
              | sy # _ \<Rightarrow> if end_y > sy then Inl pdc_shape_error else Inr ())"

definition rectangle_defect_field :: "int \<Rightarrow> int \<Rightarrow> int list \<Rightarrow> int \<times> int \<Rightarrow> int list res" where
  "rectangle_defect_field width height shape = (\<lambda>(ox, oy).
     if width \<le> 0 \<or> height \<le> 0 then Inl pdc_shape_error
     else rbind (must_fit ox oy (ox + width) (oy + height) shape) (\<lambda>_.
       defect_field_2d shape [[ox + int x, oy + int y]. y \<leftarrow> [0..<nat height], x \<leftarrow> [0..<nat width]]))"

text \<open>The axis names \<open>"x"\<close> and \<open>"y"\<close>; every other string is \<open>AxisOther\<close>.\<close>

datatype axis = AxisX | AxisY | AxisOther

definition line_defect_field :: "int \<Rightarrow> int list \<Rightarrow> int \<times> int \<Rightarrow> axis \<Rightarrow> int list res" where
  "line_defect_field len shape = (\<lambda>(ox, oy) axis.
     if len \<le> 0 then Inl pdc_shape_error
     else case axis of
         AxisX \<Rightarrow> rbind (must_fit ox oy (ox + len) (oy + 1) shape) (\<lambda>_.
           defect_field_2d shape [[ox + int k, oy]. k \<leftarrow> [0..<nat len]])
       | AxisY \<Rightarrow> rbind (must_fit ox oy (ox + 1) (oy + len) shape) (\<lambda>_.
           defect_field_2d shape [[ox, oy + int k]. k \<leftarrow> [0..<nat len]])
       | AxisOther \<Rightarrow> Inl pdc_shape_error)"


section \<open>Boxes, the sparse first response and the closed forms\<close>

definition centered_box_origin :: "int list \<Rightarrow> int list \<Rightarrow> int list res" where
  "centered_box_origin shape extents =
     rbind (validate_periodic_shape shape 3) (\<lambda>_.
     if length extents \<noteq> 3 \<or> list_ex (\<lambda>v. v \<le> 0) extents then Inl pdc_shape_error
     else if list_ex (\<lambda>(extent, bound). extent + 2 > bound) (zip extents shape) then Inl pdc_shape_error
     else Inr (map (\<lambda>(bound, extent). bound div 2 - extent div 2) (zip shape extents)))"

record box_formula =
  f_active_0 :: int
  f_births :: int
  f_deaths :: int
  f_active_1 :: int
  f_b6 :: int

definition cuboid_formula :: "int \<Rightarrow> int \<Rightarrow> int \<Rightarrow> box_formula res" where
  "cuboid_formula a b c =
     (if a < 4 \<or> b < 4 \<or> c < 4 then Inl pdc_shape_error
      else let active_0 = a * b * c; births = 8 * (a + b + c - 6); deaths = active_0 - 8
        in Inr \<lparr>f_active_0 = active_0, f_births = births, f_deaths = deaths, f_active_1 = active_0 + births - deaths,
             f_b6 = births\<rparr>)"

definition closed_shell_formula :: "int \<Rightarrow> int \<Rightarrow> int \<Rightarrow> box_formula res" where
  "closed_shell_formula a b c =
     (if a < 4 \<or> b < 4 \<or> c < 4 then Inl pdc_shape_error
      else let active_0 = 2 * (a * b + a * c + b * c) - 4 * (a + b + c) + 8; births = 8 * (a + b + c - 6);
               deaths = 8 * (a + b + c - 9)
        in Inr \<lparr>f_active_0 = active_0, f_births = births, f_deaths = deaths, f_active_1 = active_0 + births - deaths,
             f_b6 = births\<rparr>)"

definition box_coords :: "nat \<Rightarrow> nat \<Rightarrow> nat \<Rightarrow> (nat \<times> nat \<times> nat) list" where
  "box_coords a b c = [(x, y, z). x \<leftarrow> [0..<a], y \<leftarrow> [0..<b], z \<leftarrow> [0..<c]]"

definition on_surface :: "nat \<Rightarrow> nat \<Rightarrow> nat \<Rightarrow> nat \<times> nat \<times> nat \<Rightarrow> bool" where
  "on_surface a b c = (\<lambda>(x, y, z). x = 0 \<or> x = a - 1 \<or> y = 0 \<or> y = b - 1 \<or> z = 0 \<or> z = c - 1)"

definition place_box :: "int list \<Rightarrow> (nat \<times> nat \<times> nat) list \<Rightarrow> int list list res" where
  "place_box origin cells =
     (case origin of [ox, oy, oz] \<Rightarrow> Inr (map (\<lambda>(x, y, z). [ox + int x, oy + int y, oz + int z]) cells)
      | _ \<Rightarrow> Inl ValueError)"

definition solid_cuboid_coords :: "int \<Rightarrow> int \<Rightarrow> int \<Rightarrow> int list \<Rightarrow> int list list res" where
  "solid_cuboid_coords a b c shape =
     rbind (cuboid_formula a b c) (\<lambda>_.
     rbind (centered_box_origin shape [a, b, c]) (\<lambda>origin.
     place_box origin (box_coords (nat a) (nat b) (nat c))))"

definition closed_surface_shell_coords :: "int \<Rightarrow> int \<Rightarrow> int \<Rightarrow> int list \<Rightarrow> int list list res" where
  "closed_surface_shell_coords a b c shape =
     rbind (closed_shell_formula a b c) (\<lambda>_.
     rbind (centered_box_origin shape [a, b, c]) (\<lambda>origin.
     place_box origin (filter (on_surface (nat a) (nat b) (nat c)) (box_coords (nat a) (nat b) (nat c)))))"

text \<open>
  The set of active cells and the support dictionary are lists without repetition, in
  insertion order; the response sums over them, so the order does not matter.
\<close>

definition add_active :: "int list \<Rightarrow> int list \<Rightarrow> int list list \<Rightarrow> int list list res" where
  "add_active shape coord active =
     rbind (validate_coord coord shape) (\<lambda>normalized.
     if normalized \<in> set active then Inl pdc_contract_error else Inr (active @ [normalized]))"

fun dict_add :: "'k \<Rightarrow> int \<Rightarrow> ('k \<times> int) list \<Rightarrow> ('k \<times> int) list" where
  "dict_add k n [] = [(k, n)]"
| "dict_add k n ((j, m) # d) = (if j = k then (j, m + n) # d else (j, m) # dict_add k n d)"

definition dict_get :: "('k \<times> int) list \<Rightarrow> 'k \<Rightarrow> int" where
  "dict_get d k = (case map_of d k of None \<Rightarrow> 0 | Some n \<Rightarrow> n)"

definition neighbours :: "int list \<Rightarrow> int list \<Rightarrow> int list list" where
  "neighbours shape coord =
     map (\<lambda>(dz, dy, dx). [(coord ! 0 + dx) mod shape ! 0, (coord ! 1 + dy) mod shape ! 1, (coord ! 2 + dz) mod shape ! 2])
       moore_offsets"

definition sparse_support :: "int list \<Rightarrow> int list list \<Rightarrow> (int list \<times> int) list" where
  "sparse_support shape active = fold (\<lambda>coord. fold (\<lambda>target. dict_add target 1) (neighbours shape coord)) active []"

record sparse_summary =
  s_initial_active :: int
  s_births :: int
  s_deaths :: int
  s_events :: int
  s_final_active :: int
  s_birth_spectrum :: "(int \<times> int) list"
  s_death_low :: int
  s_death_high :: int
  s_survival_spectrum :: "(int \<times> int) list"

definition sparse_site :: "int list list \<Rightarrow> (int list \<times> int) list \<Rightarrow> int list \<Rightarrow> sparse_summary \<Rightarrow> sparse_summary" where
  "sparse_site active support coord s =
     (let count = dict_get support coord in
      if coord \<in> set active then
        if 5 \<le> count \<and> count \<le> 9 then s\<lparr>s_survival_spectrum := dict_add count 1 (s_survival_spectrum s)\<rparr>
        else let s = s\<lparr>s_deaths := s_deaths s + 1\<rparr> in
          if count < 5 then s\<lparr>s_death_low := s_death_low s + 1\<rparr> else s\<lparr>s_death_high := s_death_high s + 1\<rparr>
      else if 5 \<le> count \<and> count \<le> 7 then
        s\<lparr>s_births := s_births s + 1, s_birth_spectrum := dict_add count 1 (s_birth_spectrum s)\<rparr>
      else s)"

definition sparse_first_response :: "int list list \<Rightarrow> int list \<Rightarrow> sparse_summary res" where
  "sparse_first_response active_coords shape =
     rbind (validate_periodic_shape shape 3) (\<lambda>(normalized_shape, _).
     rbind (rfold (add_active normalized_shape) active_coords []) (\<lambda>active.
     let support = sparse_support normalized_shape active;
         initial_active = int (length active);
         s = fold (sparse_site active support) (remdups (map fst support @ active))
           \<lparr>s_initial_active = initial_active, s_births = 0, s_deaths = 0, s_events = 0, s_final_active = 0,
             s_birth_spectrum = [(5, 0), (6, 0), (7, 0)], s_death_low = 0, s_death_high = 0,
             s_survival_spectrum = [(5, 0), (6, 0), (7, 0), (8, 0), (9, 0)]\<rparr>
     in Inr (s\<lparr>s_events := s_births s + s_deaths s, s_final_active := initial_active + s_births s - s_deaths s\<rparr>)))"

record birth_formula =
  b_births :: int
  b_deaths :: int
  b_b5 :: int
  b_b6 :: int
  b_b7 :: int

definition rectangle_formula :: "int \<Rightarrow> int \<Rightarrow> string \<Rightarrow> birth_formula res" where
  "rectangle_formula width height model_tag =
     (if width < 2 \<or> height < 2 then Inl pdc_shape_error
      else let b5 = 12; b6 = 4 * width + 4 * height - 16; b7 = 16 in
        if model_tag = ''B5-7/S5-9'' then
          Inr \<lparr>b_births = b5 + b6 + b7, b_deaths = 0, b_b5 = b5, b_b6 = b6, b_b7 = b7\<rparr>
        else if model_tag = ''PMphi.default.remove_B7'' then
          Inr \<lparr>b_births = b5 + b6, b_deaths = 0, b_b5 = b5, b_b6 = b6, b_b7 = 0\<rparr>
        else Inl pdc_contract_error)"

definition line_hole_formula :: "int \<Rightarrow> birth_formula res" where
  "line_hole_formula len =
     (if len < 1 then Inl pdc_shape_error
      else if len = 1 then Inr \<lparr>b_births = 0, b_deaths = 0, b_b5 = 0, b_b6 = 0, b_b7 = 0\<rparr>
      else let b5 = 0; b6 = 7 * len - 14; b7 = 14
        in Inr \<lparr>b_births = b5 + b6 + b7, b_deaths = 0, b_b5 = b5, b_b6 = b6, b_b7 = b7\<rparr>)"

end
