(* ===== verification/Pdc_Equivalence.thy ===== *)
theory Pdc_Equivalence
  imports Pdc_Reference
begin

text \<open>
  The two Moore oracles and the two planar oracles agree: the dense matrix built from
  Kronecker products of cyclic matrices, applied to the field, gives what the scalar loops
  count. Flat indices and coordinates are inverse to each other, and the support counts stay
  in the range the site measurement accepts.
\<close>


section \<open>Shapes\<close>

lemma checked_factors:
  "0 \<le> limit \<Longrightarrow> 0 < p \<Longrightarrow> rfold (checked_factor limit) vs p = Inr n \<Longrightarrow>
   (\<forall>v \<in> set vs. 0 < v) \<and> n = p * prod_list vs \<and> 0 < n \<and> (vs \<noteq> [] \<longrightarrow> n \<le> limit)"
proof (induction vs arbitrary: p)
  case (Cons v vs)
  have one: "checked_factor limit v p = Inr q \<longleftrightarrow> 0 < v \<and> p \<le> limit div v \<and> q = p * v" for q
    by (auto simp: checked_factor_def)
  from Cons.prems(3) have v: "0 < v" "p \<le> limit div v" "rfold (checked_factor limit) vs (p * v) = Inr n"
    by (auto simp: rbind_Inr_iff one)
  have "p * v \<le> (limit div v) * v" using v by (intro mult_right_mono) simp_all
  also have "\<dots> \<le> limit" using v(1) by (simp add: minus_mod_eq_div_mult [symmetric])
  finally have pv: "p * v \<le> limit" .
  from Cons.IH [OF Cons.prems(1) _ v(3)] v(1) Cons.prems(2) pv show ?case by (cases vs) (auto simp: mult.assoc)
qed simp

lemma validate_shape_3:
  assumes "validate_periodic_shape shape 3 = Inr (s, n)"
  obtains sx sy sz where "shape = [int sx, int sy, int sz]" "s = shape" "3 \<le> sx" "3 \<le> sy" "3 \<le> sz" "n = int (sx * sy * sz)"
proof -
  obtain a b c where abc: "shape = [a, b, c]" and ge: "3 \<le> a" "3 \<le> b" "3 \<le> c"
    and r: "rfold (checked_factor MAX_REFERENCE_CELLS) [a, b, c] 1 = Inr n" "s = shape"
    using assms
    by (auto simp: validate_periodic_shape_def checked_product_def rbind_Inr_iff numeral_3_eq_3 length_Suc_conv
        MIN_PERIODIC_EXTENT_def split: if_splits)
  have "n = a * b * c" using checked_factors [OF _ _ r(1)] by (simp add: MAX_REFERENCE_CELLS_def mult.assoc)
  with abc ge r(2) show ?thesis by (intro that [of "nat a" "nat b" "nat c"]) (auto simp: nat_le_eq_zle)
qed

lemma validate_shape_2:
  assumes "validate_periodic_shape shape 2 = Inr (s, n)"
  obtains sx sy where "shape = [int sx, int sy]" "s = shape" "3 \<le> sx" "3 \<le> sy" "n = int (sx * sy)"
proof -
  obtain a b where abc: "shape = [a, b]" and ge: "3 \<le> a" "3 \<le> b"
    and r: "rfold (checked_factor MAX_REFERENCE_CELLS) [a, b] 1 = Inr n" "s = shape"
    using assms
    by (auto simp: validate_periodic_shape_def checked_product_def rbind_Inr_iff numeral_2_eq_2 length_Suc_conv
        MIN_PERIODIC_EXTENT_def split: if_splits)
  have "n = a * b" using checked_factors [OF _ _ r(1)] by (simp add: MAX_REFERENCE_CELLS_def)
  with abc ge r(2) show ?thesis by (intro that [of "nat a" "nat b"]) (auto simp: nat_le_eq_zle)
qed

lemma cyclic_shape: "3 \<le> n \<Longrightarrow> int n \<le> MAX_REFERENCE_CELLS \<Longrightarrow> validate_periodic_shape [int n] 1 = Inr ([int n], int n)"
proof -
  assume n: "3 \<le> n" "int n \<le> MAX_REFERENCE_CELLS"
  then have "1 \<le> MAX_REFERENCE_CELLS div int n" using zdiv_mono1 [of "int n" MAX_REFERENCE_CELLS "int n"] by simp
  with n show ?thesis
    by (simp add: validate_periodic_shape_def checked_product_def checked_factor_def MIN_PERIODIC_EXTENT_def)
qed


section \<open>Rows, blocks and sums\<close>

lemma wrap_less: "0 < n \<Longrightarrow> wrap n k d < n"
  by (simp add: wrap_def nat_less_iff)

lemma wrap_0: "k < n \<Longrightarrow> wrap n k 0 = k"
  by (simp add: wrap_def)

lemma sum_list_zip:
  "length xs = n \<Longrightarrow> length ys = n \<Longrightarrow> sum_list (map (\<lambda>(a, b). a * b) (zip xs ys)) = (\<Sum>i<n. xs ! i * ys ! i :: int)"
  by (simp add: sum_list_sum_nth lessThan_atLeast0)

lemma nth_blocks:
  assumes "\<And>x. x \<in> set xs \<Longrightarrow> length (f x) = m" "i < length xs" "k < m"
  shows "concat (map f xs) ! (i * m + k) = f (xs ! i) ! k"
  using assms
proof (induction xs arbitrary: i)
  case (Cons x xs)
  then show ?case by (cases i) (simp_all add: nth_append add.assoc)
qed simp

lemma length_cell_blocks: "(\<And>x. x \<in> set xs \<Longrightarrow> length (f x) = m) \<Longrightarrow> length (concat (map f xs)) = length xs * m"
  by (induction xs) simp_all

lemma sum_blocks: "(\<Sum>c<p * q :: nat. f c :: int) = (\<Sum>i<p. \<Sum>k<q. f (i * q + k))"
proof (induction p)
  case (Suc p)
  have "(\<Sum>c<Suc p * q. f c) = (\<Sum>c<p * q + q. f c)" by (simp add: add.commute)
  also have "\<dots> = (\<Sum>c<p * q. f c) + (\<Sum>k<q. f (p * q + k))"
    using sum.atLeastLessThan_concat [of 0 "p * q" "p * q + q" f] sum.shift_bounds_nat_ivl [of f 0 "p * q" q]
    by (simp add: lessThan_atLeast0 add.commute)
  finally show ?case using Suc by simp
qed simp

definition matrix_dims :: "nat \<Rightarrow> nat \<Rightarrow> int list list \<Rightarrow> bool" where
  "matrix_dims p q m \<longleftrightarrow> length m = p \<and> (\<forall>r \<in> set m. length r = q)"

lemma multiply_nth:
  assumes "matrix_dims p q m" "0 < p" "length v = q"
  shows "\<exists>w. matrix_vector_multiply m v = Inr w \<and> length w = p \<and> (\<forall>i<p. w ! i = (\<Sum>c<q. m ! i ! c * v ! c))"
proof -
  have m: "m \<noteq> []" "length (hd m) = q" "\<not> list_ex (\<lambda>r. length r \<noteq> q) m"
    using assms(1,2) by (auto simp: matrix_dims_def list_ex_iff)
  have "(map (\<lambda>row. sum_list (map (\<lambda>(a, b). a * b) (zip row v))) m) ! i = (\<Sum>c<q. m ! i ! c * v ! c)" if "i < p" for i
    using that assms(1,3) by (simp add: matrix_dims_def sum_list_zip)
  with m assms show ?thesis by (simp add: matrix_vector_multiply_def Let_def matrix_dims_def)
qed

lemma cyclic_row_nth:
  assumes "3 \<le> n" "r < n"
  shows "length (cyclic_row n r) = n" "j < n \<Longrightarrow> cyclic_row n r ! j = (\<Sum>d\<leftarrow>[-1, 0, 1]. of_bool (wrap n r d = j))"
  using assms by (simp_all add: cyclic_row_def nth_list_update wrap_less)

lemma cyclic_sum:
  assumes "3 \<le> n" "r < n"
  shows "(\<Sum>j<n. cyclic_row n r ! j * g j) = (\<Sum>d\<leftarrow>[-1, 0, 1]. g (wrap n r d))"
proof -
  have pick: "(\<Sum>j<n. of_bool (wrap n r d = j) * g j) = g (wrap n r d)" for d
    using wrap_less [of n r d] assms(1) by (simp add: of_bool_def if_distrib [of "\<lambda>x. x * _"] sum.delta' cong: if_cong)
  have "(\<Sum>j<n. cyclic_row n r ! j * g j) = (\<Sum>j<n. (\<Sum>d\<leftarrow>[-1, 0, 1]. of_bool (wrap n r d = j)) * g j)"
    using assms by (intro sum.cong) (simp_all add: cyclic_row_nth)
  also have "\<dots> = (\<Sum>d\<leftarrow>[-1, 0, 1]. g (wrap n r d))"
    by (simp add: distrib_right sum.distrib pick)
  finally show ?thesis .
qed

lemma cyclic_matrix:
  assumes "3 \<le> n" "int n \<le> MAX_REFERENCE_CELLS"
  shows "cyclic_closed_matrix (int n) = Inr (map (cyclic_row n) [0..<n])"
  using cyclic_shape [OF assms] by (simp add: cyclic_closed_matrix_def)

lemma kronecker_dims:
  assumes "matrix_dims p q l" "matrix_dims r s m" "0 < p" "0 < q" "0 < r" "0 < s"
  shows "\<exists>k. kronecker l m = Inr k \<and> matrix_dims (p * r) (q * s) k \<and>
    (\<forall>i<p. \<forall>i'<r. \<forall>j<q. \<forall>j' < s. k ! (i * r + i') ! (j * s + j') = l ! i ! j * m ! i' ! j')"
proof -
  have len: "length l = p" "\<And>x. x \<in> set l \<Longrightarrow> length x = q" "length m = r" "\<And>x. x \<in> set m \<Longrightarrow> length x = s"
    using assms(1,2) by (simp_all add: matrix_dims_def)
  have ne: "l \<noteq> []" "m \<noteq> []" using len assms(3,5) by auto
  then have hd: "length (hd l) = q" "length (hd m) = s" using len(2,4) by simp_all
  have guard: "\<not> list_ex (\<lambda>x. length x \<noteq> q) l" "\<not> list_ex (\<lambda>x. length x \<noteq> s) m" using len by (auto simp: list_ex_iff)
  have block: "length (if v = 0 then replicate s 0 else map (\<lambda>w. (v::int) * w) y) = s" if "y \<in> set m" for v y
    using len(4) [OF that] by simp
  have row_len: "length (kronecker_row s x y) = q * s" if "x \<in> set l" "y \<in> set m" for x y
    unfolding kronecker_row_def using length_cell_blocks [where xs = x, OF block [OF that(2)]] len(2) [OF that(1)] by simp
  let ?f = "\<lambda>x. map (kronecker_row s x) m"
  have entry: "concat (map ?f l) ! (i * r + i') ! (j * s + j') = l ! i ! j * m ! i' ! j'"
    if "i < p" "i' < r" "j < q" "j' < s" for i i' j j'
  proof -
    have mem: "l ! i \<in> set l" "m ! i' \<in> set m" using that len by simp_all
    have "concat (map ?f l) ! (i * r + i') = kronecker_row s (l ! i) (m ! i')"
      using that len by (subst nth_blocks [where m = r]) simp_all
    moreover have "kronecker_row s (l ! i) (m ! i') ! (j * s + j') = l ! i ! j * m ! i' ! j'"
      unfolding kronecker_row_def using that len(2) [OF mem(1)] len(4) [OF mem(2)]
      by (subst nth_blocks [where m = s]) (simp_all add: block [OF mem(2)])
    ultimately show ?thesis by simp
  qed
  have "matrix_dims (p * r) (q * s) (concat (map ?f l))"
    using length_cell_blocks [of l ?f r] len row_len by (auto simp: matrix_dims_def)
  moreover have "kronecker l m = Inr (concat (map ?f l))"
    using ne hd guard assms(4,6) by (auto simp: kronecker_def Let_def)
  ultimately show ?thesis using entry by blast
qed


lemma subtract_identity_nth:
  assumes "matrix_dims n n m" "0 < n"
  shows "\<exists>k. subtract_identity m = Inr k \<and> matrix_dims n n k \<and>
    (\<forall>i<n. \<forall>j<n. k ! i ! j = m ! i ! j - of_bool (i = j))"
proof -
  have len: "length m = n" "\<And>x. x \<in> set m \<Longrightarrow> length x = n" using assms(1) by (simp_all add: matrix_dims_def)
  have "m \<noteq> []" "length (hd m) = n" "\<not> list_ex (\<lambda>x. length x \<noteq> n) m" using len assms(2) by (auto simp: list_ex_iff)
  then have "subtract_identity m = Inr (map (\<lambda>i. (m ! i)[i := m ! i ! i - 1]) [0..<n])"
    using len(1) by (simp add: subtract_identity_def)
  moreover have "matrix_dims n n (map (\<lambda>i. (m ! i)[i := m ! i ! i - 1]) [0..<n])"
    using len by (auto simp: matrix_dims_def)
  ultimately show ?thesis using len by (auto simp: nth_list_update)
qed

lemma sum_minus_identity:
  "i < n \<Longrightarrow> (\<Sum>c<n. (f c - of_bool (i = c)) * g c) = (\<Sum>c<n. f c * g c) - (g i :: int)" for n :: nat
  by (simp add: left_diff_distrib sum_subtractf of_bool_def if_distrib [of "\<lambda>x. x * _"] sum.delta cong: if_cong)


section \<open>Loops that fill an array\<close>

lemma fold_blocks:
  assumes "\<And>k out. k < m \<Longrightarrow> length out = N \<Longrightarrow> step k out = take (B + k * w) out @ blk k @ drop (B + k * w + w) out"
    "\<And>k. k < m \<Longrightarrow> length (blk k) = w" "B + m * w \<le> N" "length out = N"
  shows "fold step [0..<m] out = take B out @ concat (map blk [0..<m]) @ drop (B + m * w) out"
  using assms
proof (induction m)
  case (Suc m)
  let ?out = "take B out @ concat (map blk [0..<m]) @ drop (B + m * w) out"
  have IH: "fold step [0..<m] out = ?out" using Suc.prems by (intro Suc.IH) auto
  have len: "length (concat (map blk [0..<m])) = m * w" using length_cell_blocks [of "[0..<m]" blk w] Suc.prems(2) by simp
  then have "length ?out = N" using Suc.prems(3,4) by simp
  then have "step m ?out = take (B + m * w) ?out @ blk m @ drop (B + m * w + w) ?out" using Suc.prems(1) [of m ?out] by simp
  also have "\<dots> = take B out @ concat (map blk [0..<Suc m]) @ drop (B + Suc m * w) out"
    using len Suc.prems(3,4) by (simp add: min_def ac_simps)
  finally show ?case by (simp add: IH)
qed simp

lemma fold_cells:
  assumes "b + n \<le> length out"
  shows "fold (\<lambda>x out. out[b + x := h x]) [0..<n] out = take b out @ map h [0..<n] @ drop (b + n) out"
  using fold_blocks [of n "length out" "\<lambda>x out. out[b + x := h x]" b 1 "\<lambda>x. [h x]" out] assms
  by (simp add: upd_conv_take_nth_drop concat_map_singleton)

lemma fold_plane:
  assumes "b * n + m * n \<le> length out"
  shows "fold (\<lambda>y. fold (\<lambda>x out. out[(b + y) * n + x := h x y]) [0..<n]) [0..<m] out =
    take (b * n) out @ concat (map (\<lambda>y. map (\<lambda>x. h x y) [0..<n]) [0..<m]) @ drop (b * n + m * n) out"
proof (rule fold_blocks [where w = n and N = "length out"])
  fix y and o' :: "'a list"
  assume y: "y < m" "length o' = length out"
  then have "y * n + n \<le> m * n" by (metis Suc_leI add.commute mult_Suc mult_le_mono1)
  with assms y show "fold (\<lambda>x out. out[(b + y) * n + x := h x y]) [0..<n] o' =
      take (b * n + y * n) o' @ map (\<lambda>x. h x y) [0..<n] @ drop (b * n + y * n + n) o'"
    by (subst fold_cells) (simp_all add: distrib_right)
qed (use assms in simp_all)

lemma fold_volume:
  assumes "length out = l * m * n"
  shows "fold (\<lambda>z. fold (\<lambda>y. fold (\<lambda>x out. out[(z * m + y) * n + x := h x y z]) [0..<n]) [0..<m]) [0..<l] out =
    concat (map (\<lambda>z. concat (map (\<lambda>y. map (\<lambda>x. h x y z) [0..<n]) [0..<m])) [0..<l])"
proof -
  have plane: "length (concat (map (\<lambda>y. map (\<lambda>x. h x y z) [0..<n]) [0..<m])) = m * n" for z
    using length_cell_blocks [of "[0..<m]" "\<lambda>y. map (\<lambda>x. h x y z) [0..<n]" n] by simp
  have step: "fold (\<lambda>y. fold (\<lambda>x out. out[(z * m + y) * n + x := h x y z]) [0..<n]) [0..<m] o' =
      take (z * (m * n)) o' @ concat (map (\<lambda>y. map (\<lambda>x. h x y z) [0..<n]) [0..<m]) @ drop (z * (m * n) + m * n) o'"
    if z: "z < l" "length o' = length out" for z o'
  proof -
    have "z * m * n + m * n \<le> length o'"
      using mult_le_mono1 [OF Suc_leI [OF z(1)], of "m * n"] z(2) assms by (simp add: mult.assoc add.commute)
    from fold_plane [OF this, of "\<lambda>x y. h x y z"] show ?thesis by (simp add: mult.assoc)
  qed
  have "fold (\<lambda>z. fold (\<lambda>y. fold (\<lambda>x out. out[(z * m + y) * n + x := h x y z]) [0..<n]) [0..<m]) [0..<l] out =
    take 0 out @ concat (map (\<lambda>z. concat (map (\<lambda>y. map (\<lambda>x. h x y z) [0..<n]) [0..<m])) [0..<l]) @ drop (0 + l * (m * n)) out"
    by (rule fold_blocks [where N = "length out"]) (use assms plane step in simp_all)
  then show ?thesis using assms by (simp add: mult.assoc)
qed

lemma volume_nth:
  assumes "x < n" "y < m" "z < l"
  shows "concat (map (\<lambda>z. concat (map (\<lambda>y. map (\<lambda>x. h x y z) [0..<n]) [0..<m])) [0..<l]) ! ((z * m + y) * n + x) = h x y z"
proof -
  have plane: "length (concat (map (\<lambda>y. map (\<lambda>x. h x y z) [0..<n]) [0..<m])) = m * n" for z
    using length_cell_blocks [of "[0..<m]" "\<lambda>y. map (\<lambda>x. h x y z) [0..<n]" n] by simp
  have "y * n + n \<le> m * n" using assms(2) by (metis Suc_leI add.commute mult_Suc mult_le_mono1)
  then have "y * n + x < m * n" using assms(1) by simp
  note blocks = nth_blocks [of "[0..<l]" "\<lambda>z. concat (map (\<lambda>y. map (\<lambda>x. h x y z) [0..<n]) [0..<m])" "m * n" z "y * n + x", OF plane _ this]
  have "(z * m + y) * n + x = z * (m * n) + (y * n + x)" by (simp add: distrib_right mult.assoc)
  then have "concat (map (\<lambda>z. concat (map (\<lambda>y. map (\<lambda>x. h x y z) [0..<n]) [0..<m])) [0..<l]) ! ((z * m + y) * n + x) =
      concat (map (\<lambda>y. map (\<lambda>x. h x y z) [0..<n]) [0..<m]) ! (y * n + x)"
    using assms(3) blocks by (simp only: length_upt nth_upt) simp
  also have "\<dots> = h x y z" using assms by (subst nth_blocks [where m = n]) simp_all
  finally show ?thesis .
qed

lemma cell_split:
  assumes "r < l * m * n"
  obtains x y z where "x < n" "y < m" "z < (l::nat)" "r = (z * m + y) * n + x"
proof -
  have pos: "0 < n" "0 < m" using assms by (cases n; cases m; simp)+
  show ?thesis
  proof (rule that [of "r mod n" "r div n mod m" "r div n div m"])
    show "r mod n < n" "r div n mod m < m" using pos by simp_all
    have "r div n < l * m" using assms pos by (simp add: less_mult_imp_div_less)
    then show "r div n div m < l" by (simp add: less_mult_imp_div_less)
    show "r = (r div n div m * m + r div n mod m) * n + r mod n" by simp
  qed
qed



section \<open>The scalar oracle\<close>

lemma validate_field_iff:
  "validate_binary_field field shape d = Inr v \<longleftrightarrow>
     v = field \<and> (\<exists>s. validate_periodic_shape shape d = Inr (s, int (length field))) \<and> list_all (\<lambda>b. b = 0 \<or> b = 1) field"
  by (auto simp: validate_binary_field_def rbind_Inr_iff list_ex_iff list_all_iff split: if_splits prod.splits)

definition cell :: "nat \<Rightarrow> nat \<Rightarrow> nat \<Rightarrow> nat \<Rightarrow> nat \<Rightarrow> nat" where
  "cell sx sy x y z = (z * sy + y) * sx + x"

definition closed_sum :: "int list \<Rightarrow> nat \<Rightarrow> nat \<Rightarrow> nat \<Rightarrow> nat \<Rightarrow> nat \<Rightarrow> nat \<Rightarrow> int" where
  "closed_sum v sx sy sz x y z = (\<Sum>dz\<leftarrow>[-1, 0, 1]. \<Sum>dy\<leftarrow>[-1, 0, 1]. \<Sum>dx\<leftarrow>[-1, 0, 1].
     v ! cell sx sy (wrap sx x dx) (wrap sy y dy) (wrap sz z dz))"

lemma scalar_closed:
  assumes "x < sx" "y < sy" "z < sz"
  shows "scalar_support_at v sx sy sz x y z = closed_sum v sx sy sz x y z - v ! cell sx sy x y z"
  using assms by (simp add: scalar_support_at_def moore_offsets_def closed_sum_def cell_def wrap_0)

lemma scalar_support_nth:
  assumes "validate_binary_field field [int sx, int sy, int sz] 3 = Inr v" "length v = sz * sy * sx"
  shows "\<exists>out. scalar_moore_support field [int sx, int sy, int sz] = Inr out \<and> length out = sz * sy * sx \<and>
    (\<forall>x < sx. \<forall>y < sy. \<forall>z < sz. out ! cell sx sy x y z = scalar_support_at v sx sy sz x y z)"
proof -
  let ?h = "\<lambda>x y z. scalar_support_at v sx sy sz x y z"
  let ?out = "concat (map (\<lambda>z. concat (map (\<lambda>y. map (\<lambda>x. ?h x y z) [0..<sx]) [0..<sy])) [0..<sz])"
  have "scalar_moore_support field [int sx, int sy, int sz] = Inr ?out"
    using assms by (simp add: scalar_moore_support_def fold_volume)
  moreover have "length ?out = sz * (sy * sx)"
    by (subst length_cell_blocks [where m = "sy * sx"]) (simp_all add: length_cell_blocks [where m = sx])
  ultimately show ?thesis using volume_nth [of _ sx _ sy _ sz ?h] by (auto simp: cell_def mult.assoc)
qed

lemma neighbour_cells: "x < sx \<Longrightarrow> y < sy \<Longrightarrow> z < sz \<Longrightarrow> cell sx sy x y z < sz * sy * sx"
proof -
  assume a: "x < sx" "y < sy" "z < sz"
  have "z * sy + y < sz * sy"
    using mult_le_mono1 [OF Suc_leI [OF a(3)], of sy] a(2) by simp
  then show ?thesis
    using mult_le_mono1 [OF Suc_leI, of "z * sy + y" "sz * sy" sx] a(1) by (simp add: cell_def)
qed


section \<open>The matrix oracle\<close>

lemma moore_matrix_closed:
  assumes ge: "3 \<le> sx" "3 \<le> sy" "3 \<le> sz" and lim: "int (sx * sy * sz) \<le> MAX_DENSE_MATRIX_CELLS"
    and val: "validate_periodic_shape [int sx, int sy, int sz] 3 = Inr (s, int (sx * sy * sz))" and len: "length v = sz * sy * sx"
  shows "\<exists>out. rbind (moore_matrix_3d [int sx, int sy, int sz]) (\<lambda>m. matrix_vector_multiply m v) = Inr out \<and>
    length out = sz * sy * sx \<and>
    (\<forall>x < sx. \<forall>y < sy. \<forall>z < sz. out ! cell sx sy x y z = closed_sum v sx sy sz x y z - v ! cell sx sy x y z)"
proof -
  let ?C = "\<lambda>n. map (cyclic_row n) [0..<n]" and ?n = "sz * (sy * sx)"
  have small: "int n \<le> MAX_REFERENCE_CELLS" if "n \<in> {sx, sy, sz}" for n
  proof -
    have "sx \<le> sx * (sy * sz)" "sy \<le> sy * (sx * sz)" "sz \<le> sz * (sx * sy)" using ge by simp_all
    then have "n \<le> sx * sy * sz" using that by (auto simp: ac_simps)
    then have "int n \<le> int (sx * sy * sz)" by (simp only: of_nat_le_iff)
    also note lim
    finally show ?thesis by (simp add: code_defs)
  qed
  have C: "cyclic_closed_matrix (int n) = Inr (?C n)" "matrix_dims n n (?C n)" if "n \<in> {sx, sy, sz}" for n
    using that ge small cyclic_row_nth(1) by (auto simp: cyclic_matrix matrix_dims_def)
  obtain p where p: "kronecker (?C sy) (?C sx) = Inr p" "matrix_dims (sy * sx) (sy * sx) p"
      "\<forall>i < sy. \<forall>i' < sx. \<forall>j < sy. \<forall>j' < sx. p ! (i * sx + i') ! (j * sx + j') = ?C sy ! i ! j * ?C sx ! i' ! j'"
    using kronecker_dims [OF C(2) [of sy] C(2) [of sx]] ge by auto
  obtain k where k: "kronecker (?C sz) p = Inr k" "matrix_dims ?n ?n k"
      "\<forall>i < sz. \<forall>i' < sy * sx. \<forall>j < sz. \<forall>j' < sy * sx. k ! (i * (sy * sx) + i') ! (j * (sy * sx) + j') = ?C sz ! i ! j * p ! i' ! j'"
    using kronecker_dims [OF C(2) [of sz] p(2)] ge by auto
  obtain a where a: "subtract_identity k = Inr a" "matrix_dims ?n ?n a" "\<forall>i<?n. \<forall>j<?n. a ! i ! j = k ! i ! j - of_bool (i = j)"
    using subtract_identity_nth [OF k(2)] ge by auto
  have mm: "moore_matrix_3d [int sx, int sy, int sz] = Inr a"
  proof -
    have "s = [int sx, int sy, int sz]" by (rule validate_shape_3 [OF val]) simp
    then show ?thesis using val lim C(1) p(1) k(1) a(1) by (simp add: moore_matrix_3d_def)
  qed
  obtain out where out: "matrix_vector_multiply a v = Inr out" "length out = ?n" "\<forall>i<?n. out ! i = (\<Sum>c<?n. a ! i ! c * v ! c)"
    using multiply_nth [OF a(2), of v] ge len by (auto simp: mult.assoc)
  have "out ! cell sx sy x y z = closed_sum v sx sy sz x y z - v ! cell sx sy x y z"
    if xyz: "x < sx" "y < sy" "z < sz" for x y z
  proof -
    let ?r = "cell sx sy x y z"
    have r: "?r < ?n" using neighbour_cells [OF xyz] by (simp add: mult.assoc)
    have rr: "?r = z * (sy * sx) + (y * sx + x)" by (simp add: cell_def algebra_simps)
    have yx: "y' * sx + x' < sy * sx" if "y' < sy" "x' < sx" for y' x'
      using neighbour_cells [of x' sx y' sy 0 1] that by (simp add: cell_def)
    have "(\<Sum>c<?n. k ! ?r ! c * v ! c) = (\<Sum>z' < sz. \<Sum>y' < sy. \<Sum>x' < sx. k ! ?r ! (z' * (sy * sx) + (y' * sx + x')) * v ! (z' * (sy * sx) + (y' * sx + x')))"
      by (simp add: sum_blocks)
    also have "\<dots> = (\<Sum>z' < sz. cyclic_row sz z ! z' * (\<Sum>y' < sy. cyclic_row sy y ! y' * (\<Sum>x' < sx. cyclic_row sx x ! x' * v ! cell sx sy x' y' z')))"
      unfolding sum_distrib_left
    proof (intro sum.cong refl)
      fix z' y' x'
      assume q: "z' \<in> {..<sz}" "y' \<in> {..<sy}" "x' \<in> {..<sx}"
      then have "k ! ?r ! (z' * (sy * sx) + (y' * sx + x')) = cyclic_row sz z ! z' * (cyclic_row sy y ! y' * cyclic_row sx x ! x')"
        unfolding rr using k(3) p(3) yx xyz by simp
      moreover have "z' * (sy * sx) + (y' * sx + x') = cell sx sy x' y' z'" by (simp add: cell_def algebra_simps)
      ultimately show "k ! ?r ! (z' * (sy * sx) + (y' * sx + x')) * v ! (z' * (sy * sx) + (y' * sx + x')) =
          cyclic_row sz z ! z' * (cyclic_row sy y ! y' * (cyclic_row sx x ! x' * v ! cell sx sy x' y' z'))"
        by (simp add: mult.assoc)
    qed
    also have "\<dots> = closed_sum v sx sy sz x y z"
      unfolding cyclic_sum [OF ge(1) xyz(1)] cyclic_sum [OF ge(2) xyz(2)] cyclic_sum [OF ge(3) xyz(3)] closed_sum_def ..
    finally have K: "(\<Sum>c<?n. k ! ?r ! c * v ! c) = closed_sum v sx sy sz x y z" .
    have "out ! ?r = (\<Sum>c<?n. (k ! ?r ! c - of_bool (?r = c)) * v ! c)" using out(3) r a(3) by simp
    also have "\<dots> = closed_sum v sx sy sz x y z - v ! ?r" unfolding sum_minus_identity [OF r] K ..
    finally show ?thesis .
  qed
  with mm out show ?thesis by (simp add: mult.assoc)
qed

text \<open>C6. For every periodic 3D shape within the dense limit, the matrix oracle and the scalar oracle give the
  same result on every field: the same support vector, or the same exception.\<close>

theorem moore_oracles_agree:
  assumes "validate_periodic_shape shape 3 = Inr (s, n)" "n \<le> MAX_DENSE_MATRIX_CELLS"
  shows "matrix_moore_support field shape = scalar_moore_support field shape"
proof (cases "validate_binary_field field shape 3")
  case (Inl e)
  then show ?thesis by (simp add: matrix_moore_support_def scalar_moore_support_def)
next
  case (Inr v)
  obtain sx sy sz where s: "shape = [int sx, int sy, int sz]" "3 \<le> sx" "3 \<le> sy" "3 \<le> sz" "n = int (sx * sy * sz)"
    by (rule validate_shape_3 [OF assms(1)])
  have v: "v = field" "length v = sz * sy * sx"
    using Inr assms(1) s(5) by (auto simp: validate_field_iff ac_simps simp flip: of_nat_mult)
  obtain a where a: "scalar_moore_support field shape = Inr a" "length a = sz * sy * sx"
      "\<forall>x < sx. \<forall>y < sy. \<forall>z < sz. a ! cell sx sy x y z = scalar_support_at v sx sy sz x y z"
    using scalar_support_nth [of field sx sy sz v] Inr v s(1) by auto
  obtain b where b: "matrix_moore_support field shape = Inr b" "length b = sz * sy * sx"
      "\<forall>x < sx. \<forall>y < sy. \<forall>z < sz. b ! cell sx sy x y z = closed_sum v sx sy sz x y z - v ! cell sx sy x y z"
    using moore_matrix_closed [of sx sy sz s v] s assms Inr v(2) by (auto simp: matrix_moore_support_def)
  have "b = a"
  proof (rule nth_equalityI)
    show "length b = length a" using a b by simp
    fix r
    assume "r < length b"
    then obtain x y z where "x < sx" "y < sy" "z < sz" "r = cell sx sy x y z"
      using cell_split [of r sz sy sx] b(2) by (auto simp: cell_def)
    then show "b ! r = a ! r" using a(3) b(3) scalar_closed by simp
  qed
  with a b show ?thesis by simp
qed

theorem moore_oracles_agree_witness:
  "matrix_moore_support (replicate 60 1) [3, 4, 5] = scalar_moore_support (replicate 60 1) [3, 4, 5]"
  by (rule moore_oracles_agree [where s = "[3, 4, 5]" and n = 60])
    (simp_all add: validate_periodic_shape_def checked_product_def checked_factor_def code_defs)



section \<open>Planar counts\<close>

lemma fold_pairs:
  "fold (\<lambda>x (a, b). (f x a, g x b)) xs (a, b) = (fold f xs a, fold g xs b)"
  by (induction xs arbitrary: a b) simp_all

lemma planar_loop:
  assumes "length a = m * n" "length b = m * n"
  shows "fold (\<lambda>y. fold (\<lambda>x (p, q). (p[y * n + x := f x y], q[y * n + x := g x y])) [0..<n]) [0..<m] (a, b) =
    (concat (map (\<lambda>y. map (\<lambda>x. f x y) [0..<n]) [0..<m]), concat (map (\<lambda>y. map (\<lambda>x. g x y) [0..<n]) [0..<m]))"
proof -
  have inner: "fold (\<lambda>x (p, q). (p[y * n + x := f x y], q[y * n + x := g x y])) [0..<n] =
      (\<lambda>(p, q). (fold (\<lambda>x p. p[y * n + x := f x y]) [0..<n] p, fold (\<lambda>x q. q[y * n + x := g x y]) [0..<n] q))" for y
    by (rule ext) (simp add: fold_pairs split: prod.splits)
  show ?thesis
    unfolding inner using assms fold_pairs [of "\<lambda>y. fold (\<lambda>x p. p[y * n + x := f x y]) [0..<n]" "\<lambda>y. fold (\<lambda>x q. q[y * n + x := g x y]) [0..<n]"]
      fold_plane [of 0 n m a f] fold_plane [of 0 n m b g] by simp
qed


definition planar_sum :: "int list \<Rightarrow> nat \<Rightarrow> nat \<Rightarrow> nat \<Rightarrow> nat \<Rightarrow> int" where
  "planar_sum v sx sy x y = (\<Sum>dy\<leftarrow>[-1, 0, 1]. \<Sum>dx\<leftarrow>[-1, 0, 1]. v ! (wrap sy y dy * sx + wrap sx x dx))"

lemma planar_closed: "planar_closed_at v sx sy x y = planar_sum v sx sy x y"
  by (simp add: planar_closed_at_def planar_sum_def)

lemma plane_cell: "x < sx \<Longrightarrow> y < sy \<Longrightarrow> y * sx + x < sy * sx" for x :: nat
  using neighbour_cells [of x sx y sy 0 1] by (simp add: cell_def)

lemma planar_matrices:
  assumes ge: "3 \<le> sx" "3 \<le> sy" and lim: "int (sx * sy) \<le> MAX_DENSE_MATRIX_CELLS"
    and val: "validate_periodic_shape [int sx, int sy] 2 = Inr (s, int (sx * sy))" and len: "length v = sy * sx"
  shows "\<exists>a8 a9 o8 o9. planar_matrices_2d [int sx, int sy] = Inr (a8, a9) \<and>
    matrix_vector_multiply a8 v = Inr o8 \<and> matrix_vector_multiply a9 v = Inr o9 \<and> length o8 = sy * sx \<and> length o9 = sy * sx \<and>
    (\<forall>x < sx. \<forall>y < sy. o9 ! (y * sx + x) = planar_sum v sx sy x y \<and>
       o8 ! (y * sx + x) = planar_sum v sx sy x y - v ! (y * sx + x))"
proof -
  let ?C = "\<lambda>n. map (cyclic_row n) [0..<n]" and ?n = "sy * sx"
  have "sx \<le> sx * sy" "sy \<le> sx * sy" using ge by simp_all
  then have "int sx \<le> int (sx * sy)" "int sy \<le> int (sx * sy)" by (simp_all only: of_nat_le_iff)
  then have small: "int sx \<le> MAX_REFERENCE_CELLS" "int sy \<le> MAX_REFERENCE_CELLS"
    using lim by (auto simp: code_defs)
  have C: "cyclic_closed_matrix (int n) = Inr (?C n)" "matrix_dims n n (?C n)" if "n \<in> {sx, sy}" for n
    using that ge small cyclic_row_nth(1) by (auto simp: cyclic_matrix matrix_dims_def)
  obtain p where p: "kronecker (?C sy) (?C sx) = Inr p" "matrix_dims ?n ?n p"
      "\<forall>i < sy. \<forall>i' < sx. \<forall>j < sy. \<forall>j' < sx. p ! (i * sx + i') ! (j * sx + j') = ?C sy ! i ! j * ?C sx ! i' ! j'"
    using kronecker_dims [OF C(2) [of sy] C(2) [of sx]] ge by auto
  obtain a where a: "subtract_identity p = Inr a" "matrix_dims ?n ?n a" "\<forall>i<?n. \<forall>j<?n. a ! i ! j = p ! i ! j - of_bool (i = j)"
    using subtract_identity_nth [OF p(2)] ge by auto
  have "s = [int sx, int sy]" by (rule validate_shape_2 [OF val]) simp
  then have mm: "planar_matrices_2d [int sx, int sy] = Inr (a, p)"
    using val lim C(1) p(1) a(1) by (simp add: planar_matrices_2d_def)
  obtain o8 where o8: "matrix_vector_multiply a v = Inr o8" "length o8 = ?n" "\<forall>i<?n. o8 ! i = (\<Sum>c<?n. a ! i ! c * v ! c)"
    using multiply_nth [OF a(2), of v] ge len by auto
  obtain o9 where o9: "matrix_vector_multiply p v = Inr o9" "length o9 = ?n" "\<forall>i<?n. o9 ! i = (\<Sum>c<?n. p ! i ! c * v ! c)"
    using multiply_nth [OF p(2), of v] ge len by auto
  have "o9 ! (y * sx + x) = planar_sum v sx sy x y \<and> o8 ! (y * sx + x) = planar_sum v sx sy x y - v ! (y * sx + x)"
    if xy: "x < sx" "y < sy" for x y
  proof -
    let ?r = "y * sx + x"
    have r: "?r < ?n" by (rule plane_cell [OF xy])
    have "(\<Sum>c<?n. p ! ?r ! c * v ! c) = (\<Sum>y' < sy. cyclic_row sy y ! y' * (\<Sum>x' < sx. cyclic_row sx x ! x' * v ! (y' * sx + x')))"
      unfolding sum_blocks sum_distrib_left using p(3) xy by (intro sum.cong refl) (simp add: mult.assoc)
    also have "\<dots> = planar_sum v sx sy x y"
      unfolding cyclic_sum [OF ge(1) xy(1)] cyclic_sum [OF ge(2) xy(2)] planar_sum_def ..
    finally have K: "(\<Sum>c<?n. p ! ?r ! c * v ! c) = planar_sum v sx sy x y" .
    have "o8 ! ?r = (\<Sum>c<?n. (p ! ?r ! c - of_bool (?r = c)) * v ! c)" using o8(3) r a(3) by simp
    also have "\<dots> = planar_sum v sx sy x y - v ! ?r" unfolding sum_minus_identity [OF r] K ..
    finally show ?thesis using o9(3) r K by simp
  qed
  with mm o8 o9 show ?thesis by auto
qed

text \<open>C17. For every periodic 2D shape within the dense limit, the matrix and the scalar planar oracles give the
  same open and closed counts on every defect field, or raise the same exception.\<close>

theorem planar_oracles_agree:
  assumes "validate_periodic_shape shape 2 = Inr (s, n)" "n \<le> MAX_DENSE_MATRIX_CELLS"
  shows "matrix_planar_counts defects shape = scalar_planar_counts defects shape"
proof (cases "validate_binary_field defects shape 2")
  case (Inl e)
  then show ?thesis by (simp add: matrix_planar_counts_def scalar_planar_counts_def)
next
  case (Inr v)
  obtain sx sy where s: "shape = [int sx, int sy]" "3 \<le> sx" "3 \<le> sy" "n = int (sx * sy)"
    by (rule validate_shape_2 [OF assms(1)])
  have v: "length v = sy * sx"
    using Inr assms(1) s(4) by (auto simp: validate_field_iff ac_simps simp flip: of_nat_mult)
  obtain a8 a9 o8 o9 where o: "planar_matrices_2d shape = Inr (a8, a9)" "matrix_vector_multiply a8 v = Inr o8"
      "matrix_vector_multiply a9 v = Inr o9" "length o8 = sy * sx" "length o9 = sy * sx"
      "\<forall>x < sx. \<forall>y < sy. o9 ! (y * sx + x) = planar_sum v sx sy x y \<and>
        o8 ! (y * sx + x) = planar_sum v sx sy x y - v ! (y * sx + x)"
    using planar_matrices [of sx sy s v] s assms v by auto
  let ?P = "\<lambda>h. concat (map (\<lambda>y. map (\<lambda>x. h x y) [0..<sx]) [0..<sy])"
  have plane: "o' = ?P h" if "length o' = sy * sx" "\<And>x y. x < sx \<Longrightarrow> y < sy \<Longrightarrow> o' ! (y * sx + x) = h x y" for h and o' :: "int list"
  proof (rule nth_equalityI)
    show "length o' = length (?P h)" using that(1) by (simp add: length_cell_blocks [where m = sx])
    fix r
    assume "r < length o'"
    then have "r < 1 * sy * sx" using that(1) by simp
    then obtain x y z where xy: "x < sx" "y < sy" "z < (1::nat)" "r = (z * sy + y) * sx + x" by (rule cell_split)
    then show "o' ! r = ?P h ! r" using that(2) [OF xy(1,2)] by (simp add: nth_blocks [where m = sx])
  qed
  have "scalar_planar_counts defects shape =
      Inr (?P (\<lambda>x y. planar_sum v sx sy x y - v ! (y * sx + x)), ?P (\<lambda>x y. planar_sum v sx sy x y))"
    using Inr s(1) v by (simp add: scalar_planar_counts_def Let_def planar_loop planar_closed)
  moreover have "matrix_planar_counts defects shape = Inr (o8, o9)" using Inr o by (simp add: matrix_planar_counts_def)
  ultimately show ?thesis using plane [OF o(4)] plane [OF o(5)] o(6) by simp
qed

theorem planar_oracles_agree_witness:
  "matrix_planar_counts (replicate 20 1) [4, 5] = scalar_planar_counts (replicate 20 1) [4, 5]"
  by (rule planar_oracles_agree [where s = "[4, 5]" and n = 20])
    (simp_all add: validate_periodic_shape_def checked_product_def checked_factor_def code_defs)



section \<open>Indices\<close>

lemma int_div_less:
  assumes "0 < c" "a < b * c"
  shows "a div c < (b::int)"
proof (rule ccontr)
  assume "\<not> a div c < b"
  then have "b * c \<le> a div c * c" using assms(1) by (intro mult_right_mono) simp_all
  also have "\<dots> \<le> a" using assms(1) by (simp add: minus_mod_eq_div_mult [symmetric])
  finally show False using assms(2) by simp
qed

lemma flat_index_3d_iff:
  "flat_index_3d [x, y, z] [sx, sy, sz] = Inr i \<longleftrightarrow>
     0 \<le> x \<and> x < sx \<and> 0 \<le> y \<and> y < sy \<and> 0 \<le> z \<and> z < sz \<and> i = (z * sy + y) * sx + x"
  by (auto simp: flat_index_3d_def validate_coord_def)

lemma unflatten_3d_eq:
  assumes "validate_periodic_shape [sx, sy, sz] 3 = Inr (s, n)"
  shows "unflatten_3d i [sx, sy, sz] =
    (if 0 \<le> i \<and> i < n then Inr [i mod (sx * sy) mod sx, i mod (sx * sy) div sx, i div (sx * sy)] else Inl pdc_shape_error)"
  using assms by (simp add: unflatten_3d_def Let_def)

text \<open>Flat indices and 3D coordinates of a valid periodic shape are in bijection: every cell index unflattens
  to a coordinate that flattens back to it, and every coordinate inside the shape flattens to a cell index that
  unflattens to it.\<close>

theorem flat_index_roundtrip:
  assumes "validate_periodic_shape shape 3 = Inr (s, n)"
  shows "(0 \<le> i \<and> i < n) = (\<exists>c. unflatten_3d i shape = Inr c) \<and>
    (unflatten_3d i shape = Inr c) = (flat_index_3d c shape = Inr i)"
proof -
  obtain a b d where sh: "shape = [int a, int b, int d]" and ge: "3 \<le> a" "3 \<le> b" "3 \<le> d" and n: "n = int (a * b * d)"
    by (rule validate_shape_3 [OF assms])
  let ?x = "int a" and ?y = "int b" and ?z = "int d"
  have pos: "0 < ?x" "0 < ?y" "0 < ?z" using ge by simp_all
  note un = unflatten_3d_eq [OF assms [unfolded sh], of i, folded sh]
  have fwd: "flat_index_3d c shape = Inr i" if "unflatten_3d i shape = Inr c"
  proof -
    have i: "0 \<le> i" "i < n" and c: "c = [i mod (?x * ?y) mod ?x, i mod (?x * ?y) div ?x, i div (?x * ?y)]"
      using that un by (auto split: if_splits)
    have "i mod (?x * ?y) < ?y * ?x" using pos by (simp add: mult.commute)
    then have "i mod (?x * ?y) div ?x < ?y" using pos by (intro int_div_less) simp_all
    moreover have "i div (?x * ?y) < ?z" using i(2) n pos by (intro int_div_less) (simp_all add: ac_simps)
    moreover have "(i div (?x * ?y) * ?y + i mod (?x * ?y) div ?x) * ?x + i mod (?x * ?y) mod ?x = i"
    proof -
      have "(i div (?x * ?y) * ?y + i mod (?x * ?y) div ?x) * ?x + i mod (?x * ?y) mod ?x =
          i div (?x * ?y) * (?x * ?y) + (i mod (?x * ?y) div ?x * ?x + i mod (?x * ?y) mod ?x)" by (simp add: algebra_simps)
      then show ?thesis by (simp only: div_mult_mod_eq)
    qed
    moreover have "0 \<le> i mod (?x * ?y) div ?x" "0 \<le> i div (?x * ?y)" using i(1) pos by (simp_all add: pos_imp_zdiv_nonneg_iff)
    ultimately show ?thesis unfolding c sh flat_index_3d_iff using pos by simp
  qed
  have bwd: "unflatten_3d i shape = Inr c" if f: "flat_index_3d c shape = Inr i"
  proof -
    have "length c = 3" using f by (cases "length c = 3") (simp_all add: flat_index_3d_def validate_coord_def sh)
    then obtain x y z where c: "c = [x, y, z]" by (auto simp: numeral_3_eq_3 length_Suc_conv)
    have xyz: "0 \<le> x" "x < ?x" "0 \<le> y" "y < ?y" "0 \<le> z" "z < ?z" and i: "i = (z * ?y + y) * ?x + x"
      using f by (simp_all add: c sh flat_index_3d_iff)
    have yx: "y * ?x + x < ?x * ?y" "0 \<le> y * ?x + x"
      using mult_right_mono [of "y + 1" ?y ?x] xyz pos by (simp_all add: algebra_simps)
    have i': "i = z * (?x * ?y) + (y * ?x + x)" by (simp add: i algebra_simps)
    have "i div (?x * ?y) = z" "i mod (?x * ?y) = y * ?x + x"
      unfolding i' using yx pos by (simp_all add: div_pos_pos_trivial)
    moreover have "(y * ?x + x) mod ?x = x" "(y * ?x + x) div ?x = y" using xyz by simp_all
    moreover have "i < n"
      using mult_right_mono [of "z + 1" ?z "?x * ?y"] xyz pos yx unfolding i' n by (simp add: algebra_simps)
    moreover have "0 \<le> i" unfolding i' using yx xyz(5) by simp
    ultimately show ?thesis by (simp add: un c)
  qed
  show ?thesis using fwd bwd un by auto
qed

theorem flat_index_roundtrip_witness: "\<exists>c. unflatten_3d 59 [3, 4, 5] = Inr c \<and> flat_index_3d c [3, 4, 5] = Inr 59"
proof -
  have v: "validate_periodic_shape [3, 4, 5] 3 = Inr ([3, 4, 5], 60)"
    by (simp add: validate_periodic_shape_def checked_product_def checked_factor_def code_defs)
  from flat_index_roundtrip [OF v, of 59] show ?thesis by auto
qed


section \<open>The site rule\<close>

lemma moore_offsets_26: "length moore_offsets = 26"
  by (simp add: moore_offsets_def)

lemma support_bound:
  assumes "list_all (\<lambda>b. b = 0 \<or> b = 1) v" "length v = sz * sy * sx" "x < sx" "y < sy" "z < sz"
  shows "0 \<le> scalar_support_at v sx sy sz x y z \<and> scalar_support_at v sx sy sz x y z \<le> 26"
proof -
  let ?f = "\<lambda>(dz, dy, dx). v ! ((wrap sz z dz * sy + wrap sy y dy) * sx + wrap sx x dx)"
  have pos: "0 < sx" "0 < sy" "0 < sz" using assms(3-5) by simp_all
  have f: "0 \<le> ?f d \<and> ?f d \<le> 1" for d
  proof -
    obtain dz dy dx where d: "d = (dz, dy, dx)" by (cases d)
    have "(wrap sz z dz * sy + wrap sy y dy) * sx + wrap sx x dx < length v"
      using neighbour_cells [OF wrap_less [OF pos(1)] wrap_less [OF pos(2)] wrap_less [OF pos(3)]] assms(2) by (simp add: cell_def)
    with assms(1) show ?thesis by (auto simp: d list_all_length)
  qed
  define g where "g = ?f"
  have "0 \<le> sum_list (map g ds) \<and> sum_list (map g ds) \<le> int (length ds)" for ds
  proof (induction ds)
    case (Cons d ds)
    then show ?case using f [of d, folded g_def] by simp
  qed simp
  from this [of moore_offsets] show ?thesis by (simp add: scalar_support_at_def moore_offsets_26 g_def)
qed


text \<open>C18. On a valid 3D field without a support argument the next state is computed for every cell, no exception is
  raised, and a cell is 1 afterwards exactly when it was 1 with 5 to 9 active Moore neighbours or 0 with 5 to 7.\<close>

theorem next_state_rule:
  assumes "validate_binary_field field [int sx, int sy, int sz] 3 = Inr v"
  shows "\<exists>out. binary_next_state field [int sx, int sy, int sz] None = Inr out \<and> length out = length v \<and>
    (\<forall>x < sx. \<forall>y < sy. \<forall>z < sz.
       let i = (z * sy + y) * sx + x; s = scalar_support_at v sx sy sz x y z in
       out ! i = of_bool (if v ! i = 1 then 5 \<le> s \<and> s \<le> 9 else 5 \<le> s \<and> s \<le> 7))"
proof -
  have v: "v = field" "list_all (\<lambda>b. b = 0 \<or> b = 1) v" "\<exists>s. validate_periodic_shape [int sx, int sy, int sz] 3 = Inr (s, int (length v))"
    using assms by (auto simp: validate_field_iff)
  then have len: "length v = sz * sy * sx" by (auto elim!: validate_shape_3 simp: ac_simps simp flip: of_nat_mult)
  obtain sup where sup: "scalar_moore_support field [int sx, int sy, int sz] = Inr sup" "length sup = length v"
      "\<forall>x < sx. \<forall>y < sy. \<forall>z < sz. sup ! cell sx sy x y z = scalar_support_at v sx sy sz x y z"
    using scalar_support_nth [OF assms len] len by auto
  have range: "0 \<le> sup ! r \<and> sup ! r \<le> 26" if r: "r < length v" for r
  proof -
    obtain x y z where "x < sx" "y < sy" "z < sz" "r = cell sx sy x y z"
      unfolding cell_def using r [unfolded len] by (rule cell_split)
    with support_bound [OF v(2) len] sup(3) show ?thesis by simp
  qed
  define m where "m = (\<lambda>(state, count). projr (measure_site (state, count)))"
  have site: "measure_site p = Inr (m p)" if "p \<in> set (zip v sup)" for p
    using that range sup(2) by (auto simp: set_zip m_def measure_site_def Let_def)
  have "measure_binary_field field [int sx, int sy, int sz] None = Inr (map m (zip v sup))"
    using assms sup(1,2) rmap_all_Inr [of "zip v sup" measure_site m] site v(1) by (simp add: measure_binary_field_def)
  then have out: "binary_next_state field [int sx, int sy, int sz] None = Inr (map (m_next_state \<circ> m) (zip v sup))"
    by (simp add: binary_next_state_def)
  have "m_next_state (m (v ! r, sup ! r)) = of_bool (if v ! r = 1 then 5 \<le> sup ! r \<and> sup ! r \<le> 9 else 5 \<le> sup ! r \<and> sup ! r \<le> 7)"
    if "r < length v" for r
    using range [OF that] by (simp add: m_def measure_site_def Let_def)
  note next_state = this
  let ?out = "map (m_next_state \<circ> m) (zip v sup)"
  have "?out ! cell sx sy x y z = of_bool (if v ! cell sx sy x y z = 1
      then 5 \<le> scalar_support_at v sx sy sz x y z \<and> scalar_support_at v sx sy sz x y z \<le> 9
      else 5 \<le> scalar_support_at v sx sy sz x y z \<and> scalar_support_at v sx sy sz x y z \<le> 7)"
    if xyz: "x < sx" "y < sy" "z < sz" for x y z
  proof -
    have r: "cell sx sy x y z < length v" using neighbour_cells [OF xyz] len by simp
    have "sup ! cell sx sy x y z = scalar_support_at v sx sy sz x y z" using sup(3) xyz by blast
    with next_state [OF r] r sup(2) show ?thesis by (simp only: nth_map nth_zip length_zip min.idem o_apply)
  qed
  with out sup(2) show ?thesis
    unfolding Let_def by (intro exI [of _ ?out] conjI allI impI) (simp_all only: cell_def length_map length_zip min.idem)
qed

theorem next_state_rule_witness:
  "\<exists>out. binary_next_state (replicate 27 1) [int 3, int 3, int 3] None = Inr out \<and> length out = 27"
proof -
  have "validate_binary_field (replicate 27 1) [int 3, int 3, int 3] 3 = Inr (replicate 27 1)"
    by (simp add: validate_binary_field_def validate_periodic_shape_def checked_product_def checked_factor_def code_defs
        list_ex_iff)
  from next_state_rule [OF this] show ?thesis by auto
qed

end
