(* ===== verification/Elf_Loader.thy ===== *)
theory Elf_Loader
  imports Prelude
begin

unbundle bit_operations_syntax

text \<open>
  PKELF1, the kernel image loader of \<open>src/runtime/native_elf_loader.py\<close>: \<open>inspect\<close> checks an
  ELF64 file against the one layout the kernel uses and plans its segments and mappings;
  \<open>load\<close> copies the segments into a buffer and applies the relative relocations.
  Numbers read from the file are unbounded \<open>int\<close>s as in the source, and \<open>checked_add\<close> is
  the source's own 64-bit overflow test.
\<close>

definition PAGE_SIZE :: int where [code_defs]: "PAGE_SIZE = 4096"
definition VIRTUAL_BASE_ALIGNMENT :: int where [code_defs]: "VIRTUAL_BASE_ALIGNMENT = 2 * 1024 * 1024"
definition ELF_MAX_FILE_BYTES :: nat where [code_defs]: "ELF_MAX_FILE_BYTES = 1024 * 1024"
definition MAX_IMAGE_BYTES :: int where [code_defs]: "MAX_IMAGE_BYTES = 64 * 1024 * 1024"
definition MIN_PHYSICAL_BASE :: int where [code_defs]: "MIN_PHYSICAL_BASE = 0x00100000"
definition MAX_PHYSICAL_EXCLUSIVE :: int where [code_defs]: "MAX_PHYSICAL_EXCLUSIVE = 2 ^ 52"
definition MIN_VIRTUAL_BASE :: int where [code_defs]: "MIN_VIRTUAL_BASE = 0xFFFFFFFF80000000"
definition MAX_VIRTUAL_EXCLUSIVE :: int where [code_defs]: "MAX_VIRTUAL_EXCLUSIVE = 0xFFFFFFFFC0000000"
definition PROGRAM_HEADER_COUNT :: nat where [code_defs]: "PROGRAM_HEADER_COUNT = 7"
definition LOAD_SEGMENT_COUNT :: nat where [code_defs]: "LOAD_SEGMENT_COUNT = 3"
definition MAX_RELOCATIONS :: int where [code_defs]: "MAX_RELOCATIONS = 4096"
definition ELF_HEADER_BYTES :: nat where [code_defs]: "ELF_HEADER_BYTES = 64"
definition PROGRAM_HEADER_BYTES :: nat where [code_defs]: "PROGRAM_HEADER_BYTES = 56"
definition DYNAMIC_BYTES :: int where [code_defs]: "DYNAMIC_BYTES = 64"
definition RELA_ENTRY_BYTES :: int where [code_defs]: "RELA_ENTRY_BYTES = 24"
definition PT_LOAD :: int where [code_defs]: "PT_LOAD = 1"
definition PT_DYNAMIC :: int where [code_defs]: "PT_DYNAMIC = 2"
definition PT_PHDR :: int where [code_defs]: "PT_PHDR = 6"
definition PT_GNU_STACK :: int where [code_defs]: "PT_GNU_STACK = 0x6474E551"
definition PT_GNU_RELRO :: int where [code_defs]: "PT_GNU_RELRO = 0x6474E552"
definition PF_X :: int where [code_defs]: "PF_X = 1"
definition PF_W :: int where [code_defs]: "PF_W = 2"
definition PF_R :: int where [code_defs]: "PF_R = 4"
definition DT_NULL :: int where [code_defs]: "DT_NULL = 0"
definition DT_RELA :: int where [code_defs]: "DT_RELA = 7"
definition DT_RELASZ :: int where [code_defs]: "DT_RELASZ = 8"
definition DT_RELAENT :: int where [code_defs]: "DT_RELAENT = 9"
definition R_X86_64_RELATIVE :: int where [code_defs]: "R_X86_64_RELATIVE = 8"

record program_header =
  ph_type :: int
  ph_flags :: int
  ph_offset :: int
  ph_vaddr :: int
  ph_paddr :: int
  ph_filesz :: int
  ph_memsz :: int
  ph_align :: int

record segment_plan =
  sp_file_offset :: int
  sp_virtual_offset :: int
  sp_file_size :: int
  sp_memory_size :: int
  sp_permissions :: string

record mapping_plan =
  mp_virtual_offset :: int
  mp_memory_size :: int
  mp_permissions :: string

record image_plan =
  ip_file_size :: int
  ip_image_size :: int
  ip_entry_offset :: int
  ip_entry_virtual :: int
  ip_entry_physical :: int
  ip_physical_base :: int
  ip_virtual_base :: int
  ip_relocation_count :: int
  ip_relro_offset :: int
  ip_relro_size :: int
  ip_segments :: "segment_plan list"
  ip_mappings :: "mapping_plan list"
  ip_relocation_address :: int

definition checked_add :: "int \<Rightarrow> int \<Rightarrow> string \<Rightarrow> int res" where
  "checked_add left right code =
     guarded [(left < 0 \<or> right < 0 \<or> left + right > 0xFFFFFFFFFFFFFFFF, code)] (Inr (left + right))"

text \<open>Both range tests catch the overflow error of \<open>checked_add\<close>.\<close>

definition range_contains :: "int \<Rightarrow> int \<Rightarrow> int \<Rightarrow> int \<Rightarrow> bool" where
  "range_contains start extent inner_start inner_size =
     (case checked_add start extent ''arithmetic_overflow'' of Inl _ \<Rightarrow> False
      | Inr outer_end \<Rightarrow> (case checked_add inner_start inner_size ''arithmetic_overflow'' of Inl _ \<Rightarrow> False
          | Inr inner_end \<Rightarrow> inner_start \<ge> start \<and> inner_end \<le> outer_end))"

definition range_overlaps :: "int \<Rightarrow> int \<Rightarrow> int \<Rightarrow> int \<Rightarrow> bool" where
  "range_overlaps left_start left_size right_start right_size =
     (case checked_add left_start left_size ''arithmetic_overflow'' of Inl _ \<Rightarrow> True
      | Inr left_end \<Rightarrow> (case checked_add right_start right_size ''arithmetic_overflow'' of Inl _ \<Rightarrow> True
          | Inr right_end \<Rightarrow> left_start < right_end \<and> right_start < left_end))"

text \<open>\<open>unpack_guard\<close> is the bounds test of \<open>struct.unpack_from\<close>, \<open>rds\<close> reads a signed 64-bit field.\<close>

definition unpack_guard :: "bytes \<Rightarrow> nat \<Rightarrow> nat \<Rightarrow> string \<Rightarrow> bool \<times> string" where
  "unpack_guard data offset n code = (offset + n > length data, code)"

definition rds :: "bytes \<Rightarrow> nat \<Rightarrow> int" where
  "rds data i = (let v = rd 8 data i in if v < 2 ^ 63 then v else v - 2 ^ 64)"

definition program_header_at :: "bytes \<Rightarrow> nat \<Rightarrow> program_header res" where
  "program_header_at data index =
     (let at = ELF_HEADER_BYTES + index * PROGRAM_HEADER_BYTES in
      guarded [unpack_guard data at 56 ''program_header_bounds'']
      (Inr \<lparr>ph_type = rd 4 data at, ph_flags = rd 4 data (at + 4), ph_offset = rd 8 data (at + 8),
         ph_vaddr = rd 8 data (at + 16), ph_paddr = rd 8 data (at + 24), ph_filesz = rd 8 data (at + 32),
         ph_memsz = rd 8 data (at + 40), ph_align = rd 8 data (at + 48)\<rparr>))"

definition elf_validate_header :: "bytes \<Rightarrow> (int \<times> program_header list) res" where
  "elf_validate_header data =
     guarded [
       (data = [], ''empty''),
       (length data < ELF_HEADER_BYTES, ''header_truncated''),
       (length data > ELF_MAX_FILE_BYTES, ''file_too_large''),
       (bslice data 0 4 \<noteq> [0x7F, 0x45, 0x4C, 0x46], ''magic''),
       (rd 1 data 4 \<noteq> 2, ''class''),
       (rd 1 data 5 \<noteq> 1, ''encoding''),
       (rd 1 data 6 \<noteq> 1, ''ident_version''),
       (rd 1 data 7 \<noteq> 0, ''osabi''),
       (rd 1 data 8 \<noteq> 0, ''abi_version''),
       (any_byte (bslice data 9 16), ''ident_padding''),
       unpack_guard data 16 48 ''header_truncated'',
       (rd 2 data 16 \<noteq> 3, ''file_type''),
       (rd 2 data 18 \<noteq> 62, ''machine''),
       (rd 4 data 20 \<noteq> 1, ''version''),
       (rd 8 data 32 \<noteq> int ELF_HEADER_BYTES, ''program_header_offset''),
       (rd 4 data 48 \<noteq> 0, ''header_flags''),
       (rd 2 data 52 \<noteq> int ELF_HEADER_BYTES, ''header_size''),
       (rd 2 data 54 \<noteq> int PROGRAM_HEADER_BYTES, ''program_header_size''),
       (rd 2 data 56 \<noteq> int PROGRAM_HEADER_COUNT, ''program_header_count''),
       (rd 8 data 40 \<noteq> 0 \<or> rd 2 data 60 \<noteq> 0 \<or> rd 2 data 62 \<noteq> 0 \<or> rd 2 data 58 \<notin> {0, 64}, ''section_table''),
       (ELF_HEADER_BYTES + PROGRAM_HEADER_BYTES * PROGRAM_HEADER_COUNT > length data, ''program_header_bounds'')]
     (rbind (rmap (program_header_at data) [0..<PROGRAM_HEADER_COUNT]) (\<lambda>headers.
      guarded [
        (list_ex (\<lambda>h. ph_type h \<notin> {PT_PHDR, PT_LOAD, PT_DYNAMIC, PT_GNU_RELRO, PT_GNU_STACK}) headers, ''unsupported_segment''),
        (map ph_type headers \<noteq> [PT_PHDR, PT_LOAD, PT_LOAD, PT_LOAD, PT_DYNAMIC, PT_GNU_RELRO, PT_GNU_STACK],
         ''program_header_order'')]
      (Inr (rd 8 data 24, headers))))"

definition validate_phdr :: "program_header \<Rightarrow> unit res" where
  "validate_phdr h =
     (let expected_size = int (PROGRAM_HEADER_BYTES * PROGRAM_HEADER_COUNT) in
      guarded [(ph_flags h \<noteq> PF_R \<or> ph_offset h \<noteq> int ELF_HEADER_BYTES \<or> ph_vaddr h \<noteq> int ELF_HEADER_BYTES \<or>
        ph_paddr h \<noteq> 0 \<or> ph_filesz h \<noteq> expected_size \<or> ph_memsz h \<noteq> expected_size \<or> ph_align h \<noteq> 8,
        ''phdr_segment'')] (Inr ()))"

definition validate_load :: "bytes \<Rightarrow> program_header \<times> int \<Rightarrow> unit \<Rightarrow> unit res" where
  "validate_load data = (\<lambda>(l, flags) _.
     guarded [
       (ph_flags l \<noteq> flags \<or> ph_flags l AND (PF_W OR PF_X) = (PF_W OR PF_X), ''load_flags''),
       (ph_align l \<noteq> PAGE_SIZE \<or> ph_offset l mod PAGE_SIZE \<noteq> 0 \<or> ph_vaddr l mod PAGE_SIZE \<noteq> 0 \<or> ph_offset l \<noteq> ph_vaddr l,
        ''load_alignment''),
       (ph_paddr l \<noteq> 0, ''load_address''),
       (ph_filesz l = 0 \<or> ph_memsz l = 0 \<or> ph_filesz l > ph_memsz l \<or> ph_memsz l mod PAGE_SIZE \<noteq> 0, ''segment_size'')]
     (rbind (checked_add (ph_offset l) (ph_filesz l) ''segment_bounds'') (\<lambda>file_end.
      rbind (checked_add (ph_vaddr l) (ph_memsz l) ''segment_bounds'') (\<lambda>memory_end.
      guarded [(file_end > int (length data) \<or> memory_end > MAX_IMAGE_BYTES, ''segment_bounds'')] (Inr ())))))"

definition validate_loads :: "bytes \<Rightarrow> program_header list \<Rightarrow> (program_header list \<times> int) res" where
  "validate_loads data headers =
     (let loads = take 3 (drop 1 headers); l0 = loads ! 0; l1 = loads ! 1; l2 = loads ! 2 in
      guarded [(length loads \<noteq> LOAD_SEGMENT_COUNT, ''load_count'')]
      (rbind (rfold (validate_load data) (zip loads [PF_R, PF_R OR PF_X, PF_R OR PF_W]) ()) (\<lambda>_.
       guarded [
         (ph_vaddr l0 \<noteq> 0 \<or> ph_offset l0 \<noteq> 0, ''segment_layout''),
         (ph_filesz l0 \<noteq> ph_memsz l0 \<or> ph_filesz l1 \<noteq> ph_memsz l1 \<or> ph_vaddr l0 + ph_memsz l0 \<noteq> ph_vaddr l1 \<or>
          ph_vaddr l1 + ph_memsz l1 \<noteq> ph_vaddr l2 \<or> ph_filesz l0 \<noteq> ph_offset l1 \<or>
          ph_offset l1 + ph_filesz l1 \<noteq> ph_offset l2, ''segment_layout''),
         (ph_filesz l0 < int (ELF_HEADER_BYTES + PROGRAM_HEADER_BYTES * PROGRAM_HEADER_COUNT), ''file_coverage''),
         (ph_offset l2 + ph_filesz l2 \<noteq> int (length data), ''file_coverage'')]
       (rbind (checked_add (ph_vaddr l2) (ph_memsz l2) ''segment_bounds'') (\<lambda>image_size.
        guarded [(ph_memsz l2 < PAGE_SIZE * 2 \<or> image_size > MAX_IMAGE_BYTES, ''segment_size'')]
        (Inr (loads, image_size)))))))"

definition validate_bases :: "int \<Rightarrow> int \<Rightarrow> int \<Rightarrow> unit res" where
  "validate_bases physical_base virtual_base image_size =
     guarded [(physical_base < MIN_PHYSICAL_BASE \<or> physical_base mod PAGE_SIZE \<noteq> 0, ''physical_base'')]
     (rbind (checked_add physical_base image_size ''physical_base'') (\<lambda>pend.
      guarded [
        (pend > MAX_PHYSICAL_EXCLUSIVE, ''physical_base''),
        (virtual_base < MIN_VIRTUAL_BASE \<or> virtual_base \<ge> MAX_VIRTUAL_EXCLUSIVE \<or>
         virtual_base mod VIRTUAL_BASE_ALIGNMENT \<noteq> 0, ''virtual_base'')]
      (rbind (checked_add virtual_base image_size ''virtual_base'') (\<lambda>vend.
       guarded [(vend > MAX_VIRTUAL_EXCLUSIVE, ''virtual_base'')] (Inr ())))))"

definition dynamic_entry :: "bytes \<Rightarrow> int \<Rightarrow> nat \<Rightarrow> (int \<times> int) res" where
  "dynamic_entry data offset index =
     (let at = nat offset + index * 16 in
      guarded [unpack_guard data at 16 ''dynamic_segment''] (Inr (rds data at, rd 8 data (at + 8))))"

definition validate_metadata :: "bytes \<Rightarrow> program_header \<Rightarrow> program_header \<Rightarrow> program_header \<Rightarrow> program_header \<Rightarrow>
    (int \<times> int \<times> int) res" where
  "validate_metadata data dynamic relro stack writable =
     guarded [
       (ph_flags relro \<noteq> PF_R \<or> ph_offset relro \<noteq> ph_offset writable \<or> ph_vaddr relro \<noteq> ph_vaddr writable \<or>
        ph_paddr relro \<noteq> 0 \<or> ph_filesz relro \<noteq> ph_memsz relro \<or> ph_memsz relro < PAGE_SIZE \<or>
        ph_memsz relro mod PAGE_SIZE \<noteq> 0 \<or> ph_align relro \<noteq> PAGE_SIZE \<or> ph_memsz relro \<ge> ph_memsz writable \<or>
        ph_memsz relro > ph_filesz writable, ''relro_segment''),
       (ph_flags stack \<noteq> (PF_R OR PF_W) \<or> ph_offset stack \<noteq> 0 \<or> ph_vaddr stack \<noteq> 0 \<or> ph_paddr stack \<noteq> 0 \<or>
        ph_filesz stack \<noteq> 0 \<or> ph_memsz stack \<noteq> 0 \<or> ph_align stack \<noteq> 16, ''stack_segment''),
       (ph_flags dynamic \<noteq> (PF_R OR PF_W) \<or> ph_offset dynamic \<noteq> ph_offset writable \<or>
        ph_vaddr dynamic \<noteq> ph_vaddr writable \<or> ph_paddr dynamic \<noteq> 0 \<or> ph_filesz dynamic \<noteq> DYNAMIC_BYTES \<or>
        ph_memsz dynamic \<noteq> DYNAMIC_BYTES \<or> ph_align dynamic \<noteq> 8 \<or>
        \<not> range_contains (ph_vaddr relro) (ph_memsz relro) (ph_vaddr dynamic) (ph_memsz dynamic), ''dynamic_segment'')]
     (rbind (rmap (dynamic_entry data (ph_offset dynamic)) [0..<4]) (\<lambda>entries.
      let relocation_address = snd (entries ! 0); relocation_size = snd (entries ! 1);
          relocation_count = relocation_size div RELA_ENTRY_BYTES
      in guarded [
        (map fst entries \<noteq> [DT_RELA, DT_RELASZ, DT_RELAENT, DT_NULL], ''dynamic_order''),
        (snd (entries ! 3) \<noteq> 0, ''dynamic_entry''),
        (snd (entries ! 2) \<noteq> RELA_ENTRY_BYTES, ''relocation_entry_size''),
        (relocation_size = 0 \<or> relocation_size mod RELA_ENTRY_BYTES \<noteq> 0, ''relocation_table''),
        (relocation_count = 0 \<or> relocation_count > MAX_RELOCATIONS, ''relocation_count''),
        (relocation_address mod 8 \<noteq> 0 \<or>
         range_overlaps (ph_vaddr dynamic) (ph_memsz dynamic) relocation_address relocation_size \<or>
         \<not> range_contains (ph_vaddr relro) (ph_memsz relro) relocation_address relocation_size \<or>
         \<not> range_contains (ph_vaddr writable) (ph_filesz writable) relocation_address relocation_size, ''relocation_table'')]
      (Inr (relocation_address, relocation_size, relocation_count))))"

text \<open>One round of the relocation loop; the state is the target of the round before.\<close>

definition rela_at :: "int \<Rightarrow> nat \<Rightarrow> nat" where
  "rela_at relocation_address index = nat relocation_address + index * nat RELA_ENTRY_BYTES"

definition validate_relocation :: "bytes \<Rightarrow> int \<Rightarrow> int \<Rightarrow> program_header \<Rightarrow> program_header \<Rightarrow> program_header list \<Rightarrow>
    int \<Rightarrow> int \<Rightarrow> int \<Rightarrow> nat \<Rightarrow> int option \<Rightarrow> int option res" where
  "validate_relocation data relocation_address relocation_size dynamic relro loads image_size virtual_base image_end index previous =
     (let record = rela_at relocation_address index; target = rd 8 data record; info = rd 8 data (record + 8);
          addend = rds data (record + 16)
      in guarded [
        unpack_guard data record 24 ''relocation_table'',
        (info AND 0xFFFFFFFF \<noteq> R_X86_64_RELATIVE, ''relocation_type''),
        (drop_bit 32 info \<noteq> 0, ''relocation_symbol''),
        (case previous of None \<Rightarrow> False | Some p \<Rightarrow> target \<le> p, ''relocation_order''),
        (target mod 8 \<noteq> 0 \<or> \<not> range_contains (ph_vaddr relro) (ph_memsz relro) target 8 \<or>
         range_overlaps (ph_vaddr dynamic) (ph_memsz dynamic) target 8 \<or>
         range_overlaps relocation_address relocation_size target 8, ''relocation_target''),
        (target + 8 > int (length data) \<or> any_byte (bslice data (nat target) (nat target + 8)), ''relocation_target''),
        (addend < 0 \<or> addend \<ge> image_size \<or>
         \<not> list_ex (\<lambda>l. range_contains (ph_vaddr l) (ph_memsz l) addend 1) loads, ''relocation_addend'')]
      (rbind (checked_add virtual_base addend ''relocation_value'') (\<lambda>value.
       guarded [(value < virtual_base \<or> value \<ge> image_end, ''relocation_value'')] (Inr (Some target)))))"

definition validate_relocations :: "bytes \<Rightarrow> int \<Rightarrow> int \<Rightarrow> int \<Rightarrow> program_header \<Rightarrow> program_header \<Rightarrow>
    program_header list \<Rightarrow> int \<Rightarrow> int \<Rightarrow> unit res" where
  "validate_relocations data relocation_address relocation_size relocation_count dynamic relro loads image_size virtual_base =
     rbind (checked_add virtual_base image_size ''relocation_value'') (\<lambda>image_end.
     rbind (rfold (validate_relocation data relocation_address relocation_size dynamic relro loads image_size virtual_base image_end)
         [0..<nat relocation_count] None) (\<lambda>_. Inr ()))"

definition segment_of :: "program_header \<times> string \<Rightarrow> segment_plan" where
  "segment_of = (\<lambda>(l, permissions). \<lparr>sp_file_offset = ph_offset l, sp_virtual_offset = ph_vaddr l,
     sp_file_size = ph_filesz l, sp_memory_size = ph_memsz l, sp_permissions = permissions\<rparr>)"

definition mapping_of :: "int \<Rightarrow> int \<Rightarrow> string \<Rightarrow> mapping_plan" where
  "mapping_of at n permissions = \<lparr>mp_virtual_offset = at, mp_memory_size = n, mp_permissions = permissions\<rparr>"

definition elf_inspect :: "bytes \<Rightarrow> int \<Rightarrow> int \<Rightarrow> image_plan res" where
  "elf_inspect data physical_base virtual_base =
     rbind (elf_validate_header data) (\<lambda>(entry, headers).
     rbind (validate_phdr (headers ! 0)) (\<lambda>_.
     rbind (validate_loads data headers) (\<lambda>(loads, image_size).
     rbind (validate_bases physical_base virtual_base image_size) (\<lambda>_.
     guarded [(\<not> range_contains (ph_vaddr (loads ! 1)) (ph_filesz (loads ! 1)) entry 1, ''entry_point'')]
     (rbind (validate_metadata data (headers ! 4) (headers ! 5) (headers ! 6) (loads ! 2)) (\<lambda>(address, size, count).
      rbind (validate_relocations data address size count (headers ! 4) (headers ! 5) loads image_size virtual_base) (\<lambda>_.
      let relro_end = ph_vaddr (headers ! 5) + ph_memsz (headers ! 5);
          writable_end = ph_vaddr (loads ! 2) + ph_memsz (loads ! 2)
      in Inr \<lparr>ip_file_size = int (length data), ip_image_size = image_size, ip_entry_offset = entry,
        ip_entry_virtual = virtual_base + entry, ip_entry_physical = physical_base + entry,
        ip_physical_base = physical_base, ip_virtual_base = virtual_base, ip_relocation_count = count,
        ip_relro_offset = ph_vaddr (headers ! 5), ip_relro_size = ph_memsz (headers ! 5),
        ip_segments = map segment_of (zip loads [''r'', ''rx'', ''rw'']),
        ip_mappings = [
          mapping_of (ph_vaddr (loads ! 0)) (ph_memsz (loads ! 0)) ''r'',
          mapping_of (ph_vaddr (loads ! 1)) (ph_memsz (loads ! 1)) ''rx'',
          mapping_of (ph_vaddr (headers ! 5)) (ph_memsz (headers ! 5)) ''r'',
          mapping_of relro_end (writable_end - relro_end) ''rw''],
        ip_relocation_address = address\<rparr>)))))))"

definition copy_segment :: "bytes \<Rightarrow> segment_plan \<Rightarrow> bytes \<Rightarrow> bytes" where
  "copy_segment data s destination =
     slice_assign destination (nat (sp_virtual_offset s)) (nat (sp_virtual_offset s + sp_file_size s))
       (bslice data (nat (sp_file_offset s)) (nat (sp_file_offset s + sp_file_size s)))"

definition apply_relocation :: "bytes \<Rightarrow> image_plan \<Rightarrow> nat \<Rightarrow> bytes \<Rightarrow> bytes res" where
  "apply_relocation data plan index destination =
     (let record = rela_at (ip_relocation_address plan) index in
      if record + 24 > length data then Inl StructError
      else pack_into destination (nat (rd 8 data record)) [(8, ip_virtual_base plan + rds data (record + 16))])"

definition elf_load :: "bytes \<Rightarrow> int \<Rightarrow> int \<Rightarrow> int option \<Rightarrow> (image_plan \<times> bytes) res" where
  "elf_load data physical_base virtual_base capacity =
     rbind (elf_inspect data physical_base virtual_base) (\<lambda>plan.
     let capacity = (case capacity of None \<Rightarrow> ip_image_size plan | Some c \<Rightarrow> c) in
     guarded [(capacity < ip_image_size plan, ''output_capacity'')]
     (let destination = slice_assign (replicate (nat capacity) 0xA5) 0 (nat (ip_image_size plan)) (zeros (nat (ip_image_size plan)));
          destination = fold (copy_segment data) (ip_segments plan) destination
      in rbind (rfold (apply_relocation data plan) [0..<nat (ip_relocation_count plan)] destination) (\<lambda>destination.
         Inr (plan, destination))))"

definition fnv1a64 :: "bytes \<Rightarrow> int" where
  "fnv1a64 data = fold (\<lambda>b v. ((v XOR uint b) * 0x00000100000001B3) AND 0xFFFFFFFFFFFFFFFF) data 0xCBF29CE484222325"


text \<open>
  The deterministic fixtures. An unknown profile raises \<open>KeyError\<close>; the \<open>AssertionError\<close> of a
  profile whose requested pages cannot hold its relocations is \<open>Fail\<close> with the source's text.
\<close>

definition write_program_header :: "nat \<Rightarrow> int list \<Rightarrow> bytes \<Rightarrow> bytes res" where
  "write_program_header index vs data =
     pack_into data (ELF_HEADER_BYTES + index * PROGRAM_HEADER_BYTES) (zip [4, 4, 8, 8, 8, 8, 8, 8] vs)"

definition fixture_profile :: "string \<Rightarrow> (int \<times> int option) res" where
  "fixture_profile name =
     (if name = ''minimal_relative_v1'' then Inr (2, Some 1)
      else if name = ''alternate_base_v1'' then Inr (32, Some 2)
      else if name = ''maximum_relocations_v1'' then Inr (MAX_RELOCATIONS, None)
      else Inl KeyError)"

definition fixture_headers :: "int \<Rightarrow> (nat \<times> int list) list" where
  "fixture_headers relro_size = [
     (0, [PT_PHDR, PF_R, 64, 64, 0, 392, 392, 8]),
     (1, [PT_LOAD, PF_R, 0, 0, 0, 0x1000, 0x1000, PAGE_SIZE]),
     (2, [PT_LOAD, PF_R OR PF_X, 0x1000, 0x1000, 0, 0x1000, 0x1000, PAGE_SIZE]),
     (3, [PT_LOAD, PF_R OR PF_W, 0x2000, 0x2000, 0, relro_size, relro_size + PAGE_SIZE, PAGE_SIZE]),
     (4, [PT_DYNAMIC, PF_R OR PF_W, 0x2000, 0x2000, 0, 64, 64, 8]),
     (5, [PT_GNU_RELRO, PF_R, 0x2000, 0x2000, 0, relro_size, relro_size, PAGE_SIZE]),
     (6, [PT_GNU_STACK, PF_R OR PF_W, 0, 0, 0, 0, 0, 16])]"

definition fixture_addend :: "int \<Rightarrow> int \<Rightarrow> int \<Rightarrow> int" where
  "fixture_addend relro_size image_size index =
     (let selector = index mod 4 in
      if selector = 0 then 0
      else if selector = 1 then 0x1000 + index mod 0x1000
      else if selector = 2 then 0x2000 + index mod relro_size
      else image_size - PAGE_SIZE + index mod PAGE_SIZE)"

definition fixture_relocation :: "int \<Rightarrow> int \<Rightarrow> int \<Rightarrow> int \<Rightarrow> nat \<Rightarrow> bytes \<Rightarrow> bytes res" where
  "fixture_relocation relocation_address target_start relro_size image_size index data =
     pack_into data (rela_at relocation_address index)
       [(8, target_start + int index * 8), (8, R_X86_64_RELATIVE), (8, fixture_addend relro_size image_size (int index))]"

definition fixture_bytes :: "int \<Rightarrow> int \<Rightarrow> bytes res" where
  "fixture_bytes relocation_count relro_size =
     (let relocation_address = 0x2040; relocation_size = relocation_count * RELA_ENTRY_BYTES;
          target_start = (relocation_address + relocation_size + 7) AND NOT 7;
          data = zeros (nat (0x2000 + relro_size));
          data = slice_assign data 0 16 ([0x7F, 0x45, 0x4C, 0x46, 2, 1, 1, 0, 0] @ zeros 7)
      in rbind (pack_into data 16 [(2, 3), (2, 62), (4, 1), (8, 0x1000), (8, int ELF_HEADER_BYTES), (8, 0), (4, 0),
           (2, int ELF_HEADER_BYTES), (2, int PROGRAM_HEADER_BYTES), (2, int PROGRAM_HEADER_COUNT), (2, 0), (2, 0), (2, 0)]) (\<lambda>data.
         rbind (rfold (\<lambda>(index, vs). write_program_header index vs) (fixture_headers relro_size) data) (\<lambda>data.
         let data = slice_assign data 0x1000 0x1010 ([0xFA, 0xF4, 0xEB, 0xFD, 0x50, 0x4B, 0x45, 0x4C, 0x46, 0x31] @ zeros 6) in
         rbind (rfold (\<lambda>(index, tag, v) data. pack_into data (0x2000 + index * 16) [(8, tag), (8, v)])
             [(0, DT_RELA, relocation_address), (1, DT_RELASZ, relocation_size), (2, DT_RELAENT, 24), (3, DT_NULL, 0)] data) (\<lambda>data.
         rfold (fixture_relocation relocation_address target_start relro_size (0x2000 + relro_size + PAGE_SIZE))
           [0..<nat relocation_count] data))))"

definition build_fixture :: "string \<Rightarrow> bytes res" where
  "build_fixture name =
     rbind (fixture_profile name) (\<lambda>(relocation_count, requested_relro_pages).
     let relocation_address = 0x2040; relocation_size = relocation_count * RELA_ENTRY_BYTES;
         target_start = (relocation_address + relocation_size + 7) AND NOT 7;
         target_end = target_start + relocation_count * 8;
         minimum_relro_size = target_end - 0x2000;
         computed_pages = (minimum_relro_size + PAGE_SIZE - 1) div PAGE_SIZE;
         relro_pages = (case requested_relro_pages of None \<Rightarrow> computed_pages | Some p \<Rightarrow> p)
     in guarded [(relro_pages < computed_pages, ''fixture profile cannot hold relocations'')]
        (fixture_bytes relocation_count (relro_pages * PAGE_SIZE)))"

end
