(* ===== verification/Elf_Loading.thy ===== *)
theory Elf_Loading
  imports Elf_Loader
begin

text \<open>
  What \<open>inspect\<close> guarantees of every plan it returns and what \<open>load\<close> writes for it.
\<close>

unbundle bit_operations_syntax

section \<open>Checked ranges\<close>

lemma checked_add_Inr_iff:
  "checked_add a b c = Inr v \<longleftrightarrow> 0 \<le> a \<and> 0 \<le> b \<and> a + b \<le> 0xFFFFFFFFFFFFFFFF \<and> v = a + b"
  by (auto simp: checked_add_def guarded_Inr_iff not_less)

lemma range_containsD:
  "range_contains s n i m \<Longrightarrow> s \<le> i \<and> i + m \<le> s + n \<and> 0 \<le> i \<and> 0 \<le> m \<and> 0 \<le> s \<and> 0 \<le> n"
  by (auto simp: range_contains_def checked_add_Inr_iff split: sum.splits)

section \<open>What an accepted image satisfies\<close>

lemma inspect_parts:
  assumes "elf_inspect data pb vb = Inr plan"
  obtains entry headers loads image_size address n count where
    "elf_validate_header data = Inr (entry, headers)" "validate_loads data headers = Inr (loads, image_size)"
    "validate_bases pb vb image_size = Inr ()"
    "range_contains (ph_vaddr (loads ! 1)) (ph_filesz (loads ! 1)) entry 1"
    "validate_metadata data (headers ! 4) (headers ! 5) (headers ! 6) (loads ! 2) = Inr (address, n, count)"
    "validate_relocations data address n count (headers ! 4) (headers ! 5) loads image_size vb = Inr ()"
    "ip_file_size plan = int (length data)" "ip_image_size plan = image_size" "ip_entry_offset plan = entry"
    "ip_entry_virtual plan = vb + entry" "ip_entry_physical plan = pb + entry"
    "ip_physical_base plan = pb" "ip_virtual_base plan = vb" "ip_relocation_count plan = count"
    "ip_relro_offset plan = ph_vaddr (headers ! 5)" "ip_relro_size plan = ph_memsz (headers ! 5)"
    "ip_segments plan = map segment_of (zip loads [''r'', ''rx'', ''rw''])"
    "ip_mappings plan = [
       mapping_of (ph_vaddr (loads ! 0)) (ph_memsz (loads ! 0)) ''r'',
       mapping_of (ph_vaddr (loads ! 1)) (ph_memsz (loads ! 1)) ''rx'',
       mapping_of (ph_vaddr (headers ! 5)) (ph_memsz (headers ! 5)) ''r'',
       mapping_of (ph_vaddr (headers ! 5) + ph_memsz (headers ! 5))
         (ph_vaddr (loads ! 2) + ph_memsz (loads ! 2) - (ph_vaddr (headers ! 5) + ph_memsz (headers ! 5))) ''rw'']"
    "ip_relocation_address plan = address"
  using assms unfolding elf_inspect_def
  by (simp add: rbind_Inr_iff guarded_Inr_iff Let_def split_beta image_plan.splits)
     (elim exE conjE, rule that, auto)

lemma validate_load_Inr:
  assumes "validate_load data (l, fl) () = Inr ()"
  shows "ph_flags l = fl" "ph_vaddr l mod PAGE_SIZE = 0" "ph_offset l = ph_vaddr l" "ph_memsz l mod PAGE_SIZE = 0"
    "ph_filesz l \<le> ph_memsz l" "0 \<le> ph_vaddr l" "0 < ph_filesz l" "ph_offset l + ph_filesz l \<le> int (length data)"
    "ph_vaddr l + ph_memsz l \<le> MAX_IMAGE_BYTES"
proof -
  have *: "0 \<le> ph_filesz l" "ph_filesz l \<noteq> 0"
    using assms by (auto simp: validate_load_def guarded_Inr_iff rbind_Inr_iff checked_add_Inr_iff)
  show "ph_flags l = fl" "ph_vaddr l mod PAGE_SIZE = 0" "ph_offset l = ph_vaddr l" "ph_memsz l mod PAGE_SIZE = 0"
    "ph_filesz l \<le> ph_memsz l" "0 \<le> ph_vaddr l" "ph_offset l + ph_filesz l \<le> int (length data)"
    "ph_vaddr l + ph_memsz l \<le> MAX_IMAGE_BYTES"
    using assms by (auto simp: validate_load_def guarded_Inr_iff rbind_Inr_iff checked_add_Inr_iff)
  show "0 < ph_filesz l" using * by simp
qed

lemma validate_loads_Inr:
  assumes "validate_loads data headers = Inr (loads, image_size)"
  obtains l0 l1 l2 where "loads = [l0, l1, l2]"
    "ph_vaddr l0 = 0" "ph_offset l0 = 0" "ph_filesz l0 = ph_memsz l0" "ph_filesz l1 = ph_memsz l1"
    "ph_vaddr l1 = ph_memsz l0" "ph_vaddr l2 = ph_memsz l0 + ph_memsz l1" "ph_offset l1 = ph_vaddr l1" "ph_offset l2 = ph_vaddr l2"
    "0 < ph_memsz l0" "0 < ph_memsz l1" "0 < ph_filesz l2" "ph_filesz l2 \<le> ph_memsz l2"
    "ph_memsz l0 mod PAGE_SIZE = 0" "ph_memsz l1 mod PAGE_SIZE = 0" "ph_memsz l2 mod PAGE_SIZE = 0"
    "int (length data) = ph_vaddr l2 + ph_filesz l2" "image_size = ph_vaddr l2 + ph_memsz l2" "image_size \<le> MAX_IMAGE_BYTES"
proof -
  have len: "length loads = 3" and loads: "loads = take 3 (drop 1 headers)"
    using assms by (auto simp: validate_loads_def Let_def guarded_Inr_iff rbind_Inr_iff LOAD_SEGMENT_COUNT_def)
  from len obtain l0 l1 l2 where ls: "loads = [l0, l1, l2]" by (auto simp: numeral_3_eq_3 length_Suc_conv)
  have fold: "rfold (validate_load data) (zip loads [PF_R, PF_R OR PF_X, PF_R OR PF_W]) () = Inr ()"
    using assms by (auto simp: validate_loads_def Let_def guarded_Inr_iff rbind_Inr_iff loads)
  then have v: "validate_load data (l0, PF_R) () = Inr ()" "validate_load data (l1, PF_R OR PF_X) () = Inr ()"
     "validate_load data (l2, PF_R OR PF_W) () = Inr ()"
    by (simp_all only: rfold_unit_iff ls zip_Cons_Cons zip_Nil list.set ball_simps)
  have lay: "ph_vaddr l0 = 0" "ph_offset l0 = 0" "ph_filesz l0 = ph_memsz l0" "ph_filesz l1 = ph_memsz l1"
    "ph_vaddr l0 + ph_memsz l0 = ph_vaddr l1" "ph_vaddr l1 + ph_memsz l1 = ph_vaddr l2"
    "ph_offset l2 + ph_filesz l2 = int (length data)" "image_size = ph_vaddr l2 + ph_memsz l2" "image_size \<le> MAX_IMAGE_BYTES"
    using assms unfolding validate_loads_def Let_def loads [symmetric] ls
    by (simp_all add: guarded_Inr_iff rbind_Inr_iff checked_add_Inr_iff del: rfold.simps)
  note u = validate_load_Inr [OF v(1)] validate_load_Inr [OF v(2)] validate_load_Inr [OF v(3)]
  show thesis
    by (rule that [OF ls]) (insert lay u, (assumption | linarith)+)
qed

lemma validate_metadata_Inr:
  assumes "validate_metadata data dyn relro stack writable = Inr (address, n, count)"
  shows "ph_vaddr relro = ph_vaddr writable" "0 < ph_memsz relro" "ph_memsz relro mod PAGE_SIZE = 0"
    "ph_memsz relro < ph_memsz writable" "ph_memsz relro \<le> ph_filesz writable"
    "0 < count" "count \<le> MAX_RELOCATIONS" "0 \<le> address"
proof -
  have n: "0 \<le> n \<and> 0 \<le> address" "n \<noteq> 0 \<and> count = n div RELA_ENTRY_BYTES \<and> n mod RELA_ENTRY_BYTES = 0 \<and> count \<le> MAX_RELOCATIONS \<and> count \<noteq> 0"
    using assms unfolding validate_metadata_def
    by (auto simp: guarded_Inr_iff rbind_Inr_iff Let_def dest: range_containsD)
  have m: "PAGE_SIZE \<le> ph_memsz relro"
    and r: "ph_vaddr relro = ph_vaddr writable" "ph_memsz relro mod PAGE_SIZE = 0"
    "ph_memsz relro < ph_memsz writable" "ph_memsz relro \<le> ph_filesz writable"
    using assms unfolding validate_metadata_def by (auto simp: guarded_Inr_iff)
  show "ph_vaddr relro = ph_vaddr writable" "ph_memsz relro mod PAGE_SIZE = 0"
    "ph_memsz relro < ph_memsz writable" "ph_memsz relro \<le> ph_filesz writable" by (fact r)+
  show "0 < ph_memsz relro" using m by (simp add: PAGE_SIZE_def)
  have "0 \<le> count" using n by (simp add: RELA_ENTRY_BYTES_def pos_imp_zdiv_nonneg_iff)
  with n show "0 < count" "count \<le> MAX_RELOCATIONS" "0 \<le> address" by simp_all
qed

text \<open>The relocations of a table: the target and the addend of the entry at an index.\<close>

abbreviation (input) reloc_target :: "bytes \<Rightarrow> int \<Rightarrow> nat \<Rightarrow> int" where
  "reloc_target data address k \<equiv> rd 8 data (rela_at address k)"

abbreviation (input) reloc_addend :: "bytes \<Rightarrow> int \<Rightarrow> nat \<Rightarrow> int" where
  "reloc_addend data address k \<equiv> rds data (rela_at address k + 16)"

lemma validate_relocation_Inr:
  assumes "validate_relocation data address n dyn relro loads image_size vb image_end k prev = Inr r"
  shows "r = Some (reloc_target data address k)" "rela_at address k + 24 \<le> length data"
    "case prev of None \<Rightarrow> True | Some p \<Rightarrow> p < reloc_target data address k"
    "reloc_target data address k mod 8 = 0"
    "range_contains (ph_vaddr relro) (ph_memsz relro) (reloc_target data address k) 8"
    "reloc_target data address k + 8 \<le> int (length data)"
    "0 \<le> reloc_addend data address k" "reloc_addend data address k < image_size"
    "vb + reloc_addend data address k < image_end" "0 \<le> vb"
  using assms unfolding validate_relocation_def Let_def unpack_guard_def
  by (auto simp: guarded_Inr_iff rbind_Inr_iff checked_add_Inr_iff not_le not_less split: option.splits)

definition reloc_ok :: "bytes \<Rightarrow> int \<Rightarrow> int \<Rightarrow> int \<Rightarrow> int \<Rightarrow> nat \<Rightarrow> bool" where
  "reloc_ok data address relro_start relro_size image_size k \<longleftrightarrow>
     (let t = reloc_target data address k; a = reloc_addend data address k in
      rela_at address k + 24 \<le> length data \<and> t mod 8 = 0 \<and> relro_start \<le> t \<and> t + 8 \<le> relro_start + relro_size \<and>
      t + 8 \<le> int (length data) \<and> 0 \<le> a \<and> a < image_size)"

lemma validate_relocations_Inr:
  assumes "validate_relocations data address n count dyn relro loads image_size vb = Inr ()"
  shows "k < nat count \<Longrightarrow> reloc_ok data address (ph_vaddr relro) (ph_memsz relro) image_size k"
    "j < k \<Longrightarrow> k < nat count \<Longrightarrow> reloc_target data address j < reloc_target data address k"
proof -
  let ?t = "reloc_target data address"
  let ?ok = "reloc_ok data address (ph_vaddr relro) (ph_memsz relro) image_size"
  let ?P = "\<lambda>m p. (\<forall>k < m. ?ok k) \<and> (\<forall>k < m. \<forall>j < k. ?t j < ?t k) \<and> p = (if m = 0 then None else Some (?t (m - 1)))"
  obtain r where r: "rfold (validate_relocation data address n dyn relro loads image_size vb (vb + image_size))
      [0..<nat count] None = Inr r"
    using assms by (auto simp: validate_relocations_def rbind_Inr_iff checked_add_Inr_iff)
  have "?P (nat count) r"
  proof (rule rfold_upt_inv [OF _ r])
    fix i s s'
    assume P: "?P i s" and step: "validate_relocation data address n dyn relro loads image_size vb (vb + image_size) i s = Inr s'"
    note v = validate_relocation_Inr [OF step]
    have ok: "?ok i" using v range_containsD [OF v(5)] by (simp add: reloc_ok_def Let_def)
    have "?t j < ?t i" if "j < i" for j
    proof -
      have "?t (i - 1) < ?t i" using v(3) P that by simp
      moreover have "?t j \<le> ?t (i - 1)" using P that by (cases "j = i - 1") (auto intro: less_imp_le)
      ultimately show ?thesis by simp
    qed
    then show "?P (Suc i) s'" using P ok v(1) by (simp add: less_Suc_eq)
  qed simp_all
  then show "k < nat count \<Longrightarrow> ?ok k" "j < k \<Longrightarrow> k < nat count \<Longrightarrow> ?t j < ?t k" by blast+
qed


section \<open>Copying and relocating\<close>

lemma copy_prefix:
  assumes "i \<le> j" "j \<le> length data" "length data \<le> length z"
  shows "slice_assign (take i data @ drop i z) i j (bslice data i j) = take j data @ drop j z"
proof -
  have "take i (take i data @ drop i z) = take i data" using assms by simp
  moreover have "drop (max i j) (take i data @ drop i z) = drop j z" using assms by (simp add: max_absorb2)
  moreover have "take i data @ bslice data i j = take j data"
    using assms by (simp add: bslice_def take_add [symmetric])
  ultimately show ?thesis unfolding slice_assign_def by (simp only: append_assoc [symmetric])
qed

text \<open>The image the loader builds, byte by byte.\<close>

definition image_relocs :: "bytes \<Rightarrow> image_plan \<Rightarrow> nat \<Rightarrow> (nat \<times> int) list" where
  "image_relocs data plan n = map (\<lambda>k. (nat (rd 8 data (rela_at (ip_relocation_address plan) k)),
     ip_virtual_base plan + rds data (rela_at (ip_relocation_address plan) k + 16))) [0..<n]"

definition image_byte :: "bytes \<Rightarrow> image_plan \<Rightarrow> nat \<Rightarrow> nat \<Rightarrow> byte" where
  "image_byte data plan n i =
     (case find (\<lambda>(t, v). t \<le> i \<and> i < t + 8) (image_relocs data plan n) of
        Some (t, v) \<Rightarrow> le_bytes 8 v ! (i - t)
      | None \<Rightarrow> if i < length data then data ! i else if i < nat (ip_image_size plan) then 0 else 0xA5)"

definition loaded_image :: "bytes \<Rightarrow> image_plan \<Rightarrow> nat \<Rightarrow> bytes" where
  "loaded_image data plan capacity = map (image_byte data plan (nat (ip_relocation_count plan))) [0..<capacity]"

lemma find_snoc: "find P (xs @ [x]) = (case find P xs of None \<Rightarrow> (if P x then Some x else None) | Some y \<Rightarrow> Some y)"
  by (induction xs) auto

lemma nth_put: "i + length bs \<le> length d \<Longrightarrow> j < length d \<Longrightarrow>
    put d i bs ! j = (if i \<le> j \<and> j < i + length bs then bs ! (j - i) else d ! j)"
  by (auto simp: put_def nth_append min_def)

lemma disjoint_targets:
  assumes "a mod 8 = 0" "b mod 8 = 0" "a < (b::int)"
  shows "a + 8 \<le> b"
  using assms by presburger

lemma inspect_relocations:
  assumes "elf_inspect data pb vb = Inr plan" "k < nat (ip_relocation_count plan)"
  shows "reloc_ok data (ip_relocation_address plan) (ip_relro_offset plan) (ip_relro_size plan) (ip_image_size plan) k"
    "j < k \<Longrightarrow> reloc_target data (ip_relocation_address plan) j + 8 \<le> reloc_target data (ip_relocation_address plan) k"
proof -
  have ok: "reloc_ok data (ip_relocation_address plan) (ip_relro_offset plan) (ip_relro_size plan) (ip_image_size plan) k"
    if "k < nat (ip_relocation_count plan)" for k
    by (rule inspect_parts [OF assms(1)]) (use that validate_relocations_Inr(1) in simp)
  from ok [OF assms(2)] show "reloc_ok data (ip_relocation_address plan) (ip_relro_offset plan) (ip_relro_size plan)
      (ip_image_size plan) k" .
  assume j: "j < k"
  have "reloc_target data (ip_relocation_address plan) j < reloc_target data (ip_relocation_address plan) k"
    by (rule inspect_parts [OF assms(1)]) (use assms(2) j validate_relocations_Inr(2) in simp)
  then show "reloc_target data (ip_relocation_address plan) j + 8 \<le> reloc_target data (ip_relocation_address plan) k"
    using disjoint_targets ok [OF assms(2)] ok [of j] j assms(2) by (simp add: reloc_ok_def Let_def)
qed

text \<open>The sizes of the four mappings of an accepted image.\<close>

lemma inspect_layout:
  assumes "elf_inspect data pb vb = Inr plan"
  obtains a b c d where "0 < a" "0 < b" "0 < c" "0 < d"
    "a mod PAGE_SIZE = 0" "b mod PAGE_SIZE = 0" "c mod PAGE_SIZE = 0" "d mod PAGE_SIZE = 0"
    "ip_mappings plan = [mapping_of 0 a ''r'', mapping_of a b ''rx'', mapping_of (a + b) c ''r'', mapping_of (a + b + c) d ''rw'']"
    "ip_segments plan = [
       \<lparr>sp_file_offset = 0, sp_virtual_offset = 0, sp_file_size = a, sp_memory_size = a, sp_permissions = ''r''\<rparr>,
       \<lparr>sp_file_offset = a, sp_virtual_offset = a, sp_file_size = b, sp_memory_size = b, sp_permissions = ''rx''\<rparr>,
       \<lparr>sp_file_offset = a + b, sp_virtual_offset = a + b, sp_file_size = int (length data) - (a + b),
         sp_memory_size = c + d, sp_permissions = ''rw''\<rparr>]"
    "ip_image_size plan = a + b + c + d" "ip_image_size plan \<le> MAX_IMAGE_BYTES"
    "a + b + c \<le> int (length data)" "int (length data) \<le> a + b + c + d"
    "ip_relro_offset plan = a + b" "ip_relro_size plan = c" "a \<le> ip_entry_offset plan" "ip_entry_offset plan < a + b"
proof -
  obtain entry headers loads image_size address n count where
    ls: "validate_loads data headers = Inr (loads, image_size)"
    and e: "range_contains (ph_vaddr (loads ! 1)) (ph_filesz (loads ! 1)) entry 1"
    and m: "validate_metadata data (headers ! 4) (headers ! 5) (headers ! 6) (loads ! 2) = Inr (address, n, count)"
    and p: "ip_image_size plan = image_size" "ip_entry_offset plan = entry"
    "ip_relro_offset plan = ph_vaddr (headers ! 5)" "ip_relro_size plan = ph_memsz (headers ! 5)"
    "ip_segments plan = map segment_of (zip loads [''r'', ''rx'', ''rw''])"
    "ip_mappings plan = [
       mapping_of (ph_vaddr (loads ! 0)) (ph_memsz (loads ! 0)) ''r'',
       mapping_of (ph_vaddr (loads ! 1)) (ph_memsz (loads ! 1)) ''rx'',
       mapping_of (ph_vaddr (headers ! 5)) (ph_memsz (headers ! 5)) ''r'',
       mapping_of (ph_vaddr (headers ! 5) + ph_memsz (headers ! 5))
         (ph_vaddr (loads ! 2) + ph_memsz (loads ! 2) - (ph_vaddr (headers ! 5) + ph_memsz (headers ! 5))) ''rw'']"
    by (rule inspect_parts [OF assms])
  from ls show thesis
  proof (rule validate_loads_Inr)
    fix l0 l1 l2
    assume l: "loads = [l0, l1, l2]"
      "ph_vaddr l0 = 0" "ph_offset l0 = 0" "ph_filesz l0 = ph_memsz l0" "ph_filesz l1 = ph_memsz l1"
      "ph_vaddr l1 = ph_memsz l0" "ph_vaddr l2 = ph_memsz l0 + ph_memsz l1" "ph_offset l1 = ph_vaddr l1" "ph_offset l2 = ph_vaddr l2"
      "0 < ph_memsz l0" "0 < ph_memsz l1" "0 < ph_filesz l2" "ph_filesz l2 \<le> ph_memsz l2"
      "ph_memsz l0 mod PAGE_SIZE = 0" "ph_memsz l1 mod PAGE_SIZE = 0" "ph_memsz l2 mod PAGE_SIZE = 0"
      "int (length data) = ph_vaddr l2 + ph_filesz l2" "image_size = ph_vaddr l2 + ph_memsz l2" "image_size \<le> MAX_IMAGE_BYTES"
    have r: "(ph_memsz l2 - ph_memsz (headers ! 5)) mod PAGE_SIZE = 0"
      using validate_metadata_Inr(3) [OF m] l(16) mod_diff_eq [of "ph_memsz l2" PAGE_SIZE "ph_memsz (headers ! 5)"] by simp
    note m' = validate_metadata_Inr [OF m] and e' = range_containsD [OF e]
    have nths: "loads ! 0 = l0" "loads ! 1 = l1" "loads ! 2 = l2" by (simp_all add: l(1))
    note m' = validate_metadata_Inr [OF m, unfolded nths] and e' = range_containsD [OF e, unfolded nths]
    show thesis
    proof (rule that [of "ph_memsz l0" "ph_memsz l1" "ph_memsz (headers ! 5)" "ph_memsz l2 - ph_memsz (headers ! 5)"])
      show "ip_mappings plan = [mapping_of 0 (ph_memsz l0) ''r'', mapping_of (ph_memsz l0) (ph_memsz l1) ''rx'',
        mapping_of (ph_memsz l0 + ph_memsz l1) (ph_memsz (headers ! 5)) ''r'',
        mapping_of (ph_memsz l0 + ph_memsz l1 + ph_memsz (headers ! 5)) (ph_memsz l2 - ph_memsz (headers ! 5)) ''rw'']"
        by (simp only: p(6) nths l(2,6,7) m'(1)) simp
      show "ip_segments plan = [
        \<lparr>sp_file_offset = 0, sp_virtual_offset = 0, sp_file_size = ph_memsz l0, sp_memory_size = ph_memsz l0, sp_permissions = ''r''\<rparr>,
        \<lparr>sp_file_offset = ph_memsz l0, sp_virtual_offset = ph_memsz l0, sp_file_size = ph_memsz l1,
          sp_memory_size = ph_memsz l1, sp_permissions = ''rx''\<rparr>,
        \<lparr>sp_file_offset = ph_memsz l0 + ph_memsz l1, sp_virtual_offset = ph_memsz l0 + ph_memsz l1,
          sp_file_size = int (length data) - (ph_memsz l0 + ph_memsz l1),
          sp_memory_size = ph_memsz (headers ! 5) + (ph_memsz l2 - ph_memsz (headers ! 5)), sp_permissions = ''rw''\<rparr>]"
        by (simp add: p(5) l(1-9,17) segment_of_def)
    qed (use p(1-4) l(2-19) m'(1-5) e' r in \<open>linarith | simp\<close>)+
  qed
qed

lemma copied_image:
  assumes "elf_inspect data pb vb = Inr plan" "ip_image_size plan \<le> int cap"
  shows "fold (copy_segment data) (ip_segments plan)
      (slice_assign (replicate cap 0xA5) 0 (nat (ip_image_size plan)) (zeros (nat (ip_image_size plan)))) =
    map (image_byte data plan 0) [0..<cap]"
proof -
  define z where "z = slice_assign (replicate cap 0xA5) 0 (nat (ip_image_size plan)) (zeros (nat (ip_image_size plan)))"
  have z: "z = zeros (nat (ip_image_size plan)) @ replicate (cap - nat (ip_image_size plan)) 0xA5"
    by (simp add: z_def slice_assign_def)
  from assms(1) show ?thesis
  proof (rule inspect_layout)
    fix a b c d
    assume l: "0 < a" "0 < b" "0 < c" "0 < d"
     "ip_segments plan = [
       \<lparr>sp_file_offset = 0, sp_virtual_offset = 0, sp_file_size = a, sp_memory_size = a, sp_permissions = ''r''\<rparr>,
       \<lparr>sp_file_offset = a, sp_virtual_offset = a, sp_file_size = b, sp_memory_size = b, sp_permissions = ''rx''\<rparr>,
       \<lparr>sp_file_offset = a + b, sp_virtual_offset = a + b, sp_file_size = int (length data) - (a + b),
         sp_memory_size = c + d, sp_permissions = ''rw''\<rparr>]"
     "ip_image_size plan = a + b + c + d" "a + b + c \<le> int (length data)" "int (length data) \<le> a + b + c + d"
    have len: "length data \<le> length z" "length data \<le> nat (ip_image_size plan)" "length z = cap"
      using l assms(2) by (simp_all add: z)
    have c1: "slice_assign z 0 (nat a) (bslice data 0 (nat a)) = take (nat a) data @ drop (nat a) z"
      using copy_prefix [of 0 "nat a" data z] len l by simp
    have c2: "slice_assign (take (nat a) data @ drop (nat a) z) (nat a) (nat (a + b)) (bslice data (nat a) (nat (a + b))) =
        take (nat (a + b)) data @ drop (nat (a + b)) z"
      using copy_prefix [of "nat a" "nat (a + b)" data z] len l by simp
    have c3: "slice_assign (take (nat (a + b)) data @ drop (nat (a + b)) z) (nat (a + b)) (length data)
        (bslice data (nat (a + b)) (length data)) = data @ drop (length data) z"
      using copy_prefix [of "nat (a + b)" "length data" data z] len l by simp
    have "fold (copy_segment data) (ip_segments plan) z = data @ drop (length data) z"
      using c1 c2 c3 by (simp add: l(5) copy_segment_def)
    also have "\<dots> = map (image_byte data plan 0) [0..<cap]"
      by (rule nth_equalityI)
        (use len in \<open>auto simp: nth_append image_byte_def image_relocs_def z zeros_def\<close>)
    finally show ?thesis by (simp add: z_def)
  qed
qed


lemma inspect_bases:
  assumes "elf_inspect data pb vb = Inr plan"
  shows "ip_virtual_base plan = vb" "ip_physical_base plan = pb" "ip_file_size plan = int (length data)"
    "ip_entry_virtual plan = vb + ip_entry_offset plan" "ip_entry_physical plan = pb + ip_entry_offset plan"
    "MIN_PHYSICAL_BASE \<le> pb" "pb mod PAGE_SIZE = 0" "pb + ip_image_size plan \<le> MAX_PHYSICAL_EXCLUSIVE"
    "MIN_VIRTUAL_BASE \<le> vb" "vb mod VIRTUAL_BASE_ALIGNMENT = 0" "vb + ip_image_size plan \<le> MAX_VIRTUAL_EXCLUSIVE"
    "0 < ip_relocation_count plan" "ip_relocation_count plan \<le> MAX_RELOCATIONS"
proof -
  obtain headers loads address n count where
    b: "validate_bases pb vb (ip_image_size plan) = Inr ()"
    and m: "validate_metadata data (headers ! 4) (headers ! 5) (headers ! 6) (loads ! 2) = Inr (address, n, count)"
    and p: "ip_virtual_base plan = vb" "ip_physical_base plan = pb" "ip_file_size plan = int (length data)"
      "ip_entry_virtual plan = vb + ip_entry_offset plan" "ip_entry_physical plan = pb + ip_entry_offset plan"
      "ip_relocation_count plan = count"
    by (rule inspect_parts [OF assms]) simp
  show "ip_virtual_base plan = vb" "ip_physical_base plan = pb" "ip_file_size plan = int (length data)"
      "ip_entry_virtual plan = vb + ip_entry_offset plan" "ip_entry_physical plan = pb + ip_entry_offset plan" by (fact p)+
  show "MIN_PHYSICAL_BASE \<le> pb" "pb mod PAGE_SIZE = 0" "pb + ip_image_size plan \<le> MAX_PHYSICAL_EXCLUSIVE"
    "MIN_VIRTUAL_BASE \<le> vb" "vb mod VIRTUAL_BASE_ALIGNMENT = 0" "vb + ip_image_size plan \<le> MAX_VIRTUAL_EXCLUSIVE"
    using b by (auto simp: validate_bases_def guarded_Inr_iff rbind_Inr_iff checked_add_Inr_iff)
  show "0 < ip_relocation_count plan" "ip_relocation_count plan \<le> MAX_RELOCATIONS"
    using validate_metadata_Inr(6,7) [OF m] by (simp_all add: p)
qed

lemma image_byte_Suc:
  assumes "elf_inspect data pb vb = Inr plan" "k < nat (ip_relocation_count plan)"
    and t: "t = nat (reloc_target data (ip_relocation_address plan) k)"
  shows "image_byte data plan (Suc k) i =
    (if t \<le> i \<and> i < t + 8 then le_bytes 8 (ip_virtual_base plan + reloc_addend data (ip_relocation_address plan) k) ! (i - t)
     else image_byte data plan k i)"
proof -
  have "find (\<lambda>(t, v). t \<le> i \<and> i < t + 8) (image_relocs data plan k) = None" if "t \<le> i" "i < t + 8"
  proof -
    have "nat (reloc_target data (ip_relocation_address plan) j) + 8 \<le> i" if "j < k" for j
      using inspect_relocations(2) [OF assms(1,2) that] \<open>t \<le> i\<close> t
        rd_nonneg [of 8 data "rela_at (ip_relocation_address plan) j"] by linarith
    then show ?thesis by (fastforce simp: find_None_iff image_relocs_def)
  qed
  then show ?thesis
    by (auto simp: image_byte_def image_relocs_def find_snoc t split: option.splits)
qed

lemma relocated_image:
  assumes i: "elf_inspect data pb vb = Inr plan" and cap: "ip_image_size plan \<le> int cap"
  shows "rfold (apply_relocation data plan) [0..<nat (ip_relocation_count plan)] (map (image_byte data plan 0) [0..<cap]) =
    Inr (loaded_image data plan cap)"
proof -
  let ?P = "\<lambda>k d. d = map (image_byte data plan k) [0..<cap]"
  have "\<exists>d'. apply_relocation data plan k d = Inr d' \<and> ?P (Suc k) d'"
    if k: "k < nat (ip_relocation_count plan)" and d: "?P k d" for k d
  proof -
    define t a where "t = reloc_target data (ip_relocation_address plan) k" and "a = reloc_addend data (ip_relocation_address plan) k"
    have ok: "rela_at (ip_relocation_address plan) k + 24 \<le> length data" "t + 8 \<le> int (length data)" "0 \<le> a" "a < ip_image_size plan"
      using inspect_relocations(1) [OF i k] by (simp_all add: reloc_ok_def Let_def t_def a_def)
    have len: "int (length data) \<le> ip_image_size plan" by (rule inspect_layout [OF i]) simp
    have fit: "fits 8 (ip_virtual_base plan + a)"
      using inspect_bases(1,9,11) [OF i] ok(3,4) by (simp add: fits_def MIN_VIRTUAL_BASE_def MAX_VIRTUAL_EXCLUSIVE_def)
    have t0: "0 \<le> t" by (simp add: t_def)
    have t8: "nat t + 8 \<le> cap" using ok(2) len cap t0 by linarith
    have "apply_relocation data plan k d = Inr (put d (nat t) (le_bytes 8 (ip_virtual_base plan + a)))"
      using ok(1) fit t8 d by (simp add: apply_relocation_def pack_into_def t_def a_def Let_def)
    moreover have "put d (nat t) (le_bytes 8 (ip_virtual_base plan + a)) = map (image_byte data plan (Suc k)) [0..<cap]"
      by (rule nth_equalityI)
        (use t8 d image_byte_Suc [OF i k t_def [THEN arg_cong [where f = nat]]] in \<open>simp_all add: length_put nth_put a_def\<close>)
    ultimately show ?thesis by blast
  qed
  then have "\<exists>d'. rfold (apply_relocation data plan) [0..<nat (ip_relocation_count plan)] (map (image_byte data plan 0) [0..<cap]) =
      Inr d' \<and> ?P (nat (ip_relocation_count plan)) d'"
    by (intro rfold_upt [where P = ?P]) simp_all
  then show ?thesis by (simp add: loaded_image_def)
qed

lemma elf_load_ok:
  assumes "elf_inspect data pb vb = Inr plan" "cap = (case capacity of None \<Rightarrow> ip_image_size plan | Some c \<Rightarrow> c)"
    "ip_image_size plan \<le> cap"
  shows "elf_load data pb vb capacity = Inr (plan, loaded_image data plan (nat cap))"
proof -
  have "0 < ip_image_size plan" by (rule inspect_layout [OF assms(1)]) simp
  then have c: "ip_image_size plan \<le> int (nat cap)" using assms(3) by simp
  show ?thesis using assms(3) copied_image [OF assms(1) c] relocated_image [OF assms(1) c]
    by (simp add: elf_load_def assms(1) assms(2) [symmetric] Let_def guarded.simps)
qed

lemma elf_load_fails:
  assumes "elf_inspect data pb vb = Inr plan" "(case capacity of None \<Rightarrow> ip_image_size plan | Some c \<Rightarrow> c) < ip_image_size plan"
  shows "elf_load data pb vb capacity = Inl (Fail ''output_capacity'')"
  using assms by (simp add: elf_load_def Let_def guarded.simps)

lemma elf_load_Inr:
  assumes "elf_load data pb vb capacity = Inr (plan, loaded)"
  obtains cap where "elf_inspect data pb vb = Inr plan" "ip_image_size plan \<le> cap" "loaded = loaded_image data plan (nat cap)"
proof -
  from assms have i: "elf_inspect data pb vb = Inr plan"
    by (auto simp: elf_load_def rbind_Inr_iff Let_def guarded_Inr_iff)
  show thesis
    using elf_load_ok [OF i refl, of capacity] elf_load_fails [OF i, of capacity] assms that [OF i] by (metis Inl_Inr_False Inr_inject not_le prod.inject)
qed

lemma image_byte_target:
  assumes i: "elf_inspect data pb vb = Inr plan" and n: "n \<le> nat (ip_relocation_count plan)" "k < n"
    and t: "nat (reloc_target data (ip_relocation_address plan) k) \<le> i" "i < nat (reloc_target data (ip_relocation_address plan) k) + 8"
  shows "image_byte data plan n i =
    le_bytes 8 (ip_virtual_base plan + reloc_addend data (ip_relocation_address plan) k) !
      (i - nat (reloc_target data (ip_relocation_address plan) k))"
  using n
proof (induction n)
  case (Suc n)
  then have n: "n < nat (ip_relocation_count plan)" by simp
  show ?case
  proof (cases "k = n")
    case True
    with image_byte_Suc [OF i n refl] t show ?thesis by simp
  next
    case False
    then have k: "k < n" using Suc.prems by simp
    have "i < nat (reloc_target data (ip_relocation_address plan) n)"
      using inspect_relocations(2) [OF i n k] t(2) rd_nonneg [of 8 data "rela_at (ip_relocation_address plan) k"] by linarith
    with image_byte_Suc [OF i n refl] Suc.IH [OF _ k] n show ?thesis by simp
  qed
qed simp

text \<open>
  C2. Loading is loading of the reference image: \<open>load\<close> fails exactly when \<open>inspect\<close> fails (with the same error) or
  the capacity is below the image size (\<open>output_capacity\<close>), and otherwise returns the plan with the buffer that holds
  the relocated 64-bit values at the relocation targets, the file's bytes elsewhere, zeros up to the image size and
  the fill byte 0xA5 behind it. No other exception (a struct error of a relocation) can escape.
\<close>
theorem elf_load_is_reference:
  "elf_load data pb vb capacity =
     rbind (elf_inspect data pb vb) (\<lambda>plan.
       let cap = (case capacity of None \<Rightarrow> ip_image_size plan | Some c \<Rightarrow> c) in
       if cap < ip_image_size plan then Inl (Fail ''output_capacity'')
       else Inr (plan, loaded_image data plan (nat cap)))"
proof (cases "elf_inspect data pb vb")
  case (Inr plan)
  then show ?thesis
    using elf_load_ok [OF Inr refl, of capacity] elf_load_fails [OF Inr, of capacity] by (auto simp: Let_def not_less)
qed (simp add: elf_load_def)

text \<open>
  C1. Layout of an accepted image: the four mappings cover \<open>[0, image_size)\<close> without gap or overlap in whole pages,
  are never writable and executable at once, the entry point lies in the executable one, the relocated (relro) pages
  become a read-only mapping, and both bases leave the image inside the physical and the kernel's virtual window.
\<close>
theorem elf_plan_layout:
  assumes "elf_inspect data pb vb = Inr plan"
  shows "\<exists>a b c d. 0 < a \<and> 0 < b \<and> 0 < c \<and> 0 < d \<and>
     a mod PAGE_SIZE = 0 \<and> b mod PAGE_SIZE = 0 \<and> c mod PAGE_SIZE = 0 \<and> d mod PAGE_SIZE = 0 \<and>
     ip_mappings plan = [mapping_of 0 a ''r'', mapping_of a b ''rx'', mapping_of (a + b) c ''r'', mapping_of (a + b + c) d ''rw''] \<and>
     ip_image_size plan = a + b + c + d \<and> a + b + c + d \<le> MAX_IMAGE_BYTES \<and>
     ip_relro_offset plan = a + b \<and> ip_relro_size plan = c \<and>
     ip_entry_virtual plan = vb + ip_entry_offset plan \<and> a \<le> ip_entry_offset plan \<and> ip_entry_offset plan < a + b \<and>
     pb mod PAGE_SIZE = 0 \<and> MIN_PHYSICAL_BASE \<le> pb \<and> pb + (a + b + c + d) \<le> MAX_PHYSICAL_EXCLUSIVE \<and>
     vb mod VIRTUAL_BASE_ALIGNMENT = 0 \<and> MIN_VIRTUAL_BASE \<le> vb \<and> vb + (a + b + c + d) \<le> MAX_VIRTUAL_EXCLUSIVE"
proof -
  note b = inspect_bases [OF assms]
  from assms show ?thesis
  proof (rule inspect_layout)
    fix a b c d
    assume l: "0 < a" "0 < b" "0 < c" "0 < d"
    "a mod PAGE_SIZE = 0" "b mod PAGE_SIZE = 0" "c mod PAGE_SIZE = 0" "d mod PAGE_SIZE = 0"
    "ip_mappings plan = [mapping_of 0 a ''r'', mapping_of a b ''rx'', mapping_of (a + b) c ''r'', mapping_of (a + b + c) d ''rw'']"
    "ip_image_size plan = a + b + c + d" "ip_image_size plan \<le> MAX_IMAGE_BYTES"
    "ip_relro_offset plan = a + b" "ip_relro_size plan = c" "a \<le> ip_entry_offset plan" "ip_entry_offset plan < a + b"
    show ?thesis
      by (rule exI [of _ a], rule exI [of _ b], rule exI [of _ c], rule exI [of _ d],
          insert l b(4) b(6-11) [unfolded l(10)] l(11) [unfolded l(10)], intro conjI; assumption)
  qed
qed

text \<open>
  C19. Every relocation of a loaded image is in place: its target is an aligned slot of the relro range and holds, as a
  little-endian 64-bit value, the virtual base plus the addend, an address inside the loaded image.
\<close>
theorem loaded_relocations:
  assumes "elf_load data pb vb capacity = Inr (plan, loaded)" "k < nat (ip_relocation_count plan)"
    and "t = rd 8 data (rela_at (ip_relocation_address plan) k)" "a = rds data (rela_at (ip_relocation_address plan) k + 16)"
  shows "rd 8 loaded (nat t) = vb + a \<and> vb \<le> vb + a \<and> vb + a < vb + ip_image_size plan \<and>
    t mod 8 = 0 \<and> ip_relro_offset plan \<le> t \<and> t + 8 \<le> ip_relro_offset plan + ip_relro_size plan"
proof -
  from assms(1) obtain cap where i: "elf_inspect data pb vb = Inr plan" and cap: "ip_image_size plan \<le> cap"
    and loaded: "loaded = loaded_image data plan (nat cap)" by (rule elf_load_Inr)
  have ok: "t mod 8 = 0" "ip_relro_offset plan \<le> t" "t + 8 \<le> ip_relro_offset plan + ip_relro_size plan"
     "t + 8 \<le> int (length data)" "0 \<le> a" "a < ip_image_size plan"
    using inspect_relocations(1) [OF i assms(2)] by (simp_all add: reloc_ok_def Let_def assms(3,4))
  have len: "int (length data) \<le> ip_image_size plan" by (rule inspect_layout [OF i]) simp
  have t0: "0 \<le> t" by (simp add: assms(3))
  have t8: "nat t + 8 \<le> nat cap" using ok(4) len cap t0 by linarith
  have fit: "fits 8 (vb + a)"
    using inspect_bases(9,11) [OF i] ok(5,6) by (simp add: fits_def MIN_VIRTUAL_BASE_def MAX_VIRTUAL_EXCLUSIVE_def)
  have "bslice loaded (nat t) (nat t + 8) = le_bytes 8 (vb + a)"
    by (rule nth_equalityI)
      (use t8 image_byte_target [OF i le_refl assms(2), folded assms(3,4)] inspect_bases(1) [OF i]
       in \<open>simp_all add: loaded loaded_image_def bslice_def\<close>)
  then show ?thesis using fit ok by (simp add: rd_def le_int_le_bytes)
qed

end
