(* ===== verification/Elf_Sample.thy ===== *)
theory Elf_Sample
  imports Elf_Loading
begin

text \<open>
  The smallest fixture of \<open>build_fixture\<close>, read back field by field, is accepted and loaded; it instantiates
  the loader's theorems.
\<close>

unbundle bit_operations_syntax

definition sample_head :: "(nat \<times> int) list" where
  "sample_head = [(1, 0x7F), (1, 0x45), (1, 0x4C), (1, 0x46), (1, 2), (1, 1), (1, 1), (1, 0), (1, 0),
     (1, 0), (1, 0), (1, 0), (1, 0), (1, 0), (1, 0), (1, 0),
     (2, 3), (2, 62), (4, 1), (8, 0x1000), (8, 64), (8, 0), (4, 0), (2, 64), (2, 56), (2, 7), (2, 0), (2, 0), (2, 0),
     (4, 6), (4, 4), (8, 64), (8, 64), (8, 0), (8, 392), (8, 392), (8, 8),
     (4, 1), (4, 4), (8, 0), (8, 0), (8, 0), (8, 4096), (8, 4096), (8, 4096),
     (4, 1), (4, 5), (8, 4096), (8, 4096), (8, 0), (8, 4096), (8, 4096), (8, 4096),
     (4, 1), (4, 6), (8, 8192), (8, 8192), (8, 0), (8, 4096), (8, 8192), (8, 4096),
     (4, 2), (4, 6), (8, 8192), (8, 8192), (8, 0), (8, 64), (8, 64), (8, 8),
     (4, 1685382482), (4, 4), (8, 8192), (8, 8192), (8, 0), (8, 4096), (8, 4096), (8, 4096),
     (4, 1685382481), (4, 6), (8, 0), (8, 0), (8, 0), (8, 0), (8, 0), (8, 16)]"

definition sample_dynamic :: "(nat \<times> int) list" where
  "sample_dynamic = [(8, 7), (8, 0x2040), (8, 8), (8, 48), (8, 9), (8, 24), (8, 0), (8, 0),
     (8, 0x2070), (8, 8), (8, 0), (8, 0x2078), (8, 8), (8, 0x1001)]"

definition sample_text :: bytes where
  "sample_text = [0xFA, 0xF4, 0xEB, 0xFD, 0x50, 0x4B, 0x45, 0x4C, 0x46, 0x31] @ zeros 6"

lemma length_sample_text [simp]: "length sample_text = 16"
  by (simp add: sample_text_def)

definition sample_elf :: bytes where
  "sample_elf = packed sample_head @ zeros 3640 @
     sample_text @ zeros 4080 @ packed sample_dynamic @ zeros 3984"

lemmas sample_consts = fixture_headers_def PT_PHDR_def PT_LOAD_def PT_DYNAMIC_def PT_GNU_RELRO_def PT_GNU_STACK_def
  PF_R_def PF_W_def PF_X_def PAGE_SIZE_def

lemma sample_head_fields [simp]:
  "sum_list (map fst sample_head) = 456" "list_all (\<lambda>(n, v). fits n v) sample_head"
  by (simp_all add: sample_head_def fits_def)

lemma sample_dynamic_fields [simp]:
  "sum_list (map fst sample_dynamic) = 112" "list_all (\<lambda>(n, v). fits n v) sample_dynamic"
  by (simp_all add: sample_dynamic_def fits_def)

lemma length_sample_elf [simp]: "length sample_elf = 12288"
  by (simp add: sample_elf_def)

lemma rd_sample_head: "fld sample_head j n = Some v \<Longrightarrow> j + n \<le> 456 \<Longrightarrow> rd n sample_elf j = v"
  by (simp add: sample_elf_def rd_append1 rd_packed)

lemma rd_sample_dynamic:
  "0x2000 \<le> j \<Longrightarrow> j + n \<le> 0x2070 \<Longrightarrow> fld sample_dynamic (j - 0x2000) n \<noteq> None \<Longrightarrow>
   rd n sample_elf j = the (fld sample_dynamic (j - 0x2000) n)"
  by (simp add: sample_elf_def rd_append1 rd_append2 rd_packed_the)

lemma sample_ident: "bslice sample_elf 0 4 = [0x7F, 0x45, 0x4C, 0x46]" "bslice sample_elf 9 16 = zeros 7"
proof -
  have "packed sample_head = packed (take 16 sample_head) @ packed (drop 16 sample_head)"
    unfolding packed_def concat_append [symmetric] map_append [symmetric] append_take_drop_id ..
  then have h: "sample_elf = packed (take 16 sample_head) @ packed (drop 16 sample_head) @ zeros 3640 @ sample_text @
      zeros 4080 @ packed sample_dynamic @ zeros 3984"
    by (simp add: sample_elf_def)
  have p: "packed (take 16 sample_head) = [0x7F, 0x45, 0x4C, 0x46, 2, 1, 1, 0, 0, 0, 0, 0, 0, 0, 0, 0]"
    by (simp add: packed_def sample_head_def numeral_eq_Suc)
  show "bslice sample_elf 0 4 = [0x7F, 0x45, 0x4C, 0x46]" "bslice sample_elf 9 16 = zeros 7"
    by (subst h, subst p, simp add: bslice_def zeros_def numeral_eq_Suc)+
qed

lemma sample_targets: "bslice sample_elf 0x2070 0x2078 = zeros 8" "bslice sample_elf 0x2078 0x2080 = zeros 8"
  by (simp_all add: sample_elf_def bslice_append2 slice_zeros)

abbreviation sample_headers :: "program_header list" where
  "sample_headers \<equiv> map (\<lambda>(_, vs). \<lparr>ph_type = vs ! 0, ph_flags = vs ! 1, ph_offset = vs ! 2, ph_vaddr = vs ! 3,
     ph_paddr = vs ! 4, ph_filesz = vs ! 5, ph_memsz = vs ! 6, ph_align = vs ! 7\<rparr>) (fixture_headers 4096)"

lemma sample_head_reads:
  "rd 1 sample_elf 4 = 2" "rd 1 sample_elf 5 = 1" "rd 1 sample_elf 6 = 1" "rd 1 sample_elf 7 = 0"
  "rd 1 sample_elf 8 = 0" "rd 2 sample_elf 16 = 3" "rd 2 sample_elf 18 = 62" "rd 4 sample_elf 20 = 1"
  "rd 8 sample_elf 24 = 4096" "rd 8 sample_elf 32 = 64" "rd 8 sample_elf 40 = 0" "rd 4 sample_elf 48 = 0"
  "rd 2 sample_elf 52 = 64" "rd 2 sample_elf 54 = 56" "rd 2 sample_elf 56 = 7" "rd 2 sample_elf 58 = 0"
  "rd 2 sample_elf 60 = 0" "rd 2 sample_elf 62 = 0" "rd 4 sample_elf 64 = 6" "rd 4 sample_elf 68 = 4"
  "rd 8 sample_elf 72 = 64" "rd 8 sample_elf 80 = 64" "rd 8 sample_elf 88 = 0" "rd 8 sample_elf 96 = 392"
  "rd 8 sample_elf 104 = 392" "rd 8 sample_elf 112 = 8" "rd 4 sample_elf 120 = 1" "rd 4 sample_elf 124 = 4"
  "rd 8 sample_elf 128 = 0" "rd 8 sample_elf 136 = 0" "rd 8 sample_elf 144 = 0" "rd 8 sample_elf 152 = 4096"
  "rd 8 sample_elf 160 = 4096" "rd 8 sample_elf 168 = 4096" "rd 4 sample_elf 176 = 1" "rd 4 sample_elf 180 = 5"
  "rd 8 sample_elf 184 = 4096" "rd 8 sample_elf 192 = 4096" "rd 8 sample_elf 200 = 0" "rd 8 sample_elf 208 = 4096"
  "rd 8 sample_elf 216 = 4096" "rd 8 sample_elf 224 = 4096" "rd 4 sample_elf 232 = 1" "rd 4 sample_elf 236 = 6"
  "rd 8 sample_elf 240 = 8192" "rd 8 sample_elf 248 = 8192" "rd 8 sample_elf 256 = 0" "rd 8 sample_elf 264 = 4096"
  "rd 8 sample_elf 272 = 8192" "rd 8 sample_elf 280 = 4096" "rd 4 sample_elf 288 = 2" "rd 4 sample_elf 292 = 6"
  "rd 8 sample_elf 296 = 8192" "rd 8 sample_elf 304 = 8192" "rd 8 sample_elf 312 = 0" "rd 8 sample_elf 320 = 64"
  "rd 8 sample_elf 328 = 64" "rd 8 sample_elf 336 = 8" "rd 4 sample_elf 344 = 1685382482" "rd 4 sample_elf 348 = 4"
  "rd 8 sample_elf 352 = 8192" "rd 8 sample_elf 360 = 8192" "rd 8 sample_elf 368 = 0" "rd 8 sample_elf 376 = 4096"
  "rd 8 sample_elf 384 = 4096" "rd 8 sample_elf 392 = 4096" "rd 4 sample_elf 400 = 1685382481" "rd 4 sample_elf 404 = 6"
  "rd 8 sample_elf 408 = 0" "rd 8 sample_elf 416 = 0" "rd 8 sample_elf 424 = 0" "rd 8 sample_elf 432 = 0"
  "rd 8 sample_elf 440 = 0" "rd 8 sample_elf 448 = 16"
  by (rule rd_sample_head; simp add: sample_head_def)+

lemma sample_dynamic_reads:
  "rd 8 sample_elf 8192 = 7" "rd 8 sample_elf 8200 = 8256" "rd 8 sample_elf 8208 = 8" "rd 8 sample_elf 8216 = 48"
  "rd 8 sample_elf 8224 = 9" "rd 8 sample_elf 8232 = 24" "rd 8 sample_elf 8240 = 0" "rd 8 sample_elf 8248 = 0"
  "rd 8 sample_elf 8256 = 8304" "rd 8 sample_elf 8264 = 8" "rd 8 sample_elf 8272 = 0" "rd 8 sample_elf 8280 = 8312"
  "rd 8 sample_elf 8288 = 8" "rd 8 sample_elf 8296 = 4097"
  by (simp_all add: rd_sample_dynamic sample_dynamic_def)

lemmas sample_reads = sample_head_reads sample_dynamic_reads

lemma sample_validate_header: "elf_validate_header sample_elf = Inr (0x1000, sample_headers)"
proof -
  have "program_header_at sample_elf k = Inr (sample_headers ! k)" if "k \<in> {0, 1, 2, 3, 4, 5, 6}" for k
    using that
    by (elim insertE; simp add: program_header_at_def unpack_guard_def Let_def guarded.simps ELF_HEADER_BYTES_def
        PROGRAM_HEADER_BYTES_def sample_reads sample_consts del: One_nat_def)
  moreover have "[0..<7] = [0, 1, 2, 3, 4, 5, 6 :: nat]" by code_simp
  ultimately have "rmap (program_header_at sample_elf) [0..<7] = Inr sample_headers"
    by (simp add: fixture_headers_def)
  moreover have "sample_elf \<noteq> []" using length_sample_elf by fastforce
  ultimately show ?thesis
    unfolding elf_validate_header_def
    by (simp add: guarded.simps sample_ident sample_reads unpack_guard_def PROGRAM_HEADER_COUNT_def ELF_HEADER_BYTES_def
        PROGRAM_HEADER_BYTES_def ELF_MAX_FILE_BYTES_def sample_consts del: One_nat_def)
qed

lemmas sample_eval = guarded.simps checked_add_def range_contains_def range_overlaps_def sample_consts Let_def

lemma sample_validate_phdr: "validate_phdr (sample_headers ! 0) = Inr ()"
  by (simp add: validate_phdr_def sample_eval ELF_HEADER_BYTES_def PROGRAM_HEADER_BYTES_def PROGRAM_HEADER_COUNT_def)

lemma sample_validate_loads: "validate_loads sample_elf sample_headers = Inr (take 3 (drop 1 sample_headers), 0x4000)"
  by (simp add: validate_loads_def validate_load_def sample_eval LOAD_SEGMENT_COUNT_def MAX_IMAGE_BYTES_def
      ELF_HEADER_BYTES_def PROGRAM_HEADER_BYTES_def PROGRAM_HEADER_COUNT_def)

lemma sample_validate_bases: "validate_bases 0x2000000 MIN_VIRTUAL_BASE 0x4000 = Inr ()"
  by (simp add: validate_bases_def sample_eval code_defs)

lemma rds_small: "rd 8 data i < 2 ^ 63 \<Longrightarrow> rds data i = rd 8 data i"
  by (simp add: rds_def Let_def)

lemma sample_validate_metadata:
  "validate_metadata sample_elf (sample_headers ! 4) (sample_headers ! 5) (sample_headers ! 6) (sample_headers ! 3) =
   Inr (0x2040, 48, 2)"
proof -
  have "rmap (dynamic_entry sample_elf 0x2000) [0..<4] = Inr [(7, 0x2040), (8, 48), (9, 24), (0, 0)]"
  proof -
    have "[0..<4] = [0, 1, 2, 3 :: nat]" by code_simp
    then show ?thesis
      by (simp add: dynamic_entry_def unpack_guard_def guarded.simps Let_def rds_small sample_reads)
  qed
  then show ?thesis
    by (simp add: validate_metadata_def sample_eval code_defs)
qed


lemma sample_validate_relocations:
  "validate_relocations sample_elf 0x2040 48 2 (sample_headers ! 4) (sample_headers ! 5) (take 3 (drop 1 sample_headers)) 0x4000
     MIN_VIRTUAL_BASE = Inr ()"
proof -
  have "[0..<2] = [0, 1 :: nat]" by code_simp
  then show ?thesis
    by (simp add: validate_relocations_def validate_relocation_def sample_eval unpack_guard_def rela_at_def RELA_ENTRY_BYTES_def
        rds_small sample_reads sample_targets R_X86_64_RELATIVE_def MIN_VIRTUAL_BASE_def)
qed

definition sample_image_plan :: image_plan where
  "sample_image_plan = \<lparr>ip_file_size = 0x3000, ip_image_size = 0x4000, ip_entry_offset = 0x1000,
     ip_entry_virtual = MIN_VIRTUAL_BASE + 0x1000, ip_entry_physical = 0x2001000, ip_physical_base = 0x2000000,
     ip_virtual_base = MIN_VIRTUAL_BASE, ip_relocation_count = 2, ip_relro_offset = 0x2000, ip_relro_size = 0x1000,
     ip_segments = map segment_of (zip (take 3 (drop 1 sample_headers)) [''r'', ''rx'', ''rw'']),
     ip_mappings = [mapping_of 0 0x1000 ''r'', mapping_of 0x1000 0x1000 ''rx'', mapping_of 0x2000 0x1000 ''r'',
       mapping_of 0x3000 0x1000 ''rw''],
     ip_relocation_address = 0x2040\<rparr>"

lemma sample_inspect: "elf_inspect sample_elf 0x2000000 MIN_VIRTUAL_BASE = Inr sample_image_plan"
proof -
  have loads: "take 3 (drop 1 sample_headers) ! 0 = sample_headers ! 1" "take 3 (drop 1 sample_headers) ! 1 = sample_headers ! 2"
    "take 3 (drop 1 sample_headers) ! 2 = sample_headers ! 3" by (simp_all add: fixture_headers_def)
  have entry: "range_contains 0x1000 0x1000 0x1000 1"
    by (simp add: sample_eval)
  have fields: "ph_vaddr (sample_headers ! 1) = 0" "ph_memsz (sample_headers ! 1) = 0x1000" "ph_vaddr (sample_headers ! 2) = 0x1000"
    "ph_memsz (sample_headers ! 2) = 0x1000" "ph_vaddr (sample_headers ! 3) = 0x2000" "ph_memsz (sample_headers ! 3) = 0x2000"
    "ph_vaddr (sample_headers ! 5) = 0x2000" "ph_memsz (sample_headers ! 5) = 0x1000" "ph_filesz (sample_headers ! 2) = 0x1000"
    by (simp_all add: sample_consts)
  show ?thesis
    unfolding elf_inspect_def sample_validate_header rbind.simps prod.case sample_validate_phdr sample_validate_loads loads
      sample_validate_bases sample_validate_metadata sample_validate_relocations Let_def fields sample_image_plan_def
    by (simp only: entry guarded.simps if_False not_True_eq_False) simp
qed


section \<open>The fixture builder writes the sample\<close>

text \<open>Consecutive writes into the zeroed rest of a buffer.\<close>

fun adjacent :: "nat \<Rightarrow> (nat \<times> (nat \<times> int) list) list \<Rightarrow> bool" where
  "adjacent k [] = True"
| "adjacent k ((off, fs) # ws) = (off = k \<and> list_all (\<lambda>(n, v). fits n v) fs \<and> adjacent (k + sum_list (map fst fs)) ws)"

lemma rfold_writes:
  "adjacent (length pre) ws \<Longrightarrow> sum_list (map (\<lambda>(_, fs). sum_list (map fst fs)) ws) \<le> m \<Longrightarrow>
   rfold (\<lambda>(off, fs) d. pack_into d off fs) ws (pre @ zeros m) =
   Inr (pre @ packed (concat (map snd ws)) @ zeros (m - sum_list (map (\<lambda>(_, fs). sum_list (map fst fs)) ws)))"
proof (induction ws arbitrary: pre m)
  case Nil
  then show ?case by (simp add: packed_def)
next
  case (Cons w ws)
  obtain off fs where w: "w = (off, fs)" by fastforce
  have "pack_into (pre @ zeros m) off fs = Inr ((pre @ packed fs) @ zeros (m - sum_list (map fst fs)))"
    using Cons.prems by (subst pack_into_append) (simp_all add: w)
  with Cons.IH [of "pre @ packed fs" "m - sum_list (map fst fs)"] Cons.prems
  show ?case by (simp add: w packed_append)
qed

lemma rfold_as_writes:
  "(\<And>x d. f x d = pack_into d (fst (g x)) (snd (g x))) \<Longrightarrow>
   rfold f xs a = rfold (\<lambda>(off, fs) d. pack_into d off fs) (map g xs) a"
proof (induction xs arbitrary: a)
  case (Cons x xs)
  then show ?case by (cases "pack_into a (fst (g x)) (snd (g x))") (simp_all add: split_beta)
qed simp

definition sample_header_writes :: "(nat \<times> (nat \<times> int) list) list" where
  "sample_header_writes = map (\<lambda>(index, vs). (64 + index * 56, zip [4, 4, 8, 8, 8, 8, 8, 8] vs)) (fixture_headers 4096)"

lemma sample_head_split:
  "sample_head = take 16 sample_head @ [(2, 3), (2, 62), (4, 1), (8, 0x1000), (8, 64), (8, 0), (4, 0),
     (2, 64), (2, 56), (2, 7), (2, 0), (2, 0), (2, 0)] @ concat (map snd sample_header_writes)"
  by (simp add: sample_head_def sample_header_writes_def sample_consts)

lemma sample_dynamic_split:
  "sample_dynamic = [(8, 7), (8, 0x2040), (8, 8), (8, 48), (8, 9), (8, 24), (8, 0), (8, 0)] @
     [(8, 0x2070), (8, 8), (8, 0), (8, 0x2078), (8, 8), (8, 0x1001)]"
  by (simp add: sample_dynamic_def)

lemma sample_magic: "packed (take 16 sample_head) = [0x7F, 0x45, 0x4C, 0x46, 2, 1, 1, 0, 0] @ zeros 7"
  by (simp add: packed_def sample_head_def numeral_eq_Suc zeros_def)

lemma sample_fixture_bytes: "fixture_bytes 2 4096 = Inr sample_elf"
proof -
  define M where "M = ([0x7F, 0x45, 0x4C, 0x46, 2, 1, 1, 0, 0] @ zeros 7 :: bytes)"
  define H :: "(nat \<times> int) list" where "H = [(2, 3), (2, 62), (4, 1), (8, 0x1000), (8, 64), (8, 0), (4, 0), (2, 64), (2, 56), (2, 7),
    (2, 0), (2, 0), (2, 0)]"
  define P where "P = packed (concat (map snd sample_header_writes))"
  define D R :: "(nat \<times> int) list" where "D = [(8, 7), (8, 0x2040), (8, 8), (8, 48), (8, 9), (8, 24), (8, 0), (8, 0)]"
    and "R = [(8, 0x2070), (8, 8), (8, 0), (8, 0x2078), (8, 8), (8, 0x1001)]"
  have len: "length M = 16" "sum_list (map fst H) = 48" "length P = 392" "sum_list (map fst D) = 64" "sum_list (map fst R) = 48"
    by (simp_all add: M_def H_def P_def D_def R_def sample_header_writes_def fixture_headers_def)
  have fit: "list_all (\<lambda>(n, v). fits n v) H" by (simp add: H_def fits_def)
  have head: "packed sample_head = M @ packed H @ P"
    by (subst sample_head_split) (simp only: packed_append sample_magic M_def H_def P_def)
  have s1: "slice_assign (zeros 12288) 0 16 M = M @ zeros 12272"
    using slice_assign_zeros [of 0 "[]" 0 16 M 12288] len by (simp add: zeros_def)
  have s2: "pack_into (M @ zeros 12272) 16 H = Inr ((M @ packed H) @ zeros 12224)"
    using fit len by (subst pack_into_append) simp_all
  have s3: "rfold (\<lambda>(index, vs). write_program_header index vs) (fixture_headers 4096) ((M @ packed H) @ zeros 12224) =
      Inr ((M @ packed H) @ P @ zeros 11832)"
  proof -
    have "adjacent (length (M @ packed H)) sample_header_writes"
      using len by (simp add: sample_header_writes_def sample_consts fits_def)
    moreover have "sum_list (map (\<lambda>(_, fs). sum_list (map fst fs)) sample_header_writes) = 392"
      by (simp add: sample_header_writes_def fixture_headers_def)
    ultimately have "rfold (\<lambda>(off, fs) d. pack_into d off fs) sample_header_writes ((M @ packed H) @ zeros 12224) =
        Inr ((M @ packed H) @ P @ zeros 11832)" by (simp only: rfold_writes P_def) simp
    then show ?thesis
      by (subst rfold_as_writes [where g = "\<lambda>(index, vs). (64 + index * 56, zip [4, 4, 8, 8, 8, 8, 8, 8] vs)"])
        (auto simp: sample_header_writes_def [symmetric] write_program_header_def ELF_HEADER_BYTES_def PROGRAM_HEADER_BYTES_def)
  qed
  have s4: "slice_assign ((M @ packed H) @ P @ zeros 11832) 0x1000 0x1010 sample_text =
      ((M @ packed H) @ P @ zeros 3640 @ sample_text) @ zeros 8176"
    using slice_assign_zeros [of 4096 "(M @ packed H) @ P" 3640 4112 sample_text 11832] len by simp
  have s5: "rfold (\<lambda>(off, fs) d. pack_into d off fs) [(0x2000, [(8, 7), (8, 0x2040)]), (0x2010, [(8, 8), (8, 48)]),
        (0x2020, [(8, 9), (8, 24)]), (0x2030, [(8, 0), (8, 0)])]
      (((M @ packed H) @ P @ zeros 3640 @ sample_text @ zeros 4080) @ zeros 4096) =
      Inr (((M @ packed H) @ P @ zeros 3640 @ sample_text @ zeros 4080) @ packed D @ zeros 4032)"
    using len by (subst rfold_writes) (simp_all add: D_def fits_def)
  have s6: "rfold (\<lambda>(off, fs) d. pack_into d off fs) [(0x2040, [(8, 0x2070), (8, 8), (8, 0)]), (0x2058, [(8, 0x2078), (8, 8), (8, 0x1001)])]
      (((M @ packed H) @ P @ zeros 3640 @ sample_text @ zeros 4080 @ packed D) @ zeros 4032) =
      Inr (((M @ packed H) @ P @ zeros 3640 @ sample_text @ zeros 4080 @ packed D) @ packed R @ zeros 3984)"
    using len by (subst rfold_writes) (simp_all add: R_def fits_def)
  have s5': "rfold (\<lambda>(index, tag, v) data. pack_into data (0x2000 + index * 16) [(8, tag), (8, v)])
        [(0, DT_RELA, 0x2040), (1, DT_RELASZ, 48), (2, DT_RELAENT, 24), (3, DT_NULL, 0)]
      (((M @ packed H) @ P @ zeros 3640 @ sample_text) @ zeros 8176) =
      Inr (((M @ packed H) @ P @ zeros 3640 @ sample_text @ zeros 4080 @ packed D) @ zeros 4032)"
    using s5 zeros_split [of 4080 8176]
    by (subst rfold_as_writes [where g = "\<lambda>(index, tag, v). (0x2000 + index * 16, [(8, tag), (8, v)])"])
      (auto simp: DT_RELA_def DT_RELASZ_def DT_RELAENT_def DT_NULL_def simp del: rfold.simps)
  have s6': "rfold (fixture_relocation 0x2040 0x2070 4096 0x4000) [0..<2]
      (((M @ packed H) @ P @ zeros 3640 @ sample_text @ zeros 4080 @ packed D) @ zeros 4032) = Inr sample_elf"
  proof -
    have "[0..<2] = [0, 1 :: nat]" by code_simp
    moreover have "packed sample_dynamic = packed D @ packed R"
      by (subst sample_dynamic_split) (simp only: packed_append D_def R_def)
    ultimately show ?thesis
      using s6
      by (subst rfold_as_writes [where g = "\<lambda>index. (rela_at 0x2040 index, [(8, 0x2070 + int index * 8), (8, R_X86_64_RELATIVE),
            (8, fixture_addend 4096 0x4000 (int index))])"])
        (simp_all add: fixture_relocation_def fixture_addend_def rela_at_def RELA_ENTRY_BYTES_def R_X86_64_RELATIVE_def
          Let_def sample_elf_def head del: rfold.simps)
  qed
  have c: "2 * RELA_ENTRY_BYTES = 48" "(0x2040 + 48 + 7 :: int) AND NOT 7 = 0x2070" "nat (0x2000 + 4096) = 12288"
    "0x2000 + 4096 + PAGE_SIZE = 0x4000" "nat 2 = 2" "int ELF_HEADER_BYTES = 64" "int PROGRAM_HEADER_BYTES = 56" "int PROGRAM_HEADER_COUNT = 7"
    by (simp_all add: RELA_ENTRY_BYTES_def PAGE_SIZE_def ELF_HEADER_BYTES_def PROGRAM_HEADER_BYTES_def PROGRAM_HEADER_COUNT_def)
  show ?thesis
    unfolding fixture_bytes_def Let_def c M_def [symmetric] H_def [symmetric] s1 s2 rbind.simps s3 sample_text_def [symmetric] s4 s5' s6' ..
qed

lemma sample_is_fixture: "build_fixture ''minimal_relative_v1'' = Inr sample_elf"
  by (simp add: build_fixture_def fixture_profile_def sample_fixture_bytes sample_eval RELA_ENTRY_BYTES_def)


section \<open>The loader's theorems on the fixture\<close>

lemma sample_load: "elf_load sample_elf 0x2000000 MIN_VIRTUAL_BASE None = Inr (sample_image_plan, loaded_image sample_elf sample_image_plan 0x4000)"
  using elf_load_ok [OF sample_inspect, of "0x4000" None] by (simp add: sample_image_plan_def)

lemma elf_plan_layout_witness:
  "elf_inspect sample_elf 0x2000000 MIN_VIRTUAL_BASE = Inr sample_image_plan \<and>
   (\<exists>a b c d. ip_image_size sample_image_plan = a + b + c + d \<and> a \<le> ip_entry_offset sample_image_plan \<and> ip_entry_offset sample_image_plan < a + b)"
  using elf_plan_layout [OF sample_inspect] sample_inspect by blast

lemma loaded_relocations_witness:
  "rd 8 (loaded_image sample_elf sample_image_plan 0x4000) 0x2078 = MIN_VIRTUAL_BASE + 0x1001"
  using loaded_relocations [OF sample_load, of 1, OF _ refl refl] 
  by (simp add: sample_image_plan_def rela_at_def RELA_ENTRY_BYTES_def rds_small sample_reads)

end
