(* ===== verification/Kernel_Map.thy ===== *)
theory Kernel_Map
  imports Elf_Loader
begin

unbundle bit_operations_syntax

text \<open>
  PKMAP1 and PKMAP2, the page-table oracle of \<open>src/runtime/native_kernel_map.py\<close>: a mapping request is checked,
  expanded to one leaf per 4 KiB page of a single page table, and extended by the retained boot stack and handoff
  pages. The dictionaries of the source are records here, so a request or plan has all its keys with values of their
  types; a failed \<open>_require\<close> is \<open>Fail\<close> with the source's message. The page and window constants of the
  module have the values of the loader's constants of the same name.
\<close>

section \<open>Constants and data\<close>

definition KM_CONTRACT_ID :: string where "KM_CONTRACT_ID = ''PKMAP1''"
definition RETAINED_CONTRACT_ID :: string where "RETAINED_CONTRACT_ID = ''PKMAP2''"
definition TABLE_ENTRIES :: nat where [code_defs]: "TABLE_ENTRIES = 512"
definition TABLE_PAGE_COUNT :: int where [code_defs]: "TABLE_PAGE_COUNT = 5"
definition WINDOW_BYTES :: int where [code_defs]: "WINDOW_BYTES = 2 * 1024 * 1024"
definition RETAINED_TABLE_ENTRIES :: int where [code_defs]: "RETAINED_TABLE_ENTRIES = 2 * int TABLE_ENTRIES"
definition MAX_MAPPINGS :: nat where [code_defs]: "MAX_MAPPINGS = 8"
definition ENTRY_PRESENT :: int where [code_defs]: "ENTRY_PRESENT = 2 ^ 0"
definition ENTRY_WRITABLE :: int where [code_defs]: "ENTRY_WRITABLE = 2 ^ 1"
definition ENTRY_NO_EXECUTE :: int where [code_defs]: "ENTRY_NO_EXECUTE = 2 ^ 63"
definition KM_FNV_OFFSET :: int where [code_defs]: "KM_FNV_OFFSET = 0xCBF29CE484222325"
definition KM_FNV_PRIME :: int where [code_defs]: "KM_FNV_PRIME = 0x00000100000001B3"
definition ORACLE_ORIGINAL_ROOT :: int where [code_defs]: "ORACLE_ORIGINAL_ROOT = 0x00100000"
definition ORACLE_TABLE_BASE :: int where [code_defs]: "ORACLE_TABLE_BASE = 0x03000000"
definition KERNEL_PAGE_CAPACITY :: int where [code_defs]: "KERNEL_PAGE_CAPACITY = 192"
definition STACK_GUARD_LOW_PAGE :: int where [code_defs]: "STACK_GUARD_LOW_PAGE = KERNEL_PAGE_CAPACITY"
definition STACK_FIRST_PAGE :: int where [code_defs]: "STACK_FIRST_PAGE = STACK_GUARD_LOW_PAGE + 1"
definition STACK_PAGE_COUNT :: int where [code_defs]: "STACK_PAGE_COUNT = 36"
definition STACK_GUARD_HIGH_PAGE :: int where [code_defs]: "STACK_GUARD_HIGH_PAGE = STACK_FIRST_PAGE + STACK_PAGE_COUNT"
definition HANDOFF_FIRST_PAGE :: int where [code_defs]: "HANDOFF_FIRST_PAGE = STACK_GUARD_HIGH_PAGE + 1"
definition HANDOFF_PAGE_COUNT :: int where [code_defs]: "HANDOFF_PAGE_COUNT = 256"
definition HANDOFF_CAPACITY_BYTES :: int where [code_defs]: "HANDOFF_CAPACITY_BYTES = HANDOFF_PAGE_COUNT * PAGE_SIZE"

record km_mapping =
  km_virtual_offset :: int
  km_byte_count :: int
  km_permissions :: string

record km_request =
  rq_physical_base :: int
  rq_virtual_base :: int
  rq_image_bytes :: int
  rq_page_count :: int
  rq_entry_virtual :: int
  rq_mappings :: "km_mapping list"
  rq_physical_address_bits :: nat

record retained_request =
  rr_stack_physical_base :: int
  rr_stack_page_count :: int
  rr_handoff_physical_base :: int
  rr_handoff_capacity_bytes :: int

record km_addresses =
  ka_original_root :: int
  ka_candidate_root :: int
  ka_pdpt :: int
  ka_page_directory :: int
  ka_page_table :: int

record km_indices =
  ki_pml4 :: int
  ki_pdpt :: int
  ki_page_directory :: int
  ki_first_page_table :: int

record km_leaf =
  lf_page_table_index :: int
  lf_virtual_offset :: int
  lf_physical_offset :: int
  lf_permissions :: string
  lf_normalized_flags :: string

record kernel_model =
  md_contract_id :: string
  md_request :: km_request
  md_addresses :: km_addresses
  md_indices :: km_indices
  md_mapped_page_count :: int
  md_read_only_page_count :: int
  md_read_execute_page_count :: int
  md_read_write_page_count :: int
  md_writable_executable_page_count :: int
  md_leaf_fingerprint :: string
  md_leaves :: "km_leaf list"

record retained_leaf =
  rl_page_table_index :: int
  rl_physical :: int
  rl_permissions :: string
  rl_normalized_flags :: string

record retained_model =
  rm_contract_id :: string
  rm_kernel :: kernel_model
  rm_retained_request :: retained_request
  rm_stack_first_page_table_index :: int
  rm_stack_page_count :: int
  rm_stack_bottom_virtual :: int
  rm_stack_top_virtual :: int
  rm_handoff_first_page_table_index :: int
  rm_handoff_page_count :: int
  rm_handoff_virtual_base :: int
  rm_guard_page_indices :: "int list"
  rm_guard_page_count :: int
  rm_total_mapped_page_count :: int
  rm_retained_leaf_fingerprint :: string
  rm_retained_leaves :: "retained_leaf list"

record cpu_profile =
  cpu_paging :: "bool option"
  cpu_pae :: "bool option"
  cpu_long_mode :: "bool option"
  cpu_write_protect :: "bool option"
  cpu_nx_supported :: "bool option"
  cpu_nx_enabled :: "bool option"
  cpu_five_level_paging :: "bool option"
  cpu_pcid_enabled :: "bool option"
  cpu_physical_address_bits :: "int option"

section \<open>Addresses, flags and fingerprints\<close>

definition canonical_48 :: "int \<Rightarrow> bool" where
  "canonical_48 address =
     (0 \<le> address \<and> address \<le> 0xFFFFFFFFFFFFFFFF \<and>
      drop_bit 48 address = (if address AND 2 ^ 47 \<noteq> 0 then 0xFFFF else 0))"

definition pml4_index :: "int \<Rightarrow> int" where "pml4_index address = drop_bit 39 address AND 0x1FF"
definition pdpt_index :: "int \<Rightarrow> int" where "pdpt_index address = drop_bit 30 address AND 0x1FF"
definition page_directory_index :: "int \<Rightarrow> int" where "page_directory_index address = drop_bit 21 address AND 0x1FF"
definition page_table_index :: "int \<Rightarrow> int" where "page_table_index address = drop_bit 12 address AND 0x1FF"

definition km_fnv_byte :: "byte \<Rightarrow> int \<Rightarrow> int" where
  "km_fnv_byte b state = ((state XOR uint b) * KM_FNV_PRIME) AND 0xFFFFFFFFFFFFFFFF"

definition fnv_u64 :: "int \<Rightarrow> int \<Rightarrow> int res" where
  "fnv_u64 state v = rbind (to_bytes8 v) (\<lambda>bs. Inr (fold km_fnv_byte bs state))"

definition permission_code :: "string \<Rightarrow> int" where
  "permission_code v = (if v = ''r'' then 1 else if v = ''rw'' then 3 else if v = ''rx'' then 5 else -1)"

definition leaf_flags :: "string \<Rightarrow> int" where
  "leaf_flags v =
     (let flags = ENTRY_PRESENT;
          flags = (if v = ''rw'' then flags OR ENTRY_WRITABLE else flags)
      in if v \<noteq> ''rx'' then flags OR ENTRY_NO_EXECUTE else flags)"

text \<open>The format \<open>016X\<close> of a number: upper-case hexadecimal, padded with zeros to sixteen digits.\<close>

fun hex_digits :: "nat \<Rightarrow> string" where
  "hex_digits n = (if n < 16 then [hex_digit n] else hex_digits (n div 16) @ [hex_digit (n mod 16)])"

declare hex_digits.simps [simp del]

definition hex_016X :: "int \<Rightarrow> string" where
  "hex_016X v = (let s = hex_digits (nat v) in replicate (16 - length s) (CHR ''0'') @ s)"

definition km_validate_cpu :: "cpu_profile \<Rightarrow> unit res" where
  "km_validate_cpu profile =
     guarded [
       (cpu_paging profile \<noteq> Some True, ''CPU profile requires paging''),
       (cpu_pae profile \<noteq> Some True, ''CPU profile requires pae''),
       (cpu_long_mode profile \<noteq> Some True, ''CPU profile requires long_mode''),
       (cpu_write_protect profile \<noteq> Some True, ''CPU profile requires write_protect''),
       (cpu_nx_supported profile \<noteq> Some True, ''CPU profile requires nx_supported''),
       (cpu_nx_enabled profile \<noteq> Some True, ''CPU profile requires nx_enabled''),
       (cpu_five_level_paging profile \<noteq> Some False, ''five-level paging is unsupported''),
       (cpu_pcid_enabled profile \<noteq> Some False, ''PCID is unsupported in PKMAP1''),
       (\<not> (case cpu_physical_address_bits profile of None \<Rightarrow> False | Some bits \<Rightarrow> 36 \<le> bits \<and> bits \<le> 52),
        ''physical-address width is unsupported'')]
     (Inr ())"

section \<open>The kernel's mapping request\<close>

definition km_mapping_of :: "mapping_plan \<Rightarrow> km_mapping" where
  "km_mapping_of v = \<lparr>km_virtual_offset = mp_virtual_offset v, km_byte_count = mp_memory_size v,
     km_permissions = mp_permissions v\<rparr>"

definition request_from_elf_plan :: "image_plan \<Rightarrow> nat \<Rightarrow> km_request" where
  "request_from_elf_plan plan physical_address_bits =
     \<lparr>rq_physical_base = ip_physical_base plan, rq_virtual_base = ip_virtual_base plan, rq_image_bytes = ip_image_size plan,
      rq_page_count = ip_image_size plan div PAGE_SIZE, rq_entry_virtual = ip_entry_virtual plan,
      rq_mappings = map km_mapping_of (ip_mappings plan), rq_physical_address_bits = physical_address_bits\<rparr>"

definition validate_mapping :: "km_request \<Rightarrow> km_mapping \<Rightarrow> int \<times> bool \<Rightarrow> (int \<times> bool) res" where
  "validate_mapping request m = (\<lambda>(expected_offset, entry_executable).
     let mapping_end = km_virtual_offset m + km_byte_count m;
         absolute_start = rq_virtual_base request + km_virtual_offset m;
         absolute_end = rq_virtual_base request + mapping_end
     in guarded [
       (\<not> (km_byte_count m > 0 \<and> km_virtual_offset m mod PAGE_SIZE = 0 \<and> km_byte_count m mod PAGE_SIZE = 0),
        ''mapping alignment is invalid''),
       (km_virtual_offset m \<noteq> expected_offset, ''mapping coverage has a gap or overlap''),
       (\<not> permission_code (km_permissions m) \<ge> 0, ''mapping permission is invalid''),
       (km_permissions m = ''rwx'', ''writable-executable mapping is forbidden''),
       (\<not> mapping_end \<le> rq_image_bytes request, ''mapping exceeds the image'')]
     (Inr (mapping_end,
        if absolute_start \<le> rq_entry_virtual request \<and> rq_entry_virtual request < absolute_end \<and> km_permissions m = ''rx''
        then True else entry_executable)))"

definition validate_map_request :: "km_request \<Rightarrow> unit res" where
  "validate_map_request request =
     (let maximum_physical = 2 ^ rq_physical_address_bits request;
          virtual_last = rq_virtual_base request + rq_image_bytes request - 1
      in guarded [
        (\<not> (36 \<le> rq_physical_address_bits request \<and> rq_physical_address_bits request \<le> 52), ''physical-address width is unsupported''),
        (\<not> (rq_physical_base request > 0 \<and> rq_physical_base request mod PAGE_SIZE = 0), ''kernel physical base is invalid''),
        (\<not> rq_physical_base request + rq_image_bytes request \<le> maximum_physical, ''kernel physical range exceeds the CPU width''),
        (\<not> (MIN_VIRTUAL_BASE \<le> rq_virtual_base request \<and> rq_virtual_base request < MAX_VIRTUAL_EXCLUSIVE \<and>
            rq_virtual_base request mod WINDOW_BYTES = 0 \<and> canonical_48 (rq_virtual_base request)), ''kernel virtual base is invalid''),
        (\<not> (0 < rq_image_bytes request \<and> rq_image_bytes request \<le> WINDOW_BYTES \<and> rq_image_bytes request mod PAGE_SIZE = 0),
         ''kernel image size is invalid''),
        (rq_page_count request \<noteq> rq_image_bytes request div PAGE_SIZE, ''kernel page count diverges''),
        (\<not> (virtual_last < MAX_VIRTUAL_EXCLUSIVE \<and> canonical_48 virtual_last \<and>
            page_directory_index (rq_virtual_base request) = page_directory_index virtual_last),
         ''kernel crosses its bounded 2 MiB window''),
        (\<not> (0 < length (rq_mappings request) \<and> length (rq_mappings request) \<le> MAX_MAPPINGS), ''mapping count is invalid''),
        (\<not> (rq_virtual_base request \<le> rq_entry_virtual request \<and> rq_entry_virtual request \<le> virtual_last),
         ''entry address is outside the image'')]
      (rbind (rfold (validate_mapping request) (rq_mappings request) (0, False)) (\<lambda>(expected_offset, entry_executable).
       guarded [
         (expected_offset \<noteq> rq_image_bytes request, ''mappings do not cover the image exactly''),
         (\<not> entry_executable, ''entry address is not in executable memory'')] (Inr ()))))"

section \<open>The kernel's page table\<close>

definition table_addresses :: "int \<Rightarrow> int \<Rightarrow> km_addresses" where
  "table_addresses original_root_address table_base =
     \<lparr>ka_original_root = original_root_address, ka_candidate_root = table_base, ka_pdpt = table_base + PAGE_SIZE,
      ka_page_directory = table_base + 2 * PAGE_SIZE, ka_page_table = table_base + 3 * PAGE_SIZE\<rparr>"

definition address_values :: "km_addresses \<Rightarrow> int list" where
  "address_values a = [ka_original_root a, ka_candidate_root a, ka_pdpt a, ka_page_directory a, ka_page_table a]"

definition page_permissions :: "km_mapping list \<Rightarrow> string list" where
  "page_permissions ms = concat (map (\<lambda>m. replicate (nat (km_byte_count m div PAGE_SIZE)) (km_permissions m)) ms)"

definition fingerprint_page :: "nat \<times> string \<Rightarrow> int \<Rightarrow> int res" where
  "fingerprint_page = (\<lambda>(page, permissions) fingerprint.
     rbind (fnv_u64 fingerprint (int page)) (\<lambda>fingerprint. fnv_u64 fingerprint (permission_code permissions)))"

definition leaf_of :: "int \<Rightarrow> nat \<times> string \<Rightarrow> km_leaf" where
  "leaf_of first_leaf = (\<lambda>(page, permissions).
     \<lparr>lf_page_table_index = first_leaf + int page, lf_virtual_offset = int page * PAGE_SIZE,
      lf_physical_offset = int page * PAGE_SIZE, lf_permissions = permissions,
      lf_normalized_flags = hex_016X (leaf_flags permissions)\<rparr>)"

definition build_model :: "km_request \<Rightarrow> int list option \<Rightarrow> int \<Rightarrow> int \<Rightarrow> kernel_model res" where
  "build_model request original_root original_root_address table_base =
     rbind (validate_map_request request) (\<lambda>_.
     let root = (case original_root of None \<Rightarrow> replicate TABLE_ENTRIES 0 | Some r \<Rightarrow> r);
         addresses = table_addresses original_root_address table_base;
         maximum_physical = 2 ^ rq_physical_address_bits request;
         table_end = table_base + TABLE_PAGE_COUNT * PAGE_SIZE;
         kernel_end = rq_physical_base request + rq_image_bytes request;
         pml4 = pml4_index (rq_virtual_base request);
         first_leaf = page_table_index (rq_virtual_base request);
         permissions = page_permissions (rq_mappings request)
     in guarded [
       (length root \<noteq> TABLE_ENTRIES, ''original root table shape is invalid''),
       (list_ex (\<lambda>v. \<not> (v > 0 \<and> v mod PAGE_SIZE = 0 \<and> v < maximum_physical)) (address_values addresses), ''table address is invalid''),
       (\<not> distinct (address_values addresses), ''table addresses overlap''),
       (rq_physical_base request < table_end \<and> table_base < kernel_end, ''page tables overlap kernel pages''),
       (root ! nat pml4 \<noteq> 0, ''target PML4 slot is occupied''),
       (int (length permissions) \<noteq> rq_page_count request, ''page permission expansion diverges'')]
     (rbind (rfold fingerprint_page (enumerate 0 permissions) KM_FNV_OFFSET) (\<lambda>fingerprint.
      Inr \<lparr>md_contract_id = KM_CONTRACT_ID, md_request = request, md_addresses = addresses,
        md_indices = \<lparr>ki_pml4 = pml4, ki_pdpt = pdpt_index (rq_virtual_base request),
          ki_page_directory = page_directory_index (rq_virtual_base request), ki_first_page_table = first_leaf\<rparr>,
        md_mapped_page_count = rq_page_count request,
        md_read_only_page_count = int (count_list permissions ''r''),
        md_read_execute_page_count = int (count_list permissions ''rx''),
        md_read_write_page_count = int (count_list permissions ''rw''),
        md_writable_executable_page_count = int (count_list permissions ''rwx''),
        md_leaf_fingerprint = hex_016X fingerprint,
        md_leaves = map (leaf_of first_leaf) (enumerate 0 permissions)\<rparr>)))"

definition request_from_model :: "kernel_model \<Rightarrow> km_request" where
  "request_from_model model =
     (let v = md_request model in
      \<lparr>rq_physical_base = rq_physical_base v, rq_virtual_base = rq_virtual_base v, rq_image_bytes = rq_image_bytes v,
       rq_page_count = rq_page_count v, rq_entry_virtual = rq_entry_virtual v,
       rq_mappings = map (\<lambda>m. \<lparr>km_virtual_offset = km_virtual_offset m, km_byte_count = km_byte_count m,
         km_permissions = km_permissions m\<rparr>) (rq_mappings v),
       rq_physical_address_bits = rq_physical_address_bits v\<rparr>)"

definition validate_model :: "kernel_model \<Rightarrow> unit res" where
  "validate_model model =
     rbind (build_model (request_from_model model) None (ka_original_root (md_addresses model))
         (ka_candidate_root (md_addresses model))) (\<lambda>expected.
     guarded [(model \<noteq> expected, ''page-table model diverges from the independent oracle'')] (Inr ()))"

section \<open>The retained stack and handoff\<close>

definition check_ranges :: "int \<Rightarrow> (int \<times> int) list \<Rightarrow> unit res" where
  "check_ranges maximum_physical ranges =
     rfold (\<lambda>(start, byte_count) _.
       guarded [(\<not> start + byte_count \<le> maximum_physical, ''retained physical range exceeds the CPU width'')] (Inr ())) ranges ()"

fun check_disjoint :: "(int \<times> int) list \<Rightarrow> unit res" where
  "check_disjoint [] = Inr ()"
| "check_disjoint ((first_start, first_size) # ranges) =
     rbind (rfold (\<lambda>(second_start, second_size) _.
       guarded [(first_start < second_start + second_size \<and> second_start < first_start + first_size,
         ''retained physical ranges overlap'')] (Inr ())) ranges ()) (\<lambda>_. check_disjoint ranges)"

definition retained_ranges :: "km_request \<Rightarrow> retained_request \<Rightarrow> int \<Rightarrow> (int \<times> int) list" where
  "retained_ranges request retained table_base = [
     (rq_physical_base request, rq_image_bytes request),
     (table_base, TABLE_PAGE_COUNT * PAGE_SIZE),
     (rr_stack_physical_base retained, rr_stack_page_count retained * PAGE_SIZE),
     (rr_handoff_physical_base retained, rr_handoff_capacity_bytes retained)]"

definition retained_groups :: "retained_request \<Rightarrow> (int \<times> int \<times> int \<times> int \<times> string) list" where
  "retained_groups retained = [
     (1, STACK_FIRST_PAGE, STACK_PAGE_COUNT, rr_stack_physical_base retained, ''rw''),
     (2, HANDOFF_FIRST_PAGE, HANDOFF_PAGE_COUNT, rr_handoff_physical_base retained, ''r'')]"

definition retained_page :: "int \<Rightarrow> int \<Rightarrow> int \<Rightarrow> string \<Rightarrow> nat \<Rightarrow> int \<times> retained_leaf list \<Rightarrow> (int \<times> retained_leaf list) res" where
  "retained_page kind first_page physical_base permissions page = (\<lambda>(fingerprint, leaves).
     let page_index = first_page + int page; physical = physical_base + int page * PAGE_SIZE in
     rbind (fnv_u64 fingerprint kind) (\<lambda>fingerprint.
     rbind (fnv_u64 fingerprint page_index) (\<lambda>fingerprint.
     rbind (fnv_u64 fingerprint physical) (\<lambda>fingerprint.
     rbind (fnv_u64 fingerprint (permission_code permissions)) (\<lambda>fingerprint.
     Inr (fingerprint, leaves @ [\<lparr>rl_page_table_index = page_index, rl_physical = physical, rl_permissions = permissions,
       rl_normalized_flags = hex_016X (leaf_flags permissions)\<rparr>]))))))"

definition retained_group :: "int \<times> int \<times> int \<times> int \<times> string \<Rightarrow> int \<times> retained_leaf list \<Rightarrow> (int \<times> retained_leaf list) res" where
  "retained_group = (\<lambda>(kind, first_page, page_count, physical_base, permissions) st.
     rfold (retained_page kind first_page physical_base permissions) [0..<nat page_count] st)"

definition build_retained_model ::
    "km_request \<Rightarrow> retained_request \<Rightarrow> int list option \<Rightarrow> int \<Rightarrow> int \<Rightarrow> retained_model res" where
  "build_retained_model request retained original_root original_root_address table_base =
     rbind (build_model request original_root original_root_address table_base) (\<lambda>kernel.
     guarded [
       (\<not> (rq_page_count request \<le> STACK_GUARD_LOW_PAGE \<and> ki_first_page_table (md_indices kernel) = 0),
        ''kernel collides with the retained stack guard''),
       (\<not> (rr_stack_physical_base retained > 0 \<and> rr_stack_physical_base retained mod PAGE_SIZE = 0 \<and>
           rr_stack_page_count retained = STACK_PAGE_COUNT), ''retained stack range is invalid''),
       (\<not> (rr_handoff_physical_base retained > 0 \<and> rr_handoff_physical_base retained mod PAGE_SIZE = 0 \<and>
           rr_handoff_capacity_bytes retained = HANDOFF_CAPACITY_BYTES), ''retained handoff range is invalid'')]
     (rbind (check_ranges (2 ^ rq_physical_address_bits request) (retained_ranges request retained table_base)) (\<lambda>_.
      rbind (check_disjoint (retained_ranges request retained table_base)) (\<lambda>_.
      let stack_bottom = rq_virtual_base request + STACK_FIRST_PAGE * PAGE_SIZE;
          stack_top = stack_bottom + STACK_PAGE_COUNT * PAGE_SIZE;
          handoff_virtual = rq_virtual_base request + HANDOFF_FIRST_PAGE * PAGE_SIZE;
          handoff_end = handoff_virtual + HANDOFF_CAPACITY_BYTES
      in guarded [
        (\<not> (STACK_FIRST_PAGE + STACK_PAGE_COUNT = STACK_GUARD_HIGH_PAGE \<and> STACK_GUARD_HIGH_PAGE < HANDOFF_FIRST_PAGE \<and>
            HANDOFF_FIRST_PAGE + HANDOFF_PAGE_COUNT \<le> RETAINED_TABLE_ENTRIES), ''retained virtual layout is invalid''),
        (\<not> (canonical_48 stack_bottom \<and> canonical_48 (stack_top - 1) \<and> canonical_48 handoff_virtual \<and>
            canonical_48 (handoff_end - 1) \<and> handoff_end \<le> rq_virtual_base request + WINDOW_BYTES),
         ''retained virtual range is invalid'')]
      (rbind (rfold retained_group (retained_groups retained) (KM_FNV_OFFSET, [])) (\<lambda>(fingerprint, leaves).
       Inr \<lparr>rm_contract_id = RETAINED_CONTRACT_ID, rm_kernel = kernel, rm_retained_request = retained,
         rm_stack_first_page_table_index = STACK_FIRST_PAGE, rm_stack_page_count = STACK_PAGE_COUNT,
         rm_stack_bottom_virtual = stack_bottom, rm_stack_top_virtual = stack_top,
         rm_handoff_first_page_table_index = HANDOFF_FIRST_PAGE, rm_handoff_page_count = HANDOFF_PAGE_COUNT,
         rm_handoff_virtual_base = handoff_virtual,
         rm_guard_page_indices = [STACK_GUARD_LOW_PAGE, STACK_GUARD_HIGH_PAGE], rm_guard_page_count = 2,
         rm_total_mapped_page_count = rq_page_count request + STACK_PAGE_COUNT + HANDOFF_PAGE_COUNT,
         rm_retained_leaf_fingerprint = hex_016X fingerprint, rm_retained_leaves = leaves\<rparr>))))))"


section \<open>Lifecycle evidence\<close>

text \<open>An event is a dictionary; an absent key reads as \<open>None\<close>.\<close>

record map_event =
  ev_state :: "string option"
  ev_original_cr3 :: "int option"
  ev_observed_cr3 :: "int option"
  ev_firmware_call_count :: "int option"
  ev_table_pages_freed :: "int option"

definition validate_lifecycle :: "map_event list \<Rightarrow> unit res" where
  "validate_lifecycle events =
     guarded [
       (map ev_state events \<noteq> [Some ''prepared'', Some ''candidate_active'', Some ''restored'', Some ''released''],
        ''mapping lifecycle order diverges''),
       (ev_firmware_call_count (events ! 1) \<noteq> Some 0, ''firmware was called while candidate CR3 was active''),
       (ev_observed_cr3 (events ! 2) \<noteq> ev_original_cr3 (events ! 0), ''CR3 rollback diverges''),
       (ev_table_pages_freed (events ! 3) \<noteq> Some TABLE_PAGE_COUNT, ''table cleanup diverges'')]
     (Inr ())"

definition validate_retained_lifecycle :: "map_event list \<Rightarrow> unit res" where
  "validate_retained_lifecycle events =
     guarded [
       (map ev_state events \<noteq> [Some ''prepared'', Some ''candidate_active'', Some ''restored'', Some ''retained''],
        ''retained mapping lifecycle order diverges''),
       (ev_firmware_call_count (events ! 1) \<noteq> Some 0, ''firmware was called under candidate CR3''),
       (ev_observed_cr3 (events ! 2) \<noteq> ev_original_cr3 (events ! 0), ''CR3 restore diverges''),
       (ev_table_pages_freed (events ! 3) \<noteq> Some 0, ''retained page tables were released'')]
     (Inr ())"

definition validate_kernel_page_sizes :: "int list \<Rightarrow> unit res" where
  "validate_kernel_page_sizes page_sizes =
     guarded [
       (page_sizes = [], ''kernel page-size evidence is empty''),
       (\<not> list_all (\<lambda>v. v = PAGE_SIZE) page_sizes, ''kernel mapping contains a large page'')]
     (Inr ())"

section \<open>Expected markers\<close>

record km_marker =
  mk_contract_id :: string
  mk_mapping_count :: int
  mk_mapped_page_count :: int
  mk_read_only_page_count :: int
  mk_read_execute_page_count :: int
  mk_read_write_page_count :: int
  mk_writable_executable_page_count :: int
  mk_pml4_index :: int
  mk_pdpt_index :: int
  mk_page_directory_index :: int
  mk_first_page_table_index :: int
  mk_leaf_fingerprint :: string

definition marker_expectation :: "image_plan \<Rightarrow> nat \<Rightarrow> km_marker res" where
  "marker_expectation plan physical_address_bits =
     rbind (build_model (request_from_elf_plan plan physical_address_bits) None ORACLE_ORIGINAL_ROOT ORACLE_TABLE_BASE) (\<lambda>model.
     Inr \<lparr>mk_contract_id = KM_CONTRACT_ID, mk_mapping_count = int (length (rq_mappings (md_request model))),
       mk_mapped_page_count = md_mapped_page_count model, mk_read_only_page_count = md_read_only_page_count model,
       mk_read_execute_page_count = md_read_execute_page_count model, mk_read_write_page_count = md_read_write_page_count model,
       mk_writable_executable_page_count = md_writable_executable_page_count model,
       mk_pml4_index = ki_pml4 (md_indices model), mk_pdpt_index = ki_pdpt (md_indices model),
       mk_page_directory_index = ki_page_directory (md_indices model),
       mk_first_page_table_index = ki_first_page_table (md_indices model), mk_leaf_fingerprint = md_leaf_fingerprint model\<rparr>)"

record retained_probe =
  rp_contract_id :: string
  rp_kernel_page_count :: int
  rp_stack_page_count :: int
  rp_handoff_page_count :: int
  rp_guard_page_count :: int
  rp_total_mapped_page_count :: int
  rp_stack_first_page_table_index :: int
  rp_handoff_first_page_table_index :: int
  rp_retained_leaf_fingerprint :: string

definition retained_probe_expectation :: "image_plan \<Rightarrow> nat \<Rightarrow> retained_probe res" where
  "retained_probe_expectation plan physical_address_bits =
     rbind (build_retained_model (request_from_elf_plan plan physical_address_bits)
         \<lparr>rr_stack_physical_base = 0x04000000, rr_stack_page_count = STACK_PAGE_COUNT,
          rr_handoff_physical_base = 0x05000000, rr_handoff_capacity_bytes = HANDOFF_CAPACITY_BYTES\<rparr>
         None ORACLE_ORIGINAL_ROOT ORACLE_TABLE_BASE) (\<lambda>model.
     Inr \<lparr>rp_contract_id = RETAINED_CONTRACT_ID, rp_kernel_page_count = md_mapped_page_count (rm_kernel model),
       rp_stack_page_count = rm_stack_page_count model, rp_handoff_page_count = rm_handoff_page_count model,
       rp_guard_page_count = rm_guard_page_count model, rp_total_mapped_page_count = rm_total_mapped_page_count model,
       rp_stack_first_page_table_index = rm_stack_first_page_table_index model,
       rp_handoff_first_page_table_index = rm_handoff_first_page_table_index model,
       rp_retained_leaf_fingerprint = rm_retained_leaf_fingerprint model\<rparr>)"

record retained_marker =
  rk_contract_id :: string
  rk_table_page_count :: int
  rk_stack_page_count :: int
  rk_handoff_page_count :: int
  rk_guard_page_count :: int
  rk_total_mapped_page_count :: int
  rk_stack_first_page_table_index :: int
  rk_handoff_first_page_table_index :: int
  rk_page_table_root_physical :: int
  rk_kernel_physical_base :: int
  rk_stack_physical_base :: int
  rk_stack_top_virtual :: int
  rk_handoff_physical_base :: int
  rk_handoff_virtual_base :: int
  rk_retained_leaf_fingerprint :: string

definition retained_marker_expectation :: "image_plan \<Rightarrow> nat \<Rightarrow> int \<Rightarrow> int \<Rightarrow> int \<Rightarrow> int \<Rightarrow> retained_marker res" where
  "retained_marker_expectation plan physical_address_bits kernel_physical_base stack_physical_base handoff_physical_base table_base =
     (let runtime_plan = plan\<lparr>ip_physical_base := kernel_physical_base\<rparr> in
      rbind (build_retained_model (request_from_elf_plan runtime_plan physical_address_bits)
          \<lparr>rr_stack_physical_base = stack_physical_base, rr_stack_page_count = STACK_PAGE_COUNT,
           rr_handoff_physical_base = handoff_physical_base, rr_handoff_capacity_bytes = HANDOFF_CAPACITY_BYTES\<rparr>
          None ORACLE_ORIGINAL_ROOT table_base) (\<lambda>model.
      Inr \<lparr>rk_contract_id = RETAINED_CONTRACT_ID, rk_table_page_count = TABLE_PAGE_COUNT,
        rk_stack_page_count = rm_stack_page_count model, rk_handoff_page_count = rm_handoff_page_count model,
        rk_guard_page_count = rm_guard_page_count model, rk_total_mapped_page_count = rm_total_mapped_page_count model,
        rk_stack_first_page_table_index = rm_stack_first_page_table_index model,
        rk_handoff_first_page_table_index = rm_handoff_first_page_table_index model,
        rk_page_table_root_physical = table_base, rk_kernel_physical_base = kernel_physical_base,
        rk_stack_physical_base = stack_physical_base, rk_stack_top_virtual = rm_stack_top_virtual model,
        rk_handoff_physical_base = handoff_physical_base, rk_handoff_virtual_base = rm_handoff_virtual_base model,
        rk_retained_leaf_fingerprint = rm_retained_leaf_fingerprint model\<rparr>))"

end
