(* ===== verification/Kernel_Mapping.thy ===== *)
theory Kernel_Mapping
  imports Kernel_Map Elf_Sample
begin

text \<open>
  What the page-table oracle guarantees: the model translates every address of the image to the kernel's physical
  range with the permission of its mapping, every loadable kernel image within the window has a model, and the
  retained stack and handoff share no page with the kernel, the tables or each other.
\<close>

unbundle bit_operations_syntax

section \<open>Indices and permissions\<close>

lemma and_511: "(x::int) AND 0x1FF = x mod 512"
proof -
  have "x AND mask 9 = x mod 512" by (simp only: take_bit_eq_mask [symmetric] take_bit_eq_mod) simp
  moreover have "mask 9 = (0x1FF::int)" by (simp add: mask_eq_exp_minus_1)
  ultimately show ?thesis by simp
qed

lemma index_eqs:
  "pml4_index a = a div 2 ^ 39 mod 512" "pdpt_index a = a div 2 ^ 30 mod 512"
  "page_directory_index a = a div 2 ^ 21 mod 512" "page_table_index a = a div 2 ^ 12 mod 512"
  by (simp_all add: pml4_index_def pdpt_index_def page_directory_index_def page_table_index_def and_511 drop_bit_eq_div)

lemma window_div:
  assumes "0 \<le> (k::int)" "k < 0x200000"
  shows "(0x200000 * q + k) div 2 ^ 21 = q" "(0x200000 * q + k) div 2 ^ 30 = q div 512" "(0x200000 * q + k) div 2 ^ 39 = q div 0x40000"
    "(0x200000 * q + k) div 2 ^ 12 mod 512 = k div 4096"
proof -
  show d: "(0x200000 * q + k) div 2 ^ 21 = q" using assms by simp
  have "(0x200000 * q + k) div (2 ^ 21 * 512) = q div 512" by (subst zdiv_zmult2_eq) (simp, simp only: d)
  then show "(0x200000 * q + k) div 2 ^ 30 = q div 512" by simp
  have "(0x200000 * q + k) div (2 ^ 21 * 0x40000) = q div 0x40000" by (subst zdiv_zmult2_eq) (simp, simp only: d)
  then show "(0x200000 * q + k) div 2 ^ 39 = q div 0x40000" by simp
  have "(0x200000 * q + k) div 4096 = 512 * q + k div 4096"
    using div_mult_self1 [of 4096 k "512 * q"] by (simp add: add.commute mult.commute)
  moreover have "0 \<le> k div 4096" "k div 4096 < 512" using assms by (simp_all add: pos_imp_zdiv_nonneg_iff div_less_iff_less_mult)
  ultimately show "(0x200000 * q + k) div 2 ^ 12 mod 512 = k div 4096" by simp
qed

lemma in_window:
  assumes "vb mod WINDOW_BYTES = 0" "0 \<le> k" "k < WINDOW_BYTES"
  shows "pml4_index (vb + k) = pml4_index vb" "pdpt_index (vb + k) = pdpt_index vb"
    "page_directory_index (vb + k) = page_directory_index vb" "page_table_index (vb + k) = k div PAGE_SIZE"
proof -
  obtain q where q: "vb = 0x200000 * q" using assms(1) by (auto simp: WINDOW_BYTES_def)
  have k: "k < 0x200000" using assms(3) by (simp add: WINDOW_BYTES_def)
  note w = window_div [OF assms(2) k, of q] and w0 = window_div [of 0 q, simplified add_0_right]
  show "pml4_index (vb + k) = pml4_index vb" by (simp only: index_eqs q w(3)) (use w0(3) in simp)
  show "pdpt_index (vb + k) = pdpt_index vb" by (simp only: index_eqs q w(2)) (use w0(2) in simp)
  show "page_directory_index (vb + k) = page_directory_index vb" by (simp only: index_eqs q w(1)) (use w0(1) in simp)
  show "page_table_index (vb + k) = k div PAGE_SIZE" by (simp only: index_eqs q w(4) PAGE_SIZE_def)
qed

lemma permission_code_iff: "0 \<le> permission_code p \<longleftrightarrow> p \<in> {''r'', ''rw'', ''rx''}"
  by (auto simp: permission_code_def)

lemma fnv_u64_returns: "0 \<le> v \<Longrightarrow> v < 2 ^ 64 \<Longrightarrow> \<exists>s'. fnv_u64 s v = Inr s'"
  by (simp add: fnv_u64_def to_bytes8_def fits_def)

lemma rfold_returns: "(\<And>x s. x \<in> set xs \<Longrightarrow> \<exists>s'. f x s = Inr s') \<Longrightarrow> \<exists>s'. rfold f xs s = Inr s'"
proof (induction xs arbitrary: s)
  case (Cons x xs)
  then obtain s' where "f x s = Inr s'" by fastforce
  with Cons show ?case by simp
qed simp

section \<open>Mappings that tile a range\<close>

fun tiles :: "int \<Rightarrow> km_mapping list \<Rightarrow> int \<Rightarrow> bool" where
  "tiles off [] e \<longleftrightarrow> off = e"
| "tiles off (m # ms) e \<longleftrightarrow>
     km_virtual_offset m = off \<and> 0 < km_byte_count m \<and> km_byte_count m mod PAGE_SIZE = 0 \<and>
     km_permissions m \<in> {''r'', ''rw'', ''rx''} \<and> tiles (off + km_byte_count m) ms e"

definition enters :: "km_request \<Rightarrow> km_mapping \<Rightarrow> bool" where
  "enters r m \<longleftrightarrow> rq_virtual_base r + km_virtual_offset m \<le> rq_entry_virtual r \<and>
     rq_entry_virtual r < rq_virtual_base r + (km_virtual_offset m + km_byte_count m) \<and> km_permissions m = ''rx''"

lemma validate_mapping_Inr_iff:
  "validate_mapping r m (off, x) = Inr st \<longleftrightarrow>
     0 < km_byte_count m \<and> off mod PAGE_SIZE = 0 \<and> km_byte_count m mod PAGE_SIZE = 0 \<and> km_virtual_offset m = off \<and>
     km_permissions m \<in> {''r'', ''rw'', ''rx''} \<and> off + km_byte_count m \<le> rq_image_bytes r \<and>
     st = (off + km_byte_count m, x \<or> enters r m)"
  unfolding validate_mapping_def prod.case Let_def guarded_Inr_iff enters_def permission_code_iff by auto

lemma validate_mappings_iff:
  "off mod PAGE_SIZE = 0 \<Longrightarrow> rfold (validate_mapping r) ms (off, x) = Inr (e, y) \<longleftrightarrow>
     tiles off ms e \<and> (\<forall>m \<in> set ms. km_virtual_offset m + km_byte_count m \<le> rq_image_bytes r) \<and>
     y = (x \<or> (\<exists>m \<in> set ms. enters r m))"
proof (induction ms arbitrary: off x)
  case (Cons m ms)
  have "(off + km_byte_count m) mod PAGE_SIZE = 0" if "km_byte_count m mod PAGE_SIZE = 0"
    using that Cons.prems mod_add_eq [of off PAGE_SIZE "km_byte_count m"] by simp
  then show ?case
    using Cons.IH Cons.prems by (auto simp: rbind_Inr_iff validate_mapping_Inr_iff)
qed auto

lemma page_permissions_Cons:
  "page_permissions (m # ms) = replicate (nat (km_byte_count m div PAGE_SIZE)) (km_permissions m) @ page_permissions ms"
  by (simp add: page_permissions_def)

lemma tiles_length: "tiles off ms e \<Longrightarrow> int (length (page_permissions ms)) * PAGE_SIZE = e - off"
proof (induction ms arbitrary: off)
  case (Cons m ms)
  then have c: "km_byte_count m div PAGE_SIZE * PAGE_SIZE = km_byte_count m" "0 \<le> km_byte_count m div PAGE_SIZE"
    by (auto simp: PAGE_SIZE_def)
  from Cons.IH [of "off + km_byte_count m"] Cons.prems
  have "int (length (page_permissions ms)) * PAGE_SIZE = e - (off + km_byte_count m)" by simp
  with c show ?case by (simp add: page_permissions_Cons distrib_right)
qed (simp add: page_permissions_def)

lemma tiles_nth:
  assumes "tiles off ms e" "i < length (page_permissions ms)"
  shows "\<exists>m \<in> set ms. km_virtual_offset m \<le> off + int i * PAGE_SIZE \<and>
    off + (int i + 1) * PAGE_SIZE \<le> km_virtual_offset m + km_byte_count m \<and> page_permissions ms ! i = km_permissions m"
  using assms
proof (induction ms arbitrary: off i)
  case (Cons m ms)
  define n where "n = nat (km_byte_count m div PAGE_SIZE)"
  have c: "km_byte_count m = int n * PAGE_SIZE" using Cons.prems(1) by (auto simp: n_def PAGE_SIZE_def)
  have e: "page_permissions (m # ms) = replicate n (km_permissions m) @ page_permissions ms"
    by (simp add: page_permissions_Cons n_def)
  show ?case
  proof (cases "i < n")
    case True
    then have "(int i + 1) * PAGE_SIZE \<le> int n * PAGE_SIZE" by (intro mult_right_mono) (simp_all add: PAGE_SIZE_def)
    moreover have "0 \<le> int i * PAGE_SIZE" by (simp add: PAGE_SIZE_def)
    ultimately show ?thesis using True Cons.prems(1) by (intro bexI [of _ m]) (simp_all add: e c nth_append)
  next
    case False
    have t: "tiles (off + km_byte_count m) ms e" using Cons.prems(1) by simp
    have i: "i - n < length (page_permissions ms)" using Cons.prems(2) False by (simp add: e)
    have d: "int (i - n) = int i - int n" using False by simp
    from Cons.IH [OF t i] obtain m' where m': "m' \<in> set ms" "km_virtual_offset m' \<le> off + km_byte_count m + int (i - n) * PAGE_SIZE"
      "off + km_byte_count m + (int (i - n) + 1) * PAGE_SIZE \<le> km_virtual_offset m' + km_byte_count m'"
      "page_permissions ms ! (i - n) = km_permissions m'" by blast
    have "km_virtual_offset m' \<le> off + int i * PAGE_SIZE" "off + (int i + 1) * PAGE_SIZE \<le> km_virtual_offset m' + km_byte_count m'"
      using m'(2,3) by (simp_all add: c d left_diff_distrib distrib_right)
    with m'(1,4) False show ?thesis by (intro bexI [of _ m']) (simp_all add: e nth_append)
  qed
qed (simp add: page_permissions_def)

lemma tiles_permissions: "tiles off ms e \<Longrightarrow> p \<in> set (page_permissions ms) \<Longrightarrow> p \<in> {''r'', ''rw'', ''rx''}"
  by (induction ms arbitrary: off) (auto simp: page_permissions_def split: if_splits)


section \<open>Requests\<close>

lemma kernel_window_canonical:
  assumes "MIN_VIRTUAL_BASE \<le> a" "a < MAX_VIRTUAL_EXCLUSIVE"
  shows "canonical_48 a"
proof -
  have b: "0xFFFFFFFF80000000 \<le> a" "a < 0xFFFFFFFFC0000000"
    using assms by (simp_all add: MIN_VIRTUAL_BASE_def MAX_VIRTUAL_EXCLUSIVE_def)
  have d: "a div 2 ^ 48 = 0xFFFF" "a div 2 ^ 47 = 0x1FFFF" using b by simp_all
  have "bit a 47" by (simp only: bit_iff_odd d) simp
  then have "a AND 2 ^ 47 \<noteq> 0" using and_exp_eq_0_iff_not_bit by blast
  with b d(1) show ?thesis by (simp add: canonical_48_def drop_bit_eq_div)
qed

lemma validate_map_request_Inr_iff:
  "validate_map_request r = Inr () \<longleftrightarrow>
     36 \<le> rq_physical_address_bits r \<and> rq_physical_address_bits r \<le> 52 \<and>
     0 < rq_physical_base r \<and> rq_physical_base r mod PAGE_SIZE = 0 \<and>
     rq_physical_base r + rq_image_bytes r \<le> 2 ^ rq_physical_address_bits r \<and>
     MIN_VIRTUAL_BASE \<le> rq_virtual_base r \<and> rq_virtual_base r < MAX_VIRTUAL_EXCLUSIVE \<and>
     rq_virtual_base r mod WINDOW_BYTES = 0 \<and> canonical_48 (rq_virtual_base r) \<and>
     0 < rq_image_bytes r \<and> rq_image_bytes r \<le> WINDOW_BYTES \<and> rq_image_bytes r mod PAGE_SIZE = 0 \<and>
     rq_page_count r = rq_image_bytes r div PAGE_SIZE \<and>
     rq_virtual_base r + rq_image_bytes r - 1 < MAX_VIRTUAL_EXCLUSIVE \<and>
     canonical_48 (rq_virtual_base r + rq_image_bytes r - 1) \<and>
     page_directory_index (rq_virtual_base r) = page_directory_index (rq_virtual_base r + rq_image_bytes r - 1) \<and>
     0 < length (rq_mappings r) \<and> length (rq_mappings r) \<le> MAX_MAPPINGS \<and>
     rq_virtual_base r \<le> rq_entry_virtual r \<and> rq_entry_virtual r \<le> rq_virtual_base r + rq_image_bytes r - 1 \<and>
     tiles 0 (rq_mappings r) (rq_image_bytes r) \<and>
     (\<forall>m \<in> set (rq_mappings r). km_virtual_offset m + km_byte_count m \<le> rq_image_bytes r) \<and>
     (\<exists>m \<in> set (rq_mappings r). enters r m)"
proof -
  have z: "0 mod PAGE_SIZE = 0" by simp
  have "(\<exists>st. rfold (validate_mapping r) (rq_mappings r) (0, False) = Inr st \<and>
      (case st of (e, y) \<Rightarrow> guarded [(e \<noteq> rq_image_bytes r, ''mappings do not cover the image exactly''),
         (\<not> y, ''entry address is not in executable memory'')] (Inr ())) = Inr ()) \<longleftrightarrow>
     tiles 0 (rq_mappings r) (rq_image_bytes r) \<and>
     (\<forall>m \<in> set (rq_mappings r). km_virtual_offset m + km_byte_count m \<le> rq_image_bytes r) \<and>
     (\<exists>m \<in> set (rq_mappings r). enters r m)"
    by (simp add: split_paired_Ex validate_mappings_iff [OF z] guarded_Inr_iff)
  then show ?thesis
    unfolding validate_map_request_def Let_def guarded_Inr_iff rbind_Inr_iff by (simp add: conj_ac)
qed

section \<open>Models\<close>

lemma build_model_Inr:
  assumes "build_model r root a t = Inr m"
  shows "validate_map_request r = Inr ()" "md_request m = r" "md_mapped_page_count m = rq_page_count r"
    "md_addresses m = table_addresses a t"
    "ki_pml4 (md_indices m) = pml4_index (rq_virtual_base r)" "ki_pdpt (md_indices m) = pdpt_index (rq_virtual_base r)"
    "ki_page_directory (md_indices m) = page_directory_index (rq_virtual_base r)"
    "ki_first_page_table (md_indices m) = page_table_index (rq_virtual_base r)"
    "md_writable_executable_page_count m = int (count_list (page_permissions (rq_mappings r)) ''rwx'')"
    "md_leaves m = map (leaf_of (page_table_index (rq_virtual_base r))) (enumerate 0 (page_permissions (rq_mappings r)))"
    "int (length (page_permissions (rq_mappings r))) = rq_page_count r"
    "\<not> (rq_physical_base r < t + TABLE_PAGE_COUNT * PAGE_SIZE \<and> t < rq_physical_base r + rq_image_bytes r)"
    "list_all (\<lambda>v. 0 < v \<and> v mod PAGE_SIZE = 0 \<and> v < 2 ^ rq_physical_address_bits r) (address_values (table_addresses a t))"
    "distinct (address_values (table_addresses a t))"
  using assms unfolding build_model_def Let_def rbind_Inr_iff guarded_Inr_iff
  by (auto simp: list_ex_iff list_all_iff)


lemma validate_map_request_window:
  assumes "validate_map_request r = Inr ()"
  shows "rq_virtual_base r mod WINDOW_BYTES = 0" "0 < rq_image_bytes r" "rq_image_bytes r \<le> WINDOW_BYTES"
    "rq_page_count r * PAGE_SIZE = rq_image_bytes r" "tiles 0 (rq_mappings r) (rq_image_bytes r)"
    "page_table_index (rq_virtual_base r) = 0" "int (length (page_permissions (rq_mappings r))) = rq_page_count r"
proof -
  have v: "rq_virtual_base r mod WINDOW_BYTES = 0" "0 < rq_image_bytes r" "rq_image_bytes r \<le> WINDOW_BYTES"
    "rq_page_count r = rq_image_bytes r div PAGE_SIZE" "rq_image_bytes r mod PAGE_SIZE = 0" "tiles 0 (rq_mappings r) (rq_image_bytes r)"
    using assms by (simp_all only: validate_map_request_Inr_iff)
  show "rq_virtual_base r mod WINDOW_BYTES = 0" "0 < rq_image_bytes r" "rq_image_bytes r \<le> WINDOW_BYTES"
    "tiles 0 (rq_mappings r) (rq_image_bytes r)" by (fact v)+
  show "rq_page_count r * PAGE_SIZE = rq_image_bytes r" using v(4,5) by auto
  show "page_table_index (rq_virtual_base r) = 0"
    using in_window(4) [OF v(1), of 0] by (simp add: WINDOW_BYTES_def)
  show "int (length (page_permissions (rq_mappings r))) = rq_page_count r"
    using tiles_length [OF v(6)] v(4,5) by (simp add: PAGE_SIZE_def)
qed

lemma find_leaf:
  "i < length ps \<Longrightarrow> find (\<lambda>l. lf_page_table_index l = int i) (map (leaf_of 0) (enumerate 0 ps)) = Some (leaf_of 0 (i, ps ! i))"
  by (auto simp: find_Some_iff leaf_of_def nth_enumerate_eq intro!: exI [of _ i])

text \<open>
  C3. The page table translates the image: every address of the image walks through the model's PML4, PDPT and page
  directory slots to a leaf of its own page, which maps it to the page at the same offset of the kernel's physical
  range with the permissions and flags of the one mapping that contains it; no leaf is writable and executable.
\<close>
theorem page_table_translates:
  assumes "build_model r root a t = Inr m" "0 \<le> k" "k < rq_image_bytes r" "va = rq_virtual_base r + k"
  shows "pml4_index va = ki_pml4 (md_indices m) \<and> pdpt_index va = ki_pdpt (md_indices m) \<and>
    page_directory_index va = ki_page_directory (md_indices m) \<and> md_writable_executable_page_count m = 0 \<and>
    (\<exists>mp \<in> set (rq_mappings r). km_virtual_offset mp \<le> k \<and> k < km_virtual_offset mp + km_byte_count mp \<and>
       km_permissions mp \<in> {''r'', ''rw'', ''rx''} \<and>
       find (\<lambda>l. lf_page_table_index l = page_table_index va) (md_leaves m) =
         Some \<lparr>lf_page_table_index = page_table_index va, lf_virtual_offset = k - k mod PAGE_SIZE,
           lf_physical_offset = k - k mod PAGE_SIZE, lf_permissions = km_permissions mp,
           lf_normalized_flags = hex_016X (leaf_flags (km_permissions mp))\<rparr>)"
proof -
  let ?ps = "page_permissions (rq_mappings r)"
  note b = build_model_Inr [OF assms(1)] and v = validate_map_request_window [OF build_model_Inr(1) [OF assms(1)]]
  have kw: "k < WINDOW_BYTES" using assms(3) v(3) by simp
  note w = in_window [OF v(1) assms(2) kw]
  define i where "i = nat (k div PAGE_SIZE)"
  have i: "int i = k div PAGE_SIZE" "int i * PAGE_SIZE = k - k mod PAGE_SIZE"
    using assms(2) by (simp_all add: i_def PAGE_SIZE_def pos_imp_zdiv_nonneg_iff minus_mod_eq_div_mult)
  have len: "i < length ?ps"
  proof -
    have "int i * PAGE_SIZE < int (length ?ps) * PAGE_SIZE"
      using assms(2,3) v(4,7) i(2) pos_mod_sign [of PAGE_SIZE k] by (simp add: PAGE_SIZE_def)
    then show ?thesis by (simp add: PAGE_SIZE_def)
  qed
  from tiles_nth [OF v(5) len] obtain mp where mp: "mp \<in> set (rq_mappings r)" "km_virtual_offset mp \<le> int i * PAGE_SIZE"
    "(int i + 1) * PAGE_SIZE \<le> km_virtual_offset mp + km_byte_count mp" "?ps ! i = km_permissions mp" by auto
  have k: "km_virtual_offset mp \<le> k" "k < km_virtual_offset mp + km_byte_count mp"
    using mp(2,3) i(2) pos_mod_bound [of PAGE_SIZE k] pos_mod_sign [of PAGE_SIZE k] by (simp_all add: distrib_right PAGE_SIZE_def)
  have perm: "p \<in> set ?ps \<Longrightarrow> p \<in> {''r'', ''rw'', ''rx''}" for p by (rule tiles_permissions [OF v(5)])
  have "count_list ?ps ''rwx'' = 0" using perm [of "''rwx''"] by (auto simp: count_list_0_iff)
  moreover have "km_permissions mp \<in> {''r'', ''rw'', ''rx''}" using perm len mp(4) by (metis nth_mem)
  moreover have "find (\<lambda>l. lf_page_table_index l = page_table_index va) (md_leaves m) = Some (leaf_of 0 (i, ?ps ! i))"
    using find_leaf [OF len] by (simp only: b(10) v(6) assms(4) w(4) i(1))
  ultimately show ?thesis
    using k mp(1) w b(5-7,9) i mp(4)
    by (intro conjI bexI [of _ mp]) (simp_all add: assms(4) leaf_of_def)
qed


section \<open>From a loaded image to its page table\<close>

lemma fingerprint_returns:
  assumes "\<And>p. p \<in> set ps \<Longrightarrow> p \<in> {''r'', ''rw'', ''rx''}" "length ps < 2 ^ 64"
  shows "\<exists>fp. rfold fingerprint_page (enumerate 0 ps) s = Inr fp"
proof (rule rfold_returns)
  fix x s
  assume x: "x \<in> set (enumerate 0 ps)"
  obtain i p where ip: "x = (i, p)" by fastforce
  have i: "i < length ps" "p \<in> set ps" using x by (auto simp: ip in_set_enumerate_eq)
  have "int i < 2 ^ 64" using i(1) assms(2) by simp
  then obtain s1 where s1: "fnv_u64 s (int i) = Inr s1" using fnv_u64_returns [of "int i" s] by auto
  have "0 \<le> permission_code p \<and> permission_code p < 2 ^ 64" using assms(1) [OF i(2)] by (auto simp: permission_code_def)
  then obtain s2 where "fnv_u64 s1 (permission_code p) = Inr s2" using fnv_u64_returns by blast
  with s1 show "\<exists>s'. fingerprint_page x s = Inr s'" by (simp add: fingerprint_page_def ip)
qed

lemma build_model_returns:
  assumes v: "validate_map_request r = Inr ()"
    and a: "list_all (\<lambda>v. 0 < v \<and> v mod PAGE_SIZE = 0 \<and> v < 2 ^ rq_physical_address_bits r) (address_values (table_addresses a t))"
      "distinct (address_values (table_addresses a t))"
    and d: "\<not> (rq_physical_base r < t + TABLE_PAGE_COUNT * PAGE_SIZE \<and> t < rq_physical_base r + rq_image_bytes r)"
  shows "\<exists>m. build_model r None a t = Inr m"
proof -
  let ?ps = "page_permissions (rq_mappings r)"
  note w = validate_map_request_window [OF v]
  have "int (length ?ps) * PAGE_SIZE \<le> WINDOW_BYTES" using w(3,4,7) by simp
  then have "length ?ps < 2 ^ 64" by (simp add: PAGE_SIZE_def WINDOW_BYTES_def)
  then obtain fp where fp: "rfold fingerprint_page (enumerate 0 ?ps) KM_FNV_OFFSET = Inr fp"
    using fingerprint_returns tiles_permissions [OF w(5)] by blast
  have "0 \<le> pml4_index (rq_virtual_base r) \<and> pml4_index (rq_virtual_base r) < 512" by (simp add: index_eqs)
  then have "replicate TABLE_ENTRIES (0::int) ! nat (pml4_index (rq_virtual_base r)) = 0"
    by (intro nth_replicate) (simp add: TABLE_ENTRIES_def nat_less_iff)
  moreover have "\<not> list_ex (\<lambda>v. \<not> (v > 0 \<and> v mod PAGE_SIZE = 0 \<and> v < 2 ^ rq_physical_address_bits r)) (address_values (table_addresses a t))"
    using a(1) by (auto simp: list_ex_iff list_all_iff)
  ultimately show ?thesis
    using a(2) d w(7) unfolding build_model_def v rbind.simps Let_def
    by (simp only: guarded.simps option.case length_replicate fp rbind.simps simp_thms if_False) blast
qed

lemma elf_request_valid:
  assumes i: "elf_inspect data pb vb = Inr plan" and w: "ip_image_size plan \<le> WINDOW_BYTES"
    and bits: "36 \<le> bits" "bits \<le> 52" "pb + ip_image_size plan \<le> 2 ^ bits"
  shows "validate_map_request (request_from_elf_plan plan bits) = Inr ()"
  using i
proof (rule inspect_layout)
  fix a b c d
  assume l: "0 < a" "0 < b" "0 < c" "0 < d"
    "a mod PAGE_SIZE = 0" "b mod PAGE_SIZE = 0" "c mod PAGE_SIZE = 0" "d mod PAGE_SIZE = 0"
    "ip_mappings plan = [mapping_of 0 a ''r'', mapping_of a b ''rx'', mapping_of (a + b) c ''r'', mapping_of (a + b + c) d ''rw'']"
    "ip_image_size plan = a + b + c + d" "a \<le> ip_entry_offset plan" "ip_entry_offset plan < a + b"
  note p = inspect_bases [OF i]
  let ?r = "request_from_elf_plan plan bits"
  have r: "rq_physical_address_bits ?r = bits" "rq_physical_base ?r = pb" "rq_virtual_base ?r = vb"
    "rq_image_bytes ?r = a + b + c + d" "rq_page_count ?r = (a + b + c + d) div PAGE_SIZE"
    "rq_entry_virtual ?r = vb + ip_entry_offset plan"
    "rq_mappings ?r = [\<lparr>km_virtual_offset = 0, km_byte_count = a, km_permissions = ''r''\<rparr>,
       \<lparr>km_virtual_offset = a, km_byte_count = b, km_permissions = ''rx''\<rparr>,
       \<lparr>km_virtual_offset = a + b, km_byte_count = c, km_permissions = ''r''\<rparr>,
       \<lparr>km_virtual_offset = a + b + c, km_byte_count = d, km_permissions = ''rw''\<rparr>]"
    by (simp_all add: request_from_elf_plan_def p(1,2,4) l(9,10) km_mapping_of_def mapping_of_def)
  have vb: "MIN_VIRTUAL_BASE \<le> vb" "vb + (a + b + c + d) \<le> MAX_VIRTUAL_EXCLUSIVE" "vb mod WINDOW_BYTES = 0"
    using p(9-11) l(10) by (simp_all add: VIRTUAL_BASE_ALIGNMENT_def WINDOW_BYTES_def)
  have size: "(a + b + c + d) mod PAGE_SIZE = 0"
    using l(5-8) by (metis add.right_neutral mod_add_eq mod_0)
  have dir: "page_directory_index (vb + (a + b + c + d - 1)) = page_directory_index vb"
    using w l by (intro in_window [OF vb(3)]) simp_all
  show ?thesis
    unfolding validate_map_request_Inr_iff r
  proof (intro conjI)
    show "canonical_48 vb" "canonical_48 (vb + (a + b + c + d) - 1)"
      using vb l(1-4) by (auto intro!: kernel_window_canonical)
    show "page_directory_index vb = page_directory_index (vb + (a + b + c + d) - 1)"
      using dir by (simp add: add_diff_eq)
    show "\<exists>m \<in> set [\<lparr>km_virtual_offset = 0, km_byte_count = a, km_permissions = ''r''\<rparr>,
       \<lparr>km_virtual_offset = a, km_byte_count = b, km_permissions = ''rx''\<rparr>,
       \<lparr>km_virtual_offset = a + b, km_byte_count = c, km_permissions = ''r''\<rparr>,
       \<lparr>km_virtual_offset = a + b + c, km_byte_count = d, km_permissions = ''rw''\<rparr>]. enters ?r m"
      using l(11,12) by (simp add: enters_def r)
  qed (use l(1-8,11,12) vb size w bits p(6,7) in \<open>simp_all add: l(10) MIN_PHYSICAL_BASE_def MAX_MAPPINGS_def\<close>)
qed

text \<open>
  C4. Every kernel image that \<open>inspect\<close> accepts and that fits the 2 MiB window and the CPU's physical width has a page
  table: with page-aligned tables of their own below the width and apart from the image, \<open>build_model\<close> raises nothing
  on the request made from the plan, maps exactly the image's pages and none of them writable and executable.
\<close>
theorem elf_image_has_page_table:
  assumes "elf_inspect data pb vb = Inr plan" "ip_image_size plan \<le> WINDOW_BYTES"
    and "36 \<le> bits" "bits \<le> 52" "pb + ip_image_size plan \<le> 2 ^ bits"
    and "0 < t" "t mod PAGE_SIZE = 0" "t + 3 * PAGE_SIZE < 2 ^ bits"
    and "0 < a" "a mod PAGE_SIZE = 0" "a < 2 ^ bits" "a < t \<or> t + 3 * PAGE_SIZE < a"
    and "pb + ip_image_size plan \<le> t \<or> t + TABLE_PAGE_COUNT * PAGE_SIZE \<le> pb"
  shows "\<exists>m. build_model (request_from_elf_plan plan bits) None a t = Inr m \<and>
    md_mapped_page_count m * PAGE_SIZE = ip_image_size plan \<and> md_writable_executable_page_count m = 0"
proof -
  let ?r = "request_from_elf_plan plan bits"
  have v: "validate_map_request ?r = Inr ()" by (rule elf_request_valid [OF assms(1-5)])
  have r: "rq_physical_base ?r = pb" "rq_image_bytes ?r = ip_image_size plan" "rq_physical_address_bits ?r = bits"
    using inspect_bases(2) [OF assms(1)] by (simp_all add: request_from_elf_plan_def)
  obtain q where q: "t = 4096 * q" using assms(7) by (auto simp: PAGE_SIZE_def)
  have al: "list_all (\<lambda>v. 0 < v \<and> v mod PAGE_SIZE = 0 \<and> v < 2 ^ rq_physical_address_bits ?r) (address_values (table_addresses a t))"
    using assms(6-11) by (simp add: address_values_def table_addresses_def r) (simp add: q PAGE_SIZE_def)
  have di: "distinct (address_values (table_addresses a t))"
    using assms(12) by (auto simp: address_values_def table_addresses_def PAGE_SIZE_def)
  have no: "\<not> (rq_physical_base ?r < t + TABLE_PAGE_COUNT * PAGE_SIZE \<and> t < rq_physical_base ?r + rq_image_bytes ?r)"
    using assms(13) by (auto simp: r)
  obtain m where m: "build_model ?r None a t = Inr m" using build_model_returns [OF v al di no] by blast
  note w = validate_map_request_window [OF v] and b = build_model_Inr [OF m]
  have "count_list (page_permissions (rq_mappings ?r)) ''rwx'' = 0"
    using tiles_permissions [OF w(5), of "''rwx''"] by (auto simp: count_list_0_iff)
  with m b w(4) r show ?thesis by simp
qed


section \<open>The retained pages\<close>

definition retained_leaf_at :: "int \<Rightarrow> int \<Rightarrow> string \<Rightarrow> nat \<Rightarrow> retained_leaf" where
  "retained_leaf_at first_page physical_base permissions page =
     \<lparr>rl_page_table_index = first_page + int page, rl_physical = physical_base + int page * PAGE_SIZE,
      rl_permissions = permissions, rl_normalized_flags = hex_016X (leaf_flags permissions)\<rparr>"

lemma retained_group_leaves:
  assumes "retained_group (kind, first_page, count, base, perms) (fp, ls) = Inr (fp', ls')"
  shows "ls' = ls @ map (retained_leaf_at first_page base perms) [0..<nat count]"
proof -
  let ?P = "\<lambda>n st. snd st = ls @ map (retained_leaf_at first_page base perms) [0..<n]"
  have "?P (nat count) (fp', ls')"
  proof (rule rfold_upt_inv [where P = ?P])
    show "rfold (retained_page kind first_page base perms) [0..<nat count] (fp, ls) = Inr (fp', ls')"
      using assms by (simp add: retained_group_def)
    show "?P (Suc i) st'" if "?P i st" "retained_page kind first_page base perms i st = Inr st'" for i st st'
      using that by (cases st) (auto simp: retained_page_def rbind_Inr_iff Let_def retained_leaf_at_def)
  qed simp_all
  then show ?thesis by simp
qed

lemma check_disjoint_Inr:
  "check_disjoint (x # xs) = Inr () \<Longrightarrow> list_all (\<lambda>y. fst x + snd x \<le> fst y \<or> fst y + snd y \<le> fst x) xs"
  by (cases x) (fastforce simp: rbind_Inr_iff rfold_unit_iff guarded_Inr_iff list_all_iff)

lemma check_disjoint_tl: "check_disjoint (x # xs) = Inr () \<Longrightarrow> check_disjoint xs = Inr ()"
  by (cases x) (auto simp: rbind_Inr_iff)

lemma build_retained_Inr:
  assumes "build_retained_model r ret root a t = Inr m"
  shows "build_model r root a t = Inr (rm_kernel m)" "rq_page_count r \<le> STACK_GUARD_LOW_PAGE"
    "rr_stack_page_count ret = STACK_PAGE_COUNT" "rr_handoff_capacity_bytes ret = HANDOFF_CAPACITY_BYTES"
    "check_disjoint (retained_ranges r ret t) = Inr ()"
    "rm_guard_page_indices m = [STACK_GUARD_LOW_PAGE, STACK_GUARD_HIGH_PAGE]"
    "rm_total_mapped_page_count m = rq_page_count r + STACK_PAGE_COUNT + HANDOFF_PAGE_COUNT"
    "rm_retained_leaves m =
       map (retained_leaf_at STACK_FIRST_PAGE (rr_stack_physical_base ret) ''rw'') [0..<nat STACK_PAGE_COUNT] @
       map (retained_leaf_at HANDOFF_FIRST_PAGE (rr_handoff_physical_base ret) ''r'') [0..<nat HANDOFF_PAGE_COUNT]"
proof -
  obtain fp where g: "rfold retained_group (retained_groups ret) (KM_FNV_OFFSET, []) = Inr (fp, rm_retained_leaves m)"
    using assms unfolding build_retained_model_def Let_def rbind_Inr_iff guarded_Inr_iff by auto
  then obtain fp1 ls1 where
    "retained_group (1, STACK_FIRST_PAGE, STACK_PAGE_COUNT, rr_stack_physical_base ret, ''rw'') (KM_FNV_OFFSET, []) = Inr (fp1, ls1)"
    "retained_group (2, HANDOFF_FIRST_PAGE, HANDOFF_PAGE_COUNT, rr_handoff_physical_base ret, ''r'') (fp1, ls1) =
       Inr (fp, rm_retained_leaves m)"
    by (auto simp: retained_groups_def rbind_Inr_iff)
  note gs = this [THEN retained_group_leaves]
  show "rm_retained_leaves m =
       map (retained_leaf_at STACK_FIRST_PAGE (rr_stack_physical_base ret) ''rw'') [0..<nat STACK_PAGE_COUNT] @
       map (retained_leaf_at HANDOFF_FIRST_PAGE (rr_handoff_physical_base ret) ''r'') [0..<nat HANDOFF_PAGE_COUNT]"
    using gs by simp
  show "build_model r root a t = Inr (rm_kernel m)" "rq_page_count r \<le> STACK_GUARD_LOW_PAGE"
    "rr_stack_page_count ret = STACK_PAGE_COUNT" "rr_handoff_capacity_bytes ret = HANDOFF_CAPACITY_BYTES"
    "check_disjoint (retained_ranges r ret t) = Inr ()"
    "rm_guard_page_indices m = [STACK_GUARD_LOW_PAGE, STACK_GUARD_HIGH_PAGE]"
    "rm_total_mapped_page_count m = rq_page_count r + STACK_PAGE_COUNT + HANDOFF_PAGE_COUNT"
    using assms unfolding build_retained_model_def Let_def rbind_Inr_iff guarded_Inr_iff by auto
qed

text \<open>The pages of a range, by physical address.\<close>

definition pages_at :: "int \<Rightarrow> nat \<Rightarrow> int list" where
  "pages_at base n = map (\<lambda>i. base + int i * PAGE_SIZE) [0..<n]"

lemma distinct_pages_at [simp]: "distinct (pages_at base n)"
  by (auto simp: pages_at_def distinct_map inj_on_def PAGE_SIZE_def)

lemma pages_at_disjoint:
  assumes "b1 + int n1 * PAGE_SIZE \<le> b2 \<or> b2 + int n2 * PAGE_SIZE \<le> b1"
  shows "set (pages_at b1 n1) \<inter> set (pages_at b2 n2) = {}"
proof -
  have in_range: "b \<le> x \<and> x < b + int n * PAGE_SIZE" if "x \<in> set (pages_at b n)" for x b n
    using that by (auto simp: pages_at_def PAGE_SIZE_def)
  show ?thesis
  proof (rule equals0I)
    fix x
    assume "x \<in> set (pages_at b1 n1) \<inter> set (pages_at b2 n2)"
    then show False using in_range [of x b1 n1] in_range [of x b2 n2] assms by auto
  qed
qed


lemma kernel_leaf_pages:
  assumes "build_model r root a t = Inr m"
  shows "map lf_page_table_index (md_leaves m) = map int [0..<nat (rq_page_count r)]"
    "map (\<lambda>l. rq_physical_base r + lf_physical_offset l) (md_leaves m) = pages_at (rq_physical_base r) (nat (rq_page_count r))"
proof -
  note b = build_model_Inr [OF assms] and v = validate_map_request_window [OF build_model_Inr(1) [OF assms]]
  have len: "length (page_permissions (rq_mappings r)) = nat (rq_page_count r)" using v(7) by simp
  show "map lf_page_table_index (md_leaves m) = map int [0..<nat (rq_page_count r)]"
    by (rule nth_equalityI) (simp_all add: b(10) v(6) len leaf_of_def nth_enumerate_eq)
  show "map (\<lambda>l. rq_physical_base r + lf_physical_offset l) (md_leaves m) = pages_at (rq_physical_base r) (nat (rq_page_count r))"
    by (rule nth_equalityI) (simp_all add: b(10) len leaf_of_def nth_enumerate_eq pages_at_def)
qed

text \<open>
  C7. The retained model keeps all pages apart: the page-table slots of the kernel, the stack and the handoff are
  distinct, lie in the one page table, leave both guard slots unmapped and number as announced; no physical page is
  mapped twice, and none of the five private table pages that start at the table base is mapped. The root table in use
  before is not among them: its address is never compared with the mapped ranges (\<open>original_root_unchecked\<close> below).
\<close>
theorem retained_pages_apart:
  assumes "build_retained_model r ret root a t = Inr m"
    and "slots = map lf_page_table_index (md_leaves (rm_kernel m)) @ map rl_page_table_index (rm_retained_leaves m)"
    and "phys = map (\<lambda>l. rq_physical_base r + lf_physical_offset l) (md_leaves (rm_kernel m)) @ map rl_physical (rm_retained_leaves m)"
  shows "distinct slots \<and> set slots \<subseteq> {0..<512} \<and> set slots \<inter> set (rm_guard_page_indices m) = {} \<and>
    int (length slots) = rm_total_mapped_page_count m \<and> distinct phys \<and> set phys \<inter> set (pages_at t 5) = {}"
proof -
  note b = build_retained_Inr [OF assms(1)] and k = kernel_leaf_pages [OF build_retained_Inr(1) [OF assms(1)]]
  note v = validate_map_request_window [OF build_model_Inr(1) [OF b(1)]]
  define n where "n = nat (rq_page_count r)"
  have n: "int n = rq_page_count r" "int n * PAGE_SIZE = rq_image_bytes r" "n \<le> 192"
    using v(4,7) b(2) by (auto simp: n_def code_defs)
  have slots: "slots = map int [0..<n] @ map (\<lambda>i. 193 + int i) [0..<36] @ map (\<lambda>i. 230 + int i) [0..<256]"
    by (simp add: assms(2) k(1) n_def b(8) comp_def retained_leaf_at_def code_defs)
  have phys: "phys = pages_at (rq_physical_base r) n @ pages_at (rr_stack_physical_base ret) 36 @ pages_at (rr_handoff_physical_base ret) 256"
    by (simp add: assms(3) k(2) n_def b(8) comp_def retained_leaf_at_def pages_at_def STACK_PAGE_COUNT_def HANDOFF_PAGE_COUNT_def)
  note d1 = b(5) [unfolded retained_ranges_def] note d2 = check_disjoint_tl [OF d1] note d3 = check_disjoint_tl [OF d2]
  note apart = check_disjoint_Inr [OF d1] check_disjoint_Inr [OF d2] check_disjoint_Inr [OF d3]
  have sizes: "36 * PAGE_SIZE = rr_stack_page_count ret * PAGE_SIZE" "256 * PAGE_SIZE = rr_handoff_capacity_bytes ret"
      "5 * PAGE_SIZE = TABLE_PAGE_COUNT * PAGE_SIZE"
    by (simp_all add: b(3,4) code_defs)
  have "set (pages_at (rq_physical_base r) n) \<inter> set (pages_at t 5) = {}"
    "set (pages_at (rq_physical_base r) n) \<inter> set (pages_at (rr_stack_physical_base ret) 36) = {}"
    "set (pages_at (rq_physical_base r) n) \<inter> set (pages_at (rr_handoff_physical_base ret) 256) = {}"
    "set (pages_at t 5) \<inter> set (pages_at (rr_stack_physical_base ret) 36) = {}"
    "set (pages_at t 5) \<inter> set (pages_at (rr_handoff_physical_base ret) 256) = {}"
    "set (pages_at (rr_stack_physical_base ret) 36) \<inter> set (pages_at (rr_handoff_physical_base ret) 256) = {}"
    by (rule pages_at_disjoint; use apart in \<open>simp add: sizes n(2)\<close>)+
  then have "distinct phys \<and> set phys \<inter> set (pages_at t 5) = {}" by (auto simp: phys)
  moreover have "distinct slots" "set slots \<subseteq> {0..<512}" "set slots \<inter> {192, 229} = {}" "int (length slots) = int n + 36 + 256"
    using n(3) by (auto simp: slots distinct_map inj_on_def)
  ultimately show ?thesis using n(1) by (simp add: b(6,7) code_defs)
qed


section \<open>Validating a model\<close>

lemma request_from_model_eq: "request_from_model m = md_request m"
  by (cases "md_request m") (auto simp: request_from_model_def Let_def intro!: map_idI)

lemma build_model_root:
  assumes "build_model r root a t = Inr m"
  shows "build_model r None a t = Inr m"
proof -
  obtain m' where m': "build_model r None a t = Inr m'"
    using build_model_returns [OF build_model_Inr(1) [OF assms] build_model_Inr(13,14,12) [OF assms]] by blast
  moreover have "m' = m"
    using assms m' unfolding build_model_def Let_def rbind_Inr_iff guarded_Inr_iff by (elim exE conjE) simp
  ultimately show ?thesis by simp
qed

text \<open>
  \<open>validate_model\<close> accepts exactly the models \<open>build_model\<close> produces, for whatever root table they were
  built over; in particular every tampered field of a model is refused.
\<close>
theorem validate_model_iff:
  "validate_model m = Inr () \<longleftrightarrow> (\<exists>r root a t. build_model r root a t = Inr m)"
proof
  assume "validate_model m = Inr ()"
  then show "\<exists>r root a t. build_model r root a t = Inr m"
    by (auto simp: validate_model_def rbind_Inr_iff guarded_Inr_iff)
next
  assume "\<exists>r root a t. build_model r root a t = Inr m"
  then obtain r root a t where m: "build_model r root a t = Inr m" by blast
  have "ka_original_root (md_addresses m) = a" "ka_candidate_root (md_addresses m) = t"
    by (simp_all add: build_model_Inr(4) [OF m] table_addresses_def)
  with build_model_root [OF m] build_model_Inr(2) [OF m] show "validate_model m = Inr ()"
    by (simp add: validate_model_def request_from_model_eq guarded.simps)
qed

section \<open>The fixture's page table\<close>

abbreviation sample_request :: km_request where
  "sample_request \<equiv> request_from_elf_plan sample_image_plan 48"

abbreviation sample_retained :: retained_request where
  "sample_retained \<equiv> \<lparr>rr_stack_physical_base = 0x4000000, rr_stack_page_count = STACK_PAGE_COUNT,
     rr_handoff_physical_base = 0x5000000, rr_handoff_capacity_bytes = HANDOFF_CAPACITY_BYTES\<rparr>"

lemma sample_request_valid: "validate_map_request sample_request = Inr ()"
  using elf_request_valid [OF sample_inspect, of 48] by (simp add: sample_image_plan_def WINDOW_BYTES_def)

lemma sample_request_fields:
  "rq_physical_base sample_request = 0x2000000" "rq_image_bytes sample_request = 0x4000" "rq_page_count sample_request = 4"
  "rq_virtual_base sample_request = MIN_VIRTUAL_BASE" "rq_physical_address_bits sample_request = 48"
  by (simp_all add: request_from_elf_plan_def sample_image_plan_def PAGE_SIZE_def)

lemma sample_kernel_model:
  "a \<in> {ORACLE_ORIGINAL_ROOT, 0x4000000} \<Longrightarrow> \<exists>m. build_model sample_request None a ORACLE_TABLE_BASE = Inr m"
  by (rule build_model_returns [OF sample_request_valid])
    (auto simp: sample_request_fields address_values_def table_addresses_def code_defs)

lemma elf_image_has_page_table_witness:
  "\<exists>m. build_model sample_request None ORACLE_ORIGINAL_ROOT ORACLE_TABLE_BASE = Inr m \<and>
     md_mapped_page_count m * PAGE_SIZE = 0x4000 \<and> md_writable_executable_page_count m = 0"
  using elf_image_has_page_table [OF sample_inspect, of 48 ORACLE_TABLE_BASE ORACLE_ORIGINAL_ROOT]
  by (simp add: code_defs sample_image_plan_def)

lemma sample_request_mappings:
  "rq_mappings sample_request = [\<lparr>km_virtual_offset = 0, km_byte_count = 0x1000, km_permissions = ''r''\<rparr>,
     \<lparr>km_virtual_offset = 0x1000, km_byte_count = 0x1000, km_permissions = ''rx''\<rparr>,
     \<lparr>km_virtual_offset = 0x2000, km_byte_count = 0x1000, km_permissions = ''r''\<rparr>,
     \<lparr>km_virtual_offset = 0x3000, km_byte_count = 0x1000, km_permissions = ''rw''\<rparr>]"
  by (simp add: request_from_elf_plan_def sample_image_plan_def km_mapping_of_def mapping_of_def)

lemma page_table_translates_witness:
  "\<exists>m. build_model sample_request None ORACLE_ORIGINAL_ROOT ORACLE_TABLE_BASE = Inr m \<and>
     find (\<lambda>l. lf_page_table_index l = page_table_index (MIN_VIRTUAL_BASE + 0x1004)) (md_leaves m) =
         Some \<lparr>lf_page_table_index = page_table_index (MIN_VIRTUAL_BASE + 0x1004), lf_virtual_offset = 0x1000,
           lf_physical_offset = 0x1000, lf_permissions = ''rx'', lf_normalized_flags = hex_016X (leaf_flags ''rx'')\<rparr>"
proof -
  obtain m where m: "build_model sample_request None ORACLE_ORIGINAL_ROOT ORACLE_TABLE_BASE = Inr m"
    using sample_kernel_model [of ORACLE_ORIGINAL_ROOT] by blast
  show ?thesis
    using page_table_translates [OF m, of "0x1004" "MIN_VIRTUAL_BASE + 0x1004"] m
    by (auto simp: sample_request_fields sample_request_mappings PAGE_SIZE_def)
qed

lemma retained_group_returns:
  assumes "0 \<le> kind" "kind < 2 ^ 64" "0 \<le> first" "first + count < 2 ^ 64" "0 \<le> base" "base + count * PAGE_SIZE < 2 ^ 64"
    "perms \<in> {''r'', ''rw'', ''rx''}"
  shows "\<exists>st'. retained_group (kind, first, count, base, perms) st = Inr st'"
  unfolding retained_group_def prod.case
proof (rule rfold_returns)
  fix page :: nat and st :: "int \<times> retained_leaf list"
  assume "page \<in> set [0..<nat count]"
  then have p: "int page < count" by auto
  then have p': "int page * PAGE_SIZE \<le> count * PAGE_SIZE" by (simp add: PAGE_SIZE_def)
  obtain fp ls where st: "st = (fp, ls)" by fastforce
  have c: "0 \<le> permission_code perms" "permission_code perms < 2 ^ 64" using assms(7) by (auto simp: permission_code_def)
  obtain s1 where s1: "fnv_u64 fp kind = Inr s1" using fnv_u64_returns [OF assms(1,2)] by blast
  obtain s2 where s2: "fnv_u64 s1 (first + int page) = Inr s2"
    using fnv_u64_returns [of "first + int page" s1] assms(3,4) p by auto
  obtain s3 where s3: "fnv_u64 s2 (base + int page * PAGE_SIZE) = Inr s3"
    using fnv_u64_returns [of "base + int page * PAGE_SIZE" s2] assms(5,6) p' by (auto simp: PAGE_SIZE_def)
  obtain s4 where s4: "fnv_u64 s3 (permission_code perms) = Inr s4" using fnv_u64_returns [OF c] by blast
  show "\<exists>st'. retained_page kind first base perms page st = Inr st'"
    by (simp add: retained_page_def st Let_def s1 s2 s3 s4)
qed

lemma sample_retained_model:
  assumes "a \<in> {ORACLE_ORIGINAL_ROOT, 0x4000000}"
  shows "\<exists>m. build_retained_model sample_request sample_retained None a ORACLE_TABLE_BASE = Inr m"
proof -
  obtain k where k: "build_model sample_request None a ORACLE_TABLE_BASE = Inr k" using sample_kernel_model [OF assms] by blast
  have first: "ki_first_page_table (md_indices k) = 0"
    using build_model_Inr(8) [OF k] validate_map_request_window(6) [OF sample_request_valid] by simp
  have canon: "canonical_48 (MIN_VIRTUAL_BASE + x)" if "0 \<le> x" "x < 0x40000000" for x
    using that by (intro kernel_window_canonical) (simp_all add: code_defs)
  obtain s1 where s1: "retained_group (1, STACK_FIRST_PAGE, STACK_PAGE_COUNT, 0x4000000, ''rw'') (KM_FNV_OFFSET, []) = Inr s1"
    using retained_group_returns by (fastforce simp: code_defs)
  obtain fp ls where s2: "retained_group (2, HANDOFF_FIRST_PAGE, HANDOFF_PAGE_COUNT, 0x5000000, ''r'') s1 = Inr (fp, ls)"
    using retained_group_returns [of 2 HANDOFF_FIRST_PAGE HANDOFF_PAGE_COUNT "0x5000000" "''r''" s1] by (auto simp: code_defs)
  have ranges: "check_ranges 281474976710656 (retained_ranges sample_request sample_retained ORACLE_TABLE_BASE) = Inr ()"
    "check_disjoint (retained_ranges sample_request sample_retained ORACLE_TABLE_BASE) = Inr ()"
    by (simp_all add: check_ranges_def retained_ranges_def sample_request_fields guarded.simps) (simp_all add: code_defs)
  have c: "canonical_48 (MIN_VIRTUAL_BASE + STACK_FIRST_PAGE * PAGE_SIZE)"
    "canonical_48 (MIN_VIRTUAL_BASE + STACK_FIRST_PAGE * PAGE_SIZE + STACK_PAGE_COUNT * PAGE_SIZE - 1)"
    "canonical_48 (MIN_VIRTUAL_BASE + HANDOFF_FIRST_PAGE * PAGE_SIZE)"
    "canonical_48 (MIN_VIRTUAL_BASE + HANDOFF_FIRST_PAGE * PAGE_SIZE + HANDOFF_CAPACITY_BYTES - 1)"
    by (rule kernel_window_canonical; simp add: code_defs)+
  show ?thesis
    using first c s1 s2
    by (simp add: build_retained_model_def k ranges sample_request_fields Let_def guarded.simps retained_groups_def)
      (simp add: code_defs)
qed

lemma retained_pages_apart_witness:
  "\<exists>m. build_retained_model sample_request sample_retained None ORACLE_ORIGINAL_ROOT ORACLE_TABLE_BASE = Inr m \<and>
     distinct (map rl_physical (rm_retained_leaves m)) \<and> rm_total_mapped_page_count m = 296"
proof -
  obtain m where m: "build_retained_model sample_request sample_retained None ORACLE_ORIGINAL_ROOT ORACLE_TABLE_BASE = Inr m"
    using sample_retained_model [of ORACLE_ORIGINAL_ROOT] by blast
  show ?thesis
    using retained_pages_apart [OF m refl refl] m build_retained_Inr(7) [OF m]
    by (auto simp: sample_request_fields code_defs)
qed

text \<open>
  The build accepts a root table that lies in the stack: with the stack's first page as the address of the original
  root the retained model is built, and maps that table writable.
\<close>

lemma original_root_unchecked:
  "\<exists>m. build_retained_model sample_request sample_retained None 0x4000000 ORACLE_TABLE_BASE = Inr m \<and>
     (\<exists>l \<in> set (rm_retained_leaves m). rl_physical l = 0x4000000 \<and> rl_permissions l = ''rw'')"
proof -
  obtain m where m: "build_retained_model sample_request sample_retained None 0x4000000 ORACLE_TABLE_BASE = Inr m"
    using sample_retained_model [of "0x4000000"] by blast
  have "retained_leaf_at STACK_FIRST_PAGE 0x4000000 ''rw'' 0 \<in> set (rm_retained_leaves m)"
    by (simp add: build_retained_Inr(8) [OF m] STACK_PAGE_COUNT_def)
  then have "\<exists>l \<in> set (rm_retained_leaves m). rl_physical l = 0x4000000 \<and> rl_permissions l = ''rw''"
    by (rule bexI [rotated]) (simp add: retained_leaf_at_def)
  then show ?thesis using m by blast
qed

end
