(* ===== verification/Boot_Trust.thy ===== *)
theory Boot_Trust
  imports Prelude Sha256
begin

unbundle bit_operations_syntax

text \<open>
  PBTRUST1 and PBSTATE1, the boot-policy and monotonic-state oracle of \<open>src/runtime/native_boot_trust.py\<close>: the
  policy record and the state record with their encoders and parsers, the selection of the state among two redundant
  copies under a monotonic anchor, the plan of the next transition, and the authorisation of an observed boot.
  Digests are hexadecimal strings as in the source; strings are ASCII.
\<close>

section \<open>Constants\<close>

definition BT_CONTRACT_ID :: string where "BT_CONTRACT_ID = ''PBTRUST1''"
definition LOGICAL_DIGEST_DOMAIN :: bytes where
  "LOGICAL_DIGEST_DOMAIN = [0x50, 0x4F, 0x4F, 0x4C, 0x45, 0x4F, 0x53, 0x2F, 0x50, 0x42, 0x54, 0x53, 0x31, 0x2F,
     0x4C, 0x4F, 0x47, 0x49, 0x43, 0x41, 0x4C, 0x2F, 0x56, 0x31, 0]"
definition POLICY_MAGIC :: bytes where "POLICY_MAGIC = [0x50, 0x42, 0x54, 0x50, 0x31, 0, 0, 0]"
definition BT_STATE_MAGIC :: bytes where "BT_STATE_MAGIC = [0x50, 0x42, 0x54, 0x53, 0x31, 0, 0, 0]"
definition BT_MAJOR_VERSION :: int where [code_defs]: "BT_MAJOR_VERSION = 1"
definition BT_MINOR_VERSION :: int where [code_defs]: "BT_MINOR_VERSION = 0"
definition POLICY_BYTES :: nat where [code_defs]: "POLICY_BYTES = 320"
definition BT_STATE_BYTES :: nat where [code_defs]: "BT_STATE_BYTES = 256"
definition POLICY_BODY_BYTES :: nat where [code_defs]: "POLICY_BODY_BYTES = 224"
definition STATE_BODY_BYTES :: nat where [code_defs]: "STATE_BODY_BYTES = 224"
definition SIGNATURE_CAPACITY :: nat where [code_defs]: "SIGNATURE_CAPACITY = 64"
definition ARTIFACT_ROLE_MASK :: int where [code_defs]: "ARTIFACT_ROLE_MASK = 0x7F"
definition MAX_SIGNERS :: int where [code_defs]: "MAX_SIGNERS = 8"
definition POLICY_FLAG_DEVELOPMENT_UNSIGNED :: int where [code_defs]: "POLICY_FLAG_DEVELOPMENT_UNSIGNED = 1"
definition POLICY_FLAG_SIGNED :: int where [code_defs]: "POLICY_FLAG_SIGNED = 2"
definition POLICY_KNOWN_FLAGS :: int where [code_defs]:
  "POLICY_KNOWN_FLAGS = POLICY_FLAG_DEVELOPMENT_UNSIGNED OR POLICY_FLAG_SIGNED"
definition STATE_FLAG_DEVELOPMENT_CANDIDATE :: int where [code_defs]: "STATE_FLAG_DEVELOPMENT_CANDIDATE = 1"
definition STATE_FLAG_COMMITTED :: int where [code_defs]: "STATE_FLAG_COMMITTED = 2"
definition STATE_FLAG_AUTHENTICATED_BACKEND :: int where [code_defs]: "STATE_FLAG_AUTHENTICATED_BACKEND = 4"
definition BT_STATE_KNOWN_FLAGS :: int where [code_defs]:
  "BT_STATE_KNOWN_FLAGS = (STATE_FLAG_DEVELOPMENT_CANDIDATE OR STATE_FLAG_COMMITTED) OR STATE_FLAG_AUTHENTICATED_BACKEND"
definition COPY_COUNT :: int where [code_defs]: "COPY_COUNT = 2"
definition COMMIT_COMPLETE :: int where [code_defs]: "COMMIT_COMPLETE = 1"
definition REDUNDANT_COPY_MASK :: int where [code_defs]: "REDUNDANT_COPY_MASK = 3"
definition TRANSITION_STEP_COUNT :: int where [code_defs]: "TRANSITION_STEP_COUNT = 9"

section \<open>Records\<close>

record bt_policy =
  po_flags :: int
  po_policy_version :: int
  po_trust_epoch :: int
  po_minimum_secure_version :: int
  po_minimum_state_generation :: int
  po_artifact_role_mask :: int
  po_signer_threshold :: int
  po_signer_count :: int
  po_auth_profile :: int
  po_signature_bytes :: int
  po_manifest_sha256 :: string
  po_kernel_sha256 :: string
  po_retained_set_sha256 :: string
  po_revocation_set_sha256 :: string
  po_root_set_id :: bytes
  po_signer_set_id :: bytes
  po_body_sha256 :: string
  po_raw :: bytes

record bt_state =
  bs_flags :: int
  bs_copy_index :: int
  bs_auth_profile :: int
  bs_state_generation :: int
  bs_store_epoch :: int
  bs_minimum_secure_version :: int
  bs_accepted_manifest_version :: int
  bs_accepted_policy_version :: int
  bs_policy_sha256 :: string
  bs_manifest_sha256 :: string
  bs_kernel_sha256 :: string
  bs_retained_set_sha256 :: string
  bs_previous_state_sha256 :: string
  bs_body_sha256 :: string
  bs_raw :: bytes

record monotonic_anchor =
  an_authenticated :: bool
  an_monotonic :: bool
  an_state_generation :: int
  an_store_epoch :: int
  an_auth_profile :: int
  an_logical_state_sha256 :: string
  an_previous_state_sha256 :: string

record backend_requirements =
  br_minimum_state_generation :: int
  br_minimum_store_epoch :: int
  br_target_store_epoch :: int
  br_target_auth_profile :: int

record backend_access =
  ba_writable :: bool
  ba_repair_capacity :: bool

record backend_copy =
  bc_data :: "bytes option"
  bc_authentication_verified :: bool

record backend_selection =
  se_selected_copy :: int
  se_present_copy_mask :: int
  se_parsed_copy_mask :: int
  se_authenticated_copy_mask :: int
  se_anchored_copy_mask :: int
  se_repair_copy_mask :: int
  se_stale_copy_mask :: int
  se_future_copy_mask :: int
  se_state_generation :: int
  se_store_epoch :: int
  se_auth_profile :: int
  se_logical_state_sha256 :: string
  se_previous_state_sha256 :: string
  se_target_store_epoch :: int
  se_target_auth_profile :: int
  se_migration_required :: bool
  se_authority_grants :: int
  se_state_writes :: int

record backend_transition_plan =
  tp_source_copy :: int
  tp_target_copy :: int
  tp_next_generation :: int
  tp_target_store_epoch :: int
  tp_target_auth_profile :: int
  tp_previous_state_sha256 :: string
  tp_ordered_step_count :: int
  tp_state_writes_performed :: int
  tp_anchor_writes_performed :: int
  tp_authority_grants :: int

record observed_boot =
  ob_manifest_sha256 :: string
  ob_kernel_sha256 :: string
  ob_retained_set_sha256 :: string
  ob_revocation_set_sha256 :: string
  ob_manifest_version :: int
  ob_minimum_secure_version :: int
  ob_artifact_role_mask :: int

record verification_evidence =
  ev_policy_signature_verified :: bool
  ev_policy_threshold_verified :: bool
  ev_revocation_state_authenticated :: bool
  ev_policy_not_revoked :: bool
  ev_state_authenticated :: bool
  ev_state_monotonic :: bool
  ev_state_backend_writable :: bool
  ev_secure_boot_state_verified :: bool

definition evidence_development :: verification_evidence where
  "evidence_development = \<lparr>ev_policy_signature_verified = False, ev_policy_threshold_verified = False,
     ev_revocation_state_authenticated = False, ev_policy_not_revoked = False, ev_state_authenticated = False,
     ev_state_monotonic = False, ev_state_backend_writable = False, ev_secure_boot_state_verified = False\<rparr>"

definition evidence_synthetic_qualified :: verification_evidence where
  "evidence_synthetic_qualified = \<lparr>ev_policy_signature_verified = True, ev_policy_threshold_verified = True,
     ev_revocation_state_authenticated = True, ev_policy_not_revoked = True, ev_state_authenticated = True,
     ev_state_monotonic = True, ev_state_backend_writable = True, ev_secure_boot_state_verified = True\<rparr>"

section \<open>Hexadecimal digests\<close>

text \<open>
  \<open>bytes.fromhex\<close> skips ASCII white space in front of a pair of digits and raises \<open>ValueError\<close> on anything else;
  \<open>str.upper\<close> on ASCII letters.
\<close>

definition hex_value :: "char \<Rightarrow> nat option" where
  "hex_value c = (let n = of_char c :: nat in
     if 48 \<le> n \<and> n \<le> 57 then Some (n - 48) else if 65 \<le> n \<and> n \<le> 70 then Some (n - 55)
     else if 97 \<le> n \<and> n \<le> 102 then Some (n - 87) else None)"

definition is_space :: "char \<Rightarrow> bool" where
  "is_space c = (let n = of_char c :: nat in n = 32 \<or> 9 \<le> n \<and> n \<le> 13)"

fun fromhex :: "string \<Rightarrow> bytes res" where
  "fromhex [] = Inr []"
| "fromhex [c] = (if is_space c then Inr [] else Inl ValueError)"
| "fromhex (c # d # cs) =
     (if is_space c then fromhex (d # cs)
      else case (hex_value c, hex_value d) of
        (Some a, Some b) \<Rightarrow> rbind (fromhex cs) (\<lambda>bs. Inr (of_nat (16 * a + b) # bs))
      | _ \<Rightarrow> Inl ValueError)"

definition upper_char :: "char \<Rightarrow> char" where
  "upper_char c = (let n = of_char c :: nat in if 97 \<le> n \<and> n \<le> 122 then char_of (n - 32) else c)"

definition bt_digest :: "string \<Rightarrow> string \<Rightarrow> bytes res" where
  "bt_digest v code =
     guarded [(length v \<noteq> 64 \<or> v \<noteq> map upper_char v, code)]
     (case fromhex v of Inl _ \<Rightarrow> Inl (Fail code)
      | Inr decoded \<Rightarrow> guarded [(decoded = zeros 32, code)] (Inr decoded))"

definition anchor_digest :: "string \<Rightarrow> bool \<Rightarrow> bytes option" where
  "anchor_digest v allow_zero =
     (if length v \<noteq> 64 \<or> v \<noteq> map upper_char v then None
      else case fromhex v of Inl _ \<Rightarrow> None
      | Inr decoded \<Rightarrow> if \<not> allow_zero \<and> decoded = zeros 32 then None else Some decoded)"

section \<open>The policy record\<close>

text \<open>\<open>int.bit_count\<close> of a non-negative number.\<close>

fun bit_count :: "nat \<Rightarrow> nat" where
  "bit_count n = (if n = 0 then 0 else n mod 2 + bit_count (n div 2))"

declare bit_count.simps [simp del]

record policy_args =
  pa_manifest_sha256 :: string
  pa_kernel_sha256 :: string
  pa_retained_set_sha256 :: string
  pa_revocation_set_sha256 :: string
  pa_policy_version :: int
  pa_trust_epoch :: int
  pa_minimum_secure_version :: int
  pa_minimum_state_generation :: int
  pa_signed :: bool
  pa_signer_threshold :: int
  pa_signer_count :: int
  pa_auth_profile :: int
  pa_root_set_id :: bytes
  pa_signer_set_id :: bytes
  pa_signature :: bytes

definition policy_signer :: "policy_args \<Rightarrow> bytes \<Rightarrow> bytes res" where
  "policy_signer a output =
     (if pa_signed a then
        guarded [(length (pa_root_set_id a) \<noteq> 16 \<or> length (pa_signer_set_id a) \<noteq> 16 \<or>
            \<not> (1 \<le> length (pa_signature a) \<and> length (pa_signature a) \<le> SIGNATURE_CAPACITY), ''pbtrust_policy_signer_shape'')]
        (rbind (pack_into output 52 [(2, pa_signer_threshold a), (2, pa_signer_count a), (2, pa_auth_profile a),
            (2, int (length (pa_signature a)))]) (\<lambda>output.
         let output = slice_assign output 192 208 (pa_root_set_id a);
             output = slice_assign output 208 224 (pa_signer_set_id a)
         in Inr (slice_assign output 256 (256 + length (pa_signature a)) (pa_signature a))))
      else Inr output)"

definition put_digest :: "nat \<Rightarrow> string \<Rightarrow> string \<Rightarrow> bytes \<Rightarrow> bytes res" where
  "put_digest offset v code output =
     rbind (bt_digest v code) (\<lambda>d. Inr (slice_assign output offset (offset + 32) d))"

definition encode_policy :: "policy_args \<Rightarrow> bytes res" where
  "encode_policy a =
     (let output = slice_assign (zeros POLICY_BYTES) 0 8 POLICY_MAGIC in
      rbind (pack_into output 8 [(2, BT_MAJOR_VERSION), (2, BT_MINOR_VERSION), (2, int POLICY_BYTES),
          (2, if pa_signed a then POLICY_FLAG_SIGNED else POLICY_FLAG_DEVELOPMENT_UNSIGNED)]) (\<lambda>output.
      rbind (pack_into output 16 [(8, pa_policy_version a), (8, pa_trust_epoch a), (8, pa_minimum_secure_version a),
          (8, pa_minimum_state_generation a), (4, ARTIFACT_ROLE_MASK)]) (\<lambda>output.
      rbind (policy_signer a output) (\<lambda>output.
      rbind (put_digest 64 (pa_manifest_sha256 a) ''pbtrust_policy_digest'' output) (\<lambda>output.
      rbind (put_digest 96 (pa_kernel_sha256 a) ''pbtrust_policy_digest'' output) (\<lambda>output.
      rbind (put_digest 128 (pa_retained_set_sha256 a) ''pbtrust_policy_digest'' output) (\<lambda>output.
      rbind (put_digest 160 (pa_revocation_set_sha256 a) ''pbtrust_policy_digest'' output) (\<lambda>output.
      Inr (slice_assign output 224 256 (sha256 (take POLICY_BODY_BYTES output)))))))))))"

definition parse_policy :: "bytes \<Rightarrow> bt_policy res" where
  "parse_policy data =
     (let flags = rd 2 data 14; policy_version = rd 8 data 16; trust_epoch = rd 8 data 24;
          minimum_secure_version = rd 8 data 32; minimum_state_generation = rd 8 data 40; role_mask = rd 4 data 48;
          signer_threshold = rd 2 data 52; signer_count = rd 2 data 54; auth_profile = rd 2 data 56;
          signature_bytes = rd 2 data 58;
          digests = map (\<lambda>offset. bslice data offset (offset + 32)) [64, 96, 128, 160];
          root_set_id = bslice data 192 208; signer_set_id = bslice data 208 224; body_sha256 = bslice data 224 256;
          signature = drop 256 data
      in guarded [
        (length data < POLICY_BYTES, ''pbtrust_policy_truncated''),
        (length data \<noteq> POLICY_BYTES, ''pbtrust_policy_size''),
        (rd 2 data 12 \<noteq> int POLICY_BYTES, ''pbtrust_policy_size''),
        (bslice data 0 8 \<noteq> POLICY_MAGIC, ''pbtrust_policy_magic''),
        ((rd 2 data 8, rd 2 data 10) \<noteq> (BT_MAJOR_VERSION, BT_MINOR_VERSION), ''pbtrust_policy_version''),
        (flags AND NOT POLICY_KNOWN_FLAGS \<noteq> 0 \<or> bit_count (nat flags) \<noteq> 1, ''pbtrust_policy_flags''),
        (policy_version = 0 \<or> trust_epoch = 0 \<or> minimum_secure_version = 0 \<or> minimum_state_generation = 0,
         ''pbtrust_policy_numbers''),
        (role_mask \<noteq> ARTIFACT_ROLE_MASK, ''pbtrust_policy_role_mask''),
        (rd 4 data 60 \<noteq> 0, ''pbtrust_policy_signer_shape''),
        (list_ex (\<lambda>v. v = zeros 32) digests, ''pbtrust_policy_digest''),
        (sha256 (take POLICY_BODY_BYTES data) \<noteq> body_sha256, ''pbtrust_policy_body_digest''),
        (flags = POLICY_FLAG_DEVELOPMENT_UNSIGNED \<and>
         (signer_threshold \<noteq> 0 \<or> signer_count \<noteq> 0 \<or> auth_profile \<noteq> 0 \<or> signature_bytes \<noteq> 0 \<or>
          root_set_id \<noteq> zeros 16 \<or> signer_set_id \<noteq> zeros 16 \<or> signature \<noteq> zeros SIGNATURE_CAPACITY), ''pbtrust_policy_signer_shape''),
        (flags \<noteq> POLICY_FLAG_DEVELOPMENT_UNSIGNED \<and>
         (\<not> (1 \<le> signer_threshold \<and> signer_threshold \<le> signer_count \<and> signer_count \<le> MAX_SIGNERS) \<or> auth_profile = 0 \<or>
          \<not> (1 \<le> signature_bytes \<and> signature_bytes \<le> int SIGNATURE_CAPACITY) \<or> root_set_id = zeros 16 \<or> signer_set_id = zeros 16),
         ''pbtrust_policy_signer_shape''),
        (flags \<noteq> POLICY_FLAG_DEVELOPMENT_UNSIGNED \<and>
         (take (nat signature_bytes) signature = zeros (nat signature_bytes) \<or>
          drop (nat signature_bytes) signature \<noteq> zeros (SIGNATURE_CAPACITY - nat signature_bytes)), ''pbtrust_policy_signature'')]
      (Inr \<lparr>po_flags = flags, po_policy_version = policy_version, po_trust_epoch = trust_epoch,
        po_minimum_secure_version = minimum_secure_version, po_minimum_state_generation = minimum_state_generation,
        po_artifact_role_mask = role_mask, po_signer_threshold = signer_threshold, po_signer_count = signer_count,
        po_auth_profile = auth_profile, po_signature_bytes = signature_bytes,
        po_manifest_sha256 = hex_upper (digests ! 0), po_kernel_sha256 = hex_upper (digests ! 1),
        po_retained_set_sha256 = hex_upper (digests ! 2), po_revocation_set_sha256 = hex_upper (digests ! 3),
        po_root_set_id = root_set_id, po_signer_set_id = signer_set_id, po_body_sha256 = hex_upper body_sha256, po_raw = data\<rparr>))"

section \<open>The state record\<close>

record state_args =
  sa_policy_sha256 :: string
  sa_manifest_sha256 :: string
  sa_kernel_sha256 :: string
  sa_retained_set_sha256 :: string
  sa_state_generation :: int
  sa_store_epoch :: int
  sa_minimum_secure_version :: int
  sa_accepted_manifest_version :: int
  sa_accepted_policy_version :: int
  sa_authenticated_backend :: bool
  sa_copy_index :: int
  sa_auth_profile :: int
  sa_previous_state_sha256 :: "string option"

text \<open>\<open>output[i] = v\<close> on a \<open>bytearray\<close>.\<close>

definition set_byte :: "nat \<Rightarrow> int \<Rightarrow> bytes \<Rightarrow> bytes res" where
  "set_byte i v output =
     (if \<not> i < length output then Inl IndexError
      else if v < 0 \<or> 255 < v then Inl ValueError else Inr (output[i := word_of_int v]))"

definition bt_encode_state :: "state_args \<Rightarrow> bytes res" where
  "bt_encode_state a =
     (let output = slice_assign (zeros BT_STATE_BYTES) 0 8 BT_STATE_MAGIC;
          flags = STATE_FLAG_COMMITTED OR
            (if sa_authenticated_backend a then STATE_FLAG_AUTHENTICATED_BACKEND else STATE_FLAG_DEVELOPMENT_CANDIDATE)
      in rbind (pack_into output 8 [(2, BT_MAJOR_VERSION), (2, BT_MINOR_VERSION), (2, int BT_STATE_BYTES), (2, flags)]) (\<lambda>output.
      rbind (set_byte 16 (sa_copy_index a) output) (\<lambda>output.
      rbind (set_byte 17 COPY_COUNT output) (\<lambda>output.
      rbind (pack_into output 18 [(2, COMMIT_COMPLETE), (2, if sa_authenticated_backend a then sa_auth_profile a else 0), (2, 0)]) (\<lambda>output.
      rbind (pack_into output 24 [(8, sa_state_generation a), (8, sa_store_epoch a), (8, sa_minimum_secure_version a),
          (8, sa_accepted_manifest_version a), (8, sa_accepted_policy_version a)]) (\<lambda>output.
      rbind (put_digest 64 (sa_policy_sha256 a) ''pbtrust_state_digest'' output) (\<lambda>output.
      rbind (put_digest 96 (sa_manifest_sha256 a) ''pbtrust_state_digest'' output) (\<lambda>output.
      rbind (put_digest 128 (sa_kernel_sha256 a) ''pbtrust_state_digest'' output) (\<lambda>output.
      rbind (put_digest 160 (sa_retained_set_sha256 a) ''pbtrust_state_digest'' output) (\<lambda>output.
      rbind (case sa_previous_state_sha256 a of None \<Rightarrow> Inr output
        | Some p \<Rightarrow> put_digest 192 p ''pbtrust_state_previous'' output) (\<lambda>output.
      Inr (slice_assign output 224 256 (sha256 (take STATE_BODY_BYTES output))))))))))))))"

definition bt_parse_state :: "bytes \<Rightarrow> bt_state res" where
  "bt_parse_state data =
     (let flags = rd 2 data 14;
          profile_flags = flags AND (STATE_FLAG_DEVELOPMENT_CANDIDATE OR STATE_FLAG_AUTHENTICATED_BACKEND);
          copy_index = rd 1 data 16; copy_count = rd 1 data 17;
          commit = rd 2 data 18; auth_profile = rd 2 data 20; reserved = rd 2 data 22;
          generation = rd 8 data 24; store_epoch = rd 8 data 32; minimum_secure_version = rd 8 data 40;
          manifest_version = rd 8 data 48; policy_version = rd 8 data 56;
          digests = map (\<lambda>offset. bslice data offset (offset + 32)) [64, 96, 128, 160];
          previous = bslice data 192 224; body = bslice data 224 256
      in guarded [
        (length data < BT_STATE_BYTES, ''pbtrust_state_truncated''),
        (length data \<noteq> BT_STATE_BYTES, ''pbtrust_state_size''),
        (rd 2 data 12 \<noteq> int BT_STATE_BYTES, ''pbtrust_state_size''),
        (bslice data 0 8 \<noteq> BT_STATE_MAGIC, ''pbtrust_state_magic''),
        ((rd 2 data 8, rd 2 data 10) \<noteq> (BT_MAJOR_VERSION, BT_MINOR_VERSION), ''pbtrust_state_version''),
        (flags AND NOT BT_STATE_KNOWN_FLAGS \<noteq> 0 \<or> flags AND STATE_FLAG_COMMITTED = 0 \<or> bit_count (nat profile_flags) \<noteq> 1,
         ''pbtrust_state_flags''),
        (copy_index \<ge> COPY_COUNT \<or> copy_count \<noteq> COPY_COUNT, ''pbtrust_state_copy''),
        (commit \<noteq> COMMIT_COMPLETE, ''pbtrust_state_commit''),
        (reserved \<noteq> 0 \<or> profile_flags = STATE_FLAG_DEVELOPMENT_CANDIDATE \<and> auth_profile \<noteq> 0 \<or>
         profile_flags = STATE_FLAG_AUTHENTICATED_BACKEND \<and> auth_profile = 0, ''pbtrust_state_auth_profile''),
        ((generation = 0 \<or> store_epoch = 0 \<or> minimum_secure_version = 0 \<or> manifest_version = 0 \<or> policy_version = 0) \<or>
         manifest_version < minimum_secure_version, ''pbtrust_state_numbers''),
        (list_ex (\<lambda>v. v = zeros 32) digests, ''pbtrust_state_digest''),
        ((generation = 1) \<noteq> (previous = zeros 32), ''pbtrust_state_previous''),
        (sha256 (take STATE_BODY_BYTES data) \<noteq> body, ''pbtrust_state_body_digest'')]
      (Inr \<lparr>bs_flags = flags, bs_copy_index = copy_index, bs_auth_profile = auth_profile, bs_state_generation = generation,
        bs_store_epoch = store_epoch, bs_minimum_secure_version = minimum_secure_version,
        bs_accepted_manifest_version = manifest_version, bs_accepted_policy_version = policy_version,
        bs_policy_sha256 = hex_upper (digests ! 0), bs_manifest_sha256 = hex_upper (digests ! 1),
        bs_kernel_sha256 = hex_upper (digests ! 2), bs_retained_set_sha256 = hex_upper (digests ! 3),
        bs_previous_state_sha256 = hex_upper previous, bs_body_sha256 = hex_upper body, bs_raw = data\<rparr>))"

text \<open>\<open>struct.pack\<close> raises on a value outside its field.\<close>

definition struct_pack :: "(nat \<times> int) list \<Rightarrow> bytes res" where
  "struct_pack fs = (if list_all (\<lambda>(n, v). fits n v) fs then Inr (packed fs) else Inl StructError)"

definition logical_state_sha256 :: "bt_state \<Rightarrow> string res" where
  "logical_state_sha256 s =
     rbind (struct_pack [(2, BT_MAJOR_VERSION), (2, BT_MINOR_VERSION)]) (\<lambda>version.
     rbind (struct_pack [(2, STATE_FLAG_COMMITTED OR STATE_FLAG_AUTHENTICATED_BACKEND), (2, bs_auth_profile s),
       (8, bs_state_generation s), (8, bs_store_epoch s), (8, bs_minimum_secure_version s),
       (8, bs_accepted_manifest_version s), (8, bs_accepted_policy_version s)]) (\<lambda>numbers.
     rbind (rmap fromhex [bs_policy_sha256 s, bs_manifest_sha256 s, bs_kernel_sha256 s, bs_retained_set_sha256 s,
       bs_previous_state_sha256 s]) (\<lambda>digests.
     Inr (hex_upper (sha256 (LOGICAL_DIGEST_DOMAIN @ version @ numbers @ concat digests))))))"

section \<open>Selecting the anchored copy\<close>

definition validate_anchor :: "monotonic_anchor \<Rightarrow> backend_requirements \<Rightarrow> unit res" where
  "validate_anchor a r =
     guarded [
       (\<not> an_authenticated a, ''pbtrust_backend_anchor_authentication''),
       (\<not> an_monotonic a, ''pbtrust_backend_anchor_monotonicity''),
       (an_state_generation a \<le> 0 \<or> an_store_epoch a \<le> 0 \<or> an_auth_profile a \<le> 0 \<or>
        anchor_digest (an_logical_state_sha256 a) False = None \<or> anchor_digest (an_previous_state_sha256 a) True = None \<or>
        ((an_state_generation a = 1) \<noteq> (anchor_digest (an_previous_state_sha256 a) True = Some (zeros 32))),
        ''pbtrust_backend_anchor_numbers''),
       (br_minimum_state_generation r \<le> 0 \<or> br_minimum_store_epoch r \<le> 0 \<or> br_target_store_epoch r \<le> 0 \<or>
        br_target_auth_profile r \<le> 0 \<or> br_target_store_epoch r < br_minimum_store_epoch r \<or>
        br_target_store_epoch r < an_store_epoch a, ''pbtrust_backend_requirements''),
       (an_state_generation a < br_minimum_state_generation r \<or> an_store_epoch a < br_minimum_store_epoch r,
        ''pbtrust_backend_anchor_rollback'')]
     (Inr ())"

record selection_scan =
  sc_candidates :: "(bt_state \<times> string) option list"
  sc_present :: int
  sc_parsed :: int
  sc_authenticated :: int
  sc_anchored :: int
  sc_stale :: int
  sc_future :: int
  sc_previous_mismatch :: int
  sc_digest_mismatch :: int

definition scan_init :: selection_scan where
  "scan_init = \<lparr>sc_candidates = [None, None], sc_present = 0, sc_parsed = 0, sc_authenticated = 0, sc_anchored = 0,
     sc_stale = 0, sc_future = 0, sc_previous_mismatch = 0, sc_digest_mismatch = 0\<rparr>"

definition scan_state :: "monotonic_anchor \<Rightarrow> int \<Rightarrow> bt_state \<Rightarrow> string \<Rightarrow> selection_scan \<Rightarrow> selection_scan" where
  "scan_state a flag s logical acc =
     (if bs_state_generation s < an_state_generation a \<or> bs_store_epoch s < an_store_epoch a
      then acc\<lparr>sc_stale := sc_stale acc OR flag\<rparr>
      else if bs_state_generation s > an_state_generation a \<or> bs_store_epoch s > an_store_epoch a
      then acc\<lparr>sc_future := sc_future acc OR flag\<rparr>
      else if bs_previous_state_sha256 s \<noteq> an_previous_state_sha256 a
      then acc\<lparr>sc_previous_mismatch := sc_previous_mismatch acc OR flag\<rparr>
      else if bs_auth_profile s \<noteq> an_auth_profile a \<or> logical \<noteq> an_logical_state_sha256 a
      then acc\<lparr>sc_digest_mismatch := sc_digest_mismatch acc OR flag\<rparr>
      else acc\<lparr>sc_anchored := sc_anchored acc OR flag\<rparr>)"

definition scan_copy :: "monotonic_anchor \<Rightarrow> nat \<times> backend_copy \<Rightarrow> selection_scan \<Rightarrow> selection_scan res" where
  "scan_copy a = (\<lambda>(index, copy) acc.
     let flag = 2 ^ index in
     case bc_data copy of None \<Rightarrow> Inr acc
     | Some data \<Rightarrow>
         let acc = acc\<lparr>sc_present := sc_present acc OR flag\<rparr> in
         (case bt_parse_state data of
            Inl (Fail _) \<Rightarrow> Inr acc
          | Inl e \<Rightarrow> Inl e
          | Inr s \<Rightarrow>
              if bs_copy_index s \<noteq> int index then Inr acc
              else let acc = acc\<lparr>sc_parsed := sc_parsed acc OR flag\<rparr> in
                if \<not> bc_authentication_verified copy \<or> bs_flags s AND STATE_FLAG_AUTHENTICATED_BACKEND = 0 then Inr acc
                else let acc = acc\<lparr>sc_authenticated := sc_authenticated acc OR flag\<rparr> in
                  rbind (logical_state_sha256 s) (\<lambda>logical.
                  Inr (scan_state a flag s logical (acc\<lparr>sc_candidates := (sc_candidates acc)[index := Some (s, logical)]\<rparr>)))))"

definition scan_copies :: "monotonic_anchor \<Rightarrow> backend_copy \<times> backend_copy \<Rightarrow> selection_scan res" where
  "scan_copies a copies = rfold (scan_copy a) (enumerate 0 [fst copies, snd copies]) scan_init"

definition select_backend_state ::
    "backend_copy \<times> backend_copy \<Rightarrow> monotonic_anchor \<Rightarrow> backend_requirements \<Rightarrow> backend_access \<Rightarrow> backend_selection res" where
  "select_backend_state copies anchor requirements access =
     rbind (validate_anchor anchor requirements) (\<lambda>_.
     rbind (scan_copies anchor copies) (\<lambda>sc.
     let repair_mask = REDUNDANT_COPY_MASK AND NOT (sc_anchored sc);
         selected_copy = (if sc_anchored sc AND 1 \<noteq> 0 then 0 else 1)
     in guarded [
       (sc_anchored sc = 0 \<and> sc_previous_mismatch sc \<noteq> 0, ''pbtrust_backend_previous_state''),
       (sc_anchored sc = 0 \<and> sc_digest_mismatch sc \<noteq> 0, ''pbtrust_backend_anchor_digest''),
       (sc_anchored sc = 0 \<and> sc_future sc \<noteq> 0, ''pbtrust_backend_future_state''),
       (sc_anchored sc = 0 \<and> sc_stale sc \<noteq> 0, ''pbtrust_backend_state_rollback''),
       (sc_anchored sc = 0, ''pbtrust_backend_no_authenticated_copy''),
       (\<not> ba_writable access, ''pbtrust_backend_writable''),
       (repair_mask \<noteq> 0 \<and> \<not> ba_repair_capacity access, ''pbtrust_backend_repair_capacity'')]
     (case sc_candidates sc ! selected_copy of
        None \<Rightarrow> Inl (Fail ''pbtrust_backend_anchor_digest'')
      | Some (s, logical) \<Rightarrow>
          Inr \<lparr>se_selected_copy = int selected_copy, se_present_copy_mask = sc_present sc, se_parsed_copy_mask = sc_parsed sc,
            se_authenticated_copy_mask = sc_authenticated sc, se_anchored_copy_mask = sc_anchored sc,
            se_repair_copy_mask = repair_mask, se_stale_copy_mask = sc_stale sc, se_future_copy_mask = sc_future sc,
            se_state_generation = bs_state_generation s, se_store_epoch = bs_store_epoch s, se_auth_profile = bs_auth_profile s,
            se_logical_state_sha256 = logical, se_previous_state_sha256 = bs_previous_state_sha256 s,
            se_target_store_epoch = br_target_store_epoch requirements, se_target_auth_profile = br_target_auth_profile requirements,
            se_migration_required = (bs_store_epoch s < br_target_store_epoch requirements \<or>
              bs_auth_profile s \<noteq> br_target_auth_profile requirements),
            se_authority_grants = 0, se_state_writes = 0\<rparr>)))"

definition plan_backend_transition :: "backend_selection \<Rightarrow> backend_transition_plan res" where
  "plan_backend_transition se =
     (let anchored_mask = se_anchored_copy_mask se;
          expected_repair_mask = REDUNDANT_COPY_MASK AND NOT anchored_mask;
          expected_migration = (se_store_epoch se < se_target_store_epoch se \<or> se_auth_profile se \<noteq> se_target_auth_profile se);
          target_copy = (if anchored_mask = 1 then 1 else if anchored_mask = 2 then 0 else 1 - se_selected_copy se)
      in guarded [
        (se_selected_copy se \<notin> {0, 1} \<or> anchored_mask \<le> 0 \<or> anchored_mask AND NOT REDUNDANT_COPY_MASK \<noteq> 0 \<or>
         anchored_mask AND 2 ^ nat (se_selected_copy se) = 0 \<or> se_repair_copy_mask se \<noteq> expected_repair_mask \<or>
         se_state_generation se \<le> 0 \<or> se_store_epoch se \<le> 0 \<or> se_auth_profile se \<le> 0 \<or>
         anchor_digest (se_logical_state_sha256 se) False = None \<or> anchor_digest (se_previous_state_sha256 se) True = None \<or>
         ((se_state_generation se = 1) \<noteq> (se_previous_state_sha256 se = replicate 64 (CHR ''0''))) \<or>
         se_migration_required se \<noteq> expected_migration \<or> se_authority_grants se \<noteq> 0 \<or> se_state_writes se \<noteq> 0,
         ''pbtrust_backend_requirements''),
        (se_target_store_epoch se < se_store_epoch se \<or> se_target_auth_profile se \<le> 0, ''pbtrust_backend_migration_rollback''),
        (se_state_generation se \<ge> 2 ^ 64 - 1, ''pbtrust_backend_generation_overflow'')]
      (Inr \<lparr>tp_source_copy = se_selected_copy se, tp_target_copy = target_copy, tp_next_generation = se_state_generation se + 1,
        tp_target_store_epoch = se_target_store_epoch se, tp_target_auth_profile = se_target_auth_profile se,
        tp_previous_state_sha256 = se_logical_state_sha256 se, tp_ordered_step_count = TRANSITION_STEP_COUNT,
        tp_state_writes_performed = 0, tp_anchor_writes_performed = 0, tp_authority_grants = 0\<rparr>))"

section \<open>Authorising a boot\<close>

record trust_authority =
  ta_policy_sha256 :: string
  ta_state_sha256 :: string
  ta_policy_version :: int
  ta_state_generation :: int
  ta_trust_epoch :: int

definition binding_checks :: "bt_policy \<Rightarrow> bt_state \<Rightarrow> observed_boot \<Rightarrow> (bool \<times> string) list" where
  "binding_checks p s ob = [
     (po_manifest_sha256 p = ob_manifest_sha256 ob, ''pbtrust_binding_manifest''),
     (po_kernel_sha256 p = ob_kernel_sha256 ob, ''pbtrust_binding_kernel''),
     (po_retained_set_sha256 p = ob_retained_set_sha256 ob, ''pbtrust_binding_retained_set''),
     (po_revocation_set_sha256 p = ob_revocation_set_sha256 ob, ''pbtrust_binding_revocation_set''),
     (po_artifact_role_mask p = ob_artifact_role_mask ob, ''pbtrust_binding_role_mask''),
     (bs_policy_sha256 s = hex_upper (sha256 (po_raw p)), ''pbtrust_binding_policy_state''),
     (bs_manifest_sha256 s = ob_manifest_sha256 ob, ''pbtrust_binding_state_manifest''),
     (bs_kernel_sha256 s = ob_kernel_sha256 ob, ''pbtrust_binding_state_kernel''),
     (bs_retained_set_sha256 s = ob_retained_set_sha256 ob, ''pbtrust_binding_state_retained_set''),
     (bs_accepted_policy_version s = po_policy_version p, ''pbtrust_binding_policy_version''),
     (bs_accepted_manifest_version s = ob_manifest_version ob, ''pbtrust_rollback_manifest_version''),
     (ob_minimum_secure_version ob \<ge> po_minimum_secure_version p \<and> ob_minimum_secure_version ob \<ge> bs_minimum_secure_version s \<and>
      ob_manifest_version ob \<ge> ob_minimum_secure_version ob, ''pbtrust_rollback_secure_version''),
     (bs_state_generation s \<ge> po_minimum_state_generation p, ''pbtrust_rollback_state_generation''),
     (bs_store_epoch s \<ge> po_trust_epoch p, ''pbtrust_rollback_trust_epoch'')]"

definition evidence_checks :: "bt_state \<Rightarrow> verification_evidence \<Rightarrow> (bool \<times> string) list" where
  "evidence_checks s e = [
     (ev_policy_signature_verified e, ''pbtrust_policy_authentication''),
     (ev_policy_threshold_verified e, ''pbtrust_policy_threshold''),
     (ev_revocation_state_authenticated e \<and> ev_policy_not_revoked e, ''pbtrust_policy_revocation''),
     (bs_flags s AND STATE_FLAG_DEVELOPMENT_CANDIDATE = 0, ''pbtrust_state_development_candidate''),
     (ev_state_authenticated e, ''pbtrust_state_authentication''),
     (ev_state_monotonic e, ''pbtrust_state_monotonicity''),
     (ev_state_backend_writable e, ''pbtrust_state_backend_writable''),
     (ev_secure_boot_state_verified e, ''pbtrust_secure_boot_state'')]"

definition demand :: "(bool \<times> string) list \<Rightarrow> 'a res \<Rightarrow> 'a res" where
  "demand checks = guarded (map (\<lambda>(accepted, code). (\<not> accepted, code)) checks)"

definition bt_authorize :: "bt_policy \<Rightarrow> bt_state \<Rightarrow> observed_boot \<Rightarrow> verification_evidence \<Rightarrow> trust_authority res" where
  "bt_authorize p s ob e =
     demand (binding_checks p s ob)
     (guarded [(po_flags p = POLICY_FLAG_DEVELOPMENT_UNSIGNED, ''pbtrust_policy_unsigned'')]
     (demand (evidence_checks s e)
     (Inr \<lparr>ta_policy_sha256 = hex_upper (sha256 (po_raw p)), ta_state_sha256 = hex_upper (sha256 (bs_raw s)),
       ta_policy_version = po_policy_version p, ta_state_generation = bs_state_generation s, ta_trust_epoch = po_trust_epoch p\<rparr>)))"

record development_report =
  dr_contract_id :: string
  dr_policy_bytes :: nat
  dr_state_bytes :: nat
  dr_binding_count :: int
  dr_denial_count :: int
  dr_denial :: string
  dr_policy_sha256 :: string
  dr_state_sha256 :: string
  dr_development_unsigned :: bool
  dr_state_source :: string
  dr_state_authenticated :: bool
  dr_state_monotonic :: bool
  dr_state_backend_writable :: bool
  dr_authority_grants :: int
  dr_state_writes :: int
  dr_signature_verifications :: int
  dr_monotonic_backend_observations :: int

definition validate_development :: "bytes \<Rightarrow> bytes \<Rightarrow> observed_boot \<Rightarrow> development_report res" where
  "validate_development policy_data state_data ob =
     rbind (parse_policy policy_data) (\<lambda>p.
     rbind (bt_parse_state state_data) (\<lambda>s.
     rbind (case bt_authorize p s ob evidence_development of
         Inl e \<Rightarrow> if e = Fail ''pbtrust_policy_unsigned'' then Inr () else Inl e
       | Inr _ \<Rightarrow> Inl (Fail ''pbtrust_unexpected_authority'')) (\<lambda>_.
     Inr \<lparr>dr_contract_id = BT_CONTRACT_ID, dr_policy_bytes = POLICY_BYTES, dr_state_bytes = BT_STATE_BYTES,
       dr_binding_count = 14, dr_denial_count = 1, dr_denial = ''pbtrust_policy_unsigned'',
       dr_policy_sha256 = hex_upper (sha256 policy_data), dr_state_sha256 = hex_upper (sha256 state_data),
       dr_development_unsigned = True, dr_state_source = ''esp_candidate_not_persistent_authority'',
       dr_state_authenticated = False, dr_state_monotonic = False, dr_state_backend_writable = False,
       dr_authority_grants = 0, dr_state_writes = 0, dr_signature_verifications = 0, dr_monotonic_backend_observations = 0\<rparr>)))"

definition canonical_development_records :: "bytes \<Rightarrow> bytes \<Rightarrow> string \<Rightarrow> int \<Rightarrow> int \<Rightarrow> (bytes \<times> bytes \<times> observed_boot) res" where
  "canonical_development_records manifest_data kernel_data retained_set_sha256 manifest_version minimum_secure_version =
     (let observed = \<lparr>ob_manifest_sha256 = hex_upper (sha256 manifest_data), ob_kernel_sha256 = hex_upper (sha256 kernel_data),
            ob_retained_set_sha256 = retained_set_sha256, ob_revocation_set_sha256 = hex_upper (sha256 []),
            ob_manifest_version = manifest_version, ob_minimum_secure_version = minimum_secure_version,
            ob_artifact_role_mask = ARTIFACT_ROLE_MASK\<rparr>
      in rbind (encode_policy \<lparr>pa_manifest_sha256 = ob_manifest_sha256 observed, pa_kernel_sha256 = ob_kernel_sha256 observed,
           pa_retained_set_sha256 = ob_retained_set_sha256 observed, pa_revocation_set_sha256 = ob_revocation_set_sha256 observed,
           pa_policy_version = 1, pa_trust_epoch = 1, pa_minimum_secure_version = minimum_secure_version,
           pa_minimum_state_generation = 1, pa_signed = False, pa_signer_threshold = 1, pa_signer_count = 1, pa_auth_profile = 1,
           pa_root_set_id = replicate 16 0x55, pa_signer_set_id = replicate 16 0x66, pa_signature = replicate 64 0x77\<rparr>) (\<lambda>policy.
         rbind (bt_encode_state \<lparr>sa_policy_sha256 = hex_upper (sha256 policy), sa_manifest_sha256 = ob_manifest_sha256 observed,
           sa_kernel_sha256 = ob_kernel_sha256 observed, sa_retained_set_sha256 = ob_retained_set_sha256 observed,
           sa_state_generation = 1, sa_store_epoch = 1, sa_minimum_secure_version = minimum_secure_version,
           sa_accepted_manifest_version = manifest_version, sa_accepted_policy_version = 1, sa_authenticated_backend = False,
           sa_copy_index = 0, sa_auth_profile = 1, sa_previous_state_sha256 = None\<rparr>) (\<lambda>state.
         rbind (validate_development policy state observed) (\<lambda>_. Inr (policy, state, observed)))))"

end
