(* ===== verification/Boot_Trust_Backend.thy ===== *)
theory Boot_Trust_Backend
  imports Boot_Trust
begin

text \<open>
  The trust backend: what a selection guarantees of the state it picks, that a planned transition survives a power
  loss while the spare copy is written, and when a boot is authorised.
\<close>

unbundle bit_operations_syntax

section \<open>Hexadecimal text\<close>

lemma hex_digit_facts:
  assumes "n < 16"
  shows "hex_value (hex_digit n) = Some n" "\<not> is_space (hex_digit n)" "upper_char (hex_digit n) = hex_digit n"
proof -
  have "list_all (\<lambda>n. hex_value (hex_digit n) = Some n \<and> \<not> is_space (hex_digit n) \<and> upper_char (hex_digit n) = hex_digit n) [0..<16]"
    by code_simp
  then show "hex_value (hex_digit n) = Some n" "\<not> is_space (hex_digit n)" "upper_char (hex_digit n) = hex_digit n"
    using assms by (simp_all add: list_all_iff)
qed

lemma byte_digits: "unat b div 16 < 16" "unat b mod 16 < 16" "of_nat (16 * (unat b div 16) + unat b mod 16) = (b :: byte)"
  using unat_byte_less [of b] by (simp_all del: of_nat_add of_nat_mult)

lemma fromhex_hex_upper [simp]: "fromhex (hex_upper bs) = Inr bs"
proof (induction bs)
  case (Cons b bs)
  then show ?case
    using hex_digit_facts(1,2) [OF byte_digits(1) [of b]] hex_digit_facts(1) [OF byte_digits(2) [of b]] byte_digits(3) [of b]
    by (simp add: hex_upper_def hex_byte_def del: of_nat_add of_nat_mult)
qed (simp add: hex_upper_def)

lemma upper_hex_upper [simp]: "map upper_char (hex_upper bs) = hex_upper bs"
  by (induction bs) (simp_all add: hex_upper_def hex_byte_def hex_digit_facts byte_digits)

lemma length_hex_upper [simp]: "length (hex_upper bs) = 2 * length bs"
  by (induction bs) (simp_all add: hex_upper_def hex_byte_def)

lemma hex_upper_zeros: "hex_upper (zeros n) = replicate (2 * n) (CHR ''0'')"
  by (induction n) (simp_all add: hex_upper_def hex_byte_def zeros_def hex_digit_def)

lemma anchor_digest_hex_upper:
  "length bs = 32 \<Longrightarrow> anchor_digest (hex_upper bs) z = (if \<not> z \<and> bs = zeros 32 then None else Some bs)"
  by (simp add: anchor_digest_def)

lemma bt_digest_hex_upper: "length bs = 32 \<Longrightarrow> bs \<noteq> zeros 32 \<Longrightarrow> bt_digest (hex_upper bs) code = Inr bs"
  by (simp add: bt_digest_def guarded.simps)

section \<open>Parsed states\<close>

lemma guarded_Inr_Inl: "guarded gs (Inr x) = Inl e \<Longrightarrow> \<exists>c. e = Fail c"
  by (induction gs) (auto simp: guarded.simps split: if_splits)

lemma bt_parse_state_Inl: "bt_parse_state d = Inl e \<Longrightarrow> \<exists>c. e = Fail c"
  unfolding bt_parse_state_def Let_def by (rule guarded_Inr_Inl)

lemma bt_parse_state_Inr:
  assumes "bt_parse_state d = Inr s"
  shows "length d = 256" "bs_raw s = d" "bs_state_generation s = rd 8 d 24" "bs_previous_state_sha256 s = hex_upper (bslice d 192 224)"
    "(bs_state_generation s = 1) = (bslice d 192 224 = zeros 32)"
    "bs_state_generation s \<noteq> 0" "bs_store_epoch s \<noteq> 0" "bs_store_epoch s = rd 8 d 32" "bs_auth_profile s = rd 2 d 20"
    "bs_minimum_secure_version s = rd 8 d 40" "bs_accepted_manifest_version s = rd 8 d 48" "bs_accepted_policy_version s = rd 8 d 56"
    "bs_policy_sha256 s = hex_upper (bslice d 64 96)" "bs_manifest_sha256 s = hex_upper (bslice d 96 128)"
    "bs_kernel_sha256 s = hex_upper (bslice d 128 160)" "bs_retained_set_sha256 s = hex_upper (bslice d 160 192)"
    "bs_minimum_secure_version s \<le> bs_accepted_manifest_version s"
proof -
  have s: "s = \<lparr>bs_flags = rd 2 d 14, bs_copy_index = rd 1 d 16, bs_auth_profile = rd 2 d 20, bs_state_generation = rd 8 d 24,
        bs_store_epoch = rd 8 d 32, bs_minimum_secure_version = rd 8 d 40, bs_accepted_manifest_version = rd 8 d 48,
        bs_accepted_policy_version = rd 8 d 56, bs_policy_sha256 = hex_upper (bslice d 64 96), bs_manifest_sha256 = hex_upper (bslice d 96 128),
        bs_kernel_sha256 = hex_upper (bslice d 128 160), bs_retained_set_sha256 = hex_upper (bslice d 160 192),
        bs_previous_state_sha256 = hex_upper (bslice d 192 224), bs_body_sha256 = hex_upper (bslice d 224 256), bs_raw = d\<rparr>"
    using assms by (simp add: bt_parse_state_def Let_def guarded_Inr_iff del: One_nat_def)
  show "length d = 256" using assms by (simp add: bt_parse_state_def Let_def guarded_Inr_iff BT_STATE_BYTES_def)
  have "(rd 8 d 24 = 1) = (bslice d 192 224 = zeros 32)"
    using assms by (simp add: bt_parse_state_def Let_def guarded_Inr_iff)
  moreover have "rd 8 d 24 \<noteq> 0 \<and> rd 8 d 32 \<noteq> 0 \<and> rd 8 d 40 \<le> rd 8 d 48"
    using assms by (simp add: bt_parse_state_def Let_def guarded_Inr_iff)
  ultimately show "bs_raw s = d" "bs_state_generation s = rd 8 d 24" "bs_previous_state_sha256 s = hex_upper (bslice d 192 224)"
    "(bs_state_generation s = 1) = (bslice d 192 224 = zeros 32)"
    "bs_state_generation s \<noteq> 0" "bs_store_epoch s \<noteq> 0" "bs_store_epoch s = rd 8 d 32" "bs_auth_profile s = rd 2 d 20"
    "bs_minimum_secure_version s = rd 8 d 40" "bs_accepted_manifest_version s = rd 8 d 48" "bs_accepted_policy_version s = rd 8 d 56"
    "bs_policy_sha256 s = hex_upper (bslice d 64 96)" "bs_manifest_sha256 s = hex_upper (bslice d 96 128)"
    "bs_kernel_sha256 s = hex_upper (bslice d 128 160)" "bs_retained_set_sha256 s = hex_upper (bslice d 160 192)"
    "bs_minimum_secure_version s \<le> bs_accepted_manifest_version s"
    by (simp_all add: s)
qed

lemma logical_returns:
  assumes "bt_parse_state d = Inr s"
  shows "\<exists>l. logical_state_sha256 s = Inr l"
proof -
  note p = bt_parse_state_Inr [OF assms]
  have "list_all (\<lambda>(n, v). fits n v) [(2, STATE_FLAG_COMMITTED OR STATE_FLAG_AUTHENTICATED_BACKEND), (2, bs_auth_profile s),
       (8, bs_state_generation s), (8, bs_store_epoch s), (8, bs_minimum_secure_version s),
       (8, bs_accepted_manifest_version s), (8, bs_accepted_policy_version s)]"
    using p(1) by (simp add: p(3,8-12)) (simp add: fits_def code_defs)
  moreover have "list_all (\<lambda>(n, v). fits n v) [(2, BT_MAJOR_VERSION), (2, BT_MINOR_VERSION)]"
    by (simp add: fits_def code_defs)
  ultimately show ?thesis by (simp only: logical_state_sha256_def struct_pack_def if_True rbind.simps) (simp add: p(4,13-16))
qed

section \<open>Scanning the copies\<close>

definition anchored_copy :: "monotonic_anchor \<Rightarrow> nat \<Rightarrow> backend_copy \<Rightarrow> bt_state option" where
  "anchored_copy a i c =
     (case bc_data c of None \<Rightarrow> None
      | Some d \<Rightarrow> (case bt_parse_state d of Inl _ \<Rightarrow> None
          | Inr s \<Rightarrow> if bs_copy_index s = int i \<and> bc_authentication_verified c \<and>
              bs_flags s AND STATE_FLAG_AUTHENTICATED_BACKEND \<noteq> 0 \<and> bs_state_generation s = an_state_generation a \<and>
              bs_store_epoch s = an_store_epoch a \<and> bs_previous_state_sha256 s = an_previous_state_sha256 a \<and>
              bs_auth_profile s = an_auth_profile a \<and> logical_state_sha256 s = Inr (an_logical_state_sha256 a)
            then Some s else None))"

lemma anchored_copy_Some:
  "anchored_copy a i c = Some s \<longleftrightarrow> (\<exists>d. bc_data c = Some d \<and> bt_parse_state d = Inr s) \<and> bs_copy_index s = int i \<and>
     bc_authentication_verified c \<and> bs_flags s AND STATE_FLAG_AUTHENTICATED_BACKEND \<noteq> 0 \<and>
     bs_state_generation s = an_state_generation a \<and> bs_store_epoch s = an_store_epoch a \<and>
     bs_previous_state_sha256 s = an_previous_state_sha256 a \<and> bs_auth_profile s = an_auth_profile a \<and>
     logical_state_sha256 s = Inr (an_logical_state_sha256 a)"
  by (auto simp: anchored_copy_def split: option.splits sum.splits if_splits)

definition scanned :: "monotonic_anchor \<Rightarrow> nat \<Rightarrow> backend_copy \<Rightarrow> selection_scan \<Rightarrow> selection_scan \<Rightarrow> bool" where
  "scanned a i c acc acc' \<longleftrightarrow> length (sc_candidates acc') = length (sc_candidates acc) \<and>
     (\<forall>j. j \<noteq> i \<longrightarrow> sc_candidates acc' ! j = sc_candidates acc ! j) \<and>
     sc_anchored acc' = (if anchored_copy a i c = None then sc_anchored acc else sc_anchored acc OR 2 ^ i) \<and>
     (\<forall>s. anchored_copy a i c = Some s \<longrightarrow> sc_candidates acc' ! i = Some (s, an_logical_state_sha256 a))"

lemma scan_copy_spec:
  assumes "i < length (sc_candidates acc)"
  shows "\<exists>acc'. scan_copy a (i, c) acc = Inr acc' \<and> scanned a i c acc acc'"
proof (cases "bc_data c")
  case None
  then show ?thesis by (simp add: scan_copy_def scanned_def anchored_copy_def)
next
  case (Some d)
  show ?thesis
  proof (cases "bt_parse_state d")
    case (Inl e)
    with bt_parse_state_Inl obtain code where "e = Fail code" by blast
    with Some Inl show ?thesis by (simp add: scan_copy_def scanned_def anchored_copy_def Let_def)
  next
    case (Inr s)
    with logical_returns obtain l where "logical_state_sha256 s = Inr l" by blast
    with Some Inr assms show ?thesis
      by (simp add: scan_copy_def scan_state_def scanned_def anchored_copy_def Let_def)
  qed
qed

lemma scan_copies_spec:
  "\<exists>sc. scan_copies a (c0, c1) = Inr sc \<and>
     sc_anchored sc = (if anchored_copy a 0 c0 = None then 0 else 1) + (if anchored_copy a 1 c1 = None then 0 else 2) \<and>
     (\<forall>s. anchored_copy a 0 c0 = Some s \<longrightarrow> sc_candidates sc ! 0 = Some (s, an_logical_state_sha256 a)) \<and>
     (\<forall>s. anchored_copy a 1 c1 = Some s \<longrightarrow> sc_candidates sc ! 1 = Some (s, an_logical_state_sha256 a))"
proof -
  obtain s1 where s1: "scan_copy a (0, c0) scan_init = Inr s1" "scanned a 0 c0 scan_init s1"
    using scan_copy_spec [of 0 scan_init a c0] by (auto simp: scan_init_def)
  then have "1 < length (sc_candidates s1)" by (simp add: scanned_def scan_init_def)
  then obtain s2 where s2: "scan_copy a (1, c1) s1 = Inr s2" "scanned a 1 c1 s1 s2" using scan_copy_spec by blast
  have "scan_copies a (c0, c1) = Inr s2" using s1(1) s2(1) by (simp add: scan_copies_def)
  moreover have "sc_anchored s2 = (if anchored_copy a 0 c0 = None then 0 else 1) + (if anchored_copy a 1 c1 = None then 0 else 2)"
    using s1(2) s2(2) by (simp add: scanned_def scan_init_def)
  ultimately show ?thesis using s1(2) s2(2) by (simp add: scanned_def)
qed


section \<open>Selections\<close>

definition is_anchored :: "monotonic_anchor \<Rightarrow> nat \<Rightarrow> backend_copy \<Rightarrow> bool" where
  "is_anchored a i c \<longleftrightarrow> anchored_copy a i c \<noteq> None"

definition anchored_mask :: "monotonic_anchor \<Rightarrow> backend_copy \<times> backend_copy \<Rightarrow> int" where
  "anchored_mask a copies = (if is_anchored a 0 (fst copies) then 1 else 0) + (if is_anchored a 1 (snd copies) then 2 else 0)"

definition selects :: "monotonic_anchor \<Rightarrow> backend_requirements \<Rightarrow> backend_copy \<times> backend_copy \<Rightarrow> backend_selection \<Rightarrow> bool" where
  "selects a r copies sel \<longleftrightarrow>
     se_selected_copy sel = (if is_anchored a 0 (fst copies) then 0 else 1) \<and> se_anchored_copy_mask sel = anchored_mask a copies \<and>
     se_repair_copy_mask sel = 3 - anchored_mask a copies \<and>
     se_state_generation sel = an_state_generation a \<and> se_store_epoch sel = an_store_epoch a \<and>
     se_auth_profile sel = an_auth_profile a \<and> se_logical_state_sha256 sel = an_logical_state_sha256 a \<and>
     se_previous_state_sha256 sel = an_previous_state_sha256 a \<and> se_target_store_epoch sel = br_target_store_epoch r \<and>
     se_target_auth_profile sel = br_target_auth_profile r \<and>
     se_migration_required sel = (an_store_epoch a < br_target_store_epoch r \<or> an_auth_profile a \<noteq> br_target_auth_profile r) \<and>
     se_authority_grants sel = 0 \<and> se_state_writes sel = 0"

definition selection_of :: "backend_requirements \<Rightarrow> selection_scan \<Rightarrow> int \<Rightarrow> bt_state \<Rightarrow> string \<Rightarrow> backend_selection" where
  "selection_of r sc m s l = \<lparr>se_selected_copy = (if m = 2 then 1 else 0), se_present_copy_mask = sc_present sc,
     se_parsed_copy_mask = sc_parsed sc, se_authenticated_copy_mask = sc_authenticated sc, se_anchored_copy_mask = m,
     se_repair_copy_mask = 3 - m, se_stale_copy_mask = sc_stale sc, se_future_copy_mask = sc_future sc,
     se_state_generation = bs_state_generation s, se_store_epoch = bs_store_epoch s, se_auth_profile = bs_auth_profile s,
     se_logical_state_sha256 = l, se_previous_state_sha256 = bs_previous_state_sha256 s,
     se_target_store_epoch = br_target_store_epoch r, se_target_auth_profile = br_target_auth_profile r,
     se_migration_required = (bs_store_epoch s < br_target_store_epoch r \<or> bs_auth_profile s \<noteq> br_target_auth_profile r),
     se_authority_grants = 0, se_state_writes = 0\<rparr>"

lemma select_unfold:
  assumes "validate_anchor a r = Inr ()" "scan_copies a copies = Inr sc" "sc_anchored sc = m" "m = 1 \<or> m = 2 \<or> m = 3"
    "sc_candidates sc ! (if m = 2 then 1 else 0) = Some (s, l)"
  shows "select_backend_state copies a r access =
    guarded [(\<not> ba_writable access, ''pbtrust_backend_writable''),
      (m \<noteq> 3 \<and> \<not> ba_repair_capacity access, ''pbtrust_backend_repair_capacity'')] (Inr (selection_of r sc m s l))"
  unfolding select_backend_state_def assms(1,2) rbind.simps Let_def assms(3)
  using assms(4,5) by (elim disjE) (simp_all add: guarded.simps REDUNDANT_COPY_MASK_def selection_of_def)

lemma select_none:
  assumes "scan_copies a copies = Inr sc" "sc_anchored sc = 0"
  shows "\<not> returns (select_backend_state copies a r access)"
  using assms by (cases "validate_anchor a r") (simp_all add: select_backend_state_def returns_iff guarded_Inr_iff Let_def)

lemma selects_anchored:
  assumes "anchored_copy a i c = Some s" "m = anchored_mask a copies" "m \<noteq> 0"
  shows "selects a r copies (selection_of r sc m s (an_logical_state_sha256 a))"
  using assms by (auto simp: selects_def selection_of_def anchored_copy_Some anchored_mask_def split: if_splits)

lemma select_spec:
  "(\<exists>sel. select_backend_state copies a r access = Inr sel \<and> selects a r copies sel) \<and>
     validate_anchor a r = Inr () \<and> anchored_mask a copies \<noteq> 0 \<and> ba_writable access \<and>
     (anchored_mask a copies = 3 \<or> ba_repair_capacity access) \<or>
   \<not> returns (select_backend_state copies a r access) \<and>
     \<not> (validate_anchor a r = Inr () \<and> anchored_mask a copies \<noteq> 0 \<and> ba_writable access \<and>
       (anchored_mask a copies = 3 \<or> ba_repair_capacity access))"
proof (cases "validate_anchor a r = Inr () \<and> anchored_mask a copies \<noteq> 0")
  case False
  obtain sc where "scan_copies a copies = Inr sc" "sc_anchored sc = anchored_mask a copies"
    using scan_copies_spec [of a "fst copies" "snd copies"] by (auto simp: anchored_mask_def is_anchored_def)
  with False select_none [of a copies sc r access] show ?thesis
    by (cases "validate_anchor a r") (auto simp: select_backend_state_def)
next
  case True
  define m where "m = anchored_mask a copies"
  obtain sc where sc: "scan_copies a copies = Inr sc" "sc_anchored sc = m"
    and k: "\<forall>s. anchored_copy a 0 (fst copies) = Some s \<longrightarrow> sc_candidates sc ! 0 = Some (s, an_logical_state_sha256 a)"
      "\<forall>s. anchored_copy a 1 (snd copies) = Some s \<longrightarrow> sc_candidates sc ! 1 = Some (s, an_logical_state_sha256 a)"
    using scan_copies_spec [of a "fst copies" "snd copies"] by (auto simp: m_def anchored_mask_def is_anchored_def)
  obtain i c s where s: "anchored_copy a i c = Some s" "sc_candidates sc ! (if m = 2 then 1 else 0) = Some (s, an_logical_state_sha256 a)"
    using True k by (auto simp: m_def anchored_mask_def is_anchored_def split: if_splits)
  have m: "m = 1 \<or> m = 2 \<or> m = 3" "m \<noteq> 0" using True by (auto simp: m_def anchored_mask_def split: if_splits)
  show ?thesis
    using select_unfold [OF conjunct1 [OF True] sc m(1) s(2), of access] selects_anchored [OF s(1) m_def m(2), of r sc] True
    by (auto simp: guarded.simps m_def [symmetric])
qed

lemma select_Inr:
  assumes "select_backend_state copies a r access = Inr sel"
  shows "selects a r copies sel" "validate_anchor a r = Inr ()" "anchored_mask a copies \<noteq> 0" "ba_writable access"
    "anchored_mask a copies = 3 \<or> ba_repair_capacity access"
  using select_spec [of copies a r access] assms by (auto simp: returns_iff)

lemma select_returns:
  assumes "validate_anchor a r = Inr ()" "anchored_mask a copies \<noteq> 0" "ba_writable access" "ba_repair_capacity access"
  shows "\<exists>sel. select_backend_state copies a r access = Inr sel \<and> selects a r copies sel"
  using select_spec [of copies a r access] assms by blast

text \<open>
  C23. A selection never goes back: the selected copy was authenticated by the backend, parses as a record stored for its
  own slot, and its logical digest, generation, epoch, profile and predecessor are those of the monotonic anchor, which is
  not below the required generation and epoch. Nothing is written and no authority is granted.
\<close>
theorem selection_is_anchored:
  assumes "select_backend_state copies a r access = Inr sel" "i = nat (se_selected_copy sel)" "c = [fst copies, snd copies] ! i"
  shows "\<exists>d s. bc_data c = Some d \<and> bc_authentication_verified c \<and> bt_parse_state d = Inr s \<and> bs_copy_index s = int i \<and>
    bs_flags s AND STATE_FLAG_AUTHENTICATED_BACKEND \<noteq> 0 \<and> logical_state_sha256 s = Inr (an_logical_state_sha256 a) \<and>
    se_logical_state_sha256 sel = an_logical_state_sha256 a \<and>
    bs_state_generation s = an_state_generation a \<and> se_state_generation sel = an_state_generation a \<and>
    bs_store_epoch s = an_store_epoch a \<and> bs_auth_profile s = an_auth_profile a \<and>
    bs_previous_state_sha256 s = an_previous_state_sha256 a \<and>
    br_minimum_state_generation r \<le> an_state_generation a \<and> br_minimum_store_epoch r \<le> an_store_epoch a \<and>
    an_authenticated a \<and> an_monotonic a \<and> se_authority_grants sel = 0 \<and> se_state_writes sel = 0"
proof -
  note s = select_Inr [OF assms(1)]
  have i: "i = (if is_anchored a 0 (fst copies) then 0 else 1)" using s(1) by (simp add: selects_def assms(2))
  then have "is_anchored a i c" using s(3) by (auto simp: assms(3) anchored_mask_def split: if_splits)
  then obtain st where "anchored_copy a i c = Some st" by (auto simp: is_anchored_def)
  moreover have "br_minimum_state_generation r \<le> an_state_generation a" "br_minimum_store_epoch r \<le> an_store_epoch a"
    "an_authenticated a" "an_monotonic a" using s(2) by (auto simp: validate_anchor_def guarded_Inr_iff)
  ultimately show ?thesis using s(1) by (auto simp: anchored_copy_Some selects_def)
qed

section \<open>Transitions\<close>

lemma validate_anchor_Inr:
  assumes "validate_anchor a r = Inr ()"
  shows "0 < an_state_generation a" "0 < an_store_epoch a" "0 < an_auth_profile a"
    "anchor_digest (an_logical_state_sha256 a) False \<noteq> None" "anchor_digest (an_previous_state_sha256 a) True \<noteq> None"
    "0 < br_target_auth_profile r" "an_store_epoch a \<le> br_target_store_epoch r"
  using assms by (auto simp: validate_anchor_def guarded_Inr_iff)

lemma anchored_previous:
  assumes "is_anchored a i c"
  shows "(an_state_generation a = 1) = (an_previous_state_sha256 a = replicate 64 (CHR ''0''))"
proof -
  obtain d s where s: "bt_parse_state d = Inr s" "bs_state_generation s = an_state_generation a"
    "bs_previous_state_sha256 s = an_previous_state_sha256 a"
    using assms by (auto simp: is_anchored_def anchored_copy_Some)
  have "(an_previous_state_sha256 a = replicate 64 (CHR ''0'')) = (hex_upper (bslice d 192 224) = hex_upper (zeros 32))"
    using bt_parse_state_Inr(4) [OF s(1)] s(3) by (simp add: hex_upper_zeros)
  with bt_parse_state_Inr(5) [OF s(1)] s(2) show ?thesis by simp
qed

text \<open>
  Every selection can be advanced unless its generation is the last 64-bit one, in which case planning raises
  \<open>pbtrust_backend_generation_overflow\<close>: the plan writes the copy the selection does not rest on, for the next
  generation, never lowers the store epoch and chains to the selected state.
\<close>
theorem transition_plan_total:
  assumes "select_backend_state copies a r access = Inr sel"
  shows "if an_state_generation a < 2 ^ 64 - 1
    then \<exists>p. plan_backend_transition sel = Inr p \<and> tp_source_copy p = se_selected_copy sel \<and>
      tp_target_copy p \<in> {0, 1} \<and> tp_target_copy p \<noteq> tp_source_copy p \<and>
      tp_next_generation p = an_state_generation a + 1 \<and> an_store_epoch a \<le> tp_target_store_epoch p \<and>
      tp_previous_state_sha256 p = an_logical_state_sha256 a
    else plan_backend_transition sel = Inl (Fail ''pbtrust_backend_generation_overflow'')"
proof -
  note s = select_Inr [OF assms] and v = validate_anchor_Inr [OF select_Inr(2) [OF assms]]
  have prev: "(an_state_generation a = 1) = (an_previous_state_sha256 a = replicate 64 (CHR ''0''))"
    using s(3) anchored_previous by (auto simp: anchored_mask_def split: if_splits)
  show ?thesis
    using s(1,3) v prev
    by (cases "is_anchored a 0 (fst copies)"; cases "is_anchored a 1 (snd copies)")
      (auto simp: selects_def anchored_mask_def plan_backend_transition_def Let_def guarded.simps REDUNDANT_COPY_MASK_def)
qed

text \<open>
  C8. A torn write cannot lose the state: after a selection whose access has repair capacity, whatever the planned write
  leaves in its target copy (nothing, any bytes, authenticated or not), as long as the anchor has not moved a new selection
  with the same access succeeds and yields the same generation, epoch, profile and digests. Repair capacity is needed: a
  selection without it accepts an intact pair only, and is refused once one copy is torn.
\<close>
theorem torn_write_recovers:
  assumes "select_backend_state copies a r access = Inr sel" "plan_backend_transition sel = Inr p" "ba_repair_capacity access"
    and "copies' = (if tp_target_copy p = 0 then (c, snd copies) else (fst copies, c))"
  shows "\<exists>sel'. select_backend_state copies' a r access = Inr sel' \<and>
    se_state_generation sel' = se_state_generation sel \<and> se_store_epoch sel' = se_store_epoch sel \<and>
    se_auth_profile sel' = se_auth_profile sel \<and> se_logical_state_sha256 sel' = se_logical_state_sha256 sel \<and>
    se_previous_state_sha256 sel' = se_previous_state_sha256 sel"
proof -
  note s = select_Inr [OF assms(1)]
  have t: "tp_target_copy p = (if anchored_mask a copies = 1 then 1 else if anchored_mask a copies = 2 then 0
      else 1 - se_selected_copy sel)"
    using assms(2) [unfolded plan_backend_transition_def Let_def guarded_Inr_iff, THEN conjunct2] s(1)
    by (auto simp: selects_def)
  have "anchored_mask a copies' \<noteq> 0"
    using s(1,3) by (auto simp: assms(4) t anchored_mask_def selects_def split: if_splits)
  from select_returns [OF s(2) this s(4) assms(3)] s(1) show ?thesis by (auto simp: selects_def)
qed

section \<open>Authorisation\<close>

lemma demand_Inr_iff: "demand checks k = Inr x \<longleftrightarrow> list_all fst checks \<and> k = Inr x"
  by (auto simp: demand_def guarded_Inr_iff list_all_iff)

text \<open>
  A boot is authorised exactly when all fourteen bindings and floors hold, the policy is not an unsigned development
  policy and every piece of external evidence is present; in particular the development evidence never authorises anything.
\<close>
theorem trust_authorized_iff:
  "(returns (bt_authorize p s ob e) \<longleftrightarrow>
      list_all fst (binding_checks p s ob) \<and> po_flags p \<noteq> POLICY_FLAG_DEVELOPMENT_UNSIGNED \<and> list_all fst (evidence_checks s e)) \<and>
   \<not> returns (bt_authorize p s ob evidence_development)"
proof -
  have *: "returns (bt_authorize p s ob e) \<longleftrightarrow> list_all fst (binding_checks p s ob) \<and>
      po_flags p \<noteq> POLICY_FLAG_DEVELOPMENT_UNSIGNED \<and> list_all fst (evidence_checks s e)" for e
    by (auto simp: returns_iff bt_authorize_def demand_Inr_iff guarded_Inr_iff)
  show ?thesis using * [of e] * [of evidence_development] by (simp add: evidence_checks_def evidence_development_def)
qed

end
