(* ===== verification/Boot_Trust_Codec.thy ===== *)
theory Boot_Trust_Codec
  imports Boot_Trust_Backend
begin

text \<open>
  The state record of the trust backend as a codec: the encoder and the parser invert each other. The smallest
  committed state then instantiates the backend's theorems; its digest is computed.
\<close>

unbundle bit_operations_syntax

section \<open>The image of a state\<close>

definition args_of :: "bt_state \<Rightarrow> state_args" where
  "args_of s = \<lparr>sa_policy_sha256 = bs_policy_sha256 s, sa_manifest_sha256 = bs_manifest_sha256 s, sa_kernel_sha256 = bs_kernel_sha256 s,
     sa_retained_set_sha256 = bs_retained_set_sha256 s, sa_state_generation = bs_state_generation s, sa_store_epoch = bs_store_epoch s,
     sa_minimum_secure_version = bs_minimum_secure_version s, sa_accepted_manifest_version = bs_accepted_manifest_version s,
     sa_accepted_policy_version = bs_accepted_policy_version s,
     sa_authenticated_backend = (bs_flags s AND STATE_FLAG_AUTHENTICATED_BACKEND \<noteq> 0), sa_copy_index = bs_copy_index s,
     sa_auth_profile = bs_auth_profile s,
     sa_previous_state_sha256 = (if bs_state_generation s = 1 then None else Some (bs_previous_state_sha256 s))\<rparr>"

definition bt_fields :: "bt_state \<Rightarrow> (nat \<times> int) list" where
  "bt_fields s = [(2, 1), (2, 0), (2, 256), (2, bs_flags s), (1, bs_copy_index s), (1, 2), (2, 1), (2, bs_auth_profile s), (2, 0),
     (8, bs_state_generation s), (8, bs_store_epoch s), (8, bs_minimum_secure_version s), (8, bs_accepted_manifest_version s),
     (8, bs_accepted_policy_version s)]"

definition hexed :: "string \<Rightarrow> bytes" where
  "hexed h = projr (fromhex h)"

definition bt_body :: "bt_state \<Rightarrow> bytes" where
  "bt_body s = BT_STATE_MAGIC @ packed (bt_fields s) @ hexed (bs_policy_sha256 s) @ hexed (bs_manifest_sha256 s) @
     hexed (bs_kernel_sha256 s) @ hexed (bs_retained_set_sha256 s) @ hexed (bs_previous_state_sha256 s)"

definition bt_image :: "bt_state \<Rightarrow> bytes" where
  "bt_image s = bt_body s @ sha256 (bt_body s)"

definition is_digest :: "string \<Rightarrow> bool" where
  "is_digest h \<longleftrightarrow> length (hexed h) = 32 \<and> h = hex_upper (hexed h)"

definition bt_state_ok :: "bt_state \<Rightarrow> bool" where
  "bt_state_ok s \<longleftrightarrow> (bs_flags s = 3 \<and> bs_auth_profile s = 0 \<or> bs_flags s = 6 \<and> 1 \<le> bs_auth_profile s \<and> bs_auth_profile s < 2 ^ 16) \<and>
     (bs_copy_index s = 0 \<or> bs_copy_index s = 1) \<and>
     1 \<le> bs_state_generation s \<and> bs_state_generation s < 2 ^ 64 \<and> 1 \<le> bs_store_epoch s \<and> bs_store_epoch s < 2 ^ 64 \<and>
     1 \<le> bs_minimum_secure_version s \<and> bs_minimum_secure_version s \<le> bs_accepted_manifest_version s \<and>
     bs_accepted_manifest_version s < 2 ^ 64 \<and> 1 \<le> bs_accepted_policy_version s \<and> bs_accepted_policy_version s < 2 ^ 64 \<and>
     list_all (\<lambda>h. is_digest h \<and> hexed h \<noteq> zeros 32)
       [bs_policy_sha256 s, bs_manifest_sha256 s, bs_kernel_sha256 s, bs_retained_set_sha256 s] \<and>
     is_digest (bs_previous_state_sha256 s) \<and> (bs_state_generation s = 1) = (hexed (bs_previous_state_sha256 s) = zeros 32)"

lemma hexed_hex_upper [simp]: "hexed (hex_upper bs) = bs"
  by (simp add: hexed_def)

lemma is_digest_hex_upper [simp]: "is_digest (hex_upper bs) \<longleftrightarrow> length bs = 32"
  by (simp add: is_digest_def)

lemma length_trust_magic [simp]: "length BT_STATE_MAGIC = 8"
  by (simp add: BT_STATE_MAGIC_def)

lemma bt_fields_len [simp]: "sum_list (map fst (bt_fields s)) = 56"
  by (simp add: bt_fields_def)

lemma bt_fields_fit: "bt_state_ok s \<Longrightarrow> list_all (\<lambda>(n, v). fits n v) (bt_fields s)"
  by (auto simp: bt_state_ok_def bt_fields_def fits_def)

lemma bt_state_ok_digests:
  assumes "bt_state_ok s"
  shows "length (hexed (bs_policy_sha256 s)) = 32" "length (hexed (bs_manifest_sha256 s)) = 32" "length (hexed (bs_kernel_sha256 s)) = 32"
    "length (hexed (bs_retained_set_sha256 s)) = 32" "length (hexed (bs_previous_state_sha256 s)) = 32"
  using assms by (simp_all add: bt_state_ok_def is_digest_def)

lemma length_bt_body: "bt_state_ok s \<Longrightarrow> length (bt_body s) = 224"
  by (simp add: bt_body_def bt_state_ok_digests)

section \<open>Encoding writes the image\<close>

lemma set_byte_append:
  "i = length pre \<Longrightarrow> 0 < m \<Longrightarrow> 0 \<le> v \<Longrightarrow> v \<le> 255 \<Longrightarrow>
   set_byte i v (pre @ zeros m) = Inr ((pre @ packed [(1, v)]) @ zeros (m - 1))"
  by (cases m) (simp_all add: set_byte_def packed_def zeros_def)

lemma put_digest_append:
  assumes "is_digest h" "hexed h \<noteq> zeros 32" "i = length pre" "32 \<le> m"
  shows "put_digest i h code (pre @ zeros m) = Inr ((pre @ hexed h) @ zeros (m - 32))"
proof -
  have l: "length (hexed h) = 32" and h: "h = hex_upper (hexed h)" using assms(1) by (simp_all add: is_digest_def)
  have "bt_digest h code = Inr (hexed h)" by (subst h) (rule bt_digest_hex_upper [OF l assms(2)])
  then show ?thesis
    using slice_assign_zeros [of i pre 0 "i + 32" "hexed h" m] l assms(3,4) by (simp add: put_digest_def zeros_def)
qed

lemma bt_encode_image:
  assumes ok: "bt_state_ok s"
  shows "bt_encode_state (args_of s) = Inr (bt_image s)"
proof -
  define F1 F2 F3 :: "(nat \<times> int) list" where "F1 = [(2, 1), (2, 0), (2, 256), (2, bs_flags s)]" and
    "F2 = [(2, 1), (2, bs_auth_profile s), (2, 0)]" and
    "F3 = [(8, bs_state_generation s), (8, bs_store_epoch s), (8, bs_minimum_secure_version s),
          (8, bs_accepted_manifest_version s), (8, bs_accepted_policy_version s)]"
  have fields: "bt_fields s = F1 @ [(1, bs_copy_index s)] @ [(1, 2)] @ F2 @ F3" by (simp add: bt_fields_def F1_def F2_def F3_def)
  have fit: "list_all (\<lambda>(n, v). fits n v) F1" "list_all (\<lambda>(n, v). fits n v) F2" "list_all (\<lambda>(n, v). fits n v) F3"
    using bt_fields_fit [OF ok] by (simp_all add: fields)
  have len: "sum_list (map fst F1) = 8" "sum_list (map fst F2) = 6" "sum_list (map fst F3) = 40" by (simp_all add: F1_def F2_def F3_def)
  have c: "0 \<le> bs_copy_index s" "bs_copy_index s \<le> 255" using ok by (auto simp: bt_state_ok_def)
  let ?A = "BT_STATE_MAGIC" let ?B = "?A @ packed F1" let ?C = "?B @ packed [(1, bs_copy_index s)]"
  let ?D = "?C @ packed [(1, 2)]" let ?E = "?D @ packed F2" let ?F = "?E @ packed F3"
  let ?G = "?F @ hexed (bs_policy_sha256 s)" let ?H = "?G @ hexed (bs_manifest_sha256 s)"
  let ?I = "?H @ hexed (bs_kernel_sha256 s)" let ?J = "?I @ hexed (bs_retained_set_sha256 s)"
  let ?K = "?J @ hexed (bs_previous_state_sha256 s)"
  have dg: "is_digest (bs_policy_sha256 s)" "hexed (bs_policy_sha256 s) \<noteq> zeros 32" "is_digest (bs_manifest_sha256 s)"
    "hexed (bs_manifest_sha256 s) \<noteq> zeros 32" "is_digest (bs_kernel_sha256 s)" "hexed (bs_kernel_sha256 s) \<noteq> zeros 32"
    "is_digest (bs_retained_set_sha256 s)" "hexed (bs_retained_set_sha256 s) \<noteq> zeros 32"
    "is_digest (bs_previous_state_sha256 s)" "(bs_state_generation s = 1) = (hexed (bs_previous_state_sha256 s) = zeros 32)"
    using ok by (simp_all add: bt_state_ok_def)
  note dl = bt_state_ok_digests [OF ok]
  have s1: "slice_assign (zeros 256) 0 8 ?A = ?A @ zeros 248"
    using slice_assign_zeros [of 0 "[]" 0 8 ?A 256] by (simp add: zeros_def)
  have s2: "pack_into (?A @ zeros 248) 8 F1 = Inr (?B @ zeros 240)" using fit len by (subst pack_into_append) simp_all
  have s3: "set_byte 16 (bs_copy_index s) (?B @ zeros 240) = Inr (?C @ zeros 239)" using c len by (subst set_byte_append) simp_all
  have s4: "set_byte 17 2 (?C @ zeros 239) = Inr (?D @ zeros 238)" using len by (subst set_byte_append) simp_all
  have s5: "pack_into (?D @ zeros 238) 18 F2 = Inr (?E @ zeros 232)" using fit len by (subst pack_into_append) simp_all
  have s6: "pack_into (?E @ zeros 232) 24 F3 = Inr (?F @ zeros 192)" using fit len by (subst pack_into_append) simp_all
  have s7: "put_digest 64 (bs_policy_sha256 s) ''pbtrust_state_digest'' (?F @ zeros 192) = Inr (?G @ zeros 160)"
    using dg len by (subst put_digest_append) simp_all
  have s8: "put_digest 96 (bs_manifest_sha256 s) ''pbtrust_state_digest'' (?G @ zeros 160) = Inr (?H @ zeros 128)"
    using dg len dl by (subst put_digest_append) simp_all
  have s9: "put_digest 128 (bs_kernel_sha256 s) ''pbtrust_state_digest'' (?H @ zeros 128) = Inr (?I @ zeros 96)"
    using dg len dl by (subst put_digest_append) simp_all
  have s10: "put_digest 160 (bs_retained_set_sha256 s) ''pbtrust_state_digest'' (?I @ zeros 96) = Inr (?J @ zeros 64)"
    using dg len dl by (subst put_digest_append) simp_all
  have s11: "(case sa_previous_state_sha256 (args_of s) of None \<Rightarrow> Inr (?J @ zeros 64)
      | Some p \<Rightarrow> put_digest 192 p ''pbtrust_state_previous'' (?J @ zeros 64)) = Inr (?K @ zeros 32)"
  proof (cases "bs_state_generation s = 1")
    case True
    then show ?thesis using dg zeros_split [of 32 64] by (simp add: args_of_def)
  next
    case False
    then show ?thesis using dg len dl put_digest_append [OF dg(9), of 192 ?J 64] by (simp add: args_of_def)
  qed
  have body: "?K = bt_body s" by (simp only: bt_body_def fields packed_append append_assoc)
  have s12: "slice_assign (?K @ zeros 32) 224 256 (sha256 (take 224 (?K @ zeros 32))) = bt_image s"
    using slice_assign_zeros [of 224 "bt_body s" 0 256 "sha256 (bt_body s)" 32] length_bt_body [OF ok]
    by (simp only: body) (simp add: bt_image_def zeros_def)
  have flags: "STATE_FLAG_COMMITTED OR (if sa_authenticated_backend (args_of s) then STATE_FLAG_AUTHENTICATED_BACKEND
      else STATE_FLAG_DEVELOPMENT_CANDIDATE) = bs_flags s"
    "(if sa_authenticated_backend (args_of s) then sa_auth_profile (args_of s) else 0) = bs_auth_profile s"
    using ok by (auto simp: args_of_def bt_state_ok_def code_defs)
  have f: "[(2, BT_MAJOR_VERSION), (2, BT_MINOR_VERSION), (2, int 256), (2, bs_flags s)] = F1"
    "[(2, COMMIT_COMPLETE), (2, bs_auth_profile s), (2, 0)] = F2" "COPY_COUNT = 2" "BT_STATE_BYTES = 256" "STATE_BODY_BYTES = 224"
    by (simp_all add: F1_def F2_def code_defs)
  have args: "sa_copy_index (args_of s) = bs_copy_index s" "sa_policy_sha256 (args_of s) = bs_policy_sha256 s"
    "sa_manifest_sha256 (args_of s) = bs_manifest_sha256 s" "sa_kernel_sha256 (args_of s) = bs_kernel_sha256 s"
    "sa_retained_set_sha256 (args_of s) = bs_retained_set_sha256 s"
    "[(8, sa_state_generation (args_of s)), (8, sa_store_epoch (args_of s)), (8, sa_minimum_secure_version (args_of s)),
      (8, sa_accepted_manifest_version (args_of s)), (8, sa_accepted_policy_version (args_of s))] = F3"
    by (simp_all add: args_of_def F3_def)
  show ?thesis
    unfolding bt_encode_state_def Let_def flags f args s1 s2 rbind.simps s3 s4 s5 s6 s7 s8 s9 s10 s11 s12 ..
qed


section \<open>Parsing the image\<close>

lemma bit_count_small: "bit_count 0 = 0" "bit_count 1 = 1" "bit_count (Suc 0) = 1" "bit_count 4 = 1" "bit_count 5 = 2"
  by (simp_all add: bit_count.simps)

lemma rd_bt_image:
  assumes "bt_state_ok s" "8 \<le> k" "k + n \<le> 64" "fld (bt_fields s) (k - 8) n = Some x"
  shows "rd n (bt_image s) k = x"
proof -
  have "rd n (bt_image s) k = rd n (packed (bt_fields s)) (k - 8)"
    using assms(2,3) by (simp add: bt_image_def bt_body_def rd_append2 rd_append1)
  also have "\<dots> = x" using assms(4) bt_fields_fit [OF assms(1)] by (rule rd_packed)
  finally show ?thesis .
qed

lemma bt_parse_image:
  assumes ok: "bt_state_ok s"
  shows "bt_parse_state (bt_image s) = Inr (s\<lparr>bs_body_sha256 := hex_upper (sha256 (bt_body s)), bs_raw := bt_image s\<rparr>)"
proof -
  let ?d = "bt_image s"
  note dl = bt_state_ok_digests [OF ok]
  have reads: "rd 2 ?d 8 = 1" "rd 2 ?d 10 = 0" "rd 2 ?d 12 = 256" "rd 2 ?d 14 = bs_flags s" "rd 1 ?d 16 = bs_copy_index s"
    "rd 1 ?d 17 = 2" "rd 2 ?d 18 = 1" "rd 2 ?d 20 = bs_auth_profile s" "rd 2 ?d 22 = 0" "rd 8 ?d 24 = bs_state_generation s"
    "rd 8 ?d 32 = bs_store_epoch s" "rd 8 ?d 40 = bs_minimum_secure_version s" "rd 8 ?d 48 = bs_accepted_manifest_version s"
    "rd 8 ?d 56 = bs_accepted_policy_version s"
    by (simp_all add: rd_bt_image [OF ok] bt_fields_def del: One_nat_def)
  have len: "length ?d = 256" "take 224 ?d = bt_body s" "bslice ?d 224 256 = sha256 (bt_body s)" "bslice ?d 0 8 = BT_STATE_MAGIC"
    using length_bt_body [OF ok] by (simp_all add: bt_image_def bslice_append2 slice_full) (simp add: bt_body_def bslice_def)
  have parts: "bslice ?d 64 96 = hexed (bs_policy_sha256 s)" "bslice ?d 96 128 = hexed (bs_manifest_sha256 s)"
    "bslice ?d 128 160 = hexed (bs_kernel_sha256 s)" "bslice ?d 160 192 = hexed (bs_retained_set_sha256 s)"
    "bslice ?d 192 224 = hexed (bs_previous_state_sha256 s)"
    using dl by (simp_all add: bt_image_def bt_body_def bslice_def)
  have hx: "hex_upper (hexed (bs_policy_sha256 s)) = bs_policy_sha256 s" "hex_upper (hexed (bs_manifest_sha256 s)) = bs_manifest_sha256 s"
    "hex_upper (hexed (bs_kernel_sha256 s)) = bs_kernel_sha256 s" "hex_upper (hexed (bs_retained_set_sha256 s)) = bs_retained_set_sha256 s"
    "hex_upper (hexed (bs_previous_state_sha256 s)) = bs_previous_state_sha256 s"
    using ok by (simp_all add: bt_state_ok_def is_digest_def)
  have flags: "bs_flags s AND NOT 7 = 0" "bs_flags s AND 2 \<noteq> 0" "bit_count (nat (bs_flags s AND 5)) = 1"
    "bs_flags s AND 5 = 1 \<Longrightarrow> bs_auth_profile s = 0" "bs_flags s AND 5 = 4 \<Longrightarrow> bs_auth_profile s \<noteq> 0"
    using ok by (auto simp: bt_state_ok_def bit_count_small)
  have k: "BT_STATE_KNOWN_FLAGS = 7" "STATE_FLAG_COMMITTED = 2" "STATE_FLAG_DEVELOPMENT_CANDIDATE OR STATE_FLAG_AUTHENTICATED_BACKEND = 5"
    "STATE_FLAG_DEVELOPMENT_CANDIDATE = 1" "STATE_FLAG_AUTHENTICATED_BACKEND = 4" "BT_STATE_BYTES = 256" "STATE_BODY_BYTES = 224"
    "COPY_COUNT = 2" "COMMIT_COMPLETE = 1" "BT_MAJOR_VERSION = 1" "BT_MINOR_VERSION = 0" by (simp_all add: code_defs)
  have nums: "bs_copy_index s < 2" "bs_state_generation s \<noteq> 0" "bs_store_epoch s \<noteq> 0" "bs_minimum_secure_version s \<noteq> 0"
    "bs_accepted_manifest_version s \<noteq> 0" "bs_accepted_policy_version s \<noteq> 0" "\<not> bs_accepted_manifest_version s < bs_minimum_secure_version s"
    "(bs_state_generation s = 1) = (hexed (bs_previous_state_sha256 s) = zeros 32)"
    "hexed (bs_policy_sha256 s) \<noteq> zeros 32" "hexed (bs_manifest_sha256 s) \<noteq> zeros 32" "hexed (bs_kernel_sha256 s) \<noteq> zeros 32"
    "hexed (bs_retained_set_sha256 s) \<noteq> zeros 32"
    using ok by (auto simp: bt_state_ok_def)
  show ?thesis
    unfolding bt_parse_state_def Let_def k
  proof (subst guarded_pass)
    show "Inr \<lparr>bs_flags = rd 2 ?d 14, bs_copy_index = rd 1 ?d 16, bs_auth_profile = rd 2 ?d 20, bs_state_generation = rd 8 ?d 24,
        bs_store_epoch = rd 8 ?d 32, bs_minimum_secure_version = rd 8 ?d 40, bs_accepted_manifest_version = rd 8 ?d 48,
        bs_accepted_policy_version = rd 8 ?d 56,
        bs_policy_sha256 = hex_upper (map (\<lambda>offset. bslice ?d offset (offset + 32)) [64, 96, 128, 160] ! 0),
        bs_manifest_sha256 = hex_upper (map (\<lambda>offset. bslice ?d offset (offset + 32)) [64, 96, 128, 160] ! 1),
        bs_kernel_sha256 = hex_upper (map (\<lambda>offset. bslice ?d offset (offset + 32)) [64, 96, 128, 160] ! 2),
        bs_retained_set_sha256 = hex_upper (map (\<lambda>offset. bslice ?d offset (offset + 32)) [64, 96, 128, 160] ! 3),
        bs_previous_state_sha256 = hex_upper (bslice ?d 192 224), bs_body_sha256 = hex_upper (bslice ?d 224 256), bs_raw = ?d\<rparr> =
      Inr (s\<lparr>bs_body_sha256 := hex_upper (sha256 (bt_body s)), bs_raw := ?d\<rparr>)"
      by (intro arg_cong [where f = Inr] bt_state.equality) (simp_all add: reads parts hx len nth_Cons' del: One_nat_def)
  qed (use flags nums in \<open>simp add: reads parts len del: One_nat_def\<close>)
qed

section \<open>Every accepted record is an image\<close>

lemma small_flags:
  fixes f :: int
  assumes "0 \<le> f" "f AND NOT 7 = 0" "f AND 2 \<noteq> 0" "bit_count (nat (f AND 5)) = 1"
  shows "f = 3 \<or> f = 6"
proof -
  have "f < 8" using assms(1,2) and_not_7_0_iff by blast
  then have "f \<in> {0, 1, 2, 3, 4, 5, 6, 7}" using assms(1) by auto
  then show ?thesis using assms(3,4) by (auto simp: bit_count_small)
qed

lemma bt_parse_guards:
  assumes "bt_parse_state d = Inr s"
  shows "bslice d 0 8 = BT_STATE_MAGIC" "rd 2 d 8 = 1" "rd 2 d 10 = 0" "rd 2 d 12 = 256" "rd 1 d 17 = 2" "rd 2 d 18 = 1" "rd 2 d 22 = 0"
    "rd 2 d 14 AND NOT 7 = 0" "rd 2 d 14 AND 2 \<noteq> 0" "bit_count (nat (rd 2 d 14 AND 5)) = 1" "rd 1 d 16 < 2"
    "rd 2 d 14 AND 5 = 1 \<Longrightarrow> rd 2 d 20 = 0" "rd 2 d 14 AND 5 = 4 \<Longrightarrow> rd 2 d 20 \<noteq> 0"
    "rd 8 d 40 \<noteq> 0" "rd 8 d 56 \<noteq> 0" "sha256 (take 224 d) = bslice d 224 256"
    "list_all (\<lambda>h. h \<noteq> zeros 32) [bslice d 64 96, bslice d 96 128, bslice d 128 160, bslice d 160 192]"
    "bs_flags s = rd 2 d 14" "bs_copy_index s = rd 1 d 16" "bs_body_sha256 s = hex_upper (bslice d 224 256)"
proof -
  note g = assms [unfolded bt_parse_state_def Let_def guarded_Inr_iff]
  show "bslice d 0 8 = BT_STATE_MAGIC" "rd 2 d 8 = 1" "rd 2 d 10 = 0" "rd 2 d 12 = 256" "rd 1 d 17 = 2" "rd 2 d 18 = 1" "rd 2 d 22 = 0"
    "rd 2 d 14 AND NOT 7 = 0" "rd 2 d 14 AND 2 \<noteq> 0" "bit_count (nat (rd 2 d 14 AND 5)) = 1" "rd 1 d 16 < 2"
    "rd 2 d 14 AND 5 = 1 \<Longrightarrow> rd 2 d 20 = 0" "rd 2 d 14 AND 5 = 4 \<Longrightarrow> rd 2 d 20 \<noteq> 0"
    "rd 8 d 40 \<noteq> 0" "rd 8 d 56 \<noteq> 0" "sha256 (take 224 d) = bslice d 224 256"
    using g by (simp_all add: code_defs del: One_nat_def)
  show "list_all (\<lambda>h. h \<noteq> zeros 32) [bslice d 64 96, bslice d 96 128, bslice d 128 160, bslice d 160 192]"
    using g by simp
  show "bs_flags s = rd 2 d 14" "bs_copy_index s = rd 1 d 16" "bs_body_sha256 s = hex_upper (bslice d 224 256)"
    using conjunct2 [OF g] by (auto simp del: One_nat_def)
qed

lemma bt_parse_spelling:
  assumes "bt_parse_state d = Inr s"
  shows "bt_state_ok s" "d = bt_image s"
proof -
  note p = bt_parse_state_Inr [OF assms] and g = bt_parse_guards [OF assms]
  have up: "rd 8 d 24 < 2 ^ 64" "rd 8 d 32 < 2 ^ 64" "rd 8 d 48 < 2 ^ 64" "rd 8 d 56 < 2 ^ 64" "rd 2 d 20 < 2 ^ 16"
    using rd_upper [of 24 8 d] rd_upper [of 32 8 d] rd_upper [of 48 8 d] rd_upper [of 56 8 d] rd_upper [of 20 2 d] p(1) by simp_all
  have lo: "0 \<le> rd 8 d 24" "0 \<le> rd 8 d 32" "0 \<le> rd 8 d 40" "0 \<le> rd 8 d 56" "0 \<le> rd 2 d 20" "0 \<le> rd 2 d 14" "0 \<le> rd 1 d 16"
    using rd_nonneg by blast+
  have fl: "rd 2 d 14 = 3 \<or> rd 2 d 14 = 6" by (rule small_flags [OF lo(6) g(8-10)])
  have "rd 2 d 20 \<noteq> 0 \<Longrightarrow> 1 \<le> rd 2 d 20" using lo(5) by linarith
  with fl have flags: "rd 2 d 14 = 3 \<and> rd 2 d 20 = 0 \<or> rd 2 d 14 = 6 \<and> 1 \<le> rd 2 d 20" using g(12,13) by auto
  have digs: "list_all (\<lambda>h. length h = 32) [bslice d 64 96, bslice d 96 128, bslice d 128 160, bslice d 160 192, bslice d 192 224]"
    using p(1) by (simp add: length_slice)
  have num: "1 \<le> rd 8 d 24" "1 \<le> rd 8 d 32" "1 \<le> rd 8 d 40" "1 \<le> rd 8 d 56" using lo(1-4) p(3,6-8) g(14,15) by linarith+
  have ci: "rd 1 d 16 = 0 \<or> rd 1 d 16 = 1" using g(11) lo(7) by linarith
  show "bt_state_ok s"
    using flags digs num ci up g(17) p(5,17) by (simp add: bt_state_ok_def p(3,4,8-16) g(18,19) del: One_nat_def)
  have fields: "bt_fields s = read_fields d 8 [2, 2, 2, 2, 1, 1, 2, 2, 2, 8, 8, 8, 8, 8]"
    using g(2-7) by (simp add: bt_fields_def p(3,8-12) g(18,19) del: One_nat_def)
  have "packed (bt_fields s) = bslice d 8 64" unfolding fields using p(1) by (subst packed_read_fields) simp_all
  then have "bt_body s = bslice d 0 8 @ bslice d 8 64 @ bslice d 64 96 @ bslice d 96 128 @ bslice d 128 160 @ bslice d 160 192 @ bslice d 192 224"
    using g(1) by (simp add: bt_body_def p(4,13-16))
  also have "\<dots> = bslice d 0 224"
    using bslice_add [of 160 192 224 d] bslice_add [of 128 160 224 d] bslice_add [of 96 128 224 d] bslice_add [of 64 96 224 d]
      bslice_add [of 8 64 224 d] bslice_add [of 0 8 224 d] by simp
  also have "\<dots> = take 224 d" by (simp add: bslice_def)
  finally have "bt_body s = take 224 d" .
  then show "d = bt_image s" using g(16) p(1) by (simp add: bt_image_def bslice_def)
qed

abbreviation encode_trust_state :: "bt_state \<Rightarrow> bytes res" where
  "encode_trust_state s \<equiv> bt_encode_state (args_of s)"

interpretation trust_state_codec: codec encode_trust_state bt_parse_state bt_state_ok "\<lambda>s. s\<lparr>bs_body_sha256 := [], bs_raw := []\<rparr>"
proof unfold_locales
  fix s assume "bt_state_ok s"
  then show "\<exists>d y. encode_trust_state s = Inr d \<and> bt_parse_state d = Inr y \<and>
      y\<lparr>bs_body_sha256 := [], bs_raw := []\<rparr> = s\<lparr>bs_body_sha256 := [], bs_raw := []\<rparr>"
    by (simp add: bt_encode_image bt_parse_image)
next
  fix d s assume "bt_parse_state d = Inr s"
  from bt_parse_spelling [OF this] show "encode_trust_state s = Inr d" by (simp add: bt_encode_image)
next
  fix s t :: bt_state assume "s\<lparr>bs_body_sha256 := [], bs_raw := []\<rparr> = t\<lparr>bs_body_sha256 := [], bs_raw := []\<rparr>"
  then show "encode_trust_state s = encode_trust_state t" by (cases s; cases t) (simp add: args_of_def)
qed

text \<open>
  C24. The backend's state record round-trips: every state in range is encoded, what is parsed back agrees with it in every
  field, and conversely an accepted record is the encoding of the state read from it, so no two records spell one state.
\<close>
theorem trust_state_roundtrip:
  "(bt_state_ok s \<longrightarrow> (\<exists>d y. bt_encode_state (args_of s) = Inr d \<and> bt_parse_state d = Inr y \<and>
      y\<lparr>bs_body_sha256 := [], bs_raw := []\<rparr> = s\<lparr>bs_body_sha256 := [], bs_raw := []\<rparr>)) \<and>
   (bt_parse_state e = Inr s \<longrightarrow> bt_state_ok s \<and> bt_encode_state (args_of s) = Inr e)"
  using trust_state_codec.dec_enc [of s] trust_state_codec.enc_dec [of e s] bt_parse_spelling(1) [of e s] by blast

section \<open>Development records and digests\<close>

text \<open>
  The development path reports success exactly when both records parse, all fourteen bindings and floors hold and
  the policy is the unsigned development policy; every such report grants nothing, writes nothing and names the denial.
\<close>
theorem development_boot_iff:
  "(returns (validate_development policy_data state_data ob) \<longleftrightarrow>
     (\<exists>p s. parse_policy policy_data = Inr p \<and> bt_parse_state state_data = Inr s \<and>
        list_all fst (binding_checks p s ob) \<and> po_flags p = POLICY_FLAG_DEVELOPMENT_UNSIGNED)) \<and>
   (case validate_development policy_data state_data ob of Inl e \<Rightarrow> True
    | Inr r \<Rightarrow> dr_authority_grants r = 0 \<and> dr_state_writes r = 0 \<and> dr_denial r = ''pbtrust_policy_unsigned'' \<and>
        dr_policy_sha256 r = hex_upper (sha256 policy_data) \<and> dr_state_sha256 r = hex_upper (sha256 state_data))"
proof (cases "parse_policy policy_data")
  case (Inl e)
  then show ?thesis by (simp add: validate_development_def returns_iff)
next
  case p: (Inr p)
  show ?thesis
  proof (cases "bt_parse_state state_data")
    case (Inl e)
    with p show ?thesis by (simp add: validate_development_def returns_iff)
  next
    case (Inr s)
    have "bt_authorize p s ob evidence_development = Inl (Fail ''pbtrust_policy_unsigned'') \<longleftrightarrow>
        list_all fst (binding_checks p s ob) \<and> po_flags p = POLICY_FLAG_DEVELOPMENT_UNSIGNED"
      unfolding bt_authorize_def demand_def binding_checks_def evidence_checks_def
      by (simp add: guarded.simps evidence_development_def) blast
    with p Inr show ?thesis
      by (cases "bt_authorize p s ob evidence_development") (simp_all add: validate_development_def returns_iff)
  qed
qed

text \<open>
  The digest check counts characters, while \<open>bytes.fromhex\<close> skips white space: sixty-four blanks pass as a
  digest of no bytes.
\<close>
theorem blank_digest_accepted: "bt_digest (replicate 64 (CHR '' '')) code = Inr []"
proof -
  have "fromhex (replicate 64 (CHR '' '')) = Inr []" "map upper_char (replicate 64 (CHR '' '')) = replicate 64 (CHR '' '')" by code_simp+
  then show ?thesis by (simp add: bt_digest_def guarded.simps zeros_def)
qed

end
