(* ===== verification/Boot_Trust_Policy.thy ===== *)
theory Boot_Trust_Policy
  imports Boot_Trust_Codec
begin

text \<open>
  The policy record as a codec over the encoder's arguments, and the development records: exactly which manifests,
  kernels and version floors get a pair of records that the development path accepts.
\<close>

unbundle bit_operations_syntax

section \<open>The image of a policy\<close>

definition policy_signing :: "policy_args \<Rightarrow> (nat \<times> int) list" where
  "policy_signing a = (if pa_signed a then [(2, pa_signer_threshold a), (2, pa_signer_count a), (2, pa_auth_profile a),
     (2, int (length (pa_signature a)))] else [(2, 0), (2, 0), (2, 0), (2, 0)])"

definition policy_fields :: "policy_args \<Rightarrow> (nat \<times> int) list" where
  "policy_fields a = [(2, 1), (2, 0), (2, 320), (2, if pa_signed a then 2 else 1), (8, pa_policy_version a), (8, pa_trust_epoch a),
     (8, pa_minimum_secure_version a), (8, pa_minimum_state_generation a), (4, 127)] @ policy_signing a @ [(4, 0)]"

definition policy_root :: "policy_args \<Rightarrow> bytes" where
  "policy_root a = (if pa_signed a then pa_root_set_id a else zeros 16)"

definition policy_signers :: "policy_args \<Rightarrow> bytes" where
  "policy_signers a = (if pa_signed a then pa_signer_set_id a else zeros 16)"

definition policy_tail :: "policy_args \<Rightarrow> bytes" where
  "policy_tail a = (if pa_signed a then pa_signature a @ zeros (64 - length (pa_signature a)) else zeros 64)"

definition policy_body :: "policy_args \<Rightarrow> bytes" where
  "policy_body a = POLICY_MAGIC @ packed (policy_fields a) @ hexed (pa_manifest_sha256 a) @ hexed (pa_kernel_sha256 a) @
     hexed (pa_retained_set_sha256 a) @ hexed (pa_revocation_set_sha256 a) @ policy_root a @ policy_signers a"

definition policy_image :: "policy_args \<Rightarrow> bytes" where
  "policy_image a = policy_body a @ sha256 (policy_body a) @ policy_tail a"

definition signing_ok :: "policy_args \<Rightarrow> bool" where
  "signing_ok a \<longleftrightarrow> length (pa_root_set_id a) = 16 \<and> pa_root_set_id a \<noteq> zeros 16 \<and> length (pa_signer_set_id a) = 16 \<and>
     pa_signer_set_id a \<noteq> zeros 16 \<and> 1 \<le> pa_signer_threshold a \<and> pa_signer_threshold a \<le> pa_signer_count a \<and>
     pa_signer_count a \<le> 8 \<and> 1 \<le> pa_auth_profile a \<and> pa_auth_profile a < 2 ^ 16 \<and> 1 \<le> length (pa_signature a) \<and>
     length (pa_signature a) \<le> 64 \<and> pa_signature a \<noteq> zeros (length (pa_signature a))"

definition policy_ok :: "policy_args \<Rightarrow> bool" where
  "policy_ok a \<longleftrightarrow> list_all (\<lambda>v. 1 \<le> v \<and> v < 2 ^ 64)
       [pa_policy_version a, pa_trust_epoch a, pa_minimum_secure_version a, pa_minimum_state_generation a] \<and>
     list_all (\<lambda>h. is_digest h \<and> hexed h \<noteq> zeros 32)
       [pa_manifest_sha256 a, pa_kernel_sha256 a, pa_retained_set_sha256 a, pa_revocation_set_sha256 a] \<and>
     (pa_signed a \<longrightarrow> signing_ok a)"

lemma length_policy_magic [simp]: "length POLICY_MAGIC = 8"
  by (simp add: POLICY_MAGIC_def)

lemma policy_fields_len [simp]: "sum_list (map fst (policy_fields a)) = 56"
  by (simp add: policy_fields_def policy_signing_def)

lemma policy_fields_fit: "policy_ok a \<Longrightarrow> list_all (\<lambda>(n, v). fits n v) (policy_fields a)"
  by (auto simp: policy_ok_def policy_fields_def policy_signing_def signing_ok_def fits_def)

lemma policy_ok_digests:
  assumes "policy_ok a"
  shows "length (hexed (pa_manifest_sha256 a)) = 32" "length (hexed (pa_kernel_sha256 a)) = 32"
    "length (hexed (pa_retained_set_sha256 a)) = 32" "length (hexed (pa_revocation_set_sha256 a)) = 32"
  using assms by (simp_all add: policy_ok_def is_digest_def)

lemma policy_parts_len:
  assumes "policy_ok a"
  shows "length (policy_root a) = 16" "length (policy_signers a) = 16" "length (policy_tail a) = 64"
  using assms by (auto simp: policy_ok_def signing_ok_def policy_root_def policy_signers_def policy_tail_def)

lemma length_policy_body: "policy_ok a \<Longrightarrow> length (policy_body a) = 224"
  by (simp add: policy_body_def policy_ok_digests policy_parts_len)

section \<open>Encoding writes the image\<close>

lemma put_digest_mid:
  assumes "is_digest h" "hexed h \<noteq> zeros 32" "i = length pre"
  shows "put_digest i h code (pre @ zeros 32 @ post) = Inr (pre @ hexed h @ post)"
proof -
  have l: "length (hexed h) = 32" and h: "h = hex_upper (hexed h)" using assms(1) by (simp_all add: is_digest_def)
  have "bt_digest h code = Inr (hexed h)" by (subst h) (rule bt_digest_hex_upper [OF l assms(2)])
  then show ?thesis using slice_assign_mid [of i pre "i + 32" "zeros 32" post] assms(3) by (simp add: put_digest_def)
qed

lemma policy_signer_image:
  assumes "policy_ok a" "length pre = 52"
  shows "policy_signer a (pre @ zeros 268) =
    Inr (pre @ packed (policy_signing a) @ zeros 4 @ zeros 128 @ policy_root a @ policy_signers a @ zeros 32 @ policy_tail a)"
proof (cases "pa_signed a")
  case False
  have z: "zeros m @ zeros n = zeros (m + n)" "zeros m @ zeros n @ t = zeros (m + n) @ t" for m n t by (simp_all add: zeros_def replicate_add)
  have "packed [(2, 0), (2, 0), (2, 0), (2, 0)] = zeros 8" by code_simp
  then show ?thesis
    using False by (simp add: policy_signer_def policy_signing_def policy_root_def policy_signers_def policy_tail_def z)
next
  case True
  then have ok: "signing_ok a" using assms(1) by (simp add: policy_ok_def)
  define n where "n = length (pa_signature a)"
  have n: "1 \<le> n" "n \<le> 64" and ids: "length (pa_root_set_id a) = 16" "length (pa_signer_set_id a) = 16"
    using ok by (simp_all add: signing_ok_def n_def)
  define F :: "(nat \<times> int) list" where "F = [(2, pa_signer_threshold a), (2, pa_signer_count a), (2, pa_auth_profile a), (2, int n)]"
  have F: "policy_signing a = F" using True by (simp add: policy_signing_def F_def n_def)
  have fit: "list_all (\<lambda>(n, v). fits n v) F" using ok n by (auto simp: F_def signing_ok_def fits_def)
  have len: "sum_list (map fst F) = 8" by (simp add: F_def)
  have z: "zeros 260 = zeros 4 @ zeros 128 @ zeros 16 @ zeros 16 @ zeros 32 @ zeros n @ zeros (64 - n)"
    using n(2) by (simp add: zeros_def flip: replicate_add)
  let ?P = "pre @ packed F @ zeros 4 @ zeros 128"
  have s1: "pack_into (pre @ zeros 268) 52 F = Inr (pre @ packed F @ zeros 260)"
    using fit len assms(2) by (subst pack_into_append) simp_all
  have s2: "slice_assign (pre @ packed F @ zeros 260) 192 208 (pa_root_set_id a) =
      ?P @ pa_root_set_id a @ zeros 16 @ zeros 32 @ zeros n @ zeros (64 - n)"
    using slice_assign_mid [of 192 ?P 208 "zeros 16"] assms(2) len by (simp add: z)
  have s3: "slice_assign (?P @ pa_root_set_id a @ zeros 16 @ zeros 32 @ zeros n @ zeros (64 - n)) 208 224 (pa_signer_set_id a) =
      ?P @ pa_root_set_id a @ pa_signer_set_id a @ zeros 32 @ zeros n @ zeros (64 - n)"
    using slice_assign_mid [of 208 "?P @ pa_root_set_id a" 224 "zeros 16"] assms(2) len ids by simp
  have s4: "slice_assign (?P @ pa_root_set_id a @ pa_signer_set_id a @ zeros 32 @ zeros n @ zeros (64 - n)) 256 (256 + n) (pa_signature a) =
      ?P @ pa_root_set_id a @ pa_signer_set_id a @ zeros 32 @ pa_signature a @ zeros (64 - n)"
    using slice_assign_mid [of 256 "?P @ pa_root_set_id a @ pa_signer_set_id a @ zeros 32" "256 + n" "zeros n"] assms(2) len ids by simp
  have g: "policy_signer a (pre @ zeros 268) = rbind (pack_into (pre @ zeros 268) 52 F) (\<lambda>output.
      let output = slice_assign output 192 208 (pa_root_set_id a); output = slice_assign output 208 224 (pa_signer_set_id a)
      in Inr (slice_assign output 256 (256 + n) (pa_signature a)))"
    using True n ids by (simp add: policy_signer_def guarded.simps F_def n_def [symmetric] SIGNATURE_CAPACITY_def)
  show ?thesis
    unfolding g s1 rbind.simps Let_def s2 s3 s4 F
    using True by (simp add: policy_root_def policy_signers_def policy_tail_def n_def)
qed

lemma encode_policy_image:
  assumes ok: "policy_ok a"
  shows "encode_policy a = Inr (policy_image a)"
proof -
  define F1 F2 :: "(nat \<times> int) list" where "F1 = [(2, 1), (2, 0), (2, 320), (2, if pa_signed a then 2 else 1)]" and
    "F2 = [(8, pa_policy_version a), (8, pa_trust_epoch a), (8, pa_minimum_secure_version a), (8, pa_minimum_state_generation a), (4, 127)]"
  have fields: "policy_fields a = F1 @ F2 @ policy_signing a @ [(4, 0)]" by (simp add: policy_fields_def F1_def F2_def)
  have fit: "list_all (\<lambda>(n, v). fits n v) F1" "list_all (\<lambda>(n, v). fits n v) F2"
    using policy_fields_fit [OF ok] by (simp_all add: fields)
  have len: "sum_list (map fst F1) = 8" "sum_list (map fst F2) = 36" "sum_list (map fst (policy_signing a)) = 8"
    by (simp_all add: F1_def F2_def policy_signing_def)
  have dg: "is_digest (pa_manifest_sha256 a)" "hexed (pa_manifest_sha256 a) \<noteq> zeros 32" "is_digest (pa_kernel_sha256 a)"
    "hexed (pa_kernel_sha256 a) \<noteq> zeros 32" "is_digest (pa_retained_set_sha256 a)" "hexed (pa_retained_set_sha256 a) \<noteq> zeros 32"
    "is_digest (pa_revocation_set_sha256 a)" "hexed (pa_revocation_set_sha256 a) \<noteq> zeros 32"
    using ok by (simp_all add: policy_ok_def)
  note dl = policy_ok_digests [OF ok] and pl = policy_parts_len [OF ok]
  let ?A = "POLICY_MAGIC @ packed F1" let ?B = "?A @ packed F2" let ?C = "?B @ packed (policy_signing a) @ zeros 4"
  let ?T = "policy_root a @ policy_signers a @ zeros 32 @ policy_tail a"
  let ?G = "?C @ hexed (pa_manifest_sha256 a)" let ?H = "?G @ hexed (pa_kernel_sha256 a)"
  let ?I = "?H @ hexed (pa_retained_set_sha256 a)" let ?J = "?I @ hexed (pa_revocation_set_sha256 a)"
  have s1: "slice_assign (zeros 320) 0 8 POLICY_MAGIC = POLICY_MAGIC @ zeros 312"
    using slice_assign_zeros [of 0 "[]" 0 8 POLICY_MAGIC 320] by (simp add: zeros_def)
  have s2: "pack_into (POLICY_MAGIC @ zeros 312) 8 F1 = Inr (?A @ zeros 304)" using fit len by (subst pack_into_append) simp_all
  have s3: "pack_into (?A @ zeros 304) 16 F2 = Inr (?B @ zeros 268)" using fit len by (subst pack_into_append) simp_all
  have z: "zeros 128 = zeros 32 @ zeros 32 @ zeros 32 @ zeros 32" by (simp add: zeros_def flip: replicate_add)
  have s4: "policy_signer a (?B @ zeros 268) = Inr (?C @ zeros 32 @ zeros 32 @ zeros 32 @ zeros 32 @ ?T)"
    using policy_signer_image [OF ok, of ?B] len by (simp add: z)
  have s5: "put_digest 64 (pa_manifest_sha256 a) ''pbtrust_policy_digest'' (?C @ zeros 32 @ zeros 32 @ zeros 32 @ zeros 32 @ ?T) =
      Inr (?G @ zeros 32 @ zeros 32 @ zeros 32 @ ?T)"
    using dg len by (subst put_digest_mid) simp_all
  have s6: "put_digest 96 (pa_kernel_sha256 a) ''pbtrust_policy_digest'' (?G @ zeros 32 @ zeros 32 @ zeros 32 @ ?T) =
      Inr (?H @ zeros 32 @ zeros 32 @ ?T)"
    using dg len dl by (subst put_digest_mid) simp_all
  have s7: "put_digest 128 (pa_retained_set_sha256 a) ''pbtrust_policy_digest'' (?H @ zeros 32 @ zeros 32 @ ?T) = Inr (?I @ zeros 32 @ ?T)"
    using dg len dl by (subst put_digest_mid) simp_all
  have s8: "put_digest 160 (pa_revocation_set_sha256 a) ''pbtrust_policy_digest'' (?I @ zeros 32 @ ?T) = Inr (?J @ ?T)"
    using dg len dl by (subst put_digest_mid) simp_all
  have "packed [(4, 0)] = zeros 4" by code_simp
  then have body: "?J @ policy_root a @ policy_signers a = policy_body a" by (simp add: policy_body_def fields packed_append)
  have s9: "slice_assign (?J @ ?T) 224 256 (sha256 (take 224 (?J @ ?T))) = policy_image a"
  proof -
    have b: "?J @ ?T = policy_body a @ zeros 32 @ policy_tail a" unfolding body [symmetric] by simp
    show ?thesis
      unfolding b using slice_assign_mid [of 224 "policy_body a" 256 "zeros 32" "policy_tail a"] length_policy_body [OF ok]
      by (simp add: policy_image_def)
  qed
  have f: "[(2, BT_MAJOR_VERSION), (2, BT_MINOR_VERSION), (2, int 320), (2, if pa_signed a then POLICY_FLAG_SIGNED
      else POLICY_FLAG_DEVELOPMENT_UNSIGNED)] = F1" "POLICY_BYTES = 320" "POLICY_BODY_BYTES = 224"
    "[(8, pa_policy_version a), (8, pa_trust_epoch a), (8, pa_minimum_secure_version a), (8, pa_minimum_state_generation a),
      (4, ARTIFACT_ROLE_MASK)] = F2"
    by (simp_all add: F1_def F2_def code_defs)
  show ?thesis
    unfolding encode_policy_def Let_def f s1 s2 rbind.simps s3 s4 s5 s6 s7 s8 s9 ..
qed

section \<open>Parsing the image\<close>

definition policy_of :: "policy_args \<Rightarrow> bt_policy" where
  "policy_of a = \<lparr>po_flags = (if pa_signed a then 2 else 1), po_policy_version = pa_policy_version a, po_trust_epoch = pa_trust_epoch a,
     po_minimum_secure_version = pa_minimum_secure_version a, po_minimum_state_generation = pa_minimum_state_generation a,
     po_artifact_role_mask = 127, po_signer_threshold = (if pa_signed a then pa_signer_threshold a else 0),
     po_signer_count = (if pa_signed a then pa_signer_count a else 0), po_auth_profile = (if pa_signed a then pa_auth_profile a else 0),
     po_signature_bytes = (if pa_signed a then int (length (pa_signature a)) else 0), po_manifest_sha256 = pa_manifest_sha256 a,
     po_kernel_sha256 = pa_kernel_sha256 a, po_retained_set_sha256 = pa_retained_set_sha256 a,
     po_revocation_set_sha256 = pa_revocation_set_sha256 a, po_root_set_id = policy_root a, po_signer_set_id = policy_signers a,
     po_body_sha256 = hex_upper (sha256 (policy_body a)), po_raw = policy_image a\<rparr>"

lemma policy_constants: "POLICY_KNOWN_FLAGS = 3" "POLICY_FLAG_DEVELOPMENT_UNSIGNED = 1" "POLICY_BYTES = 320" "POLICY_BODY_BYTES = 224"
    "SIGNATURE_CAPACITY = 64" "ARTIFACT_ROLE_MASK = 127" "MAX_SIGNERS = 8" "BT_MAJOR_VERSION = 1" "BT_MINOR_VERSION = 0"
  by (simp_all add: code_defs)

lemma rd_policy_image:
  assumes "policy_ok a" "8 \<le> k" "k + n \<le> 64" "fld (policy_fields a) (k - 8) n = Some x"
  shows "rd n (policy_image a) k = x"
proof -
  have "rd n (policy_image a) k = rd n (packed (policy_fields a)) (k - 8)"
    using assms(2,3) by (simp add: policy_image_def policy_body_def rd_append2 rd_append1)
  also have "\<dots> = x" using assms(4) policy_fields_fit [OF assms(1)] by (rule rd_packed)
  finally show ?thesis .
qed

lemma parse_policy_image:
  assumes ok: "policy_ok a"
  shows "parse_policy (policy_image a) = Inr (policy_of a)"
proof -
  let ?d = "policy_image a"
  note dl = policy_ok_digests [OF ok] and pl = policy_parts_len [OF ok]
  have reads: "rd 2 ?d 8 = 1" "rd 2 ?d 10 = 0" "rd 2 ?d 12 = 320" "rd 2 ?d 14 = po_flags (policy_of a)" "rd 8 ?d 16 = pa_policy_version a"
    "rd 8 ?d 24 = pa_trust_epoch a" "rd 8 ?d 32 = pa_minimum_secure_version a" "rd 8 ?d 40 = pa_minimum_state_generation a"
    "rd 4 ?d 48 = 127" "rd 2 ?d 52 = po_signer_threshold (policy_of a)" "rd 2 ?d 54 = po_signer_count (policy_of a)"
    "rd 2 ?d 56 = po_auth_profile (policy_of a)" "rd 2 ?d 58 = po_signature_bytes (policy_of a)" "rd 4 ?d 60 = 0"
    by (simp_all add: rd_policy_image [OF ok] policy_fields_def policy_signing_def policy_of_def)
  have len: "length ?d = 320" "take 224 ?d = policy_body a" "bslice ?d 224 256 = sha256 (policy_body a)" "drop 256 ?d = policy_tail a"
    "bslice ?d 0 8 = POLICY_MAGIC"
    using length_policy_body [OF ok] pl by (simp_all add: policy_image_def bslice_append2 bslice_append1 slice_full) (simp add: policy_body_def bslice_def)
  have parts: "bslice ?d 64 96 = hexed (pa_manifest_sha256 a)" "bslice ?d 96 128 = hexed (pa_kernel_sha256 a)"
    "bslice ?d 128 160 = hexed (pa_retained_set_sha256 a)" "bslice ?d 160 192 = hexed (pa_revocation_set_sha256 a)"
    "bslice ?d 192 208 = policy_root a" "bslice ?d 208 224 = policy_signers a"
    using dl pl by (simp_all add: policy_image_def policy_body_def bslice_def)
  have hx: "hex_upper (hexed (pa_manifest_sha256 a)) = pa_manifest_sha256 a" "hex_upper (hexed (pa_kernel_sha256 a)) = pa_kernel_sha256 a"
    "hex_upper (hexed (pa_retained_set_sha256 a)) = pa_retained_set_sha256 a"
    "hex_upper (hexed (pa_revocation_set_sha256 a)) = pa_revocation_set_sha256 a"
    using ok by (simp_all add: policy_ok_def is_digest_def)
  have nz: "pa_policy_version a \<noteq> 0" "pa_trust_epoch a \<noteq> 0" "pa_minimum_secure_version a \<noteq> 0" "pa_minimum_state_generation a \<noteq> 0"
    "hexed (pa_manifest_sha256 a) \<noteq> zeros 32" "hexed (pa_kernel_sha256 a) \<noteq> zeros 32"
    "hexed (pa_retained_set_sha256 a) \<noteq> zeros 32" "hexed (pa_revocation_set_sha256 a) \<noteq> zeros 32"
    using ok by (auto simp: policy_ok_def)
  have flags: "po_flags (policy_of a) AND NOT 3 = 0" "bit_count (nat (po_flags (policy_of a))) = 1"
    by (simp_all add: policy_of_def bit_count.simps)
  have unsigned: "po_flags (policy_of a) = 1 \<Longrightarrow> po_signer_threshold (policy_of a) = 0 \<and> po_signer_count (policy_of a) = 0 \<and>
      po_auth_profile (policy_of a) = 0 \<and> po_signature_bytes (policy_of a) = 0 \<and> policy_root a = zeros 16 \<and>
      policy_signers a = zeros 16 \<and> policy_tail a = zeros 64"
    by (simp add: policy_of_def policy_root_def policy_signers_def policy_tail_def split: if_splits)
  have signed: "po_flags (policy_of a) \<noteq> 1 \<Longrightarrow> (1 \<le> po_signer_threshold (policy_of a) \<and>
      po_signer_threshold (policy_of a) \<le> po_signer_count (policy_of a) \<and> po_signer_count (policy_of a) \<le> 8) \<and>
      po_auth_profile (policy_of a) \<noteq> 0 \<and> 1 \<le> po_signature_bytes (policy_of a) \<and> po_signature_bytes (policy_of a) \<le> 64 \<and>
      policy_root a \<noteq> zeros 16 \<and> policy_signers a \<noteq> zeros 16 \<and>
      take (nat (po_signature_bytes (policy_of a))) (policy_tail a) \<noteq> zeros (nat (po_signature_bytes (policy_of a))) \<and>
      drop (nat (po_signature_bytes (policy_of a))) (policy_tail a) = zeros (64 - nat (po_signature_bytes (policy_of a)))"
    using ok by (auto simp: policy_ok_def signing_ok_def policy_of_def policy_root_def policy_signers_def policy_tail_def split: if_splits)
  show ?thesis
    unfolding parse_policy_def Let_def policy_constants
  proof (subst guarded_pass)
    show "Inr \<lparr>po_flags = rd 2 ?d 14, po_policy_version = rd 8 ?d 16, po_trust_epoch = rd 8 ?d 24,
        po_minimum_secure_version = rd 8 ?d 32, po_minimum_state_generation = rd 8 ?d 40, po_artifact_role_mask = rd 4 ?d 48,
        po_signer_threshold = rd 2 ?d 52, po_signer_count = rd 2 ?d 54, po_auth_profile = rd 2 ?d 56, po_signature_bytes = rd 2 ?d 58,
        po_manifest_sha256 = hex_upper (map (\<lambda>offset. bslice ?d offset (offset + 32)) [64, 96, 128, 160] ! 0),
        po_kernel_sha256 = hex_upper (map (\<lambda>offset. bslice ?d offset (offset + 32)) [64, 96, 128, 160] ! 1),
        po_retained_set_sha256 = hex_upper (map (\<lambda>offset. bslice ?d offset (offset + 32)) [64, 96, 128, 160] ! 2),
        po_revocation_set_sha256 = hex_upper (map (\<lambda>offset. bslice ?d offset (offset + 32)) [64, 96, 128, 160] ! 3),
        po_root_set_id = bslice ?d 192 208, po_signer_set_id = bslice ?d 208 224, po_body_sha256 = hex_upper (bslice ?d 224 256),
        po_raw = ?d\<rparr> = Inr (policy_of a)"
      unfolding reads parts len by (simp add: policy_of_def parts hx)
  qed (insert flags nz unsigned signed, simp add: reads parts len, blast)
qed

section \<open>Every accepted policy is an image\<close>

definition policy_args_of :: "bt_policy \<Rightarrow> policy_args" where
  "policy_args_of p = \<lparr>pa_manifest_sha256 = po_manifest_sha256 p, pa_kernel_sha256 = po_kernel_sha256 p,
     pa_retained_set_sha256 = po_retained_set_sha256 p, pa_revocation_set_sha256 = po_revocation_set_sha256 p,
     pa_policy_version = po_policy_version p, pa_trust_epoch = po_trust_epoch p,
     pa_minimum_secure_version = po_minimum_secure_version p, pa_minimum_state_generation = po_minimum_state_generation p,
     pa_signed = (po_flags p = POLICY_FLAG_SIGNED), pa_signer_threshold = po_signer_threshold p, pa_signer_count = po_signer_count p,
     pa_auth_profile = po_auth_profile p, pa_root_set_id = po_root_set_id p, pa_signer_set_id = po_signer_set_id p,
     pa_signature = take (nat (po_signature_bytes p)) (drop 256 (po_raw p))\<rparr>"

definition plain_args :: "policy_args \<Rightarrow> policy_args" where
  "plain_args a = (if pa_signed a then a else a\<lparr>pa_signer_threshold := 0, pa_signer_count := 0, pa_auth_profile := 0,
     pa_root_set_id := zeros 16, pa_signer_set_id := zeros 16, pa_signature := []\<rparr>)"

lemma parse_policy_guards:
  assumes "parse_policy d = Inr p"
  shows "length d = 320" "bslice d 0 8 = POLICY_MAGIC" "rd 2 d 8 = 1" "rd 2 d 10 = 0" "rd 2 d 12 = 320" "rd 4 d 48 = 127" "rd 4 d 60 = 0"
    "rd 2 d 14 AND NOT 3 = 0" "bit_count (nat (rd 2 d 14)) = 1"
    "rd 8 d 16 \<noteq> 0" "rd 8 d 24 \<noteq> 0" "rd 8 d 32 \<noteq> 0" "rd 8 d 40 \<noteq> 0" "sha256 (take 224 d) = bslice d 224 256"
    "list_all (\<lambda>h. h \<noteq> zeros 32) [bslice d 64 96, bslice d 96 128, bslice d 128 160, bslice d 160 192]"
    "rd 2 d 14 = 1 \<Longrightarrow> rd 2 d 52 = 0 \<and> rd 2 d 54 = 0 \<and> rd 2 d 56 = 0 \<and> rd 2 d 58 = 0 \<and> bslice d 192 208 = zeros 16 \<and>
       bslice d 208 224 = zeros 16 \<and> drop 256 d = zeros 64"
    "rd 2 d 14 \<noteq> 1 \<Longrightarrow> 1 \<le> rd 2 d 52 \<and> rd 2 d 52 \<le> rd 2 d 54 \<and> rd 2 d 54 \<le> 8 \<and> rd 2 d 56 \<noteq> 0 \<and> 1 \<le> rd 2 d 58 \<and>
       rd 2 d 58 \<le> 64 \<and> bslice d 192 208 \<noteq> zeros 16 \<and> bslice d 208 224 \<noteq> zeros 16 \<and>
       take (nat (rd 2 d 58)) (drop 256 d) \<noteq> zeros (nat (rd 2 d 58)) \<and>
       drop (nat (rd 2 d 58)) (drop 256 d) = zeros (64 - nat (rd 2 d 58))"
    "p = \<lparr>po_flags = rd 2 d 14, po_policy_version = rd 8 d 16, po_trust_epoch = rd 8 d 24,
        po_minimum_secure_version = rd 8 d 32, po_minimum_state_generation = rd 8 d 40, po_artifact_role_mask = rd 4 d 48,
        po_signer_threshold = rd 2 d 52, po_signer_count = rd 2 d 54, po_auth_profile = rd 2 d 56, po_signature_bytes = rd 2 d 58,
        po_manifest_sha256 = hex_upper (bslice d 64 96), po_kernel_sha256 = hex_upper (bslice d 96 128),
        po_retained_set_sha256 = hex_upper (bslice d 128 160), po_revocation_set_sha256 = hex_upper (bslice d 160 192),
        po_root_set_id = bslice d 192 208, po_signer_set_id = bslice d 208 224, po_body_sha256 = hex_upper (bslice d 224 256), po_raw = d\<rparr>"
  using assms [unfolded parse_policy_def Let_def guarded_Inr_iff policy_constants, THEN conjunct1]
    assms [unfolded parse_policy_def Let_def guarded_Inr_iff policy_constants, THEN conjunct2] by simp_all

lemma policy_flag_values:
  fixes f :: int
  assumes "0 \<le> f" "f AND NOT 3 = 0" "bit_count (nat f) = 1"
  shows "f = 1 \<or> f = 2"
proof -
  have "f < 4" using assms(1,2) and_not_3_0_iff by blast
  then have "f \<in> {0, 1, 2, 3}" using assms(1) by auto
  then show ?thesis using assms(3) by (auto simp: bit_count.simps)
qed

lemma parse_policy_spelling:
  assumes "parse_policy d = Inr p"
  shows "policy_ok (policy_args_of p)" "d = policy_image (policy_args_of p)" "plain_args (policy_args_of p) = policy_args_of p"
proof -
  note g = parse_policy_guards [OF assms]
  define sg where "sg = take (nat (rd 2 d 58)) (drop 256 d)"
  have fl: "rd 2 d 14 = 1 \<or> rd 2 d 14 = 2" using policy_flag_values [OF rd_nonneg g(8,9)] .
  have a: "policy_args_of p = \<lparr>pa_manifest_sha256 = hex_upper (bslice d 64 96), pa_kernel_sha256 = hex_upper (bslice d 96 128),
     pa_retained_set_sha256 = hex_upper (bslice d 128 160), pa_revocation_set_sha256 = hex_upper (bslice d 160 192),
     pa_policy_version = rd 8 d 16, pa_trust_epoch = rd 8 d 24, pa_minimum_secure_version = rd 8 d 32,
     pa_minimum_state_generation = rd 8 d 40, pa_signed = (rd 2 d 14 = 2), pa_signer_threshold = rd 2 d 52, pa_signer_count = rd 2 d 54,
     pa_auth_profile = rd 2 d 56, pa_root_set_id = bslice d 192 208, pa_signer_set_id = bslice d 208 224, pa_signature = sg\<rparr>"
    by (simp add: policy_args_of_def g(18) sg_def POLICY_FLAG_SIGNED_def)
  have up: "rd 8 d 16 < 2 ^ 64" "rd 8 d 24 < 2 ^ 64" "rd 8 d 32 < 2 ^ 64" "rd 8 d 40 < 2 ^ 64" "rd 2 d 56 < 2 ^ 16"
    using rd_upper [of 16 8 d] rd_upper [of 24 8 d] rd_upper [of 32 8 d] rd_upper [of 40 8 d] rd_upper [of 56 2 d] g(1) by simp_all
  have pos: "1 \<le> rd 8 d 16" "1 \<le> rd 8 d 24" "1 \<le> rd 8 d 32" "1 \<le> rd 8 d 40"
    using g(10-13) rd_nonneg [of 8 d 16] rd_nonneg [of 8 d 24] rd_nonneg [of 8 d 32] rd_nonneg [of 8 d 40] by linarith+
  have ap: "rd 2 d 56 \<noteq> 0 \<Longrightarrow> 1 \<le> rd 2 d 56" using rd_nonneg [of 2 d 56] by linarith
  have digs: "list_all (\<lambda>h. length h = 32) [bslice d 64 96, bslice d 96 128, bslice d 128 160, bslice d 160 192]"
    "length (bslice d 192 208) = 16" "length (bslice d 208 224) = 16"
    using g(1) by (simp_all add: length_slice)
  have lsg: "rd 2 d 14 = 2 \<Longrightarrow> int (length sg) = rd 2 d 58" using g(1,17) by (simp add: sg_def min_def) linarith
  have "rd 2 d 14 = 2 \<Longrightarrow> signing_ok (policy_args_of p)"
    using g(17) up(5) digs(2,3) lsg ap by (simp add: signing_ok_def a) (simp add: sg_def)
  then show "policy_ok (policy_args_of p)"
    using up pos g(15) digs(1) by (simp add: policy_ok_def a)
  have fields: "policy_fields (policy_args_of p) = read_fields d 8 [2, 2, 2, 2, 8, 8, 8, 8, 4, 2, 2, 2, 2, 4]"
    using fl g(3-7,16) lsg by (auto simp: policy_fields_def policy_signing_def a)
  have tail: "policy_tail (policy_args_of p) = drop 256 d"
  proof (cases "rd 2 d 14 = 2")
    case True
    then have "drop (nat (rd 2 d 58)) (drop 256 d) = zeros (64 - nat (rd 2 d 58))" using g(17) by simp
    moreover have "length sg = nat (rd 2 d 58)" using lsg [OF True] by simp
    ultimately have "policy_tail (policy_args_of p) = sg @ drop (nat (rd 2 d 58)) (drop 256 d)"
      using True by (simp add: policy_tail_def a)
    then show ?thesis unfolding sg_def append_take_drop_id .
  qed (use fl g(16) in \<open>simp add: policy_tail_def a\<close>)
  have ids: "policy_root (policy_args_of p) = bslice d 192 208" "policy_signers (policy_args_of p) = bslice d 208 224"
    using fl g(16) by (auto simp: policy_root_def policy_signers_def a)
  have "packed (policy_fields (policy_args_of p)) = bslice d 8 64" unfolding fields using g(1) by (subst packed_read_fields) simp_all
  then have "policy_body (policy_args_of p) = bslice d 0 8 @ bslice d 8 64 @ bslice d 64 96 @ bslice d 96 128 @ bslice d 128 160 @
      bslice d 160 192 @ bslice d 192 208 @ bslice d 208 224"
    using g(2) by (simp add: policy_body_def ids) (simp add: a)
  also have "\<dots> = bslice d 0 224"
    using bslice_add [of 192 208 224 d] bslice_add [of 160 192 224 d] bslice_add [of 128 160 224 d] bslice_add [of 96 128 224 d]
      bslice_add [of 64 96 224 d] bslice_add [of 8 64 224 d] bslice_add [of 0 8 224 d] by simp
  also have "\<dots> = take 224 d" by (simp add: bslice_def)
  finally have body: "policy_body (policy_args_of p) = take 224 d" .
  have "d = (bslice d 0 224 @ bslice d 224 256) @ drop 256 d" by (subst bslice_add) (simp_all add: bslice_def)
  then have "d = take 224 d @ bslice d 224 256 @ drop 256 d" by (simp add: bslice_def)
  then show "d = policy_image (policy_args_of p)" using g(14) by (simp add: policy_image_def body tail)
  show "plain_args (policy_args_of p) = policy_args_of p"
    using fl g(16) by (auto simp: plain_args_def a sg_def)
qed

lemma policy_args_of_image:
  assumes "policy_ok a"
  shows "policy_args_of (policy_of a) = plain_args a"
proof -
  have "drop 256 (policy_image a) = policy_tail a" using length_policy_body [OF assms] by (simp add: policy_image_def)
  then show ?thesis
    by (cases a) (simp add: policy_args_of_def policy_of_def plain_args_def policy_root_def policy_signers_def policy_tail_def POLICY_FLAG_SIGNED_def)
qed

abbreviation parse_policy_args :: "bytes \<Rightarrow> policy_args res" where
  "parse_policy_args d \<equiv> rbind (parse_policy d) (\<lambda>p. Inr (policy_args_of p))"

lemma encode_plain_args: "encode_policy (plain_args a) = encode_policy a"
  by (cases "pa_signed a") (simp_all add: plain_args_def encode_policy_def policy_signer_def)

interpretation policy_codec: codec encode_policy parse_policy_args policy_ok plain_args
proof unfold_locales
  fix a assume "policy_ok a"
  then show "\<exists>d y. encode_policy a = Inr d \<and> parse_policy_args d = Inr y \<and> plain_args y = plain_args a"
    by (simp add: encode_policy_image parse_policy_image policy_args_of_image) (simp add: plain_args_def)
next
  fix d a assume "parse_policy_args d = Inr a"
  then obtain p where "parse_policy d = Inr p" "a = policy_args_of p" by (auto simp: rbind_Inr_iff)
  with parse_policy_spelling [of d p] show "encode_policy a = Inr d" by (simp add: encode_policy_image)
next
  fix a b assume "plain_args a = plain_args b"
  then show "encode_policy a = encode_policy b" by (metis encode_plain_args)
qed

text \<open>
  C25. The boot policy round-trips: arguments in range, signed or not, are encoded and read back as given (an unsigned
  policy carries no signer data), and conversely an accepted policy is the encoding of the arguments read from it,
  signature included.
\<close>
theorem policy_roundtrip:
  "(policy_ok a \<longrightarrow> (\<exists>d p. encode_policy a = Inr d \<and> parse_policy d = Inr p \<and> policy_args_of p = plain_args a)) \<and>
   (parse_policy e = Inr q \<longrightarrow> policy_ok (policy_args_of q) \<and> encode_policy (policy_args_of q) = Inr e)"
proof (intro conjI impI)
  assume ok: "policy_ok a"
  then obtain d y where d: "encode_policy a = Inr d" "parse_policy_args d = Inr y" "plain_args y = plain_args a"
    by (rule policy_codec.roundtrip)
  then obtain p where "parse_policy d = Inr p" "y = policy_args_of p" by (auto simp: rbind_Inr_iff)
  with d parse_policy_spelling(3) [of d p] show "\<exists>d p. encode_policy a = Inr d \<and> parse_policy d = Inr p \<and> policy_args_of p = plain_args a"
    by auto
qed (use parse_policy_spelling(1) policy_codec.enc_dec [of e "policy_args_of q"] in auto)

definition signed_policy :: policy_args where
  "signed_policy = \<lparr>pa_manifest_sha256 = hex_upper (replicate 32 1), pa_kernel_sha256 = hex_upper (replicate 32 2),
     pa_retained_set_sha256 = hex_upper (replicate 32 3), pa_revocation_set_sha256 = hex_upper (replicate 32 4), pa_policy_version = 1,
     pa_trust_epoch = 1, pa_minimum_secure_version = 1, pa_minimum_state_generation = 1, pa_signed = True, pa_signer_threshold = 2,
     pa_signer_count = 3, pa_auth_profile = 1, pa_root_set_id = replicate 16 0x55, pa_signer_set_id = replicate 16 0x66,
     pa_signature = replicate 48 0x77\<rparr>"

lemma signed_policy_ok: "policy_ok signed_policy"
proof -
  have "replicate (Suc n) b \<noteq> zeros (Suc n)" if "b \<noteq> 0" for b :: byte and n using that by (simp add: zeros_def)
  from this [of _ 31] this [of _ 15] this [of _ 47] show ?thesis by (simp add: policy_ok_def signing_ok_def signed_policy_def)
qed

theorem policy_roundtrip_witness:
  "\<exists>d p. encode_policy signed_policy = Inr d \<and> parse_policy d = Inr p \<and> policy_args_of p = signed_policy \<and>
     policy_ok (policy_args_of p) \<and> encode_policy (policy_args_of p) = Inr d"
proof -
  obtain d p where d: "encode_policy signed_policy = Inr d" "parse_policy d = Inr p" "policy_args_of p = plain_args signed_policy"
    using policy_roundtrip [of signed_policy] signed_policy_ok by blast
  moreover have "plain_args signed_policy = signed_policy" by (simp add: plain_args_def signed_policy_def)
  moreover have "policy_ok (policy_args_of p)" "encode_policy (policy_args_of p) = Inr d" using policy_roundtrip [of _ d p] d(2) by blast+
  ultimately show ?thesis by simp
qed

section \<open>Development records\<close>

definition development_policy :: "bytes \<Rightarrow> bytes \<Rightarrow> string \<Rightarrow> int \<Rightarrow> policy_args" where
  "development_policy m k r v = \<lparr>pa_manifest_sha256 = hex_upper (sha256 m), pa_kernel_sha256 = hex_upper (sha256 k),
     pa_retained_set_sha256 = r, pa_revocation_set_sha256 = hex_upper (sha256 []), pa_policy_version = 1, pa_trust_epoch = 1,
     pa_minimum_secure_version = v, pa_minimum_state_generation = 1, pa_signed = False, pa_signer_threshold = 1, pa_signer_count = 1,
     pa_auth_profile = 1, pa_root_set_id = replicate 16 0x55, pa_signer_set_id = replicate 16 0x66, pa_signature = replicate 64 0x77\<rparr>"

definition development_state :: "bytes \<Rightarrow> bytes \<Rightarrow> bytes \<Rightarrow> string \<Rightarrow> int \<Rightarrow> int \<Rightarrow> bt_state" where
  "development_state policy m k r version v = \<lparr>bs_flags = 3, bs_copy_index = 0, bs_auth_profile = 0, bs_state_generation = 1,
     bs_store_epoch = 1, bs_minimum_secure_version = v, bs_accepted_manifest_version = version, bs_accepted_policy_version = 1,
     bs_policy_sha256 = hex_upper (sha256 policy), bs_manifest_sha256 = hex_upper (sha256 m), bs_kernel_sha256 = hex_upper (sha256 k),
     bs_retained_set_sha256 = r, bs_previous_state_sha256 = hex_upper (zeros 32), bs_body_sha256 = [], bs_raw = []\<rparr>"

definition development_boot :: "bytes \<Rightarrow> bytes \<Rightarrow> string \<Rightarrow> int \<Rightarrow> int \<Rightarrow> observed_boot" where
  "development_boot m k r version v = \<lparr>ob_manifest_sha256 = hex_upper (sha256 m), ob_kernel_sha256 = hex_upper (sha256 k),
     ob_retained_set_sha256 = r, ob_revocation_set_sha256 = hex_upper (sha256 []), ob_manifest_version = version,
     ob_minimum_secure_version = v, ob_artifact_role_mask = ARTIFACT_ROLE_MASK\<rparr>"

lemma unauthenticated_profile:
  "\<not> sa_authenticated_backend a \<Longrightarrow> bt_encode_state (a\<lparr>sa_auth_profile := x\<rparr>) = bt_encode_state a"
  by (simp add: bt_encode_state_def)

lemma development_records_unfold:
  "canonical_development_records m k r version v =
     rbind (encode_policy (development_policy m k r v)) (\<lambda>policy.
     rbind (bt_encode_state (args_of (development_state policy m k r version v))) (\<lambda>state.
     rbind (validate_development policy state (development_boot m k r version v)) (\<lambda>_.
     Inr (policy, state, development_boot m k r version v))))"
proof -
  have "bt_encode_state \<lparr>sa_policy_sha256 = hex_upper (sha256 policy), sa_manifest_sha256 = hex_upper (sha256 m),
      sa_kernel_sha256 = hex_upper (sha256 k), sa_retained_set_sha256 = r, sa_state_generation = 1, sa_store_epoch = 1,
      sa_minimum_secure_version = v, sa_accepted_manifest_version = version, sa_accepted_policy_version = 1,
      sa_authenticated_backend = False, sa_copy_index = 0, sa_auth_profile = 1, sa_previous_state_sha256 = None\<rparr> =
    bt_encode_state (args_of (development_state policy m k r version v))" for policy
    using unauthenticated_profile [of "args_of (development_state policy m k r version v)" 1]
    by (simp add: args_of_def development_state_def STATE_FLAG_AUTHENTICATED_BACKEND_def)
  then show ?thesis
    by (simp add: canonical_development_records_def Let_def development_policy_def development_boot_def)
qed

lemma development_policy_ok:
  "policy_ok (development_policy m k r v) \<longleftrightarrow> 1 \<le> v \<and> v < 2 ^ 64 \<and> is_digest r \<and> hexed r \<noteq> zeros 32 \<and>
     sha256 m \<noteq> zeros 32 \<and> sha256 k \<noteq> zeros 32 \<and> sha256 [] \<noteq> zeros 32"
  by (auto simp: policy_ok_def development_policy_def)

lemma development_state_ok:
  "bt_state_ok (development_state policy m k r version v) \<longleftrightarrow> 1 \<le> v \<and> v \<le> version \<and> version < 2 ^ 64 \<and> is_digest r \<and>
     hexed r \<noteq> zeros 32 \<and> sha256 policy \<noteq> zeros 32 \<and> sha256 m \<noteq> zeros 32 \<and> sha256 k \<noteq> zeros 32"
  by (auto simp: bt_state_ok_def development_state_def)

definition development_ok :: "bytes \<Rightarrow> bytes \<Rightarrow> string \<Rightarrow> int \<Rightarrow> int \<Rightarrow> bool" where
  "development_ok m k r version v \<longleftrightarrow> 1 \<le> v \<and> v \<le> version \<and> version < 2 ^ 64 \<and> is_digest r \<and> hexed r \<noteq> zeros 32 \<and>
     list_all (\<lambda>d. sha256 d \<noteq> zeros 32) [m, k, [], policy_image (development_policy m k r v)]"

lemma development_records_need:
  assumes "returns (canonical_development_records m k r version v)"
  shows "development_ok m k r version v"
proof -
  from assms obtain d e where d: "encode_policy (development_policy m k r v) = Inr d" and
    val: "returns (validate_development d e (development_boot m k r version v))"
    by (auto simp: returns_iff development_records_unfold rbind_Inr_iff)
  from val obtain p t where pt: "parse_policy d = Inr p" "bt_parse_state e = Inr t" and
    b: "list_all fst (binding_checks p t (development_boot m k r version v))"
    unfolding development_boot_iff [THEN conjunct1] by blast
  have p: "policy_ok (policy_args_of p)" using parse_policy_spelling(1) [OF pt(1)] .
  have t: "bt_state_ok t" using bt_parse_spelling(1) [OF pt(2)] .
  have raw: "po_raw p = d" using parse_policy_guards(18) [OF pt(1)] by simp
  have eqs: "po_manifest_sha256 p = hex_upper (sha256 m)" "po_kernel_sha256 p = hex_upper (sha256 k)" "po_retained_set_sha256 p = r"
    "po_revocation_set_sha256 p = hex_upper (sha256 [])" "bs_policy_sha256 t = hex_upper (sha256 d)"
    "bs_accepted_manifest_version t = version" "bs_minimum_secure_version t \<le> v" "v \<le> version"
    using b raw by (simp_all add: binding_checks_def development_boot_def)
  have dig: "is_digest r" "hexed r \<noteq> zeros 32" "sha256 m \<noteq> zeros 32" "sha256 k \<noteq> zeros 32" "sha256 [] \<noteq> zeros 32"
    using p by (simp_all add: policy_ok_def policy_args_of_def eqs)
  have ver: "1 \<le> v" "version < 2 ^ 64" "sha256 d \<noteq> zeros 32" using t eqs(5-8) by (auto simp: bt_state_ok_def)
  have "policy_ok (development_policy m k r v)" using dig ver eqs(8) by (simp add: development_policy_ok)
  then have "d = policy_image (development_policy m k r v)" using d by (simp add: encode_policy_image)
  with dig ver eqs(8) show ?thesis by (simp add: development_ok_def)
qed

text \<open>
  C26. Which boots get development records: \<open>canonical_development_records\<close> returns exactly when the version floor is
  positive and not above the 64-bit manifest version, the retained set is given by a digest, and none of the digests
  computed on the way is zero. What it returns are the images of the policy and of the state, and the development path
  accepts them for the observed boot.
\<close>
theorem development_records_iff:
  "(returns (canonical_development_records m k r version v) \<longleftrightarrow> development_ok m k r version v) \<and>
   (case canonical_development_records m k r version v of Inl e \<Rightarrow> True
    | Inr (policy, state, ob) \<Rightarrow> policy = policy_image (development_policy m k r v) \<and>
        state = bt_image (development_state policy m k r version v) \<and> ob = development_boot m k r version v \<and>
        returns (validate_development policy state ob))"
proof -
  define policy where "policy = policy_image (development_policy m k r v)"
  define s where "s = development_state policy m k r version v"
  show ?thesis
  proof (cases "development_ok m k r version v")
    case True
    then have ok: "policy_ok (development_policy m k r v)" "bt_state_ok s"
      by (simp_all add: development_ok_def development_policy_ok development_state_ok s_def policy_def)
    have "list_all fst (binding_checks (policy_of (development_policy m k r v))
        (s\<lparr>bs_body_sha256 := hex_upper (sha256 (bt_body s)), bs_raw := bt_image s\<rparr>) (development_boot m k r version v))"
      using True by (simp add: development_ok_def binding_checks_def policy_of_def development_boot_def development_policy_def s_def
          development_state_def ARTIFACT_ROLE_MASK_def policy_def)
    then have val: "returns (validate_development policy (bt_image s) (development_boot m k r version v))"
      using ok development_boot_iff [of policy "bt_image s" "development_boot m k r version v"]
      by (simp add: policy_def parse_policy_image bt_parse_image)
        (simp add: policy_of_def development_policy_def POLICY_FLAG_DEVELOPMENT_UNSIGNED_def)
    then have "canonical_development_records m k r version v = Inr (policy, bt_image s, development_boot m k r version v)"
      using ok by (auto simp: development_records_unfold encode_policy_image bt_encode_image returns_iff policy_def [symmetric] s_def [symmetric])
    with True val show ?thesis by (simp add: s_def policy_def returns_iff)
  next
    case False
    with development_records_need have "\<not> returns (canonical_development_records m k r version v)" by blast
    with False show ?thesis by (auto simp: returns_iff split: sum.split)
  qed
qed

end
