(* ===== verification/Boot_Trust_Sample.thy ===== *)
theory Boot_Trust_Sample
  imports Boot_Trust_Policy
begin

text \<open>
  A first committed state: its image in copy 0, nothing in copy 1, and the anchor that names its logical digest. The
  digest of the 233-byte logical message is computed block by block in the logic. The theorems about the backend and
  the state record hold at this state.
\<close>

unbundle bit_operations_syntax

section \<open>The logical digest\<close>

definition first_state :: bt_state where
  "first_state = \<lparr>bs_flags = 6, bs_copy_index = 0, bs_auth_profile = 1, bs_state_generation = 1, bs_store_epoch = 1,
     bs_minimum_secure_version = 1, bs_accepted_manifest_version = 1, bs_accepted_policy_version = 1,
     bs_policy_sha256 = hex_upper (replicate 32 1), bs_manifest_sha256 = hex_upper (replicate 32 2),
     bs_kernel_sha256 = hex_upper (replicate 32 3), bs_retained_set_sha256 = hex_upper (replicate 32 4),
     bs_previous_state_sha256 = hex_upper (zeros 32), bs_body_sha256 = [], bs_raw = []\<rparr>"

definition first_message :: bytes where
  "first_message = LOGICAL_DIGEST_DOMAIN @ packed [(2, 1), (2, 0)] @
     packed [(2, 6), (2, 1), (8, 1), (8, 1), (8, 1), (8, 1), (8, 1)] @
     concat [replicate 32 1, replicate 32 2, replicate 32 3, replicate 32 4, zeros 32]"

definition first_digest :: bytes where
  "first_digest = [0x81, 0xB4, 0xAD, 0x0A, 0x55, 0xE2, 0xDE, 0xCE, 0x93, 0x90, 0x0B, 0x08, 0x18, 0x4C, 0x98, 0x49,
     0x07, 0x45, 0x7B, 0x31, 0x10, 0x59, 0xE2, 0xA9, 0x8C, 0xE9, 0x3D, 0xAB, 0x42, 0xAD, 0xB4, 0x32]"

lemma hash_blocks_step:
  assumes "compress st b = st'" "length b = 16" "hash_blocks st' ws = r"
  shows "hash_blocks st (b @ ws) = r"
  using assms by (subst hash_blocks.simps) simp

lemma hash_blocks_Nil: "hash_blocks st [] = st"
  by (subst hash_blocks.simps) simp

lemma first_block_0:
  "compress initial_hash
    [0x504F4F4C, 0x454F532F, 0x50425453, 0x312F4C4F, 0x47494341, 0x4C2F5631, 0x10000, 0x60001, 0x10000, 0x0,
     0x10000, 0x0, 0x10000, 0x0, 0x10000, 0x0] =
    (0x4E170747, 0xCE5EB578, 0x7069A98, 0x5C86916E, 0x518287D, 0xE0C49FBC, 0x1B236344, 0x1BA281B1)"
  by code_simp

lemma first_block_1:
  "compress (0x4E170747, 0xCE5EB578, 0x7069A98, 0x5C86916E, 0x518287D, 0xE0C49FBC, 0x1B236344, 0x1BA281B1)
    [0x10000, 0x0, 0x10101, 0x1010101, 0x1010101, 0x1010101, 0x1010101, 0x1010101, 0x1010101, 0x1010101,
     0x1020202, 0x2020202, 0x2020202, 0x2020202, 0x2020202, 0x2020202] =
    (0x4AE3DD3F, 0xAAADD58B, 0x8ED92F6E, 0xC015EC87, 0x4ADB0ED2, 0xC47D87E6, 0x93BA9AE5, 0xC825624B)"
  by code_simp

lemma first_block_2:
  "compress (0x4AE3DD3F, 0xAAADD58B, 0x8ED92F6E, 0xC015EC87, 0x4ADB0ED2, 0xC47D87E6, 0x93BA9AE5, 0xC825624B)
    [0x2020202, 0x2020202, 0x2030303, 0x3030303, 0x3030303, 0x3030303, 0x3030303, 0x3030303, 0x3030303,
     0x3030303, 0x3040404, 0x4040404, 0x4040404, 0x4040404, 0x4040404, 0x4040404] =
    (0x63F9F6E5, 0xD8D612D6, 0x65748B72, 0xA800A2F, 0xA4A01F7B, 0x7C788B5E, 0xC200203C, 0xBDC76BE2)"
  by code_simp

lemma first_block_3:
  "compress (0x63F9F6E5, 0xD8D612D6, 0x65748B72, 0xA800A2F, 0xA4A01F7B, 0x7C788B5E, 0xC200203C, 0xBDC76BE2)
    [0x4040404, 0x4040404, 0x4000000, 0x0, 0x0, 0x0, 0x0, 0x0, 0x0, 0x0, 0x800000, 0x0, 0x0, 0x0, 0x0, 0x748] =
    (0x81B4AD0A, 0x55E2DECE, 0x93900B08, 0x184C9849, 0x7457B31, 0x1059E2A9, 0x8CE93DAB, 0x42ADB432)"
  by code_simp

lemma first_words:
  "be_words (pad_message first_message) =
       [0x504F4F4C, 0x454F532F, 0x50425453, 0x312F4C4F, 0x47494341, 0x4C2F5631, 0x10000, 0x60001, 0x10000,
        0x0, 0x10000, 0x0, 0x10000, 0x0, 0x10000, 0x0]
     @ [0x10000, 0x0, 0x10101, 0x1010101, 0x1010101, 0x1010101, 0x1010101, 0x1010101, 0x1010101, 0x1010101,
        0x1020202, 0x2020202, 0x2020202, 0x2020202, 0x2020202, 0x2020202]
     @ [0x2020202, 0x2020202, 0x2030303, 0x3030303, 0x3030303, 0x3030303, 0x3030303, 0x3030303, 0x3030303,
        0x3030303, 0x3040404, 0x4040404, 0x4040404, 0x4040404, 0x4040404, 0x4040404]
     @ [0x4040404, 0x4040404, 0x4000000, 0x0, 0x0, 0x0, 0x0, 0x0, 0x0, 0x0, 0x800000, 0x0, 0x0, 0x0, 0x0,
        0x748] @ []"
  by code_simp

lemma first_sha256: "sha256 first_message = first_digest"
proof -
  have h: "hash_blocks initial_hash (be_words (pad_message first_message)) =
    (0x81B4AD0A, 0x55E2DECE, 0x93900B08, 0x184C9849, 0x7457B31, 0x1059E2A9, 0x8CE93DAB, 0x42ADB432)"
    unfolding first_words
    by (rule hash_blocks_step [OF first_block_0], simp, rule hash_blocks_step [OF first_block_1], simp,
        rule hash_blocks_step [OF first_block_2], simp, rule hash_blocks_step [OF first_block_3], simp, rule hash_blocks_Nil)
  show ?thesis unfolding sha256_def h by code_simp
qed

lemma first_digest_facts: "length first_digest = 32" "first_digest \<noteq> zeros 32"
  by code_simp+

lemma first_logical:
  "logical_state_sha256 (first_state\<lparr>bs_body_sha256 := h, bs_raw := d\<rparr>) = Inr (hex_upper first_digest)"
proof -
  have p: "struct_pack [(2, 1), (2, 0)] = Inr (packed [(2, 1), (2, 0)])"
    "struct_pack [(2, 6), (2, 1), (8, 1), (8, 1), (8, 1), (8, 1), (8, 1)] =
      Inr (packed [(2, 6), (2, 1), (8, 1), (8, 1), (8, 1), (8, 1), (8, 1)])"
    by (simp_all add: struct_pack_def fits_def)
  have k: "BT_MAJOR_VERSION = 1" "BT_MINOR_VERSION = 0" "STATE_FLAG_COMMITTED OR STATE_FLAG_AUTHENTICATED_BACKEND = 6"
    by (simp_all add: code_defs)
  show ?thesis
    unfolding logical_state_sha256_def k
    by (simp add: first_state_def p) (simp add: first_message_def [simplified, symmetric] first_sha256)
qed

section \<open>The backend at the first state\<close>

lemma first_state_ok: "bt_state_ok first_state"
proof -
  have "replicate 32 b \<noteq> zeros 32" if "b \<noteq> 0" for b :: byte using that by (simp add: zeros_def)
  then show ?thesis by (simp add: bt_state_ok_def first_state_def)
qed

definition first_copies :: "backend_copy \<times> backend_copy" where
  "first_copies = (\<lparr>bc_data = Some (bt_image first_state), bc_authentication_verified = True\<rparr>,
     \<lparr>bc_data = None, bc_authentication_verified = False\<rparr>)"

definition first_anchor :: monotonic_anchor where
  "first_anchor = \<lparr>an_authenticated = True, an_monotonic = True, an_state_generation = 1, an_store_epoch = 1, an_auth_profile = 1,
     an_logical_state_sha256 = hex_upper first_digest, an_previous_state_sha256 = hex_upper (zeros 32)\<rparr>"

definition first_requirements :: backend_requirements where
  "first_requirements = \<lparr>br_minimum_state_generation = 1, br_minimum_store_epoch = 1, br_target_store_epoch = 2, br_target_auth_profile = 1\<rparr>"

definition first_access :: backend_access where
  "first_access = \<lparr>ba_writable = True, ba_repair_capacity = True\<rparr>"

lemma first_anchored: "anchored_copy first_anchor 0 (fst first_copies) =
    Some (first_state\<lparr>bs_body_sha256 := hex_upper (sha256 (bt_body first_state)), bs_raw := bt_image first_state\<rparr>)"
  unfolding anchored_copy_Some
  by (simp add: first_copies_def bt_parse_image first_state_ok first_logical)
    (simp add: first_state_def first_anchor_def STATE_FLAG_AUTHENTICATED_BACKEND_def)

lemma first_selection:
  obtains sel where "select_backend_state first_copies first_anchor first_requirements first_access = Inr sel"
    "se_selected_copy sel = 0" "selects first_anchor first_requirements first_copies sel"
proof -
  have a: "is_anchored first_anchor 0 (fst first_copies)" by (simp add: is_anchored_def first_anchored)
  have "validate_anchor first_anchor first_requirements = Inr ()"
    by (simp add: validate_anchor_def guarded.simps first_anchor_def first_requirements_def anchor_digest_hex_upper first_digest_facts)
  moreover have "anchored_mask first_anchor first_copies \<noteq> 0" using a by (simp add: anchored_mask_def)
  moreover have "ba_writable first_access" "ba_repair_capacity first_access" by (simp_all add: first_access_def)
  ultimately have "\<exists>sel. select_backend_state first_copies first_anchor first_requirements first_access = Inr sel \<and>
      selects first_anchor first_requirements first_copies sel" by (rule select_returns)
  then show ?thesis using a that by (auto simp: selects_def)
qed

theorem selection_is_anchored_witness:
  "\<exists>sel s. select_backend_state first_copies first_anchor first_requirements first_access = Inr sel \<and>
     bt_parse_state (bt_image first_state) = Inr s \<and> se_selected_copy sel = 0 \<and> bs_copy_index s = 0 \<and>
     logical_state_sha256 s = Inr (hex_upper first_digest) \<and> se_state_generation sel = 1"
proof -
  obtain sel where sel: "select_backend_state first_copies first_anchor first_requirements first_access = Inr sel" "se_selected_copy sel = 0"
    by (rule first_selection)
  have i: "0 = nat (se_selected_copy sel)" "fst first_copies = [fst first_copies, snd first_copies] ! 0" using sel(2) by simp_all
  from selection_is_anchored [OF sel(1) i] sel show ?thesis by (auto simp: first_copies_def first_anchor_def)
qed

theorem transition_plan_total_witness:
  "\<exists>sel p. select_backend_state first_copies first_anchor first_requirements first_access = Inr sel \<and>
     plan_backend_transition sel = Inr p \<and> tp_source_copy p = 0 \<and> tp_target_copy p = 1 \<and> tp_next_generation p = 2 \<and>
     tp_previous_state_sha256 p = hex_upper first_digest"
proof -
  obtain sel where sel: "select_backend_state first_copies first_anchor first_requirements first_access = Inr sel" "se_selected_copy sel = 0"
    by (rule first_selection)
  from transition_plan_total [OF sel(1)] sel show ?thesis by (auto simp: first_anchor_def)
qed

theorem torn_write_recovers_witness:
  "\<exists>sel p sel'. select_backend_state first_copies first_anchor first_requirements first_access = Inr sel \<and>
     plan_backend_transition sel = Inr p \<and>
     select_backend_state (fst first_copies, \<lparr>bc_data = Some [1, 2, 3], bc_authentication_verified = True\<rparr>)
       first_anchor first_requirements first_access = Inr sel' \<and>
     se_logical_state_sha256 sel' = se_logical_state_sha256 sel"
proof -
  let ?c = "\<lparr>bc_data = Some [1, 2, 3], bc_authentication_verified = True\<rparr>"
  obtain sel where sel: "select_backend_state first_copies first_anchor first_requirements first_access = Inr sel" "se_selected_copy sel = 0"
    "selects first_anchor first_requirements first_copies sel"
    by (rule first_selection)
  have m: "anchored_mask first_anchor first_copies = 1"
    by (simp add: anchored_mask_def is_anchored_def first_anchored) (simp add: anchored_copy_def first_copies_def)
  have f: "se_anchored_copy_mask sel = 1" "se_repair_copy_mask sel = 2" "se_state_generation sel = 1" "se_store_epoch sel = 1"
    "se_auth_profile sel = 1" "se_logical_state_sha256 sel = hex_upper first_digest" "se_previous_state_sha256 sel = hex_upper (zeros 32)"
    "se_target_store_epoch sel = 2" "se_target_auth_profile sel = 1" "se_migration_required sel" "se_authority_grants sel = 0"
    "se_state_writes sel = 0"
    using sel(3) m by (simp_all add: selects_def) (simp_all add: first_anchor_def first_requirements_def)
  have z: "anchor_digest (replicate 64 (CHR ''0'')) True = Some (zeros 32)"
    using anchor_digest_hex_upper [of "zeros 32" True] by (simp add: hex_upper_zeros)
  obtain p where p: "plan_backend_transition sel = Inr p" "tp_target_copy p = 1"
    using first_digest_facts
    by (simp add: plan_backend_transition_def Let_def guarded.simps REDUNDANT_COPY_MASK_def f sel(2) anchor_digest_hex_upper
        hex_upper_zeros z)
  have c: "(fst first_copies, ?c) = (if tp_target_copy p = 0 then (?c, snd first_copies) else (fst first_copies, ?c))"
    using p(2) by simp
  have r: "ba_repair_capacity first_access" by (simp add: first_access_def)
  from torn_write_recovers [OF sel(1) p(1) r c] sel(1) p(1) show ?thesis by blast
qed

theorem trust_state_roundtrip_witness:
  "\<exists>d s. bt_encode_state (args_of first_state) = Inr d \<and> bt_parse_state d = Inr s \<and> bt_state_ok s \<and> bs_flags s = 6 \<and>
     bt_encode_state (args_of s) = Inr d"
proof -
  obtain d s where d: "bt_encode_state (args_of first_state) = Inr d" "bt_parse_state d = Inr s"
    "s\<lparr>bs_body_sha256 := [], bs_raw := []\<rparr> = first_state\<lparr>bs_body_sha256 := [], bs_raw := []\<rparr>"
    using trust_state_roundtrip [of first_state] first_state_ok by blast
  moreover have "bs_flags s = 6"
    using arg_cong [OF d(3), of bs_flags] by (simp add: first_state_def)
  moreover have "bt_state_ok s" "bt_encode_state (args_of s) = Inr d" using trust_state_roundtrip [of s d] d(2) by blast+
  ultimately show ?thesis by blast
qed

end
