(* ===== verification/Boot_Handoff.thy ===== *)
theory Boot_Handoff
  imports Prelude Sha256
begin

unbundle bit_operations_syntax

text \<open>
  PBP1, the handoff message from the boot loader to the kernel (\<open>src/runtime/native_boot_handoff.py\<close>): a checksummed
  header, a table of descriptors and the payloads of the records, with the validators of every record type, the decoder,
  the checks across records, the kernel-entry profile and the encoder. \<open>binascii.crc32\<close> and the strict UTF-8 decoder of
  the Python standard library are defined here.
\<close>

section \<open>Constants\<close>

definition HB_MAGIC :: bytes where "HB_MAGIC = [0x50, 0x42, 0x50, 0x31, 0x0D, 0x0A, 0x1A, 0x0A]"
definition HB_MAJOR :: int where [code_defs]: "HB_MAJOR = 1"
definition HB_MINOR :: int where [code_defs]: "HB_MINOR = 0"
definition HB_HEADER_BYTES :: nat where [code_defs]: "HB_HEADER_BYTES = 64"
definition DESCRIPTOR_BYTES :: nat where [code_defs]: "DESCRIPTOR_BYTES = 32"
definition ALIGNMENT :: int where [code_defs]: "ALIGNMENT = 8"
definition MAX_TOTAL_BYTES :: nat where [code_defs]: "MAX_TOTAL_BYTES = 0x100000"
definition MAX_RECORDS :: nat where [code_defs]: "MAX_RECORDS = 32"
definition HB_PAGE_BYTES :: int where [code_defs]: "HB_PAGE_BYTES = 4096"
definition RECORD_CORE :: int where [code_defs]: "RECORD_CORE = 1"
definition RECORD_MEMORY_MAP :: int where [code_defs]: "RECORD_MEMORY_MAP = 2"
definition RECORD_FRAMEBUFFER :: int where [code_defs]: "RECORD_FRAMEBUFFER = 3"
definition RECORD_FIRMWARE_TABLES :: int where [code_defs]: "RECORD_FIRMWARE_TABLES = 4"
definition RECORD_LOADED_ARTIFACTS :: int where [code_defs]: "RECORD_LOADED_ARTIFACTS = 5"
definition RECORD_COMMAND_LINE :: int where [code_defs]: "RECORD_COMMAND_LINE = 6"
definition RECORD_BOOT_DEVICE :: int where [code_defs]: "RECORD_BOOT_DEVICE = 7"
definition RECORD_RANDOM_SEED :: int where [code_defs]: "RECORD_RANDOM_SEED = 8"
definition RECORD_EARLY_LOG :: int where [code_defs]: "RECORD_EARLY_LOG = 9"
definition RECORD_CPU_BOOTSTRAP :: int where [code_defs]: "RECORD_CPU_BOOTSTRAP = 10"
definition RECORD_BOOT_TIMESTAMPS :: int where [code_defs]: "RECORD_BOOT_TIMESTAMPS = 11"
definition RECORD_TCG_EVENT_LOG :: int where [code_defs]: "RECORD_TCG_EVENT_LOG = 12"
definition FIRST_EXTENSION_RECORD :: int where [code_defs]: "FIRST_EXTENSION_RECORD = 0x8000"
definition FEATURE_CORE :: int where [code_defs]: "FEATURE_CORE = 1"
definition FEATURE_MEMORY_MAP :: int where [code_defs]: "FEATURE_MEMORY_MAP = 2"
definition FEATURE_FRAMEBUFFER :: int where [code_defs]: "FEATURE_FRAMEBUFFER = 4"
definition FEATURE_FIRMWARE_TABLES :: int where [code_defs]: "FEATURE_FIRMWARE_TABLES = 8"
definition FEATURE_LOADED_ARTIFACTS :: int where [code_defs]: "FEATURE_LOADED_ARTIFACTS = 16"
definition FEATURE_COMMAND_LINE :: int where [code_defs]: "FEATURE_COMMAND_LINE = 32"
definition FEATURE_BOOT_DEVICE :: int where [code_defs]: "FEATURE_BOOT_DEVICE = 64"
definition FEATURE_RANDOM_SEED :: int where [code_defs]: "FEATURE_RANDOM_SEED = 128"
definition FEATURE_EARLY_LOG :: int where [code_defs]: "FEATURE_EARLY_LOG = 256"
definition FEATURE_CPU_BOOTSTRAP :: int where [code_defs]: "FEATURE_CPU_BOOTSTRAP = 512"
definition FEATURE_BOOT_TIMESTAMPS :: int where [code_defs]: "FEATURE_BOOT_TIMESTAMPS = 1024"
definition FEATURE_TCG_EVENT_LOG :: int where [code_defs]: "FEATURE_TCG_EVENT_LOG = 2048"
definition KNOWN_FEATURES :: int where [code_defs]: "KNOWN_FEATURES = 4095"
definition RECORD_REQUIRED :: int where [code_defs]: "RECORD_REQUIRED = 1"
definition RECORD_ARRAY :: int where [code_defs]: "RECORD_ARRAY = 2"
definition RECORD_REDACT :: int where [code_defs]: "RECORD_REDACT = 4"
definition KNOWN_RECORD_FLAGS :: int where [code_defs]: "KNOWN_RECORD_FLAGS = 7"
definition BOOT_SERVICES_EXITED :: int where [code_defs]: "BOOT_SERVICES_EXITED = 1"
definition SECURE_BOOT_ENABLED :: int where [code_defs]: "SECURE_BOOT_ENABLED = 2"
definition SECURE_BOOT_VERIFIED :: int where [code_defs]: "SECURE_BOOT_VERIFIED = 4"
definition MEASURED_BOOT_ACTIVE :: int where [code_defs]: "MEASURED_BOOT_ACTIVE = 8"
definition DEVELOPMENT_MODE :: int where [code_defs]: "DEVELOPMENT_MODE = 16"
definition RECOVERY_MODE :: int where [code_defs]: "RECOVERY_MODE = 32"
definition SAFE_MODE :: int where [code_defs]: "SAFE_MODE = 64"
definition RUNTIME_SERVICES_RETAINED :: int where [code_defs]: "RUNTIME_SERVICES_RETAINED = 128"
definition KNOWN_BOOT_FLAGS :: int where [code_defs]: "KNOWN_BOOT_FLAGS = 255"
definition ARTIFACT_KERNEL :: int where [code_defs]: "ARTIFACT_KERNEL = 1"
definition ARTIFACT_INITIAL_SYSTEM :: int where [code_defs]: "ARTIFACT_INITIAL_SYSTEM = 2"
definition ARTIFACT_RECOVERY :: int where [code_defs]: "ARTIFACT_RECOVERY = 3"
definition ARTIFACT_SYMBOLS :: int where [code_defs]: "ARTIFACT_SYMBOLS = 4"
definition ARTIFACT_MICROCODE :: int where [code_defs]: "ARTIFACT_MICROCODE = 5"
definition ARTIFACT_FIRMWARE_MANIFEST :: int where [code_defs]: "ARTIFACT_FIRMWARE_MANIFEST = 6"
definition ARTIFACT_POLICY_BUNDLE :: int where [code_defs]: "ARTIFACT_POLICY_BUNDLE = 7"
definition ARTIFACT_CRASH_KERNEL :: int where [code_defs]: "ARTIFACT_CRASH_KERNEL = 8"
definition ARTIFACT_SYSTEM_MANIFEST :: int where [code_defs]: "ARTIFACT_SYSTEM_MANIFEST = 9"
definition ARTIFACT_TRUST_POLICY :: int where [code_defs]: "ARTIFACT_TRUST_POLICY = 10"
definition ARTIFACT_TRUST_STATE :: int where [code_defs]: "ARTIFACT_TRUST_STATE = 11"
definition ARTIFACT_HASH_VERIFIED :: int where [code_defs]: "ARTIFACT_HASH_VERIFIED = 1"
definition ARTIFACT_SIGNATURE_VERIFIED :: int where [code_defs]: "ARTIFACT_SIGNATURE_VERIFIED = 2"
definition ARTIFACT_MEASURED :: int where [code_defs]: "ARTIFACT_MEASURED = 4"
definition ARTIFACT_EXECUTABLE :: int where [code_defs]: "ARTIFACT_EXECUTABLE = 8"
definition ARTIFACT_WRITABLE :: int where [code_defs]: "ARTIFACT_WRITABLE = 16"
definition KNOWN_ARTIFACT_FLAGS :: int where [code_defs]: "KNOWN_ARTIFACT_FLAGS = 31"
definition MEMORY_RESERVED :: int where [code_defs]: "MEMORY_RESERVED = 0"
definition MEMORY_USABLE :: int where [code_defs]: "MEMORY_USABLE = 1"
definition MEMORY_BOOT_RECLAIMABLE :: int where [code_defs]: "MEMORY_BOOT_RECLAIMABLE = 2"
definition MEMORY_RUNTIME_CODE :: int where [code_defs]: "MEMORY_RUNTIME_CODE = 3"
definition MEMORY_RUNTIME_DATA :: int where [code_defs]: "MEMORY_RUNTIME_DATA = 4"
definition MEMORY_ACPI_RECLAIMABLE :: int where [code_defs]: "MEMORY_ACPI_RECLAIMABLE = 5"
definition MEMORY_ACPI_NVS :: int where [code_defs]: "MEMORY_ACPI_NVS = 6"
definition MEMORY_MMIO :: int where [code_defs]: "MEMORY_MMIO = 7"
definition MEMORY_PERSISTENT :: int where [code_defs]: "MEMORY_PERSISTENT = 8"
definition MEMORY_UNUSABLE :: int where [code_defs]: "MEMORY_UNUSABLE = 9"
definition MEMORY_LOADER_RESERVED :: int where [code_defs]: "MEMORY_LOADER_RESERVED = 10"
definition MEMORY_FRAMEBUFFER :: int where [code_defs]: "MEMORY_FRAMEBUFFER = 11"
definition CORE_BYTES :: nat where [code_defs]: "CORE_BYTES = 128"
definition MEMORY_ENTRY_BYTES :: nat where [code_defs]: "MEMORY_ENTRY_BYTES = 40"
definition FRAMEBUFFER_BYTES :: nat where [code_defs]: "FRAMEBUFFER_BYTES = 48"
definition FIRMWARE_TABLE_ENTRY_BYTES :: nat where [code_defs]: "FIRMWARE_TABLE_ENTRY_BYTES = 40"
definition ARTIFACT_ENTRY_BYTES :: nat where [code_defs]: "ARTIFACT_ENTRY_BYTES = 80"
definition BOOT_DEVICE_BYTES :: nat where [code_defs]: "BOOT_DEVICE_BYTES = 96"
definition RANDOM_SEED_BYTES :: nat where [code_defs]: "RANDOM_SEED_BYTES = 72"
definition EARLY_LOG_HEADER_BYTES :: nat where [code_defs]: "EARLY_LOG_HEADER_BYTES = 16"
definition CPU_BOOTSTRAP_BYTES :: nat where [code_defs]: "CPU_BOOTSTRAP_BYTES = 64"
definition BOOT_TIMESTAMPS_BYTES :: nat where [code_defs]: "BOOT_TIMESTAMPS_BYTES = 48"
definition TCG_EVENT_LOG_BYTES :: nat where [code_defs]: "TCG_EVENT_LOG_BYTES = 56"
definition BASE_REQUIRED_FEATURES :: int where [code_defs]:
  "BASE_REQUIRED_FEATURES = FEATURE_CORE OR FEATURE_MEMORY_MAP"
definition KERNEL_ENTRY_REQUIRED_FEATURES :: int where [code_defs]:
  "KERNEL_ENTRY_REQUIRED_FEATURES = FEATURE_CORE OR FEATURE_MEMORY_MAP OR FEATURE_FIRMWARE_TABLES OR FEATURE_LOADED_ARTIFACTS OR
     FEATURE_BOOT_DEVICE OR FEATURE_RANDOM_SEED OR FEATURE_CPU_BOOTSTRAP"

section \<open>Checksums and text\<close>

text \<open>The reflected CRC-32 of \<open>binascii.crc32\<close>, bit by bit.\<close>

definition crc_bit :: "32 word \<Rightarrow> 32 word" where
  "crc_bit c = (if c AND 1 = 1 then drop_bit 1 c XOR 0xEDB88320 else drop_bit 1 c)"

definition crc_byte :: "32 word \<Rightarrow> byte \<Rightarrow> 32 word" where
  "crc_byte c b = (crc_bit ^^ 8) (c XOR ucast b)"

definition crc32 :: "bytes \<Rightarrow> int" where
  "crc32 bs = uint (foldl crc_byte 0xFFFFFFFF bs XOR 0xFFFFFFFF)"

definition message_crc :: "bytes \<Rightarrow> int" where
  "message_crc data = crc32 (if 52 \<le> length data then slice_assign data 48 52 (zeros 4) else data)"

text \<open>
  \<open>bytes.decode("utf-8", errors="strict")\<close>: the code points, or \<open>None\<close> on overlong forms, surrogates, code points
  above U+10FFFF and truncated sequences.
\<close>

definition continuation :: "int \<Rightarrow> int \<Rightarrow> byte \<Rightarrow> bool" where
  "continuation low high b \<longleftrightarrow> low \<le> uint b \<and> uint b \<le> high"

definition second_range :: "int \<Rightarrow> int \<times> int" where
  "second_range lead = (if lead = 0xE0 then (0xA0, 0xBF) else if lead = 0xED then (0x80, 0x9F)
     else if lead = 0xF0 then (0x90, 0xBF) else if lead = 0xF4 then (0x80, 0x8F) else (0x80, 0xBF))"

fun utf8_decode :: "bytes \<Rightarrow> int list option" where
  "utf8_decode [] = Some []"
| "utf8_decode (a # rest) =
     (let lead = uint a; range = second_range lead in
      if lead < 0x80 then map_option (\<lambda>cs. lead # cs) (utf8_decode rest)
      else if 0xC2 \<le> lead \<and> lead \<le> 0xDF then
        (case rest of b # rest \<Rightarrow>
           if continuation 0x80 0xBF b then map_option (\<lambda>cs. ((lead - 0xC0) * 64 + (uint b - 0x80)) # cs) (utf8_decode rest) else None
         | _ \<Rightarrow> None)
      else if 0xE0 \<le> lead \<and> lead \<le> 0xEF then
        (case rest of b # c # rest \<Rightarrow>
           if continuation (fst range) (snd range) b \<and> continuation 0x80 0xBF c
           then map_option (\<lambda>cs. ((lead - 0xE0) * 4096 + (uint b - 0x80) * 64 + (uint c - 0x80)) # cs) (utf8_decode rest) else None
         | _ \<Rightarrow> None)
      else if 0xF0 \<le> lead \<and> lead \<le> 0xF4 then
        (case rest of b # c # d # rest \<Rightarrow>
           if continuation (fst range) (snd range) b \<and> continuation 0x80 0xBF c \<and> continuation 0x80 0xBF d
           then map_option (\<lambda>cs. ((lead - 0xF0) * 262144 + (uint b - 0x80) * 4096 + (uint c - 0x80) * 64 + (uint d - 0x80)) # cs)
             (utf8_decode rest) else None
         | _ \<Rightarrow> None)
      else None)"

text \<open>The order of \<open>bytes\<close> objects.\<close>

fun bytes_less :: "bytes \<Rightarrow> bytes \<Rightarrow> bool" where
  "bytes_less [] ys \<longleftrightarrow> ys \<noteq> []"
| "bytes_less (x # xs) [] \<longleftrightarrow> False"
| "bytes_less (x # xs) (y # ys) \<longleftrightarrow> x < y \<or> x = y \<and> bytes_less xs ys"

section \<open>Records\<close>

record hb_record =
  hr_type :: int
  hr_revision :: int
  hr_flags :: int
  hr_offset :: int
  hr_length :: int
  hr_element_size :: int
  hr_element_count :: int
  hr_content_crc32 :: int
  hr_payload :: bytes

record handoff =
  hf_data :: bytes
  hf_writer_major :: int
  hf_writer_minor :: int
  hf_minimum_reader_minor :: int
  hf_total_size :: int
  hf_features :: int
  hf_required_features :: int
  hf_records :: "hb_record list"

definition handoff_record :: "handoff \<Rightarrow> int \<Rightarrow> hb_record option" where
  "handoff_record h t = find (\<lambda>r. hr_type r = t) (hf_records h)"

definition hb_align :: "int \<Rightarrow> int" where
  "hb_align v = (v + ALIGNMENT - 1) AND NOT (ALIGNMENT - 1)"

definition hb_u32 :: "bytes \<Rightarrow> nat \<Rightarrow> int res" where
  "hb_u32 data offset = (if length data < offset + 4 then Inl (Fail ''buffer too small'') else Inr (rd 4 data offset))"

text \<open>\<open>struct.unpack_from\<close> of a format with fields of the given sizes.\<close>

definition unpack_from :: "nat list \<Rightarrow> bytes \<Rightarrow> nat \<Rightarrow> int list res" where
  "unpack_from ns data offset =
     (if length data < offset + sum_list ns then Inl StructError else Inr (map snd (read_fields data offset ns)))"

definition feature_for :: "int \<Rightarrow> int" where
  "feature_for t = (if RECORD_CORE \<le> t \<and> t \<le> RECORD_TCG_EVENT_LOG then 2 ^ nat (t - 1) else 0)"

definition structural_flags :: "int \<Rightarrow> int" where
  "structural_flags t =
     (if t \<in> {RECORD_MEMORY_MAP, RECORD_FIRMWARE_TABLES, RECORD_LOADED_ARTIFACTS} then RECORD_ARRAY
      else if t = RECORD_RANDOM_SEED then RECORD_REDACT else 0)"

definition range_end :: "int \<Rightarrow> int \<Rightarrow> int res" where
  "range_end start byte_count =
     guarded [(\<not> (0 < byte_count \<and> byte_count \<le> 0xFFFFFFFFFFFFFFFF) \<or> \<not> (0 \<le> start \<and> start \<le> 0xFFFFFFFFFFFFFFFF), ''invalid address range''),
       (start + byte_count > 0xFFFFFFFFFFFFFFFF, ''address range overflow'')]
     (Inr (start + byte_count))"

section \<open>Validators\<close>

record hb_core =
  co_boot_flags :: int
  co_kernel_physical_base :: int
  co_kernel_physical_size :: int
  co_kernel_virtual_base :: int
  co_kernel_virtual_size :: int
  co_kernel_entry_virtual :: int
  co_initial_stack_top_virtual :: int
  co_page_table_root_physical :: int
  co_handoff_physical_base :: int
  co_handoff_virtual_base :: int
  co_handoff_byte_count :: int
  co_uefi_system_table_physical :: int
  co_uefi_runtime_services_physical :: int
  co_boot_attempt :: int
  co_boot_attempt_limit :: int
  co_boot_slot :: int
  co_selected_entry :: int
  co_uefi_revision :: int

definition core_at :: "bytes \<Rightarrow> hb_core" where
  "core_at payload = \<lparr>co_boot_flags = rd 8 payload 0, co_kernel_physical_base = rd 8 payload 8, co_kernel_physical_size = rd 8 payload 16,
     co_kernel_virtual_base = rd 8 payload 24, co_kernel_virtual_size = rd 8 payload 32, co_kernel_entry_virtual = rd 8 payload 40,
     co_initial_stack_top_virtual = rd 8 payload 48, co_page_table_root_physical = rd 8 payload 56,
     co_handoff_physical_base = rd 8 payload 64, co_handoff_virtual_base = rd 8 payload 72, co_handoff_byte_count = rd 8 payload 80,
     co_uefi_system_table_physical = rd 8 payload 88, co_uefi_runtime_services_physical = rd 8 payload 96,
     co_boot_attempt = rd 4 payload 104, co_boot_attempt_limit = rd 4 payload 108, co_boot_slot = rd 4 payload 112,
     co_selected_entry = rd 4 payload 116, co_uefi_revision = rd 4 payload 120\<rparr>"

definition transfer_state_valid :: "hb_core \<Rightarrow> bool" where
  "transfer_state_valid c =
     (if co_boot_flags c AND BOOT_SERVICES_EXITED \<noteq> 0
      then co_page_table_root_physical c \<noteq> 0 \<and> co_page_table_root_physical c mod HB_PAGE_BYTES = 0 \<and>
        co_initial_stack_top_virtual c \<noteq> 0 \<and> co_initial_stack_top_virtual c mod 16 = 0
      else co_page_table_root_physical c = 0 \<and> co_initial_stack_top_virtual c = 0)"

definition core_value_bad :: "hb_core \<Rightarrow> bool" where
  "core_value_bad c \<longleftrightarrow>
     co_boot_flags c AND NOT KNOWN_BOOT_FLAGS \<noteq> 0 \<or> co_kernel_physical_base c mod HB_PAGE_BYTES \<noteq> 0 \<or>
     co_kernel_virtual_base c mod HB_PAGE_BYTES \<noteq> 0 \<or> \<not> transfer_state_valid c \<or> co_handoff_physical_base c = 0 \<or>
     co_handoff_physical_base c mod ALIGNMENT \<noteq> 0 \<or> co_handoff_virtual_base c = 0 \<or> co_handoff_virtual_base c mod ALIGNMENT \<noteq> 0 \<or>
     \<not> (1 \<le> co_boot_attempt_limit c \<and> co_boot_attempt_limit c \<le> 32) \<or> co_boot_attempt c > co_boot_attempt_limit c \<or>
     co_boot_slot c \<notin> {1, 2, 3, 4} \<or> co_selected_entry c = 0 \<or> co_uefi_revision c = 0"

definition validate_core :: "bytes \<Rightarrow> int option \<Rightarrow> hb_core res" where
  "validate_core payload total_size =
     (let c = core_at payload; retained = (co_boot_flags c AND RUNTIME_SERVICES_RETAINED \<noteq> 0) in
      guarded [(length payload \<noteq> CORE_BYTES \<or> rd 4 payload 124 \<noteq> 0, ''core shape''), (core_value_bad c, ''core value'')]
      (rbind (range_end (co_kernel_physical_base c) (co_kernel_physical_size c)) (\<lambda>_.
       rbind (range_end (co_kernel_virtual_base c) (co_kernel_virtual_size c)) (\<lambda>virtual_end.
       guarded [(\<not> (co_kernel_virtual_base c \<le> co_kernel_entry_virtual c \<and> co_kernel_entry_virtual c < virtual_end), ''kernel entry range'')]
       (rbind (range_end (co_handoff_physical_base c) (co_handoff_byte_count c)) (\<lambda>_.
        rbind (range_end (co_handoff_virtual_base c) (co_handoff_byte_count c)) (\<lambda>_.
        guarded [
          (total_size \<noteq> None \<and> total_size \<noteq> Some (co_handoff_byte_count c), ''handoff size cross-binding''),
          (co_boot_flags c AND SECURE_BOOT_VERIFIED \<noteq> 0 \<and> co_boot_flags c AND SECURE_BOOT_ENABLED = 0, ''secure boot state''),
          (retained \<and> (co_uefi_system_table_physical c = 0 \<or> co_uefi_runtime_services_physical c = 0), ''runtime service pointer state''),
          (\<not> retained \<and> (co_uefi_system_table_physical c \<noteq> 0 \<or> co_uefi_runtime_services_physical c \<noteq> 0), ''runtime service pointer state'')]
        (Inr c))))))))"

definition memory_entry :: "bytes \<Rightarrow> nat \<Rightarrow> int \<Rightarrow> int res" where
  "memory_entry payload index previous_end =
     (let base = index * MEMORY_ENTRY_BYTES; start = rd 8 payload base; pages = rd 8 payload (base + 8); kind = rd 4 payload (base + 24) in
      guarded [(rd 8 payload (base + 32) \<noteq> 0 \<or> start mod HB_PAGE_BYTES \<noteq> 0 \<or> pages = 0 \<or> kind > MEMORY_FRAMEBUFFER, ''memory map value'')]
      (rbind (range_end start (pages * HB_PAGE_BYTES)) (\<lambda>end.
       guarded [(index \<noteq> 0 \<and> start < previous_end, ''memory map overlap'')] (Inr end))))"

definition validate_memory_map :: "bytes \<Rightarrow> int \<Rightarrow> unit res" where
  "validate_memory_map payload count =
     guarded [(\<not> (1 \<le> count \<and> count \<le> 16384) \<or> int (length payload) \<noteq> count * int MEMORY_ENTRY_BYTES, ''memory map shape'')]
     (rbind (rfold (memory_entry payload) [0..<nat count] 0) (\<lambda>_. Inr ()))"

definition validate_framebuffer :: "bytes \<Rightarrow> unit res" where
  "validate_framebuffer payload =
     (let base = rd 8 payload 0; byte_count = rd 8 payload 8; width = rd 4 payload 16; height = rd 4 payload 20; stride = rd 4 payload 24;
          pixel_format = rd 4 payload 28; red = rd 4 payload 32; green = rd 4 payload 36; blue = rd 4 payload 40; reserved = rd 4 payload 44;
          masks = (red, green, blue, reserved) in
      guarded [(length payload \<noteq> FRAMEBUFFER_BYTES, ''framebuffer shape''),
        (base = 0 \<or> base AND 3 \<noteq> 0 \<or> \<not> (320 \<le> width \<and> width \<le> 16384) \<or> \<not> (200 \<le> height \<and> height \<le> 16384) \<or>
         \<not> (width \<le> stride \<and> stride \<le> 16384) \<or> pixel_format \<notin> {1, 2, 3}, ''framebuffer value''),
        (byte_count < stride * height * 4 \<or> byte_count > 512 * 1024 * 1024, ''framebuffer range'')]
      (rbind (range_end base byte_count) (\<lambda>_.
       guarded [(pixel_format = 1 \<and> masks \<noteq> (0x000000FF, 0x0000FF00, 0x00FF0000, 0xFF000000), ''RGB masks''),
         (pixel_format = 2 \<and> masks \<noteq> (0x00FF0000, 0x0000FF00, 0x000000FF, 0xFF000000), ''BGR masks''),
         (pixel_format = 3 \<and> (red = 0 \<or> green = 0 \<or> blue = 0 \<or> red AND green \<noteq> 0 \<or> red AND blue \<noteq> 0 \<or> green AND blue \<noteq> 0 \<or>
           reserved AND ((red OR green) OR blue) \<noteq> 0), ''bitmask overlap'')]
       (Inr ()))))"

definition firmware_entry :: "bytes \<Rightarrow> nat \<Rightarrow> bytes \<Rightarrow> bytes res" where
  "firmware_entry payload index previous =
     (let base = index * FIRMWARE_TABLE_ENTRY_BYTES; guid = bslice payload base (base + 16); address = rd 8 payload (base + 16);
          byte_count = rd 8 payload (base + 24); flags = rd 4 payload (base + 32); reserved = rd 4 payload (base + 36) in
      guarded [(\<not> any_byte guid \<or> address = 0 \<or> address mod 4 \<noteq> 0 \<or> \<not> (0 < byte_count \<and> byte_count \<le> 16 * 1024 * 1024) \<or>
         flags AND NOT 7 \<noteq> 0 \<or> reserved \<noteq> 0 \<or> \<not> bytes_less previous guid, ''firmware table value'')]
      (rbind (range_end address byte_count) (\<lambda>_. Inr guid)))"

definition validate_firmware :: "bytes \<Rightarrow> int \<Rightarrow> unit res" where
  "validate_firmware payload count =
     guarded [(\<not> (1 \<le> count \<and> count \<le> 64) \<or> int (length payload) \<noteq> count * int FIRMWARE_TABLE_ENTRY_BYTES, ''firmware table shape'')]
     (rbind (rfold (firmware_entry payload) [0..<nat count] []) (\<lambda>_. Inr ()))"

definition artifact_entry :: "bytes \<Rightarrow> nat \<Rightarrow> int \<Rightarrow> int res" where
  "artifact_entry payload index previous_role =
     (let base = index * ARTIFACT_ENTRY_BYTES; role = rd 4 payload base; flags = rd 4 payload (base + 4); physical = rd 8 payload (base + 8);
          byte_count = rd 8 payload (base + 16); virtual_start = rd 8 payload (base + 24); virtual_size = rd 8 payload (base + 32);
          entry = rd 8 payload (base + 40); digest = bslice payload (base + 48) (base + 80) in
      guarded [(\<not> (1 \<le> role \<and> role \<le> ARTIFACT_TRUST_STATE) \<or> role \<le> previous_role \<or> flags AND NOT KNOWN_ARTIFACT_FLAGS \<noteq> 0 \<or>
         physical = 0 \<or> physical mod HB_PAGE_BYTES \<noteq> 0 \<or> byte_count = 0 \<or> \<not> any_byte digest, ''artifact value'')]
      (rbind (range_end physical byte_count) (\<lambda>_.
       if flags AND ARTIFACT_EXECUTABLE \<noteq> 0 then
         rbind (range_end virtual_start virtual_size) (\<lambda>end.
         guarded [(virtual_start = 0 \<or> virtual_start mod HB_PAGE_BYTES \<noteq> 0 \<or> \<not> (virtual_start \<le> entry \<and> entry < end),
           ''artifact executable range'')] (Inr role))
       else guarded [(entry \<noteq> 0 \<or> (virtual_start \<noteq> 0) \<noteq> (virtual_size \<noteq> 0), ''artifact non-executable range'')] (Inr role))))"

definition validate_artifacts :: "bytes \<Rightarrow> int \<Rightarrow> unit res" where
  "validate_artifacts payload count =
     guarded [(\<not> (1 \<le> count \<and> count \<le> 64) \<or> int (length payload) \<noteq> count * int ARTIFACT_ENTRY_BYTES, ''artifact shape'')]
     (rbind (rfold (artifact_entry payload) [0..<nat count] 0) (\<lambda>_. Inr ()))"

definition validate_command :: "bytes \<Rightarrow> unit res" where
  "validate_command payload =
     guarded [(\<not> (1 \<le> length payload \<and> length payload \<le> 4096), ''command shape'')]
     (case utf8_decode payload of None \<Rightarrow> Inl (Fail ''command UTF-8'')
      | Some text \<Rightarrow> guarded [(list_ex (\<lambda>c. c \<in> {0, 13, 10} \<or> c < 32 \<and> c \<noteq> 9) text, ''command control character'')] (Inr ()))"

definition validate_boot_device :: "bytes \<Rightarrow> unit res" where
  "validate_boot_device payload =
     (let start = rd 8 payload 32; byte_count = rd 8 payload 40; block_size = rd 4 payload 48; flags = rd 4 payload 52 in
      guarded [(length payload \<noteq> BOOT_DEVICE_BYTES, ''boot device shape''),
        (\<not> any_byte (bslice payload 0 16) \<or> \<not> any_byte (bslice payload 16 32) \<or> byte_count = 0 \<or>
         start + byte_count > 0xFFFFFFFFFFFFFFFF \<or> \<not> (512 \<le> block_size \<and> block_size \<le> 65536) \<or>
         block_size AND (block_size - 1) \<noteq> 0 \<or> flags AND NOT 3 \<noteq> 0 \<or> \<not> any_byte (bslice payload 56 88) \<or>
         any_byte (bslice payload 88 96), ''boot device value'')]
      (Inr ()))"

definition validate_random :: "bytes \<Rightarrow> unit res" where
  "validate_random payload =
     guarded [(length payload \<noteq> RANDOM_SEED_BYTES, ''random seed shape''),
       (rd 4 payload 0 > 3 \<or> rd 4 payload 4 AND NOT 15 \<noteq> 0 \<or> rd 4 payload 0 \<noteq> 0 \<and> \<not> any_byte (bslice payload 8 72), ''random seed value'')]
     (Inr ())"

definition validate_early_log :: "bytes \<Rightarrow> unit res" where
  "validate_early_log payload =
     guarded [(\<not> (EARLY_LOG_HEADER_BYTES \<le> length payload \<and> length payload \<le> EARLY_LOG_HEADER_BYTES + 65536), ''early log shape''),
       (rd 2 payload 12 \<noteq> 1 \<or> rd 2 payload 14 \<noteq> 0, ''early log header''),
       (utf8_decode (drop 16 payload) = None, ''early log UTF-8'')]
     (Inr ())"

definition validate_cpu_bootstrap :: "bytes \<Rightarrow> unit res" where
  "validate_cpu_bootstrap payload =
     (let flags = rd 4 payload 4; physical_bits = rd 2 payload 8; virtual_bits = rd 2 payload 10; stack_bottom = rd 8 payload 16;
          stack_size = rd 8 payload 24; page_levels = rd 4 payload 32; page_size = rd 4 payload 36 in
      guarded [(length payload \<noteq> CPU_BOOTSTRAP_BYTES, ''CPU bootstrap shape''),
        (flags AND NOT 3 \<noteq> 0 \<or> \<not> (36 \<le> physical_bits \<and> physical_bits \<le> 64) \<or> \<not> (48 \<le> virtual_bits \<and> virtual_bits \<le> 64) \<or>
         stack_bottom = 0 \<or> stack_bottom mod 16 \<noteq> 0 \<or> stack_size < HB_PAGE_BYTES \<or> stack_size mod HB_PAGE_BYTES \<noteq> 0 \<or>
         page_levels \<notin> {4, 5} \<or> page_size \<noteq> HB_PAGE_BYTES \<or> any_byte (bslice payload 40 64), ''CPU bootstrap value'')]
      (rbind (range_end stack_bottom stack_size) (\<lambda>_. Inr ())))"

definition validate_timestamps :: "bytes \<Rightarrow> unit res" where
  "validate_timestamps payload =
     (let flags = rd 8 payload 0; start = rd 8 payload 16; handoff_time = rd 8 payload 24; frequency = rd 8 payload 32 in
      guarded [(length payload \<noteq> BOOT_TIMESTAMPS_BYTES, ''timestamp shape''),
        (flags AND NOT 7 \<noteq> 0 \<or> start > handoff_time \<or> (start \<noteq> 0 \<or> handoff_time \<noteq> 0) \<and> frequency = 0, ''timestamp value'')]
      (Inr ()))"

definition validate_tcg :: "bytes \<Rightarrow> unit res" where
  "validate_tcg payload =
     (let physical = rd 8 payload 0; byte_count = rd 8 payload 8; event_format = rd 4 payload 16; flags = rd 4 payload 20 in
      guarded [(length payload \<noteq> TCG_EVENT_LOG_BYTES, ''TCG shape''),
        (physical = 0 \<or> physical mod 8 \<noteq> 0 \<or> \<not> (0 < byte_count \<and> byte_count \<le> 16 * 1024 * 1024) \<or> event_format \<notin> {1, 2} \<or>
         flags AND NOT 3 \<noteq> 0 \<or> \<not> any_byte (bslice payload 24 56), ''TCG value'')]
      (rbind (range_end physical byte_count) (\<lambda>_. Inr ())))"

definition run_validator :: "hb_record \<Rightarrow> int option \<Rightarrow> unit res" where
  "run_validator r total_size =
     (let t = hr_type r; payload = hr_payload r; count = hr_element_count r in
      if t = RECORD_CORE then rbind (validate_core payload total_size) (\<lambda>_. Inr ())
      else if t = RECORD_MEMORY_MAP then validate_memory_map payload count
      else if t = RECORD_FRAMEBUFFER then validate_framebuffer payload
      else if t = RECORD_FIRMWARE_TABLES then validate_firmware payload count
      else if t = RECORD_LOADED_ARTIFACTS then validate_artifacts payload count
      else if t = RECORD_COMMAND_LINE then validate_command payload
      else if t = RECORD_BOOT_DEVICE then validate_boot_device payload
      else if t = RECORD_RANDOM_SEED then validate_random payload
      else if t = RECORD_EARLY_LOG then validate_early_log payload
      else if t = RECORD_CPU_BOOTSTRAP then validate_cpu_bootstrap payload
      else if t = RECORD_BOOT_TIMESTAMPS then validate_timestamps payload
      else if t = RECORD_TCG_EVENT_LOG then validate_tcg payload
      else Inr ())"

definition validate_payload :: "hb_record \<Rightarrow> int option \<Rightarrow> unit res" where
  "validate_payload r total_size =
     (let t = hr_type r; flags = hr_flags r; known = (t \<le> RECORD_TCG_EVENT_LOG); array = (flags AND RECORD_ARRAY \<noteq> 0);
          variable = (t \<in> {RECORD_COMMAND_LINE, RECORD_EARLY_LOG} \<or> t \<ge> FIRST_EXTENSION_RECORD); payload_bytes = int (length (hr_payload r)) in
      guarded [
        (flags AND NOT KNOWN_RECORD_FLAGS \<noteq> 0, ''record flags''),
        (known \<and> (hr_revision r \<noteq> 1 \<or> flags AND (RECORD_ARRAY OR RECORD_REDACT) \<noteq> structural_flags t), ''known record metadata''),
        (\<not> known \<and> (t < FIRST_EXTENSION_RECORD \<or> hr_revision r = 0 \<or> flags AND RECORD_REQUIRED \<noteq> 0), ''unknown required record''),
        (array \<and> (hr_element_size r = 0 \<or> hr_element_count r = 0 \<or> hr_element_size r * hr_element_count r \<noteq> payload_bytes), ''array shape''),
        (\<not> array \<and> variable \<and> (hr_element_size r \<noteq> 0 \<or> hr_element_count r \<noteq> 0), ''variable record shape''),
        (\<not> array \<and> \<not> variable \<and> (hr_element_count r \<noteq> 1 \<or> hr_element_size r \<noteq> payload_bytes), ''singleton shape''),
        (t = RECORD_MEMORY_MAP \<and> hr_element_size r \<noteq> int MEMORY_ENTRY_BYTES, ''memory element size''),
        (t = RECORD_FIRMWARE_TABLES \<and> hr_element_size r \<noteq> int FIRMWARE_TABLE_ENTRY_BYTES, ''firmware element size''),
        (t = RECORD_LOADED_ARTIFACTS \<and> hr_element_size r \<noteq> int ARTIFACT_ENTRY_BYTES, ''artifact element size'')]
      (run_validator r total_size))"

section \<open>Checks across records\<close>

definition check_kernel_artifact :: "hb_core \<Rightarrow> bytes \<Rightarrow> nat \<Rightarrow> bool \<Rightarrow> bool res" where
  "check_kernel_artifact c payload index kernel_found =
     (let base = index * ARTIFACT_ENTRY_BYTES in
      rbind (hb_u32 payload base) (\<lambda>role.
      if role = ARTIFACT_KERNEL then
        rbind (unpack_from [8, 8, 8, 8, 8] payload (base + 8)) (\<lambda>observed.
        guarded [(observed \<noteq> [co_kernel_physical_base c, co_kernel_physical_size c, co_kernel_virtual_base c, co_kernel_virtual_size c,
            co_kernel_entry_virtual c], ''kernel artifact cross-binding'')]
        (Inr True))
      else Inr kernel_found))"

definition validate_cross_records :: "handoff \<Rightarrow> unit res" where
  "validate_cross_records h =
     (case handoff_record h RECORD_CORE of None \<Rightarrow> Inl (Fail ''missing core'')
      | Some core_record \<Rightarrow>
          rbind (validate_core (hr_payload core_record) (Some (hf_total_size h))) (\<lambda>c.
          guarded [(co_boot_flags c AND MEASURED_BOOT_ACTIVE \<noteq> 0 \<and> hf_features h AND FEATURE_TCG_EVENT_LOG = 0,
            ''measured boot without event log'')]
          (case handoff_record h RECORD_LOADED_ARTIFACTS of None \<Rightarrow> Inr ()
           | Some artifacts \<Rightarrow>
               rbind (rfold (check_kernel_artifact c (hr_payload artifacts)) [0..<nat (hr_element_count artifacts)] False) (\<lambda>kernel_found.
               guarded [(\<not> kernel_found, ''kernel artifact missing'')] (Inr ())))))"

definition profile_artifact :: "bytes \<Rightarrow> nat \<Rightarrow> int \<Rightarrow> int res" where
  "profile_artifact payload index required_roles =
     rbind (unpack_from [4, 4] payload (index * ARTIFACT_ENTRY_BYTES)) (\<lambda>fields.
     let role = fields ! 0; flags = fields ! 1; required_flags = ARTIFACT_HASH_VERIFIED OR ARTIFACT_SIGNATURE_VERIFIED in
     if role \<in> {ARTIFACT_KERNEL, ARTIFACT_INITIAL_SYSTEM} then
       guarded [(flags AND required_flags \<noteq> required_flags, ''kernel profile artifact verification'')]
       (Inr (required_roles OR 2 ^ nat (role - 1)))
     else Inr required_roles)"

definition validate_kernel_entry_profile :: "handoff \<Rightarrow> unit res" where
  "validate_kernel_entry_profile h =
     guarded [(hf_features h AND KERNEL_ENTRY_REQUIRED_FEATURES \<noteq> KERNEL_ENTRY_REQUIRED_FEATURES \<or>
       hf_required_features h AND KERNEL_ENTRY_REQUIRED_FEATURES \<noteq> KERNEL_ENTRY_REQUIRED_FEATURES, ''kernel profile features'')]
     (case (handoff_record h RECORD_CORE, handoff_record h RECORD_RANDOM_SEED, handoff_record h RECORD_LOADED_ARTIFACTS) of
        (Some core_record, Some random_record, Some artifacts) \<Rightarrow>
          rbind (validate_core (hr_payload core_record) (Some (hf_total_size h))) (\<lambda>c.
          rbind (if co_boot_flags c AND BOOT_SERVICES_EXITED = 0 then Inr True
            else rbind (hb_u32 (hr_payload random_record) 0) (\<lambda>quality. Inr (quality < 2))) (\<lambda>bad.
          guarded [(bad, ''kernel profile state'')]
          (rbind (rfold (profile_artifact (hr_payload artifacts)) [0..<nat (hr_element_count artifacts)] 0) (\<lambda>required_roles.
           guarded [(required_roles \<noteq> 3, ''kernel profile artifact roles'')] (Inr ())))))
      | _ \<Rightarrow> Inl (Fail ''kernel profile record''))"

section \<open>Decoding\<close>

record hb_scan =
  sn_records :: "hb_record list"
  sn_expected_offset :: int
  sn_previous_type :: int
  sn_observed_features :: int
  sn_observed_required :: int

definition descriptor_at :: "bytes \<Rightarrow> nat \<Rightarrow> hb_record" where
  "descriptor_at data base =
     (let offset = rd 4 data (base + 8); byte_count = rd 4 data (base + 12) in
      \<lparr>hr_type = rd 2 data base, hr_revision = rd 2 data (base + 2), hr_flags = rd 4 data (base + 4), hr_offset = offset, hr_length = byte_count,
       hr_element_size = rd 2 data (base + 16), hr_element_count = rd 2 data (base + 18), hr_content_crc32 = rd 4 data (base + 20),
       hr_payload = bslice data (nat offset) (nat (offset + byte_count))\<rparr>)"

definition decode_record :: "bytes \<Rightarrow> int \<Rightarrow> int \<Rightarrow> nat \<Rightarrow> hb_scan \<Rightarrow> hb_scan res" where
  "decode_record data writer_minor total_size index sn =
     (let base = HB_HEADER_BYTES + index * DESCRIPTOR_BYTES; r = descriptor_at data base; end = hr_offset r + hr_length r;
          aligned_end = hb_align end; feature = feature_for (hr_type r) in
      if length data < base + DESCRIPTOR_BYTES then Inl StructError
      else guarded [
        (rd 8 data (base + 24) \<noteq> 0, ''descriptor reserved''),
        (hr_type r \<le> sn_previous_type sn, ''record order''),
        (hr_offset r \<noteq> sn_expected_offset sn \<or> hr_offset r mod ALIGNMENT \<noteq> 0 \<or> hr_length r = 0, ''record layout''),
        (end > int (length data), ''record range''),
        (crc32 (hr_payload r) \<noteq> hr_content_crc32 r, ''record checksum'')]
      (rbind (validate_payload r (Some total_size)) (\<lambda>_.
       guarded [
         (aligned_end > total_size \<or> any_byte (bslice data (nat end) (nat aligned_end)), ''record padding''),
         (hr_type r \<ge> FIRST_EXTENSION_RECORD \<and> writer_minor \<le> HB_MINOR, ''extension minor'')]
       (Inr \<lparr>sn_records = sn_records sn @ [r], sn_expected_offset = aligned_end, sn_previous_type = hr_type r,
         sn_observed_features = sn_observed_features sn OR feature,
         sn_observed_required = (if hr_flags r AND RECORD_REQUIRED \<noteq> 0 then sn_observed_required sn OR feature else sn_observed_required sn)\<rparr>))))"

definition handoff_decode :: "bytes \<Rightarrow> handoff res" where
  "handoff_decode data =
     (let writer_major = rd 2 data 8; writer_minor = rd 2 data 10; minimum_reader_minor = rd 2 data 12; header_size = rd 2 data 14;
          total_size = rd 4 data 16; record_count = rd 2 data 20; descriptor_size = rd 2 data 22; table_offset = rd 4 data 24;
          payload_offset = rd 4 data 28; features = rd 8 data 32; required_features = rd 8 data 40;
          expected_payload = hb_align (int HB_HEADER_BYTES + record_count * int DESCRIPTOR_BYTES) in
      guarded [
        (length data < HB_HEADER_BYTES, ''buffer too small''),
        (length data > MAX_TOTAL_BYTES, ''total size''),
        (bslice data 0 8 \<noteq> HB_MAGIC, ''magic''),
        (writer_major \<noteq> HB_MAJOR, ''major version''),
        (minimum_reader_minor > writer_minor \<or> minimum_reader_minor > HB_MINOR, ''minor version''),
        (total_size \<noteq> int (length data) \<or> total_size > int MAX_TOTAL_BYTES, ''total size''),
        (\<not> (2 \<le> record_count \<and> record_count \<le> int MAX_RECORDS), ''record count''),
        (header_size \<noteq> int HB_HEADER_BYTES \<or> descriptor_size \<noteq> int DESCRIPTOR_BYTES \<or> table_offset \<noteq> int HB_HEADER_BYTES \<or>
         payload_offset \<noteq> expected_payload \<or> rd 4 data 52 \<noteq> 0, ''header layout''),
        (rd 8 data 56 \<noteq> 0, ''header reserved''),
        (message_crc data \<noteq> rd 4 data 48, ''message checksum''),
        (required_features AND NOT features \<noteq> 0 \<or> required_features AND NOT KNOWN_FEATURES \<noteq> 0, ''required feature''),
        (writer_minor = HB_MINOR \<and> features AND NOT KNOWN_FEATURES \<noteq> 0, ''unknown feature'')]
      (rbind (rfold (decode_record data writer_minor total_size) [0..<nat record_count]
          \<lparr>sn_records = [], sn_expected_offset = payload_offset, sn_previous_type = 0, sn_observed_features = 0, sn_observed_required = 0\<rparr>) (\<lambda>sn.
       guarded [
         (sn_expected_offset sn \<noteq> total_size, ''trailing bytes''),
         (sn_observed_features sn \<noteq> features AND KNOWN_FEATURES \<or> sn_observed_required sn \<noteq> required_features, ''feature mismatch''),
         (features AND BASE_REQUIRED_FEATURES \<noteq> BASE_REQUIRED_FEATURES \<or>
          required_features AND BASE_REQUIRED_FEATURES \<noteq> BASE_REQUIRED_FEATURES, ''missing base records'')]
       (let h = \<lparr>hf_data = data, hf_writer_major = writer_major, hf_writer_minor = writer_minor,
            hf_minimum_reader_minor = minimum_reader_minor, hf_total_size = total_size, hf_features = features,
            hf_required_features = required_features, hf_records = sn_records sn\<rparr>
        in rbind (validate_cross_records h) (\<lambda>_. Inr h)))))"

section \<open>Encoding\<close>

definition encoded_size :: "int list \<Rightarrow> int res" where
  "encoded_size lengths =
     guarded [(\<not> (2 \<le> length lengths \<and> length lengths \<le> MAX_RECORDS) \<or> list_ex (\<lambda>n. n \<le> 0) lengths, ''record count or payload length'')]
     (let byte_count = foldl (\<lambda>acc n. hb_align (acc + n)) (hb_align (int (HB_HEADER_BYTES + length lengths * DESCRIPTOR_BYTES))) lengths in
      guarded [(byte_count > int MAX_TOTAL_BYTES, ''encoded size'')] (Inr byte_count))"

text \<open>The caller's description of a record, with the defaults filled in.\<close>

record hb_item =
  it_type :: int
  it_revision :: int
  it_flags :: int
  it_element_size :: int
  it_element_count :: int
  it_payload :: bytes

record hb_writer =
  wr_output :: bytes
  wr_cursor :: int
  wr_previous_type :: int
  wr_features :: int
  wr_required :: int

definition record_of :: "int \<Rightarrow> hb_item \<Rightarrow> hb_record" where
  "record_of cursor i = \<lparr>hr_type = it_type i, hr_revision = it_revision i, hr_flags = it_flags i, hr_offset = cursor,
     hr_length = int (length (it_payload i)), hr_element_size = it_element_size i, hr_element_count = it_element_count i,
     hr_content_crc32 = crc32 (it_payload i), hr_payload = it_payload i\<rparr>"

definition descriptor_fields :: "hb_record \<Rightarrow> (nat \<times> int) list" where
  "descriptor_fields r = [(2, hr_type r), (2, hr_revision r), (4, hr_flags r), (4, hr_offset r), (4, hr_length r), (2, hr_element_size r),
     (2, hr_element_count r), (4, hr_content_crc32 r), (8, 0)]"

definition encode_record :: "int \<Rightarrow> nat \<times> hb_item \<Rightarrow> hb_writer \<Rightarrow> hb_writer res" where
  "encode_record writer_minor = (\<lambda>(index, i) w.
     let r = record_of (wr_cursor w) i; end = wr_cursor w + int (length (it_payload i)); feature = feature_for (hr_type r) in
     guarded [(hr_type r \<le> wr_previous_type w, ''record order''),
       (hr_type r \<ge> FIRST_EXTENSION_RECORD \<and> writer_minor \<le> HB_MINOR, ''extension minor'')]
     (rbind (validate_payload r None) (\<lambda>_.
      let output = slice_assign (wr_output w) (nat (wr_cursor w)) (nat end) (it_payload i) in
      rbind (pack_into output (HB_HEADER_BYTES + index * DESCRIPTOR_BYTES) (descriptor_fields r)) (\<lambda>output.
      Inr \<lparr>wr_output = output, wr_cursor = hb_align end, wr_previous_type = hr_type r, wr_features = wr_features w OR feature,
        wr_required = (if hr_flags r AND RECORD_REQUIRED \<noteq> 0 then wr_required w OR feature else wr_required w)\<rparr>))))"

definition handoff_encode :: "hb_item list \<Rightarrow> int \<Rightarrow> int \<Rightarrow> bytes res" where
  "handoff_encode items writer_minor minimum_reader_minor =
     rbind (encoded_size (map (\<lambda>i. int (length (it_payload i))) items)) (\<lambda>total.
     guarded [(minimum_reader_minor > writer_minor \<or> minimum_reader_minor > HB_MINOR, ''minor version'')]
     (let output = slice_assign (zeros (nat total)) 0 8 HB_MAGIC;
          payload_offset = hb_align (int (HB_HEADER_BYTES + length items * DESCRIPTOR_BYTES)) in
      rbind (pack_into output 8 [(2, HB_MAJOR), (2, writer_minor), (2, minimum_reader_minor), (2, int HB_HEADER_BYTES), (4, total),
        (2, int (length items)), (2, int DESCRIPTOR_BYTES), (4, int HB_HEADER_BYTES), (4, payload_offset)]) (\<lambda>output.
      rbind (rfold (encode_record writer_minor) (enumerate 0 items) \<lparr>wr_output = output, wr_cursor = payload_offset, wr_previous_type = 0,
        wr_features = 0, wr_required = 0\<rparr>) (\<lambda>w.
      rbind (pack_into (wr_output w) 32 [(8, wr_features w), (8, wr_required w)]) (\<lambda>output.
      rbind (pack_into output 48 [(4, message_crc output)]) (\<lambda>result.
      rbind (handoff_decode result) (\<lambda>_. Inr result)))))))"

end
