(* ===== verification/Boot_Handoff_Codec.thy ===== *)
theory Boot_Handoff_Codec
  imports Boot_Handoff
begin

text \<open>
  Which messages the handoff decoder accepts, and what the encoder writes: a message is accepted exactly when it is the
  image of a list of valid records, so encoder and decoder invert each other.
\<close>

unbundle bit_operations_syntax

section \<open>Alignment and checksums\<close>

definition align8 :: "nat \<Rightarrow> nat" where
  "align8 n = 8 * ((n + 7) div 8)"

lemma and_not_7: "v AND NOT 7 = 8 * (v div 8)" for v :: int
proof -
  have "v AND NOT (mask 3) = push_bit 3 (drop_bit 3 v)" by (rule bit_eqI) (auto simp: bit_simps)
  then show ?thesis by (simp add: mask_eq_exp_minus_1 push_bit_eq_mult drop_bit_eq_div)
qed

lemma hb_align_int [simp]: "hb_align (int n) = int (align8 n)"
  using and_not_7 [of "int n + 7"] by (simp add: hb_align_def ALIGNMENT_def align8_def zdiv_int add.commute)

lemma align8_add: "c mod 8 = 0 \<Longrightarrow> align8 (c + n) = c + align8 n"
  unfolding align8_def by presburger

lemma align8_ge: "n \<le> align8 n" "align8 n < n + 8" "align8 n mod 8 = 0"
  by (simp_all add: align8_def)

lemma crc32_fits [simp]: "fits 4 (crc32 d)"
  using uint_bounded [of "foldl crc_byte 0xFFFFFFFF d XOR 0xFFFFFFFF"] by (simp add: fits_def crc32_def)

section \<open>Records in place\<close>

definition item_of :: "hb_record \<Rightarrow> hb_item" where
  "item_of r = \<lparr>it_type = hr_type r, it_revision = hr_revision r, it_flags = hr_flags r, it_element_size = hr_element_size r,
     it_element_count = hr_element_count r, it_payload = hr_payload r\<rparr>"

definition padded :: "bytes \<Rightarrow> bytes" where
  "padded p = p @ zeros (align8 (length p) - length p)"

lemma length_padded [simp]: "length (padded p) = align8 (length p)"
  by (simp add: padded_def align8_ge)

definition item_ok :: "int \<Rightarrow> int \<Rightarrow> hb_item \<Rightarrow> bool" where
  "item_ok wm tot i \<longleftrightarrow> it_payload i \<noteq> [] \<and> fits 2 (it_type i) \<and> fits 2 (it_revision i) \<and> fits 4 (it_flags i) \<and>
     fits 2 (it_element_size i) \<and> fits 2 (it_element_count i) \<and> validate_payload (record_of 0 i) (Some tot) = Inr () \<and>
     (FIRST_EXTENSION_RECORD \<le> it_type i \<longrightarrow> 0 < wm)"

definition rec_at :: "bytes \<Rightarrow> int \<Rightarrow> int \<Rightarrow> nat \<Rightarrow> nat \<Rightarrow> hb_item \<Rightarrow> bool" where
  "rec_at d wm tot k c i \<longleftrightarrow> item_ok wm tot i \<and> 64 + 32 * k + 32 \<le> length d \<and> c + align8 (length (it_payload i)) \<le> length d \<and>
     bslice d (64 + 32 * k) (64 + 32 * k + 32) = packed (descriptor_fields (record_of (int c) i)) \<and>
     bslice d c (c + align8 (length (it_payload i))) = padded (it_payload i)"

definition sn_step :: "hb_scan \<Rightarrow> hb_item \<Rightarrow> hb_scan" where
  "sn_step sn i = \<lparr>sn_records = sn_records sn @ [record_of (sn_expected_offset sn) i],
     sn_expected_offset = hb_align (sn_expected_offset sn + int (length (it_payload i))), sn_previous_type = it_type i,
     sn_observed_features = sn_observed_features sn OR feature_for (it_type i),
     sn_observed_required = (if it_flags i AND RECORD_REQUIRED \<noteq> 0 then sn_observed_required sn OR feature_for (it_type i)
       else sn_observed_required sn)\<rparr>"

lemma validate_payload_place: "validate_payload (record_of c i) t = validate_payload (record_of 0 i) t"
  by (simp add: validate_payload_def run_validator_def record_of_def)

lemma record_of_fields [simp]:
  "hr_type (record_of c i) = it_type i" "hr_flags (record_of c i) = it_flags i" "hr_offset (record_of c i) = c"
  "hr_length (record_of c i) = int (length (it_payload i))" "hr_payload (record_of c i) = it_payload i"
  "hr_content_crc32 (record_of c i) = crc32 (it_payload i)" "hr_element_count (record_of c i) = it_element_count i"
  "hr_element_size (record_of c i) = it_element_size i" "hr_revision (record_of c i) = it_revision i"
  by (simp_all add: record_of_def)

lemma descriptor_fields_len [simp]: "sum_list (map fst (descriptor_fields r)) = 32"
  by (simp add: descriptor_fields_def)

lemma decode_record_unfold:
  assumes "r = descriptor_at d (64 + 32 * k)"
  shows "decode_record d wm tot k sn = Inr sn' \<longleftrightarrow> 64 + 32 * k + 32 \<le> length d \<and>
    rd 8 d (64 + 32 * k + 24) = 0 \<and> sn_previous_type sn < hr_type r \<and> hr_offset r = sn_expected_offset sn \<and> hr_offset r mod 8 = 0 \<and>
    hr_length r \<noteq> 0 \<and> hr_offset r + hr_length r \<le> int (length d) \<and> crc32 (hr_payload r) = hr_content_crc32 r \<and>
    validate_payload r (Some tot) = Inr () \<and> hb_align (hr_offset r + hr_length r) \<le> tot \<and>
    \<not> any_byte (bslice d (nat (hr_offset r + hr_length r)) (nat (hb_align (hr_offset r + hr_length r)))) \<and>
    (FIRST_EXTENSION_RECORD \<le> hr_type r \<longrightarrow> 0 < wm) \<and>
    sn' = \<lparr>sn_records = sn_records sn @ [r], sn_expected_offset = hb_align (hr_offset r + hr_length r), sn_previous_type = hr_type r,
      sn_observed_features = sn_observed_features sn OR feature_for (hr_type r),
      sn_observed_required = (if hr_flags r AND RECORD_REQUIRED \<noteq> 0 then sn_observed_required sn OR feature_for (hr_type r)
        else sn_observed_required sn)\<rparr>"
  unfolding decode_record_def Let_def assms HB_HEADER_BYTES_def DESCRIPTOR_BYTES_def ALIGNMENT_def HB_MINOR_def
  by (auto simp: guarded_Inr_iff rbind_Inr_iff not_le not_less mult.commute)

lemma descriptor_fits:
  assumes "item_ok wm tot i" "c + length (it_payload i) \<le> 1048576"
  shows "list_all (\<lambda>(n, v). fits n v) (descriptor_fields (record_of (int c) i))"
  using assms crc32_fits [of "it_payload i"] by (simp add: item_ok_def descriptor_fields_def) (simp add: fits_def)

lemma descriptor_back:
  assumes "bslice d b (b + 32) = packed (descriptor_fields r)" "list_all (\<lambda>(n, v). fits n v) (descriptor_fields r)"
  shows "descriptor_at d b = r\<lparr>hr_payload := bslice d (nat (hr_offset r)) (nat (hr_offset r + hr_length r))\<rparr>" "rd 8 d (b + 24) = 0"
proof -
  have rd: "rd n d (b + j) = v" if "fld (descriptor_fields r) j n = Some v" "j + n \<le> 32" for n j v
    using rd_at_block [OF assms(1) that(2)] rd_packed [OF that(1) assms(2)] by simp
  have "rd 2 d (b + 0) = hr_type r" "rd 2 d (b + 2) = hr_revision r" "rd 4 d (b + 4) = hr_flags r" "rd 4 d (b + 8) = hr_offset r"
    "rd 4 d (b + 12) = hr_length r" "rd 2 d (b + 16) = hr_element_size r" "rd 2 d (b + 18) = hr_element_count r"
    "rd 4 d (b + 20) = hr_content_crc32 r" "rd 8 d (b + 24) = 0"
    by (rule rd; simp add: descriptor_fields_def)+
  then show "descriptor_at d b = r\<lparr>hr_payload := bslice d (nat (hr_offset r)) (nat (hr_offset r + hr_length r))\<rparr>" "rd 8 d (b + 24) = 0"
    by (auto simp: descriptor_at_def Let_def intro!: hb_record.equality)
qed

lemma descriptor_bytes:
  assumes "b + 32 \<le> length d" "rd 8 d (b + 24) = 0"
  shows "packed (descriptor_fields (descriptor_at d b)) = bslice d b (b + 32)"
proof -
  have f: "descriptor_fields (descriptor_at d b) = read_fields d b [2, 2, 4, 4, 4, 2, 2, 4, 8]"
    using assms(2) by (simp add: descriptor_fields_def descriptor_at_def Let_def add.assoc del: add_2_eq_Suc')
  show ?thesis unfolding f using assms(1) by (subst packed_read_fields) simp_all
qed

lemma bslice_padded:
  assumes "c + align8 n \<le> length d" "bslice d c (c + n) = p" "length p = n"
  shows "bslice d c (c + align8 n) = padded p \<longleftrightarrow> \<not> any_byte (bslice d (c + n) (c + align8 n))"
proof -
  have "bslice d c (c + align8 n) = p @ bslice d (c + n) (c + align8 n)"
    using bslice_add [of c "c + n" "c + align8 n" d] assms(2) align8_ge [of n] by simp
  moreover have "length (bslice d (c + n) (c + align8 n)) = align8 n - n" using assms(1) by (simp add: length_slice)
  ultimately show ?thesis using assms(3) by (simp add: padded_def not_any_byte_iff)
qed

lemma decode_record_iff:
  assumes "length d \<le> 1048576" "sn_expected_offset sn = int c" "c mod 8 = 0"
  shows "decode_record d wm (int (length d)) k sn = Inr sn' \<longleftrightarrow>
    (\<exists>i. rec_at d wm (int (length d)) k c i \<and> sn_previous_type sn < it_type i \<and> sn' = sn_step sn i)"
proof
  define r where "r = descriptor_at d (64 + 32 * k)"
  define i where "i = item_of r"
  assume "decode_record d wm (int (length d)) k sn = Inr sn'"
  note g = this [unfolded decode_record_unfold [OF r_def]]
  have bound: "64 + 32 * k + 32 \<le> length d" using g by blast
  define n where "n = nat (hr_length r)"
  have fit: "fits 2 (hr_type r)" "fits 2 (hr_revision r)" "fits 4 (hr_flags r)" "fits 2 (hr_element_size r)" "fits 2 (hr_element_count r)"
    using bound by (simp_all add: r_def descriptor_at_def Let_def)
  have "0 \<le> hr_length r" by (simp add: r_def descriptor_at_def Let_def)
  then have len: "hr_length r = int n" "0 < n" using g by (simp_all add: n_def)
  have off: "hr_offset r = int c" using g assms(2) by simp
  have e: "hr_offset r + hr_length r = int (c + n)" by (simp add: off len)
  have "hb_align (hr_offset r + hr_length r) \<le> int (length d)"
    "\<not> any_byte (bslice d (nat (hr_offset r + hr_length r)) (nat (hb_align (hr_offset r + hr_length r))))" using g by blast+
  then have cn: "c + align8 n \<le> length d" and pad: "\<not> any_byte (bslice d (c + n) (c + align8 n))"
    unfolding e hb_align_int align8_add [OF assms(3)] nat_int of_nat_le_iff by blast+
  have "hr_payload r = bslice d (nat (hr_offset r)) (nat (hr_offset r + hr_length r))" by (simp add: r_def descriptor_at_def Let_def)
  then have pay: "hr_payload r = bslice d c (c + n)" unfolding off len of_nat_add [symmetric] nat_int .
  have lp: "length (it_payload i) = n" using cn align8_ge(1) [of n] by (simp add: i_def item_of_def pay length_slice)
  have r: "r = record_of (int c) i"
    using g off len lp by (simp add: record_of_def i_def item_of_def)
  have ip: "it_payload i \<noteq> []" using lp len(2) by auto
  have "item_ok wm (int (length d)) i"
    unfolding item_ok_def using g fit r validate_payload_place [of "int c" i] ip by simp
  moreover have "bslice d (64 + 32 * k) (64 + 32 * k + 32) = packed (descriptor_fields (record_of (int c) i))"
    using descriptor_bytes [OF bound] g by (simp add: r_def [symmetric] r [symmetric])
  moreover have "bslice d c (c + align8 n) = padded (it_payload i)"
    using bslice_padded [OF cn] pad pay lp by (simp add: i_def item_of_def)
  ultimately have "rec_at d wm (int (length d)) k c i" using cn lp bound by (simp add: rec_at_def)
  moreover have "sn' = sn_step sn i"
    using g by (simp add: sn_step_def assms(2)) (simp add: r)
  ultimately show "\<exists>i. rec_at d wm (int (length d)) k c i \<and> sn_previous_type sn < it_type i \<and> sn' = sn_step sn i"
    using g by (auto simp: r)
next
  assume "\<exists>i. rec_at d wm (int (length d)) k c i \<and> sn_previous_type sn < it_type i \<and> sn' = sn_step sn i"
  then obtain i where i: "rec_at d wm (int (length d)) k c i" "sn_previous_type sn < it_type i" "sn' = sn_step sn i" by blast
  define n where "n = length (it_payload i)"
  have ok: "item_ok wm (int (length d)) i" and bound: "64 + 32 * k + 32 \<le> length d" and cn: "c + align8 n \<le> length d"
    and desc: "bslice d (64 + 32 * k) (64 + 32 * k + 32) = packed (descriptor_fields (record_of (int c) i))"
    and body: "bslice d c (c + align8 n) = padded (it_payload i)"
    using i(1) by (simp_all add: rec_at_def n_def)
  have al: "hb_align (int c + int n) = int (c + align8 n)"
    using hb_align_int [of "c + n"] align8_add [OF assms(3), of n] by simp
  have "c + n \<le> 1048576" using cn align8_ge(1) [of n] assms(1) by linarith
  then have fit: "list_all (\<lambda>(n, v). fits n v) (descriptor_fields (record_of (int c) i))" using descriptor_fits [OF ok] by (simp add: n_def)
  have pay: "bslice d c (c + n) = it_payload i"
    using arg_cong [OF body, of "take n"] align8_ge(1) [of n] by (simp add: bslice_def padded_def n_def)
  have r: "descriptor_at d (64 + 32 * k) = record_of (int c) i"
    using descriptor_back(1) [OF desc fit] pay by (simp add: n_def nat_int_add)
  have pad: "\<not> any_byte (bslice d (c + n) (c + align8 n))" using bslice_padded [OF cn pay] body by (simp add: n_def)
  have "validate_payload (record_of (int c) i) (Some (int (length d))) = Inr ()" "it_payload i \<noteq> []"
    "FIRST_EXTENSION_RECORD \<le> it_type i \<longrightarrow> 0 < wm"
    using ok validate_payload_place [of "int c" i] by (simp_all add: item_ok_def)
  moreover have "int c mod 8 = 0" using assms(3) by presburger
  ultimately show "decode_record d wm (int (length d)) k sn = Inr sn'"
    unfolding decode_record_unfold [OF r [symmetric]]
    using descriptor_back(2) [OF desc fit] i(2,3) al pad cn bound align8_ge(1) [of n]
    by (simp add: assms(2) sn_step_def n_def nat_int_add)
qed

section \<open>The whole table\<close>

fun laid :: "bytes \<Rightarrow> int \<Rightarrow> nat \<Rightarrow> nat \<Rightarrow> int \<Rightarrow> hb_item list \<Rightarrow> bool" where
  "laid d wm k c p [] = True"
| "laid d wm k c p (i # its) = (rec_at d wm (int (length d)) k c i \<and> p < it_type i \<and>
     laid d wm (Suc k) (c + align8 (length (it_payload i))) (it_type i) its)"

lemma sn_step_offset:
  "sn_expected_offset sn = int c \<Longrightarrow> c mod 8 = 0 \<Longrightarrow> sn_expected_offset (sn_step sn i) = int (c + align8 (length (it_payload i)))"
  using hb_align_int [of "c + length (it_payload i)"] by (simp add: sn_step_def align8_add)

lemma sn_step_previous: "sn_previous_type (sn_step sn i) = it_type i"
  by (simp add: sn_step_def)

lemma decode_records_iff:
  assumes "length d \<le> 1048576" "sn_expected_offset sn = int c" "c mod 8 = 0"
  shows "rfold (decode_record d wm (int (length d))) [k..<k + n] sn = Inr sn' \<longleftrightarrow>
    (\<exists>its. length its = n \<and> laid d wm k c (sn_previous_type sn) its \<and> sn' = foldl sn_step sn its)"
  using assms(2,3)
proof (induction n arbitrary: k sn c)
  case (Suc n)
  have c: "(c + align8 m) mod 8 = 0" for m using Suc.prems(2) align8_ge(3) [of m] by presburger
  have ih: "rfold (decode_record d wm (int (length d))) [Suc k..<Suc k + n] (sn_step sn i) = Inr sn' \<longleftrightarrow>
    (\<exists>its. length its = n \<and> laid d wm (Suc k) (c + align8 (length (it_payload i))) (it_type i) its \<and> sn' = foldl sn_step (sn_step sn i) its)" for i
    using Suc.IH [OF sn_step_offset [OF Suc.prems] c] unfolding sn_step_previous .
  have u: "[k..<k + Suc n] = k # [Suc k..<Suc k + n]" by (subst upt_conv_Cons) simp_all
  have "rfold (decode_record d wm (int (length d))) [k..<k + Suc n] sn = Inr sn' \<longleftrightarrow>
    (\<exists>i. rec_at d wm (int (length d)) k c i \<and> sn_previous_type sn < it_type i \<and>
      rfold (decode_record d wm (int (length d))) [Suc k..<Suc k + n] (sn_step sn i) = Inr sn')"
    unfolding u rfold.simps rbind_Inr_iff decode_record_iff [OF assms(1) Suc.prems] by blast
  also have "\<dots> \<longleftrightarrow> (\<exists>i its. rec_at d wm (int (length d)) k c i \<and> sn_previous_type sn < it_type i \<and> length its = n \<and>
      laid d wm (Suc k) (c + align8 (length (it_payload i))) (it_type i) its \<and> sn' = foldl sn_step (sn_step sn i) its)"
    unfolding ih by blast
  also have "\<dots> \<longleftrightarrow> (\<exists>its. length its = Suc n \<and> laid d wm k c (sn_previous_type sn) its \<and> sn' = foldl sn_step sn its)" (is "?l \<longleftrightarrow> ?r")
  proof
    assume ?l
    then obtain i its where "rec_at d wm (int (length d)) k c i" "sn_previous_type sn < it_type i" "length its = n"
      "laid d wm (Suc k) (c + align8 (length (it_payload i))) (it_type i) its" "sn' = foldl sn_step (sn_step sn i) its" by blast
    then have "length (i # its) = Suc n \<and> laid d wm k c (sn_previous_type sn) (i # its) \<and> sn' = foldl sn_step sn (i # its)" by simp
    then show ?r ..
  next
    assume ?r
    then obtain js where "length js = Suc n" "laid d wm k c (sn_previous_type sn) js" "sn' = foldl sn_step sn js" by blast
    then show ?l by (cases js) auto
  qed
  finally show ?case .
qed auto

fun placed :: "nat \<Rightarrow> hb_item list \<Rightarrow> hb_record list" where
  "placed c [] = []"
| "placed c (i # its) = record_of (int c) i # placed (c + align8 (length (it_payload i))) its"

definition body_bytes :: "hb_item list \<Rightarrow> bytes" where
  "body_bytes its = concat (map (\<lambda>i. padded (it_payload i)) its)"

definition table_bytes :: "nat \<Rightarrow> hb_item list \<Rightarrow> bytes" where
  "table_bytes c its = concat (map (\<lambda>r. packed (descriptor_fields r)) (placed c its))"

lemma length_table_bytes [simp]: "length (table_bytes c its) = 32 * length its"
  by (induction its arbitrary: c) (simp_all add: table_bytes_def)

lemma body_bytes_mod: "length (body_bytes its) mod 8 = 0"
proof (induction its)
  case (Cons i its)
  then show ?case using align8_ge(3) [of "length (it_payload i)"] by (simp add: body_bytes_def) presburger
qed (simp add: body_bytes_def)

lemma bslice_append_iff:
  assumes "a + m \<le> length d" "length xs = m"
  shows "bslice d a (a + m + n) = xs @ ys \<longleftrightarrow> bslice d a (a + m) = xs \<and> bslice d (a + m) (a + m + n) = ys"
proof -
  have "bslice d a (a + m + n) = bslice d a (a + m) @ bslice d (a + m) (a + m + n)" by (rule bslice_add [symmetric]) simp_all
  moreover have "length (bslice d a (a + m)) = length xs" using assms by (simp add: length_slice)
  ultimately show ?thesis by simp
qed

lemma laid_bound: "laid d wm k c p its \<Longrightarrow> its \<noteq> [] \<Longrightarrow> 64 + 32 * (k + length its) \<le> length d"
proof (induction its arbitrary: k c p)
  case (Cons i its)
  show ?case
  proof (cases "its = []")
    case False
    with Cons.IH [of "Suc k" "c + align8 (length (it_payload i))" "it_type i"] Cons.prems(1) show ?thesis by simp
  qed (use Cons.prems in \<open>simp add: rec_at_def\<close>)
qed simp

lemma laid_iff:
  assumes "c mod 8 = 0" "64 + 32 * (k + length its) \<le> length d"
  shows "laid d wm k c p its \<longleftrightarrow> list_all (item_ok wm (int (length d))) its \<and> sorted_wrt (<) (p # map it_type its) \<and>
    c + length (body_bytes its) \<le> max c (length d) \<and> bslice d (64 + 32 * k) (64 + 32 * k + 32 * length its) = table_bytes c its \<and>
    bslice d c (c + length (body_bytes its)) = body_bytes its"
  using assms
proof (induction its arbitrary: k c p)
  case Nil
  then show ?case by (simp add: body_bytes_def table_bytes_def bslice_def)
next
  case (Cons i its)
  define m where "m = align8 (length (it_payload i))"
  have c: "(c + m) mod 8 = 0" using Cons.prems(1) align8_ge(3) [of "length (it_payload i)"] by (simp add: m_def) presburger
  have len: "64 + 32 * (Suc k + length its) \<le> length d" using Cons.prems(2) by simp
  have t: "bslice d (64 + 32 * k) (64 + 32 * k + 32 * length (i # its)) = table_bytes c (i # its) \<longleftrightarrow>
      bslice d (64 + 32 * k) (64 + 32 * k + 32) = packed (descriptor_fields (record_of (int c) i)) \<and>
      bslice d (64 + 32 * Suc k) (64 + 32 * Suc k + 32 * length its) = table_bytes (c + m) its"
    using bslice_append_iff [of "64 + 32 * k" 32 d "packed (descriptor_fields (record_of (int c) i))" "32 * length its"] Cons.prems(2)
    by (simp add: table_bytes_def m_def algebra_simps)
  have b: "bslice d c (c + length (body_bytes (i # its))) = body_bytes (i # its) \<longleftrightarrow>
      bslice d c (c + m) = padded (it_payload i) \<and> bslice d (c + m) (c + m + length (body_bytes its)) = body_bytes its"
    if "c + m \<le> length d"
    using bslice_append_iff [OF that, of "padded (it_payload i)" "length (body_bytes its)" "body_bytes its"]
    by (simp add: body_bytes_def m_def algebra_simps)
  have s: "sorted_wrt (<) (p # map it_type (i # its)) \<longleftrightarrow> p < it_type i \<and> sorted_wrt (<) (it_type i # map it_type its)"
    by (auto intro: less_trans)
  have l: "length (body_bytes (i # its)) = m + length (body_bytes its)" by (simp add: body_bytes_def m_def)
  have pos: "item_ok wm (int (length d)) i \<Longrightarrow> 0 < m"
    using align8_ge(1) [of "length (it_payload i)"] by (cases "it_payload i") (auto simp: item_ok_def m_def)
  show ?case
  proof (cases "c + m \<le> length d")
    case True
    then show ?thesis
      unfolding laid.simps m_def [symmetric] Cons.IH [OF c len] s l t b [OF True, unfolded l]
      using Cons.prems(2) by (auto simp: rec_at_def m_def)
  next
    case False
    then show ?thesis using pos by (auto simp: rec_at_def m_def [symmetric] l)
  qed
qed

section \<open>Messages\<close>

definition item_features :: "hb_item list \<Rightarrow> int" where
  "item_features its = foldl (\<lambda>a i. a OR feature_for (it_type i)) 0 its"

definition item_required :: "hb_item list \<Rightarrow> int" where
  "item_required its = item_features (filter (\<lambda>i. it_flags i AND RECORD_REQUIRED \<noteq> 0) its)"

lemma foldl_or: "foldl (\<lambda>a i. a OR f i) a xs = a OR foldl (\<lambda>a i. a OR f i) (0 :: int) xs"
proof (induction xs arbitrary: a)
  case (Cons x xs)
  from Cons.IH [of "a OR f x"] Cons.IH [of "f x"] show ?case by (simp add: or.assoc)
qed simp

lemma item_features_Cons: "item_features (i # its) = feature_for (it_type i) OR item_features its"
  using foldl_or [of "\<lambda>i. feature_for (it_type i)" "feature_for (it_type i)" its] by (simp add: item_features_def)

lemma foldl_sn_step:
  assumes "sn_expected_offset sn = int c" "c mod 8 = 0"
  shows "foldl sn_step sn its = \<lparr>sn_records = sn_records sn @ placed c its, sn_expected_offset = int (c + length (body_bytes its)),
    sn_previous_type = last (sn_previous_type sn # map it_type its), sn_observed_features = sn_observed_features sn OR item_features its,
    sn_observed_required = sn_observed_required sn OR item_required its\<rparr>"
  using assms
proof (induction its arbitrary: sn c)
  case Nil
  then show ?case by (simp add: body_bytes_def item_features_def item_required_def)
next
  case (Cons i its)
  have c: "(c + align8 (length (it_payload i))) mod 8 = 0"
    using Cons.prems(2) align8_ge(3) [of "length (it_payload i)"] by presburger
  show ?case
    unfolding foldl.simps Cons.IH [OF sn_step_offset [OF Cons.prems] c]
    by (simp add: sn_step_def Cons.prems(1) body_bytes_def item_features_Cons item_required_def or.assoc)
qed

definition head_fields :: "int \<Rightarrow> int \<Rightarrow> hb_item list \<Rightarrow> int \<Rightarrow> (nat \<times> int) list" where
  "head_fields wm feats its crc = [(2, 1), (2, wm), (2, 0), (2, 64), (4, int (64 + 32 * length its + length (body_bytes its))),
     (2, int (length its)), (2, 32), (4, 64), (4, int (64 + 32 * length its)), (8, feats), (8, item_required its), (4, crc), (4, 0), (8, 0)]"

definition image_with :: "int \<Rightarrow> int \<Rightarrow> hb_item list \<Rightarrow> int \<Rightarrow> bytes" where
  "image_with wm feats its crc = HB_MAGIC @ packed (head_fields wm feats its crc) @ table_bytes (64 + 32 * length its) its @ body_bytes its"

definition handoff_image :: "int \<Rightarrow> int \<Rightarrow> hb_item list \<Rightarrow> bytes" where
  "handoff_image wm feats its = image_with wm feats its (crc32 (image_with wm feats its 0))"

definition handoff_of :: "int \<Rightarrow> int \<Rightarrow> hb_item list \<Rightarrow> handoff" where
  "handoff_of wm feats its = \<lparr>hf_data = handoff_image wm feats its, hf_writer_major = 1, hf_writer_minor = wm, hf_minimum_reader_minor = 0,
     hf_total_size = int (64 + 32 * length its + length (body_bytes its)), hf_features = feats, hf_required_features = item_required its,
     hf_records = placed (64 + 32 * length its) its\<rparr>"

definition handoff_ok :: "int \<Rightarrow> int \<Rightarrow> hb_item list \<Rightarrow> bool" where
  "handoff_ok wm feats its \<longleftrightarrow> fits 2 wm \<and> fits 8 feats \<and> 2 \<le> length its \<and> length its \<le> 32 \<and>
     64 + 32 * length its + length (body_bytes its) \<le> 1048576 \<and>
     list_all (item_ok wm (int (64 + 32 * length its + length (body_bytes its)))) its \<and> sorted_wrt (<) (0 # map it_type its) \<and>
     feats AND KNOWN_FEATURES = item_features its \<and> (wm = 0 \<longrightarrow> feats AND NOT KNOWN_FEATURES = 0) \<and>
     feats AND 3 = 3 \<and> item_required its AND 3 = 3 \<and> validate_cross_records (handoff_of wm feats its) = Inr ()"

lemma length_hb_magic [simp]: "length HB_MAGIC = 8"
  by (simp add: HB_MAGIC_def)

lemma head_fields_len [simp]: "sum_list (map fst (head_fields wm feats its crc)) = 56"
  by (simp add: head_fields_def)

lemma length_image_with [simp]: "length (image_with wm feats its crc) = 64 + 32 * length its + length (body_bytes its)"
  by (simp add: image_with_def)

lemma length_handoff_image [simp]: "length (handoff_image wm feats its) = 64 + 32 * length its + length (body_bytes its)"
  by (simp add: handoff_image_def)

lemma message_crc_image: "message_crc (image_with wm feats its crc) = crc32 (image_with wm feats its 0)"
proof -
  define A :: "(nat \<times> int) list" where "A = [(2, 1), (2, wm), (2, 0), (2, 64), (4, int (64 + 32 * length its + length (body_bytes its))),
     (2, int (length its)), (2, 32), (4, 64), (4, int (64 + 32 * length its)), (8, feats), (8, item_required its)]"
  have f: "head_fields wm feats its x = A @ [(4, x)] @ [(4, 0), (8, 0)]" for x by (simp add: head_fields_def A_def)
  have "slice_assign (image_with wm feats its crc) 48 52 (zeros 4) = image_with wm feats its 0"
  proof -
    let ?T = "packed [(4, 0), (8, 0)] @ table_bytes (64 + 32 * length its) its @ body_bytes its"
    have i: "image_with wm feats its x = (HB_MAGIC @ packed A) @ packed [(4, x)] @ ?T" for x
      by (simp only: image_with_def f packed_append append_assoc)
    have z: "packed [(4, 0)] = zeros 4" by code_simp
    have "length (HB_MAGIC @ packed A) = 48" by (simp add: A_def)
    then show ?thesis unfolding i z by (simp add: slice_assign_def)
  qed
  then show ?thesis by (simp add: message_crc_def)
qed

lemma align8_table: "align8 (64 + 32 * n) = 64 + 32 * n"
  unfolding align8_def by presburger

abbreviation scan_start :: "nat \<Rightarrow> hb_scan" where
  "scan_start c \<equiv> \<lparr>sn_records = [], sn_expected_offset = int c, sn_previous_type = 0, sn_observed_features = 0, sn_observed_required = 0\<rparr>"

abbreviation header_ok :: "bytes \<Rightarrow> nat \<Rightarrow> bool" where
  "header_ok d n \<equiv> 64 \<le> length d \<and> length d \<le> 1048576 \<and> bslice d 0 8 = HB_MAGIC \<and> rd 2 d 8 = 1 \<and> rd 2 d 12 = 0 \<and> rd 2 d 14 = 64 \<and>
     rd 4 d 16 = int (length d) \<and> rd 2 d 20 = int n \<and> 2 \<le> n \<and> n \<le> 32 \<and> rd 2 d 22 = 32 \<and> rd 4 d 24 = 64 \<and>
     rd 4 d 28 = int (64 + 32 * n) \<and> rd 4 d 52 = 0 \<and> rd 8 d 56 = 0 \<and> message_crc d = rd 4 d 48 \<and>
     rd 8 d 40 AND NOT (rd 8 d 32) = 0 \<and> rd 8 d 40 AND NOT KNOWN_FEATURES = 0 \<and>
     (rd 2 d 10 = 0 \<longrightarrow> rd 8 d 32 AND NOT KNOWN_FEATURES = 0)"

abbreviation handoff_at :: "bytes \<Rightarrow> hb_record list \<Rightarrow> handoff" where
  "handoff_at d rs \<equiv> \<lparr>hf_data = d, hf_writer_major = rd 2 d 8, hf_writer_minor = rd 2 d 10, hf_minimum_reader_minor = rd 2 d 12,
     hf_total_size = rd 4 d 16, hf_features = rd 8 d 32, hf_required_features = rd 8 d 40, hf_records = rs\<rparr>"

lemma header_guards:
  assumes "rd 2 d 20 = int n"
  shows "length d \<ge> 64 \<and> length d \<le> 1048576 \<and> bslice d 0 8 = HB_MAGIC \<and> rd 2 d 8 = 1 \<and> \<not> (rd 2 d 12 > rd 2 d 10 \<or> rd 2 d 12 > 0) \<and>
      rd 4 d 16 = int (length d) \<and> 2 \<le> rd 2 d 20 \<and> rd 2 d 20 \<le> 32 \<and> rd 2 d 14 = 64 \<and> rd 2 d 22 = 32 \<and> rd 4 d 24 = 64 \<and>
      rd 4 d 28 = hb_align (64 + rd 2 d 20 * 32) \<and> rd 4 d 52 = 0 \<and> rd 8 d 56 = 0 \<and> message_crc d = rd 4 d 48 \<and>
      rd 8 d 40 AND NOT (rd 8 d 32) = 0 \<and> rd 8 d 40 AND NOT KNOWN_FEATURES = 0 \<and>
      (rd 2 d 10 = 0 \<longrightarrow> rd 8 d 32 AND NOT KNOWN_FEATURES = 0) \<longleftrightarrow> header_ok d n"
proof -
  have a: "hb_align (64 + int n * 32) = int (64 + 32 * n)"
    using hb_align_int [of "64 + 32 * n"] align8_table [of n] by (simp add: mult.commute)
  have "rd 2 d 12 = 0 \<longleftrightarrow> \<not> (rd 2 d 12 > rd 2 d 10 \<or> rd 2 d 12 > 0)"
    using rd_nonneg [of 2 d 12] rd_nonneg [of 2 d 10] by linarith
  then show ?thesis unfolding assms a by auto
qed

lemma decode_unfold:
  assumes "rd 2 d 20 = int n"
  shows "handoff_decode d = Inr h \<longleftrightarrow> header_ok d n \<and>
    (\<exists>sn. rfold (decode_record d (rd 2 d 10) (int (length d))) [0..<n] (scan_start (64 + 32 * n)) = Inr sn \<and>
      sn_expected_offset sn = int (length d) \<and> sn_observed_features sn = rd 8 d 32 AND KNOWN_FEATURES \<and>
      sn_observed_required sn = rd 8 d 40 \<and> rd 8 d 32 AND 3 = 3 \<and> rd 8 d 40 AND 3 = 3 \<and>
      validate_cross_records (handoff_at d (sn_records sn)) = Inr () \<and> h = handoff_at d (sn_records sn))"
proof -
  have k: "HB_HEADER_BYTES = 64" "MAX_TOTAL_BYTES = 1048576" "HB_MAJOR = 1" "HB_MINOR = 0" "DESCRIPTOR_BYTES = 32" "MAX_RECORDS = 32"
    "BASE_REQUIRED_FEATURES = 3" by (simp_all add: code_defs)
  have "handoff_decode d = Inr h \<longleftrightarrow> header_ok d n \<and>
    (\<exists>sn. rfold (decode_record d (rd 2 d 10) (rd 4 d 16)) [0..<nat (rd 2 d 20)]
      \<lparr>sn_records = [], sn_expected_offset = rd 4 d 28, sn_previous_type = 0, sn_observed_features = 0, sn_observed_required = 0\<rparr> = Inr sn \<and>
      sn_expected_offset sn = rd 4 d 16 \<and> sn_observed_features sn = rd 8 d 32 AND KNOWN_FEATURES \<and>
      sn_observed_required sn = rd 8 d 40 \<and> rd 8 d 32 AND 3 = 3 \<and> rd 8 d 40 AND 3 = 3 \<and>
      validate_cross_records (handoff_at d (sn_records sn)) = Inr () \<and> h = handoff_at d (sn_records sn))"
    unfolding handoff_decode_def Let_def k header_guards [OF assms, symmetric] guarded_Inr_iff rbind_Inr_iff
    by (auto simp: not_less not_le)
  then show ?thesis by (auto simp: assms)
qed

lemma item_features_nonneg: "0 \<le> item_features its"
  by (induction its) (simp_all add: item_features_Cons, simp_all add: item_features_def feature_for_def)

lemma required_features: "item_required its AND NOT (item_features its) = 0" "item_required its AND NOT KNOWN_FEATURES = 0"
proof -
  have f: "feature_for t AND NOT KNOWN_FEATURES = 0" for t
  proof (cases "1 \<le> t \<and> t \<le> 12")
    case True
    then have "t = 1 \<or> t = 2 \<or> t = 3 \<or> t = 4 \<or> t = 5 \<or> t = 6 \<or> t = 7 \<or> t = 8 \<or> t = 9 \<or> t = 10 \<or> t = 11 \<or> t = 12"
      by presburger
    then show ?thesis by (auto simp: feature_for_def code_defs)
  qed (auto simp: feature_for_def code_defs)
  have "item_features js AND NOT KNOWN_FEATURES = 0" for js
    using f by (induction js) (simp_all add: item_features_Cons bit.conj_disj_distrib2, simp add: item_features_def)
  then show "item_required its AND NOT KNOWN_FEATURES = 0" by (simp add: item_required_def)
  have sub: "bit (item_features (filter P js)) n \<Longrightarrow> bit (item_features js) n" for P js n
  proof (induction js)
    case (Cons j js)
    then show ?case by (cases "P j") (auto simp: item_features_Cons bit_or_iff)
  qed simp
  show "item_required its AND NOT (item_features its) = 0"
  proof (rule bit_eqI)
    fix n
    have "\<not> bit (item_required its AND NOT (item_features its)) n"
      unfolding item_required_def bit_and_iff bit_not_iff using sub by blast
    then show "bit (item_required its AND NOT (item_features its)) n = bit 0 n" by simp
  qed
qed

lemma scan_end:
  "foldl sn_step (scan_start (64 + 32 * n)) its = \<lparr>sn_records = placed (64 + 32 * n) its,
     sn_expected_offset = int (64 + 32 * n + length (body_bytes its)), sn_previous_type = last (0 # map it_type its),
     sn_observed_features = item_features its, sn_observed_required = item_required its\<rparr>"
proof -
  have "(64 + 32 * n) mod 8 = 0" by presburger
  from foldl_sn_step [OF _ this, of "scan_start (64 + 32 * n)" its] show ?thesis by simp
qed

lemma decode_spelling:
  assumes "handoff_decode d = Inr h"
  shows "\<exists>wm feats its. handoff_ok wm feats its \<and> d = handoff_image wm feats its \<and> h = handoff_of wm feats its"
proof -
  define n where "n = nat (rd 2 d 20)"
  define wm where "wm = rd 2 d 10"
  define feats where "feats = rd 8 d 32"
  have "rd 2 d 20 = int n" by (simp add: n_def)
  from assms [unfolded decode_unfold [OF this]] obtain sn where hd: "header_ok d n"
    and fold: "rfold (decode_record d wm (int (length d))) [0..<0 + n] (scan_start (64 + 32 * n)) = Inr sn"
    and e: "sn_expected_offset sn = int (length d)" "sn_observed_features sn = feats AND KNOWN_FEATURES"
      "sn_observed_required sn = rd 8 d 40" "feats AND 3 = 3" "rd 8 d 40 AND 3 = 3"
    and x: "validate_cross_records (handoff_at d (sn_records sn)) = Inr ()" "h = handoff_at d (sn_records sn)"
    by (auto simp: wm_def feats_def)
  have m8: "(64 + 32 * n) mod 8 = 0" by presburger
  obtain its where its: "length its = n" "laid d wm 0 (64 + 32 * n) 0 its" "sn = foldl sn_step (scan_start (64 + 32 * n)) its"
    using fold decode_records_iff [of d "scan_start (64 + 32 * n)" "64 + 32 * n" wm 0 n sn, OF _ _ m8] hd by auto
  have sn: "sn_records sn = placed (64 + 32 * n) its" "length d = 64 + 32 * n + length (body_bytes its)"
    "item_features its = feats AND KNOWN_FEATURES" "item_required its = rd 8 d 40"
    using e(1-3) unfolding its(3) scan_end by simp_all
  have "its \<noteq> []" using hd its(1) by auto
  have bound: "64 + 32 * (0 + length its) \<le> length d" using laid_bound [OF its(2) \<open>its \<noteq> []\<close>] .
  have l: "list_all (item_ok wm (int (length d))) its" "sorted_wrt (<) (0 # map it_type its)"
    "bslice d 64 (64 + 32 * n) = table_bytes (64 + 32 * n) its" "bslice d (64 + 32 * n) (length d) = body_bytes its"
    using its(2) [unfolded laid_iff [OF m8 bound]] its(1) sn(2) by simp_all
  have h64: "64 \<le> length d" using hd by blast
  have "head_fields wm feats its (rd 4 d 48) = read_fields d 8 [2, 2, 2, 2, 4, 2, 2, 4, 4, 8, 8, 4, 4, 8]"
    using hd sn its(1) by (simp add: head_fields_def wm_def feats_def)
  then have head: "packed (head_fields wm feats its (rd 4 d 48)) = bslice d 8 64" using h64 by (simp only:) (subst packed_read_fields, simp_all)
  have "d = bslice d 0 8 @ bslice d 8 64 @ bslice d 64 (64 + 32 * n) @ bslice d (64 + 32 * n) (length d)"
    using bslice_add [of "64" "64 + 32 * n" "length d" d] bslice_add [of 8 64 "length d" d] bslice_add [of 0 8 "length d" d] bound its(1) h64
    by (simp add: slice_full)
  then have img: "d = image_with wm feats its (rd 4 d 48)" using hd l(3,4) head its(1) by (simp add: image_with_def)
  have "rd 4 d 48 = crc32 (image_with wm feats its 0)"
    using hd message_crc_image [of wm feats its "rd 4 d 48"] img by simp
  with img have d: "d = handoff_image wm feats its" unfolding handoff_image_def by simp
  have h: "handoff_at d (sn_records sn) = handoff_of wm feats its"
    unfolding handoff_of_def d [symmetric] using hd sn its(1) wm_def feats_def by simp
  have "handoff_ok wm feats its"
    unfolding handoff_ok_def
    using hd l(1,2) e(4,5) x(1) sn its(1) h by (simp add: wm_def feats_def) 
  with d x(2) h show ?thesis by blast
qed

lemma required_fits: "fits 8 (item_required its)"
proof -
  have "0 \<le> item_required its \<and> item_required its < 4096"
    using required_features(2) [of its] and_not_mask_0_iff [of "item_required its" 12] item_features_nonneg
    by (simp add: KNOWN_FEATURES_def mask_eq_exp_minus_1 item_required_def)
  then show ?thesis by (simp add: fits_def)
qed

lemma image_reads:
  assumes ok: "handoff_ok wm feats its" and d: "d = handoff_image wm feats its" and n: "n = length its"
  shows "rd 2 d 8 = 1" "rd 2 d 10 = wm" "rd 2 d 12 = 0" "rd 2 d 14 = 64" "rd 4 d 16 = int (length d)" "rd 2 d 20 = int n" "rd 2 d 22 = 32"
    "rd 4 d 24 = 64" "rd 4 d 28 = int (64 + 32 * n)" "rd 8 d 32 = feats" "rd 8 d 40 = item_required its" "rd 4 d 48 = message_crc d"
    "rd 4 d 52 = 0" "rd 8 d 56 = 0"
proof -
  define crc where "crc = crc32 (image_with wm feats its 0)"
  have len: "length d = 64 + 32 * n + length (body_bytes its)" by (simp add: d n)
  have img: "d = HB_MAGIC @ packed (head_fields wm feats its crc) @ table_bytes (64 + 32 * n) its @ body_bytes its"
    by (simp add: d handoff_image_def image_with_def crc_def n)
  have o: "fits 2 wm" "fits 8 feats" "n \<le> 32" "length d \<le> 1048576" using ok by (simp_all add: handoff_ok_def len n)
  have fit: "list_all (\<lambda>(n, v). fits n v) (head_fields wm feats its crc)"
    using o len required_fits [of its] by (simp add: head_fields_def crc_def n) (simp add: fits_def)
  have rd: "rd m d (8 + j) = v" if "fld (head_fields wm feats its crc) j m = Some v" "j + m \<le> 56" for m j v
  proof -
    have "rd m d (8 + j) = rd m (packed (head_fields wm feats its crc)) j" using that(2) by (simp add: img rd_append2 rd_append1)
    with rd_packed [OF that(1) fit] show ?thesis by simp
  qed
  have "rd 2 d (8 + 0) = 1" "rd 2 d (8 + 2) = wm" "rd 2 d (8 + 4) = 0" "rd 2 d (8 + 6) = 64" "rd 4 d (8 + 8) = int (length d)"
    "rd 2 d (8 + 12) = int n" "rd 2 d (8 + 14) = 32" "rd 4 d (8 + 16) = 64" "rd 4 d (8 + 20) = int (64 + 32 * n)" "rd 8 d (8 + 24) = feats"
    "rd 8 d (8 + 32) = item_required its" "rd 4 d (8 + 40) = crc" "rd 4 d (8 + 44) = 0" "rd 8 d (8 + 48) = 0"
    by (rule rd; simp add: head_fields_def n len)+
  moreover have "message_crc d = crc" by (simp add: d handoff_image_def message_crc_image crc_def)
  ultimately show "rd 2 d 8 = 1" "rd 2 d 10 = wm" "rd 2 d 12 = 0" "rd 2 d 14 = 64" "rd 4 d 16 = int (length d)" "rd 2 d 20 = int n"
    "rd 2 d 22 = 32" "rd 4 d 24 = 64" "rd 4 d 28 = int (64 + 32 * n)" "rd 8 d 32 = feats" "rd 8 d 40 = item_required its"
    "rd 4 d 48 = message_crc d" "rd 4 d 52 = 0" "rd 8 d 56 = 0" by simp_all
qed

lemma image_header:
  assumes ok: "handoff_ok wm feats its" and d: "d = handoff_image wm feats its" and n: "n = length its"
  shows "header_ok d n"
proof -
  have len: "length d = 64 + 32 * n + length (body_bytes its)" by (simp add: d n)
  have o: "2 \<le> n" "n \<le> 32" "length d \<le> 1048576" "feats AND KNOWN_FEATURES = item_features its"
    "wm = 0 \<longrightarrow> feats AND NOT KNOWN_FEATURES = 0" using ok by (simp_all add: handoff_ok_def len n)
  have kf: "item_required its AND NOT feats = 0"
  proof (rule bit_eqI)
    fix m
    have "bit (item_required its AND NOT (item_features its)) m = bit 0 m" using required_features(1) [of its] by simp
    then show "bit (item_required its AND NOT feats) m = bit 0 m" unfolding o(4) [symmetric] by (auto simp: bit_simps)
  qed
  have "bslice d 0 8 = HB_MAGIC" by (simp add: d handoff_image_def image_with_def bslice_def)
  then show ?thesis using image_reads [OF ok d n] o kf required_features(2) [of its] len by simp
qed

lemma image_scan:
  assumes ok: "handoff_ok wm feats its" and d: "d = handoff_image wm feats its" and n: "n = length its"
  shows "rfold (decode_record d wm (int (length d))) [0..<n] (scan_start (64 + 32 * n)) = Inr (foldl sn_step (scan_start (64 + 32 * n)) its)"
proof -
  have len: "length d = 64 + 32 * n + length (body_bytes its)" by (simp add: d n)
  have o: "length d \<le> 1048576" "list_all (item_ok wm (int (length d))) its" "sorted_wrt (<) (0 # map it_type its)"
    using ok by (simp_all add: handoff_ok_def len n)
  have m8: "(64 + 32 * n) mod 8 = 0" by presburger
  have sl: "bslice d 64 (64 + 32 * n) = table_bytes (64 + 32 * n) its" "bslice d (64 + 32 * n) (64 + 32 * n + length (body_bytes its)) = body_bytes its"
    by (simp_all add: d handoff_image_def image_with_def bslice_def n)
  have bound: "64 + 32 * (0 + length its) \<le> length d" using len by (simp add: n)
  have "laid d wm 0 (64 + 32 * n) 0 its"
    unfolding laid_iff [OF m8 bound] using o sl len by (simp add: n [symmetric])
  then show ?thesis
    using decode_records_iff [of d "scan_start (64 + 32 * n)" "64 + 32 * n" wm 0 n, OF o(1) _ m8] by (auto simp: n)
qed

lemma decode_image:
  assumes ok: "handoff_ok wm feats its"
  shows "handoff_decode (handoff_image wm feats its) = Inr (handoff_of wm feats its)"
proof -
  define d where "d = handoff_image wm feats its"
  define n where "n = length its"
  note f = ok d_def n_def
  have len: "length d = 64 + 32 * n + length (body_bytes its)" by (simp add: d_def n_def)
  note reads = image_reads [OF f]
  have o: "feats AND KNOWN_FEATURES = item_features its" "feats AND 3 = 3" "item_required its AND 3 = 3"
    "validate_cross_records (handoff_of wm feats its) = Inr ()"
    using ok by (simp_all add: handoff_ok_def)
  have h: "handoff_at d (placed (64 + 32 * n) its) = handoff_of wm feats its"
    using reads len by (simp add: handoff_of_def d_def n_def)
  have "handoff_decode d = Inr (handoff_at d (placed (64 + 32 * n) its))"
    unfolding decode_unfold [OF reads(6)]
  proof (intro conjI [OF image_header [OF f]] exI conjI)
    show "rfold (decode_record d (rd 2 d 10) (int (length d))) [0..<n] (scan_start (64 + 32 * n)) =
      Inr (foldl sn_step (scan_start (64 + 32 * n)) its)" using image_scan [OF f] reads(2) by simp
  qed (unfold scan_end, insert reads o h len, simp_all)
  then show ?thesis by (simp add: h) (simp add: d_def)
qed

end
