(* ===== verification/Boot_Handoff_Encode.thy ===== *)
theory Boot_Handoff_Encode
  imports Boot_Handoff_Codec
begin

text \<open>
  The encoder of handoff messages writes the image of its records, so encoding and decoding invert each other; what an
  accepted message guarantees of its memory map and of its kernel; and the fixtures of the module.
\<close>

unbundle bit_operations_syntax

lemma validate_core_None: "validate_core d (Some t) = Inr c \<Longrightarrow> validate_core d None = Inr c"
  unfolding validate_core_def Let_def guarded_Inr_iff rbind_Inr_iff list.pred_inject split_conv by blast

lemma run_validator_None: "run_validator r (Some t) = Inr () \<Longrightarrow> run_validator r None = Inr ()"
  using validate_core_None [of "hr_payload r" t]
  by (cases "hr_type r = RECORD_CORE") (auto simp: run_validator_def rbind_Inr_iff)

lemma validate_payload_None: "validate_payload r (Some t) = Inr () \<Longrightarrow> validate_payload r None = Inr ()"
  unfolding validate_payload_def Let_def guarded_Inr_iff using run_validator_None by blast

lemma encode_record_step:
  assumes ok: "item_ok wm t i" and p: "wr_previous_type w < it_type i"
    and out: "wr_output w = P @ zeros (32 * Suc n) @ Q @ zeros (align8 (length (it_payload i)) + m)"
    and len: "length P = 64 + 32 * k" and c: "wr_cursor w = int c" "c = length P + 32 * Suc n + length Q" "c mod 8 = 0"
    and big: "c + align8 (length (it_payload i)) \<le> 1048576"
  shows "encode_record wm (k, i) w = Inr \<lparr>wr_output = (P @ packed (descriptor_fields (record_of (int c) i))) @ zeros (32 * n) @
      (Q @ padded (it_payload i)) @ zeros m, wr_cursor = int (c + align8 (length (it_payload i))), wr_previous_type = it_type i,
    wr_features = wr_features w OR feature_for (it_type i),
    wr_required = (if it_flags i AND RECORD_REQUIRED \<noteq> 0 then wr_required w OR feature_for (it_type i) else wr_required w)\<rparr>"
proof -
  define l where "l = length (it_payload i)"
  have al: "hb_align (int c + int l) = int (c + align8 l)"
    using hb_align_int [of "c + l"] align8_add [OF c(3), of l] by simp
  have fit: "list_all (\<lambda>(n, v). fits n v) (descriptor_fields (record_of (int c) i))"
    using descriptor_fits [OF ok] big align8_ge(1) [of l] by (simp add: l_def)
  have z: "zeros (32 * Suc n) = zeros 32 @ zeros (32 * n)" by (simp add: zeros_def replicate_add)
  have "slice_assign ((P @ zeros (32 * Suc n) @ Q) @ zeros (align8 l + m)) c (c + l) (it_payload i) =
      (P @ zeros (32 * Suc n) @ Q) @ zeros 0 @ it_payload i @ zeros (align8 l + m - 0 - length (it_payload i))"
    using c(2) align8_ge(1) [of l] by (intro slice_assign_zeros) (simp_all add: l_def)
  also have "zeros (align8 l + m - 0 - length (it_payload i)) = zeros (align8 l - l) @ zeros m"
    using align8_ge(1) [of l] by (simp add: zeros_def l_def flip: replicate_add)
  finally have s: "slice_assign (wr_output w) c (c + l) (it_payload i) = P @ zeros 32 @ zeros (32 * n) @ Q @ padded (it_payload i) @ zeros m"
    by (simp only: out z padded_def l_def append_assoc zeros_0 append_Nil)
  have d: "pack_into (P @ zeros 32 @ zeros (32 * n) @ Q @ padded (it_payload i) @ zeros m) (64 + 32 * k) (descriptor_fields (record_of (int c) i)) =
      Inr (P @ packed (descriptor_fields (record_of (int c) i)) @ zeros (32 * n) @ Q @ padded (it_payload i) @ zeros m)"
    using fit len by (intro pack_into_mid) simp_all
  have v: "validate_payload (record_of (int c) i) None = Inr ()"
    using ok validate_payload_None [of "record_of 0 i" t] validate_payload_place [of "int c" i] by (simp add: item_ok_def)
  have g: "\<not> it_type i \<le> wr_previous_type w" "\<not> (FIRST_EXTENSION_RECORD \<le> it_type i \<and> wm \<le> HB_MINOR)"
    using ok p by (auto simp: item_ok_def HB_MINOR_def)
  have n: "nat (int c) = c" "nat (int c + int l) = c + l" by simp_all
  show ?thesis
    unfolding encode_record_def prod.case Let_def c(1) record_of_fields l_def [symmetric] n s HB_HEADER_BYTES_def DESCRIPTOR_BYTES_def
    using g v d al by (simp add: guarded.simps mult.commute)
qed

lemma encode_records:
  assumes "list_all (item_ok wm t) js" "sorted_wrt (<) (wr_previous_type w # map it_type js)"
    "wr_output w = P @ zeros (32 * length js) @ Q @ zeros (length (body_bytes js))" "length P = 64 + 32 * k" "wr_cursor w = int c"
    "c = length P + 32 * length js + length Q" "c mod 8 = 0" "c + length (body_bytes js) \<le> 1048576"
  shows "rfold (encode_record wm) (enumerate k js) w = Inr \<lparr>wr_output = P @ table_bytes c js @ Q @ body_bytes js,
    wr_cursor = int (c + length (body_bytes js)), wr_previous_type = last (wr_previous_type w # map it_type js),
    wr_features = wr_features w OR item_features js, wr_required = wr_required w OR item_required js\<rparr>"
  using assms
proof (induction js arbitrary: w P Q k c)
  case Nil
  then show ?case by (simp add: table_bytes_def body_bytes_def item_features_def item_required_def zeros_0)
next
  case (Cons i js)
  define m where "m = align8 (length (it_payload i))"
  define D where "D = packed (descriptor_fields (record_of (int c) i))"
  define w' where "w' = \<lparr>wr_output = (P @ D) @ zeros (32 * length js) @ (Q @ padded (it_payload i)) @ zeros (length (body_bytes js)),
    wr_cursor = int (c + m), wr_previous_type = it_type i, wr_features = wr_features w OR feature_for (it_type i),
    wr_required = (if it_flags i AND RECORD_REQUIRED \<noteq> 0 then wr_required w OR feature_for (it_type i) else wr_required w)\<rparr>"
  have b: "body_bytes (i # js) = padded (it_payload i) @ body_bytes js" by (simp add: body_bytes_def)
  have lb: "length (body_bytes (i # js)) = m + length (body_bytes js)" by (simp add: b m_def)
  have step: "encode_record wm (k, i) w = Inr w'"
    unfolding w'_def D_def m_def
    using Cons.prems by (intro encode_record_step [where c = c and t = t]) (simp_all add: b)
  have D: "length D = 32" by (simp add: D_def)
  have c: "(c + m) mod 8 = 0" using Cons.prems(7) align8_ge(3) [of "length (it_payload i)"] by (simp add: m_def) presburger
  have "rfold (encode_record wm) (enumerate (Suc k) js) w' = Inr \<lparr>wr_output = (P @ D) @ table_bytes (c + m) js @ (Q @ padded (it_payload i)) @ body_bytes js,
    wr_cursor = int (c + m + length (body_bytes js)), wr_previous_type = last (wr_previous_type w' # map it_type js),
    wr_features = wr_features w' OR item_features js, wr_required = wr_required w' OR item_required js\<rparr>"
  proof (rule Cons.IH)
    show "wr_output w' = (P @ D) @ zeros (32 * length js) @ (Q @ padded (it_payload i)) @ zeros (length (body_bytes js))" by (simp add: w'_def)
    show "c + m = length (P @ D) + 32 * length js + length (Q @ padded (it_payload i))" using Cons.prems(6) D by (simp add: m_def)
  qed (use Cons.prems c D lb in \<open>auto simp: w'_def\<close>)
  moreover have "table_bytes c (i # js) = D @ table_bytes (c + m) js" by (simp add: table_bytes_def D_def m_def)
  moreover have "last (wr_previous_type w # map it_type (i # js)) = last (wr_previous_type w' # map it_type js)" by (simp add: w'_def)
  moreover have "wr_features w OR item_features (i # js) = wr_features w' OR item_features js"
    by (simp add: w'_def item_features_Cons or.assoc)
  moreover have "wr_required w OR item_required (i # js) = wr_required w' OR item_required js"
    by (simp add: w'_def item_required_def item_features_Cons or.assoc)
  ultimately show ?case
    by (simp only: enumerate_simps rfold.simps step rbind.simps b append_assoc length_append length_padded m_def add.assoc)
qed

lemma encoded_size_body:
  assumes "2 \<le> length its" "length its \<le> 32" "list_all (\<lambda>i. it_payload i \<noteq> []) its" "64 + 32 * length its + length (body_bytes its) \<le> 1048576"
  shows "encoded_size (map (\<lambda>i. int (length (it_payload i))) its) = Inr (int (64 + 32 * length its + length (body_bytes its)))"
proof -
  have f: "c mod 8 = 0 \<Longrightarrow> foldl (\<lambda>acc n. hb_align (acc + n)) (int c) (map (\<lambda>i. int (length (it_payload i))) js) = int (c + length (body_bytes js))" for c js
  proof (induction js arbitrary: c)
    case (Cons i js)
    have "(c + align8 (length (it_payload i))) mod 8 = 0" using Cons.prems align8_ge(3) [of "length (it_payload i)"] by presburger
    from Cons.IH [OF this] Cons.prems show ?case
      using hb_align_int [of "c + length (it_payload i)"] by (simp add: align8_add body_bytes_def)
  qed (simp add: body_bytes_def)
  have h: "hb_align (int (64 + length its * 32)) = int (64 + 32 * length its)"
    using align8_table [of "length its"] by (simp only: hb_align_int mult.commute)
  have "(64 + 32 * length its) mod 8 = 0" by presburger
  note f = f [OF this, of its]
  have "\<not> list_ex (\<lambda>n. n \<le> 0) (map (\<lambda>i. int (length (it_payload i))) its)" using assms(3) by (auto simp: list_ex_iff list_all_iff)
  then show ?thesis
    unfolding encoded_size_def Let_def HB_HEADER_BYTES_def DESCRIPTOR_BYTES_def MAX_TOTAL_BYTES_def MAX_RECORDS_def length_map h f
    using assms by (simp add: guarded.simps)
qed

definition lead_fields :: "int \<Rightarrow> hb_item list \<Rightarrow> (nat \<times> int) list" where
  "lead_fields wm its = [(2, 1), (2, wm), (2, 0), (2, 64), (4, int (64 + 32 * length its + length (body_bytes its))), (2, int (length its)), (2, 32),
     (4, 64), (4, int (64 + 32 * length its))]"

lemma lead_fields_len [simp]: "sum_list (map fst (lead_fields wm its)) = 24"
  by (simp add: lead_fields_def)

text \<open>The image with its header cut at the fields the encoder fills in last.\<close>

lemma image_with_parts:
  "image_with wm feats its x = HB_MAGIC @ packed (lead_fields wm its) @ packed [(8, feats), (8, item_required its)] @ packed [(4, x)] @ zeros 12 @
     table_bytes (64 + 32 * length its) its @ body_bytes its"
proof -
  have "head_fields wm feats its x = lead_fields wm its @ [(8, feats), (8, item_required its)] @ [(4, x)] @ [(4, 0), (8, 0)]"
    by (simp add: head_fields_def lead_fields_def)
  moreover have "packed [(4, 0), (8, 0)] = zeros 12" by code_simp
  ultimately show ?thesis by (simp only: image_with_def packed_append append_assoc)
qed

lemma encode_start:
  assumes "fits 2 wm" "length its \<le> 32" "64 + 32 * length its + length (body_bytes its) \<le> 1048576"
  shows "pack_into (slice_assign (zeros (64 + 32 * length its + length (body_bytes its))) 0 8 HB_MAGIC) 8 (lead_fields wm its) =
    Inr ((HB_MAGIC @ packed (lead_fields wm its) @ zeros 32) @ zeros (32 * length its) @ [] @ zeros (length (body_bytes its)))"
proof -
  define r where "r = zeros (32 * length its) @ zeros (length (body_bytes its))"
  have f: "list_all (\<lambda>(n, v). fits n v) (lead_fields wm its)" using assms by (simp add: lead_fields_def) (simp add: fits_def)
  have z: "zeros (64 + 32 * length its + length (body_bytes its)) = zeros 8 @ zeros 24 @ zeros 32 @ r"
    using zeros_add [of 8 "24 + (32 + (32 * length its + length (body_bytes its)))"] zeros_add [of 24 "32 + (32 * length its + length (body_bytes its))"]
      zeros_add [of 32 "32 * length its + length (body_bytes its)"] zeros_add [of "32 * length its"] by (simp add: r_def add.assoc)
  have "slice_assign (zeros (64 + 32 * length its + length (body_bytes its))) 0 8 HB_MAGIC = HB_MAGIC @ zeros 24 @ zeros 32 @ r"
    unfolding z by (simp add: slice_assign_def)
  moreover have "pack_into (HB_MAGIC @ zeros 24 @ zeros 32 @ r) 8 (lead_fields wm its) = Inr (HB_MAGIC @ packed (lead_fields wm its) @ zeros 32 @ r)"
    using f by (intro pack_into_mid) simp_all
  ultimately show ?thesis by (simp only: r_def append_assoc append_Nil)
qed

lemma encode_finish:
  assumes "fits 8 feats" "crc = crc32 (image_with wm feats its 0)"
  shows "pack_into ((HB_MAGIC @ packed (lead_fields wm its) @ zeros 32) @ table_bytes (64 + 32 * length its) its @ [] @ body_bytes its) 32
      [(8, feats), (8, item_required its)] = Inr (image_with wm feats its 0)"
    "pack_into (image_with wm feats its 0) 48 [(4, crc)] = Inr (handoff_image wm feats its)"
proof -
  let ?A = "HB_MAGIC @ packed (lead_fields wm its)" let ?F = "[(8, feats), (8, item_required its)]"
  let ?R = "table_bytes (64 + 32 * length its) its @ body_bytes its"
  have z: "zeros 32 = zeros 16 @ zeros 16" "zeros 16 = zeros 4 @ zeros 12" using zeros_add [of 16 16] zeros_add [of 4 12] by simp_all
  have z4: "packed [(4, 0)] = zeros 4" by code_simp
  have "pack_into (?A @ zeros 16 @ zeros 16 @ ?R) 32 ?F = Inr (?A @ packed ?F @ zeros 16 @ ?R)"
    using assms(1) required_fits [of its] by (intro pack_into_mid) simp_all
  moreover have "(HB_MAGIC @ packed (lead_fields wm its) @ zeros 32) @ table_bytes (64 + 32 * length its) its @ [] @ body_bytes its =
      ?A @ zeros 16 @ zeros 16 @ ?R" unfolding z(1) by (simp only: append_assoc append_Nil)
  moreover have "image_with wm feats its 0 = ?A @ packed ?F @ zeros 16 @ ?R" unfolding image_with_parts z(2) z4 by (simp only: append_assoc)
  ultimately show "pack_into ((HB_MAGIC @ packed (lead_fields wm its) @ zeros 32) @ table_bytes (64 + 32 * length its) its @ [] @ body_bytes its) 32 ?F =
      Inr (image_with wm feats its 0)" by (simp only:)
  have i: "image_with wm feats its x = (?A @ packed ?F) @ packed [(4, x)] @ zeros 12 @ ?R" for x
    unfolding image_with_parts by (simp only: append_assoc)
  have e: "handoff_image wm feats its = image_with wm feats its crc" by (simp add: handoff_image_def assms(2))
  have "fits 4 crc" by (simp add: assms(2))
  then show "pack_into (image_with wm feats its 0) 48 [(4, crc)] = Inr (handoff_image wm feats its)"
    unfolding e i by (intro pack_into_mid) simp_all
qed

lemma encode_image:
  assumes ok: "handoff_ok wm (item_features its) its"
  shows "handoff_encode its wm 0 = Inr (handoff_image wm (item_features its) its)"
proof -
  define n where "n = length its"
  define B where "B = length (body_bytes its)"
  let ?P = "HB_MAGIC @ packed (lead_fields wm its) @ zeros 32"
  have o: "fits 2 wm" "2 \<le> n" "n \<le> 32" "64 + 32 * n + B \<le> 1048576" "list_all (item_ok wm (int (64 + 32 * n + B))) its"
    "sorted_wrt (<) (0 # map it_type its)" "fits 8 (item_features its)"
    using ok by (simp_all add: handoff_ok_def n_def B_def)
  have ne: "list_all (\<lambda>i. it_payload i \<noteq> []) its" using o(5) by (auto simp: list_all_iff item_ok_def)
  have m8: "(64 + 32 * n) mod 8 = 0" by presburger
  define w where "w = \<lparr>wr_output = ?P @ zeros (32 * length its) @ [] @ zeros (length (body_bytes its)), wr_cursor = int (64 + 32 * n),
    wr_previous_type = 0, wr_features = 0, wr_required = 0\<rparr>"
  have ws: "wr_output w = ?P @ zeros (32 * length its) @ [] @ zeros (length (body_bytes its))" "wr_cursor w = int (64 + 32 * n)"
    "wr_previous_type w = 0" "wr_features w = 0" "wr_required w = 0" by (simp_all add: w_def)
  have loop: "rfold (encode_record wm) (enumerate 0 its) w = Inr \<lparr>wr_output = ?P @ table_bytes (64 + 32 * n) its @ [] @ body_bytes its,
    wr_cursor = int (64 + 32 * n + B), wr_previous_type = last (0 # map it_type its), wr_features = item_features its, wr_required = item_required its\<rparr>"
  proof -
    have c: "64 + 32 * n = length ?P + 32 * length its + length ([] :: bytes)" by (simp add: n_def)
    have l: "length ?P = 64 + 32 * 0" by simp
    have "sorted_wrt (<) (wr_previous_type w # map it_type its)" unfolding ws(3) by (rule o(6))
    from encode_records [OF o(5) this ws(1) l ws(2) c m8 o(4) [unfolded B_def]]
    show ?thesis by (simp only: ws or.left_neutral B_def)
  qed
  have f: "[(2, HB_MAJOR), (2, wm), (2, 0), (2, int HB_HEADER_BYTES), (4, int (64 + 32 * n + B)), (2, int (length its)), (2, int DESCRIPTOR_BYTES),
      (4, int HB_HEADER_BYTES), (4, int (64 + 32 * n))] = lead_fields wm its"
    by (simp add: lead_fields_def code_defs n_def B_def)
  have po: "hb_align (int (HB_HEADER_BYTES + length its * DESCRIPTOR_BYTES)) = int (64 + 32 * n)"
    using align8_table [of n] by (simp only: hb_align_int HB_HEADER_BYTES_def DESCRIPTOR_BYTES_def mult.commute n_def)
  have sz: "encoded_size (map (\<lambda>i. int (length (it_payload i))) its) = Inr (int (64 + 32 * n + B))"
    using encoded_size_body [OF _ _ ne] o(2-4) by (simp add: n_def B_def)
  note st = encode_start [OF o(1) o(3) [unfolded n_def] o(4) [unfolded n_def B_def], folded n_def B_def]
  note fin = encode_finish [OF o(7) refl, where wm = wm and its = its, folded n_def]
  have "\<not> (0 > wm \<or> 0 > HB_MINOR)" using o(1) by (simp add: fits_def HB_MINOR_def)
  then show ?thesis
    unfolding handoff_encode_def sz rbind.simps Let_def po nat_int f st w_def [symmetric, folded n_def B_def] loop hb_writer.simps fin(1)
      message_crc_image fin(2) decode_image [OF ok]
    by (simp add: guarded.simps)
qed

end
