(* ===== verification/Boot_Handoff_Safety.thy ===== *)
theory Boot_Handoff_Safety
  imports Boot_Handoff_Encode
begin

text \<open>
  What an accepted handoff message guarantees: the records its feature mask announces, the memory map, the
  kernel image and, for the kernel-entry profile, the state in which the kernel takes over.
\<close>

unbundle bit_operations_syntax

section \<open>The records of an accepted message\<close>

lemma set_placed: "r \<in> set (placed c its) \<Longrightarrow> \<exists>k. \<exists>i \<in> set its. r = record_of (int k) i"
proof (induction its arbitrary: c)
  case (Cons i its)
  then show ?case by (cases "r = record_of (int c) i") (auto, blast+)
qed simp

lemma placed_types: "map hr_type (placed c its) = map it_type its"
  by (induction its arbitrary: c) simp_all

lemma item_of_placed: "map item_of (placed c its) = its"
  by (induction its arbitrary: c) (simp_all add: item_of_def)

lemma decoded_record:
  assumes "handoff_decode d = Inr h" "r \<in> set (hf_records h)"
  shows "validate_payload r (Some (int (length d))) = Inr ()"
proof -
  obtain wm feats its where ok: "handoff_ok wm feats its" and d: "d = handoff_image wm feats its" and h: "h = handoff_of wm feats its"
    using decode_spelling [OF assms(1)] by blast
  obtain k i where i: "i \<in> set its" and r: "r = record_of (int k) i"
    using assms(2) set_placed by (fastforce simp: h handoff_of_def)
  have "item_ok wm (int (length d)) i" using ok i by (simp add: handoff_ok_def list_all_iff d handoff_image_def)
  then show ?thesis using validate_payload_place [of "int k" i] by (simp add: item_ok_def r)
qed

lemma bit_item_features:
  "bit (item_features its) n \<longleftrightarrow> n < 12 \<and> (\<exists>i \<in> set its. it_type i = int n + 1)"
proof (induction its)
  case (Cons i its)
  have "bit (feature_for (it_type i)) n \<longleftrightarrow> n < 12 \<and> it_type i = int n + 1"
    by (auto simp: feature_for_def code_defs bit_exp_iff)
  with Cons show ?case by (auto simp: item_features_Cons bit_or_iff)
qed (simp add: item_features_def)

lemma bit_known: "bit KNOWN_FEATURES n \<longleftrightarrow> n < 12"
  using bit_mask_iff [of 12 n, where 'a = int] by (simp add: KNOWN_FEATURES_def mask_eq_exp_minus_1)

lemma find_by: "t \<in> f ` set rs \<longleftrightarrow> (\<exists>r \<in> set rs. find (\<lambda>r. f r = t) rs = Some r \<and> f r = t)"
  by (induction rs) auto

text \<open>A known feature is announced exactly when its record is present.\<close>

lemma decoded_feature:
  assumes "handoff_decode d = Inr h" "1 \<le> t" "t \<le> 12"
  shows "bit (hf_features h) (nat (t - 1)) \<longleftrightarrow> (\<exists>r \<in> set (hf_records h). handoff_record h t = Some r \<and> hr_type r = t)"
proof -
  obtain wm feats its where ok: "handoff_ok wm feats its" and h: "h = handoff_of wm feats its"
    using decode_spelling [OF assms(1)] by blast
  have "bit feats (nat (t - 1)) \<longleftrightarrow> bit (item_features its) (nat (t - 1))"
  proof -
    have "feats AND KNOWN_FEATURES = item_features its" using ok by (simp add: handoff_ok_def)
    moreover have "nat (t - 1) < 12" using assms(2, 3) by linarith
    ultimately show ?thesis using bit_and_iff [of feats KNOWN_FEATURES "nat (t - 1)"] by (simp add: bit_known)
  qed
  also have "\<dots> \<longleftrightarrow> t \<in> set (map it_type its)" using assms(2, 3) by (auto simp: bit_item_features)
  also have "\<dots> \<longleftrightarrow> t \<in> set (map hr_type (hf_records h))" by (simp add: h handoff_of_def placed_types)
  also have "\<dots> \<longleftrightarrow> (\<exists>r \<in> set (hf_records h). handoff_record h t = Some r \<and> hr_type r = t)"
    by (simp add: handoff_record_def find_by)
  finally show ?thesis by (simp add: h handoff_of_def)
qed

section \<open>The memory map\<close>

definition region :: "bytes \<Rightarrow> nat \<Rightarrow> int \<times> int" where
  "region p k = (rd 8 p (k * 40), rd 8 p (k * 40) + rd 8 p (k * 40 + 8) * 4096)"

definition memory_regions :: "hb_record \<Rightarrow> (int \<times> int) list" where
  "memory_regions r = map (region (hr_payload r)) [0..<nat (hr_element_count r)]"

lemma range_end_Inr: "range_end a n = Inr e \<longleftrightarrow> 0 < n \<and> 0 \<le> a \<and> a + n < 2 ^ 64 \<and> e = a + n"
  by (auto simp: range_end_def guarded.simps)

lemma memory_entry_Inr:
  assumes "memory_entry p k e = Inr e'"
  shows "fst (region p k) mod 4096 = 0" "0 \<le> fst (region p k)" "fst (region p k) < snd (region p k)" "snd (region p k) < 2 ^ 64"
    "k \<noteq> 0 \<Longrightarrow> e \<le> fst (region p k)" "e' = snd (region p k)"
  using assms unfolding memory_entry_def Let_def guarded_Inr_iff rbind_Inr_iff range_end_Inr code_defs
  by (auto simp: region_def)

lemma memory_entries:
  assumes "rfold (memory_entry p) [k..<k + n] e = Inr e'"
  shows "(\<forall>a \<in> set (map (region p) [k..<k + n]). fst a mod 4096 = 0 \<and> 0 \<le> fst a \<and> fst a < snd a \<and> snd a < 2 ^ 64 \<and> (k \<noteq> 0 \<longrightarrow> e \<le> fst a)) \<and>
    sorted_wrt (\<lambda>a b. snd a \<le> fst b) (map (region p) [k..<k + n])"
  using assms
proof (induction n arbitrary: k e)
  case (Suc n)
  have u: "[k..<k + Suc n] = k # [Suc k..<Suc k + n]" by (simp add: upt_conv_Cons)
  obtain e1 where e1: "memory_entry p k e = Inr e1" and r: "rfold (memory_entry p) [Suc k..<Suc k + n] e1 = Inr e'"
    using Suc.prems unfolding u by (auto simp: rbind_Inr_iff)
  note m = memory_entry_Inr [OF e1]
  let ?L = "map (region p) [Suc k..<Suc k + n]"
  have ih: "\<forall>a \<in> set ?L. fst a mod 4096 = 0 \<and> 0 \<le> fst a \<and> fst a < snd a \<and> snd a < 2 ^ 64 \<and> snd (region p k) \<le> fst a"
    "sorted_wrt (\<lambda>a b. snd a \<le> fst b) ?L"
    using Suc.IH [OF r] by (auto simp: m(6))
  have "k \<noteq> 0 \<longrightarrow> (\<forall>a \<in> set (region p k # ?L). e \<le> fst a)"
    using m(3, 5) ih(1) by (metis dual_order.trans less_imp_le set_ConsD)
  with ih m(1-4) show ?case unfolding u list.map sorted_wrt.simps list.set by blast
qed simp

section \<open>The kernel artifact and the kernel-entry profile\<close>

definition art_role :: "bytes \<Rightarrow> nat \<Rightarrow> int" where "art_role p k = rd 4 p (k * 80)"
definition art_flags :: "bytes \<Rightarrow> nat \<Rightarrow> int" where "art_flags p k = rd 4 p (k * 80 + 4)"
definition art_range :: "bytes \<Rightarrow> nat \<Rightarrow> int list" where
  "art_range p k = [rd 8 p (k * 80 + 8), rd 8 p (k * 80 + 16), rd 8 p (k * 80 + 24), rd 8 p (k * 80 + 32), rd 8 p (k * 80 + 40)]"

definition core_range :: "hb_core \<Rightarrow> int list" where
  "core_range c = [co_kernel_physical_base c, co_kernel_physical_size c, co_kernel_virtual_base c, co_kernel_virtual_size c,
     co_kernel_entry_virtual c]"

lemma check_kernel_artifact_Inr:
  assumes "(k + 1) * 80 \<le> length p"
  shows "check_kernel_artifact c p k a = Inr b \<longleftrightarrow>
    (if art_role p k = 1 then art_range p k = core_range c \<and> b else b = a)"
  using assms
  by (auto simp: check_kernel_artifact_def hb_u32_def unpack_from_def art_role_def art_range_def core_range_def code_defs guarded.simps
    Let_def add.assoc split: if_splits)

lemma check_kernel_artifacts:
  assumes "rfold (check_kernel_artifact c p) [k..<k + n] a = Inr b" "(k + n) * 80 \<le> length p"
  shows "(\<forall>j \<in> {k..<k + n}. art_role p j = 1 \<longrightarrow> art_range p j = core_range c) \<and>
    (b \<longleftrightarrow> a \<or> (\<exists>j \<in> {k..<k + n}. art_role p j = 1))"
  using assms
proof (induction n arbitrary: k a)
  case (Suc n)
  have u: "[k..<k + Suc n] = k # [Suc k..<Suc k + n]" by (simp add: upt_conv_Cons)
  have s: "{k..<k + Suc n} = insert k {Suc k..<Suc k + n}" by auto
  obtain e where e: "check_kernel_artifact c p k a = Inr e" and r: "rfold (check_kernel_artifact c p) [Suc k..<Suc k + n] e = Inr b"
    using Suc.prems unfolding u by (auto simp: rbind_Inr_iff)
  have "if art_role p k = 1 then art_range p k = core_range c \<and> e else e = a"
    using e check_kernel_artifact_Inr [of k p c a e] Suc.prems(2) by simp
  moreover have "(Suc k + n) * 80 \<le> length p" using Suc.prems(2) by simp
  note Suc.IH [OF r this]
  ultimately show ?case unfolding s ball_simps bex_simps by argo
qed simp

lemma profile_artifact_Inr:
  assumes "(k + 1) * 80 \<le> length p"
  shows "profile_artifact p k a = Inr b \<longleftrightarrow>
    (if art_role p k \<in> {1, 2} then art_flags p k AND 3 = 3 \<and> b = a OR 2 ^ nat (art_role p k - 1) else b = a)"
  using assms by (auto simp: profile_artifact_def unpack_from_def art_role_def art_flags_def code_defs guarded.simps Let_def)

lemma profile_artifacts:
  assumes "rfold (profile_artifact p) [k..<k + n] a = Inr b" "(k + n) * 80 \<le> length p"
  shows "(\<forall>j \<in> {k..<k + n}. art_role p j \<in> {1, 2} \<longrightarrow> art_flags p j AND 3 = 3) \<and>
    (bit b 0 \<longleftrightarrow> bit a 0 \<or> (\<exists>j \<in> {k..<k + n}. art_role p j = 1)) \<and>
    (bit b 1 \<longleftrightarrow> bit a 1 \<or> (\<exists>j \<in> {k..<k + n}. art_role p j = 2))"
  using assms
proof (induction n arbitrary: k a)
  case (Suc n)
  have u: "[k..<k + Suc n] = k # [Suc k..<Suc k + n]" by (simp add: upt_conv_Cons)
  have s: "{k..<k + Suc n} = insert k {Suc k..<Suc k + n}" by auto
  obtain e where e: "profile_artifact p k a = Inr e" and r: "rfold (profile_artifact p) [Suc k..<Suc k + n] e = Inr b"
    using Suc.prems unfolding u by (auto simp: rbind_Inr_iff)
  have i: "if art_role p k \<in> {1, 2} then art_flags p k AND 3 = 3 \<and> e = a OR 2 ^ nat (art_role p k - 1) else e = a"
    using e profile_artifact_Inr [of k p a e] Suc.prems(2) by simp
  have b: "bit e 0 \<longleftrightarrow> bit a 0 \<or> art_role p k = 1" "bit e 1 \<longleftrightarrow> bit a 1 \<or> art_role p k = 2"
    using i by (auto simp: bit_or_iff bit_exp_iff split: if_splits)
  have v: "art_role p k \<in> {1, 2} \<longrightarrow> art_flags p k AND 3 = 3" using i by (auto split: if_splits)
  have "(Suc k + n) * 80 \<le> length p" using Suc.prems(2) by simp
  from Suc.IH [OF r this] show ?case unfolding s ball_simps bex_simps using b v by argo
qed simp

lemma validate_core_Inr:
  assumes "validate_core p (Some t) = Inr c"
  shows "c = core_at p" "\<not> core_value_bad c" "co_kernel_virtual_base c \<le> co_kernel_entry_virtual c"
    "co_kernel_entry_virtual c < co_kernel_virtual_base c + co_kernel_virtual_size c" "co_handoff_byte_count c = t"
  using assms unfolding validate_core_def Let_def guarded_Inr_iff rbind_Inr_iff range_end_Inr by auto

lemma handoff_record_in: "handoff_record h t = Some r \<Longrightarrow> r \<in> set (hf_records h) \<and> hr_type r = t"
  by (auto simp: handoff_record_def find_Some_iff)

lemma decoded_size: "handoff_decode d = Inr h \<Longrightarrow> hf_total_size h = int (length d)"
  using decode_spelling by (fastforce simp: handoff_of_def handoff_image_def)

lemma decoded_artifacts:
  assumes "handoff_decode d = Inr h" "handoff_record h RECORD_LOADED_ARTIFACTS = Some r"
  shows "length (hr_payload r) = nat (hr_element_count r) * 80"
proof -
  have "run_validator r (Some (int (length d))) = Inr ()" and t: "hr_type r = 5"
    using decoded_record [OF assms(1)] handoff_record_in [OF assms(2)]
    by (auto simp: validate_payload_def Let_def guarded_Inr_iff RECORD_LOADED_ARTIFACTS_def)
  then have "validate_artifacts (hr_payload r) (hr_element_count r) = Inr ()"
    by (simp add: run_validator_def Let_def RECORD_CORE_def RECORD_MEMORY_MAP_def RECORD_FRAMEBUFFER_def RECORD_FIRMWARE_TABLES_def
      RECORD_LOADED_ARTIFACTS_def)
  then show ?thesis by (auto simp: validate_artifacts_def guarded_Inr_iff ARTIFACT_ENTRY_BYTES_def)
qed

lemma decoded_random:
  assumes "handoff_decode d = Inr h" "handoff_record h RECORD_RANDOM_SEED = Some r"
  shows "rd 4 (hr_payload r) 0 \<noteq> 0 \<longrightarrow> any_byte (bslice (hr_payload r) 8 72)" "length (hr_payload r) = 72"
proof -
  have "run_validator r (Some (int (length d))) = Inr ()" and t: "hr_type r = 8"
    using decoded_record [OF assms(1)] handoff_record_in [OF assms(2)]
    by (auto simp: validate_payload_def Let_def guarded_Inr_iff RECORD_RANDOM_SEED_def)
  then have "validate_random (hr_payload r) = Inr ()"
    by (simp add: run_validator_def Let_def RECORD_CORE_def RECORD_MEMORY_MAP_def RECORD_FRAMEBUFFER_def RECORD_FIRMWARE_TABLES_def
      RECORD_LOADED_ARTIFACTS_def RECORD_COMMAND_LINE_def RECORD_BOOT_DEVICE_def RECORD_RANDOM_SEED_def)
  then show "rd 4 (hr_payload r) 0 \<noteq> 0 \<longrightarrow> any_byte (bslice (hr_payload r) 8 72)" "length (hr_payload r) = 72"
    by (auto simp: validate_random_def guarded_Inr_iff RANDOM_SEED_BYTES_def)
qed

lemma decoded_kernel:
  assumes "handoff_decode d = Inr h" "handoff_record h RECORD_LOADED_ARTIFACTS = Some r" "handoff_record h RECORD_CORE = Some core"
  shows "\<exists>j < nat (hr_element_count r). art_role (hr_payload r) j = 1 \<and> art_range (hr_payload r) j = core_range (core_at (hr_payload core))"
proof -
  have "validate_cross_records h = Inr ()" using decode_spelling [OF assms(1)] by (auto simp: handoff_ok_def)
  then obtain c where c: "validate_core (hr_payload core) (Some (hf_total_size h)) = Inr c"
    and k: "rfold (check_kernel_artifact c (hr_payload r)) [0..<0 + nat (hr_element_count r)] False = Inr True"
    unfolding validate_cross_records_def assms(2, 3) option.case guarded_Inr_iff rbind_Inr_iff by auto
  show ?thesis
    using check_kernel_artifacts [OF k] decoded_artifacts [OF assms(1, 2)] validate_core_Inr(1) [OF c] by auto
qed

section \<open>Messages as a codec\<close>

text \<open>Messages whose features this reader knows: the records and version numbers on one side, the bytes on the other.\<close>

definition encode_handoff :: "handoff \<Rightarrow> bytes res" where
  "encode_handoff h = handoff_encode (map item_of (hf_records h)) (hf_writer_minor h) (hf_minimum_reader_minor h)"

definition decode_known :: "bytes \<Rightarrow> handoff res" where
  "decode_known d = rbind (handoff_decode d) (\<lambda>h. guarded [(hf_features h AND NOT KNOWN_FEATURES \<noteq> 0, ''unknown feature'')] (Inr h))"

definition known_ok :: "handoff \<Rightarrow> bool" where
  "known_ok h \<longleftrightarrow> hf_minimum_reader_minor h = 0 \<and>
     handoff_ok (hf_writer_minor h) (item_features (map item_of (hf_records h))) (map item_of (hf_records h))"

definition handoff_view :: "handoff \<Rightarrow> hb_item list \<times> int \<times> int" where
  "handoff_view h = (map item_of (hf_records h), hf_writer_minor h, hf_minimum_reader_minor h)"

lemma decode_known_Inr: "decode_known d = Inr h \<longleftrightarrow> handoff_decode d = Inr h \<and> hf_features h AND NOT KNOWN_FEATURES = 0"
  by (auto simp: decode_known_def rbind_Inr_iff guarded_Inr_iff)

lemma item_features_known: "item_features its AND NOT KNOWN_FEATURES = 0"
  by (rule bit_eqI) (auto simp: bit_and_iff bit_not_iff bit_item_features bit_known)

lemma decode_known_encode:
  assumes "decode_known d = Inr h"
  shows "encode_handoff h = Inr d"
proof -
  obtain wm feats its where ok: "handoff_ok wm feats its" and d: "d = handoff_image wm feats its" and h: "h = handoff_of wm feats its"
    using decode_spelling [of d h] assms unfolding decode_known_Inr by blast
  have n: "feats AND NOT KNOWN_FEATURES = 0" "feats AND KNOWN_FEATURES = item_features its"
    using assms ok by (simp_all add: decode_known_Inr h handoff_of_def handoff_ok_def)
  have "bit KNOWN_FEATURES k" if "bit feats k" for k
    using bit_and_iff [of feats "NOT KNOWN_FEATURES" k] n(1) that by (simp add: bit_not_iff)
  then have f: "feats = item_features its"
    unfolding n(2) [symmetric] by (intro bit_eqI) (auto simp: bit_and_iff)
  show ?thesis using encode_image [OF ok [unfolded f]] by (simp add: encode_handoff_def h d f handoff_of_def item_of_placed)
qed

lemma encode_known_decode:
  assumes "known_ok h"
  shows "\<exists>d k. encode_handoff h = Inr d \<and> decode_known d = Inr k \<and> handoff_view k = handoff_view h"
proof -
  let ?its = "map item_of (hf_records h)"
  have ok: "handoff_ok (hf_writer_minor h) (item_features ?its) ?its" and m: "hf_minimum_reader_minor h = 0"
    using assms by (simp_all add: known_ok_def)
  have "decode_known (handoff_image (hf_writer_minor h) (item_features ?its) ?its) = Inr (handoff_of (hf_writer_minor h) (item_features ?its) ?its)"
    using decode_image [OF ok] item_features_known [of ?its] by (simp add: decode_known_Inr) (simp add: handoff_of_def)
  moreover have "encode_handoff h = Inr (handoff_image (hf_writer_minor h) (item_features ?its) ?its)"
    using encode_image [OF ok] m by (simp add: encode_handoff_def)
  ultimately show ?thesis using m by (auto simp: handoff_view_def handoff_of_def item_of_placed)
qed

interpretation handoff_codec: codec encode_handoff decode_known known_ok handoff_view
  by unfold_locales (fact encode_known_decode, fact decode_known_encode, simp add: encode_handoff_def handoff_view_def)

section \<open>Theorems\<close>

text \<open>
  C9. The memory map of an accepted handoff message exists and describes memory consistently: at least one region, every
  region page-aligned, non-empty and below \<open>2\<^sup>6\<^sup>4\<close>, and the regions in ascending order without overlap.
\<close>

theorem handoff_memory_disjoint:
  assumes "handoff_decode d = Inr h"
  shows "\<exists>r. handoff_record h RECORD_MEMORY_MAP = Some r \<and> memory_regions r \<noteq> [] \<and>
    (\<forall>a \<in> set (memory_regions r). fst a mod HB_PAGE_BYTES = 0 \<and> 0 \<le> fst a \<and> fst a < snd a \<and> snd a < 2 ^ 64) \<and>
    sorted_wrt (\<lambda>a b. snd a \<le> fst b) (memory_regions r)"
proof -
  have "hf_features h AND 3 = 3" using decode_spelling [OF assms] by (auto simp: handoff_ok_def handoff_of_def)
  then have "bit (hf_features h AND 3) 1" by simp
  then have "bit (hf_features h) (nat (2 - 1))" by (simp add: bit_and_iff)
  then obtain r where r: "r \<in> set (hf_records h)" "handoff_record h 2 = Some r" "hr_type r = 2"
    using decoded_feature [OF assms, of 2] by auto
  have "run_validator r (Some (int (length d))) = Inr ()"
    using decoded_record [OF assms r(1)] by (simp add: validate_payload_def Let_def guarded_Inr_iff)
  then have m: "validate_memory_map (hr_payload r) (hr_element_count r) = Inr ()"
    by (simp add: run_validator_def Let_def r(3) RECORD_CORE_def RECORD_MEMORY_MAP_def)
  then obtain e where "rfold (memory_entry (hr_payload r)) [0..<0 + nat (hr_element_count r)] 0 = Inr e" and n: "1 \<le> hr_element_count r"
    unfolding validate_memory_map_def guarded_Inr_iff rbind_Inr_iff by auto
  note memory_entries [OF this(1)]
  then show ?thesis using r n by (auto simp: memory_regions_def RECORD_MEMORY_MAP_def HB_PAGE_BYTES_def)
qed

text \<open>
  C5. A message that passes the kernel-entry profile hands the kernel a complete state: boot services are exited; the page
  table root and the stack are set and aligned; the core record names the size of this very message and an entry point inside
  the kernel's virtual range; the random seed has quality two or more and is not all zeros; and the artifact table holds a
  kernel whose hash and signature are verified and whose addresses are those of the core record, and a verified initial system.
\<close>

theorem handoff_kernel_entry:
  assumes "handoff_decode d = Inr h" "validate_kernel_entry_profile h = Inr ()"
  shows "\<exists>core random artifacts c p n. handoff_record h RECORD_CORE = Some core \<and> handoff_record h RECORD_RANDOM_SEED = Some random \<and>
    handoff_record h RECORD_LOADED_ARTIFACTS = Some artifacts \<and> c = core_at (hr_payload core) \<and> p = hr_payload artifacts \<and>
    n = nat (hr_element_count artifacts) \<and> co_boot_flags c AND BOOT_SERVICES_EXITED \<noteq> 0 \<and> transfer_state_valid c \<and>
    co_handoff_byte_count c = int (length d) \<and> co_kernel_virtual_base c \<le> co_kernel_entry_virtual c \<and>
    co_kernel_entry_virtual c < co_kernel_virtual_base c + co_kernel_virtual_size c \<and> 2 \<le> rd 4 (hr_payload random) 0 \<and>
    any_byte (bslice (hr_payload random) 8 72) \<and>
    (\<exists>j < n. art_role p j = ARTIFACT_KERNEL \<and> art_range p j = core_range c \<and> art_flags p j AND 3 = 3) \<and>
    (\<exists>j < n. art_role p j = ARTIFACT_INITIAL_SYSTEM \<and> art_flags p j AND 3 = 3)"
proof -
  obtain core random artifacts where r: "handoff_record h RECORD_CORE = Some core" "handoff_record h RECORD_RANDOM_SEED = Some random"
    "handoff_record h RECORD_LOADED_ARTIFACTS = Some artifacts"
    using assms(2) unfolding validate_kernel_entry_profile_def guarded_Inr_iff by (auto split: option.splits)
  obtain c where c: "validate_core (hr_payload core) (Some (hf_total_size h)) = Inr c" "co_boot_flags c AND BOOT_SERVICES_EXITED \<noteq> 0"
      "2 \<le> rd 4 (hr_payload random) 0"
    and p: "rfold (profile_artifact (hr_payload artifacts)) [0..<0 + nat (hr_element_count artifacts)] 0 = Inr 3"
    using assms(2) unfolding validate_kernel_entry_profile_def r option.case prod.case guarded_Inr_iff rbind_Inr_iff
    by (auto simp: hb_u32_def guarded_Inr_iff split: if_splits)
  note v = validate_core_Inr [OF c(1)]
  have e: "transfer_state_valid c" using v(2) by (simp add: core_value_bad_def)
  note s = decoded_random(1) [OF assms(1) r(2)]
  have "(0 + nat (hr_element_count artifacts)) * 80 \<le> length (hr_payload artifacts)" using decoded_artifacts [OF assms(1) r(3)] by simp
  note a = profile_artifacts [OF p this]
  obtain j where j: "j < nat (hr_element_count artifacts)" "art_role (hr_payload artifacts) j = 1"
      "art_range (hr_payload artifacts) j = core_range c"
    using decoded_kernel [OF assms(1) r(3, 1)] v(1) by blast
  obtain i where i: "i < nat (hr_element_count artifacts)" "art_role (hr_payload artifacts) i = 2"
    using a by auto
  have "art_flags (hr_payload artifacts) j AND 3 = 3" "art_flags (hr_payload artifacts) i AND 3 = 3" using a i j by auto
  then show ?thesis
    using r c v e s i j decoded_size [OF assms(1)] by (auto simp: ARTIFACT_KERNEL_def ARTIFACT_INITIAL_SYSTEM_def)
qed

text \<open>
  C20. Canonical form: an accepted message without features unknown to this reader is byte for byte what the encoder writes
  for the records the decoder returned, and no other such message carries the same records and versions.
\<close>

theorem handoff_reencode:
  assumes "handoff_decode d = Inr h" "hf_features h AND NOT KNOWN_FEATURES = 0"
  shows "handoff_encode (map item_of (hf_records h)) (hf_writer_minor h) (hf_minimum_reader_minor h) = Inr d \<and>
    (\<forall>e k. handoff_decode e = Inr k \<and> hf_features k AND NOT KNOWN_FEATURES = 0 \<and> handoff_view k = handoff_view h \<longrightarrow> e = d)"
proof -
  have k: "decode_known d = Inr h" using assms by (simp add: decode_known_Inr)
  show ?thesis
    using handoff_codec.enc_dec [OF k] handoff_codec.dec_inj [OF _ k] unfolding encode_handoff_def decode_known_Inr by blast
qed

text \<open>
  C21. Round trip: for records in the domain of the format, the encoder returns a message, and the decoder returns those
  records, their writer version and their features from it.
\<close>

theorem handoff_roundtrip:
  assumes "handoff_ok wm (item_features its) its"
  shows "\<exists>d h. handoff_encode its wm 0 = Inr d \<and> handoff_decode d = Inr h \<and> map item_of (hf_records h) = its \<and>
    hf_writer_minor h = wm \<and> hf_features h = item_features its \<and> hf_required_features h = item_required its"
  using encode_image [OF assms] decode_image [OF assms] by (auto simp: handoff_of_def item_of_placed)

end
