(* ===== verification/Boot_Handoff_Fixtures.thy ===== *)
theory Boot_Handoff_Fixtures
  imports Boot_Handoff_Safety Boot_Trust
begin

text \<open>
  The fixtures of the handoff module (\<open>_core_payload\<close>, \<open>_memory_payload\<close>, \<open>_full_payloads\<close>, \<open>build_fixture\<close>) and the
  checks \<open>make_golden_vectors\<close> makes on them; the theorems about accepted messages hold at these fixtures.
\<close>

unbundle bit_operations_syntax

section \<open>Fixtures\<close>

definition core_payload :: "int \<Rightarrow> int \<Rightarrow> bytes res" where
  "core_payload tot boot_flags = struct_pack [(8, boot_flags), (8, 0x00200000), (8, 0x00100000), (8, 0xFFFFFFFF80000000), (8, 0x00100000),
     (8, 0xFFFFFFFF80001000), (8, 0xFFFFFFFF80200000), (8, 0x003F0000), (8, 0x00380000), (8, 0xFFFF800000380000), (8, tot), (8, 0), (8, 0),
     (4, 1), (4, 3), (4, 1), (4, 1), (4, 0x00020064), (4, 0)]"

definition memory_payload :: bytes where
  "memory_payload = concat (map packed [
     [(8, 0x000F0000), (8, 16), (8, 0), (4, MEMORY_ACPI_RECLAIMABLE), (4, 9), (8, 0)],
     [(8, 0x00100000), (8, 256), (8, 0), (4, MEMORY_USABLE), (4, 7), (8, 0)],
     [(8, 0x00200000), (8, 512), (8, 0), (4, MEMORY_LOADER_RESERVED), (4, 2), (8, 0)],
     [(8, 0x00400000), (8, 4096), (8, 0), (4, MEMORY_USABLE), (4, 7), (8, 0)],
     [(8, 0x80000000), (8, 1000), (8, 0), (4, MEMORY_FRAMEBUFFER), (4, 11), (8, 0)]])"

definition hb_entry :: "int \<Rightarrow> int \<Rightarrow> int \<Rightarrow> int \<Rightarrow> bytes \<Rightarrow> hb_item" where
  "hb_entry t flags esize n payload = \<lparr>it_type = t, it_revision = 1, it_flags = flags, it_element_size = esize, it_element_count = n,
     it_payload = payload\<rparr>"

definition full_framebuffer :: bytes where
  "full_framebuffer = packed [(8, 0x80000000), (8, 4096000), (4, 1280), (4, 800), (4, 1280), (4, 2), (4, 0x00FF0000), (4, 0x0000FF00),
     (4, 0x000000FF), (4, 0xFF000000)]"

definition acpi_guid :: bytes where
  "acpi_guid = [0x88, 0x68, 0xE8, 0x71, 0xE4, 0xF1, 0x11, 0xD3, 0xBC, 0x22, 0x00, 0x80, 0xC7, 0x3C, 0x88, 0x81]"

definition smbios_guid :: bytes where
  "smbios_guid = [0xF2, 0xFD, 0x15, 0x44, 0x97, 0x94, 0x4A, 0x2C, 0x99, 0x2E, 0xE5, 0xBB, 0xCF, 0x20, 0xE3, 0x94]"

definition full_firmware :: bytes where
  "full_firmware = acpi_guid @ packed [(8, 0x000F0000), (8, 36), (4, 7), (4, 0)] @ smbios_guid @ packed [(8, 0x000F1000), (8, 24), (4, 7), (4, 0)]"

definition full_artifacts :: bytes where
  "full_artifacts =
     packed [(4, ARTIFACT_KERNEL), (4, ARTIFACT_HASH_VERIFIED OR ARTIFACT_SIGNATURE_VERIFIED OR ARTIFACT_MEASURED OR ARTIFACT_EXECUTABLE),
       (8, 0x00200000), (8, 0x00100000), (8, 0xFFFFFFFF80000000), (8, 0x00100000), (8, 0xFFFFFFFF80001000)] @
     sha256 (ascii_bytes ''PBP1 synthetic kernel fixture'') @
     packed [(4, ARTIFACT_INITIAL_SYSTEM), (4, ARTIFACT_HASH_VERIFIED OR ARTIFACT_SIGNATURE_VERIFIED OR ARTIFACT_MEASURED),
       (8, 0x00300000), (8, 0x00040000), (8, 0), (8, 0), (8, 0)] @
     sha256 (ascii_bytes ''PBP1 synthetic initial-system fixture'')"

definition full_boot_device :: bytes where
  "full_boot_device = [0x50, 0x4F, 0x4F, 0x4C, 0x45, 0x4F, 0x53, 0x4E, 0x80, 0, 0, 0, 0, 0, 0, 0x97] @
     [0x50, 0x4F, 0x4F, 0x4C, 0x45, 0x53, 0x50, 0x00, 0x80, 0, 0, 0, 0, 0, 0, 0x01] @
     packed [(8, 2048), (8, 131039), (4, 512), (4, 1)] @ sha256 (ascii_bytes ''PBP1 synthetic UEFI device path'') @ zeros 8"

definition full_random_seed :: bytes where
  "full_random_seed = packed [(4, 3), (4, 7)] @ map word_of_nat [0..<64]"

definition full_early_log :: bytes where
  "full_early_log = packed [(8, 4), (4, 0), (2, 1), (2, 0)] @ ascii_bytes ''POOLEBOOT PBP1 synthetic fixture'' @ [10]"

definition full_cpu :: bytes where
  "full_cpu = packed [(4, 0), (4, 3), (2, 52), (2, 48), (4, 0), (8, 0xFFFFFFFF801F0000), (8, 0x00010000), (4, 4), (4, 4096)] @ zeros 24"

definition full_timestamps :: bytes where
  "full_timestamps = packed [(8, 7), (8, 42), (8, 1000000), (8, 1250000), (8, 1000000000), (8, 1783853200)]"

definition full_tcg :: bytes where
  "full_tcg = packed [(8, 0x00370000), (8, 0x00010000), (4, 2), (4, 1)] @ sha256 (ascii_bytes ''PBP1 synthetic TCG event log'')"

definition full_payloads :: "int \<Rightarrow> hb_item list res" where
  "full_payloads tot =
     rbind (core_payload tot (BOOT_SERVICES_EXITED OR SECURE_BOOT_ENABLED OR SECURE_BOOT_VERIFIED OR MEASURED_BOOT_ACTIVE)) (\<lambda>core.
     Inr [hb_entry RECORD_CORE RECORD_REQUIRED (int CORE_BYTES) 1 core,
       hb_entry RECORD_MEMORY_MAP (RECORD_REQUIRED OR RECORD_ARRAY) (int MEMORY_ENTRY_BYTES)
         (int (length memory_payload) div int MEMORY_ENTRY_BYTES) memory_payload,
       hb_entry RECORD_FRAMEBUFFER 0 (int FRAMEBUFFER_BYTES) 1 full_framebuffer,
       hb_entry RECORD_FIRMWARE_TABLES (RECORD_REQUIRED OR RECORD_ARRAY) (int FIRMWARE_TABLE_ENTRY_BYTES) 2 full_firmware,
       hb_entry RECORD_LOADED_ARTIFACTS (RECORD_REQUIRED OR RECORD_ARRAY) (int ARTIFACT_ENTRY_BYTES) 2 full_artifacts,
       hb_entry RECORD_COMMAND_LINE 0 0 0 (ascii_bytes ''root=poolefs:slot-a quiet''),
       hb_entry RECORD_BOOT_DEVICE RECORD_REQUIRED (int BOOT_DEVICE_BYTES) 1 full_boot_device,
       hb_entry RECORD_RANDOM_SEED (RECORD_REQUIRED OR RECORD_REDACT) (int RANDOM_SEED_BYTES) 1 full_random_seed,
       hb_entry RECORD_EARLY_LOG 0 0 0 full_early_log,
       hb_entry RECORD_CPU_BOOTSTRAP RECORD_REQUIRED (int CPU_BOOTSTRAP_BYTES) 1 full_cpu,
       hb_entry RECORD_BOOT_TIMESTAMPS 0 (int BOOT_TIMESTAMPS_BYTES) 1 full_timestamps,
       hb_entry RECORD_TCG_EVENT_LOG 0 (int TCG_EVENT_LOG_BYTES) 1 full_tcg])"

definition base_records :: "int \<Rightarrow> hb_item list res" where
  "base_records tot = rbind (core_payload tot BOOT_SERVICES_EXITED) (\<lambda>core.
     Inr [hb_entry RECORD_CORE RECORD_REQUIRED (int CORE_BYTES) 1 core,
       hb_entry RECORD_MEMORY_MAP (RECORD_REQUIRED OR RECORD_ARRAY) (int MEMORY_ENTRY_BYTES)
         (int (length memory_payload) div int MEMORY_ENTRY_BYTES) memory_payload])"

definition build_handoff_fixture :: "string \<Rightarrow> bytes res" where
  "build_handoff_fixture vector_id =
     (if vector_id = ''minimal_v1'' then
        rbind (encoded_size [int CORE_BYTES, int (length memory_payload)]) (\<lambda>tot.
        rbind (base_records tot) (\<lambda>records. handoff_encode records 0 0))
      else if vector_id = ''forward_optional_v1_1'' then
        let extension = ascii_bytes ''future'' in
        rbind (encoded_size [int CORE_BYTES, int (length memory_payload), int (length extension)]) (\<lambda>tot.
        rbind (base_records tot) (\<lambda>records.
        handoff_encode (records @ [hb_entry FIRST_EXTENSION_RECORD 0 0 0 extension]) 1 0))
      else if vector_id = ''full_kernel_entry_v1'' then
        rbind (full_payloads 1) (\<lambda>placeholder.
        rbind (encoded_size (map (\<lambda>i. int (length (it_payload i))) placeholder)) (\<lambda>tot.
        rbind (full_payloads tot) (\<lambda>records. handoff_encode records 0 0)))
      else Inl (Fail ''unknown fixture''))"

section \<open>Checks\<close>

lemma one_block: "compress st b = st' \<Longrightarrow> length b = 16 \<Longrightarrow> hash_blocks st (b @ []) = st'"
  by (subst hash_blocks.simps, simp) (subst hash_blocks.simps, simp)

definition kernel_digest :: bytes where
  "kernel_digest = [0x4B, 0x6D, 0x8F, 0x44, 0x74, 0xC1, 0x42, 0xA8, 0x83, 0x5B, 0xA2, 0x2E, 0x53, 0x5E, 0xC7, 0x2D,
     0xC0, 0x9B, 0x4F, 0x54, 0x18, 0xC3, 0x6E, 0xD9, 0xB8, 0xBD, 0x2B, 0xB6, 0xD7, 0x6B, 0x99, 0x68]"

definition initial_digest :: bytes where
  "initial_digest = [0x6B, 0x82, 0xDA, 0x1A, 0xBD, 0x55, 0x8D, 0xE9, 0x1E, 0x36, 0xB4, 0xE1, 0x4B, 0x72, 0x0B, 0x2F,
     0xE5, 0x20, 0x7E, 0x05, 0x3D, 0xA4, 0x66, 0x29, 0x0E, 0x7D, 0xD8, 0xF9, 0x73, 0x8A, 0xD1, 0xE9]"

definition device_digest :: bytes where
  "device_digest = [0x31, 0x83, 0x98, 0xF7, 0x66, 0x0E, 0xAE, 0x9B, 0xE2, 0x48, 0x87, 0x94, 0xF9, 0x93, 0x7C, 0x8C,
     0x76, 0x26, 0x71, 0xA5, 0xA1, 0xD4, 0x5D, 0xC9, 0xCA, 0x5D, 0x5E, 0xF0, 0x7D, 0x53, 0x48, 0xCF]"

definition tcg_digest :: bytes where
  "tcg_digest = [0xDA, 0xC8, 0x3F, 0xD7, 0xE7, 0x99, 0x2A, 0xC6, 0xE1, 0x61, 0x59, 0x88, 0xEC, 0xB0, 0x61, 0xBA,
     0x87, 0xA1, 0x19, 0x2D, 0x6C, 0xB3, 0x78, 0xDD, 0x11, 0x60, 0x70, 0x7B, 0x7A, 0x44, 0xB8, 0x3A]"

lemma kernel_sha256: "sha256 (ascii_bytes ''PBP1 synthetic kernel fixture'') = kernel_digest"
proof -
  have w: "be_words (pad_message (ascii_bytes ''PBP1 synthetic kernel fixture'')) =
    [0x50425031, 0x2073796E, 0x74686574, 0x6963206B, 0x65726E65, 0x6C206669, 0x78747572, 0x65800000, 0x0, 0x0, 0x0, 0x0, 0x0, 0x0, 0x0, 0xE8] @ []"
    by code_simp
  have "compress initial_hash
    [0x50425031, 0x2073796E, 0x74686574, 0x6963206B, 0x65726E65, 0x6C206669, 0x78747572, 0x65800000, 0x0, 0x0, 0x0, 0x0, 0x0, 0x0, 0x0, 0xE8] =
    (0x4B6D8F44, 0x74C142A8, 0x835BA22E, 0x535EC72D, 0xC09B4F54, 0x18C36ED9, 0xB8BD2BB6, 0xD76B9968)"
    by code_simp
  then have "hash_blocks initial_hash (be_words (pad_message (ascii_bytes ''PBP1 synthetic kernel fixture''))) =
    (0x4B6D8F44, 0x74C142A8, 0x835BA22E, 0x535EC72D, 0xC09B4F54, 0x18C36ED9, 0xB8BD2BB6, 0xD76B9968)"
    unfolding w by (rule one_block) simp
  then show ?thesis unfolding sha256_def by (simp only:) code_simp
qed

lemma initial_sha256: "sha256 (ascii_bytes ''PBP1 synthetic initial-system fixture'') = initial_digest"
proof -
  have w: "be_words (pad_message (ascii_bytes ''PBP1 synthetic initial-system fixture'')) =
    [0x50425031, 0x2073796E, 0x74686574, 0x69632069, 0x6E697469, 0x616C2D73, 0x79737465, 0x6D206669, 0x78747572, 0x65800000, 0x0, 0x0, 0x0, 0x0, 0x0, 0x128] @ []"
    by code_simp
  have "compress initial_hash
    [0x50425031, 0x2073796E, 0x74686574, 0x69632069, 0x6E697469, 0x616C2D73, 0x79737465, 0x6D206669, 0x78747572, 0x65800000, 0x0, 0x0, 0x0, 0x0, 0x0, 0x128] =
    (0x6B82DA1A, 0xBD558DE9, 0x1E36B4E1, 0x4B720B2F, 0xE5207E05, 0x3DA46629, 0xE7DD8F9, 0x738AD1E9)"
    by code_simp
  then have "hash_blocks initial_hash (be_words (pad_message (ascii_bytes ''PBP1 synthetic initial-system fixture''))) =
    (0x6B82DA1A, 0xBD558DE9, 0x1E36B4E1, 0x4B720B2F, 0xE5207E05, 0x3DA46629, 0xE7DD8F9, 0x738AD1E9)"
    unfolding w by (rule one_block) simp
  then show ?thesis unfolding sha256_def by (simp only:) code_simp
qed

lemma device_sha256: "sha256 (ascii_bytes ''PBP1 synthetic UEFI device path'') = device_digest"
proof -
  have w: "be_words (pad_message (ascii_bytes ''PBP1 synthetic UEFI device path'')) =
    [0x50425031, 0x2073796E, 0x74686574, 0x69632055, 0x45464920, 0x64657669, 0x63652070, 0x61746880, 0x0, 0x0, 0x0, 0x0, 0x0, 0x0, 0x0, 0xF8] @ []"
    by code_simp
  have "compress initial_hash
    [0x50425031, 0x2073796E, 0x74686574, 0x69632055, 0x45464920, 0x64657669, 0x63652070, 0x61746880, 0x0, 0x0, 0x0, 0x0, 0x0, 0x0, 0x0, 0xF8] =
    (0x318398F7, 0x660EAE9B, 0xE2488794, 0xF9937C8C, 0x762671A5, 0xA1D45DC9, 0xCA5D5EF0, 0x7D5348CF)"
    by code_simp
  then have "hash_blocks initial_hash (be_words (pad_message (ascii_bytes ''PBP1 synthetic UEFI device path''))) =
    (0x318398F7, 0x660EAE9B, 0xE2488794, 0xF9937C8C, 0x762671A5, 0xA1D45DC9, 0xCA5D5EF0, 0x7D5348CF)"
    unfolding w by (rule one_block) simp
  then show ?thesis unfolding sha256_def by (simp only:) code_simp
qed

lemma tcg_sha256: "sha256 (ascii_bytes ''PBP1 synthetic TCG event log'') = tcg_digest"
proof -
  have w: "be_words (pad_message (ascii_bytes ''PBP1 synthetic TCG event log'')) =
    [0x50425031, 0x2073796E, 0x74686574, 0x69632054, 0x43472065, 0x76656E74, 0x206C6F67, 0x80000000, 0x0, 0x0, 0x0, 0x0, 0x0, 0x0, 0x0, 0xE0] @ []"
    by code_simp
  have "compress initial_hash
    [0x50425031, 0x2073796E, 0x74686574, 0x69632054, 0x43472065, 0x76656E74, 0x206C6F67, 0x80000000, 0x0, 0x0, 0x0, 0x0, 0x0, 0x0, 0x0, 0xE0] =
    (0xDAC83FD7, 0xE7992AC6, 0xE1615988, 0xECB061BA, 0x87A1192D, 0x6CB378DD, 0x1160707B, 0x7A44B83A)"
    by code_simp
  then have "hash_blocks initial_hash (be_words (pad_message (ascii_bytes ''PBP1 synthetic TCG event log''))) =
    (0xDAC83FD7, 0xE7992AC6, 0xE1615988, 0xECB061BA, 0x87A1192D, 0x6CB378DD, 0x1160707B, 0x7A44B83A)"
    unfolding w by (rule one_block) simp
  then show ?thesis unfolding sha256_def by (simp only:) code_simp
qed

end
