(* ===== verification/Boot_Handoff_Samples.thy ===== *)
theory Boot_Handoff_Samples
  imports Boot_Handoff_Fixtures
begin

text \<open>
  The fixtures are in the domain of the format, so the encoder returns them and the decoder accepts them; the theorems about
  accepted messages are applied to them here.
\<close>

unbundle bit_operations_syntax

section \<open>Evaluation without checksums\<close>

definition plain_record :: "hb_item \<Rightarrow> hb_record" where
  "plain_record i = (record_of 0 i)\<lparr>hr_content_crc32 := 0\<rparr>"

lemma plain_record_code [code]:
  "plain_record i = \<lparr>hr_type = it_type i, hr_revision = it_revision i, hr_flags = it_flags i, hr_offset = 0,
     hr_length = int (length (it_payload i)), hr_element_size = it_element_size i, hr_element_count = it_element_count i,
     hr_content_crc32 = 0, hr_payload = it_payload i\<rparr>"
  by (simp add: plain_record_def record_of_def)

lemma validate_payload_plain: "validate_payload (record_of 0 i) t = validate_payload (plain_record i) t"
  by (simp add: validate_payload_def run_validator_def plain_record_def record_of_def)

definition item_okb :: "int \<Rightarrow> int \<Rightarrow> hb_item \<Rightarrow> bool" where
  "item_okb wm tot i \<longleftrightarrow> it_payload i \<noteq> [] \<and> fits 2 (it_type i) \<and> fits 2 (it_revision i) \<and> fits 4 (it_flags i) \<and>
     fits 2 (it_element_size i) \<and> fits 2 (it_element_count i) \<and> validate_payload (plain_record i) (Some tot) = Inr () \<and>
     (FIRST_EXTENSION_RECORD \<le> it_type i \<longrightarrow> 0 < wm)"

lemma item_ok_code: "item_ok = item_okb"
  by (intro ext) (simp add: item_ok_def item_okb_def validate_payload_plain)

lemma find_placed:
  "find (\<lambda>i. it_type i = t) its = Some i \<Longrightarrow> \<exists>k. find (\<lambda>r. hr_type r = t) (placed c its) = Some (record_of k i)"
  by (induction its arbitrary: c) (auto split: if_splits)

lemma find_placed_None: "find (\<lambda>i. it_type i = t) its = None \<Longrightarrow> find (\<lambda>r. hr_type r = t) (placed c its) = None"
  by (induction its arbitrary: c) (auto split: if_splits)

lemma handoff_of_record:
  "find (\<lambda>i. it_type i = t) its = Some i \<Longrightarrow> \<exists>k. handoff_record (handoff_of wm f its) t = Some (record_of k i)"
  "find (\<lambda>i. it_type i = t) its = None \<Longrightarrow> handoff_record (handoff_of wm f its) t = None"
  using find_placed find_placed_None by (fastforce simp: handoff_record_def handoff_of_def)+

section \<open>The fixtures in the domain of the format\<close>

definition fixture_core :: "int \<Rightarrow> int \<Rightarrow> bytes" where
  "fixture_core tot flags = packed [(8, flags), (8, 0x00200000), (8, 0x00100000), (8, 0xFFFFFFFF80000000), (8, 0x00100000),
     (8, 0xFFFFFFFF80001000), (8, 0xFFFFFFFF80200000), (8, 0x003F0000), (8, 0x00380000), (8, 0xFFFF800000380000), (8, tot), (8, 0), (8, 0),
     (4, 1), (4, 3), (4, 1), (4, 1), (4, 0x00020064), (4, 0)]"

lemma core_payload_Inr: "fits 8 tot \<Longrightarrow> fits 8 flags \<Longrightarrow> core_payload tot flags = Inr (fixture_core tot flags)"
  by (simp add: core_payload_def struct_pack_def fixture_core_def) (simp add: fits_def)

lemma cross_records_artifacts:
  assumes "find (\<lambda>i. it_type i = 1) its = Some core" "int (64 + 32 * length its + length (body_bytes its)) = t" "validate_core (it_payload core) (Some t) = Inr c"
    "co_boot_flags c AND MEASURED_BOOT_ACTIVE = 0 \<or> f AND FEATURE_TCG_EVENT_LOG \<noteq> 0"
    "find (\<lambda>i. it_type i = 5) its = Some a" "rfold (check_kernel_artifact c (it_payload a)) [0..<nat (it_element_count a)] False = Inr True"
  shows "validate_cross_records (handoff_of wm f its) = Inr ()"
proof -
  obtain j k where r: "handoff_record (handoff_of wm f its) RECORD_CORE = Some (record_of j core)"
    "handoff_record (handoff_of wm f its) RECORD_LOADED_ARTIFACTS = Some (record_of k a)"
    using handoff_of_record(1) assms(1, 5) unfolding RECORD_CORE_def RECORD_LOADED_ARTIFACTS_def by blast
  have t: "hf_total_size (handoff_of wm f its) = t" "hf_features (handoff_of wm f its) = f"
    using assms(2) by (simp_all add: handoff_of_def)
  show ?thesis unfolding validate_cross_records_def r option.case t record_of_fields assms(3) rbind.simps
    using assms(4, 6) by (simp add: guarded.simps)
qed

lemma cross_records_base:
  assumes "find (\<lambda>i. it_type i = 1) its = Some core" "int (64 + 32 * length its + length (body_bytes its)) = t" "validate_core (it_payload core) (Some t) = Inr c"
    "co_boot_flags c AND MEASURED_BOOT_ACTIVE = 0" "find (\<lambda>i. it_type i = 5) its = None"
  shows "validate_cross_records (handoff_of wm f its) = Inr ()"
proof -
  obtain j where r: "handoff_record (handoff_of wm f its) RECORD_CORE = Some (record_of j core)"
    "handoff_record (handoff_of wm f its) RECORD_LOADED_ARTIFACTS = None"
    using handoff_of_record assms(1, 5) unfolding RECORD_CORE_def RECORD_LOADED_ARTIFACTS_def by blast
  have t: "hf_total_size (handoff_of wm f its) = t" "hf_features (handoff_of wm f its) = f"
    using assms(2) by (simp_all add: handoff_of_def)
  show ?thesis unfolding validate_cross_records_def r option.case t record_of_fields assms(3) rbind.simps
    using assms(4) by (simp add: guarded.simps)
qed

definition minimal_items :: "hb_item list" where
  "minimal_items = [hb_entry 1 1 128 1 (fixture_core 456 1), hb_entry 2 3 40 5 memory_payload]"

definition forward_items :: "hb_item list" where
  "forward_items = [hb_entry 1 1 128 1 (fixture_core 496 1), hb_entry 2 3 40 5 memory_payload,
     hb_entry 0x8000 0 0 0 (ascii_bytes ''future'')]"

definition full_items :: "hb_item list" where
  "full_items = [hb_entry 1 1 128 1 (fixture_core 1488 15), hb_entry 2 3 40 5 memory_payload, hb_entry 3 0 48 1 full_framebuffer,
     hb_entry 4 3 40 2 full_firmware, hb_entry 5 3 80 2 full_artifacts, hb_entry 6 0 0 0 (ascii_bytes ''root=poolefs:slot-a quiet''),
     hb_entry 7 1 96 1 full_boot_device, hb_entry 8 5 72 1 full_random_seed, hb_entry 9 0 0 0 full_early_log, hb_entry 10 1 64 1 full_cpu,
     hb_entry 11 0 48 1 full_timestamps, hb_entry 12 0 56 1 full_tcg]"

lemma fixture_items_ok:
  "list_all (item_okb 0 456) minimal_items" "list_all (item_okb 1 496) forward_items"
  by code_simp+

lemma full_early_log_ok: "item_okb 0 1488 (hb_entry 9 0 0 0 full_early_log)"
proof -
  have "utf8_decode (drop 16 full_early_log) \<noteq> None" "rd 2 full_early_log 12 = 1" "rd 2 full_early_log 14 = 0" "full_early_log \<noteq> []" by code_simp+
  moreover have "length full_early_log = 49" by (simp add: full_early_log_def ascii_bytes_def)
  ultimately have "validate_early_log full_early_log = Inr ()"
    by (simp add: validate_early_log_def guarded.simps EARLY_LOG_HEADER_BYTES_def)
  with \<open>full_early_log \<noteq> []\<close> show ?thesis
    by (simp add: item_okb_def hb_entry_def plain_record_code validate_payload_def run_validator_def structural_flags_def guarded.simps fits_def
      code_defs)
qed

lemma full_items_ok: "list_all (item_okb 0 1488) full_items"
proof -
  have "item_okb 0 1488 (hb_entry 1 1 128 1 (fixture_core 1488 15))" "item_okb 0 1488 (hb_entry 2 3 40 5 memory_payload)"
    "item_okb 0 1488 (hb_entry 3 0 48 1 full_framebuffer)" "item_okb 0 1488 (hb_entry 4 3 40 2 full_firmware)"
    "item_okb 0 1488 (hb_entry 6 0 0 0 (ascii_bytes ''root=poolefs:slot-a quiet''))" "item_okb 0 1488 (hb_entry 8 5 72 1 full_random_seed)"
    "item_okb 0 1488 (hb_entry 10 1 64 1 full_cpu)"
    "item_okb 0 1488 (hb_entry 11 0 48 1 full_timestamps)"
    by code_simp+
  moreover have "item_okb 0 1488 (hb_entry 5 3 80 2 full_artifacts)" "item_okb 0 1488 (hb_entry 7 1 96 1 full_boot_device)"
    "item_okb 0 1488 (hb_entry 12 0 56 1 full_tcg)"
    unfolding full_artifacts_def full_boot_device_def full_tcg_def kernel_sha256 initial_sha256 device_sha256 tcg_sha256
    by code_simp+
  moreover note full_early_log_ok
  ultimately show ?thesis by (simp add: full_items_def)
qed

text \<open>The types, flags and payload lengths of the records decide the layout of the message.\<close>

definition layout :: "hb_item list \<Rightarrow> (int \<times> int \<times> nat) list" where
  "layout its = map (\<lambda>i. (it_type i, it_flags i, length (it_payload i))) its"

definition layout_size :: "(int \<times> int \<times> nat) list \<Rightarrow> nat" where
  "layout_size s = 64 + 32 * length s + sum_list (map (\<lambda>(t, f, n). align8 n) s)"

definition layout_features :: "(int \<times> int \<times> nat) list \<Rightarrow> int" where
  "layout_features s = foldl (\<lambda>a (t, f, n). a OR feature_for t) 0 s"

definition layout_ok :: "(int \<times> int \<times> nat) list \<Rightarrow> bool" where
  "layout_ok s \<longleftrightarrow> 2 \<le> length s \<and> length s \<le> 32 \<and> layout_size s \<le> 1048576 \<and> sorted_wrt (<) (0 # map fst s) \<and>
     layout_features s AND 3 = 3 \<and> layout_features (filter (\<lambda>(t, f, n). f AND 1 \<noteq> 0) s) AND 3 = 3"

lemma layout_facts:
  "layout_size (layout its) = 64 + 32 * length its + length (body_bytes its)"
  "layout_features (layout its) = item_features its"
  "layout_features (filter (\<lambda>(t, f, n). f AND 1 \<noteq> 0) (layout its)) = item_required its"
proof -
  show "layout_size (layout its) = 64 + 32 * length its + length (body_bytes its)"
    by (simp add: layout_size_def layout_def body_bytes_def length_concat comp_def)
  show f: "layout_features (layout its) = item_features its" for its
    by (simp add: layout_features_def layout_def item_features_def foldl_map)
  show "layout_features (filter (\<lambda>(t, f, n). f AND 1 \<noteq> 0) (layout its)) = item_required its"
    using f [of "filter (\<lambda>i. it_flags i AND 1 \<noteq> 0) its"] by (simp add: item_required_def layout_def filter_map comp_def RECORD_REQUIRED_def)
qed

lemma handoff_okI:
  assumes s: "layout its = s" "layout_ok s" "layout_size s = tot" and i: "list_all (item_okb wm (int tot)) its" and w: "fits 2 wm"
    and c: "validate_cross_records (handoff_of wm (item_features its) its) = Inr ()"
  shows "handoff_ok wm (item_features its) its"
proof -
  have k: "item_features its AND NOT KNOWN_FEATURES = 0" "item_features its AND KNOWN_FEATURES = item_features its"
    by (rule item_features_known) (rule bit_eqI; auto simp: bit_and_iff bit_item_features bit_known)
  have "0 \<le> item_features its \<and> item_features its < 4096"
    using k(1) and_not_mask_0_iff [of "item_features its" 12] item_features_nonneg by (simp add: KNOWN_FEATURES_def mask_eq_exp_minus_1)
  then have f: "fits 8 (item_features its)" by (simp add: fits_def)
  have l: "length s = length its" "map fst s = map it_type its" using s(1) by (auto simp: layout_def)
  show ?thesis
    unfolding handoff_ok_def layout_facts [symmetric] s(1, 3)
    using s(2) i w c f k l by (simp add: layout_ok_def s layout_facts item_ok_code layout_facts [of its, unfolded s(1)])
qed

lemma fixture_layouts:
  "layout minimal_items = [(1, 1, 128), (2, 3, 200)]" "layout forward_items = [(1, 1, 128), (2, 3, 200), (0x8000, 0, 6)]"
  "layout full_items = [(1, 1, 128), (2, 3, 200), (3, 0, 48), (4, 3, 80), (5, 3, 160), (6, 0, 25), (7, 1, 96), (8, 5, 72), (9, 0, 49),
     (10, 1, 64), (11, 0, 48), (12, 0, 56)]"
  by (simp_all add: layout_def minimal_items_def forward_items_def full_items_def hb_entry_def fixture_core_def memory_payload_def
    full_framebuffer_def full_firmware_def acpi_guid_def smbios_guid_def full_artifacts_def ascii_bytes_def full_boot_device_def
    full_random_seed_def full_early_log_def full_cpu_def full_timestamps_def full_tcg_def)

lemma fixture_cores:
  "validate_core (fixture_core 456 1) (Some 456) = Inr (core_at (fixture_core 456 1))"
  "validate_core (fixture_core 496 1) (Some 496) = Inr (core_at (fixture_core 496 1))"
  "validate_core (fixture_core 1488 15) (Some 1488) = Inr (core_at (fixture_core 1488 15))"
  by code_simp+

lemma fixture_sizes:
  "64 + 32 * length minimal_items + length (body_bytes minimal_items) = 456"
  "64 + 32 * length forward_items + length (body_bytes forward_items) = 496"
  "64 + 32 * length full_items + length (body_bytes full_items) = 1488"
  unfolding layout_facts [symmetric] fixture_layouts by code_simp+

lemma fixture_features:
  "item_features minimal_items = 3" "item_features forward_items = 3" "item_features full_items = 4095" "item_required full_items = 731"
  unfolding layout_facts [symmetric] fixture_layouts by code_simp+

lemma fixture_flags:
  "co_boot_flags (core_at (fixture_core 456 1)) AND MEASURED_BOOT_ACTIVE = 0" "co_boot_flags (core_at (fixture_core 496 1)) AND MEASURED_BOOT_ACTIVE = 0"
  "co_boot_flags (core_at (fixture_core 1488 15)) AND BOOT_SERVICES_EXITED \<noteq> 0"
  by code_simp+

lemmas layout_checks = layout_ok_def layout_size_def layout_features_def align8_def feature_for_def RECORD_CORE_def RECORD_TCG_EVENT_LOG_def

lemma minimal_ok: "handoff_ok 0 (item_features minimal_items) minimal_items"
proof (rule handoff_okI [OF fixture_layouts(1)])
  have f: "find (\<lambda>i. it_type i = 1) minimal_items = Some (hb_entry 1 1 128 1 (fixture_core 456 1))" "find (\<lambda>i. it_type i = 5) minimal_items = None"
    by (simp_all add: minimal_items_def hb_entry_def)
  have c: "validate_core (it_payload (hb_entry 1 1 128 1 (fixture_core 456 1))) (Some 456) = Inr (core_at (fixture_core 456 1))"
    using fixture_cores(1) by (simp add: hb_entry_def)
  show "validate_cross_records (handoff_of 0 (item_features minimal_items) minimal_items) = Inr ()"
    by (rule cross_records_base [OF f(1) _ c fixture_flags(1) f(2)]) (simp add: fixture_sizes)
  show "layout_ok [(1, 1, 128), (2, 3, 200)]" "layout_size [(1, 1, 128), (2, 3, 200)] = 456" by (simp_all add: layout_checks)
qed (use fixture_items_ok(1) in \<open>simp_all add: fits_def\<close>)

lemma forward_ok: "handoff_ok 1 (item_features forward_items) forward_items"
proof (rule handoff_okI [OF fixture_layouts(2)])
  have f: "find (\<lambda>i. it_type i = 1) forward_items = Some (hb_entry 1 1 128 1 (fixture_core 496 1))" "find (\<lambda>i. it_type i = 5) forward_items = None"
    by (simp_all add: forward_items_def hb_entry_def)
  have c: "validate_core (it_payload (hb_entry 1 1 128 1 (fixture_core 496 1))) (Some 496) = Inr (core_at (fixture_core 496 1))"
    using fixture_cores(2) by (simp add: hb_entry_def)
  show "validate_cross_records (handoff_of 1 (item_features forward_items) forward_items) = Inr ()"
    by (rule cross_records_base [OF f(1) _ c fixture_flags(2) f(2)]) (simp add: fixture_sizes)
  show "layout_ok [(1, 1, 128), (2, 3, 200), (0x8000, 0, 6)]" "layout_size [(1, 1, 128), (2, 3, 200), (0x8000, 0, 6)] = 496" by (simp_all add: layout_checks)
qed (use fixture_items_ok(2) in \<open>simp_all add: fits_def\<close>)

lemma full_artifacts_checks:
  "rfold (check_kernel_artifact (core_at (fixture_core 1488 15)) full_artifacts) [0..<2] False = Inr True"
  "rfold (profile_artifact full_artifacts) [0..<2] 0 = Inr 3"
  unfolding full_artifacts_def kernel_sha256 initial_sha256 by code_simp+

lemma full_find:
  "find (\<lambda>i. it_type i = 1) full_items = Some (hb_entry 1 1 128 1 (fixture_core 1488 15))"
  "find (\<lambda>i. it_type i = 5) full_items = Some (hb_entry 5 3 80 2 full_artifacts)"
  "find (\<lambda>i. it_type i = 8) full_items = Some (hb_entry 8 5 72 1 full_random_seed)"
  by (simp_all add: full_items_def hb_entry_def)

lemma full_ok: "handoff_ok 0 (item_features full_items) full_items"
proof (rule handoff_okI [OF fixture_layouts(3)])
  have c: "validate_core (it_payload (hb_entry 1 1 128 1 (fixture_core 1488 15))) (Some 1488) = Inr (core_at (fixture_core 1488 15))"
    using fixture_cores(3) by (simp add: hb_entry_def)
  show "validate_cross_records (handoff_of 0 (item_features full_items) full_items) = Inr ()"
    using full_artifacts_checks(1)
    by (intro cross_records_artifacts [OF full_find(1) _ c _ full_find(2)])
      (simp_all add: fixture_sizes fixture_features FEATURE_TCG_EVENT_LOG_def hb_entry_def)
  show "layout_ok [(1, 1, 128), (2, 3, 200), (3, 0, 48), (4, 3, 80), (5, 3, 160), (6, 0, 25), (7, 1, 96), (8, 5, 72), (9, 0, 49),
      (10, 1, 64), (11, 0, 48), (12, 0, 56)]"
    "layout_size [(1, 1, 128), (2, 3, 200), (3, 0, 48), (4, 3, 80), (5, 3, 160), (6, 0, 25), (7, 1, 96), (8, 5, 72), (9, 0, 49),
      (10, 1, 64), (11, 0, 48), (12, 0, 56)] = 1488" by (simp_all add: layout_checks)
qed (use full_items_ok in \<open>simp_all add: fits_def\<close>)

lemma full_profile: "validate_kernel_entry_profile (handoff_of 0 (item_features full_items) full_items) = Inr ()"
proof -
  let ?h = "handoff_of 0 (item_features full_items) full_items"
  obtain i j k where r: "handoff_record ?h RECORD_CORE = Some (record_of i (hb_entry 1 1 128 1 (fixture_core 1488 15)))"
    "handoff_record ?h RECORD_LOADED_ARTIFACTS = Some (record_of j (hb_entry 5 3 80 2 full_artifacts))"
    "handoff_record ?h RECORD_RANDOM_SEED = Some (record_of k (hb_entry 8 5 72 1 full_random_seed))"
    using full_find [THEN handoff_of_record(1)] unfolding RECORD_CORE_def RECORD_LOADED_ARTIFACTS_def RECORD_RANDOM_SEED_def by metis
  have t: "hf_total_size ?h = 1488" "hf_features ?h = 4095" "hf_required_features ?h = 731"
    using fixture_sizes(3) by (simp_all add: handoff_of_def fixture_features)
  have p: "it_payload (hb_entry a b c e q) = q" "it_element_count (hb_entry a b c e q) = e" for a b c e q by (simp_all add: hb_entry_def)
  have q: "hb_u32 full_random_seed 0 = Inr 3" "4095 AND KERNEL_ENTRY_REQUIRED_FEATURES = KERNEL_ENTRY_REQUIRED_FEATURES"
    "731 AND KERNEL_ENTRY_REQUIRED_FEATURES = KERNEL_ENTRY_REQUIRED_FEATURES" by code_simp+
  show ?thesis
    unfolding validate_kernel_entry_profile_def r t option.case prod.case record_of_fields p fixture_cores q rbind.simps
    using fixture_flags(3) full_artifacts_checks(2) by (simp add: guarded.simps)
qed

section \<open>The golden vectors\<close>

lemma core_payloads:
  "core_payload 456 1 = Inr (fixture_core 456 1)" "core_payload 496 1 = Inr (fixture_core 496 1)"
  "core_payload 1 15 = Inr (fixture_core 1 15)" "core_payload 1488 15 = Inr (fixture_core 1488 15)"
  by (simp_all add: core_payload_Inr fits_def)

lemma item_lengths: "map (\<lambda>i. int (length (it_payload i))) its = map (\<lambda>(t, f, n). int n) (layout its)"
  by (simp add: layout_def)

lemma fixture_encoded_sizes:
  "encoded_size [128, 200] = Inr 456" "encoded_size [128, 200, 6] = Inr 496"
  "encoded_size [128, 200, 48, 80, 160, 25, 96, 72, 49, 64, 48, 56] = Inr 1488"
  by (simp_all add: encoded_size_def guarded.simps hb_align_def code_defs)

lemma memory_payload_length: "length memory_payload = 200"
  by (simp add: memory_payload_def)

lemma build_minimal: "build_handoff_fixture ''minimal_v1'' = Inr (handoff_image 0 (item_features minimal_items) minimal_items)"
proof -
  have "base_records 456 = Inr minimal_items"
    by (simp add: base_records_def core_payloads minimal_items_def memory_payload_length code_defs)
  then show ?thesis using encode_image [OF minimal_ok]
    by (simp add: build_handoff_fixture_def memory_payload_length CORE_BYTES_def fixture_encoded_sizes)
qed

lemma build_forward: "build_handoff_fixture ''forward_optional_v1_1'' = Inr (handoff_image 1 (item_features forward_items) forward_items)"
proof -
  have b: "base_records 496 = Inr (take 2 forward_items)"
    by (simp add: base_records_def core_payloads forward_items_def memory_payload_length code_defs)
  have i: "take 2 forward_items @ [hb_entry FIRST_EXTENSION_RECORD 0 0 0 (ascii_bytes ''future'')] = forward_items"
    by (simp add: forward_items_def FIRST_EXTENSION_RECORD_def)
  have l: "length (ascii_bytes ''future'') = 6" by (simp add: ascii_bytes_def)
  show ?thesis using encode_image [OF forward_ok]
    by (simp add: build_handoff_fixture_def Let_def memory_payload_length CORE_BYTES_def l fixture_encoded_sizes b i del: take_Cons_numeral)
qed

lemma build_full: "build_handoff_fixture ''full_kernel_entry_v1'' = Inr (handoff_image 0 (item_features full_items) full_items)"
proof -
  have f: "BOOT_SERVICES_EXITED OR SECURE_BOOT_ENABLED OR SECURE_BOOT_VERIFIED OR MEASURED_BOOT_ACTIVE = 15" by (simp add: code_defs)
  have p: "full_payloads 1488 = Inr full_items" "full_payloads 1 = Inr (hb_entry 1 1 128 1 (fixture_core 1 15) # tl full_items)"
    unfolding full_payloads_def f core_payloads by (simp_all add: full_items_def memory_payload_length code_defs)
  have "layout (hb_entry 1 1 128 1 (fixture_core 1 15) # tl full_items) = layout full_items"
    by (simp add: layout_def full_items_def hb_entry_def fixture_core_def)
  then have "map (\<lambda>i. int (length (it_payload i))) (hb_entry 1 1 128 1 (fixture_core 1 15) # tl full_items) =
      [128, 200, 48, 80, 160, 25, 96, 72, 49, 64, 48, 56]"
    unfolding item_lengths by (simp add: fixture_layouts)
  note s = fixture_encoded_sizes(3) [folded this]
  show ?thesis using encode_image [OF full_ok] unfolding build_handoff_fixture_def p rbind.simps s by simp
qed

text \<open>
  The three fixtures build, and the decoder accepts each of them; the full fixture passes the kernel-entry profile, and
  the minimal one and the one with an extension record of a newer minor version do not, as \<open>make_golden_vectors\<close> demands.
\<close>

lemma golden_vectors:
  "\<exists>full minimal forward h1 h2 h3. build_handoff_fixture ''full_kernel_entry_v1'' = Inr full \<and> build_handoff_fixture ''minimal_v1'' = Inr minimal \<and>
    build_handoff_fixture ''forward_optional_v1_1'' = Inr forward \<and> handoff_decode full = Inr h1 \<and> handoff_decode minimal = Inr h2 \<and>
    handoff_decode forward = Inr h3 \<and> validate_kernel_entry_profile h1 = Inr () \<and>
    validate_kernel_entry_profile h2 = Inl (Fail ''kernel profile features'') \<and>
    validate_kernel_entry_profile h3 = Inl (Fail ''kernel profile features'') \<and>
    length (hf_records h1) = 12 \<and> length (hf_records h2) = 2 \<and> length (hf_records h3) = 3"
proof -
  have k: "3 AND KERNEL_ENTRY_REQUIRED_FEATURES \<noteq> KERNEL_ENTRY_REQUIRED_FEATURES" by code_simp
  have n: "validate_kernel_entry_profile (handoff_of wm 3 its) = Inl (Fail ''kernel profile features'')" for wm its
    using k by (simp add: validate_kernel_entry_profile_def guarded.simps handoff_of_def)
  have l: "length (hf_records (handoff_of wm f its)) = length its" for wm f its
    using arg_cong [OF item_of_placed [of "64 + 32 * length its" its], of length] by (simp add: handoff_of_def)
  have i: "length full_items = 12" "length minimal_items = 2" "length forward_items = 3"
    by (simp_all add: full_items_def minimal_items_def forward_items_def)
  show ?thesis
    using build_full build_minimal build_forward decode_image [OF full_ok] decode_image [OF minimal_ok] decode_image [OF forward_ok]
      full_profile n l i fixture_features(1, 2) by metis
qed

section \<open>A message without its descriptor table\<close>

text \<open>
  A well-formed header of a message that ends before its descriptor table: the read of the first descriptor raises
  \<open>struct.error\<close>, not the error the module declares for input that fails closed.
\<close>

definition header_front :: bytes where
  "header_front = HB_MAGIC @ packed [(2, 1), (2, 0), (2, 0), (2, 64), (4, 64), (2, 2), (2, 32), (4, 64), (4, 128), (8, 0), (8, 0)]"

definition header_only :: bytes where
  "header_only = header_front @ packed [(4, crc32 (header_front @ zeros 16))] @ zeros 12"

lemma header_only_facts:
  "length header_only = 64" "bslice header_only 0 8 = HB_MAGIC" "message_crc header_only = rd 4 header_only 48"
  "rd 4 header_only 52 = 0" "rd 8 header_only 56 = 0" "j + n \<le> 48 \<Longrightarrow> rd n header_only j = rd n header_front j"
proof -
  have l: "length header_front = 48" by (simp add: header_front_def)
  let ?c = "crc32 (header_front @ zeros 16)"
  have z: "zeros 4 @ zeros 12 = zeros 16" by (simp add: zeros_def flip: replicate_add)
  have "rd 4 header_only 48 = ?c" using rd_append2 [of header_front 48 4] l
    by (simp add: header_only_def rd_append1 rd_packed_the crc32_fits)
  moreover have "message_crc header_only = ?c"
    using l z by (simp add: message_crc_def slice_assign_def header_only_def)
  ultimately show "message_crc header_only = rd 4 header_only 48" by simp
  show "length header_only = 64" using l by (simp add: header_only_def)
  show "bslice header_only 0 8 = HB_MAGIC" by (simp add: header_only_def header_front_def bslice_def)
  show "rd 4 header_only 52 = 0" "rd 8 header_only 56 = 0" using l by (simp_all add: header_only_def rd_append2 bytes_simps)
  show "j + n \<le> 48 \<Longrightarrow> rd n header_only j = rd n header_front j" using l by (simp add: header_only_def rd_append1)
qed

lemma truncated_table_struct_error: "handoff_decode header_only = Inl StructError"
proof -
  have r: "rd 2 header_front 8 = 1" "rd 2 header_front 10 = 0" "rd 2 header_front 12 = 0" "rd 2 header_front 14 = 64"
    "rd 4 header_front 16 = 64" "rd 2 header_front 20 = 2" "rd 2 header_front 22 = 32" "rd 4 header_front 24 = 64"
    "rd 4 header_front 28 = 128" "rd 8 header_front 32 = 0" "rd 8 header_front 40 = 0" "hb_align 128 = 128"
    by code_simp+
  have u: "[0..<2] = [0, 1 :: nat]" by (simp add: upt_rec)
  show ?thesis
    unfolding handoff_decode_def Let_def
    by (simp add: header_only_facts r u guarded.simps decode_record_def Let_def HB_MAJOR_def HB_MINOR_def HB_HEADER_BYTES_def
      DESCRIPTOR_BYTES_def MAX_TOTAL_BYTES_def MAX_RECORDS_def)
qed

section \<open>Witnesses\<close>

theorem handoff_memory_disjoint_witness:
  "\<exists>d h r. build_handoff_fixture ''minimal_v1'' = Inr d \<and> handoff_decode d = Inr h \<and> handoff_record h RECORD_MEMORY_MAP = Some r \<and>
    memory_regions r \<noteq> [] \<and> sorted_wrt (\<lambda>a b. snd a \<le> fst b) (memory_regions r)"
  using handoff_memory_disjoint [OF decode_image [OF minimal_ok]] build_minimal decode_image [OF minimal_ok] by blast

theorem handoff_kernel_entry_witness:
  "\<exists>d h core. build_handoff_fixture ''full_kernel_entry_v1'' = Inr d \<and> handoff_decode d = Inr h \<and> validate_kernel_entry_profile h = Inr () \<and>
    handoff_record h RECORD_CORE = Some core \<and> transfer_state_valid (core_at (hr_payload core))"
  using handoff_kernel_entry [OF decode_image [OF full_ok] full_profile] build_full decode_image [OF full_ok] full_profile by blast

theorem handoff_reencode_witness:
  "\<exists>d h. build_handoff_fixture ''full_kernel_entry_v1'' = Inr d \<and> handoff_decode d = Inr h \<and>
    handoff_encode (map item_of (hf_records h)) (hf_writer_minor h) (hf_minimum_reader_minor h) = Inr d"
proof -
  have "hf_features (handoff_of 0 (item_features full_items) full_items) AND NOT KNOWN_FEATURES = 0"
    by (simp add: handoff_of_def fixture_features KNOWN_FEATURES_def)
  from handoff_reencode [OF decode_image [OF full_ok] this] show ?thesis using build_full decode_image [OF full_ok] by blast
qed

theorem handoff_roundtrip_witness:
  "\<exists>d h. handoff_encode full_items 0 0 = Inr d \<and> handoff_decode d = Inr h \<and> map item_of (hf_records h) = full_items"
  using handoff_roundtrip [OF full_ok] by blast

end
