(* ===== verification/Symbols.thy ===== *)
theory Symbols
  imports Boot_Trust
begin

text \<open>
  PSYM1, the public diagnostic symbols of the kernel (\<open>src/runtime/native_symbols.py\<close>): the bundle of segments and
  symbols with its parser and encoder, the bounded binary search of an address, the gate in front of a consumer, and the
  canonical, minimal and boundary bundles. The reader of the split debug ELF is in \<open>Symbols_Debug\<close>.
\<close>

unbundle bit_operations_syntax

section \<open>Constants\<close>

definition PSYM_MAGIC :: bytes where "PSYM_MAGIC = [0x50, 0x53, 0x59, 0x4D, 0x31, 0, 0, 0]"
definition PSYM_MAJOR_VERSION :: int where [code_defs]: "PSYM_MAJOR_VERSION = 1"
definition PSYM_MINOR_VERSION :: int where [code_defs]: "PSYM_MINOR_VERSION = 0"
definition PSYM_HEADER_BYTES :: nat where [code_defs]: "PSYM_HEADER_BYTES = 384"
definition SEGMENT_BYTES :: nat where [code_defs]: "SEGMENT_BYTES = 32"
definition SYMBOL_BYTES :: nat where [code_defs]: "SYMBOL_BYTES = 48"
definition MAX_BUNDLE_BYTES :: int where [code_defs]: "MAX_BUNDLE_BYTES = 0x80000"
definition PSYM_MAX_IMAGE_BYTES :: int where [code_defs]: "PSYM_MAX_IMAGE_BYTES = 0x4000000"
definition MAX_SEGMENTS :: int where [code_defs]: "MAX_SEGMENTS = 16"
definition MAX_SYMBOLS :: int where [code_defs]: "MAX_SYMBOLS = 4096"
definition MAX_NAME_BYTES :: int where [code_defs]: "MAX_NAME_BYTES = 127"
definition MAX_STRING_BYTES :: int where [code_defs]: "MAX_STRING_BYTES = 0x40000"
definition MAX_LOOKUP_STEPS :: int where [code_defs]: "MAX_LOOKUP_STEPS = 13"
definition PROFILE_PUBLIC_DIAGNOSTIC :: int where [code_defs]: "PROFILE_PUBLIC_DIAGNOSTIC = 1"
definition ADDRESS_IMAGE_RELATIVE :: int where [code_defs]: "ADDRESS_IMAGE_RELATIVE = 1"
definition NAME_ASCII_OPAQUE :: int where [code_defs]: "NAME_ASCII_OPAQUE = 1"
definition PRIVACY_PUBLIC :: int where [code_defs]: "PRIVACY_PUBLIC = 1"
definition LOOKUP_BINARY_SEARCH :: int where [code_defs]: "LOOKUP_BINARY_SEARCH = 1"
definition MANGLING_OPAQUE_LINKER :: int where [code_defs]: "MANGLING_OPAQUE_LINKER = 1"
definition POINTER_REDACT_RUNTIME :: int where [code_defs]: "POINTER_REDACT_RUNTIME = 1"
definition FLAG_IMAGE_RELATIVE :: int where [code_defs]: "FLAG_IMAGE_RELATIVE = 1"
definition FLAG_KERNEL_IDENTITY_BOUND :: int where [code_defs]: "FLAG_KERNEL_IDENTITY_BOUND = 2"
definition FLAG_BUILD_ID_BOUND :: int where [code_defs]: "FLAG_BUILD_ID_BOUND = 4"
definition FLAG_SPLIT_DEBUG_BOUND :: int where [code_defs]: "FLAG_SPLIT_DEBUG_BOUND = 8"
definition FLAG_STRIPPED_PRODUCT :: int where [code_defs]: "FLAG_STRIPPED_PRODUCT = 16"
definition FLAG_SORTED_NONOVERLAP :: int where [code_defs]: "FLAG_SORTED_NONOVERLAP = 32"
definition FLAG_BOUNDED_LOOKUP :: int where [code_defs]: "FLAG_BOUNDED_LOOKUP = 64"
definition FLAG_ASCII_OPAQUE_NAMES :: int where [code_defs]: "FLAG_ASCII_OPAQUE_NAMES = 128"
definition FLAG_NO_SOURCE_PATHS :: int where [code_defs]: "FLAG_NO_SOURCE_PATHS = 256"
definition FLAG_POINTER_REDACTION_DEFAULT :: int where [code_defs]: "FLAG_POINTER_REDACTION_DEFAULT = 512"
definition FLAG_DIAGNOSTIC_ONLY :: int where [code_defs]: "FLAG_DIAGNOSTIC_ONLY = 1024"
definition FLAG_NO_AUTHORITY :: int where [code_defs]: "FLAG_NO_AUTHORITY = 2048"
definition PSYM_FLAG_OUTER_SIGNATURE :: int where [code_defs]: "PSYM_FLAG_OUTER_SIGNATURE = 4096"
definition PSYM_FLAG_INNER_SIGNATURE :: int where [code_defs]: "PSYM_FLAG_INNER_SIGNATURE = 0x2000"
definition FLAG_MANIFEST_SIGNATURE :: int where [code_defs]: "FLAG_MANIFEST_SIGNATURE = 0x4000"
definition PSYM_REQUIRED_FLAGS :: int where [code_defs]:
  "PSYM_REQUIRED_FLAGS = FLAG_IMAGE_RELATIVE OR FLAG_KERNEL_IDENTITY_BOUND OR FLAG_BUILD_ID_BOUND OR FLAG_SPLIT_DEBUG_BOUND OR
     FLAG_STRIPPED_PRODUCT OR FLAG_SORTED_NONOVERLAP OR FLAG_BOUNDED_LOOKUP OR FLAG_ASCII_OPAQUE_NAMES OR
     FLAG_NO_SOURCE_PATHS OR FLAG_POINTER_REDACTION_DEFAULT OR FLAG_DIAGNOSTIC_ONLY OR FLAG_NO_AUTHORITY OR
     PSYM_FLAG_OUTER_SIGNATURE OR PSYM_FLAG_INNER_SIGNATURE OR FLAG_MANIFEST_SIGNATURE"
definition SEGMENT_READ :: int where [code_defs]: "SEGMENT_READ = 1"
definition SEGMENT_WRITE :: int where [code_defs]: "SEGMENT_WRITE = 2"
definition SEGMENT_EXECUTE :: int where [code_defs]: "SEGMENT_EXECUTE = 4"
definition SEGMENT_RELRO :: int where [code_defs]: "SEGMENT_RELRO = 8"
definition SEGMENT_KNOWN_FLAGS :: int where [code_defs]:
  "SEGMENT_KNOWN_FLAGS = SEGMENT_READ OR SEGMENT_WRITE OR SEGMENT_EXECUTE OR SEGMENT_RELRO"
definition SEGMENT_RODATA :: int where [code_defs]: "SEGMENT_RODATA = 1"
definition SEGMENT_TEXT :: int where [code_defs]: "SEGMENT_TEXT = 2"
definition SEGMENT_RELRO_DATA :: int where [code_defs]: "SEGMENT_RELRO_DATA = 3"
definition SEGMENT_DATA_BSS :: int where [code_defs]: "SEGMENT_DATA_BSS = 4"
definition SYMBOL_FUNCTION :: int where [code_defs]: "SYMBOL_FUNCTION = 1"
definition SYMBOL_OBJECT :: int where [code_defs]: "SYMBOL_OBJECT = 2"
definition BIND_GLOBAL :: int where [code_defs]: "BIND_GLOBAL = 1"
definition VISIBILITY_DEFAULT :: int where [code_defs]: "VISIBILITY_DEFAULT = 0"
definition SYMBOL_EXECUTABLE :: int where [code_defs]: "SYMBOL_EXECUTABLE = 1"
definition SYMBOL_ENTRY :: int where [code_defs]: "SYMBOL_ENTRY = 2"
definition SYMBOL_PANIC_SAFE :: int where [code_defs]: "SYMBOL_PANIC_SAFE = 4"
definition SYMBOL_DIAGNOSTIC_PUBLIC :: int where [code_defs]: "SYMBOL_DIAGNOSTIC_PUBLIC = 8"
definition SYMBOL_KNOWN_FLAGS :: int where [code_defs]:
  "SYMBOL_KNOWN_FLAGS = SYMBOL_EXECUTABLE OR SYMBOL_ENTRY OR SYMBOL_PANIC_SAFE OR SYMBOL_DIAGNOSTIC_PUBLIC"
definition PREFERRED_VIRTUAL_BASE :: int where [code_defs]: "PREFERRED_VIRTUAL_BASE = 0xFFFFFFFF80000000"
definition VIRTUAL_WINDOW_END_EXCLUSIVE :: int where [code_defs]: "VIRTUAL_WINDOW_END_EXCLUSIVE = 0xFFFFFFFFC0000000"
definition SLIDE_ALIGNMENT :: int where [code_defs]: "SLIDE_ALIGNMENT = 0x200000"
definition CANONICAL_IMAGE_BYTES :: int where [code_defs]: "CANONICAL_IMAGE_BYTES = 0x95000"
definition CANONICAL_ENTRY_OFFSET :: int where [code_defs]: "CANONICAL_ENTRY_OFFSET = 0xA000"
definition CANONICAL_FILE_SHA256 :: string where
  "CANONICAL_FILE_SHA256 = ''FD6C2A0C709957B9EDFFC0647D534E060ED68215C075F07D70AB2AEBCA6C81D1''"
definition CANONICAL_LOADED_SHA256 :: string where
  "CANONICAL_LOADED_SHA256 = ''5D660D084136430C0D152EAAF4D29D5704E9B974F6679205BEBAB54F24687967''"
definition CANONICAL_BUILD_ID_SHA256 :: string where
  "CANONICAL_BUILD_ID_SHA256 = ''5B30B49AC910CAAE250569E91A4B7AD48C47A9E32BA1739988662C7CB3063738''"
definition CANONICAL_DEBUG_SHA256 :: string where
  "CANONICAL_DEBUG_SHA256 = ''5E40AB31AFB4BCE79BEDB32D7B66D64D957B42CA915B2B70D2F15049F90B7D91''"
definition CANONICAL_SOURCE_MANIFEST_SHA256 :: string where
  "CANONICAL_SOURCE_MANIFEST_SHA256 = ''4AE53650627ABA7740B172C18D8F7806D6AFF6A564DA7BA547F37B496D565575''"

definition SEGMENT_FLAGS_BY_KIND :: "int \<Rightarrow> int option" where
  "SEGMENT_FLAGS_BY_KIND kind =
     (if kind = SEGMENT_RODATA then Some SEGMENT_READ
      else if kind = SEGMENT_TEXT then Some (SEGMENT_READ OR SEGMENT_EXECUTE)
      else if kind = SEGMENT_RELRO_DATA then Some (SEGMENT_READ OR SEGMENT_RELRO)
      else if kind = SEGMENT_DATA_BSS then Some (SEGMENT_READ OR SEGMENT_WRITE) else None)"

section \<open>Records\<close>

record sy_identity =
  si_canonical_file_sha256 :: string
  si_preferred_loaded_sha256 :: string
  si_build_id_sha256 :: string
  si_debug_file_sha256 :: string
  si_source_manifest_sha256 :: string

record sy_segment =
  sg_segment_id :: int
  sg_kind :: int
  sg_flags :: int
  sg_start_offset :: int
  sg_byte_count :: int

record sy_symbol =
  sm_symbol_id :: int
  sm_segment_id :: int
  sm_kind :: int
  sm_binding :: int
  sm_visibility :: int
  sm_privacy :: int
  sm_flags :: int
  sm_start_offset :: int
  sm_byte_count :: int
  sm_name :: string

record sy_bundle =
  sb_raw :: bytes
  sb_flags :: int
  sb_image_bytes :: int
  sb_preferred_virtual_base :: int
  sb_virtual_window_end_exclusive :: int
  sb_slide_alignment :: int
  sb_entry_offset :: int
  sb_identity :: sy_identity
  sb_segments :: "sy_segment list"
  sb_symbols :: "sy_symbol list"

record lookup_result =
  lr_symbol :: sy_symbol
  lr_symbol_offset :: int
  lr_steps :: int

record consumption_context =
  cc_outer_role :: int
  cc_outer_version :: int
  cc_outer_payload_sha256 :: string
  cc_outer_file_sha256 :: string
  cc_expected_outer_file_sha256 :: string
  cc_outer_signature_verified :: bool
  cc_inner_signature_verified :: bool
  cc_manifest_signature_verified :: bool
  cc_kernel_signature_verified :: bool
  cc_canonical_file_sha256 :: string
  cc_preferred_loaded_sha256 :: string
  cc_build_id_sha256 :: string
  cc_debug_file_sha256 :: string
  cc_source_manifest_sha256 :: string
  cc_identity_evidence_verified :: bool
  cc_stripped_correspondence_verified :: bool
  cc_dwarf5_verified :: bool
  cc_public_policy_verified :: bool
  cc_source_paths_absent :: bool
  cc_pointer_redaction_enabled :: bool
  cc_diagnostics_authorized :: bool
  cc_runtime_base :: int
  cc_symbol_capacity :: int
  cc_string_capacity :: int
  cc_lookup_step_capacity :: int
  cc_authority_effect_requested :: bool

section \<open>Checks on fields\<close>

definition psym_digest_bytes :: "string \<Rightarrow> bytes res" where
  "psym_digest_bytes v =
     (if length v \<noteq> 64 then Inl (Fail ''psym_identity'')
      else case fromhex v of Inl _ \<Rightarrow> Inl (Fail ''psym_identity'')
      | Inr result \<Rightarrow> guarded [(result = zeros 32, ''psym_identity'')] (Inr result))"

definition name_allowed :: "bytes \<Rightarrow> bool" where
  "name_allowed data \<longleftrightarrow> data \<noteq> [] \<and>
     list_all (\<lambda>b. 48 \<le> uint b \<and> uint b \<le> 57 \<or> 65 \<le> uint b \<and> uint b \<le> 90 \<or> 97 \<le> uint b \<and> uint b \<le> 122 \<or>
       b \<in> {0x5F, 0x2E, 0x24, 0x40, 0x2D}) data \<and>
     hd data \<notin> {0x2E, 0x24, 0x40, 0x2D}"

definition name_fingerprint :: "bytes \<Rightarrow> int" where
  "name_fingerprint data = le_int (take 4 (sha256 data))"

definition checked_end :: "int \<Rightarrow> int \<Rightarrow> int \<Rightarrow> string \<Rightarrow> int res" where
  "checked_end start n maximum code = guarded [(start < 0 \<or> n \<le> 0 \<or> start > maximum \<or> n > maximum - start, code)] (Inr (start + n))"

definition is_canonical_x86_64 :: "int \<Rightarrow> bool" where
  "is_canonical_x86_64 v =
     (let v = v AND 0xFFFFFFFFFFFFFFFF; upper = drop_bit 48 v; sign = drop_bit 47 v AND 1
      in upper = (if sign \<noteq> 0 then 0xFFFF else 0))"

definition ascii_string :: "bytes \<Rightarrow> string" where
  "ascii_string bs = map (\<lambda>b. char_of (unat b)) bs"

section \<open>Parsing\<close>

definition parse_segment :: "bytes \<Rightarrow> int \<Rightarrow> nat \<Rightarrow> sy_segment list \<times> int \<Rightarrow> (sy_segment list \<times> int) res" where
  "parse_segment data image_bytes index = (\<lambda>(segments, previous_end).
     let offset = PSYM_HEADER_BYTES + index * SEGMENT_BYTES; segment_id = rd 2 data offset; kind = rd 2 data (offset + 2);
         segment_flags = rd 4 data (offset + 4); start = rd 8 data (offset + 8); byte_count = rd 8 data (offset + 16) in
     guarded [
       (segment_id \<noteq> int index + 1, ''psym_segment_id''),
       (SEGMENT_FLAGS_BY_KIND kind = None, ''psym_segment_kind''),
       (segment_flags AND NOT SEGMENT_KNOWN_FLAGS \<noteq> 0 \<or> Some segment_flags \<noteq> SEGMENT_FLAGS_BY_KIND kind, ''psym_segment_flags''),
       (segment_flags AND SEGMENT_WRITE \<noteq> 0 \<and> segment_flags AND SEGMENT_EXECUTE \<noteq> 0, ''psym_segment_flags''),
       (start \<noteq> previous_end, ''psym_segment_order'')]
     (rbind (checked_end start byte_count image_bytes ''psym_segment_range'') (\<lambda>end.
      guarded [(rd 8 data (offset + 24) \<noteq> 0, ''psym_reserved'')]
      (Inr (segments @ [\<lparr>sg_segment_id = segment_id, sg_kind = kind, sg_flags = segment_flags, sg_start_offset = start,
        sg_byte_count = byte_count\<rparr>], end)))))"

record sy_scan =
  sc_symbols :: "sy_symbol list"
  sc_expected_name_offset :: int
  sc_previous_symbol_end :: int
  sc_entry_count :: int

definition symbol_at :: "bytes \<Rightarrow> nat \<Rightarrow> bytes \<Rightarrow> sy_symbol" where
  "symbol_at data offset name_data = \<lparr>sm_symbol_id = rd 4 data offset, sm_segment_id = rd 2 data (offset + 4), sm_kind = rd 1 data (offset + 6),
     sm_binding = rd 1 data (offset + 7), sm_visibility = rd 1 data (offset + 8), sm_privacy = rd 1 data (offset + 9),
     sm_flags = rd 2 data (offset + 10), sm_start_offset = rd 8 data (offset + 24), sm_byte_count = rd 8 data (offset + 32),
     sm_name = ascii_string name_data\<rparr>"

definition check_symbol_permissions :: "sy_segment \<Rightarrow> sy_symbol \<Rightarrow> unit res" where
  "check_symbol_permissions segment s =
     (let executable = (sg_flags segment AND SEGMENT_EXECUTE \<noteq> 0) in
      guarded [
        (sm_kind s = SYMBOL_FUNCTION \<and> (\<not> executable \<or> sm_flags s AND SYMBOL_EXECUTABLE = 0), ''psym_symbol_permissions''),
        (sm_kind s \<noteq> SYMBOL_FUNCTION \<and> (executable \<or> sm_flags s AND SYMBOL_EXECUTABLE \<noteq> 0), ''psym_symbol_permissions'')]
      (Inr ()))"

definition symbol_checks :: "bytes \<Rightarrow> nat \<Rightarrow> int \<Rightarrow> nat \<Rightarrow> nat \<Rightarrow> int \<Rightarrow> bytes \<Rightarrow> sy_symbol \<Rightarrow> (bool \<times> string) list" where
  "symbol_checks data offset string_bytes segment_count index expected_name_offset name_data s =
     (let name_offset = rd 4 data (offset + 12); name_bytes = rd 2 data (offset + 16) in [
       (sm_symbol_id s \<noteq> int index + 1, ''psym_symbol_id''),
       (\<not> (1 \<le> sm_segment_id s \<and> sm_segment_id s \<le> int segment_count), ''psym_symbol_segment''),
       (sm_kind s \<notin> {SYMBOL_FUNCTION, SYMBOL_OBJECT}, ''psym_symbol_kind''),
       (sm_binding s \<noteq> BIND_GLOBAL, ''psym_symbol_binding''),
       (sm_visibility s \<noteq> VISIBILITY_DEFAULT, ''psym_symbol_visibility''),
       (sm_privacy s \<noteq> PRIVACY_PUBLIC, ''psym_symbol_privacy''),
       (sm_flags s AND NOT SYMBOL_KNOWN_FLAGS \<noteq> 0 \<or> sm_flags s AND SYMBOL_DIAGNOSTIC_PUBLIC = 0, ''psym_symbol_flags''),
       (name_offset \<noteq> expected_name_offset, ''psym_symbol_name_layout''),
       (name_bytes = 0 \<or> name_bytes > MAX_NAME_BYTES \<or> name_bytes > string_bytes - name_offset, ''psym_symbol_name_size''),
       (rd 2 data (offset + 18) \<noteq> 0 \<or> rd 8 data (offset + 40) \<noteq> 0, ''psym_reserved''),
       (\<not> name_allowed name_data, ''psym_symbol_name_ascii''),
       (name_fingerprint name_data \<noteq> rd 4 data (offset + 20), ''psym_symbol_name_fingerprint'')])"

definition place_symbol :: "sy_segment list \<Rightarrow> int \<Rightarrow> int \<Rightarrow> nat \<Rightarrow> sy_symbol \<Rightarrow> int \<Rightarrow> sy_scan \<Rightarrow> sy_scan res" where
  "place_symbol segments image_bytes entry_offset index s name_bytes sc =
     rbind (checked_end (sm_start_offset s) (sm_byte_count s) image_bytes ''psym_symbol_range'') (\<lambda>end.
     let segment = segments ! nat (sm_segment_id s - 1); segment_end = sg_start_offset segment + sg_byte_count segment;
         entry = (sm_flags s AND SYMBOL_ENTRY \<noteq> 0) in
     guarded [
       (index \<noteq> 0 \<and> sm_start_offset s < sc_previous_symbol_end sc, ''psym_symbol_order''),
       (sm_start_offset s < sg_start_offset segment \<or> end > segment_end, ''psym_symbol_segment_range'')]
     (rbind (check_symbol_permissions segment s) (\<lambda>_.
      guarded [(entry \<and> (sm_start_offset s \<noteq> entry_offset \<or> sm_kind s \<noteq> SYMBOL_FUNCTION \<or> sm_name s \<noteq> ''poole_kernel_entry''),
        ''psym_entry_symbol'')]
      (Inr \<lparr>sc_symbols = sc_symbols sc @ [s], sc_expected_name_offset = sc_expected_name_offset sc + name_bytes,
        sc_previous_symbol_end = end, sc_entry_count = sc_entry_count sc + (if entry then 1 else 0)\<rparr>))))"

definition parse_symbol :: "bytes \<Rightarrow> nat \<Rightarrow> nat \<Rightarrow> int \<Rightarrow> int \<Rightarrow> int \<Rightarrow> sy_segment list \<Rightarrow> nat \<Rightarrow> sy_scan \<Rightarrow> sy_scan res" where
  "parse_symbol data symbol_offset string_offset string_bytes image_bytes entry_offset segments index sc =
     (let offset = symbol_offset + index * SYMBOL_BYTES; name_bytes = rd 2 data (offset + 16);
          name_start = string_offset + nat (rd 4 data (offset + 12)); name_data = bslice data name_start (name_start + nat name_bytes);
          s = symbol_at data offset name_data in
      guarded (symbol_checks data offset string_bytes (length segments) index (sc_expected_name_offset sc) name_data s)
      (place_symbol segments image_bytes entry_offset index s name_bytes sc))"

definition identity_at :: "bytes \<Rightarrow> bytes list" where
  "identity_at data = [bslice data 144 176, bslice data 176 208, bslice data 208 240, bslice data 240 272, bslice data 272 304]"

definition identity_of :: "bytes list \<Rightarrow> sy_identity" where
  "identity_of values = \<lparr>si_canonical_file_sha256 = hex_upper (values ! 0), si_preferred_loaded_sha256 = hex_upper (values ! 1),
     si_build_id_sha256 = hex_upper (values ! 2), si_debug_file_sha256 = hex_upper (values ! 3),
     si_source_manifest_sha256 = hex_upper (values ! 4)\<rparr>"

definition psym_header_checks :: "bytes \<Rightarrow> (bool \<times> string) list" where
  "psym_header_checks data =
     (let segment_count = rd 4 data 32; symbol_count = rd 4 data 36; string_offset = rd 8 data 64; string_bytes = rd 8 data 72;
          image_bytes = rd 8 data 80; preferred_base = rd 8 data 88; window_end = rd 8 data 96; slide_alignment = rd 8 data 104;
          expected_symbol_offset = int PSYM_HEADER_BYTES + segment_count * int SEGMENT_BYTES;
          expected_string_offset = expected_symbol_offset + symbol_count * int SYMBOL_BYTES in [
       (length data < PSYM_HEADER_BYTES, ''psym_truncated''),
       (int (length data) > MAX_BUNDLE_BYTES, ''psym_oversized''),
       (bslice data 0 8 \<noteq> PSYM_MAGIC, ''psym_magic''),
       ((rd 2 data 8, rd 2 data 10) \<noteq> (PSYM_MAJOR_VERSION, PSYM_MINOR_VERSION), ''psym_version''),
       (rd 2 data 12 \<noteq> int PSYM_HEADER_BYTES, ''psym_header_size''),
       ((rd 2 data 14, rd 2 data 16) \<noteq> (int SEGMENT_BYTES, int SYMBOL_BYTES), ''psym_record_size''),
       (rd 2 data 18 \<noteq> 0, ''psym_reserved''),
       (rd 4 data 20 \<noteq> PSYM_REQUIRED_FLAGS, ''psym_flags''),
       (rd 2 data 24 \<noteq> PROFILE_PUBLIC_DIAGNOSTIC, ''psym_profile''),
       (rd 2 data 26 \<noteq> ADDRESS_IMAGE_RELATIVE, ''psym_address_model''),
       (rd 2 data 28 \<noteq> NAME_ASCII_OPAQUE, ''psym_name_encoding''),
       (rd 2 data 30 \<noteq> PRIVACY_PUBLIC, ''psym_privacy''),
       (\<not> (1 \<le> segment_count \<and> segment_count \<le> MAX_SEGMENTS) \<or> \<not> (1 \<le> symbol_count \<and> symbol_count \<le> MAX_SYMBOLS), ''psym_counts''),
       (rd 8 data 40 \<noteq> int (length data), ''psym_total_size''),
       (rd 8 data 48 \<noteq> int PSYM_HEADER_BYTES \<or> rd 8 data 56 \<noteq> expected_symbol_offset \<or> string_offset \<noteq> expected_string_offset \<or>
        string_offset > int (length data), ''psym_table_layout''),
       (string_bytes = 0 \<or> string_bytes > MAX_STRING_BYTES \<or> string_bytes \<noteq> int (length data) - string_offset, ''psym_string_size''),
       ((rd 4 data 120, rd 4 data 124, rd 4 data 128, rd 4 data 132) \<noteq> (MAX_SEGMENTS, MAX_SYMBOLS, MAX_NAME_BYTES, MAX_LOOKUP_STEPS), ''psym_bounds''),
       ((rd 2 data 136, rd 2 data 138, rd 2 data 140) \<noteq> (LOOKUP_BINARY_SEARCH, MANGLING_OPAQUE_LINKER, POINTER_REDACT_RUNTIME), ''psym_lookup_policy''),
       (rd 2 data 142 \<noteq> 0, ''psym_reserved''),
       (image_bytes = 0 \<or> image_bytes > PSYM_MAX_IMAGE_BYTES, ''psym_image_size''),
       (\<not> is_canonical_x86_64 preferred_base \<or> \<not> is_canonical_x86_64 (window_end - 1) \<or> preferred_base \<ge> window_end \<or>
        image_bytes > window_end - preferred_base, ''psym_virtual_window''),
       (slide_alignment < 4096 \<or> slide_alignment AND (slide_alignment - 1) \<noteq> 0 \<or> preferred_base mod slide_alignment \<noteq> 0, ''psym_slide_alignment''),
       (rd 8 data 112 \<ge> image_bytes, ''psym_entry_offset''),
       (list_ex (\<lambda>v. v = zeros 32) (identity_at data), ''psym_identity''),
       (any_byte (bslice data 336 384), ''psym_reserved''),
       (sha256 (drop PSYM_HEADER_BYTES data) \<noteq> bslice data 304 336, ''psym_body_digest'')])"

definition psym_parse :: "bytes \<Rightarrow> sy_bundle res" where
  "psym_parse data =
     guarded (psym_header_checks data)
     (let segment_count = nat (rd 4 data 32); symbol_count = nat (rd 4 data 36); symbol_offset = nat (rd 8 data 56);
          string_offset = nat (rd 8 data 64); string_bytes = rd 8 data 72; image_bytes = rd 8 data 80; entry_offset = rd 8 data 112 in
      rbind (rfold (parse_segment data image_bytes) [0..<segment_count] ([], 0)) (\<lambda>(segments, previous_end).
      guarded [(previous_end \<noteq> image_bytes, ''psym_segment_coverage'')]
      (rbind (rfold (parse_symbol data symbol_offset string_offset string_bytes image_bytes entry_offset segments) [0..<symbol_count]
         \<lparr>sc_symbols = [], sc_expected_name_offset = 0, sc_previous_symbol_end = 0, sc_entry_count = 0\<rparr>) (\<lambda>sc.
       guarded [
         (sc_expected_name_offset sc \<noteq> string_bytes, ''psym_string_coverage''),
         (sc_entry_count sc \<noteq> 1, ''psym_entry_symbol'')]
       (Inr \<lparr>sb_raw = data, sb_flags = rd 4 data 20, sb_image_bytes = image_bytes, sb_preferred_virtual_base = rd 8 data 88,
         sb_virtual_window_end_exclusive = rd 8 data 96, sb_slide_alignment = rd 8 data 104, sb_entry_offset = entry_offset,
         sb_identity = identity_of (identity_at data), sb_segments = segments, sb_symbols = sc_symbols sc\<rparr>)))))"

section \<open>Lookup\<close>

function lookup_loop :: "sy_symbol list \<Rightarrow> int \<Rightarrow> nat \<Rightarrow> nat \<Rightarrow> int \<Rightarrow> lookup_result option res" where
  "lookup_loop symbols target low high steps =
     (if low < high then
        let steps = steps + 1; middle = low + (high - low) div 2; symbol = symbols ! middle in
        if steps > MAX_LOOKUP_STEPS then Inl (Fail ''psym_lookup_bound'')
        else if target < sm_start_offset symbol then lookup_loop symbols target low middle steps
        else if target \<ge> sm_start_offset symbol + sm_byte_count symbol then lookup_loop symbols target (middle + 1) high steps
        else Inr (Some \<lparr>lr_symbol = symbol, lr_symbol_offset = target - sm_start_offset symbol, lr_steps = steps\<rparr>)
      else Inr None)"
  by pat_completeness auto
termination
  by (relation "measure (\<lambda>(_, _, low, high, _). high - low)") (auto intro: diff_less_mono2)

declare lookup_loop.simps [simp del]

definition psym_lookup :: "sy_bundle \<Rightarrow> int \<Rightarrow> int \<Rightarrow> lookup_result option res" where
  "psym_lookup bundle runtime_base runtime_address =
     guarded [
       (runtime_base < sb_preferred_virtual_base bundle \<or>
        runtime_base > sb_virtual_window_end_exclusive bundle - sb_image_bytes bundle \<or>
        (runtime_base - sb_preferred_virtual_base bundle) mod sb_slide_alignment bundle \<noteq> 0 \<or>
        \<not> is_canonical_x86_64 runtime_base, ''psym_lookup_base''),
       (runtime_address < runtime_base \<or> runtime_address \<ge> runtime_base + sb_image_bytes bundle \<or>
        \<not> is_canonical_x86_64 runtime_address, ''psym_lookup_address'')]
     (lookup_loop (sb_symbols bundle) (runtime_address - runtime_base) 0 (length (sb_symbols bundle)) 0)"

text \<open>The format specification \<open>X\<close> of a non-negative number.\<close>

fun hex_number :: "nat \<Rightarrow> string" where
  "hex_number n = (if n < 16 then [hex_digit n] else hex_number (n div 16) @ [hex_digit (n mod 16)])"

declare hex_number.simps [simp del]

definition format_lookup :: "lookup_result option \<Rightarrow> string" where
  "format_lookup result = (case result of None \<Rightarrow> ''unknown''
     | Some r \<Rightarrow> sm_name (lr_symbol r) @ ''+0x'' @ hex_number (nat (lr_symbol_offset r)))"

section \<open>Encoding\<close>

definition encode_ascii_name :: "string \<Rightarrow> bytes res" where
  "encode_ascii_name s =
     (if list_all (\<lambda>c. (of_char c :: nat) < 128) s then Inr (ascii_bytes s) else Inl (Fail ''psym_symbol_name_ascii''))"

definition symbol_fields :: "nat \<Rightarrow> bytes \<Rightarrow> sy_symbol \<Rightarrow> (nat \<times> int) list" where
  "symbol_fields name_offset name s = [(4, sm_symbol_id s), (2, sm_segment_id s), (1, sm_kind s), (1, sm_binding s), (1, sm_visibility s),
     (1, sm_privacy s), (2, sm_flags s), (4, int name_offset), (2, int (length name)), (2, 0), (4, name_fingerprint name),
     (8, sm_start_offset s), (8, sm_byte_count s), (8, 0)]"

definition encode_symbol :: "nat \<times> sy_symbol \<Rightarrow> bytes \<times> bytes \<Rightarrow> (bytes \<times> bytes) res" where
  "encode_symbol = (\<lambda>(index, s) (names, symbol_rows).
     rbind (encode_ascii_name (sm_name s)) (\<lambda>name.
     rbind (pack_into symbol_rows (index * SYMBOL_BYTES) (symbol_fields (length names) name s)) (\<lambda>symbol_rows.
     Inr (names @ name, symbol_rows))))"

definition segment_fields :: "sy_segment \<Rightarrow> (nat \<times> int) list" where
  "segment_fields g = [(2, sg_segment_id g), (2, sg_kind g), (4, sg_flags g), (8, sg_start_offset g), (8, sg_byte_count g), (8, 0)]"

definition encode_segment :: "nat \<times> sy_segment \<Rightarrow> bytes \<Rightarrow> bytes res" where
  "encode_segment = (\<lambda>(index, g) segment_rows. pack_into segment_rows (index * SEGMENT_BYTES) (segment_fields g))"

record psym_args =
  pa_identity :: sy_identity
  pa_segments :: "sy_segment list"
  pa_symbols :: "sy_symbol list"
  pa_image_bytes :: int
  pa_entry_offset :: int
  pa_preferred_virtual_base :: int
  pa_virtual_window_end_exclusive :: int
  pa_slide_alignment :: int

definition put_identity :: "sy_identity \<Rightarrow> bytes \<Rightarrow> bytes res" where
  "put_identity i output =
     rbind (psym_digest_bytes (si_canonical_file_sha256 i)) (\<lambda>d. let output = slice_assign output 144 176 d in
     rbind (psym_digest_bytes (si_preferred_loaded_sha256 i)) (\<lambda>d. let output = slice_assign output 176 208 d in
     rbind (psym_digest_bytes (si_build_id_sha256 i)) (\<lambda>d. let output = slice_assign output 208 240 d in
     rbind (psym_digest_bytes (si_debug_file_sha256 i)) (\<lambda>d. let output = slice_assign output 240 272 d in
     rbind (psym_digest_bytes (si_source_manifest_sha256 i)) (\<lambda>d. Inr (slice_assign output 272 304 d))))))"

definition psym_encode :: "psym_args \<Rightarrow> bytes res" where
  "psym_encode a =
     (let segments = pa_segments a; symbols = pa_symbols a in
      guarded [(\<not> (1 \<le> length segments \<and> int (length segments) \<le> MAX_SEGMENTS) \<or> \<not> (1 \<le> length symbols \<and> int (length symbols) \<le> MAX_SYMBOLS),
        ''psym_counts'')]
      (rbind (rfold encode_symbol (enumerate 0 symbols) ([], zeros (length symbols * SYMBOL_BYTES))) (\<lambda>(names, symbol_rows).
       rbind (rfold encode_segment (enumerate 0 segments) (zeros (length segments * SEGMENT_BYTES))) (\<lambda>segment_rows.
       let segment_offset = PSYM_HEADER_BYTES; symbol_offset = segment_offset + length segment_rows;
           string_offset = symbol_offset + length symbol_rows; total_bytes = string_offset + length names in
       guarded [(names = [] \<or> int (length names) > MAX_STRING_BYTES \<or> int total_bytes > MAX_BUNDLE_BYTES, ''psym_string_size'')]
       (let output = slice_assign (zeros total_bytes) 0 8 PSYM_MAGIC in
        rbind (pack_into output 8 [(2, PSYM_MAJOR_VERSION), (2, PSYM_MINOR_VERSION), (2, int PSYM_HEADER_BYTES), (2, int SEGMENT_BYTES),
          (2, int SYMBOL_BYTES), (2, 0)]) (\<lambda>output.
        rbind (pack_into output 20 [(4, PSYM_REQUIRED_FLAGS)]) (\<lambda>output.
        rbind (pack_into output 24 [(2, PROFILE_PUBLIC_DIAGNOSTIC), (2, ADDRESS_IMAGE_RELATIVE), (2, NAME_ASCII_OPAQUE), (2, PRIVACY_PUBLIC),
          (4, int (length segments)), (4, int (length symbols))]) (\<lambda>output.
        rbind (pack_into output 40 [(8, int total_bytes), (8, int segment_offset), (8, int symbol_offset), (8, int string_offset),
          (8, int (length names)), (8, pa_image_bytes a), (8, pa_preferred_virtual_base a), (8, pa_virtual_window_end_exclusive a),
          (8, pa_slide_alignment a), (8, pa_entry_offset a)]) (\<lambda>output.
        rbind (pack_into output 120 [(4, MAX_SEGMENTS), (4, MAX_SYMBOLS), (4, MAX_NAME_BYTES), (4, MAX_LOOKUP_STEPS), (2, LOOKUP_BINARY_SEARCH),
          (2, MANGLING_OPAQUE_LINKER), (2, POINTER_REDACT_RUNTIME), (2, 0)]) (\<lambda>output.
        rbind (put_identity (pa_identity a) output) (\<lambda>output.
        let output = slice_assign output segment_offset symbol_offset segment_rows;
            output = slice_assign output symbol_offset string_offset symbol_rows;
            output = slice_assign output string_offset (length output) names;
            output = slice_assign output 304 336 (sha256 (drop PSYM_HEADER_BYTES output)) in
        rbind (psym_parse output) (\<lambda>_. Inr output))))))))))))"

section \<open>The consumption gate\<close>

definition string_total :: "sy_bundle \<Rightarrow> int" where
  "string_total b = sum_list (map (\<lambda>s. int (length (sm_name s))) (sb_symbols b))"

definition development_consumption_context :: "sy_bundle \<Rightarrow> string \<Rightarrow> consumption_context" where
  "development_consumption_context b outer_file = \<lparr>cc_outer_role = 4, cc_outer_version = 1, cc_outer_payload_sha256 = hex_upper (sha256 (sb_raw b)),
     cc_outer_file_sha256 = outer_file, cc_expected_outer_file_sha256 = outer_file, cc_outer_signature_verified = False,
     cc_inner_signature_verified = False, cc_manifest_signature_verified = False, cc_kernel_signature_verified = False,
     cc_canonical_file_sha256 = si_canonical_file_sha256 (sb_identity b), cc_preferred_loaded_sha256 = si_preferred_loaded_sha256 (sb_identity b),
     cc_build_id_sha256 = si_build_id_sha256 (sb_identity b), cc_debug_file_sha256 = si_debug_file_sha256 (sb_identity b),
     cc_source_manifest_sha256 = si_source_manifest_sha256 (sb_identity b), cc_identity_evidence_verified = False,
     cc_stripped_correspondence_verified = False, cc_dwarf5_verified = False, cc_public_policy_verified = False,
     cc_source_paths_absent = False, cc_pointer_redaction_enabled = True, cc_diagnostics_authorized = False,
     cc_runtime_base = sb_preferred_virtual_base b, cc_symbol_capacity = int (length (sb_symbols b)), cc_string_capacity = string_total b,
     cc_lookup_step_capacity = MAX_LOOKUP_STEPS, cc_authority_effect_requested = False\<rparr>"

definition synthetic_qualified_consumption_context :: "sy_bundle \<Rightarrow> string \<Rightarrow> consumption_context" where
  "synthetic_qualified_consumption_context b outer_file = (development_consumption_context b outer_file)\<lparr>
     cc_outer_signature_verified := True, cc_inner_signature_verified := True, cc_manifest_signature_verified := True,
     cc_kernel_signature_verified := True, cc_identity_evidence_verified := True, cc_stripped_correspondence_verified := True,
     cc_dwarf5_verified := True, cc_public_policy_verified := True, cc_source_paths_absent := True, cc_pointer_redaction_enabled := True,
     cc_diagnostics_authorized := True\<rparr>"

definition consumption_checks :: "sy_bundle \<Rightarrow> consumption_context \<Rightarrow> (bool \<times> string) list" where
  "consumption_checks b c = [
     (cc_outer_signature_verified c, ''psym_activation_outer_signature''),
     (cc_inner_signature_verified c, ''psym_activation_inner_signature''),
     (cc_manifest_signature_verified c, ''psym_activation_manifest_signature''),
     (cc_kernel_signature_verified c, ''psym_activation_kernel_signature''),
     (cc_outer_role c = 4, ''psym_activation_outer_role''),
     (cc_outer_version c = PSYM_MAJOR_VERSION, ''psym_activation_outer_version''),
     (cc_outer_payload_sha256 c = hex_upper (sha256 (sb_raw b)), ''psym_activation_outer_payload_digest''),
     (cc_outer_file_sha256 c = cc_expected_outer_file_sha256 c \<and> cc_outer_file_sha256 c \<noteq> replicate 64 (CHR ''0''), ''psym_activation_outer_file_digest''),
     (cc_canonical_file_sha256 c = si_canonical_file_sha256 (sb_identity b), ''psym_activation_canonical_identity''),
     (cc_preferred_loaded_sha256 c = si_preferred_loaded_sha256 (sb_identity b), ''psym_activation_loaded_identity''),
     (cc_build_id_sha256 c = si_build_id_sha256 (sb_identity b), ''psym_activation_build_id''),
     (cc_debug_file_sha256 c = si_debug_file_sha256 (sb_identity b), ''psym_activation_debug_identity''),
     (cc_source_manifest_sha256 c = si_source_manifest_sha256 (sb_identity b), ''psym_activation_source_identity''),
     (cc_identity_evidence_verified c, ''psym_activation_identity_evidence''),
     (cc_stripped_correspondence_verified c, ''psym_activation_stripped_correspondence''),
     (cc_dwarf5_verified c, ''psym_activation_dwarf5''),
     (cc_public_policy_verified c, ''psym_activation_public_policy''),
     (cc_source_paths_absent c, ''psym_activation_source_paths''),
     (cc_pointer_redaction_enabled c, ''psym_activation_pointer_redaction''),
     (cc_diagnostics_authorized c, ''psym_activation_diagnostics_authority''),
     (sb_preferred_virtual_base b \<le> cc_runtime_base c \<and> cc_runtime_base c \<le> sb_virtual_window_end_exclusive b - sb_image_bytes b \<and>
      (cc_runtime_base c - sb_preferred_virtual_base b) mod sb_slide_alignment b = 0, ''psym_activation_runtime_base''),
     (cc_symbol_capacity c \<ge> int (length (sb_symbols b)), ''psym_activation_symbol_capacity''),
     (cc_string_capacity c \<ge> string_total b, ''psym_activation_string_capacity''),
     (cc_lookup_step_capacity c \<ge> MAX_LOOKUP_STEPS, ''psym_activation_lookup_capacity''),
     (\<not> cc_authority_effect_requested c, ''psym_activation_authority_effect'')]"

definition consumption_errors :: "sy_bundle \<Rightarrow> consumption_context \<Rightarrow> string list" where
  "consumption_errors b c = map snd (filter (\<lambda>(passed, code). \<not> passed) (consumption_checks b c))"

definition authorize_consumption :: "sy_bundle \<Rightarrow> consumption_context \<Rightarrow> unit res" where
  "authorize_consumption b c = (case consumption_errors b c of [] \<Rightarrow> Inr () | e # _ \<Rightarrow> Inl (Fail e))"

section \<open>The bundles of the module\<close>

definition psym_segment :: "int \<Rightarrow> int \<Rightarrow> int \<Rightarrow> int \<Rightarrow> int \<Rightarrow> sy_segment" where
  "psym_segment i kind flags start n = \<lparr>sg_segment_id = i, sg_kind = kind, sg_flags = flags, sg_start_offset = start, sg_byte_count = n\<rparr>"

definition psym_symbol :: "int \<Rightarrow> int \<Rightarrow> int \<Rightarrow> int \<Rightarrow> int \<Rightarrow> int \<Rightarrow> string \<Rightarrow> sy_symbol" where
  "psym_symbol i segment kind flags start n name = \<lparr>sm_symbol_id = i, sm_segment_id = segment, sm_kind = kind, sm_binding = BIND_GLOBAL,
     sm_visibility = VISIBILITY_DEFAULT, sm_privacy = PRIVACY_PUBLIC, sm_flags = flags, sm_start_offset = start, sm_byte_count = n, sm_name = name\<rparr>"

definition canonical_segments :: "sy_segment list" where
  "canonical_segments = [psym_segment 1 SEGMENT_RODATA SEGMENT_READ 0 0xA000,
     psym_segment 2 SEGMENT_TEXT (SEGMENT_READ OR SEGMENT_EXECUTE) 0xA000 0x6B000,
     psym_segment 3 SEGMENT_RELRO_DATA (SEGMENT_READ OR SEGMENT_RELRO) 0x75000 0xE000,
     psym_segment 4 SEGMENT_DATA_BSS (SEGMENT_READ OR SEGMENT_WRITE) 0x83000 0x12000]"

definition canonical_symbols :: "sy_symbol list" where
  "canonical_symbols = (let public = SYMBOL_EXECUTABLE OR SYMBOL_DIAGNOSTIC_PUBLIC in [
     psym_symbol 1 2 SYMBOL_FUNCTION (public OR SYMBOL_ENTRY) 0xA000 71 ''poole_kernel_entry'',
     psym_symbol 2 2 SYMBOL_FUNCTION (public OR SYMBOL_PANIC_SAFE) 174238 198 ''poole_kernel_emergency_panic'',
     psym_symbol 3 2 SYMBOL_FUNCTION public 174436 70900 ''poole_kernel_rust_entry''])"

definition canonical_identity :: sy_identity where
  "canonical_identity = \<lparr>si_canonical_file_sha256 = CANONICAL_FILE_SHA256, si_preferred_loaded_sha256 = CANONICAL_LOADED_SHA256,
     si_build_id_sha256 = CANONICAL_BUILD_ID_SHA256, si_debug_file_sha256 = CANONICAL_DEBUG_SHA256,
     si_source_manifest_sha256 = CANONICAL_SOURCE_MANIFEST_SHA256\<rparr>"

definition psym_default_args :: "sy_identity \<Rightarrow> sy_segment list \<Rightarrow> sy_symbol list \<Rightarrow> int \<Rightarrow> int \<Rightarrow> psym_args" where
  "psym_default_args i segments symbols image_bytes entry_offset = \<lparr>pa_identity = i, pa_segments = segments, pa_symbols = symbols,
     pa_image_bytes = image_bytes, pa_entry_offset = entry_offset, pa_preferred_virtual_base = PREFERRED_VIRTUAL_BASE,
     pa_virtual_window_end_exclusive = VIRTUAL_WINDOW_END_EXCLUSIVE, pa_slide_alignment = SLIDE_ALIGNMENT\<rparr>"

definition psym_canonical_bundle :: "bytes res" where
  "psym_canonical_bundle = psym_encode (psym_default_args canonical_identity canonical_segments canonical_symbols CANONICAL_IMAGE_BYTES
     CANONICAL_ENTRY_OFFSET)"

definition fixture_digest :: "string \<Rightarrow> string" where
  "fixture_digest label = hex_upper (sha256 (ascii_bytes (''PSYM1-FIXTURE/'' @ label)))"

definition fixture_identity :: "string \<Rightarrow> sy_identity" where
  "fixture_identity kind = (let label = (\<lambda>index. fixture_digest (kind @ ''/'' @ [hex_digit index])) in
     \<lparr>si_canonical_file_sha256 = label 0, si_preferred_loaded_sha256 = label 1, si_build_id_sha256 = label 2,
      si_debug_file_sha256 = label 3, si_source_manifest_sha256 = label 4\<rparr>)"

definition psym_minimal_bundle :: "bytes res" where
  "psym_minimal_bundle = psym_encode (psym_default_args (fixture_identity ''minimal'')
     [psym_segment 1 SEGMENT_TEXT (SEGMENT_READ OR SEGMENT_EXECUTE) 0 4096]
     [psym_symbol 1 1 SYMBOL_FUNCTION (SYMBOL_EXECUTABLE OR SYMBOL_ENTRY OR SYMBOL_DIAGNOSTIC_PUBLIC) 0 64 ''poole_kernel_entry''] 4096 0)"

definition psym_boundary_bundle :: "bytes res" where
  "psym_boundary_bundle = (let max_name = ''P'' @ replicate (nat (MAX_NAME_BYTES - 1)) (CHR ''A'') in
     psym_encode (psym_default_args (fixture_identity ''boundary'')
       [psym_segment 1 SEGMENT_TEXT (SEGMENT_READ OR SEGMENT_EXECUTE) 0 8192, psym_segment 2 SEGMENT_DATA_BSS (SEGMENT_READ OR SEGMENT_WRITE) 8192 4096]
       [psym_symbol 1 1 SYMBOL_FUNCTION (SYMBOL_EXECUTABLE OR SYMBOL_ENTRY OR SYMBOL_DIAGNOSTIC_PUBLIC) 0 32 ''poole_kernel_entry'',
        psym_symbol 2 1 SYMBOL_FUNCTION (SYMBOL_EXECUTABLE OR SYMBOL_DIAGNOSTIC_PUBLIC) 4096 128 max_name,
        psym_symbol 3 2 SYMBOL_OBJECT SYMBOL_DIAGNOSTIC_PUBLIC 8192 64 ''POOLE_PUBLIC_STATE''] 12288 0))"

end
