(* ===== verification/Symbols_Lookup.thy ===== *)
theory Symbols_Lookup
  imports Symbols
begin

text \<open>
  What the parser of symbol bundles guarantees, that the bounded binary search is a linear search on parsed bundles and
  never exhausts its step limit, and the gate in front of consumers.
\<close>

unbundle bit_operations_syntax

section \<open>Parsed segments\<close>

fun segments_tile :: "int \<Rightarrow> sy_segment list \<Rightarrow> int \<Rightarrow> bool" where
  "segments_tile a [] b \<longleftrightarrow> a = b"
| "segments_tile a (g # gs) b \<longleftrightarrow> sg_start_offset g = a \<and> 0 < sg_byte_count g \<and> segments_tile (a + sg_byte_count g) gs b"

lemma checked_end_Inr: "checked_end a n m code = Inr e \<longleftrightarrow> 0 \<le> a \<and> 0 < n \<and> a + n \<le> m \<and> e = a + n"
  by (auto simp: checked_end_def guarded.simps)

definition segment_wf :: "nat \<Rightarrow> sy_segment \<Rightarrow> bool" where
  "segment_wf k g \<longleftrightarrow> sg_segment_id g = int k + 1 \<and> SEGMENT_FLAGS_BY_KIND (sg_kind g) = Some (sg_flags g) \<and>
     \<not> (sg_flags g AND SEGMENT_WRITE \<noteq> 0 \<and> sg_flags g AND SEGMENT_EXECUTE \<noteq> 0)"

lemma parse_segment_Inr:
  assumes "parse_segment d n k (gs, p) = Inr (gs', p')"
  shows "\<exists>g. gs' = gs @ [g] \<and> segment_wf k g \<and> sg_start_offset g = p \<and> 0 < sg_byte_count g \<and> p' = p + sg_byte_count g"
  using assms unfolding parse_segment_def prod.case Let_def guarded_Inr_iff rbind_Inr_iff checked_end_Inr
  by (auto simp: segment_wf_def)

lemma parse_segments:
  assumes "rfold (parse_segment d n) [k..<k + m] (gs, p) = Inr (gs', p')"
  shows "\<exists>ss. gs' = gs @ ss \<and> length ss = m \<and> segments_tile p ss p' \<and> (\<forall>j < m. segment_wf (k + j) (ss ! j))"
  using assms
proof (induction m arbitrary: k gs p)
  case (Suc m)
  have u: "[k..<k + Suc m] = k # [Suc k..<Suc k + m]" by (simp add: upt_conv_Cons)
  obtain gs1 p1 where s: "parse_segment d n k (gs, p) = Inr (gs1, p1)" "rfold (parse_segment d n) [Suc k..<Suc k + m] (gs1, p1) = Inr (gs', p')"
    using Suc.prems unfolding u by (auto simp: rbind_Inr_iff)
  obtain g where g: "gs1 = gs @ [g]" "segment_wf k g" "sg_start_offset g = p" "0 < sg_byte_count g" "p1 = p + sg_byte_count g"
    using parse_segment_Inr [OF s(1)] by blast
  obtain ss where ss: "gs' = gs1 @ ss" "length ss = m" "segments_tile p1 ss p'" "\<forall>j < m. segment_wf (Suc k + j) (ss ! j)"
    using Suc.IH [OF s(2)] by blast
  have "\<forall>j < Suc m. segment_wf (k + j) ((g # ss) ! j)" using g(2) ss(4) by (auto simp: nth_Cons split: nat.splits)
  then show ?case using g ss by (intro exI [of _ "g # ss"]) auto
qed auto

section \<open>Parsed symbols\<close>

definition sm_end :: "sy_symbol \<Rightarrow> int" where
  "sm_end s = sm_start_offset s + sm_byte_count s"

definition symbol_wf :: "sy_segment list \<Rightarrow> int \<Rightarrow> sy_symbol \<Rightarrow> bool" where
  "symbol_wf gs entry s \<longleftrightarrow> 0 < sm_byte_count s \<and> 1 \<le> sm_segment_id s \<and> sm_segment_id s \<le> int (length gs) \<and>
     (let g = gs ! nat (sm_segment_id s - 1) in sg_start_offset g \<le> sm_start_offset s \<and> sm_end s \<le> sg_start_offset g + sg_byte_count g \<and>
       (sm_kind s = SYMBOL_FUNCTION \<longleftrightarrow> sg_flags g AND SEGMENT_EXECUTE \<noteq> 0)) \<and>
     (sm_flags s AND SYMBOL_ENTRY \<noteq> 0 \<longrightarrow> sm_start_offset s = entry \<and> sm_name s = ''poole_kernel_entry'')"

abbreviation entries :: "sy_symbol list \<Rightarrow> sy_symbol list" where
  "entries \<equiv> filter (\<lambda>s. sm_flags s AND SYMBOL_ENTRY \<noteq> 0)"

lemma place_symbol_Inr:
  "place_symbol gs n e k s m sc = Inr sc' \<longleftrightarrow>
    (let g = gs ! nat (sm_segment_id s - 1); entry = sm_flags s AND SYMBOL_ENTRY \<noteq> 0 in
     0 \<le> sm_start_offset s \<and> 0 < sm_byte_count s \<and> sm_end s \<le> n \<and> (k \<noteq> 0 \<longrightarrow> sc_previous_symbol_end sc \<le> sm_start_offset s) \<and>
     sg_start_offset g \<le> sm_start_offset s \<and> sm_end s \<le> sg_start_offset g + sg_byte_count g \<and>
     (if sm_kind s = SYMBOL_FUNCTION then sg_flags g AND SEGMENT_EXECUTE \<noteq> 0 \<and> sm_flags s AND SYMBOL_EXECUTABLE \<noteq> 0
      else sg_flags g AND SEGMENT_EXECUTE = 0 \<and> sm_flags s AND SYMBOL_EXECUTABLE = 0) \<and>
     (entry \<longrightarrow> sm_start_offset s = e \<and> sm_kind s = SYMBOL_FUNCTION \<and> sm_name s = ''poole_kernel_entry'') \<and>
     sc' = \<lparr>sc_symbols = sc_symbols sc @ [s], sc_expected_name_offset = sc_expected_name_offset sc + m, sc_previous_symbol_end = sm_end s,
       sc_entry_count = sc_entry_count sc + (if entry then 1 else 0)\<rparr>)"
  unfolding place_symbol_def Let_def guarded_Inr_iff rbind_Inr_iff checked_end_Inr check_symbol_permissions_def sm_end_def
  by (auto simp: not_less)

lemma parse_symbol_Inr:
  assumes "parse_symbol d so st sz n e gs k sc = Inr sc'"
  shows "\<exists>s. sc_symbols sc' = sc_symbols sc @ [s] \<and> symbol_wf gs e s \<and> (k \<noteq> 0 \<longrightarrow> sc_previous_symbol_end sc \<le> sm_start_offset s) \<and>
    sc_previous_symbol_end sc' = sm_end s \<and> sc_entry_count sc' = sc_entry_count sc + int (length (entries [s]))"
proof -
  obtain s m dd off x nm where c: "list_all (\<lambda>(bad, _). \<not> bad) (symbol_checks dd off sz (length gs) k x nm s)"
    and p: "place_symbol gs n e k s m sc = Inr sc'"
    using assms unfolding parse_symbol_def Let_def guarded_Inr_iff by blast
  have "1 \<le> sm_segment_id s" "sm_segment_id s \<le> int (length gs)" using c by (simp_all add: symbol_checks_def Let_def)
  with p show ?thesis unfolding place_symbol_Inr Let_def by (intro exI [of _ s]) (auto simp: symbol_wf_def split: if_splits)
qed

lemma parse_symbols:
  assumes "rfold (parse_symbol d so st sz n e gs) [k..<k + m] sc = Inr sc'"
  shows "\<exists>ss. sc_symbols sc' = sc_symbols sc @ ss \<and> length ss = m \<and> list_all (symbol_wf gs e) ss \<and>
    sorted_wrt (\<lambda>a b. sm_end a \<le> sm_start_offset b) ss \<and> (k \<noteq> 0 \<longrightarrow> list_all (\<lambda>s. sc_previous_symbol_end sc \<le> sm_start_offset s) ss) \<and>
    sc_entry_count sc' = sc_entry_count sc + int (length (entries ss))"
  using assms
proof (induction m arbitrary: k sc)
  case (Suc m)
  have u: "[k..<k + Suc m] = k # [Suc k..<Suc k + m]" by (simp add: upt_conv_Cons)
  obtain sc1 where s: "parse_symbol d so st sz n e gs k sc = Inr sc1" "rfold (parse_symbol d so st sz n e gs) [Suc k..<Suc k + m] sc1 = Inr sc'"
    using Suc.prems unfolding u by (auto simp: rbind_Inr_iff)
  obtain a where a: "sc_symbols sc1 = sc_symbols sc @ [a]" "symbol_wf gs e a" "k \<noteq> 0 \<longrightarrow> sc_previous_symbol_end sc \<le> sm_start_offset a"
    "sc_previous_symbol_end sc1 = sm_end a" "sc_entry_count sc1 = sc_entry_count sc + int (length (entries [a]))"
    using parse_symbol_Inr [OF s(1)] by blast
  obtain ss where ss: "sc_symbols sc' = sc_symbols sc1 @ ss" "length ss = m" "list_all (symbol_wf gs e) ss"
    "sorted_wrt (\<lambda>a b. sm_end a \<le> sm_start_offset b) ss" "list_all (\<lambda>s. sm_end a \<le> sm_start_offset s) ss"
    "sc_entry_count sc' = sc_entry_count sc1 + int (length (entries ss))"
    using Suc.IH [OF s(2)] a(4) by auto
  have "sm_start_offset a < sm_end a" using a(2) by (simp add: symbol_wf_def sm_end_def)
  then have "k \<noteq> 0 \<longrightarrow> list_all (\<lambda>s. sc_previous_symbol_end sc \<le> sm_start_offset s) (a # ss)"
    using a(3) ss(5) by (fastforce simp: list_all_iff)
  then show ?case using a ss by (intro exI [of _ "a # ss"]) (auto simp: list_all_iff)
qed auto

definition bundle_wf :: "sy_bundle \<Rightarrow> bool" where
  "bundle_wf b \<longleftrightarrow> segments_tile 0 (sb_segments b) (sb_image_bytes b) \<and> length (sb_segments b) \<le> 16 \<and>
     (\<forall>j < length (sb_segments b). segment_wf j (sb_segments b ! j)) \<and>
     list_all (symbol_wf (sb_segments b) (sb_entry_offset b)) (sb_symbols b) \<and> length (sb_symbols b) \<le> 4096 \<and>
     sorted_wrt (\<lambda>a c. sm_end a \<le> sm_start_offset c) (sb_symbols b) \<and> length (entries (sb_symbols b)) = 1 \<and>
     sb_preferred_virtual_base b + sb_image_bytes b \<le> sb_virtual_window_end_exclusive b"

lemma psym_parse_wf:
  assumes "psym_parse d = Inr b"
  shows "bundle_wf b"
proof -
  obtain gs p sc where c: "list_all (\<lambda>(bad, _). \<not> bad) (psym_header_checks d)"
    and g: "rfold (parse_segment d (rd 8 d 80)) [0..<0 + nat (rd 4 d 32)] ([], 0) = Inr (gs, p)" "p = rd 8 d 80"
    and s: "rfold (parse_symbol d (nat (rd 8 d 56)) (nat (rd 8 d 64)) (rd 8 d 72) (rd 8 d 80) (rd 8 d 112) gs) [0..<0 + nat (rd 4 d 36)]
      \<lparr>sc_symbols = [], sc_expected_name_offset = 0, sc_previous_symbol_end = 0, sc_entry_count = 0\<rparr> = Inr sc" "sc_entry_count sc = 1"
    and b: "sb_image_bytes b = rd 8 d 80" "sb_preferred_virtual_base b = rd 8 d 88" "sb_virtual_window_end_exclusive b = rd 8 d 96"
      "sb_entry_offset b = rd 8 d 112" "sb_segments b = gs" "sb_symbols b = sc_symbols sc"
    using assms unfolding psym_parse_def Let_def guarded_Inr_iff rbind_Inr_iff by (auto split: prod.splits simp: guarded_Inr_iff rbind_Inr_iff)
  have h: "rd 4 d 32 \<le> 16" "rd 4 d 36 \<le> 4096" "\<not> rd 8 d 80 > rd 8 d 96 - rd 8 d 88"
    using c by (simp_all add: psym_header_checks_def Let_def code_defs)
  obtain ss where ss: "gs = ss" "length ss = nat (rd 4 d 32)" "segments_tile 0 ss p" "\<forall>j < nat (rd 4 d 32). segment_wf j (ss ! j)"
    using parse_segments [OF g(1)] by auto
  obtain ms where ms: "sc_symbols sc = ms" "length ms = nat (rd 4 d 36)" "list_all (symbol_wf gs (rd 8 d 112)) ms"
    "sorted_wrt (\<lambda>a c. sm_end a \<le> sm_start_offset c) ms" "length (entries ms) = 1"
    using parse_symbols [OF s(1)] s(2) by auto
  show ?thesis unfolding bundle_wf_def b using ss ms h g(2) by auto
qed

section \<open>Binary search\<close>

definition covers :: "int \<Rightarrow> sy_symbol \<Rightarrow> bool" where
  "covers t s \<longleftrightarrow> sm_start_offset s \<le> t \<and> t < sm_end s"

definition located :: "int \<Rightarrow> int \<Rightarrow> sy_symbol option \<Rightarrow> lookup_result option" where
  "located t k = map_option (\<lambda>s. \<lparr>lr_symbol = s, lr_symbol_offset = t - sm_start_offset s, lr_steps = k\<rparr>)"

text \<open>Ordered symbols: an address lies in at most one of them.\<close>

lemma find_covers:
  assumes "sorted_wrt (\<lambda>a c. sm_end a \<le> sm_start_offset c) ss" "i < length ss" "covers t (ss ! i)"
  shows "find (covers t) ss = Some (ss ! i)"
proof -
  have "\<not> covers t (ss ! j)" if "j < i" for j
    using sorted_wrt_nth_less [OF assms(1) that assms(2)] assms(3) by (auto simp: covers_def)
  then show ?thesis using assms(2, 3) by (auto simp: find_Some_iff)
qed

lemma find_uncovered:
  assumes "high \<le> low" "\<forall>j < low. sm_end (ss ! j) \<le> t" "\<forall>j < length ss. high \<le> j \<longrightarrow> t < sm_start_offset (ss ! j)"
  shows "find (covers t) ss = None"
proof -
  have "\<not> covers t (ss ! j)" if "j < length ss" for j
    using assms that by (cases "j < low") (auto simp: covers_def)
  then show ?thesis by (simp add: find_None_iff in_set_conv_nth) blast
qed

lemma lookup_loop_spec:
  assumes srt: "sorted_wrt (\<lambda>a c. sm_end a \<le> sm_start_offset c) ss" and pos: "\<forall>s \<in> set ss. 0 < sm_byte_count s"
    and "high \<le> length ss" "\<forall>j < low. sm_end (ss ! j) \<le> t" "\<forall>j < length ss. high \<le> j \<longrightarrow> t < sm_start_offset (ss ! j)"
    "0 \<le> steps" "high - low < 2 ^ n" "steps + int n \<le> 13"
  shows "\<exists>k. 0 \<le> k \<and> k \<le> 13 \<and> lookup_loop ss t low high steps = Inr (located t k (find (covers t) ss))"
  using assms(3-)
proof (induction n arbitrary: low high steps)
  case 0
  then have "find (covers t) ss = None" by (intro find_uncovered [of high low]) auto
  then show ?case using 0 by (subst lookup_loop.simps) (auto simp: located_def)
next
  case (Suc n)
  define m where "m = low + (high - low) div 2"
  show ?case
  proof (cases "low < high")
    case True
    then have m: "low \<le> m" "m < high" "m < length ss" "m - low < 2 ^ n" "high - (m + 1) < 2 ^ n"
      using Suc.prems(1, 5) by (auto simp: m_def)
    have st: "\<not> steps + 1 > MAX_LOOKUP_STEPS" using Suc.prems(6) by (simp add: MAX_LOOKUP_STEPS_def)
    note step = lookup_loop.simps [of ss t low high steps, folded m_def, unfolded Let_def, folded m_def, simplified True st if_True if_False]
    have pm: "sm_start_offset (ss ! m) < sm_end (ss ! m)" using pos m(3) by (simp add: sm_end_def)
    have after: "sm_start_offset (ss ! m) \<le> sm_start_offset (ss ! j)" if "m \<le> j" "j < length ss" for j
    proof (cases "m = j")
      case False
      then have "sm_end (ss ! m) \<le> sm_start_offset (ss ! j)" using sorted_wrt_nth_less [OF srt, of m j] that by simp
      then show ?thesis using pm by simp
    qed simp
    have before: "sm_end (ss ! j) \<le> sm_end (ss ! m)" if "j \<le> m" for j
    proof (cases "m = j")
      case False
      then have "sm_end (ss ! j) \<le> sm_start_offset (ss ! m)" using sorted_wrt_nth_less [OF srt, of j m] that m(3) by simp
      then show ?thesis using pm by simp
    qed simp
    consider "t < sm_start_offset (ss ! m)" | "sm_end (ss ! m) \<le> t" | "covers t (ss ! m)" unfolding covers_def by linarith
    then show ?thesis
    proof cases
      case 1
      have "\<exists>k. 0 \<le> k \<and> k \<le> 13 \<and> lookup_loop ss t low m (steps + 1) = Inr (located t k (find (covers t) ss))"
        using Suc.prems m 1 after by (intro Suc.IH) (auto intro: less_le_trans)
      then show ?thesis using 1 step by simp
    next
      case 2
      have "\<exists>k. 0 \<le> k \<and> k \<le> 13 \<and> lookup_loop ss t (m + 1) high (steps + 1) = Inr (located t k (find (covers t) ss))"
        using Suc.prems m 2 before by (intro Suc.IH) (auto intro: order_trans simp: less_Suc_eq_le)
      moreover have "\<not> t < sm_start_offset (ss ! m)" using 2 pm by simp
      ultimately show ?thesis using 2 step by (simp add: sm_end_def)
    next
      case 3
      then have "lookup_loop ss t low high steps = Inr (located t (steps + 1) (find (covers t) ss))"
        using find_covers [OF srt m(3) 3] step by (simp add: located_def covers_def sm_end_def)
      then show ?thesis using Suc.prems(4, 6) by (intro exI [of _ "steps + 1"]) simp
    qed
  next
    case False
    then have "find (covers t) ss = None" using Suc.prems(2, 3) by (intro find_uncovered [of high low]) auto
    then show ?thesis using False by (subst lookup_loop.simps) (auto simp: located_def)
  qed
qed

section \<open>The consumption gate\<close>

interpretation consumption_gate: gate consumption_checks consumption_errors authorize_consumption
  by unfold_locales (simp_all add: consumption_errors_def authorize_consumption_def)

section \<open>Theorems\<close>

text \<open>
  An accepted symbol bundle is consistent: its segments tile the image without a gap, none is writable and executable;
  the symbols lie in ascending order without overlap, each inside its segment and a function exactly when that segment is
  executable; and exactly one of them is the entry point, named and placed as the header says.
\<close>

theorem psym_parse_sound:
  assumes "psym_parse d = Inr b"
  shows "segments_tile 0 (sb_segments b) (sb_image_bytes b) \<and>
    (\<forall>j < length (sb_segments b). segment_wf j (sb_segments b ! j)) \<and>
    list_all (symbol_wf (sb_segments b) (sb_entry_offset b)) (sb_symbols b) \<and>
    sorted_wrt (\<lambda>a c. sm_end a \<le> sm_start_offset c) (sb_symbols b) \<and>
    (\<exists>s. entries (sb_symbols b) = [s] \<and> sm_start_offset s = sb_entry_offset b \<and> sm_name s = ''poole_kernel_entry'')"
proof -
  have w: "bundle_wf b" by (rule psym_parse_wf [OF assms])
  then obtain s where s: "entries (sb_symbols b) = [s]" by (auto simp: bundle_wf_def length_Suc_conv)
  then have "s \<in> set (entries (sb_symbols b))" by simp
  then have "s \<in> set (sb_symbols b)" "sm_flags s AND SYMBOL_ENTRY \<noteq> 0" by simp_all
  then have "sm_start_offset s = sb_entry_offset b" "sm_name s = ''poole_kernel_entry''"
    using w by (auto simp: bundle_wf_def list_all_iff symbol_wf_def)
  with w s show ?thesis by (simp add: bundle_wf_def)
qed

text \<open>
  C10. On an accepted bundle the binary search is a linear search: for every base and address the lookup raises exactly the
  documented errors, and otherwise returns the symbol that contains the address, or nothing when no symbol does. It never
  exhausts its bound of thirteen steps.
\<close>

theorem psym_lookup_is_search:
  assumes "psym_parse d = Inr b"
  shows "\<exists>k. 0 \<le> k \<and> k \<le> MAX_LOOKUP_STEPS \<and> psym_lookup b base address =
    (if base < sb_preferred_virtual_base b \<or> base > sb_virtual_window_end_exclusive b - sb_image_bytes b \<or>
        (base - sb_preferred_virtual_base b) mod sb_slide_alignment b \<noteq> 0 \<or> \<not> is_canonical_x86_64 base
     then Inl (Fail ''psym_lookup_base'')
     else if address < base \<or> address \<ge> base + sb_image_bytes b \<or> \<not> is_canonical_x86_64 address
     then Inl (Fail ''psym_lookup_address'')
     else Inr (located (address - base) k (find (covers (address - base)) (sb_symbols b))))"
proof -
  have w: "sorted_wrt (\<lambda>a c. sm_end a \<le> sm_start_offset c) (sb_symbols b)" "\<forall>s \<in> set (sb_symbols b). 0 < sm_byte_count s"
    "length (sb_symbols b) < 2 ^ 13"
    using psym_parse_wf [OF assms] by (auto simp: bundle_wf_def list_all_iff symbol_wf_def)
  have "\<exists>k. 0 \<le> k \<and> k \<le> 13 \<and> lookup_loop (sb_symbols b) (address - base) 0 (length (sb_symbols b)) 0 =
      Inr (located (address - base) k (find (covers (address - base)) (sb_symbols b)))"
    using w by (intro lookup_loop_spec [where n = 13]) simp_all
  then show ?thesis by (auto simp: psym_lookup_def guarded.simps MAX_LOOKUP_STEPS_def)
qed

text \<open>
  The consumption gate: a consumer is authorised exactly when all twenty-five conditions hold. The development context
  of an accepted bundle is always refused for its missing outer signature; the synthetic qualified one is authorised
  exactly when it names an outer file digest.
\<close>

theorem psym_consumption_gate:
  assumes "psym_parse d = Inr b"
  shows "(authorize_consumption b c = Inr () \<longleftrightarrow> list_all fst (consumption_checks b c)) \<and>
    authorize_consumption b (development_consumption_context b f) = Inl (Fail ''psym_activation_outer_signature'') \<and>
    (authorize_consumption b (synthetic_qualified_consumption_context b f) = Inr () \<longleftrightarrow> f \<noteq> replicate 64 (CHR ''0''))"
proof -
  have w: "sb_preferred_virtual_base b \<le> sb_virtual_window_end_exclusive b - sb_image_bytes b"
    using psym_parse_wf [OF assms] by (simp add: bundle_wf_def)
  have "authorize_consumption b (development_consumption_context b f) = Inl (Fail ''psym_activation_outer_signature'')"
    by (rule consumption_gate.authorize_first [where pre = "[]"])
      (auto simp: consumption_checks_def development_consumption_context_def)
  then show ?thesis
    using w by (simp add: consumption_gate.authorize_iff)
      (simp add: consumption_checks_def synthetic_qualified_consumption_context_def development_consumption_context_def code_defs)
qed

end
