(* ===== verification/Symbols_Codec.thy ===== *)
theory Symbols_Codec
  imports Symbols_Lookup Boot_Trust_Codec
begin

text \<open>
  The bytes of a symbol bundle: the image of its identity, segments and symbols. The parser accepts exactly the images of
  well-formed bundles, and the encoder writes them, so both invert each other.
\<close>

unbundle bit_operations_syntax

section \<open>Names\<close>

lemma ascii_bytes_string [simp]: "ascii_bytes (ascii_string bs) = bs"
  by (induction bs) (simp_all add: ascii_bytes_def ascii_string_def unat_byte_less)

lemma ascii_string_bytes [simp]: "ascii_string (ascii_bytes s) = s"
  by (induction s) (simp_all add: ascii_bytes_def ascii_string_def unat_of_nat)

lemma length_ascii_bytes [simp]: "length (ascii_bytes s) = length s"
  by (simp add: ascii_bytes_def)

section \<open>Rows\<close>

lemma row_back:
  assumes "bslice d b (b + n) = packed fs" "list_all (\<lambda>(n, v). fits n v) fs" "fld fs j m = Some v" "j + m \<le> n"
  shows "rd m d (b + j) = v"
  using rd_at_block [OF assms(1) assms(4)] rd_packed [OF assms(3, 2)] by simp

lemma length_segment_fields [simp]: "sum_list (map fst (segment_fields g)) = 32"
  by (simp add: segment_fields_def)

lemma length_symbol_fields [simp]: "sum_list (map fst (symbol_fields q nm s)) = 48"
  by (simp add: symbol_fields_def)

definition segment_at :: "bytes \<Rightarrow> nat \<Rightarrow> sy_segment" where
  "segment_at d b = \<lparr>sg_segment_id = rd 2 d b, sg_kind = rd 2 d (b + 2), sg_flags = rd 4 d (b + 4), sg_start_offset = rd 8 d (b + 8),
     sg_byte_count = rd 8 d (b + 16)\<rparr>"

definition segment_ok :: "int \<Rightarrow> nat \<Rightarrow> int \<Rightarrow> sy_segment \<Rightarrow> bool" where
  "segment_ok n k p g \<longleftrightarrow> segment_wf k g \<and> sg_start_offset g = p \<and> 0 \<le> p \<and> 0 < sg_byte_count g \<and> p + sg_byte_count g \<le> n"

lemma flags_by_kind: "SEGMENT_FLAGS_BY_KIND kind = Some f \<Longrightarrow> 1 \<le> kind \<and> kind \<le> 4 \<and> 0 \<le> f \<and> f < 16 \<and> f AND NOT SEGMENT_KNOWN_FLAGS = 0"
  by (auto simp: SEGMENT_FLAGS_BY_KIND_def code_defs split: if_splits)

lemma segment_fits:
  assumes "segment_ok n k p g" "n < 2 ^ 64" "k < 16"
  shows "list_all (\<lambda>(n, v). fits n v) (segment_fields g)"
  using assms flags_by_kind [of "sg_kind g" "sg_flags g"] by (auto simp: segment_ok_def segment_wf_def segment_fields_def fits_def)

lemma parse_segment_unfold:
  "parse_segment d n k (gs, p) = Inr (gs', p') \<longleftrightarrow>
    (let g = segment_at d (384 + k * 32) in segment_ok n k p g \<and> rd 8 d (384 + k * 32 + 24) = 0 \<and> gs' = gs @ [g] \<and> p' = p + sg_byte_count g)"
  using flags_by_kind [of "rd 2 d (384 + k * 32 + 2)" "rd 4 d (384 + k * 32 + 4)"]
  unfolding parse_segment_def prod.case Let_def guarded_Inr_iff rbind_Inr_iff checked_end_Inr PSYM_HEADER_BYTES_def SEGMENT_BYTES_def
  by (auto simp: segment_at_def segment_ok_def segment_wf_def)

lemma segment_row_iff:
  assumes "b + 32 \<le> length d" "n < 2 ^ 64" "k < 16"
  shows "segment_ok n k p (segment_at d b) \<and> rd 8 d (b + 24) = 0 \<and> g = segment_at d b \<longleftrightarrow>
    segment_ok n k p g \<and> bslice d b (b + 32) = packed (segment_fields g)"
proof
  assume a: "segment_ok n k p (segment_at d b) \<and> rd 8 d (b + 24) = 0 \<and> g = segment_at d b"
  then have "segment_fields g = read_fields d b [2, 2, 4, 8, 8, 8]"
    by (simp add: segment_fields_def segment_at_def add.assoc del: add_2_eq_Suc')
  then have "packed (segment_fields g) = bslice d b (b + 32)" using assms(1) by (simp only:) (subst packed_read_fields, simp_all)
  with a show "segment_ok n k p g \<and> bslice d b (b + 32) = packed (segment_fields g)" by simp
next
  assume a: "segment_ok n k p g \<and> bslice d b (b + 32) = packed (segment_fields g)"
  then have f: "list_all (\<lambda>(n, v). fits n v) (segment_fields g)" and row: "bslice d b (b + 32) = packed (segment_fields g)"
    using segment_fits assms by blast+
  note fields_back = row_back [OF row f]
  have "rd 2 d (b + 0) = sg_segment_id g" "rd 2 d (b + 2) = sg_kind g" "rd 4 d (b + 4) = sg_flags g" "rd 8 d (b + 8) = sg_start_offset g"
    "rd 8 d (b + 16) = sg_byte_count g" "rd 8 d (b + 24) = 0"
    by (rule fields_back; simp add: segment_fields_def)+
  then have "g = segment_at d b" "rd 8 d (b + 24) = 0" by (simp_all add: segment_at_def)
  then show "segment_ok n k p (segment_at d b) \<and> rd 8 d (b + 24) = 0 \<and> g = segment_at d b" using a by simp
qed

fun segments_ok :: "int \<Rightarrow> nat \<Rightarrow> int \<Rightarrow> sy_segment list \<Rightarrow> int \<Rightarrow> bool" where
  "segments_ok n k p [] p' \<longleftrightarrow> p = p'"
| "segments_ok n k p (g # gs) p' \<longleftrightarrow> segment_ok n k p g \<and> segments_ok n (Suc k) (p + sg_byte_count g) gs p'"

definition segment_rows :: "sy_segment list \<Rightarrow> bytes" where
  "segment_rows gs = concat (map (\<lambda>g. packed (segment_fields g)) gs)"

lemma length_segment_rows [simp]: "length (segment_rows gs) = 32 * length gs"
  by (induction gs) (simp_all add: segment_rows_def)

lemma bslice_app_iff:
  assumes "a + m \<le> length d" "length xs = m"
  shows "bslice d a (a + m + n) = xs @ ys \<longleftrightarrow> bslice d a (a + m) = xs \<and> bslice d (a + m) (a + m + n) = ys"
proof -
  have "bslice d a (a + m + n) = bslice d a (a + m) @ bslice d (a + m) (a + m + n)" using bslice_add [of a "a + m" "a + m + n" d] by simp
  moreover have "length (bslice d a (a + m)) = m" using assms(1) by (simp add: length_slice)
  ultimately show ?thesis using assms(2) by simp
qed

lemma parse_segments_iff:
  assumes "384 + (k + m) * 32 \<le> length d" "n < 2 ^ 64" "k + m \<le> 16"
  shows "rfold (parse_segment d n) [k..<k + m] (gs, p) = Inr (gs', p') \<longleftrightarrow>
    (\<exists>ss. gs' = gs @ ss \<and> length ss = m \<and> segments_ok n k p ss p' \<and> bslice d (384 + k * 32) (384 + k * 32 + 32 * m) = segment_rows ss)"
  using assms
proof (induction m arbitrary: k gs p)
  case 0
  then show ?case by (auto simp: segment_rows_def bslice_def)
next
  case (Suc m)
  let ?b = "384 + k * 32"
  have u: "[k..<k + Suc m] = k # [Suc k..<Suc k + m]" by (simp add: upt_conv_Cons)
  have b: "?b + 32 \<le> length d" "k < 16" using Suc.prems by simp_all
  have ih: "rfold (parse_segment d n) [Suc k..<Suc k + m] (gs1, p1) = Inr (gs', p') \<longleftrightarrow>
    (\<exists>ss. gs' = gs1 @ ss \<and> length ss = m \<and> segments_ok n (Suc k) p1 ss p' \<and> bslice d (?b + 32) (?b + 32 + 32 * m) = segment_rows ss)" for gs1 p1
    using Suc.IH [of "Suc k" gs1 p1] Suc.prems by (simp add: add.commute add.left_commute)
  have "rfold (parse_segment d n) [k..<k + Suc m] (gs, p) = Inr (gs', p') \<longleftrightarrow>
      (\<exists>g. segment_ok n k p (segment_at d ?b) \<and> rd 8 d (?b + 24) = 0 \<and> g = segment_at d ?b \<and>
        rfold (parse_segment d n) [Suc k..<Suc k + m] (gs @ [g], p + sg_byte_count g) = Inr (gs', p'))"
    unfolding u rfold.simps rbind_Inr_iff by (auto simp: parse_segment_unfold Let_def)
  also have "\<dots> \<longleftrightarrow> (\<exists>g ss. segment_ok n k p g \<and> bslice d ?b (?b + 32) = packed (segment_fields g) \<and> gs' = (gs @ [g]) @ ss \<and> length ss = m \<and>
        segments_ok n (Suc k) (p + sg_byte_count g) ss p' \<and> bslice d (?b + 32) (?b + 32 + 32 * m) = segment_rows ss)"
    unfolding ih using segment_row_iff [OF b(1) Suc.prems(2) b(2), of p] by blast
  also have "\<dots> \<longleftrightarrow> (\<exists>ss. gs' = gs @ ss \<and> length ss = Suc m \<and> segments_ok n k p ss p' \<and> bslice d ?b (?b + 32 + 32 * m) = segment_rows ss)"
  proof -
    define B where "B ss \<longleftrightarrow> bslice d ?b (?b + 32 + 32 * m) = segment_rows ss" for ss
    have "B (g # ss) \<longleftrightarrow>
        bslice d ?b (?b + 32) = packed (segment_fields g) \<and> bslice d (?b + 32) (?b + 32 + 32 * m) = segment_rows ss" for g ss
      using bslice_app_iff [OF b(1), of "packed (segment_fields g)" "32 * m" "segment_rows ss"] by (simp add: B_def segment_rows_def)
    then show ?thesis unfolding B_def [symmetric] by (auto simp: length_Suc_conv)
  qed
  finally show ?case by (simp add: add.assoc)
qed

section \<open>Symbol rows and names\<close>

definition symbol_static :: "nat \<Rightarrow> nat \<Rightarrow> sy_symbol \<Rightarrow> bool" where
  "symbol_static k ns s \<longleftrightarrow> sm_symbol_id s = int k + 1 \<and> 1 \<le> sm_segment_id s \<and> sm_segment_id s \<le> int ns \<and>
     sm_kind s \<in> {SYMBOL_FUNCTION, SYMBOL_OBJECT} \<and> sm_binding s = BIND_GLOBAL \<and> sm_visibility s = VISIBILITY_DEFAULT \<and>
     sm_privacy s = PRIVACY_PUBLIC \<and> sm_flags s AND NOT SYMBOL_KNOWN_FLAGS = 0 \<and> sm_flags s AND SYMBOL_DIAGNOSTIC_PUBLIC \<noteq> 0 \<and>
     length (sm_name s) \<le> 127 \<and> name_allowed (ascii_bytes (sm_name s))"

lemma fingerprint_fits [simp]: "fits 4 (name_fingerprint nm)"
  using fits_le_int [of "take 4 (sha256 nm)"] by (simp add: name_fingerprint_def)

lemma and_not_15: "v AND NOT 15 = 0 \<Longrightarrow> 0 \<le> v \<and> v < 16" for v :: int
proof -
  have "v AND NOT (mask 4) = push_bit 4 (drop_bit 4 v)" by (rule bit_eqI) (auto simp: bit_simps)
  then have "v AND NOT 15 = 16 * (v div 16)" by (simp add: mask_eq_exp_minus_1 push_bit_eq_mult drop_bit_eq_div)
  then show "v AND NOT 15 = 0 \<Longrightarrow> 0 \<le> v \<and> v < 16" by presburger
qed

lemma symbol_fits:
  assumes "symbol_static k ns s" "place_symbol gs n e k s m sc = Inr sc'" "n < 2 ^ 64" "k < 4096" "ns \<le> 16" "q < 2 ^ 32"
  shows "list_all (\<lambda>(n, v). fits n v) (symbol_fields q (ascii_bytes (sm_name s)) s)"
proof -
  have "0 \<le> sm_flags s \<and> sm_flags s < 16"
    using assms(1) and_not_15 [of "sm_flags s"] by (simp add: symbol_static_def code_defs)
  moreover have "0 \<le> sm_start_offset s" "0 < sm_byte_count s" "sm_end s \<le> n" using assms(2) by (simp_all add: place_symbol_Inr Let_def)
  ultimately show ?thesis
    using assms fingerprint_fits [of "ascii_bytes (sm_name s)"]
    by (auto simp: symbol_fields_def symbol_static_def sm_end_def fits_def code_defs)
qed

lemma parse_symbol_iff:
  assumes b: "b = so + k * 48" "b + 48 \<le> length d" and st: "int (st + sz) = int (length d)" and q: "sc_expected_name_offset sc = int q"
    and r: "n < 2 ^ 64" "k < 4096" "length gs \<le> 16" "q \<le> sz" "sz < 2 ^ 32"
  shows "parse_symbol d so st (int sz) n e gs k sc = Inr sc' \<longleftrightarrow>
    (\<exists>s. symbol_static k (length gs) s \<and> q + length (sm_name s) \<le> sz \<and>
      bslice d b (b + 48) = packed (symbol_fields q (ascii_bytes (sm_name s)) s) \<and>
      bslice d (st + q) (st + q + length (sm_name s)) = ascii_bytes (sm_name s) \<and>
      place_symbol gs n e k s (int (length (sm_name s))) sc = Inr sc')"
proof
  assume a: "parse_symbol d so st (int sz) n e gs k sc = Inr sc'"
  define m where "m = nat (rd 2 d (b + 16))"
  have m: "rd 2 d (b + 16) = int m" by (simp add: m_def)
  define nm where "nm = bslice d (st + nat (rd 4 d (b + 12))) (st + nat (rd 4 d (b + 12)) + m)"
  define s where "s = symbol_at d b nm"
  have c: "list_all (\<lambda>(bad, _). \<not> bad) (symbol_checks d b (int sz) (length gs) k (int q) nm s)"
    and p: "place_symbol gs n e k s (int m) sc = Inr sc'"
    using a unfolding parse_symbol_def Let_def guarded_Inr_iff SYMBOL_BYTES_def b(1) [symmetric] q
    by (simp_all add: s_def nm_def m_def)
  note c = c [unfolded symbol_checks_def Let_def m list.pred_inject prod.case]
  have off: "rd 4 d (b + 12) = int q" and l: "m \<noteq> 0" "m \<le> 127" "q + m \<le> sz" and z: "rd 2 d (b + 18) = 0" "rd 8 d (b + 40) = 0"
    and al: "name_allowed nm" and fp: "rd 4 d (b + 20) = name_fingerprint nm"
    using c by (auto simp: MAX_NAME_BYTES_def)
  have nm: "nm = bslice d (st + q) (st + q + m)" by (simp add: nm_def off)
  have ln: "length nm = m" using l(3) st by (simp add: nm length_slice)
  have sn: "sm_name s = ascii_string nm" by (simp add: s_def symbol_at_def)
  have lsn: "length (sm_name s) = m" using ln by (simp add: sn ascii_string_def)
  have "symbol_fields q nm s = read_fields d b [4, 2, 1, 1, 1, 1, 2, 4, 2, 2, 4, 8, 8, 8]"
    using off z fp m ln by (simp add: symbol_fields_def s_def symbol_at_def add_ac del: add_2_eq_Suc')
  then have "packed (symbol_fields q nm s) = bslice d b (b + 48)" using b(2) by (simp only:) (subst packed_read_fields, simp_all)
  moreover have "symbol_static k (length gs) s" using c lsn l al by (auto simp: symbol_static_def sn)
  ultimately show "\<exists>s. symbol_static k (length gs) s \<and> q + length (sm_name s) \<le> sz \<and>
      bslice d b (b + 48) = packed (symbol_fields q (ascii_bytes (sm_name s)) s) \<and>
      bslice d (st + q) (st + q + length (sm_name s)) = ascii_bytes (sm_name s) \<and>
      place_symbol gs n e k s (int (length (sm_name s))) sc = Inr sc'"
    using p l(3) nm lsn by (intro exI [of _ s]) (simp add: sn)
next
  assume "\<exists>s. symbol_static k (length gs) s \<and> q + length (sm_name s) \<le> sz \<and>
      bslice d b (b + 48) = packed (symbol_fields q (ascii_bytes (sm_name s)) s) \<and>
      bslice d (st + q) (st + q + length (sm_name s)) = ascii_bytes (sm_name s) \<and>
      place_symbol gs n e k s (int (length (sm_name s))) sc = Inr sc'"
  then obtain s where s: "symbol_static k (length gs) s" "q + length (sm_name s) \<le> sz"
      "bslice d b (b + 48) = packed (symbol_fields q (ascii_bytes (sm_name s)) s)"
      "bslice d (st + q) (st + q + length (sm_name s)) = ascii_bytes (sm_name s)"
      "place_symbol gs n e k s (int (length (sm_name s))) sc = Inr sc'" by blast
  have q32: "q < 2 ^ 32" using r(4, 5) by simp
  note fields_back = row_back [OF s(3) symbol_fits [OF s(1) s(5) r(1, 2, 3) q32]]
  have f: "rd 4 d (b + 0) = sm_symbol_id s" "rd 2 d (b + 4) = sm_segment_id s" "rd 1 d (b + 6) = sm_kind s" "rd 1 d (b + 7) = sm_binding s"
    "rd 1 d (b + 8) = sm_visibility s" "rd 1 d (b + 9) = sm_privacy s" "rd 2 d (b + 10) = sm_flags s" "rd 4 d (b + 12) = int q"
    "rd 2 d (b + 16) = int (length (sm_name s))" "rd 2 d (b + 18) = 0" "rd 4 d (b + 20) = name_fingerprint (ascii_bytes (sm_name s))"
    "rd 8 d (b + 24) = sm_start_offset s" "rd 8 d (b + 32) = sm_byte_count s" "rd 8 d (b + 40) = 0"
    by (rule fields_back; simp add: symbol_fields_def)+
  have at: "symbol_at d b (ascii_bytes (sm_name s)) = s" using f by (simp add: symbol_at_def)
  have nn: "nat (int q) = q" "nat (int (length (sm_name s))) = length (sm_name s)" by simp_all
  have "sm_name s \<noteq> []" using s(1) by (auto simp: symbol_static_def name_allowed_def ascii_bytes_def)
  then have "list_all (\<lambda>(bad, _). \<not> bad) (symbol_checks d b (int sz) (length gs) k (int q) (ascii_bytes (sm_name s)) s)"
    using s(1, 2) f by (simp add: symbol_checks_def symbol_static_def MAX_NAME_BYTES_def)
  then show "parse_symbol d so st (int sz) n e gs k sc = Inr sc'"
    unfolding parse_symbol_def Let_def SYMBOL_BYTES_def b(1) [symmetric] f(8, 9) nn s(4) at q using s(5) by (simp add: guarded_Inr_iff)
qed

definition symbol_names :: "sy_symbol list \<Rightarrow> bytes" where
  "symbol_names ss = concat (map (\<lambda>s. ascii_bytes (sm_name s)) ss)"

fun symbol_rows :: "nat \<Rightarrow> sy_symbol list \<Rightarrow> bytes" where
  "symbol_rows q [] = []"
| "symbol_rows q (s # ss) = packed (symbol_fields q (ascii_bytes (sm_name s)) s) @ symbol_rows (q + length (sm_name s)) ss"

lemma length_symbol_rows [simp]: "length (symbol_rows q ss) = 48 * length ss"
  by (induction ss arbitrary: q) simp_all

text \<open>The scan of the symbols alone, without the bytes.\<close>

fun place_symbols :: "sy_segment list \<Rightarrow> int \<Rightarrow> int \<Rightarrow> nat \<Rightarrow> sy_symbol list \<Rightarrow> sy_scan \<Rightarrow> sy_scan option" where
  "place_symbols gs n e k [] sc = Some sc"
| "place_symbols gs n e k (s # ss) sc = (if symbol_static k (length gs) s then
     case place_symbol gs n e k s (int (length (sm_name s))) sc of Inl _ \<Rightarrow> None | Inr sc' \<Rightarrow> place_symbols gs n e (Suc k) ss sc' else None)"

lemma place_symbol_offset:
  "place_symbol gs n e k s m sc = Inr sc' \<Longrightarrow> sc_expected_name_offset sc' = sc_expected_name_offset sc + m"
  by (simp add: place_symbol_Inr Let_def)

lemma place_symbols_scan:
  "place_symbols gs n e k ss sc = Some sc' \<Longrightarrow> sc_symbols sc' = sc_symbols sc @ ss \<and>
    sc_expected_name_offset sc' = sc_expected_name_offset sc + int (length (symbol_names ss))"
proof (induction ss arbitrary: k sc)
  case (Cons s ss)
  then obtain sc1 where 1: "place_symbol gs n e k s (int (length (sm_name s))) sc = Inr sc1" "place_symbols gs n e (Suc k) ss sc1 = Some sc'"
    by (auto split: if_splits sum.splits)
  from Cons.IH [OF 1(2)] 1(1) show ?case by (simp add: place_symbol_Inr Let_def symbol_names_def)
qed (simp add: symbol_names_def)

lemma parse_symbols_iff:
  assumes "so + (k + m) * 48 \<le> length d" "int (st + sz) = int (length d)" "sc_expected_name_offset sc = int q"
    "n < 2 ^ 64" "k + m \<le> 4096" "length gs \<le> 16" "q \<le> sz" "sz < 2 ^ 32"
  shows "rfold (parse_symbol d so st (int sz) n e gs) [k..<k + m] sc = Inr sc' \<longleftrightarrow>
    (\<exists>ss. length ss = m \<and> q + length (symbol_names ss) \<le> sz \<and> place_symbols gs n e k ss sc = Some sc' \<and>
      bslice d (so + k * 48) (so + k * 48 + 48 * m) = symbol_rows q ss \<and>
      bslice d (st + q) (st + q + length (symbol_names ss)) = symbol_names ss)"
  using assms
proof (induction m arbitrary: k sc q)
  case 0
  then show ?case by (auto simp: symbol_names_def bslice_def)
next
  case (Suc m)
  let ?b = "so + k * 48"
  let ?l = "\<lambda>s :: sy_symbol. length (sm_name s)"
  have u: "[k..<k + Suc m] = k # [Suc k..<Suc k + m]" by (simp add: upt_conv_Cons)
  have b: "?b + 48 \<le> length d" "k < 4096" using Suc.prems by simp_all
  define R where "R s ss \<longleftrightarrow> bslice d ?b (?b + 48) = packed (symbol_fields q (ascii_bytes (sm_name s)) s) \<and>
    bslice d (?b + 48) (?b + 48 + 48 * m) = symbol_rows (q + ?l s) ss" for s ss
  define N where "N s ss \<longleftrightarrow> bslice d (st + q) (st + q + ?l s) = ascii_bytes (sm_name s) \<and>
    bslice d (st + (q + ?l s)) (st + (q + ?l s) + length (symbol_names ss)) = symbol_names ss" for s :: sy_symbol and ss
  have ih: "rfold (parse_symbol d so st (int sz) n e gs) [Suc k..<Suc k + m] sc1 = Inr sc' \<longleftrightarrow>
    (\<exists>ss. length ss = m \<and> q + ?l s + length (symbol_names ss) \<le> sz \<and> place_symbols gs n e (Suc k) ss sc1 = Some sc' \<and>
      bslice d (?b + 48) (?b + 48 + 48 * m) = symbol_rows (q + ?l s) ss \<and>
      bslice d (st + (q + ?l s)) (st + (q + ?l s) + length (symbol_names ss)) = symbol_names ss)"
    if "place_symbol gs n e k s (int (?l s)) sc = Inr sc1" "q + ?l s \<le> sz" for s sc1
    using Suc.IH [of "Suc k" sc1 "q + ?l s"] Suc.prems that place_symbol_offset [OF that(1)] by (simp add: add_ac)
  have "rfold (parse_symbol d so st (int sz) n e gs) [k..<k + Suc m] sc = Inr sc' \<longleftrightarrow>
      (\<exists>s sc1. symbol_static k (length gs) s \<and> q + ?l s \<le> sz \<and> bslice d ?b (?b + 48) = packed (symbol_fields q (ascii_bytes (sm_name s)) s) \<and>
        bslice d (st + q) (st + q + ?l s) = ascii_bytes (sm_name s) \<and> place_symbol gs n e k s (int (?l s)) sc = Inr sc1 \<and>
        rfold (parse_symbol d so st (int sz) n e gs) [Suc k..<Suc k + m] sc1 = Inr sc')"
    unfolding u rfold.simps rbind_Inr_iff parse_symbol_iff [OF refl b(1) Suc.prems(2, 3, 4) b(2) Suc.prems(6, 7, 8)] by blast
  also have "\<dots> \<longleftrightarrow> (\<exists>s ss sc1. symbol_static k (length gs) s \<and> length ss = m \<and> q + ?l s + length (symbol_names ss) \<le> sz \<and>
        place_symbol gs n e k s (int (?l s)) sc = Inr sc1 \<and> place_symbols gs n e (Suc k) ss sc1 = Some sc' \<and> R s ss \<and> N s ss)"
  proof -
    have "symbol_static k (length gs) s \<and> q + ?l s \<le> sz \<and> bslice d ?b (?b + 48) = packed (symbol_fields q (ascii_bytes (sm_name s)) s) \<and>
        bslice d (st + q) (st + q + ?l s) = ascii_bytes (sm_name s) \<and> place_symbol gs n e k s (int (?l s)) sc = Inr sc1 \<and>
        rfold (parse_symbol d so st (int sz) n e gs) [Suc k..<Suc k + m] sc1 = Inr sc' \<longleftrightarrow>
      (\<exists>ss. symbol_static k (length gs) s \<and> length ss = m \<and> q + ?l s + length (symbol_names ss) \<le> sz \<and>
        place_symbol gs n e k s (int (?l s)) sc = Inr sc1 \<and> place_symbols gs n e (Suc k) ss sc1 = Some sc' \<and> R s ss \<and> N s ss)" for s sc1
      using ih [of s sc1] unfolding R_def N_def by (metis add_leD1)
    then show ?thesis by metis
  qed
  also have "\<dots> \<longleftrightarrow> (\<exists>ss. length ss = Suc m \<and> q + length (symbol_names ss) \<le> sz \<and> place_symbols gs n e k ss sc = Some sc' \<and>
      bslice d ?b (?b + 48 + 48 * m) = symbol_rows q ss \<and> bslice d (st + q) (st + q + length (symbol_names ss)) = symbol_names ss)"
  proof -
    have r: "bslice d ?b (?b + 48 + 48 * m) = symbol_rows q (s # ss) \<longleftrightarrow> R s ss" for s ss
      using bslice_app_iff [OF b(1), of "packed (symbol_fields q (ascii_bytes (sm_name s)) s)" "48 * m" "symbol_rows (q + ?l s) ss"] by (simp add: R_def)
    have nn: "bslice d (st + q) (st + q + length (symbol_names (s # ss))) = symbol_names (s # ss) \<longleftrightarrow> N s ss" if "q + ?l s \<le> sz" for s ss
      using bslice_app_iff [of "st + q" "?l s" d "ascii_bytes (sm_name s)" "length (symbol_names ss)" "symbol_names ss"] that Suc.prems(2)
      by (simp add: N_def symbol_names_def add.assoc)
    have p: "place_symbols gs n e k (s # ss) sc = Some sc' \<longleftrightarrow> symbol_static k (length gs) s \<and>
        (\<exists>sc1. place_symbol gs n e k s (int (?l s)) sc = Inr sc1 \<and> place_symbols gs n e (Suc k) ss sc1 = Some sc')" for s ss
      by (auto split: sum.splits)
    have l: "q + length (symbol_names (s # ss)) \<le> sz \<longleftrightarrow> q + ?l s + length (symbol_names ss) \<le> sz" for s ss
      by (simp add: symbol_names_def add.assoc)
    have ex: "(\<exists>ss. length ss = Suc m \<and> Q ss) \<longleftrightarrow> (\<exists>s ss. length ss = m \<and> Q (s # ss))" for Q :: "sy_symbol list \<Rightarrow> bool"
      by (auto simp: length_Suc_conv)
    have "(q + length (symbol_names (s # ss)) \<le> sz \<and> place_symbols gs n e k (s # ss) sc = Some sc' \<and>
        bslice d ?b (?b + 48 + 48 * m) = symbol_rows q (s # ss) \<and>
        bslice d (st + q) (st + q + length (symbol_names (s # ss))) = symbol_names (s # ss)) \<longleftrightarrow>
      (q + ?l s + length (symbol_names ss) \<le> sz \<and> place_symbols gs n e k (s # ss) sc = Some sc' \<and> R s ss \<and> N s ss)" for s ss
      using r [of s ss] nn [of s ss] l [of s ss] by (metis add_leD1)
    then show ?thesis unfolding ex by (simp only: p) blast
  qed
  finally show ?case by (simp add: add.assoc)
qed

end
