(* ===== verification/Symbols_Image.thy ===== *)
theory Symbols_Image
  imports Symbols_Codec
begin

text \<open>
  The image of a symbol bundle, and that the parser accepts exactly the images of well-formed bundles.
\<close>

unbundle bit_operations_syntax

section \<open>The image\<close>

definition identity_bytes :: "sy_identity \<Rightarrow> bytes list" where
  "identity_bytes i = map hexed [si_canonical_file_sha256 i, si_preferred_loaded_sha256 i, si_build_id_sha256 i, si_debug_file_sha256 i,
     si_source_manifest_sha256 i]"

definition psym_total :: "psym_args \<Rightarrow> nat" where
  "psym_total a = 384 + 32 * length (pa_segments a) + 48 * length (pa_symbols a) + length (symbol_names (pa_symbols a))"

definition psym_fields :: "psym_args \<Rightarrow> (nat \<times> int) list" where
  "psym_fields a = [(2, 1), (2, 0), (2, 384), (2, 32), (2, 48), (2, 0), (4, PSYM_REQUIRED_FLAGS), (2, 1), (2, 1), (2, 1), (2, 1),
     (4, int (length (pa_segments a))), (4, int (length (pa_symbols a))), (8, int (psym_total a)), (8, 384),
     (8, int (384 + 32 * length (pa_segments a))), (8, int (384 + 32 * length (pa_segments a) + 48 * length (pa_symbols a))),
     (8, int (length (symbol_names (pa_symbols a)))), (8, pa_image_bytes a), (8, pa_preferred_virtual_base a),
     (8, pa_virtual_window_end_exclusive a), (8, pa_slide_alignment a), (8, pa_entry_offset a), (4, 16), (4, 4096), (4, 127), (4, 13),
     (2, 1), (2, 1), (2, 1), (2, 0)]"

definition psym_body :: "psym_args \<Rightarrow> bytes" where
  "psym_body a = segment_rows (pa_segments a) @ symbol_rows 0 (pa_symbols a) @ symbol_names (pa_symbols a)"

definition psym_image :: "psym_args \<Rightarrow> bytes" where
  "psym_image a = PSYM_MAGIC @ packed (psym_fields a) @ concat (identity_bytes (pa_identity a)) @ sha256 (psym_body a) @ zeros 48 @ psym_body a"

definition bundle_of :: "psym_args \<Rightarrow> sy_bundle" where
  "bundle_of a = \<lparr>sb_raw = psym_image a, sb_flags = PSYM_REQUIRED_FLAGS, sb_image_bytes = pa_image_bytes a,
     sb_preferred_virtual_base = pa_preferred_virtual_base a, sb_virtual_window_end_exclusive = pa_virtual_window_end_exclusive a,
     sb_slide_alignment = pa_slide_alignment a, sb_entry_offset = pa_entry_offset a, sb_identity = pa_identity a,
     sb_segments = pa_segments a, sb_symbols = pa_symbols a\<rparr>"

definition bundle_args :: "sy_bundle \<Rightarrow> psym_args" where
  "bundle_args b = \<lparr>pa_identity = sb_identity b, pa_segments = sb_segments b, pa_symbols = sb_symbols b, pa_image_bytes = sb_image_bytes b,
     pa_entry_offset = sb_entry_offset b, pa_preferred_virtual_base = sb_preferred_virtual_base b,
     pa_virtual_window_end_exclusive = sb_virtual_window_end_exclusive b, pa_slide_alignment = sb_slide_alignment b\<rparr>"

definition digest_ok :: "string \<Rightarrow> bool" where
  "digest_ok h \<longleftrightarrow> is_digest h \<and> hexed h \<noteq> zeros 32"

definition identity_ok :: "sy_identity \<Rightarrow> bool" where
  "identity_ok i \<longleftrightarrow> digest_ok (si_canonical_file_sha256 i) \<and> digest_ok (si_preferred_loaded_sha256 i) \<and> digest_ok (si_build_id_sha256 i) \<and>
     digest_ok (si_debug_file_sha256 i) \<and> digest_ok (si_source_manifest_sha256 i)"

abbreviation scan_none :: sy_scan where
  "scan_none \<equiv> \<lparr>sc_symbols = [], sc_expected_name_offset = 0, sc_previous_symbol_end = 0, sc_entry_count = 0\<rparr>"

definition window_ok :: "int \<Rightarrow> int \<Rightarrow> int \<Rightarrow> int \<Rightarrow> int \<Rightarrow> bool" where
  "window_ok img pref window slide entry \<longleftrightarrow> img \<noteq> 0 \<and> img \<le> 0x4000000 \<and> is_canonical_x86_64 pref \<and> is_canonical_x86_64 (window - 1) \<and>
     pref < window \<and> img \<le> window - pref \<and> 4096 \<le> slide \<and> slide AND (slide - 1) = 0 \<and> pref mod slide = 0 \<and> entry < img"

definition psym_args_ok :: "psym_args \<Rightarrow> bool" where
  "psym_args_ok a \<longleftrightarrow> 1 \<le> length (pa_segments a) \<and> length (pa_segments a) \<le> 16 \<and> 1 \<le> length (pa_symbols a) \<and> length (pa_symbols a) \<le> 4096 \<and>
     length (symbol_names (pa_symbols a)) \<le> 0x40000 \<and> psym_total a \<le> 0x80000 \<and>
     fits 8 (pa_image_bytes a) \<and> fits 8 (pa_preferred_virtual_base a) \<and> fits 8 (pa_virtual_window_end_exclusive a) \<and>
     fits 8 (pa_slide_alignment a) \<and> fits 8 (pa_entry_offset a) \<and>
     window_ok (pa_image_bytes a) (pa_preferred_virtual_base a) (pa_virtual_window_end_exclusive a) (pa_slide_alignment a) (pa_entry_offset a) \<and>
     identity_ok (pa_identity a) \<and> segments_ok (pa_image_bytes a) 0 0 (pa_segments a) (pa_image_bytes a) \<and>
     (case place_symbols (pa_segments a) (pa_image_bytes a) (pa_entry_offset a) 0 (pa_symbols a) scan_none of
        Some sc \<Rightarrow> sc_entry_count sc = 1 | None \<Rightarrow> False)"

lemma psym_fields_len [simp]: "sum_list (map fst (psym_fields a)) = 136"
  by (simp add: psym_fields_def)

lemma length_psym_magic [simp]: "length PSYM_MAGIC = 8"
  by (simp add: PSYM_MAGIC_def)

lemma digest_ok_iff: "digest_ok h \<longleftrightarrow> (\<exists>v. h = hex_upper v \<and> length v = 32 \<and> v \<noteq> zeros 32)"
  by (auto simp: digest_ok_def is_digest_def)

text \<open>
  The check of a digest counts characters, while \<open>bytes.fromhex\<close> skips white space: sixty-four blanks pass as a digest of
  no bytes, which the encoder then writes as an empty slice.
\<close>

lemma blank_psym_digest: "psym_digest_bytes (replicate 64 (CHR '' '')) = Inr []"
proof -
  have "fromhex (replicate 64 (CHR '' '')) = Inr []" by code_simp
  then show ?thesis by (simp add: psym_digest_bytes_def guarded.simps zeros_def)
qed

lemma length_identity: "identity_ok i \<Longrightarrow> length (concat (identity_bytes i)) = 160"
  by (auto simp: identity_ok_def identity_bytes_def digest_ok_iff)

lemma psym_body_len: "length (psym_body a) = 32 * length (pa_segments a) + 48 * length (pa_symbols a) + length (symbol_names (pa_symbols a))"
  by (simp add: psym_body_def)

lemma psym_image_len: "identity_ok (pa_identity a) \<Longrightarrow> length (psym_image a) = psym_total a"
  using length_identity by (simp add: psym_image_def psym_body_len psym_total_def)

section \<open>The header\<close>

definition header_fields_ok :: "bytes \<Rightarrow> bool" where
  "header_fields_ok d \<longleftrightarrow> rd 2 d 8 = 1 \<and> rd 2 d 10 = 0 \<and> rd 2 d 12 = 384 \<and> rd 2 d 14 = 32 \<and> rd 2 d 16 = 48 \<and> rd 2 d 18 = 0 \<and>
     rd 4 d 20 = PSYM_REQUIRED_FLAGS \<and> rd 2 d 24 = 1 \<and> rd 2 d 26 = 1 \<and> rd 2 d 28 = 1 \<and> rd 2 d 30 = 1 \<and> rd 8 d 48 = 384 \<and>
     rd 4 d 120 = 16 \<and> rd 4 d 124 = 4096 \<and> rd 4 d 128 = 127 \<and> rd 4 d 132 = 13 \<and> rd 2 d 136 = 1 \<and> rd 2 d 138 = 1 \<and> rd 2 d 140 = 1 \<and> rd 2 d 142 = 0"

lemma header_checks_iff:
  "list_all (\<lambda>(bad, _). \<not> bad) (psym_header_checks d) \<longleftrightarrow> 384 \<le> length d \<and> length d \<le> 0x80000 \<and> bslice d 0 8 = PSYM_MAGIC \<and>
    header_fields_ok d \<and> 1 \<le> rd 4 d 32 \<and> rd 4 d 32 \<le> 16 \<and> 1 \<le> rd 4 d 36 \<and> rd 4 d 36 \<le> 4096 \<and> rd 8 d 40 = int (length d) \<and>
    rd 8 d 56 = 384 + rd 4 d 32 * 32 \<and> rd 8 d 64 = 384 + rd 4 d 32 * 32 + rd 4 d 36 * 48 \<and> rd 8 d 64 \<le> int (length d) \<and>
    rd 8 d 72 \<noteq> 0 \<and> rd 8 d 72 \<le> 0x40000 \<and> rd 8 d 72 = int (length d) - rd 8 d 64 \<and>
    window_ok (rd 8 d 80) (rd 8 d 88) (rd 8 d 96) (rd 8 d 104) (rd 8 d 112) \<and>
    list_all (\<lambda>v. v \<noteq> zeros 32) (identity_at d) \<and> \<not> any_byte (bslice d 336 384) \<and> sha256 (drop 384 d) = bslice d 304 336"
  unfolding psym_header_checks_def Let_def list.pred_inject prod.case header_fields_ok_def window_ok_def list_ex_iff list_all_iff
  by (simp only: prod.inject PSYM_HEADER_BYTES_def SEGMENT_BYTES_def SYMBOL_BYTES_def MAX_BUNDLE_BYTES_def PSYM_MAJOR_VERSION_def
    PSYM_MINOR_VERSION_def PROFILE_PUBLIC_DIAGNOSTIC_def ADDRESS_IMAGE_RELATIVE_def NAME_ASCII_OPAQUE_def PRIVACY_PUBLIC_def MAX_SEGMENTS_def
    MAX_SYMBOLS_def MAX_STRING_BYTES_def MAX_NAME_BYTES_def MAX_LOOKUP_STEPS_def LOOKUP_BINARY_SEARCH_def MANGLING_OPAQUE_LINKER_def
    POINTER_REDACT_RUNTIME_def PSYM_MAX_IMAGE_BYTES_def) (auto simp: not_less not_le)

lemma psym_parse_iff:
  "psym_parse d = Inr b \<longleftrightarrow> list_all (\<lambda>(bad, _). \<not> bad) (psym_header_checks d) \<and>
    (\<exists>gs sc. rfold (parse_segment d (rd 8 d 80)) [0..<nat (rd 4 d 32)] ([], 0) = Inr (gs, rd 8 d 80) \<and>
      rfold (parse_symbol d (nat (rd 8 d 56)) (nat (rd 8 d 64)) (rd 8 d 72) (rd 8 d 80) (rd 8 d 112) gs) [0..<nat (rd 4 d 36)] scan_none = Inr sc \<and>
      sc_expected_name_offset sc = rd 8 d 72 \<and> sc_entry_count sc = 1 \<and>
      b = \<lparr>sb_raw = d, sb_flags = rd 4 d 20, sb_image_bytes = rd 8 d 80, sb_preferred_virtual_base = rd 8 d 88,
        sb_virtual_window_end_exclusive = rd 8 d 96, sb_slide_alignment = rd 8 d 104, sb_entry_offset = rd 8 d 112,
        sb_identity = identity_of (identity_at d), sb_segments = gs, sb_symbols = sc_symbols sc\<rparr>)"
  unfolding psym_parse_def Let_def guarded_Inr_iff rbind_Inr_iff by (auto simp: guarded_Inr_iff rbind_Inr_iff split: prod.splits)

lemma identity_at_bytes:
  assumes "384 \<le> length d" "list_all (\<lambda>v. v \<noteq> zeros 32) (identity_at d)"
  shows "identity_ok (identity_of (identity_at d))" "concat (identity_bytes (identity_of (identity_at d))) = bslice d 144 304"
proof -
  have l: "length (bslice d 144 176) = 32" "length (bslice d 176 208) = 32" "length (bslice d 208 240) = 32" "length (bslice d 240 272) = 32"
    "length (bslice d 272 304) = 32" using assms(1) by (simp_all add: length_slice)
  show "identity_ok (identity_of (identity_at d))"
    using l assms(2) by (simp add: identity_ok_def identity_of_def identity_at_def digest_ok_def)
  show "concat (identity_bytes (identity_of (identity_at d))) = bslice d 144 304"
    using bslice_add [of 272 304 304 d] bslice_add [of 240 272 304 d] bslice_add [of 208 240 304 d] bslice_add [of 176 208 304 d] bslice_add [of 144 176 304 d]
    by (simp add: identity_bytes_def identity_of_def identity_at_def)
qed

text \<open>What an accepted file says of its parts.\<close>

lemma psym_parse_parts:
  assumes "psym_parse d = Inr b"
  shows "psym_args_ok (bundle_args b)" "header_fields_ok d" "bslice d 0 8 = PSYM_MAGIC" "384 \<le> length d" "length d = psym_total (bundle_args b)"
    "rd 4 d 32 = int (length (sb_segments b))" "rd 4 d 36 = int (length (sb_symbols b))"
    "rd 8 d 72 = int (length (symbol_names (sb_symbols b)))" "rd 8 d 40 = int (length d)"
    "rd 8 d 56 = int (384 + 32 * length (sb_segments b))" "rd 8 d 64 = int (384 + 32 * length (sb_segments b) + 48 * length (sb_symbols b))" "drop 384 d = psym_body (bundle_args b)"
    "bslice d 304 336 = sha256 (psym_body (bundle_args b))" "bslice d 336 384 = zeros 48"
    "bslice d 144 304 = concat (identity_bytes (sb_identity b))"
    "b = \<lparr>sb_raw = d, sb_flags = PSYM_REQUIRED_FLAGS, sb_image_bytes = rd 8 d 80, sb_preferred_virtual_base = rd 8 d 88,
      sb_virtual_window_end_exclusive = rd 8 d 96, sb_slide_alignment = rd 8 d 104, sb_entry_offset = rd 8 d 112,
      sb_identity = sb_identity b, sb_segments = sb_segments b, sb_symbols = sb_symbols b\<rparr>"
proof -
  define n m z where "n = nat (rd 4 d 32)" and "m = nat (rd 4 d 36)" and "z = nat (rd 8 d 72)"
  obtain gs sc where c: "list_all (\<lambda>(bad, _). \<not> bad) (psym_header_checks d)"
    and g: "rfold (parse_segment d (rd 8 d 80)) [0..<0 + n] ([], 0) = Inr (gs, rd 8 d 80)"
    and s: "rfold (parse_symbol d (nat (rd 8 d 56)) (nat (rd 8 d 64)) (rd 8 d 72) (rd 8 d 80) (rd 8 d 112) gs) [0..<0 + m] scan_none = Inr sc"
    and e: "sc_expected_name_offset sc = rd 8 d 72" "sc_entry_count sc = 1"
    and b: "b = \<lparr>sb_raw = d, sb_flags = rd 4 d 20, sb_image_bytes = rd 8 d 80, sb_preferred_virtual_base = rd 8 d 88,
        sb_virtual_window_end_exclusive = rd 8 d 96, sb_slide_alignment = rd 8 d 104, sb_entry_offset = rd 8 d 112,
        sb_identity = identity_of (identity_at d), sb_segments = gs, sb_symbols = sc_symbols sc\<rparr>"
    using assms unfolding psym_parse_iff n_def m_def by auto
  note h = c [unfolded header_checks_iff]
  have r: "rd 4 d 32 = int n" "rd 4 d 36 = int m" "rd 8 d 72 = int z" by (simp_all add: n_def m_def z_def)
  have o: "rd 8 d 56 = int (384 + n * 32)" "rd 8 d 64 = int (384 + n * 32 + m * 48)" "length d = 384 + n * 32 + m * 48 + z" "n \<le> 16" "m \<le> 4096"
    "1 \<le> n" "1 \<le> m" "z \<le> 0x40000"
    using h by (simp_all add: r)
  have i64: "rd 8 d 80 < 2 ^ 64" "rd 8 d 80 \<le> 0x4000000" using h by (simp_all add: window_ok_def)
  obtain ss where ss: "gs = ss" "length ss = n" "segments_ok (rd 8 d 80) 0 0 ss (rd 8 d 80)" "bslice d 384 (384 + 32 * n) = segment_rows ss"
    using g parse_segments_iff [of 0 n d "rd 8 d 80" "[]" 0 gs "rd 8 d 80"] o i64 by auto
  obtain ms where ms: "length ms = m" "length (symbol_names ms) \<le> z" "place_symbols gs (rd 8 d 80) (rd 8 d 112) 0 ms scan_none = Some sc"
      "bslice d (384 + n * 32) (384 + n * 32 + 48 * m) = symbol_rows 0 ms"
      "bslice d (384 + n * 32 + m * 48) (384 + n * 32 + m * 48 + length (symbol_names ms)) = symbol_names ms"
    using s parse_symbols_iff [of "384 + n * 32" 0 m d "384 + n * 32 + m * 48" z scan_none 0 "rd 8 d 80" gs "rd 8 d 112" sc] o i64 ss(1, 2)
    unfolding o(1, 2) nat_int r(3) by auto
  have sm: "sc_symbols sc = ms" and zl: "z = length (symbol_names ms)" using place_symbols_scan [OF ms(3)] e(1) r(3) by simp_all
  note id = identity_at_bytes [of d]
  have bf: "sb_segments b = gs" "sb_symbols b = ms" "sb_identity b = identity_of (identity_at d)" by (simp_all add: b sm)
  show "length d = psym_total (bundle_args b)" using o(3) ss ms(1) zl by (simp add: psym_total_def bundle_args_def bf)
  then show "psym_args_ok (bundle_args b)"
    unfolding psym_args_ok_def using h o ss ms zl e(2) id by (simp add: bundle_args_def b sm)
  have "drop 384 d = bslice d 384 (length d)" using h by (simp add: bslice_def)
  also have "\<dots> = bslice d 384 (384 + 32 * n) @ bslice d (384 + n * 32) (384 + n * 32 + 48 * m) @
      bslice d (384 + n * 32 + m * 48) (384 + n * 32 + m * 48 + length (symbol_names ms))"
    using bslice_add [of 384 "384 + 32 * n" "length d" d] bslice_add [of "384 + n * 32" "384 + n * 32 + 48 * m" "length d" d] o(3) zl
    by (simp add: mult.commute)
  finally show body: "drop 384 d = psym_body (bundle_args b)" using ss(1, 4) ms(4, 5) by (simp add: psym_body_def bundle_args_def bf)
  show "bslice d 304 336 = sha256 (psym_body (bundle_args b))" using h body by simp
  have "length (bslice d 336 384) = 48" using h by (simp add: length_slice)
  then show "bslice d 336 384 = zeros 48" using h unfolding not_any_byte_iff by simp
  show "bslice d 144 304 = concat (identity_bytes (sb_identity b))" using id h by (simp add: bf)
  show "b = \<lparr>sb_raw = d, sb_flags = PSYM_REQUIRED_FLAGS, sb_image_bytes = rd 8 d 80, sb_preferred_virtual_base = rd 8 d 88,
      sb_virtual_window_end_exclusive = rd 8 d 96, sb_slide_alignment = rd 8 d 104, sb_entry_offset = rd 8 d 112,
      sb_identity = sb_identity b, sb_segments = sb_segments b, sb_symbols = sb_symbols b\<rparr>"
    using h by (simp add: b header_fields_ok_def)
  show "header_fields_ok d" "bslice d 0 8 = PSYM_MAGIC" "384 \<le> length d" using h by blast+
  show "rd 4 d 32 = int (length (sb_segments b))" "rd 4 d 36 = int (length (sb_symbols b))" "rd 8 d 72 = int (length (symbol_names (sb_symbols b)))"
    "rd 8 d 40 = int (length d)" "rd 8 d 56 = int (384 + 32 * length (sb_segments b))"
    "rd 8 d 64 = int (384 + 32 * length (sb_segments b) + 48 * length (sb_symbols b))"
    using ss ms zl r o(1, 2) h by (simp_all add: bf)
qed

lemma psym_spelling:
  assumes "psym_parse d = Inr b"
  shows "d = psym_image (bundle_args b)" "b = bundle_of (bundle_args b)"
proof -
  note p = psym_parse_parts [OF assms]
  have b: "sb_image_bytes b = rd 8 d 80" "sb_preferred_virtual_base b = rd 8 d 88" "sb_virtual_window_end_exclusive b = rd 8 d 96"
    "sb_slide_alignment b = rd 8 d 104" "sb_entry_offset b = rd 8 d 112" "sb_raw b = d" "sb_flags b = PSYM_REQUIRED_FLAGS"
    by (subst p(16), simp)+
  have "psym_fields (bundle_args b) = read_fields d 8 [2, 2, 2, 2, 2, 2, 4, 2, 2, 2, 2, 4, 4, 8, 8, 8, 8, 8, 8, 8, 8, 8, 8, 4, 4, 4, 4, 2, 2, 2, 2]"
    using p(2, 5-11) b by (simp add: psym_fields_def header_fields_ok_def) (simp add: bundle_args_def)
  then have f: "packed (psym_fields (bundle_args b)) = bslice d 8 144" using p(4) by (simp only:) (subst packed_read_fields, simp_all)
  have "bslice d 0 384 = bslice d 0 8 @ bslice d 8 144 @ bslice d 144 304 @ bslice d 304 336 @ bslice d 336 384"
    using bslice_add [of 0 8 384 d] bslice_add [of 8 144 384 d] bslice_add [of 144 304 384 d] bslice_add [of 304 336 384 d] by simp
  moreover have "d = bslice d 0 384 @ drop 384 d" by (simp add: bslice_def)
  ultimately have "d = bslice d 0 8 @ bslice d 8 144 @ bslice d 144 304 @ bslice d 304 336 @ bslice d 336 384 @ drop 384 d"
    by (metis append_assoc)
  moreover have "pa_identity (bundle_args b) = sb_identity b" by (simp add: bundle_args_def)
  ultimately show d: "d = psym_image (bundle_args b)"
    unfolding psym_image_def f p(3) [symmetric] p(12, 14) [symmetric] p(13) [unfolded p(12) [symmetric], symmetric]
    by (simp only: p(15) [symmetric])
  show "b = bundle_of (bundle_args b)"
  proof (rule sy_bundle.equality)
    show "sb_raw b = sb_raw (bundle_of (bundle_args b))" using b(6) d by (simp add: bundle_of_def)
  qed (simp_all add: bundle_of_def bundle_args_def b(7))
qed

lemma psym_fields_fit:
  assumes "psym_args_ok a"
  shows "list_all (\<lambda>(n, v). fits n v) (psym_fields a)"
proof -
  have o: "fits 8 (pa_image_bytes a)" "fits 8 (pa_preferred_virtual_base a)" "fits 8 (pa_virtual_window_end_exclusive a)" "fits 8 (pa_slide_alignment a)"
    "fits 8 (pa_entry_offset a)" "length (pa_segments a) \<le> 16" "length (pa_symbols a) \<le> 4096" "length (symbol_names (pa_symbols a)) \<le> 0x40000"
    "psym_total a \<le> 0x80000" using assms by (simp_all add: psym_args_ok_def)
  show ?thesis unfolding psym_fields_def list.pred_inject prod.case using o(1-5)
    by (intro conjI) (use o(6-9) in \<open>simp_all add: fits_def code_defs\<close>)
qed

lemma psym_image_reads:
  assumes ok: "psym_args_ok a" and d: "d = psym_image a"
  shows "header_fields_ok d" "rd 4 d 32 = int (length (pa_segments a))" "rd 4 d 36 = int (length (pa_symbols a))" "rd 8 d 40 = int (psym_total a)"
    "rd 8 d 56 = int (384 + 32 * length (pa_segments a))" "rd 8 d 64 = int (384 + 32 * length (pa_segments a) + 48 * length (pa_symbols a))"
    "rd 8 d 72 = int (length (symbol_names (pa_symbols a)))" "rd 8 d 80 = pa_image_bytes a" "rd 8 d 88 = pa_preferred_virtual_base a"
    "rd 8 d 96 = pa_virtual_window_end_exclusive a" "rd 8 d 104 = pa_slide_alignment a" "rd 8 d 112 = pa_entry_offset a"
    "rd 4 d 20 = PSYM_REQUIRED_FLAGS"
proof -
  have row: "bslice d 8 (8 + 136) = packed (psym_fields a)" by (simp add: d psym_image_def bslice_def)
  note fields_back = row_back [OF row psym_fields_fit [OF ok]]
  have "rd 2 d (8 + 0) = 1" "rd 2 d (8 + 2) = 0" "rd 2 d (8 + 4) = 384" "rd 2 d (8 + 6) = 32" "rd 2 d (8 + 8) = 48" "rd 2 d (8 + 10) = 0"
    "rd 4 d (8 + 12) = PSYM_REQUIRED_FLAGS" "rd 2 d (8 + 16) = 1" "rd 2 d (8 + 18) = 1" "rd 2 d (8 + 20) = 1" "rd 2 d (8 + 22) = 1"
    "rd 8 d (8 + 40) = 384" "rd 4 d (8 + 112) = 16" "rd 4 d (8 + 116) = 4096" "rd 4 d (8 + 120) = 127" "rd 4 d (8 + 124) = 13"
    "rd 2 d (8 + 128) = 1" "rd 2 d (8 + 130) = 1" "rd 2 d (8 + 132) = 1" "rd 2 d (8 + 134) = 0"
    by (rule fields_back; simp add: psym_fields_def)+
  then show "header_fields_ok d" "rd 4 d 20 = PSYM_REQUIRED_FLAGS" by (simp_all add: header_fields_ok_def)
  have "rd 4 d (8 + 24) = int (length (pa_segments a))" "rd 4 d (8 + 28) = int (length (pa_symbols a))" "rd 8 d (8 + 32) = int (psym_total a)"
    "rd 8 d (8 + 48) = int (384 + 32 * length (pa_segments a))" "rd 8 d (8 + 56) = int (384 + 32 * length (pa_segments a) + 48 * length (pa_symbols a))"
    "rd 8 d (8 + 64) = int (length (symbol_names (pa_symbols a)))" "rd 8 d (8 + 72) = pa_image_bytes a" "rd 8 d (8 + 80) = pa_preferred_virtual_base a"
    "rd 8 d (8 + 88) = pa_virtual_window_end_exclusive a" "rd 8 d (8 + 96) = pa_slide_alignment a" "rd 8 d (8 + 104) = pa_entry_offset a"
    by (rule fields_back; simp add: psym_fields_def)+
  then show "rd 4 d 32 = int (length (pa_segments a))" "rd 4 d 36 = int (length (pa_symbols a))" "rd 8 d 40 = int (psym_total a)"
    "rd 8 d 56 = int (384 + 32 * length (pa_segments a))" "rd 8 d 64 = int (384 + 32 * length (pa_segments a) + 48 * length (pa_symbols a))"
    "rd 8 d 72 = int (length (symbol_names (pa_symbols a)))" "rd 8 d 80 = pa_image_bytes a" "rd 8 d 88 = pa_preferred_virtual_base a"
    "rd 8 d 96 = pa_virtual_window_end_exclusive a" "rd 8 d 104 = pa_slide_alignment a" "rd 8 d 112 = pa_entry_offset a" by simp_all
qed

lemma psym_image_slices:
  assumes ok: "identity_ok (pa_identity a)" and d: "d = psym_image a"
  shows "bslice d 0 8 = PSYM_MAGIC" "identity_at d = identity_bytes (pa_identity a)" "bslice d 304 336 = sha256 (psym_body a)"
    "bslice d 336 384 = zeros 48" "drop 384 d = psym_body a"
proof -
  obtain v0 v1 v2 v3 v4 where v: "identity_bytes (pa_identity a) = [v0, v1, v2, v3, v4]" "length v0 = 32" "length v1 = 32" "length v2 = 32" "length v3 = 32"
    "length v4 = 32"
    using ok by (auto simp: identity_ok_def identity_bytes_def digest_ok_def is_digest_def)
  show "bslice d 0 8 = PSYM_MAGIC" "identity_at d = identity_bytes (pa_identity a)" "bslice d 304 336 = sha256 (psym_body a)"
    "bslice d 336 384 = zeros 48" "drop 384 d = psym_body a"
    unfolding d psym_image_def v(1) identity_at_def using v(2-) by (simp_all add: bslice_def)
qed

lemma identity_of_bytes: "identity_ok i \<Longrightarrow> identity_of (identity_bytes i) = i"
  by (auto simp: identity_ok_def digest_ok_def is_digest_def identity_of_def identity_bytes_def)

lemma psym_names_nonempty: "place_symbols gs n e k ss sc = Some sc' \<Longrightarrow> 1 \<le> length ss \<Longrightarrow> symbol_names ss \<noteq> []"
  by (cases ss) (auto simp: symbol_names_def symbol_static_def name_allowed_def ascii_bytes_def split: if_splits)

lemma psym_parse_image:
  assumes ok: "psym_args_ok a"
  shows "psym_parse (psym_image a) = Inr (bundle_of a)"
proof -
  define d where "d = psym_image a"
  let ?gs = "pa_segments a" let ?ss = "pa_symbols a" let ?n = "length (pa_segments a)" let ?m = "length (pa_symbols a)"
  let ?z = "length (symbol_names (pa_symbols a))"
  note reads = psym_image_reads [OF ok d_def]
  have o: "1 \<le> ?n" "?n \<le> 16" "1 \<le> ?m" "?m \<le> 4096" "?z \<le> 0x40000" "psym_total a \<le> 0x80000" "identity_ok (pa_identity a)"
    "window_ok (pa_image_bytes a) (pa_preferred_virtual_base a) (pa_virtual_window_end_exclusive a) (pa_slide_alignment a) (pa_entry_offset a)"
    "segments_ok (pa_image_bytes a) 0 0 ?gs (pa_image_bytes a)" using ok by (simp_all add: psym_args_ok_def)
  obtain sc where sc: "place_symbols ?gs (pa_image_bytes a) (pa_entry_offset a) 0 ?ss scan_none = Some sc" "sc_entry_count sc = 1"
    using ok by (auto simp: psym_args_ok_def split: option.splits)
  note sl = psym_image_slices [OF o(7) d_def]
  have len: "length d = psym_total a" by (simp add: d_def psym_image_len [OF o(7)])
  have lb: "length d = 384 + ?n * 32 + ?m * 48 + ?z" by (simp add: len psym_total_def)
  have i64: "pa_image_bytes a < 2 ^ 64" using o(8) by (simp add: window_ok_def)
  have z: "?z \<noteq> 0" using psym_names_nonempty [OF sc(1) o(3)] by simp
  have "list_all (\<lambda>v. v \<noteq> zeros 32) (identity_bytes (pa_identity a))" using o(7) by (simp add: identity_ok_def identity_bytes_def digest_ok_def)
  then have c: "list_all (\<lambda>(bad, _). \<not> bad) (psym_header_checks d)"
    unfolding header_checks_iff sl reads using reads(1) o z len by (simp add: psym_total_def not_any_byte_iff)
  have body: "bslice d (384 + x) (384 + y) = bslice (psym_body a) x y" for x y
    by (simp add: bslice_def sl(5) [symmetric] drop_take add.commute)
  have seg: "rfold (parse_segment d (pa_image_bytes a)) [0..<0 + ?n] ([], 0) = Inr (?gs, pa_image_bytes a)"
    using parse_segments_iff [of 0 ?n d "pa_image_bytes a" "[]" 0 ?gs "pa_image_bytes a"] o(2, 9) i64 lb body [of 0 "32 * ?n"]
    by (simp add: psym_body_def bslice_def)
  have sym: "rfold (parse_symbol d (384 + ?n * 32) (384 + ?n * 32 + ?m * 48) (int ?z) (pa_image_bytes a) (pa_entry_offset a) ?gs) [0..<0 + ?m] scan_none = Inr sc"
  proof (subst parse_symbols_iff [where q = 0])
    have "bslice d (384 + ?n * 32) (384 + ?n * 32 + 48 * ?m) = symbol_rows 0 ?ss"
      using body [of "?n * 32" "?n * 32 + 48 * ?m"] by (simp add: psym_body_def bslice_def add.assoc mult.commute)
    moreover have "bslice d (384 + ?n * 32 + ?m * 48) (384 + ?n * 32 + ?m * 48 + ?z) = symbol_names ?ss"
      using body [of "?n * 32 + ?m * 48" "?n * 32 + ?m * 48 + ?z"] by (simp add: psym_body_def bslice_def add.assoc mult.commute)
    ultimately show "\<exists>ss. length ss = ?m \<and> 0 + length (symbol_names ss) \<le> ?z \<and>
        place_symbols ?gs (pa_image_bytes a) (pa_entry_offset a) 0 ss scan_none = Some sc \<and>
        bslice d (384 + ?n * 32 + 0 * 48) (384 + ?n * 32 + 0 * 48 + 48 * ?m) = symbol_rows 0 ss \<and>
        bslice d (384 + ?n * 32 + ?m * 48 + 0) (384 + ?n * 32 + ?m * 48 + 0 + length (symbol_names ss)) = symbol_names ss"
      using sc(1) by (intro exI [of _ ?ss]) simp
  qed (use o lb i64 in simp_all)
  have "psym_parse d = Inr (bundle_of a)"
    unfolding psym_parse_iff
  proof (intro conjI [OF c] exI conjI)
    show "rfold (parse_segment d (rd 8 d 80)) [0..<nat (rd 4 d 32)] ([], 0) = Inr (?gs, rd 8 d 80)" using seg by (simp add: reads)
    show "rfold (parse_symbol d (nat (rd 8 d 56)) (nat (rd 8 d 64)) (rd 8 d 72) (rd 8 d 80) (rd 8 d 112) ?gs) [0..<nat (rd 4 d 36)] scan_none = Inr sc"
      using sym unfolding reads nat_int by (simp add: mult.commute)
  qed (use sc(2) place_symbols_scan [OF sc(1)] sl(2) identity_of_bytes [OF o(7)] in \<open>simp_all add: reads bundle_of_def d_def [symmetric]\<close>)
  then show ?thesis by (simp add: d_def)
qed

end
