(* ===== verification/Symbols_Encode.thy ===== *)
theory Symbols_Encode
  imports Symbols_Image
begin

text \<open>
  The encoder of symbol bundles writes the image of its arguments, so that encoding and parsing invert each other; and
  the canonical bundle of the module is well formed.
\<close>

unbundle bit_operations_syntax

section \<open>The tables\<close>

lemma name_allowed_ascii: "name_allowed (ascii_bytes s) \<Longrightarrow> list_all (\<lambda>c. (of_char c :: nat) < 128) s"
proof -
  have "(of_char c :: nat) < 128" if "name_allowed (ascii_bytes s)" "c \<in> set s" for c
  proof -
    define b :: byte where "b = of_nat (of_char c)"
    have "b \<in> set (ascii_bytes s)" using that(2) by (auto simp: ascii_bytes_def b_def)
    then have "48 \<le> uint b \<and> uint b \<le> 57 \<or> 65 \<le> uint b \<and> uint b \<le> 90 \<or> 97 \<le> uint b \<and> uint b \<le> 122 \<or> b \<in> {0x5F, 0x2E, 0x24, 0x40, 0x2D}"
      using that(1) by (auto simp: name_allowed_def list_all_iff)
    then have "uint b < 128" by auto
    moreover have "uint b = int (of_char c)" by (simp add: b_def unsigned_of_nat take_bit_nat_eq_self)
    ultimately show ?thesis by simp
  qed
  then show "name_allowed (ascii_bytes s) \<Longrightarrow> list_all (\<lambda>c. (of_char c :: nat) < 128) s" by (simp add: list_all_iff)
qed

lemma encode_symbols:
  assumes "place_symbols gs n e k ss sc = Some sc'" "n < 2 ^ 64" "k + length ss \<le> 4096" "length gs \<le> 16"
    "length names + length (symbol_names ss) < 2 ^ 32" "length P = 48 * k"
  shows "rfold encode_symbol (enumerate k ss) (names, P @ zeros (48 * length ss)) =
    Inr (names @ symbol_names ss, P @ symbol_rows (length names) ss)"
  using assms
proof (induction ss arbitrary: k sc names P)
  case Nil
  then show ?case by (simp add: symbol_names_def zeros_0)
next
  case (Cons s ss)
  let ?nm = "ascii_bytes (sm_name s)" let ?row = "packed (symbol_fields (length names) (ascii_bytes (sm_name s)) s)"
  obtain sc1 where st: "symbol_static k (length gs) s" and pl: "place_symbol gs n e k s (int (length (sm_name s))) sc = Inr sc1"
    and rest: "place_symbols gs n e (Suc k) ss sc1 = Some sc'"
    using Cons.prems(1) by (auto split: if_splits sum.splits)
  have f: "list_all (\<lambda>(n, v). fits n v) (symbol_fields (length names) ?nm s)"
    using Cons.prems by (intro symbol_fits [OF st pl]) simp_all
  have "pack_into (P @ zeros 48 @ zeros (48 * length ss)) (k * 48) (symbol_fields (length names) ?nm s) = Inr (P @ ?row @ zeros (48 * length ss))"
    using f Cons.prems(6) by (intro pack_into_mid) simp_all
  moreover have "zeros (48 * length (s # ss)) = zeros 48 @ zeros (48 * length ss)" using zeros_add [of 48 "48 * length ss"] by simp
  ultimately have step: "encode_symbol (k, s) (names, P @ zeros (48 * length (s # ss))) = Inr (names @ ?nm, (P @ ?row) @ zeros (48 * length ss))"
    using name_allowed_ascii [of "sm_name s"] st
    by (simp only: encode_symbol_def prod.case encode_ascii_name_def symbol_static_def if_True rbind.simps SYMBOL_BYTES_def append_assoc)
  have "rfold encode_symbol (enumerate (Suc k) ss) (names @ ?nm, (P @ ?row) @ zeros (48 * length ss)) =
      Inr ((names @ ?nm) @ symbol_names ss, (P @ ?row) @ symbol_rows (length (names @ ?nm)) ss)"
    using Cons.prems rest by (intro Cons.IH) (simp_all add: symbol_names_def)
  then show ?case unfolding enumerate_simps rfold.simps step rbind.simps by (simp add: symbol_names_def)
qed

lemma encode_segments:
  assumes "segments_ok n k p gs p'" "n < 2 ^ 64" "k + length gs \<le> 16" "length P = 32 * k"
  shows "rfold encode_segment (enumerate k gs) (P @ zeros (32 * length gs)) = Inr (P @ segment_rows gs)"
  using assms
proof (induction gs arbitrary: k p P)
  case Nil
  then show ?case by (simp add: segment_rows_def zeros_0)
next
  case (Cons g gs)
  let ?row = "packed (segment_fields g)"
  have f: "list_all (\<lambda>(n, v). fits n v) (segment_fields g)"
    using Cons.prems segment_fits [of n k p g] by simp
  have "pack_into (P @ zeros 32 @ zeros (32 * length gs)) (k * 32) (segment_fields g) = Inr (P @ ?row @ zeros (32 * length gs))"
    using f Cons.prems(4) by (intro pack_into_mid) simp_all
  moreover have "zeros (32 * length (g # gs)) = zeros 32 @ zeros (32 * length gs)" using zeros_add [of 32 "32 * length gs"] by simp
  ultimately have step: "encode_segment (k, g) (P @ zeros (32 * length (g # gs))) = Inr ((P @ ?row) @ zeros (32 * length gs))"
    by (simp only: encode_segment_def prod.case SEGMENT_BYTES_def append_assoc)
  have "rfold encode_segment (enumerate (Suc k) gs) ((P @ ?row) @ zeros (32 * length gs)) = Inr ((P @ ?row) @ segment_rows gs)"
    using Cons.prems by (intro Cons.IH [where p = "p + sg_byte_count g"]) simp_all
  then show ?case unfolding enumerate_simps rfold.simps step rbind.simps by (simp add: segment_rows_def)
qed

section \<open>The header and the image\<close>

lemma digest_ok_bytes: "digest_ok h \<Longrightarrow> psym_digest_bytes h = Inr (hexed h) \<and> length (hexed h) = 32"
  by (auto simp: digest_ok_iff psym_digest_bytes_def guarded.simps)

lemma put_identity_image:
  assumes "identity_ok i" "length P = 144"
  shows "put_identity i (P @ zeros 160 @ R) = Inr (P @ concat (identity_bytes i) @ R)"
proof -
  have z: "zeros 160 = zeros 32 @ zeros 32 @ zeros 32 @ zeros 32 @ zeros 32"
    using zeros_add [of 32 128] zeros_add [of 32 96] zeros_add [of 32 64] zeros_add [of 32 32] by simp
  obtain v0 v1 v2 v3 v4 where v: "identity_bytes i = [v0, v1, v2, v3, v4]" "psym_digest_bytes (si_canonical_file_sha256 i) = Inr v0"
      "psym_digest_bytes (si_preferred_loaded_sha256 i) = Inr v1" "psym_digest_bytes (si_build_id_sha256 i) = Inr v2"
      "psym_digest_bytes (si_debug_file_sha256 i) = Inr v3" "psym_digest_bytes (si_source_manifest_sha256 i) = Inr v4"
    and l: "length v0 = 32" "length v1 = 32" "length v2 = 32" "length v3 = 32" "length v4 = 32"
    using assms(1) digest_ok_bytes unfolding identity_ok_def identity_bytes_def by simp
  have w: "slice_assign (P @ zeros 32 @ zeros 32 @ zeros 32 @ zeros 32 @ zeros 32 @ R) 144 176 v0 = (P @ v0) @ zeros 32 @ zeros 32 @ zeros 32 @ zeros 32 @ R"
    "slice_assign ((P @ v0) @ zeros 32 @ zeros 32 @ zeros 32 @ zeros 32 @ R) 176 208 v1 = (P @ v0 @ v1) @ zeros 32 @ zeros 32 @ zeros 32 @ R"
    "slice_assign ((P @ v0 @ v1) @ zeros 32 @ zeros 32 @ zeros 32 @ R) 208 240 v2 = (P @ v0 @ v1 @ v2) @ zeros 32 @ zeros 32 @ R"
    "slice_assign ((P @ v0 @ v1 @ v2) @ zeros 32 @ zeros 32 @ R) 240 272 v3 = (P @ v0 @ v1 @ v2 @ v3) @ zeros 32 @ R"
    "slice_assign ((P @ v0 @ v1 @ v2 @ v3) @ zeros 32 @ R) 272 304 v4 = (P @ v0 @ v1 @ v2 @ v3) @ v4 @ R"
    by (subst slice_assign_mid; simp add: assms(2) l)+
  have "(P @ zeros 160 @ R) = P @ zeros 32 @ zeros 32 @ zeros 32 @ zeros 32 @ zeros 32 @ R" by (simp only: z append_assoc)
  then show ?thesis unfolding put_identity_def v Let_def by (simp only: rbind.simps w) (simp only: concat.simps append_assoc append_Nil2)
qed

text \<open>The fields of the header, in the groups in which the encoder packs them.\<close>

lemma psym_header_packs:
  assumes ok: "psym_args_ok a"
  defines "n \<equiv> length (pa_segments a)" and "k \<equiv> length (pa_symbols a)" and "l \<equiv> length (symbol_names (pa_symbols a))"
  shows "rbind (pack_into (PSYM_MAGIC @ zeros (136 + N)) 8 [(2, PSYM_MAJOR_VERSION), (2, PSYM_MINOR_VERSION), (2, int PSYM_HEADER_BYTES),
      (2, int SEGMENT_BYTES), (2, int SYMBOL_BYTES), (2, 0)]) (\<lambda>output.
    rbind (pack_into output 20 [(4, PSYM_REQUIRED_FLAGS)]) (\<lambda>output.
    rbind (pack_into output 24 [(2, PROFILE_PUBLIC_DIAGNOSTIC), (2, ADDRESS_IMAGE_RELATIVE), (2, NAME_ASCII_OPAQUE), (2, PRIVACY_PUBLIC),
      (4, int n), (4, int k)]) (\<lambda>output.
    rbind (pack_into output 40 [(8, int (psym_total a)), (8, int PSYM_HEADER_BYTES), (8, int (384 + 32 * n)), (8, int (384 + 32 * n + 48 * k)),
      (8, int l), (8, pa_image_bytes a), (8, pa_preferred_virtual_base a), (8, pa_virtual_window_end_exclusive a),
      (8, pa_slide_alignment a), (8, pa_entry_offset a)]) (\<lambda>output.
    rbind (pack_into output 120 [(4, MAX_SEGMENTS), (4, MAX_SYMBOLS), (4, MAX_NAME_BYTES), (4, MAX_LOOKUP_STEPS), (2, LOOKUP_BINARY_SEARCH),
      (2, MANGLING_OPAQUE_LINKER), (2, POINTER_REDACT_RUNTIME), (2, 0)]) cont)))) = cont (PSYM_MAGIC @ packed (psym_fields a) @ zeros N)"
proof -
  define F1 F2 F3 F4 F5 where "F1 = take 6 (psym_fields a)" and "F2 = take 1 (drop 6 (psym_fields a))"
    and "F3 = take 6 (drop 7 (psym_fields a))" and "F4 = take 10 (drop 13 (psym_fields a))" and "F5 = drop 23 (psym_fields a)"
  note F = F1_def F2_def F3_def F4_def F5_def
  have lists: "[(2, PSYM_MAJOR_VERSION), (2, PSYM_MINOR_VERSION), (2, int PSYM_HEADER_BYTES), (2, int SEGMENT_BYTES), (2, int SYMBOL_BYTES), (2, 0)] = F1"
    "[(4, PSYM_REQUIRED_FLAGS)] = F2"
    "[(2, PROFILE_PUBLIC_DIAGNOSTIC), (2, ADDRESS_IMAGE_RELATIVE), (2, NAME_ASCII_OPAQUE), (2, PRIVACY_PUBLIC), (4, int n), (4, int k)] = F3"
    "[(8, int (psym_total a)), (8, int PSYM_HEADER_BYTES), (8, int (384 + 32 * n)), (8, int (384 + 32 * n + 48 * k)),
      (8, int l), (8, pa_image_bytes a), (8, pa_preferred_virtual_base a), (8, pa_virtual_window_end_exclusive a),
      (8, pa_slide_alignment a), (8, pa_entry_offset a)] = F4"
    "[(4, MAX_SEGMENTS), (4, MAX_SYMBOLS), (4, MAX_NAME_BYTES), (4, MAX_LOOKUP_STEPS), (2, LOOKUP_BINARY_SEARCH),
      (2, MANGLING_OPAQUE_LINKER), (2, POINTER_REDACT_RUNTIME), (2, 0)] = F5"
    by (simp_all add: F psym_fields_def n_def k_def l_def PSYM_MAJOR_VERSION_def PSYM_MINOR_VERSION_def PSYM_HEADER_BYTES_def SEGMENT_BYTES_def
      SYMBOL_BYTES_def PROFILE_PUBLIC_DIAGNOSTIC_def ADDRESS_IMAGE_RELATIVE_def NAME_ASCII_OPAQUE_def PRIVACY_PUBLIC_def MAX_SEGMENTS_def
      MAX_SYMBOLS_def MAX_NAME_BYTES_def MAX_LOOKUP_STEPS_def LOOKUP_BINARY_SEARCH_def MANGLING_OPAQUE_LINKER_def POINTER_REDACT_RUNTIME_def)
  have all: "psym_fields a = F1 @ F2 @ F3 @ F4 @ F5" by (simp add: F psym_fields_def)
  then have fit: "list_all (\<lambda>(n, v). fits n v) F1" "list_all (\<lambda>(n, v). fits n v) F2" "list_all (\<lambda>(n, v). fits n v) F3"
    "list_all (\<lambda>(n, v). fits n v) F4" "list_all (\<lambda>(n, v). fits n v) F5" using psym_fields_fit [OF ok] by simp_all
  have len: "sum_list (map fst F1) = 12" "sum_list (map fst F2) = 4" "sum_list (map fst F3) = 16" "sum_list (map fst F4) = 80" "sum_list (map fst F5) = 24"
    by (simp_all add: F psym_fields_def)
  have packs: "pack_into (PSYM_MAGIC @ zeros (136 + N)) 8 F1 = Inr ((PSYM_MAGIC @ packed F1) @ zeros (124 + N))"
    "pack_into ((PSYM_MAGIC @ packed F1) @ zeros (124 + N)) 20 F2 = Inr ((PSYM_MAGIC @ packed (F1 @ F2)) @ zeros (120 + N))"
    "pack_into ((PSYM_MAGIC @ packed (F1 @ F2)) @ zeros (120 + N)) 24 F3 = Inr ((PSYM_MAGIC @ packed (F1 @ F2 @ F3)) @ zeros (104 + N))"
    "pack_into ((PSYM_MAGIC @ packed (F1 @ F2 @ F3)) @ zeros (104 + N)) 40 F4 = Inr ((PSYM_MAGIC @ packed (F1 @ F2 @ F3 @ F4)) @ zeros (24 + N))"
    "pack_into ((PSYM_MAGIC @ packed (F1 @ F2 @ F3 @ F4)) @ zeros (24 + N)) 120 F5 = Inr ((PSYM_MAGIC @ packed (F1 @ F2 @ F3 @ F4 @ F5)) @ zeros N)"
    by (subst pack_into_append; simp add: fit len packed_append)+
  show ?thesis unfolding lists packs rbind.simps all by (simp only: append_assoc)
qed

lemma psym_encode_image:
  assumes ok: "psym_args_ok a"
  shows "psym_encode a = Inr (psym_image a)"
proof -
  define n k l where "n = length (pa_segments a)" and "k = length (pa_symbols a)" and "l = length (symbol_names (pa_symbols a))"
  let ?gs = "pa_segments a" let ?ss = "pa_symbols a"
  let ?G = "segment_rows ?gs" let ?S = "symbol_rows 0 ?ss" let ?N = "symbol_names ?ss"
  have o: "1 \<le> n" "n \<le> 16" "1 \<le> k" "k \<le> 4096" "l \<le> 0x40000" "psym_total a \<le> 0x80000" "identity_ok (pa_identity a)"
    "pa_image_bytes a < 2 ^ 64" "segments_ok (pa_image_bytes a) 0 0 ?gs (pa_image_bytes a)"
    using ok by (simp_all add: psym_args_ok_def n_def k_def l_def window_ok_def)
  obtain sc where sc: "place_symbols ?gs (pa_image_bytes a) (pa_entry_offset a) 0 ?ss scan_none = Some sc"
    using ok by (auto simp: psym_args_ok_def split: option.splits)
  have l0: "?N \<noteq> []" using psym_names_nonempty [OF sc] o(3) unfolding k_def by blast
  have syms: "rfold encode_symbol (enumerate 0 ?ss) ([], zeros (length ?ss * SYMBOL_BYTES)) = Inr (?N, ?S)"
    using encode_symbols [OF sc, of "[]" "[]"] o by (simp add: SYMBOL_BYTES_def mult.commute n_def k_def l_def)
  have segs: "rfold encode_segment (enumerate 0 ?gs) (zeros (length ?gs * SEGMENT_BYTES)) = Inr ?G"
    using encode_segments [OF o(9), of "[]"] o by (simp add: SEGMENT_BYTES_def mult.commute n_def)
  have t: "psym_total a = 384 + 32 * n + 48 * k + l" by (simp add: psym_total_def n_def k_def l_def)
  define r where "r = 32 * n + 48 * k + l"
  have start: "slice_assign (zeros (psym_total a)) 0 8 PSYM_MAGIC = PSYM_MAGIC @ zeros (136 + (240 + r))"
    by (simp add: slice_assign_def t r_def zeros_def add_ac)
  have z: "zeros (240 + r) = zeros 160 @ zeros 32 @ zeros 48 @ zeros (32 * n) @ zeros (48 * k) @ zeros l"
    using zeros_add [of 160 "80 + r"] zeros_add [of 32 "48 + r"] zeros_add [of 48 r] zeros_add [of "32 * n" "48 * k + l"] zeros_add [of "48 * k" l]
    by (simp add: r_def add.assoc)
  let ?H = "PSYM_MAGIC @ packed (psym_fields a)" let ?I = "concat (identity_bytes (pa_identity a))"
  have ident: "put_identity (pa_identity a) (?H @ zeros (240 + r)) =
      Inr (?H @ ?I @ zeros 32 @ zeros 48 @ zeros (32 * n) @ zeros (48 * k) @ zeros l)"
    using put_identity_image [OF o(7), of ?H] unfolding z by simp
  have li: "length ?I = 160" by (rule length_identity [OF o(7)])
  let ?O = "?H @ ?I @ zeros 32 @ zeros 48 @ ?G @ ?S @ ?N"
  have a1: "slice_assign (?H @ ?I @ zeros 32 @ zeros 48 @ zeros (32 * n) @ zeros (48 * k) @ zeros l) 384 (384 + 32 * n) ?G =
      ?H @ ?I @ zeros 32 @ zeros 48 @ ?G @ zeros (48 * k) @ zeros l" by (simp add: slice_assign_def li)
  have a2: "slice_assign (?H @ ?I @ zeros 32 @ zeros 48 @ ?G @ zeros (48 * k) @ zeros l) (384 + 32 * n) (384 + 32 * n + 48 * k) ?S =
      ?H @ ?I @ zeros 32 @ zeros 48 @ ?G @ ?S @ zeros l" by (simp add: slice_assign_def li n_def)
  have a3: "slice_assign (?H @ ?I @ zeros 32 @ zeros 48 @ ?G @ ?S @ zeros l) (384 + 32 * n + 48 * k)
      (length (?H @ ?I @ zeros 32 @ zeros 48 @ ?G @ ?S @ zeros l)) ?N = ?O" by (simp add: slice_assign_def li n_def k_def)
  have a4: "slice_assign ?O 304 336 (sha256 (drop 384 ?O)) = psym_image a" by (simp add: slice_assign_def li psym_image_def psym_body_def)
  have pf: "psym_parse (psym_image a) = Inr (bundle_of a)" by (rule psym_parse_image [OF ok])
  have len: "length ?G = 32 * n" "length ?S = 48 * k" "length ?N = l" by (simp_all add: n_def k_def l_def)
  have g: "\<not> (\<not> (1 \<le> n \<and> int n \<le> MAX_SEGMENTS) \<or> \<not> (1 \<le> k \<and> int k \<le> MAX_SYMBOLS))"
      "\<not> (?N = [] \<or> int l > MAX_STRING_BYTES \<or> int (psym_total a) > MAX_BUNDLE_BYTES)"
    using o l0 by (simp_all add: code_defs)
  note hp = psym_header_packs [OF ok, folded n_def k_def l_def]
  have "psym_encode a = rbind (put_identity (pa_identity a) (PSYM_MAGIC @ packed (psym_fields a) @ zeros (240 + r))) (\<lambda>output.
      let output = slice_assign output 384 (384 + 32 * n) ?G;
          output = slice_assign output (384 + 32 * n) (384 + 32 * n + 48 * k) ?S;
          output = slice_assign output (384 + 32 * n + 48 * k) (length output) ?N;
          output = slice_assign output 304 336 (sha256 (drop 384 output)) in
      rbind (psym_parse output) (\<lambda>_. Inr output))"
    unfolding psym_encode_def Let_def syms segs rbind.simps prod.case len 
    unfolding n_def [symmetric] k_def [symmetric] using g by (simp only: guarded.simps if_False PSYM_HEADER_BYTES_def t [symmetric] start hp [unfolded PSYM_HEADER_BYTES_def])
  also have "\<dots> = Inr (psym_image a)"
    unfolding ident [unfolded append_assoc] rbind.simps Let_def
    unfolding a1 [unfolded append_assoc] a2 [unfolded append_assoc] a3 [unfolded append_assoc] a4 [unfolded append_assoc] pf rbind.simps ..
  finally show ?thesis .
qed

section \<open>Encoding and parsing\<close>

definition bundle_encode :: "sy_bundle \<Rightarrow> bytes res" where
  "bundle_encode b = psym_encode (bundle_args b)"

lemma bundle_args_of [simp]: "bundle_args (bundle_of a) = a"
  by (simp add: bundle_args_def bundle_of_def)

interpretation bundle_codec: codec bundle_encode psym_parse "\<lambda>b. psym_args_ok (bundle_args b)" bundle_args
proof unfold_locales
  show "\<exists>d y. bundle_encode x = Inr d \<and> psym_parse d = Inr y \<and> bundle_args y = bundle_args x" if "psym_args_ok (bundle_args x)" for x
    using psym_encode_image [OF that] psym_parse_image [OF that] by (simp add: bundle_encode_def)
  show "bundle_encode x = Inr d" if "psym_parse d = Inr x" for d x
    using psym_encode_image [OF psym_parse_parts(1) [OF that]] psym_spelling(1) [OF that] by (simp add: bundle_encode_def)
qed (simp add: bundle_encode_def)

text \<open>
  C22. Encoding and parsing of symbol bundles invert each other: the parser accepts a file as a bundle exactly when the
  arguments of that bundle are well formed, the encoder turns them into this very file, and the bundle keeps the file
  and the required flags. So no file has two readings and no bundle has two spellings.
\<close>

theorem psym_parse_iff_encode:
  "psym_parse d = Inr b \<longleftrightarrow>
    psym_args_ok (bundle_args b) \<and> psym_encode (bundle_args b) = Inr d \<and> sb_raw b = d \<and> sb_flags b = PSYM_REQUIRED_FLAGS"
proof
  assume p: "psym_parse d = Inr b"
  have "b = bundle_of (bundle_args b)" "d = psym_image (bundle_args b)" using psym_spelling [OF p] by simp_all
  then have "sb_raw b = d" "sb_flags b = PSYM_REQUIRED_FLAGS" by (metis bundle_of_def sy_bundle.select_convs(1, 2))+
  then show "psym_args_ok (bundle_args b) \<and> psym_encode (bundle_args b) = Inr d \<and> sb_raw b = d \<and> sb_flags b = PSYM_REQUIRED_FLAGS"
    using psym_parse_parts(1) [OF p] bundle_codec.enc_dec [OF p] by (simp add: bundle_encode_def)
next
  assume a: "psym_args_ok (bundle_args b) \<and> psym_encode (bundle_args b) = Inr d \<and> sb_raw b = d \<and> sb_flags b = PSYM_REQUIRED_FLAGS"
  then have d: "d = psym_image (bundle_args b)" using psym_encode_image [of "bundle_args b"] by simp
  have "bundle_of (bundle_args b) = b"
    using a by (intro sy_bundle.equality) (simp_all add: bundle_of_def bundle_args_def d [unfolded bundle_args_def, symmetric])
  then show "psym_parse d = Inr b" using psym_parse_image [of "bundle_args b"] a by (simp add: d)
qed

section \<open>The canonical bundle\<close>

definition canonical_args :: psym_args where
  "canonical_args = psym_default_args canonical_identity canonical_segments canonical_symbols CANONICAL_IMAGE_BYTES CANONICAL_ENTRY_OFFSET"

lemma canonical_args_ok: "psym_args_ok canonical_args"
proof -
  have "identity_ok canonical_identity" by code_simp
  moreover have names: "name_allowed (ascii_bytes ''poole_kernel_entry'')" "name_allowed (ascii_bytes ''poole_kernel_emergency_panic'')"
    "name_allowed (ascii_bytes ''poole_kernel_rust_entry'')" by code_simp+
  moreover have "segments_ok CANONICAL_IMAGE_BYTES 0 0 canonical_segments CANONICAL_IMAGE_BYTES"
    by (simp add: canonical_segments_def psym_segment_def segment_ok_def segment_wf_def SEGMENT_FLAGS_BY_KIND_def code_defs)
  moreover have "window_ok CANONICAL_IMAGE_BYTES PREFERRED_VIRTUAL_BASE VIRTUAL_WINDOW_END_EXCLUSIVE SLIDE_ALIGNMENT CANONICAL_ENTRY_OFFSET"
    by (simp add: window_ok_def is_canonical_x86_64_def code_defs)
  moreover have "case place_symbols canonical_segments CANONICAL_IMAGE_BYTES CANONICAL_ENTRY_OFFSET 0 canonical_symbols scan_none of
      Some sc \<Rightarrow> sc_entry_count sc = 1 | None \<Rightarrow> False"
    using names
    by (simp add: canonical_symbols_def canonical_segments_def psym_segment_def psym_symbol_def symbol_static_def place_symbol_def checked_end_def
      guarded.simps check_symbol_permissions_def code_defs)
  moreover have "length (symbol_names canonical_symbols) = 69" "length canonical_symbols = 3" "length canonical_segments = 4"
    by (simp_all add: symbol_names_def canonical_symbols_def canonical_segments_def psym_symbol_def Let_def)
  ultimately show ?thesis
    by (simp add: psym_args_ok_def canonical_args_def psym_default_args_def psym_total_def fits_def)
      (simp add: code_defs)
qed

lemma canonical_bundle_parses: "psym_canonical_bundle = Inr (psym_image canonical_args)" "psym_parse (psym_image canonical_args) = Inr (bundle_of canonical_args)"
  using psym_encode_image [OF canonical_args_ok] psym_parse_image [OF canonical_args_ok]
  by (simp_all add: psym_canonical_bundle_def canonical_args_def)

lemma bundle_of_canonical:
  "sb_symbols (bundle_of canonical_args) = canonical_symbols" "sb_preferred_virtual_base (bundle_of canonical_args) = 0xFFFFFFFF80000000"
  "sb_image_bytes (bundle_of canonical_args) = 0x95000" "sb_virtual_window_end_exclusive (bundle_of canonical_args) = 0xFFFFFFFFC0000000"
  "sb_slide_alignment (bundle_of canonical_args) = 0x200000" "sb_segments (bundle_of canonical_args) = canonical_segments"
  "sb_entry_offset (bundle_of canonical_args) = 0xA000"
  by (simp_all add: bundle_of_def canonical_args_def psym_default_args_def) (simp_all add: code_defs)

text \<open>An address inside the panic handler of a kernel loaded one slide above its preferred base.\<close>

theorem psym_lookup_is_search_witness:
  "\<exists>d b k. psym_canonical_bundle = Inr d \<and> psym_parse d = Inr b \<and> k \<le> MAX_LOOKUP_STEPS \<and>
    psym_lookup b 0xFFFFFFFF80200000 (0xFFFFFFFF80200000 + 174250) =
    Inr (Some \<lparr>lr_symbol = canonical_symbols ! 1, lr_symbol_offset = 12, lr_steps = k\<rparr>)"
proof -
  have "is_canonical_x86_64 0xFFFFFFFF80200000" "is_canonical_x86_64 (0xFFFFFFFF80200000 + 174250)"
    by (simp_all add: is_canonical_x86_64_def)
  moreover have "find (covers 174250) canonical_symbols = Some (canonical_symbols ! 1)" "sm_start_offset (canonical_symbols ! 1) = 174238"
    by (simp_all add: canonical_symbols_def psym_symbol_def covers_def sm_end_def Let_def)
  ultimately have "\<exists>k. k \<le> MAX_LOOKUP_STEPS \<and> psym_lookup (bundle_of canonical_args) 0xFFFFFFFF80200000 (0xFFFFFFFF80200000 + 174250) =
      Inr (Some \<lparr>lr_symbol = canonical_symbols ! 1, lr_symbol_offset = 12, lr_steps = k\<rparr>)"
    using psym_lookup_is_search [OF canonical_bundle_parses(2), of "0xFFFFFFFF80200000" "0xFFFFFFFF80200000 + 174250"]
    by (auto simp: bundle_of_canonical located_def)
  then show ?thesis using canonical_bundle_parses by blast
qed

end
