(* ===== verification/Symbols_Debug.thy ===== *)
theory Symbols_Debug
  imports Symbols_Encode "HOL-Library.Multiset"
begin

text \<open>
  The reader of the split debug ELF (\<open>inspect_debug_elf\<close> of \<open>src/runtime/native_symbols.py\<close>), the choice of the public
  symbols and the bundle made of them. Reads outside the file, outside a list and of a missing key are the branches
  \<open>StructError\<close>, \<open>IndexError\<close> and \<open>KeyError\<close>; the reader never takes them.
\<close>

unbundle bit_operations_syntax

section \<open>Definitions\<close>

definition PUBLIC_SYMBOL_NAMES :: "string list" where
  "PUBLIC_SYMBOL_NAMES = [''poole_kernel_entry'', ''poole_kernel_emergency_panic'', ''poole_kernel_rust_entry'']"

definition REQUIRED_DWARF5_SECTIONS :: "string list" where
  "REQUIRED_DWARF5_SECTIONS = [''.debug_abbrev'', ''.debug_info'', ''.debug_line'', ''.debug_loclists'', ''.debug_names'', ''.debug_rnglists'',
     ''.debug_str'', ''.symtab'', ''.strtab'']"

record elf_section =
  es_name :: string
  es_section_type :: int
  es_offset :: int
  es_byte_count :: int
  es_link :: int
  es_entry_bytes :: int

record elf_symbol =
  ey_name :: string
  ey_binding :: int
  ey_kind :: int
  ey_visibility :: int
  ey_section_index :: int
  ey_value :: int
  ey_byte_count :: int

record debug_elf =
  de_byte_count :: int
  de_sha256 :: string
  de_sections :: "elf_section list"
  de_symbols :: "elf_symbol list"
  de_dwarf_versions :: "int list"

definition cstring :: "bytes \<Rightarrow> int \<Rightarrow> string \<Rightarrow> string res" where
  "cstring data offset code =
     guarded [(offset < 0 \<or> offset \<ge> int (length data), code)]
     (let rest = drop (nat offset) data; name = takeWhile (\<lambda>b. b \<noteq> 0) rest in
      guarded [(length name = length rest, code), (\<not> list_all (\<lambda>b. uint b < 128) name, code)] (Inr (ascii_string name)))"

text \<open>One unit of \<open>.debug_info\<close>: its version and the offset of the next one.\<close>

definition dwarf_unit :: "bytes \<Rightarrow> nat \<Rightarrow> (int \<times> nat) res" where
  "dwarf_unit data offset =
     guarded [(length data - offset < 6, ''psym_dwarf_unit'')]
     (let initial_length = rd 4 data offset in
      rbind (if initial_length = 0xFFFFFFFF
             then guarded [(length data - offset < 14, ''psym_dwarf_unit'')] (Inr (rd 8 data (offset + 4), 12))
             else guarded [(initial_length \<ge> 0xFFFFFFF0 \<or> initial_length = 0, ''psym_dwarf_unit'')] (Inr (initial_length, 4)))
        (\<lambda>(unit_length, header_bytes).
         let end = int offset + int header_bytes + unit_length in
         guarded [(end > int (length data) \<or> unit_length < 2, ''psym_dwarf_unit'')]
         (Inr (rd 2 data (offset + header_bytes), nat end))))"

lemma dwarf_unit_advances:
  assumes "dwarf_unit data offset = Inr (v, e)"
  shows "offset < e" "e \<le> length data"
  using assms by (auto simp: dwarf_unit_def Let_def guarded_Inr_iff rbind_Inr_iff split: if_splits)

function dwarf_loop :: "bytes \<Rightarrow> nat \<Rightarrow> int list \<Rightarrow> int list res" where
  "dwarf_loop data offset versions =
     (if offset < length data then
        case dwarf_unit data offset of Inl e \<Rightarrow> Inl e | Inr (v, end) \<Rightarrow> dwarf_loop data end (versions @ [v])
      else Inr versions)"
  by pat_completeness auto
termination
  by (relation "measure (\<lambda>(data, offset, _). length data - offset)") (auto dest: dwarf_unit_advances)

declare dwarf_loop.simps [simp del]

definition dwarf_versions :: "bytes \<Rightarrow> int list res" where
  "dwarf_versions data = rbind (dwarf_loop data 0 []) (\<lambda>versions. guarded [(versions = [], ''psym_dwarf_unit'')] (Inr versions))"

text \<open>The section headers: the columns of the row that the reader uses.\<close>

record section_row =
  sw_name :: int
  sw_type :: int
  sw_offset :: int
  sw_size :: int
  sw_link :: int
  sw_entsize :: int

definition section_row_at :: "bytes \<Rightarrow> nat \<Rightarrow> section_row res" where
  "section_row_at data at =
     (if at + 64 \<le> length data
      then Inr \<lparr>sw_name = rd 4 data at, sw_type = rd 4 data (at + 4), sw_offset = rd 8 data (at + 24), sw_size = rd 8 data (at + 32),
        sw_link = rd 4 data (at + 40), sw_entsize = rd 8 data (at + 56)\<rparr>
      else Inl StructError)"

definition elf_section_step ::
  "bytes \<Rightarrow> int \<Rightarrow> bytes \<Rightarrow> nat \<times> section_row \<Rightarrow> elf_section list \<times> string list \<Rightarrow> (elf_section list \<times> string list) res" where
  "elf_section_step data section_count section_names = (\<lambda>(index, row) (sections, names_seen).
     rbind (if index = 0 then Inr '''' else cstring section_names (sw_name row) ''psym_debug_section_names'') (\<lambda>name.
     guarded [
       (name \<in> set names_seen \<and> name \<noteq> '''', ''psym_debug_duplicate_section''),
       (sw_type row \<noteq> 8 \<and> (sw_offset row > int (length data) \<or> sw_size row > int (length data) - sw_offset row), ''psym_debug_section_bounds''),
       (sw_link row \<ge> section_count \<and> sw_link row \<noteq> 0, ''psym_debug_section_link'')]
     (Inr (sections @ [\<lparr>es_name = name, es_section_type = sw_type row, es_offset = sw_offset row, es_byte_count = sw_size row,
        es_link = sw_link row, es_entry_bytes = sw_entsize row\<rparr>], name # names_seen))))"

text \<open>\<open>{item.name: item for item in sections}\<close>: the last item of a name.\<close>

definition section_by_name :: "elf_section list \<Rightarrow> string \<Rightarrow> elf_section option" where
  "section_by_name sections name = find (\<lambda>s. es_name s = name) (rev sections)"

definition section_data :: "bytes \<Rightarrow> elf_section \<Rightarrow> bytes" where
  "section_data data s = bslice data (nat (es_offset s)) (nat (es_offset s + es_byte_count s))"

definition elf_symbol_at :: "bytes \<Rightarrow> bytes \<Rightarrow> nat \<Rightarrow> elf_symbol res" where
  "elf_symbol_at data strings at =
     (if at + 24 \<le> length data then
        rbind (if rd 4 data at = 0 then Inr '''' else cstring strings (rd 4 data at) ''psym_debug_symbol_name'') (\<lambda>name.
        Inr \<lparr>ey_name = name, ey_binding = drop_bit 4 (rd 1 data (at + 4)), ey_kind = rd 1 data (at + 4) AND 0x0F,
          ey_visibility = rd 1 data (at + 5) AND 0x07, ey_section_index = rd 2 data (at + 6), ey_value = rd 8 data (at + 8),
          ey_byte_count = rd 8 data (at + 16)\<rparr>)
      else Inl StructError)"

text \<open>\<open>marker in data\<close> on \<open>bytes\<close>.\<close>

fun occurs_in :: "bytes \<Rightarrow> bytes \<Rightarrow> bool" where
  "occurs_in marker [] \<longleftrightarrow> marker = []"
| "occurs_in marker (b # bs) \<longleftrightarrow> take (length marker) (b # bs) = marker \<or> occurs_in marker bs"

definition host_path_markers :: "bytes list" where
  "host_path_markers = [[0x43, 0x3A, 0x5C, 0x55, 0x73, 0x65, 0x72, 0x73], [0x72, 0x6F, 0x6F, 0x6B, 0x70], [0x5C, 0x5C, 0x3F, 0x5C]]"

definition debug_header_checks :: "bytes \<Rightarrow> (bool \<times> string) list" where
  "debug_header_checks data =
     (let section_offset = rd 8 data 40; section_count = rd 2 data 60; string_index = rd 2 data 62 in [
       (length data < 64 \<or> int (length data) > 16 * 1024 * 1024, ''psym_debug_elf_size''),
       (bslice data 0 4 \<noteq> [0x7F, 0x45, 0x4C, 0x46] \<or> bslice data 4 7 \<noteq> [2, 1, 1], ''psym_debug_elf_ident''),
       ((rd 2 data 16, rd 2 data 18, rd 4 data 20) \<noteq> (3, 62, 1), ''psym_debug_elf_header''),
       (rd 2 data 52 \<noteq> 64 \<or> rd 2 data 58 \<noteq> 64 \<or> \<not> (1 \<le> section_count \<and> section_count \<le> 1024), ''psym_debug_section_geometry''),
       (string_index \<ge> section_count \<or> section_offset > int (length data) \<or> section_count * 64 > int (length data) - section_offset,
        ''psym_debug_section_geometry'')])"

definition debug_sections :: "bytes \<Rightarrow> elf_section list res" where
  "debug_sections data =
     (let section_offset = nat (rd 8 data 40); section_count = nat (rd 2 data 60) in
      rbind (rmap (\<lambda>index. section_row_at data (section_offset + index * 64)) [0..<section_count]) (\<lambda>raw_sections.
      let string_section = raw_sections ! nat (rd 2 data 62) in
      guarded [(sw_type string_section \<noteq> 3 \<or> sw_offset string_section > int (length data) \<or>
        sw_size string_section > int (length data) - sw_offset string_section, ''psym_debug_section_names'')]
      (let section_names = bslice data (nat (sw_offset string_section)) (nat (sw_offset string_section + sw_size string_section)) in
       rbind (rfold (elf_section_step data (int section_count) section_names) (enumerate 0 raw_sections) ([], [])) (\<lambda>(sections, _).
       guarded [
         (list_ex (\<lambda>name. section_by_name sections name = None) REQUIRED_DWARF5_SECTIONS, ''psym_debug_required_sections''),
         (list_ex (\<lambda>name. section_by_name sections name \<noteq> None) [''.gnu_debuglink'', ''.note.gnu.build-id''], ''psym_debug_legacy_identity'')]
       (Inr sections)))))"

definition debug_symbols :: "bytes \<Rightarrow> elf_section list \<Rightarrow> elf_symbol list res" where
  "debug_symbols data sections = (case section_by_name sections ''.symtab'' of None \<Rightarrow> Inl KeyError
     | Some symtab \<Rightarrow>
       guarded [(es_section_type symtab \<noteq> 2 \<or> es_entry_bytes symtab \<noteq> 24 \<or> es_byte_count symtab mod 24 \<noteq> 0, ''psym_debug_symtab_geometry'')]
       (if es_link symtab < int (length sections) then
          let string_table = sections ! nat (es_link symtab) in
          guarded [(es_name string_table \<noteq> ''.strtab'' \<or> es_section_type string_table \<noteq> 3, ''psym_debug_symtab_link'')]
          (rmap (\<lambda>i. elf_symbol_at data (section_data data string_table) (nat (es_offset symtab) + i * 24))
             [0..<nat (es_byte_count symtab div 24)])
        else Inl IndexError))"

definition inspect_debug_elf :: "bytes \<Rightarrow> debug_elf res" where
  "inspect_debug_elf data =
     guarded (debug_header_checks data)
     (rbind (debug_sections data) (\<lambda>sections.
      rbind (debug_symbols data sections) (\<lambda>symbols.
      case section_by_name sections ''.debug_info'' of None \<Rightarrow> Inl KeyError
      | Some debug_info \<Rightarrow>
        rbind (dwarf_versions (section_data data debug_info)) (\<lambda>versions.
        guarded [
          (list_ex (\<lambda>version. version \<notin> {4, 5}) versions \<or> take 3 versions \<noteq> [5, 5, 5], ''psym_debug_dwarf_version''),
          (list_ex (\<lambda>marker. occurs_in marker data) host_path_markers, ''psym_debug_host_path'')]
        (Inr \<lparr>de_byte_count = int (length data), de_sha256 = hex_upper (sha256 data), de_sections = sections, de_symbols = symbols,
           de_dwarf_versions = versions\<rparr>)))))"

definition select_public :: "debug_elf \<Rightarrow> string \<Rightarrow> elf_symbol res" where
  "select_public debug name = (case filter (\<lambda>y. ey_name y = name) (de_symbols debug) of
     [item] \<Rightarrow> guarded [(ey_binding item \<noteq> BIND_GLOBAL \<or> ey_kind item \<noteq> 2 \<or> ey_visibility item \<noteq> VISIBILITY_DEFAULT \<or>
       ey_section_index item = 0 \<or> ey_byte_count item = 0, ''psym_debug_public_symbol'')] (Inr item)
   | _ \<Rightarrow> Inl (Fail ''psym_debug_public_symbol''))"

definition public_symbol :: "nat \<times> elf_symbol \<Rightarrow> sy_symbol" where
  "public_symbol = (\<lambda>(index, item).
     let flags = SYMBOL_EXECUTABLE OR SYMBOL_DIAGNOSTIC_PUBLIC;
         flags = (if ey_name item = ''poole_kernel_entry'' then flags OR SYMBOL_ENTRY else flags);
         flags = (if ey_name item = ''poole_kernel_emergency_panic'' then flags OR SYMBOL_PANIC_SAFE else flags) in
     psym_symbol (int index) 2 SYMBOL_FUNCTION flags (ey_value item) (ey_byte_count item) (ey_name item))"

definition public_symbols_from_debug :: "debug_elf \<Rightarrow> sy_symbol list res" where
  "public_symbols_from_debug debug =
     rbind (rmap (select_public debug) PUBLIC_SYMBOL_NAMES) (\<lambda>selected.
     Inr (map public_symbol (enumerate 1 (sort_key ey_value selected))))"

definition bundle_from_debug :: "bytes \<Rightarrow> bytes \<Rightarrow> string \<Rightarrow> bytes \<Rightarrow> string \<Rightarrow> bytes res" where
  "bundle_from_debug debug_data canonical_file_data preferred_loaded_sha256 source_manifest_data build_id =
     rbind (inspect_debug_elf debug_data) (\<lambda>debug.
     if list_all (\<lambda>c. (of_char c :: nat) < 128) build_id then
       rbind (public_symbols_from_debug debug) (\<lambda>symbols.
       psym_encode (psym_default_args \<lparr>si_canonical_file_sha256 = hex_upper (sha256 canonical_file_data),
         si_preferred_loaded_sha256 = preferred_loaded_sha256, si_build_id_sha256 = hex_upper (sha256 (ascii_bytes build_id)),
         si_debug_file_sha256 = de_sha256 debug, si_source_manifest_sha256 = hex_upper (sha256 source_manifest_data)\<rparr>
         canonical_segments symbols CANONICAL_IMAGE_BYTES CANONICAL_ENTRY_OFFSET))
     else Inl UnicodeError)"

section \<open>The units of the debug information\<close>

definition dwarf_unit_wf :: "bytes \<Rightarrow> int \<Rightarrow> bool" where
  "dwarf_unit_wf u v \<longleftrightarrow>
     (rd 4 u 0 < 0xFFFFFFF0 \<and> 2 \<le> rd 4 u 0 \<and> int (length u) = 4 + rd 4 u 0 \<and> v = rd 2 u 4) \<or>
     (rd 4 u 0 = 0xFFFFFFFF \<and> 2 \<le> rd 8 u 4 \<and> int (length u) = 12 + rd 8 u 4 \<and> v = rd 2 u 12)"

lemma dwarf_unit_wf_nonempty: "dwarf_unit_wf u v \<Longrightarrow> 6 \<le> length u"
  by (auto simp: dwarf_unit_wf_def)

lemma dwarf_unit_append:
  assumes "dwarf_unit_wf u v"
  shows "dwarf_unit (p @ u @ r) (length p) = Inr (v, length p + length u)"
proof -
  have l: "6 \<le> length u" by (rule dwarf_unit_wf_nonempty [OF assms])
  have r: "rd n (p @ u @ r) (length p + j) = rd n u j" if "j + n \<le> length u" for n j
    using that by (simp add: rd_append2 rd_append1)
  have r0: "rd 4 (p @ u @ r) (length p) = rd 4 u 0" using r [of 0 4] l by simp
  consider (short) "rd 4 u 0 < 0xFFFFFFF0" "2 \<le> rd 4 u 0" "int (length u) = 4 + rd 4 u 0" "v = rd 2 u 4"
    | (long) "rd 4 u 0 = 0xFFFFFFFF" "2 \<le> rd 8 u 4" "int (length u) = 12 + rd 8 u 4" "v = rd 2 u 12"
    using assms by (auto simp: dwarf_unit_wf_def)
  then show ?thesis
  proof cases
    case short
    then show ?thesis using r [of 4 2] l by (simp add: dwarf_unit_def Let_def r0 guarded.simps nat_add_distrib)
  next
    case long
    then have "rd 8 (p @ u @ r) (length p + 4) = rd 8 u 4" "rd 2 (p @ u @ r) (length p + 12) = rd 2 u 12" using r [of 4 8] r [of 12 2] by simp_all
    then show ?thesis using long by (simp add: dwarf_unit_def Let_def r0 guarded.simps)
  qed
qed

lemma dwarf_unit_Inr:
  assumes "dwarf_unit d i = Inr (v, e)"
  shows "dwarf_unit_wf (bslice d i e) v"
proof -
  have b: "i < e" "e \<le> length d" by (rule dwarf_unit_advances [OF assms])+
  then have l: "length (bslice d i e) = e - i" by (simp add: length_slice)
  consider (long) "rd 4 d i = 0xFFFFFFFF" "2 \<le> rd 8 d (i + 4)" "int e = int i + 12 + rd 8 d (i + 4)" "v = rd 2 d (i + 12)"
    | (short) "rd 4 d i < 0xFFFFFFF0" "2 \<le> rd 4 d i" "int e = int i + 4 + rd 4 d i" "v = rd 2 d (i + 4)"
    using assms by (auto simp: dwarf_unit_def Let_def guarded_Inr_iff rbind_Inr_iff split: if_splits)
  then show ?thesis by cases (simp_all add: dwarf_unit_wf_def l rd_bslice)
qed

lemma dwarf_loop_complete: "list_all2 dwarf_unit_wf us xs \<Longrightarrow> dwarf_loop (p @ concat us) (length p) vs = Inr (vs @ xs)"
proof (induction us xs arbitrary: p vs rule: list_all2_induct)
  case Nil
  show ?case by (subst dwarf_loop.simps) simp
next
  case (Cons u us v xs)
  have "u \<noteq> []" using dwarf_unit_wf_nonempty [OF Cons.hyps(1)] by auto
  then show ?case
    using dwarf_unit_append [OF Cons.hyps(1), of p "concat us"] Cons.IH [of "p @ u" "vs @ [v]"] by (subst dwarf_loop.simps) simp
qed

lemma dwarf_loop_sound:
  "dwarf_loop d i vs = Inr ws \<Longrightarrow> i \<le> length d \<Longrightarrow> \<exists>us xs. ws = vs @ xs \<and> drop i d = concat us \<and> list_all2 dwarf_unit_wf us xs"
proof (induction d i vs rule: dwarf_loop.induct)
  case (1 d i vs)
  show ?case
  proof (cases "i < length d")
    case False
    then have "ws = vs" using 1(2) by (subst (asm) dwarf_loop.simps) simp
    then show ?thesis using False by (intro exI [of _ "[]"]) simp
  next
    case True
    then obtain v e where u: "dwarf_unit d i = Inr (v, e)" and r: "dwarf_loop d e (vs @ [v]) = Inr ws"
      using 1(2) by (subst (asm) dwarf_loop.simps) (auto split: sum.splits)
    have b: "i < e" "e \<le> length d" by (rule dwarf_unit_advances [OF u])+
    obtain us xs where us: "ws = (vs @ [v]) @ xs" "drop e d = concat us" "list_all2 dwarf_unit_wf us xs"
      using 1(1) [OF True u refl r b(2)] by blast
    have "drop i d = bslice d i e @ drop e d" using b append_take_drop_id [of "e - i" "drop i d"] by (simp add: bslice_def)
    then show ?thesis using us dwarf_unit_Inr [OF u] by (intro exI [of _ "bslice d i e # us"] exI [of _ "v # xs"]) simp
  qed
qed

text \<open>
  The reader of the debug information is exact: it returns a list of versions if and only if the section is the
  concatenation of at least one well-formed unit, in the 32-bit or the 64-bit format, with these versions in this order.
  Anything else, a trailing fragment or a reserved length included, is refused; the loop always ends.
\<close>

theorem dwarf_versions_iff:
  "dwarf_versions d = Inr vs \<longleftrightarrow> vs \<noteq> [] \<and> (\<exists>us. d = concat us \<and> list_all2 dwarf_unit_wf us vs)"
proof
  assume "dwarf_versions d = Inr vs"
  then have "dwarf_loop d 0 [] = Inr vs" "vs \<noteq> []" by (auto simp: dwarf_versions_def rbind_Inr_iff guarded_Inr_iff)
  then show "vs \<noteq> [] \<and> (\<exists>us. d = concat us \<and> list_all2 dwarf_unit_wf us vs)" using dwarf_loop_sound [of d 0 "[]" vs] by auto
next
  assume "vs \<noteq> [] \<and> (\<exists>us. d = concat us \<and> list_all2 dwarf_unit_wf us vs)"
  then obtain us where "vs \<noteq> []" "d = concat us" "list_all2 dwarf_unit_wf us vs" by blast
  then show "dwarf_versions d = Inr vs" using dwarf_loop_complete [of us vs "[]" "[]"] by (simp add: dwarf_versions_def guarded.simps)
qed

section \<open>The errors of the reader\<close>

lemma own_errors_cstring: "own_errors (cstring d i c)"
  by (simp add: cstring_def Let_def own_errors_guarded)

lemma own_errors_dwarf: "own_errors (dwarf_versions d)"
proof -
  have u: "own_errors (dwarf_unit d i)" for d i
    unfolding dwarf_unit_def Let_def by (intro own_errors_guarded own_errors_rbind) (auto intro!: own_errors_guarded split: prod.splits)
  have "own_errors (dwarf_loop d i vs)" for d i vs
  proof (induction d i vs rule: dwarf_loop.induct)
    case (1 d i vs)
    then show ?case using u [of d i] by (subst dwarf_loop.simps) (auto split: sum.split simp: own_errors_def)
  qed
  then show ?thesis by (simp add: dwarf_versions_def own_errors_rbind own_errors_guarded)
qed

text \<open>What the sections accepted so far guarantee.\<close>

definition section_bounded :: "bytes \<Rightarrow> int \<Rightarrow> elf_section \<Rightarrow> bool" where
  "section_bounded d n s \<longleftrightarrow> 0 \<le> es_offset s \<and> 0 \<le> es_byte_count s \<and> 0 \<le> es_link s \<and> (es_link s < n \<or> es_link s = 0) \<and>
     (es_section_type s \<noteq> 8 \<longrightarrow> es_offset s + es_byte_count s \<le> int (length d))"

definition row_unsigned :: "section_row \<Rightarrow> bool" where
  "row_unsigned r \<longleftrightarrow> 0 \<le> sw_offset r \<and> 0 \<le> sw_size r \<and> 0 \<le> sw_link r"

lemma section_row_unsigned: "section_row_at d i = Inr r \<Longrightarrow> row_unsigned r"
  by (auto simp: section_row_at_def row_unsigned_def split: if_splits)

lemma elf_sections_bounded:
  assumes "rfold (elf_section_step d n nm) (enumerate k rows) (ss, seen) = Inr (ss', seen')" "list_all row_unsigned rows" "list_all (section_bounded d n) ss"
  shows "list_all (section_bounded d n) ss' \<and> length ss' = length ss + length rows"
  using assms
proof (induction rows arbitrary: k ss seen)
  case (Cons r rows)
  then obtain ss1 seen1 where s: "elf_section_step d n nm (k, r) (ss, seen) = Inr (ss1, seen1)"
    "rfold (elf_section_step d n nm) (enumerate (Suc k) rows) (ss1, seen1) = Inr (ss', seen')" by (auto simp: rbind_Inr_iff)
  have r: "row_unsigned r" "list_all row_unsigned rows" using Cons.prems(2) by simp_all
  obtain x where x: "ss1 = ss @ [x]" "section_bounded d n x"
    using s(1) r(1) unfolding elf_section_step_def prod.case rbind_Inr_iff guarded_Inr_iff by (auto simp: section_bounded_def row_unsigned_def)
  with Cons.IH [OF s(2) r(2)] Cons.prems(3) show ?case by simp
qed simp

lemma debug_sections_bounded:
  assumes "debug_sections d = Inr ss"
  shows "list_all (section_bounded d (int (length ss))) ss" "\<And>n. n \<in> set REQUIRED_DWARF5_SECTIONS \<Longrightarrow> section_by_name ss n \<noteq> None"
proof -
  obtain rows seen nm where r: "rmap (\<lambda>index. section_row_at d (nat (rd 8 d 40) + index * 64)) [0..<nat (rd 2 d 60)] = Inr rows"
    and f: "rfold (elf_section_step d (int (nat (rd 2 d 60))) nm) (enumerate 0 rows) ([], []) = Inr (ss, seen)"
    and q: "\<not> list_ex (\<lambda>name. section_by_name ss name = None) REQUIRED_DWARF5_SECTIONS"
    using assms unfolding debug_sections_def Let_def rbind_Inr_iff guarded_Inr_iff by (auto simp: rbind_Inr_iff guarded_Inr_iff split: prod.splits)
  have "list_all row_unsigned rows" using rmap_all [OF r section_row_unsigned] .
  from elf_sections_bounded [OF f this] rmap_Inr_length [OF r]
  show "list_all (section_bounded d (int (length ss))) ss" by simp
  show "section_by_name ss n \<noteq> None" if "n \<in> set REQUIRED_DWARF5_SECTIONS" for n using q that by (auto simp: list_ex_iff)
qed

lemma section_by_name_in: "section_by_name ss n = Some s \<Longrightarrow> s \<in> set ss"
  by (auto simp: section_by_name_def find_Some_iff) (metis nth_mem set_rev length_rev)

lemma own_errors_symbols:
  assumes "debug_sections d = Inr ss"
  shows "own_errors (debug_symbols d ss)"
proof -
  note b = debug_sections_bounded [OF assms]
  have "''.symtab'' \<in> set REQUIRED_DWARF5_SECTIONS" by (simp add: REQUIRED_DWARF5_SECTIONS_def)
  then obtain t where t: "section_by_name ss ''.symtab'' = Some t" using b(2) by fastforce
  then have tb: "section_bounded d (int (length ss)) t" and ne: "ss \<noteq> []" using b(1) section_by_name_in [OF t] by (auto simp: list_all_iff)
  then have link: "es_link t < int (length ss)" by (auto simp: section_bounded_def)
  have at: "own_errors (elf_symbol_at d nm (nat (es_offset t) + i * 24))"
    if "es_section_type t = 2" "i < nat (es_byte_count t div 24)" for nm i
  proof -
    have "es_offset t + es_byte_count t \<le> int (length d)" "0 \<le> es_offset t" "0 \<le> es_byte_count t" using tb that(1) by (simp_all add: section_bounded_def)
    then have "nat (es_offset t) + i * 24 + 24 \<le> length d" using that(2) by linarith
    then show ?thesis by (simp add: elf_symbol_at_def own_errors_rbind own_errors_cstring)
  qed
  show ?thesis unfolding debug_symbols_def t using link at
    by (auto simp: Let_def intro!: own_errors_guarded own_errors_rmap)
qed

lemma own_errors_sections:
  assumes "list_all (\<lambda>(bad, _). \<not> bad) (debug_header_checks d)"
  shows "own_errors (debug_sections d)"
proof -
  have g: "rd 8 d 40 + rd 2 d 60 * 64 \<le> int (length d)" using assms by (auto simp: debug_header_checks_def Let_def)
  have row: "own_errors (section_row_at d (nat (rd 8 d 40) + i * 64))" if "i < nat (rd 2 d 60)" for i
  proof -
    have "0 \<le> rd 8 d 40" "0 \<le> rd 2 d 60" by simp_all
    then have "nat (rd 8 d 40) + i * 64 + 64 \<le> length d" using that g by linarith
    then show ?thesis by (simp add: section_row_at_def)
  qed
  have step: "own_errors (elf_section_step d n nm x s)" for n nm x s
    unfolding elf_section_step_def by (cases x; cases s) (auto intro!: own_errors_rbind own_errors_guarded own_errors_cstring)
  show ?thesis unfolding debug_sections_def Let_def
    by (intro own_errors_rbind own_errors_rmap own_errors_guarded own_errors_rfold) (auto simp: row step intro!: own_errors_guarded split: prod.splits)
qed

text \<open>
  Whatever the bytes of the debug file, the reader returns or raises one of the errors of its module: it never reads
  outside the file, never indexes past the section table, and finds every section it looks up.
\<close>

theorem inspect_debug_elf_errors:
  "(\<exists>debug. inspect_debug_elf d = Inr debug) \<or> (\<exists>c. inspect_debug_elf d = Inl (Fail c))"
proof -
  have "own_errors (inspect_debug_elf d)"
    unfolding inspect_debug_elf_def
  proof (intro own_errors_guarded own_errors_rbind own_errors_sections own_errors_symbols)
    fix ss ys assume s: "debug_sections d = Inr ss"
    have "''.debug_info'' \<in> set REQUIRED_DWARF5_SECTIONS" by (simp add: REQUIRED_DWARF5_SECTIONS_def)
    then obtain t where "section_by_name ss ''.debug_info'' = Some t" using debug_sections_bounded(2) [OF s] by fastforce
    then show "own_errors (case section_by_name ss ''.debug_info'' of None \<Rightarrow> Inl KeyError
      | Some debug_info \<Rightarrow> rbind (dwarf_versions (section_data d debug_info)) (\<lambda>versions.
        guarded [(list_ex (\<lambda>version. version \<notin> {4, 5}) versions \<or> take 3 versions \<noteq> [5, 5, 5], ''psym_debug_dwarf_version''),
          (list_ex (\<lambda>marker. occurs_in marker d) host_path_markers, ''psym_debug_host_path'')]
        (Inr \<lparr>de_byte_count = int (length d), de_sha256 = hex_upper (sha256 d), de_sections = ss, de_symbols = ys, de_dwarf_versions = versions\<rparr>)))"
      by (simp add: own_errors_rbind own_errors_guarded own_errors_dwarf)
  qed
  then show ?thesis by (cases "inspect_debug_elf d") (auto simp: own_errors_def)
qed

section \<open>The public symbols\<close>

lemma select_public_Inr: "select_public debug name = Inr y \<Longrightarrow> y \<in> set (de_symbols debug) \<and> ey_name y = name"
proof -
  assume "select_public debug name = Inr y"
  then have "filter (\<lambda>y. ey_name y = name) (de_symbols debug) = [y]"
    by (auto simp: select_public_def guarded_Inr_iff split: list.splits)
  then have "y \<in> set (filter (\<lambda>y. ey_name y = name) (de_symbols debug))" by simp
  then show ?thesis by simp
qed

lemma selected_names:
  "rmap (select_public debug) names = Inr ys \<Longrightarrow> map ey_name ys = names \<and> set ys \<subseteq> set (de_symbols debug)"
  by (induction names arbitrary: ys) (auto simp: rbind_Inr_iff dest: select_public_Inr)

lemma public_symbol_fields [simp]:
  "sm_name (public_symbol (i, y)) = ey_name y" "sm_start_offset (public_symbol (i, y)) = ey_value y"
  "sm_byte_count (public_symbol (i, y)) = ey_byte_count y" "sm_symbol_id (public_symbol (i, y)) = int i"
  by (simp_all add: public_symbol_def Let_def psym_symbol_def)

lemma map_public: "(\<And>i y. f (public_symbol (i, y)) = g y) \<Longrightarrow> map f (map public_symbol (enumerate k ys)) = map g ys"
  by (induction ys arbitrary: k) simp_all

text \<open>
  The symbols taken from the debug file are the public ones, each once, numbered in the order of their addresses, and each
  with the address and size the debug file gives it.
\<close>

theorem public_symbols_from_debug_sound:
  assumes "public_symbols_from_debug debug = Inr ss"
  shows "mset (map sm_name ss) = mset PUBLIC_SYMBOL_NAMES \<and> sorted (map sm_start_offset ss) \<and>
    map sm_symbol_id ss = map int [1..<Suc (length PUBLIC_SYMBOL_NAMES)] \<and>
    set (map (\<lambda>s. (sm_name s, sm_start_offset s, sm_byte_count s)) ss) \<subseteq>
      set (map (\<lambda>y. (ey_name y, ey_value y, ey_byte_count y)) (de_symbols debug))"
proof -
  obtain ys where ys: "rmap (select_public debug) PUBLIC_SYMBOL_NAMES = Inr ys"
    and ss: "ss = map public_symbol (enumerate 1 (sort_key ey_value ys))"
    using assms by (auto simp: public_symbols_from_debug_def rbind_Inr_iff)
  note s = selected_names [OF ys]
  have l: "length ys = length PUBLIC_SYMBOL_NAMES" using s by (metis length_map)
  have m: "map sm_name ss = map ey_name (sort_key ey_value ys)" "map sm_start_offset ss = map ey_value (sort_key ey_value ys)"
    "map (\<lambda>s. (sm_name s, sm_start_offset s, sm_byte_count s)) ss = map (\<lambda>y. (ey_name y, ey_value y, ey_byte_count y)) (sort_key ey_value ys)"
    unfolding ss by (rule map_public; simp)+
  have ids: "map sm_symbol_id (map public_symbol (enumerate k zs)) = map int [k..<k + length zs]" for k zs
    by (rule nth_equalityI) (simp_all add: nth_enumerate_eq)
  have "mset (map sm_name ss) = mset (map ey_name ys)" unfolding m by simp
  moreover have "sorted (map sm_start_offset ss)" unfolding m by simp
  moreover have "map sm_symbol_id ss = map int [1..<Suc (length PUBLIC_SYMBOL_NAMES)]" unfolding ss ids by (simp add: l)
  moreover have "set (map (\<lambda>s. (sm_name s, sm_start_offset s, sm_byte_count s)) ss) \<subseteq>
      set (map (\<lambda>y. (ey_name y, ey_value y, ey_byte_count y)) (de_symbols debug))" unfolding m using s by auto
  ultimately show ?thesis using s by simp
qed

end
