(* ===== verification/Spec2Isabelle.thy ===== *)
theory Spec2Isabelle
  imports Recovery_Codec Recovery_Machine Recovery_Activation Boot_Artifact Scheduler_Run Smp_Shootdown
    Boot_Config_Codec Pdc_Equivalence Elf_Sample Kernel_Mapping Boot_Trust_Sample Boot_Handoff_Samples Symbols_Debug
begin

text \<open>
  A verification library for the executable reference models of PooleOS, the Python modules under
  \<open>src/runtime\<close> that fix what the native boot chain and kernel must do.

  The parts of the program and how they meet. A machine boots from a configuration text (PBC1) that names boot
  artifacts. Each artifact is wrapped in an envelope (PBART1); the recovery artifact holds a policy bundle (PREC1) that
  the recovery controller obeys: it keeps a state record, decides at every boot which of two slots runs, and moves on
  success receipts and failure reports. Before anything is trusted, a boot policy and a monotonic state kept in two
  redundant copies (PBTRUST1, PBSTATE1) decide whether the observed boot is authorised. The kernel image is an ELF file
  that the loader (PKELF1) inspects, copies and relocates; its mapping plan becomes the kernel's page table (PKMAP1), extended by the retained stack and handoff
  (PKMAP2). What the loader knows of the machine reaches the kernel as one handoff message (PBP1): memory map, loaded
  artifacts, random seed and the state at entry. A symbol bundle (PSYM1), made from the debug ELF of the kernel, names the
  addresses in its diagnostics. In the running kernel a fixed-capacity scheduler (PKSCHED1) picks tasks, and processors exchange requests
  and shoot down stale translations before memory is reclaimed (PKSMP5). Apart from the boot chain, the PDC oracles
  compute cellular neighbourhood counts in two independent ways.

  \<^bold>\<open>Conventions\<close> (\<open>Prelude\<close>). A call that may raise is a value of \<open>exn + 'a\<close>; \<open>Fail c\<close> is the module's own
  exception with its code or message, the other constructors are Python's exceptions. \<open>guarded\<close> is a chain of
  \<open>if bad: raise\<close>, \<open>rfold\<close> a loop that may raise, \<open>rmap\<close> a comprehension. Python integers are \<open>int\<close>, bytes are
  8-bit words; \<open>rd\<close>, \<open>packed\<close> and \<open>pack_into\<close> are the little-endian reads and writes of \<open>struct\<close>. Three
  interfaces are locales: \<open>codec\<close> (an encoder and a decoder that invert each other), \<open>gate\<close> (a list of checks behind
  an error list and an authorisation) and \<open>ratchet\<close> (a step relation with a growing generation and a floor that
  never sinks). They are interpreted on the artifact, state, trust-state, trust-policy, configuration, handoff and symbol
  codecs, on the activation and consumption gates and on the recovery controller. \<open>Sha256\<close> defines the hash the formats
  use; the properties rest on its length and, for the labels of the recovery bundles, on its computed values.

  \<^bold>\<open>Recovery\<close> (\<open>src/runtime/native_recovery.py\<close>).
  \<^item> \<open>Recovery_Constants\<close>, \<open>Recovery_Policy\<close>, \<open>Recovery_Codec\<close>: the constants, \<open>parse\<close> and \<open>encode\<close> of the bundle:
    accepted bundles are well formed, and encoding in-range parameters under one of the module's three labels returns and
    reads back; the SHA-256 digests of these labels are evaluated in the logic.
  \<^item> \<open>Recovery_State\<close>: \<open>encode_state\<close>, \<open>parse_state\<close> and the canonical state: exactly the valid states can be stored,
    each in one spelling.
  \<^item> \<open>Recovery_Transitions\<close>: \<open>select_boot\<close>, \<open>report_boot_success\<close> and \<open>report_boot_failure\<close> with all guards.
  \<^item> \<open>Recovery_Machine\<close>: the abstract boot and failure plans the transitions refine (the one case in which the failure
    action differs from the documented one included), the step relation over them, and the invariants, safety and bounds
    of every run.
  \<^item> \<open>Recovery_Activation\<close>: the twenty-one activation checks, and that each damaged context fails exactly one of them.

  \<^bold>\<open>Boot artifact\<close> (\<open>src/runtime/native_boot_artifact.py\<close>). \<open>Boot_Artifact\<close>: \<open>parse\<close>, \<open>parse_bound\<close>, \<open>encode\<close> and
  \<open>parse_recovery\<close>, which ties an envelope to the policy inside it.

  \<^bold>\<open>Boot configuration\<close> (\<open>src/runtime/native_boot_config.py\<close>). \<open>Ascii_Text\<close> has the string functions of Python the
  parser uses, \<open>Boot_Config\<close> the parser and encoder, \<open>Boot_Config_Codec\<close> that the parser accepts exactly the canonical
  texts of well-formed configurations and that the encoder produces them.

  \<^bold>\<open>Boot trust\<close> (\<open>src/runtime/native_boot_trust.py\<close>). \<open>Boot_Trust\<close>: the policy and state records, the selection
  of a state copy under the monotonic anchor, the transition plan and the authorisation. \<open>Boot_Trust_Backend\<close>: a
  selection is the anchored state, a plan exists unless the generation is exhausted and writes only the spare copy, so a
  torn write is survived. \<open>Boot_Trust_Codec\<close>: the state record round-trips; when a development boot is reported; and that
  \<open>_digest\<close> accepts blanks. \<open>Boot_Trust_Policy\<close>: the policy record round-trips, signed or not, and exactly which boots
  get development records. \<open>Boot_Trust_Sample\<close>: a first state with its digest computed in the logic.

  \<^bold>\<open>Boot handoff\<close> (\<open>src/runtime/native_boot_handoff.py\<close>). \<open>Boot_Handoff\<close>: CRC-32 and strict UTF-8, the validators of
  the twelve record types, \<open>decode\<close>, the checks across records, the kernel-entry profile and \<open>encode\<close>.
  \<open>Boot_Handoff_Codec\<close>: the image of a list of records, and that the decoder accepts exactly these images.
  \<open>Boot_Handoff_Encode\<close>: the encoder writes the image. \<open>Boot_Handoff_Safety\<close>: messages as a codec; an accepted memory map
  has no overlap, and a message that passes the kernel-entry profile hands over a verified kernel in a complete state.
  \<open>Boot_Handoff_Fixtures\<close>, \<open>Boot_Handoff_Samples\<close>: the three fixtures of the module, accepted and classified as its
  golden vectors demand, and a truncated message on which \<open>decode\<close> raises \<open>struct.error\<close>.

  \<^bold>\<open>Symbols\<close> (\<open>src/runtime/native_symbols.py\<close>). \<open>Symbols\<close>: the bundle, \<open>parse\<close>, \<open>encode\<close>, the binary search
  \<open>lookup\<close>, the consumption gate and the bundles of the module. \<open>Symbols_Lookup\<close>: what an accepted bundle guarantees, and
  that the binary search is a linear search that stays within its thirteen steps. \<open>Symbols_Codec\<close>, \<open>Symbols_Image\<close>,
  \<open>Symbols_Encode\<close>: the parser accepts exactly the files the encoder writes for well-formed bundles; the canonical bundle
  is one of them. \<open>Symbols_Debug\<close>: the reader of the debug ELF raises only its own errors, reads the DWARF units exactly,
  and yields the public symbols.

  \<^bold>\<open>Kernel image\<close> (\<open>src/runtime/native_elf_loader.py\<close>). \<open>Elf_Loader\<close>: \<open>inspect\<close>, \<open>load\<close> and the fixture builder.
  \<open>Elf_Loading\<close>: the layout every accepted image has, that \<open>load\<close> is a byte-by-byte reference image, and that each
  relocation is in place. \<open>Elf_Sample\<close>: the smallest fixture is built, accepted and loaded.

  \<^bold>\<open>Page tables\<close> (\<open>src/runtime/native_kernel_map.py\<close>). \<open>Kernel_Map\<close>: requests, the page-table model and its
  validation, the retained pages, the lifecycle checks. \<open>Kernel_Mapping\<close>: the four-level walk of every image address
  ends at the leaf of its mapping, every loadable image that fits has a table (the loader and the mapper composed), the
  retained pages overlap neither each other nor the private page tables (the root table in use before is not checked by
  the code), and validation accepts exactly what is built.

  \<^bold>\<open>Scheduler\<close> (\<open>src/runtime/native_kernel_scheduler.py\<close>). \<open>Scheduler\<close>: the oracle's operations and its stress run;
  \<open>Scheduler_Run\<close>: the invariant of all reachable states, that dispatch takes a best task and no task is passed over
  more than the bypass limit, and that the stress run returns.

  \<^bold>\<open>Processors\<close> (\<open>src/runtime/native_kernel_smp_ipi.py\<close>). \<open>Smp_Shootdown\<close>: resource layouts, requests and the reclaim
  protocol; nothing is reclaimed before every target acknowledged, no request is accepted twice, and the replay completes.

  \<^bold>\<open>PDC oracles\<close> (\<open>src/runtime/pdc_reference.py\<close>). \<open>Pdc_Reference\<close>: the scalar and matrix oracles, the site rule, the
  defect fields and closed forms; \<open>Pdc_Equivalence\<close>: the oracles agree and the next state follows the rule.

  \<^bold>\<open>Loops and bounds.\<close> Every loop of the modelled code is over a finite sequence or range and is structural recursion
  here, except the binary search of the symbols and the walk over debug units, whose termination is proved by the shrinking
  interval and the growing offset; so all definitions are total and no fuel is needed; where a theorem says that an operation returns, it shows an
  \<open>Inr\<close>. Bounds are the source's own: 4096 stress rounds, eight tasks, 4096 relocations, 512 table entries.

  \<^bold>\<open>Not modelled.\<close> Golden vectors, readiness, contract and evidence JSON, boot-marker parsers and text summaries of the
  modelled modules (reports about the code above, without state); \<open>channel_counts\<close> and \<open>canonical_array_hash\<close> of the PDC
  module; the payload formats behind the other artifact roles (policy, microcode, firmware, initial system)
  and the system manifest; the trap encodings; the remaining kernel evidence modules; the tools that drive QEMU, WSL and
  the release gate (processes, files and network); the native Rust code. They are listed in the manifest.
\<close>

section \<open>Recovery artifact and policy together\<close>

lemma sample_recovery_artifact:
  "parse_recovery (pbart_image ROLE_RECOVERY 1 (bundle_raw sample_policy)) =
   Inr (artifact_of ROLE_RECOVERY 1 (bundle_raw sample_policy), sample_policy)"
proof -
  have len: "length (bundle_raw sample_policy) = 992" using prec_parse_accepts [OF sample_policy_facts(1)] by simp
  have "pbart_parse (pbart_image ROLE_RECOVERY 1 (bundle_raw sample_policy)) =
      Inr (artifact_of ROLE_RECOVERY 1 (bundle_raw sample_policy))"
    by (rule pbart_parse_image) (use len in \<open>auto simp: code_defs\<close>)
  then show ?thesis
    by (simp add: parse_recovery_def guarded.simps artifact_of_def sample_policy_facts(1,2))
qed

theorem parse_recovery_binds_witness:
  "length (pbart_image ROLE_RECOVERY 1 (bundle_raw sample_policy)) = 1088 \<and> prec_bundle_wf sample_policy"
  using parse_recovery_binds [OF sample_recovery_artifact] by simp

end
